(* ===== verification/Ish_Prelude.thy ===== *)
theory Ish_Prelude
  imports Main "HOL-Library.Word"
begin

unbundle bit_operations_syntax

text \<open>
  Shared vocabulary of the development: the fixed-width integer types of \<^verbatim>\<open>misc.h\<close>,
  \<open>size_t\<close> arithmetic with its wrap-around written out on \<open>nat\<close>, bounded block copies
  (\<open>memcpy\<close>), the error codes of \<^verbatim>\<open>kernel/errno.h\<close> and generic lemmas on lists, options
  and words that the component theories share.
\<close>

section \<open>Collections of facts\<close>

named_theorems size_simps \<open>wrap-free size_t arithmetic\<close>
named_theorems copy_simps \<open>facts about block copies\<close>
named_theorems unat_simps \<open>words read as natural numbers\<close>
named_theorems errno_simps \<open>unfolding of error codes\<close>

section \<open>Machine types (misc.h)\<close>

type_synonym u8 = "8 word"
type_synonym u16 = "16 word"
type_synonym u32 = "32 word"
type_synonym u64 = "64 word"
type_synonym u128 = "128 word"
type_synonym addr_t = "32 word"

abbreviation tst :: "'a::len word \<Rightarrow> 'a word \<Rightarrow> bool" where
  "tst fl m \<equiv> (fl AND m) \<noteq> 0"

section \<open>\<open>size_t\<close> arithmetic\<close>

text \<open>A \<open>size_t\<close> is a natural number below \<open>2 ^ 64\<close>; addition and subtraction wrap.\<close>

definition size_max :: nat where
  "size_max = 2 ^ 64"

definition szadd :: "nat \<Rightarrow> nat \<Rightarrow> nat" where
  "szadd a b = (a + b) mod size_max"

definition szsub :: "nat \<Rightarrow> nat \<Rightarrow> nat" where
  "szsub a b = (a + size_max - b) mod size_max"

lemma size_max_pos [simp]: "0 < size_max"
  by (simp add: size_max_def)

lemma szadd_exact [size_simps]: "a + b < size_max \<Longrightarrow> szadd a b = a + b"
  by (simp add: szadd_def)

lemma szsub_exact [size_simps]: "b \<le> a \<Longrightarrow> a < size_max \<Longrightarrow> szsub a b = a - b"
proof -
  assume "b \<le> a" "a < size_max"
  then have "a + size_max - b = (a - b) + size_max" by simp
  then have "szsub a b = (a - b) mod size_max" unfolding szsub_def by (simp only: mod_add_self2)
  with \<open>a < size_max\<close> show ?thesis by (simp only: mod_less less_imp_diff_less)
qed

section \<open>Words as natural numbers\<close>

lemma unat_lt: "unat w < 2 ^ LENGTH('a)" for w :: "'a::len word"
  by (rule unsigned_less)

lemma unat_drop_bit [unat_simps]: "unat (drop_bit n w) = unat w div 2 ^ n" for w :: "'a::len word"
  by (simp only: unat_drop_bit_eq) (simp only: drop_bit_eq_div)

lemma unat_take_bit [unat_simps]: "unat (take_bit n w) = unat w mod 2 ^ n" for w :: "'a::len word"
  by (simp only: unsigned_take_bit_eq) (simp only: take_bit_eq_mod)

lemma unat_ucast [unat_simps]: "unat (ucast w :: 'b::len word) = unat w mod 2 ^ LENGTH('b)"
  for w :: "'a::len word"
  by (simp only: unsigned_ucast_eq) (simp only: take_bit_eq_mod)

lemma unat_push_bit [unat_simps]: "unat (push_bit n w) = unat w * 2 ^ n mod 2 ^ LENGTH('a)"
  for w :: "'a::len word"
  by (simp only: unsigned_push_bit_eq) (simp only: take_bit_eq_mod push_bit_eq_mult)

lemma unat_and_one [unat_simps]: "unat (w AND 1) = unat w mod 2" for w :: "'a::len word"
  by (simp only: unsigned_and_eq unsigned_1) (simp only: and_one_eq)

lemma unat_and_low [unat_simps]: "unat (w AND NOT (push_bit n (- 1))) = unat w mod 2 ^ n"
  for w :: "'a::len word"
proof -
  have "w AND NOT (push_bit n (- 1)) = take_bit n w"
    by (simp add: push_bit_minus_one_eq_not_mask take_bit_eq_mask)
  then show ?thesis by (simp only: unat_take_bit)
qed

section \<open>Flag tests\<close>

lemma tst_iff: "tst f m \<longleftrightarrow> (\<exists>n. bit f n \<and> bit m n)"
  by (auto simp: bit_eq_iff bit_simps dest: bit_imp_le_length)

lemma tst_or: "tst (f OR g) m \<longleftrightarrow> tst f m \<or> tst g m"
  unfolding tst_iff by (auto simp: bit_simps)

lemma not_tst_clear: "\<not> tst (f AND NOT m) m"
  by (rule notI) (simp add: ac_simps)

section \<open>Error codes (kernel/errno.h)\<close>

text \<open>
  The source returns an error as a small negative integer. The model returns the error as a value
  of this type, on the left of a sum; \<open>errno_code\<close> gives the number the guest sees.
\<close>

datatype errno =
    EPERM | ENOENT | ESRCH | EINTR | EIO | ENXIO | E2BIG | ENOEXEC | EBADF | ECHILD
  | EAGAIN | ENOMEM | EACCES | EFAULT | ENOTBLK | EBUSY | EEXIST | EXDEV | ENODEV | ENOTDIR
  | EISDIR | EINVAL | ENFILE | EMFILE | ENOTTY | ETXTBSY | EFBIG | ENOSPC | ESPIPE | EROFS
  | EMLINK | EPIPE | EDOM | ERANGE | EDEADLK | ENAMETOOLONG | ENOLCK | ENOSYS | ENOTEMPTY | ELOOP
  | ETIMEDOUT

type_synonym 'a result = "errno + 'a"

fun errno_code :: "errno \<Rightarrow> int" where
  "errno_code EPERM = -1" | "errno_code ENOENT = -2" | "errno_code ESRCH = -3"
| "errno_code EINTR = -4" | "errno_code EIO = -5" | "errno_code ENXIO = -6"
| "errno_code E2BIG = -7" | "errno_code ENOEXEC = -8" | "errno_code EBADF = -9"
| "errno_code ECHILD = -10" | "errno_code EAGAIN = -11" | "errno_code ENOMEM = -12"
| "errno_code EACCES = -13" | "errno_code EFAULT = -14" | "errno_code ENOTBLK = -15"
| "errno_code EBUSY = -16" | "errno_code EEXIST = -17" | "errno_code EXDEV = -18"
| "errno_code ENODEV = -19" | "errno_code ENOTDIR = -20" | "errno_code EISDIR = -21"
| "errno_code EINVAL = -22" | "errno_code ENFILE = -23" | "errno_code EMFILE = -24"
| "errno_code ENOTTY = -25" | "errno_code ETXTBSY = -26" | "errno_code EFBIG = -27"
| "errno_code ENOSPC = -28" | "errno_code ESPIPE = -29" | "errno_code EROFS = -30"
| "errno_code EMLINK = -31" | "errno_code EPIPE = -32" | "errno_code EDOM = -33"
| "errno_code ERANGE = -34" | "errno_code EDEADLK = -35" | "errno_code ENAMETOOLONG = -36"
| "errno_code ENOLCK = -37" | "errno_code ENOSYS = -38" | "errno_code ENOTEMPTY = -39"
| "errno_code ELOOP = -40" | "errno_code ETIMEDOUT = -110"

lemma errno_code_neg: "errno_code e < 0"
  by (cases e) simp_all

section \<open>Block copies\<close>

text \<open>
  \<open>memcpy(&buf[off], xs, length xs)\<close>: \<open>None\<close> stands for an access outside the buffer.
\<close>

definition copy_into :: "'a list \<Rightarrow> nat \<Rightarrow> 'a list \<Rightarrow> 'a list option" where
  "copy_into buf off xs =
     (if off + length xs \<le> length buf
      then Some (take off buf @ xs @ drop (off + length xs) buf) else None)"

definition copy_from :: "'a list \<Rightarrow> nat \<Rightarrow> nat \<Rightarrow> 'a list option" where
  "copy_from buf off n =
     (if off + n \<le> length buf then Some (take n (drop off buf)) else None)"

lemma length_copy_into [copy_simps]: "copy_into buf off xs = Some b \<Longrightarrow> length b = length buf"
  by (auto simp: copy_into_def split: if_splits)

lemma nth_copy_into [copy_simps]:
  "copy_into buf off xs = Some b \<Longrightarrow> i < length buf \<Longrightarrow>
     b ! i = (if off \<le> i \<and> i < off + length xs then xs ! (i - off) else buf ! i)"
  by (auto simp: copy_into_def nth_append min_def split: if_splits)

lemma length_copy_from [copy_simps]: "copy_from buf off n = Some xs \<Longrightarrow> length xs = n"
  by (auto simp: copy_from_def split: if_splits)

lemma nth_copy_from [copy_simps]: "copy_from buf off n = Some xs \<Longrightarrow> i < n \<Longrightarrow> xs ! i = buf ! (off + i)"
  by (auto simp: copy_from_def split: if_splits)

end
