(* ===== verification/Fifo.thy ===== *)
theory Fifo
  imports Ish_Prelude
begin

text \<open>
  The ring buffer of \<^verbatim>\<open>util/fifo.c\<close>: its record, its five operations with every \<open>memcpy\<close>
  bounds-checked, the abstraction of a ring to the list of bytes it holds, and the ring-buffer
  interface that its client \<^verbatim>\<open>kernel/log.c\<close> relies on.
\<close>

section \<open>Model\<close>

record fifo =
  ff_buf :: "u8 list"
  ff_capacity :: nat
  ff_size :: nat
  ff_start :: nat

definition FIFO_OVERWRITE :: u32 where "FIFO_OVERWRITE = 1"
definition FIFO_PEEK :: u32 where "FIFO_PEEK = 1"
definition FIFO_LAST :: u32 where "FIFO_LAST = 2"

text \<open>\<open>malloc\<close> returns memory of unspecified content: \<open>junk\<close>, of the requested length.\<close>

definition fifo_init :: "u8 list \<Rightarrow> fifo" where
  "fifo_init junk = \<lparr>ff_buf = junk, ff_capacity = length junk, ff_size = 0, ff_start = 0\<rparr>"

definition fifo_remaining :: "fifo \<Rightarrow> nat" where
  "fifo_remaining f = szsub (ff_capacity f) (ff_size f)"

text \<open>
  \<open>Some (rc, f')\<close> is a normal return; \<open>None\<close> is an access outside the buffer or a division by a
  zero capacity, which C leaves undefined.
\<close>

definition fifo_write :: "fifo \<Rightarrow> u8 list \<Rightarrow> u32 \<Rightarrow> (int \<times> fifo) option" where
  "fifo_write f data flags =
     (let size = length data; remaining = fifo_remaining f in
      if size > remaining \<and> \<not> tst flags FIFO_OVERWRITE then Some (1, f)
      else if ff_capacity f = 0 then None
      else
        let excess = szsub size remaining;
            f1 = (if size > remaining
                  then f\<lparr>ff_start := szadd (ff_start f) excess mod ff_capacity f,
                         ff_size := szsub (ff_size f) excess\<rparr>
                  else f);
            tail = szadd (ff_start f1) (ff_size f1) mod ff_capacity f1;
            first_copy_size = min (ff_capacity f1 - tail) size
        in case copy_into (ff_buf f1) tail (take first_copy_size data) of
             None \<Rightarrow> None
           | Some b1 \<Rightarrow>
               (case copy_into b1 0 (drop first_copy_size data) of
                  None \<Rightarrow> None
                | Some b2 \<Rightarrow> Some (0, f1\<lparr>ff_buf := b2, ff_size := szadd (ff_size f1) size\<rparr>)))"

text \<open>
  \<open>Some (Some xs, f')\<close> is return value 0 with \<open>xs\<close> stored at \<open>buf\<close>; \<open>Some (None, f)\<close> is return
  value 1, where the caller's buffer is left untouched.
\<close>

definition fifo_read :: "fifo \<Rightarrow> nat \<Rightarrow> u32 \<Rightarrow> (u8 list option \<times> fifo) option" where
  "fifo_read f n flags =
     (if n > ff_size f then Some (None, f)
      else if ff_capacity f = 0 \<and> (tst flags FIFO_LAST \<or> \<not> tst flags FIFO_PEEK) then None
      else
        let start = (if tst flags FIFO_LAST
                     then szadd (ff_start f) (szsub (ff_size f) n) mod ff_capacity f
                     else ff_start f);
            first_copy_size = min (szsub (ff_capacity f) (ff_start f)) n
        in case copy_from (ff_buf f) start first_copy_size of
             None \<Rightarrow> None
           | Some xs \<Rightarrow>
               (case copy_from (ff_buf f) 0 (n - first_copy_size) of
                  None \<Rightarrow> None
                | Some ys \<Rightarrow>
                    Some (Some (xs @ ys),
                      if tst flags FIFO_PEEK then f
                      else f\<lparr>ff_start := szadd start n mod ff_capacity f,
                             ff_size := szsub (ff_size f) n\<rparr>)))"

definition fifo_flush :: "fifo \<Rightarrow> fifo" where
  "fifo_flush f = f\<lparr>ff_size := 0\<rparr>"

section \<open>Invariant and abstraction\<close>

definition fifo_inv :: "fifo \<Rightarrow> bool" where
  "fifo_inv f \<longleftrightarrow> 0 < ff_capacity f \<and> ff_capacity f < 2 ^ 63 \<and> length (ff_buf f) = ff_capacity f
     \<and> ff_size f \<le> ff_capacity f \<and> ff_start f < ff_capacity f"

definition fifo_list :: "fifo \<Rightarrow> u8 list" where
  "fifo_list f = map (\<lambda>i. ff_buf f ! ((ff_start f + i) mod ff_capacity f)) [0..<ff_size f]"

lemma length_fifo_list [simp]: "length (fifo_list f) = ff_size f"
  by (simp add: fifo_list_def)

lemma nth_fifo_list [simp]:
  "i < ff_size f \<Longrightarrow> fifo_list f ! i = ff_buf f ! ((ff_start f + i) mod ff_capacity f)"
  by (simp add: fifo_list_def)

lemma fifo_inv_bounds:
  "fifo_inv f \<Longrightarrow> ff_capacity f + ff_capacity f < size_max"
  by (simp add: fifo_inv_def size_max_def)

lemma fifo_inv_init:
  "0 < length junk \<Longrightarrow> length junk < 2 ^ 63 \<Longrightarrow> fifo_inv (fifo_init junk)"
  by (simp add: fifo_inv_def fifo_init_def)

section \<open>Ring arithmetic\<close>

lemma mod_two_windings: "a < 2 * c \<Longrightarrow> a mod c = (if a < c then a else a - (c::nat))"
  by (cases "a < c") (simp_all add: le_mod_geq)

text \<open>Storing a block at \<open>tail\<close> in two copies writes the window of the ring that starts there.\<close>

lemma ring_store:
  assumes "tail < c" "length xs \<le> c" "length b = c" "k = min (c - tail) (length xs)"
  obtains b1 b2 where "copy_into b tail (take k xs) = Some b1" "copy_into b1 0 (drop k xs) = Some b2"
    "length b2 = c"
    "\<And>p. p < c \<Longrightarrow> b2 ! p = (let d = (if tail \<le> p then p - tail else p + c - tail)
                              in if d < length xs then xs ! d else b ! p)"
proof -
  have fit1: "tail + length (take k xs) \<le> length b" using assms by auto
  then obtain b1 where b1: "copy_into b tail (take k xs) = Some b1"
    by (simp add: copy_into_def)
  have l1: "length b1 = c" using length_copy_into [OF b1] assms by simp
  have "length (drop k xs) \<le> length b1" using assms l1 by auto
  then obtain b2 where b2: "copy_into b1 0 (drop k xs) = Some b2"
    by (simp add: copy_into_def)
  have l2: "length b2 = c" using length_copy_into [OF b2] l1 by simp
  have "b2 ! p = (let d = (if tail \<le> p then p - tail else p + c - tail)
                  in if d < length xs then xs ! d else b ! p)" if p: "p < c" for p
  proof -
    have n1: "b1 ! p = (if tail \<le> p \<and> p < tail + length (take k xs) then take k xs ! (p - tail) else b ! p)"
      using nth_copy_into [OF b1] p assms by simp
    have n2: "b2 ! p = (if p < length (drop k xs) then drop k xs ! p else b1 ! p)"
      using nth_copy_into [OF b2] p l1 by simp
    show ?thesis using n1 n2 assms p by (auto simp: min_def Let_def add.commute)
  qed
  with b1 b2 l2 show ?thesis using that by blast
qed

text \<open>Loading a block that starts at \<open>start\<close> in two copies reads the ring from there.\<close>

lemma ring_load:
  assumes "start < c" "n \<le> c" "length b = c" "k = min (c - start) n"
  obtains xs ys where "copy_from b start k = Some xs" "copy_from b 0 (n - k) = Some ys"
    "xs @ ys = map (\<lambda>i. b ! ((start + i) mod c)) [0..<n]"
proof -
  have "start + k \<le> length b" using assms by simp
  then obtain xs where xs: "copy_from b start k = Some xs" by (simp add: copy_from_def)
  have "0 + (n - k) \<le> length b" using assms by simp
  then obtain ys where ys: "copy_from b 0 (n - k) = Some ys" by (simp add: copy_from_def)
  have "xs @ ys = map (\<lambda>i. b ! ((start + i) mod c)) [0..<n]"
  proof (rule nth_equalityI)
    show "length (xs @ ys) = length (map (\<lambda>i. b ! ((start + i) mod c)) [0..<n])"
      using length_copy_from [OF xs] length_copy_from [OF ys] assms by simp
    fix i assume "i < length (xs @ ys)"
    then have i: "i < n" using length_copy_from [OF xs] length_copy_from [OF ys] assms by simp
    show "(xs @ ys) ! i = map (\<lambda>i. b ! ((start + i) mod c)) [0..<n] ! i"
      using i assms length_copy_from [OF xs] nth_copy_from [OF xs] nth_copy_from [OF ys]
        mod_two_windings [of "start + i" c]
      by (auto simp: nth_append add.commute)
  qed
  with xs ys show ?thesis using that by blast
qed

section \<open>Correctness of the operations\<close>

text \<open>The tail part of \<open>fifo_write\<close>, once room has been made.\<close>

lemma fifo_store_correct:
  assumes inv: "fifo_inv f" and fits: "length data \<le> ff_capacity f - ff_size f"
  shows "\<exists>b1 b2. copy_into (ff_buf f) ((ff_start f + ff_size f) mod ff_capacity f)
             (take (min (ff_capacity f - (ff_start f + ff_size f) mod ff_capacity f) (length data)) data) = Some b1
         \<and> copy_into b1 0
             (drop (min (ff_capacity f - (ff_start f + ff_size f) mod ff_capacity f) (length data)) data) = Some b2
         \<and> fifo_inv (f\<lparr>ff_buf := b2, ff_size := ff_size f + length data\<rparr>)
         \<and> fifo_list (f\<lparr>ff_buf := b2, ff_size := ff_size f + length data\<rparr>) = fifo_list f @ data"
proof -
  define c t where "c = ff_capacity f" and "t = (ff_start f + ff_size f) mod c"
  have c: "0 < c" "length (ff_buf f) = c" "ff_size f \<le> c" "ff_start f < c" "c < 2 ^ 63"
    using inv by (auto simp: fifo_inv_def c_def)
  have t: "t < c" using c t_def by simp
  have le: "length data \<le> c" using fits c_def by simp
  obtain b1 b2 where b: "copy_into (ff_buf f) t (take (min (c - t) (length data)) data) = Some b1"
      "copy_into b1 0 (drop (min (c - t) (length data)) data) = Some b2" "length b2 = c"
    and at: "\<And>p. p < c \<Longrightarrow> b2 ! p = (let d = (if t \<le> p then p - t else p + c - t)
                       in if d < length data then data ! d else ff_buf f ! p)"
    by (rule ring_store [OF t le c(2) refl]) (rule that)
  let ?f' = "f\<lparr>ff_buf := b2, ff_size := ff_size f + length data\<rparr>"
  have "fifo_inv ?f'"
    using inv fits b(3) by (auto simp: fifo_inv_def c_def)
  moreover have "fifo_list ?f' = fifo_list f @ data"
  proof (rule nth_equalityI)
    show "length (fifo_list ?f') = length (fifo_list f @ data)" by simp
    fix i assume "i < length (fifo_list ?f')"
    then have i: "i < ff_size f + length data" by simp
    define p where "p = (ff_start f + i) mod c"
    have p: "p < c" using c p_def by simp
    have p2: "p = (if ff_start f + i < c then ff_start f + i else ff_start f + i - c)"
      unfolding p_def by (rule mod_two_windings) (use i fits c c_def in linarith)
    have t2: "t = (if ff_start f + ff_size f < c then ff_start f + ff_size f
                   else ff_start f + ff_size f - c)"
      unfolding t_def by (rule mod_two_windings) (use c in linarith)
    have "fifo_list ?f' ! i = b2 ! p"
      using i by (simp add: p_def c_def)
    also have "\<dots> = (if ff_size f \<le> i then data ! (i - ff_size f) else ff_buf f ! p)"
    proof (cases "ff_size f \<le> i")
      case True
      then have "(if t \<le> p then p - t else p + c - t) = i - ff_size f"
        using p2 t2 i fits c c_def by (auto split: if_splits)
      moreover have "i - ff_size f < length data" using True i by linarith
      ultimately show ?thesis using True by (simp add: at [OF p] Let_def)
    next
      case False
      then have "\<not> (if t \<le> p then p - t else p + c - t) < length data"
        using p2 t2 i fits c c_def by (auto split: if_splits)
      with False show ?thesis by (simp add: at [OF p] Let_def)
    qed
    also have "\<dots> = (fifo_list f @ data) ! i"
      using i by (auto simp: nth_append p_def c_def)
    finally show "fifo_list ?f' ! i = (fifo_list f @ data) ! i" .
  qed
  ultimately show ?thesis using b unfolding t_def c_def by blast
qed

text \<open>Making room: dropping the \<open>excess\<close> oldest bytes.\<close>

lemma fifo_drop_correct:
  assumes "fifo_inv f" "n \<le> ff_size f"
  defines "f1 \<equiv> f\<lparr>ff_start := (ff_start f + n) mod ff_capacity f, ff_size := ff_size f - n\<rparr>"
  shows "fifo_inv f1" "fifo_list f1 = drop n (fifo_list f)"
proof -
  show "fifo_inv f1" using assms by (auto simp: fifo_inv_def)
  show "fifo_list f1 = drop n (fifo_list f)"
    by (rule nth_equalityI) (auto simp: f1_def mod_add_left_eq add.assoc)
qed

lemma fifo_write_refused:
  assumes "fifo_inv f" "length data > ff_capacity f - ff_size f" "\<not> tst flags FIFO_OVERWRITE"
  shows "fifo_write f data flags = Some (1, f)"
proof -
  have "fifo_remaining f = ff_capacity f - ff_size f"
    using assms(1) fifo_inv_bounds [OF assms(1)]
    by (simp add: fifo_remaining_def szsub_exact fifo_inv_def)
  with assms show ?thesis by (simp add: fifo_write_def Let_def)
qed

lemma fifo_write_content:
  assumes inv: "fifo_inv f" and len: "length data \<le> ff_capacity f"
    and room: "length data \<le> ff_capacity f - ff_size f \<or> tst flags FIFO_OVERWRITE"
  shows "\<exists>f'. fifo_write f data flags = Some (0, f') \<and> fifo_inv f' \<and> ff_capacity f' = ff_capacity f
           \<and> fifo_list f' = drop (ff_size f + length data - ff_capacity f) (fifo_list f @ data)"
proof -
  have cap: "0 < ff_capacity f" "ff_size f \<le> ff_capacity f" "ff_start f < ff_capacity f"
    using inv by (auto simp: fifo_inv_def)
  note big = fifo_inv_bounds [OF inv]
  have rem: "fifo_remaining f = ff_capacity f - ff_size f"
    using cap big by (simp add: fifo_remaining_def szsub_exact)
  define n where "n = ff_size f + length data - ff_capacity f"
  define f1 where "f1 = f\<lparr>ff_start := (ff_start f + n) mod ff_capacity f, ff_size := ff_size f - n\<rparr>"
  have n: "n \<le> ff_size f" using len n_def by simp
  have f1: "fifo_inv f1" "fifo_list f1 = drop n (fifo_list f)" "ff_capacity f1 = ff_capacity f"
    using fifo_drop_correct [OF inv n] by (simp_all add: f1_def)
  have fits: "length data \<le> ff_capacity f1 - ff_size f1"
    using cap len by (simp add: f1_def n_def)
  have same: "(if length data > ff_capacity f - ff_size f
        then f\<lparr>ff_start := szadd (ff_start f) (szsub (length data) (ff_capacity f - ff_size f)) mod ff_capacity f,
               ff_size := szsub (ff_size f) (szsub (length data) (ff_capacity f - ff_size f))\<rparr>
        else f) = f1"
  proof (cases "length data > ff_capacity f - ff_size f")
    case True
    then have ex: "szsub (length data) (ff_capacity f - ff_size f) = n"
      using len big cap by (simp add: szsub_exact n_def)
    have "szadd (ff_start f) n = ff_start f + n" "szsub (ff_size f) n = ff_size f - n"
      using cap n big by (simp_all add: szadd_exact szsub_exact)
    with True ex show ?thesis by (simp add: f1_def)
  next
    case False
    then have "n = 0" using cap by (simp add: n_def)
    with False cap show ?thesis by (simp add: f1_def)
  qed
  have b1: "ff_size f1 \<le> ff_capacity f1" "ff_start f1 < ff_capacity f1"
    using f1(1) by (auto simp: fifo_inv_def)
  have tl: "szadd (ff_start f1) (ff_size f1) = ff_start f1 + ff_size f1"
    using b1 big f1(3) by (intro szadd_exact) linarith
  have sz: "szadd (ff_size f1) (length data) = ff_size f1 + length data"
    using b1 big f1(3) fits by (intro szadd_exact) linarith
  from fifo_store_correct [OF f1(1) fits] obtain b1 b2 where
    st: "copy_into (ff_buf f1) ((ff_start f1 + ff_size f1) mod ff_capacity f1)
             (take (min (ff_capacity f1 - (ff_start f1 + ff_size f1) mod ff_capacity f1) (length data)) data) = Some b1"
      "copy_into b1 0
             (drop (min (ff_capacity f1 - (ff_start f1 + ff_size f1) mod ff_capacity f1) (length data)) data) = Some b2"
    and res: "fifo_inv (f1\<lparr>ff_buf := b2, ff_size := ff_size f1 + length data\<rparr>)"
      "fifo_list (f1\<lparr>ff_buf := b2, ff_size := ff_size f1 + length data\<rparr>) = fifo_list f1 @ data"
    by blast
  have "fifo_write f data flags = Some (0, f1\<lparr>ff_buf := b2, ff_size := ff_size f1 + length data\<rparr>)"
    using room cap st unfolding fifo_write_def rem Let_def same tl sz by auto
  with res f1 n show ?thesis by (auto simp: n_def)
qed

text \<open>
  Reading from the front: the returned block is the oldest \<open>n\<close> bytes, removed unless \<open>FIFO_PEEK\<close>.
\<close>

lemma fifo_read_front:
  assumes inv: "fifo_inv f" and n: "n \<le> ff_size f" and front: "\<not> tst flags FIFO_LAST"
  shows "\<exists>f'. fifo_read f n flags = Some (Some (take n (fifo_list f)), f') \<and> fifo_inv f'
           \<and> fifo_list f' = (if tst flags FIFO_PEEK then fifo_list f else drop n (fifo_list f))"
proof -
  have cap: "0 < ff_capacity f" "ff_size f \<le> ff_capacity f" "ff_start f < ff_capacity f"
      "length (ff_buf f) = ff_capacity f"
    using inv by (auto simp: fifo_inv_def)
  note big = fifo_inv_bounds [OF inv]
  have ncap: "n \<le> ff_capacity f" using n cap by simp
  have s: "szsub (ff_capacity f) (ff_start f) = ff_capacity f - ff_start f"
      "szadd (ff_start f) n = ff_start f + n" "szsub (ff_size f) n = ff_size f - n"
    using cap n big by (simp_all add: szsub_exact szadd_exact)
  obtain xs ys where ld: "copy_from (ff_buf f) (ff_start f) (min (ff_capacity f - ff_start f) n) = Some xs"
     "copy_from (ff_buf f) 0 (n - min (ff_capacity f - ff_start f) n) = Some ys"
     "xs @ ys = map (\<lambda>i. ff_buf f ! ((ff_start f + i) mod ff_capacity f)) [0..<n]"
    by (rule ring_load [OF cap(3) ncap cap(4) refl])
  have "xs @ ys = take n (fifo_list f)"
    unfolding ld(3) by (rule nth_equalityI) (use n in auto)
  then show ?thesis
    using n front cap ld fifo_drop_correct [OF inv n] inv
    by (auto simp: fifo_read_def Let_def s)
qed

lemma fifo_read_short: "n > ff_size f \<Longrightarrow> fifo_read f n flags = Some (None, f)"
  by (simp add: fifo_read_def)

section \<open>The overwriting ring-buffer interface\<close>

text \<open>
  What a client that always writes with \<open>FIFO_OVERWRITE\<close> relies on: a block no longer than the
  ring is stored, and the ring then holds the last \<open>cap\<close> bytes of what it held and the block.
\<close>

locale ring_buffer =
  fixes put :: "'q \<Rightarrow> 'a list \<Rightarrow> 'q option"
    and content :: "'q \<Rightarrow> 'a list"
    and cap :: "'q \<Rightarrow> nat"
    and inv :: "'q \<Rightarrow> bool"
  assumes put_content: "inv q \<Longrightarrow> length xs \<le> cap q \<Longrightarrow>
      \<exists>q'. put q xs = Some q' \<and> inv q' \<and> cap q' = cap q
         \<and> content q' = drop (length (content q) + length xs - cap q) (content q @ xs)"
    and content_bound: "inv q \<Longrightarrow> length (content q) \<le> cap q"
begin

fun put_all :: "'q \<Rightarrow> 'a list list \<Rightarrow> 'q option" where
  "put_all q [] = Some q"
| "put_all q (m # ms) = (case put q m of None \<Rightarrow> None | Some q' \<Rightarrow> put_all q' ms)"

lemma put_all_content:
  "inv q \<Longrightarrow> \<forall>m \<in> set ms. length m \<le> cap q \<Longrightarrow>
     \<exists>q'. put_all q ms = Some q' \<and> inv q' \<and> cap q' = cap q
        \<and> content q' = drop (length (content q) + length (concat ms) - cap q) (content q @ concat ms)"
proof (induction ms arbitrary: q)
  case Nil
  then show ?case using content_bound [of q] by simp
next
  case (Cons m ms)
  from put_content [OF Cons.prems(1), of m] Cons.prems(2) obtain q1 where
    q1: "put q m = Some q1" "inv q1" "cap q1 = cap q"
      "content q1 = drop (length (content q) + length m - cap q) (content q @ m)" by auto
  from Cons.IH [OF q1(2)] Cons.prems(2) q1(3) obtain q2 where
    q2: "put_all q1 ms = Some q2" "inv q2" "cap q2 = cap q"
      "content q2 = drop (length (content q1) + length (concat ms) - cap q) (content q1 @ concat ms)"
    by auto
  define e where "e = length (content q) + length m - cap q"
  have e: "e \<le> length (content q @ m)" unfolding e_def by simp
  have "content q1 @ concat ms = drop e (content q @ m @ concat ms)"
    using e by (simp add: q1(4) flip: e_def)
  moreover have "e + (length (content q1) + length (concat ms) - cap q)
      = length (content q) + length m + length (concat ms) - cap q"
  proof -
    have "length (content q1) = length (content q) + length m - e"
      unfolding q1(4) e_def by simp
    then show ?thesis unfolding e_def by linarith
  qed
  ultimately have "content q2 = drop (length (content q) + length m + length (concat ms) - cap q)
      (content q @ m @ concat ms)"
    unfolding q2(4) by (metis drop_drop add.commute)
  then have "content q2 = drop (length (content q) + length (concat (m # ms)) - cap q)
      (content q @ concat (m # ms))" by (simp only: concat.simps length_append add.assoc)
  with q1 q2 show ?case by (simp only: put_all.simps option.simps) blast
qed

end

definition fifo_put :: "fifo \<Rightarrow> u8 list \<Rightarrow> fifo option" where
  "fifo_put f data = map_option snd (fifo_write f data FIFO_OVERWRITE)"

interpretation fifo_ring: ring_buffer fifo_put fifo_list ff_capacity fifo_inv
proof unfold_locales
  fix q :: fifo and xs :: "u8 list"
  assume "fifo_inv q" "length xs \<le> ff_capacity q"
  from fifo_write_content [OF this, of FIFO_OVERWRITE]
  show "\<exists>q'. fifo_put q xs = Some q' \<and> fifo_inv q' \<and> ff_capacity q' = ff_capacity q
      \<and> fifo_list q' = drop (length (fifo_list q) + length xs - ff_capacity q) (fifo_list q @ xs)"
    by (auto simp: fifo_put_def FIFO_OVERWRITE_def)
qed (simp add: fifo_inv_def)

section \<open>Properties\<close>

text \<open>
  C24. On a well-formed ring every write of at most a ring's worth of bytes returns without touching
  memory outside the buffer. It is refused (return value 1, ring unchanged) exactly when the bytes
  do not fit and \<open>FIFO_OVERWRITE\<close> is not given; otherwise the ring then holds the newest
  \<open>capacity\<close> bytes of its old content followed by the block, wherever the content wraps.
\<close>

theorem fifo_write_spec:
  assumes "fifo_inv f" "length data \<le> ff_capacity f"
  shows "\<exists>rc f'. fifo_write f data flags = Some (rc, f') \<and> fifo_inv f' \<and> ff_capacity f' = ff_capacity f
     \<and> (if length data > ff_capacity f - ff_size f \<and> \<not> tst flags FIFO_OVERWRITE
        then rc = 1 \<and> f' = f
        else rc = 0 \<and> fifo_list f' =
               drop (length (fifo_list f) + length data - ff_capacity f) (fifo_list f @ data))"
proof (cases "length data > ff_capacity f - ff_size f \<and> \<not> tst flags FIFO_OVERWRITE")
  case True
  then show ?thesis using fifo_write_refused [OF assms(1)] assms(1) by auto
next
  case False
  then show ?thesis using fifo_write_content [OF assms, of flags] by (auto simp: not_less)
qed

definition ring_example :: fifo where
  "ring_example = \<lparr>ff_buf = [1, 2, 3, 4], ff_capacity = 4, ff_size = 3, ff_start = 2\<rparr>"

lemma ring_example_inv: "fifo_inv ring_example" "ff_capacity ring_example = 4"
    "fifo_list ring_example = [3, 4, 1]"
  by (simp_all add: ring_example_def fifo_inv_def fifo_list_def upt_rec)

theorem fifo_write_spec_witness:
  "\<exists>f'. fifo_write ring_example [7, 8, 9] FIFO_OVERWRITE = Some (0, f') \<and> fifo_list f' = [1, 7, 8, 9]"
  using fifo_write_spec [of ring_example "[7, 8, 9]" FIFO_OVERWRITE]
  by (auto simp: ring_example_inv FIFO_OVERWRITE_def)

text \<open>
  C25. Reading from the front of a well-formed ring never leaves the buffer. A request for more bytes
  than the ring holds is refused and changes nothing; otherwise the block is the oldest \<open>n\<close> bytes
  in order, and they are removed unless \<open>FIFO_PEEK\<close> is given, in which case the ring is unchanged.
\<close>

theorem fifo_read_spec:
  assumes "fifo_inv f" "\<not> tst flags FIFO_LAST"
  shows "\<exists>f'. fifo_inv f' \<and> fifo_read f n flags =
             Some (if n > length (fifo_list f) then None else Some (take n (fifo_list f)), f')
     \<and> fifo_list f' = (if n > length (fifo_list f) \<or> tst flags FIFO_PEEK then fifo_list f
                       else drop n (fifo_list f))"
proof (cases "n > ff_size f")
  case True
  then show ?thesis using fifo_read_short [OF True] assms(1) by auto
next
  case False
  then show ?thesis using fifo_read_front [OF assms(1) _ assms(2), of n] by (auto simp: not_less)
qed

theorem fifo_read_spec_witness:
  "\<exists>f'. fifo_read ring_example 2 0 = Some (Some [3, 4], f') \<and> fifo_list f' = [1]"
  using fifo_read_spec [of ring_example 0 2] by (auto simp: ring_example_inv)

text \<open>
Reading from the end (\<open>FIFO_LAST\<close>) computes the length of the first copy from the front of
  the ring instead of from the front of the block: on a wrapped ring holding 4, 1, 2 the last two
  bytes come back as 1, 1, and on a full ring a read of the last three bytes copies from beyond the
  end of the buffer.
\<close>

theorem fifo_read_last_wrong:
  "fifo_list (ring_example\<lparr>ff_start := 3\<rparr>) = [4, 1, 2]
   \<and> fifo_read (ring_example\<lparr>ff_start := 3\<rparr>) 2 (FIFO_LAST OR FIFO_PEEK)
       = Some (Some [1, 1], ring_example\<lparr>ff_start := 3\<rparr>)
   \<and> fifo_inv (ring_example\<lparr>ff_size := 4\<rparr>)
   \<and> fifo_read (ring_example\<lparr>ff_size := 4\<rparr>) 3 FIFO_LAST = None"
  by (simp add: ring_example_def fifo_list_def upt_rec fifo_inv_def fifo_read_def FIFO_LAST_def
      FIFO_PEEK_def szadd_def szsub_def size_max_def copy_from_def)

end
