(* ===== verification/Log_Buffer.thy ===== *)
theory Log_Buffer
  imports Fifo
begin

text \<open>
  The kernel message buffer of \<^verbatim>\<open>kernel/log.c\<close>, the client of the ring buffer: \<open>printk\<close> with its
  per-thread line assembly, and the \<open>syslog\<close> system call. The formatted text of a message (the
  result of \<open>vsprintf\<close>), the content of fresh heap memory (\<open>malloc\<close>) and the copy to guest memory
  (\<open>user_write\<close>) are arguments of the definitions.
\<close>

section \<open>Model\<close>

record klog =
  log_buf :: fifo
  log_max_since_clear :: nat

definition LOG_BUF_SHIFT :: nat where "LOG_BUF_SHIFT = 20"

definition log_init :: klog where
  "log_init = \<lparr>log_buf = \<lparr>ff_buf = replicate (2 ^ LOG_BUF_SHIFT) 0, ff_capacity = 2 ^ LOG_BUF_SHIFT,
                         ff_size = 0, ff_start = 0\<rparr>, log_max_since_clear = 0\<rparr>"

definition log_buf_append :: "klog \<Rightarrow> u8 list \<Rightarrow> klog option" where
  "log_buf_append k msg =
     (case fifo_write (log_buf k) msg FIFO_OVERWRITE of
        None \<Rightarrow> None
      | Some (_, f) \<Rightarrow>
          let m = szadd (log_max_since_clear k) (length msg) in
          Some \<lparr>log_buf = f,
                log_max_since_clear = (if m > ff_capacity f then ff_capacity f else m)\<rparr>)"

definition newline :: u8 where "newline = 10"

text \<open>\<open>output_line\<close>: the host sink (\<open>log_line\<close>) receives the line, then the ring does.\<close>

definition output_line :: "klog \<Rightarrow> u8 list list \<Rightarrow> u8 list \<Rightarrow> (klog \<times> u8 list list) option" where
  "output_line k sink line =
     (case log_buf_append k line of
        None \<Rightarrow> None
      | Some k1 \<Rightarrow>
          (case log_buf_append k1 [newline] of
             None \<Rightarrow> None
           | Some k2 \<Rightarrow> Some (k2, sink @ [line])))"

text \<open>The loop of \<open>ish_vprintk\<close>: one line per newline; what follows the last newline stays.\<close>

function vprintk_loop :: "klog \<Rightarrow> u8 list list \<Rightarrow> u8 list \<Rightarrow> (klog \<times> u8 list list \<times> u8 list) option" where
  "vprintk_loop k sink b =
     (if newline \<in> set b
      then (case output_line k sink (takeWhile (\<lambda>c. c \<noteq> newline) b) of
              None \<Rightarrow> None
            | Some (k', sink') \<Rightarrow> vprintk_loop k' sink' (tl (dropWhile (\<lambda>c. c \<noteq> newline) b)))
      else Some (k, sink, b))"
  by pat_completeness auto
termination
proof (relation "measure (\<lambda>(k, sink, b). length b)")
  fix k :: klog and sink :: "u8 list list" and b :: "u8 list" and x k' sink'
  assume "newline \<in> set b"
  then have "dropWhile (\<lambda>c. c \<noteq> newline) b \<noteq> []" by (simp add: dropWhile_eq_Nil_conv)
  then have "length (tl (dropWhile (\<lambda>c. c \<noteq> newline) b)) < length (dropWhile (\<lambda>c. c \<noteq> newline) b)"
    by (simp add: length_tl)
  also have "\<dots> \<le> length b" by (rule length_dropWhile_le)
  finally show "((k', sink', tl (dropWhile (\<lambda>c. c \<noteq> newline) b)), k, sink, b)
      \<in> measure (\<lambda>(k, sink, b). length b)" by simp
qed simp

declare vprintk_loop.simps [simp del]

text \<open>
  \<open>ish_vprintk\<close>: \<open>pending\<close> is the thread's buffer, \<open>text\<close> the formatted message. Formatting past
  the 16384-byte buffer is undefined behaviour.
\<close>

definition ish_vprintk ::
  "klog \<Rightarrow> u8 list list \<Rightarrow> u8 list \<Rightarrow> u8 list \<Rightarrow> (klog \<times> u8 list list \<times> u8 list) option" where
  "ish_vprintk k sink pending txt =
     (if length (pending @ txt) + 1 > 16384 then None else vprintk_loop k sink (pending @ txt))"

text \<open>
  \<open>syslog_read\<close>. \<open>malloc\<close> gives the content of the fresh buffer, \<open>user_write m a xs = (fail, m')\<close>
  copies to the guest. The result of \<open>fifo_read\<close> is not checked.
\<close>

definition syslog_read ::
  "(nat \<Rightarrow> u8 list) \<Rightarrow> ('m \<Rightarrow> addr_t \<Rightarrow> u8 list \<Rightarrow> bool \<times> 'm) \<Rightarrow> klog \<Rightarrow> 'm \<Rightarrow> addr_t \<Rightarrow> int \<Rightarrow> u32
     \<Rightarrow> (int result \<times> klog \<times> 'm) option" where
  "syslog_read malloc user_write k m buf_addr len flags =
     (if len < 0 then Some (Inl EINVAL, k, m)
      else
        let n = (if tst flags FIFO_LAST
                 then (if nat len > log_max_since_clear k then log_max_since_clear k else nat len)
                 else (if nat len > ff_capacity (log_buf k) then ff_capacity (log_buf k) else nat len))
        in case fifo_read (log_buf k) n flags of
             None \<Rightarrow> None
           | Some (r, f) \<Rightarrow>
               let buf = (case r of Some xs \<Rightarrow> xs | None \<Rightarrow> malloc n);
                   (fail, m') = user_write m buf_addr buf;
                   k' = k\<lparr>log_buf := f\<rparr>
               in Some (if fail then Inl EFAULT else Inr (int n), k', m'))"

datatype syslog_type =
    SYSLOG_ACTION_CLOSE | SYSLOG_ACTION_OPEN | SYSLOG_ACTION_READ | SYSLOG_ACTION_READ_ALL
  | SYSLOG_ACTION_READ_CLEAR | SYSLOG_ACTION_CLEAR | SYSLOG_ACTION_CONSOLE_OFF
  | SYSLOG_ACTION_CONSOLE_ON | SYSLOG_ACTION_CONSOLE_LEVEL | SYSLOG_ACTION_SIZE_UNREAD
  | SYSLOG_ACTION_SIZE_BUFFER | SYSLOG_ACTION_OTHER int

definition syslog_type_of :: "int \<Rightarrow> syslog_type" where
  "syslog_type_of t =
     (if t = 0 then SYSLOG_ACTION_CLOSE else if t = 1 then SYSLOG_ACTION_OPEN
      else if t = 2 then SYSLOG_ACTION_READ else if t = 3 then SYSLOG_ACTION_READ_ALL
      else if t = 4 then SYSLOG_ACTION_READ_CLEAR else if t = 5 then SYSLOG_ACTION_CLEAR
      else if t = 6 then SYSLOG_ACTION_CONSOLE_OFF else if t = 7 then SYSLOG_ACTION_CONSOLE_ON
      else if t = 8 then SYSLOG_ACTION_CONSOLE_LEVEL else if t = 9 then SYSLOG_ACTION_SIZE_UNREAD
      else if t = 10 then SYSLOG_ACTION_SIZE_BUFFER else SYSLOG_ACTION_OTHER t)"

definition do_syslog ::
  "(nat \<Rightarrow> u8 list) \<Rightarrow> ('m \<Rightarrow> addr_t \<Rightarrow> u8 list \<Rightarrow> bool \<times> 'm) \<Rightarrow> klog \<Rightarrow> 'm \<Rightarrow> int \<Rightarrow> addr_t \<Rightarrow> int
     \<Rightarrow> (int result \<times> klog \<times> 'm) option" where
  "do_syslog malloc user_write k m type buf_addr len =
     (case syslog_type_of type of
        SYSLOG_ACTION_READ \<Rightarrow> syslog_read malloc user_write k m buf_addr len 0
      | SYSLOG_ACTION_READ_ALL \<Rightarrow>
          syslog_read malloc user_write k m buf_addr len (FIFO_LAST OR FIFO_PEEK)
      | SYSLOG_ACTION_READ_CLEAR \<Rightarrow>
          (case syslog_read malloc user_write k m buf_addr len (FIFO_LAST OR FIFO_PEEK) of
             Some (Inr r, k', m') \<Rightarrow> Some (Inr 0, k'\<lparr>log_max_since_clear := 0\<rparr>, m')
           | other \<Rightarrow> other)
      | SYSLOG_ACTION_CLEAR \<Rightarrow> Some (Inr 0, k\<lparr>log_max_since_clear := 0\<rparr>, m)
      | SYSLOG_ACTION_SIZE_UNREAD \<Rightarrow> Some (Inr (int (ff_size (log_buf k))), k, m)
      | SYSLOG_ACTION_SIZE_BUFFER \<Rightarrow> Some (Inr (int (ff_capacity (log_buf k))), k, m)
      | SYSLOG_ACTION_OTHER _ \<Rightarrow> Some (Inl EINVAL, k, m)
      | _ \<Rightarrow> Some (Inr 0, k, m))"

section \<open>Invariant\<close>

definition klog_inv :: "klog \<Rightarrow> bool" where
  "klog_inv k \<longleftrightarrow> fifo_inv (log_buf k) \<and> log_max_since_clear k \<le> ff_capacity (log_buf k)"

lemma klog_inv_init: "klog_inv log_init"
  by (simp add: klog_inv_def log_init_def fifo_inv_def LOG_BUF_SHIFT_def)

lemma log_buf_append_put:
  "klog_inv k \<Longrightarrow> length msg \<le> ff_capacity (log_buf k) \<Longrightarrow>
     \<exists>k'. log_buf_append k msg = Some k' \<and> klog_inv k' \<and> fifo_put (log_buf k) msg = Some (log_buf k')
        \<and> ff_capacity (log_buf k') = ff_capacity (log_buf k)"
  using fifo_write_content [of "log_buf k" msg FIFO_OVERWRITE]
  by (auto simp: log_buf_append_def klog_inv_def fifo_put_def FIFO_OVERWRITE_def Let_def)

lemma output_line_put_all:
  assumes "klog_inv k" "length line < ff_capacity (log_buf k)"
  shows "\<exists>k'. output_line k sink line = Some (k', sink @ [line]) \<and> klog_inv k'
     \<and> fifo_ring.put_all (log_buf k) [line, [newline]] = Some (log_buf k')
     \<and> ff_capacity (log_buf k') = ff_capacity (log_buf k)"
proof -
  from log_buf_append_put [OF assms(1), of line] assms(2) obtain k1 where
    k1: "log_buf_append k line = Some k1" "klog_inv k1" "fifo_put (log_buf k) line = Some (log_buf k1)"
      "ff_capacity (log_buf k1) = ff_capacity (log_buf k)" by auto
  from log_buf_append_put [OF k1(2), of "[newline]"] k1(4) assms(2) obtain k2 where
    "log_buf_append k1 [newline] = Some k2" "klog_inv k2"
    "fifo_put (log_buf k1) [newline] = Some (log_buf k2)"
    "ff_capacity (log_buf k2) = ff_capacity (log_buf k1)" by auto
  with k1 show ?thesis by (auto simp: output_line_def)
qed

section \<open>What the buffer holds after a message\<close>

lemma split_first_newline:
  "newline \<in> set b \<Longrightarrow>
     b = takeWhile (\<lambda>c. c \<noteq> newline) b @ newline # tl (dropWhile (\<lambda>c. c \<noteq> newline) b)"
  by (induction b) auto

lemma vprintk_loop_lines:
  "klog_inv k \<Longrightarrow> length b < ff_capacity (log_buf k) \<Longrightarrow>
     \<exists>k' lines rest. vprintk_loop k sink b = Some (k', sink @ lines, rest) \<and> klog_inv k'
       \<and> newline \<notin> set rest \<and> b = concat (map (\<lambda>l. l @ [newline]) lines) @ rest
       \<and> fifo_ring.put_all (log_buf k) (concat (map (\<lambda>l. [l, [newline]]) lines)) = Some (log_buf k')"
proof (induction k sink b rule: vprintk_loop.induct)
  case (1 k sink b)
  show ?case
  proof (cases "newline \<in> set b")
    case False
    with "1.prems" show ?thesis
      by (intro exI [of _ k] exI [of _ "[]"] exI [of _ b]) (simp add: vprintk_loop.simps)
  next
    case True
    define l r where "l = takeWhile (\<lambda>c. c \<noteq> newline) b"
      and "r = tl (dropWhile (\<lambda>c. c \<noteq> newline) b)"
    have b: "b = l @ newline # r" using split_first_newline [OF True] by (simp add: l_def r_def)
    have "length l < ff_capacity (log_buf k)" using "1.prems"(2) b by simp
    from output_line_put_all [OF "1.prems"(1) this, of sink] obtain k1 where
      k1: "output_line k sink l = Some (k1, sink @ [l])" "klog_inv k1"
        "fifo_ring.put_all (log_buf k) [l, [newline]] = Some (log_buf k1)"
        "ff_capacity (log_buf k1) = ff_capacity (log_buf k)" by blast
    have "length r < ff_capacity (log_buf k1)" using "1.prems"(2) b k1(4) by simp
    from "1.IH" [OF True k1(1) [unfolded l_def] refl k1(2) this [unfolded r_def]]
    obtain k' lines rest where
      IH: "vprintk_loop k1 (sink @ [l]) r = Some (k', (sink @ [l]) @ lines, rest)" "klog_inv k'"
        "newline \<notin> set rest" "r = concat (map (\<lambda>l. l @ [newline]) lines) @ rest"
        "fifo_ring.put_all (log_buf k1) (concat (map (\<lambda>l. [l, [newline]]) lines)) = Some (log_buf k')"
      by (auto simp: r_def l_def)
    have "vprintk_loop k sink b = Some (k', sink @ (l # lines), rest)"
      using True k1(1) IH(1) by (simp add: vprintk_loop.simps [of k sink b] flip: l_def r_def)
    moreover have "fifo_ring.put_all (log_buf k) (concat (map (\<lambda>l. [l, [newline]]) (l # lines)))
        = Some (log_buf k')"
      using k1(3) IH(5) by (auto split: option.splits)
    moreover have "b = concat (map (\<lambda>l. l @ [newline]) (l # lines)) @ rest" using b IH(4) by simp
    ultimately show ?thesis using IH(2,3) by blast
  qed
qed

lemma concat_line_pieces:
  "concat (concat (map (\<lambda>l. [l, [newline]]) lines)) = concat (map (\<lambda>l. l @ [newline]) lines)"
  by (induction lines) auto

lemma line_length_le:
  "m \<in> set (concat (map (\<lambda>l. [l, [newline]]) lines)) \<Longrightarrow>
     length m \<le> length (concat (map (\<lambda>l. l @ [newline]) lines))"
proof (induction lines)
  case (Cons l lines)
  then consider "m = l" | "m = [newline]" | "m \<in> set (concat (map (\<lambda>l. [l, [newline]]) lines))"
    by auto
  then show ?case using Cons.IH by cases auto
qed simp

lemma vprintk_log_content:
  assumes inv: "klog_inv k" and len: "length (pending @ txt) < 16384"
    and cap: "16384 \<le> ff_capacity (log_buf k)"
  shows "\<exists>k' lines rest. ish_vprintk k sink pending txt = Some (k', sink @ lines, rest) \<and> klog_inv k'
     \<and> newline \<notin> set rest \<and> pending @ txt = concat (map (\<lambda>l. l @ [newline]) lines) @ rest
     \<and> fifo_list (log_buf k') =
         (let all = fifo_list (log_buf k) @ concat (map (\<lambda>l. l @ [newline]) lines)
          in drop (length all - ff_capacity (log_buf k)) all)"
proof -
  from vprintk_loop_lines [OF inv, of "pending @ txt" sink] len cap obtain k' lines rest where
    lp: "vprintk_loop k sink (pending @ txt) = Some (k', sink @ lines, rest)" "klog_inv k'"
      "newline \<notin> set rest" "pending @ txt = concat (map (\<lambda>l. l @ [newline]) lines) @ rest"
      "fifo_ring.put_all (log_buf k) (concat (map (\<lambda>l. [l, [newline]]) lines)) = Some (log_buf k')"
    by force
  have "length (concat (map (\<lambda>l. l @ [newline]) lines)) < ff_capacity (log_buf k)"
    using arg_cong [OF lp(4), of length] len cap by (simp only: length_append)
  then have "\<forall>m \<in> set (concat (map (\<lambda>l. [l, [newline]]) lines)). length m \<le> ff_capacity (log_buf k)"
    using line_length_le by fastforce
  from fifo_ring.put_all_content [OF _ this] inv lp(5)
  have "fifo_list (log_buf k') =
         (let all = fifo_list (log_buf k) @ concat (map (\<lambda>l. l @ [newline]) lines)
          in drop (length all - ff_capacity (log_buf k)) all)"
    by (simp add: klog_inv_def Let_def concat_line_pieces)
  with lp len show ?thesis by (simp add: ish_vprintk_def)
qed

section \<open>Properties\<close>

text \<open>
A \<open>printk\<close> of a message that fits the thread's buffer terminates without leaving any buffer:
  the pending text and the message split into the complete lines, which go to the host sink in
  order, and a rest without newline, which stays pending; the log ring then holds the newest
  \<open>capacity\<close> bytes of its old content followed by those lines, newlines included.
\<close>

theorem printk_logs_lines:
  assumes "klog_inv k" "length (pending @ txt) < 16384" "16384 \<le> ff_capacity (log_buf k)"
  shows "\<exists>k' lines rest. ish_vprintk k sink pending txt = Some (k', sink @ lines, rest) \<and> klog_inv k'
     \<and> newline \<notin> set rest \<and> pending @ txt = concat (map (\<lambda>l. l @ [newline]) lines) @ rest
     \<and> fifo_list (log_buf k') =
         (let all = fifo_list (log_buf k) @ concat (map (\<lambda>l. l @ [newline]) lines)
          in drop (length all - ff_capacity (log_buf k)) all)"
  using assms by (rule vprintk_log_content)

theorem printk_logs_lines_witness:
  "klog_inv log_init \<and> (\<exists>k' lines rest. ish_vprintk log_init [] [104] [105, 10, 33] = Some (k', lines, rest)
     \<and> [104, 105, 10, 33] = concat (map (\<lambda>l. l @ [newline]) lines) @ rest)"
  using printk_logs_lines [of log_init "[104]" "[105, 10, 33]" "[]"] klog_inv_init
  by (auto simp: log_init_def LOG_BUF_SHIFT_def)

text \<open>
The result of the ring read is not checked by the \<open>syslog\<close> call: reading one byte of the
  empty log hands the guest one byte of uninitialised heap memory and reports success.
\<close>

theorem syslog_read_leaks_heap:
  "do_syslog malloc (\<lambda>m a xs. (False, xs)) log_init m 2 a 1 = Some (Inr 1, log_init, malloc 1)"
  by (simp add: do_syslog_def syslog_type_of_def syslog_read_def log_init_def fifo_read_def
      LOG_BUF_SHIFT_def FIFO_LAST_def)

end
