(* ===== verification/Float80.thy ===== *)
theory Float80
  imports Ish_Prelude
begin

text \<open>
  The software implementation of the x87 80-bit format, \<^verbatim>\<open>emu/float80.c\<close> and
  \<^verbatim>\<open>emu/float80.h\<close>. The thread-local rounding mode is an explicit argument \<open>rm\<close>; the 15-bit
  exponent field is a \<open>15 word\<close>, the significand a \<open>64 word\<close>, \<open>unsigned __int128\<close> a \<open>128 word\<close>,
  and a \<open>double\<close> is its 64-bit pattern, which is all the source reads or writes of it. C \<open>int\<close>s
  that hold unbiased exponents stay within 17 bits and are \<open>int\<close>s. An \<open>assert\<close> does not change
  the value a function returns: the conditions of the two asserts are predicates of their own
  (\<open>f80_normalize_assert\<close>, \<open>f80_add_assert\<close>).
\<close>

section \<open>Representation\<close>

record float80 =
  signif :: u64
  fexp :: "15 word"
  fsign :: bool

datatype f80_rounding_mode = round_to_nearest | round_down | round_up | round_chop

definition BIAS80 :: int where "BIAS80 = 0x3fff"
definition EXP_MAX :: int where "EXP_MAX = 0x7ffe"
definition EXP_MIN :: int where "EXP_MIN = 1"
definition EXP_SPECIAL :: "15 word" where "EXP_SPECIAL = 0x7fff"
definition EXP_DENORMAL :: "15 word" where "EXP_DENORMAL = 0"

definition F80_NAN :: float80 where
  "F80_NAN = \<lparr>signif = 0xc000000000000000, fexp = 0x7fff, fsign = False\<rparr>"

definition F80_INF :: float80 where
  "F80_INF = \<lparr>signif = 0x8000000000000000, fexp = 0x7fff, fsign = False\<rparr>"

definition F80_ZERO :: float80 where
  "F80_ZERO = \<lparr>signif = 0, fexp = 0, fsign = False\<rparr>"

definition bias :: "int \<Rightarrow> int" where "bias e = e + BIAS80"
definition unbias :: "int \<Rightarrow> int" where "unbias e = e - BIAS80"

definition unbias_denormal :: "15 word \<Rightarrow> int" where
  "unbias_denormal e = (if e = EXP_DENORMAL then unbias EXP_MIN else unbias (uint e))"

definition CURSED_BIT :: u64 where "CURSED_BIT = 0x8000000000000000"

section \<open>Bit scans\<close>

text \<open>
  \<open>bit_length n\<close> is the number of binary digits of \<open>n\<close>; \<open>__builtin_clzl\<close> and \<open>__builtin_ctzl\<close>
  count leading and trailing zeros of a nonzero 64-bit value.
\<close>

fun bit_length :: "nat \<Rightarrow> nat" where
  "bit_length n = (if n = 0 then 0 else Suc (bit_length (n div 2)))"

declare bit_length.simps [simp del]

definition clzl :: "u64 \<Rightarrow> nat" where
  "clzl w = 64 - bit_length (unat w)"

fun trailing_zeros :: "nat \<Rightarrow> nat" where
  "trailing_zeros n = (if n = 0 \<or> odd n then 0 else Suc (trailing_zeros (n div 2)))"

declare trailing_zeros.simps [simp del]

definition ctzl :: "u64 \<Rightarrow> nat" where
  "ctzl w = trailing_zeros (unat w)"

definition u128_clz :: "u128 \<Rightarrow> nat" where
  "u128_clz x =
     (if drop_bit 64 x \<noteq> 0 then clzl (ucast (drop_bit 64 x))
      else if x \<noteq> 0 then 64 + clzl (ucast x)
      else 128)"

section \<open>Rounding\<close>

definition round_away_from_zero :: "f80_rounding_mode \<Rightarrow> bool \<Rightarrow> bool" where
  "round_away_from_zero rm sign \<longleftrightarrow>
     (rm = round_up \<and> \<not> sign) \<or> (rm = round_down \<and> sign)"

definition u128_shift_right_round :: "f80_rounding_mode \<Rightarrow> u128 \<Rightarrow> nat \<Rightarrow> bool \<Rightarrow> u128" where
  "u128_shift_right_round rm i shift sign =
     (if shift = 0 then i
      else if shift > 127 then (if round_away_from_zero rm sign \<and> i \<noteq> 0 then 1 else 0)
      else
        let guard = (drop_bit (shift - 1) i) AND 1;
            rest = (ucast (i AND NOT (push_bit (shift - 1) (- 1))) :: u64);
            i' = drop_bit shift i
        in if guard = 0 \<and> rest = 0 then i'
           else if round_away_from_zero rm sign then i' + 1
           else if rm = round_to_nearest \<and> guard \<noteq> 0 then
             (if rest \<noteq> 0 then i' + 1 else if i' AND 1 \<noteq> 0 then i' + 1 else i')
           else i')"

definition f80_shift_left :: "float80 \<Rightarrow> nat \<Rightarrow> float80" where
  "f80_shift_left f shift =
     f\<lparr>signif := push_bit shift (signif f), fexp := fexp f - of_nat shift\<rparr>"

definition f80_shift_right :: "f80_rounding_mode \<Rightarrow> float80 \<Rightarrow> nat \<Rightarrow> float80" where
  "f80_shift_right rm f shift =
     f\<lparr>signif := ucast (u128_shift_right_round rm (ucast (signif f)) shift (fsign f)),
       fexp := fexp f + of_nat shift\<rparr>"

section \<open>Classification\<close>

definition f80_is_supported :: "float80 \<Rightarrow> bool" where
  "f80_is_supported f =
     (if fexp f = EXP_DENORMAL then drop_bit 63 (signif f) = 0 else drop_bit 63 (signif f) = 1)"

definition f80_isnan :: "float80 \<Rightarrow> bool" where
  "f80_isnan f \<longleftrightarrow> fexp f = EXP_SPECIAL \<and> signif f AND drop_bit 1 (- 1) \<noteq> 0"

definition f80_isinf :: "float80 \<Rightarrow> bool" where
  "f80_isinf f \<longleftrightarrow> fexp f = EXP_SPECIAL \<and> signif f AND drop_bit 1 (- 1) = 0"

definition f80_iszero :: "float80 \<Rightarrow> bool" where
  "f80_iszero f \<longleftrightarrow> fexp f = EXP_DENORMAL \<and> signif f = 0"

definition f80_isdenormal :: "float80 \<Rightarrow> bool" where
  "f80_isdenormal f \<longleftrightarrow> fexp f = EXP_DENORMAL \<and> signif f \<noteq> 0"

section \<open>Normalisation\<close>

definition f80_normalize_assert :: "float80 \<Rightarrow> bool" where
  "f80_normalize_assert f \<longleftrightarrow>
     (fexp f = EXP_DENORMAL \<or> fexp f = EXP_SPECIAL \<longrightarrow> f80_is_supported f)"

text \<open>A significand of zero with a normal exponent shifts by 64, which leaves it zero.\<close>

definition f80_normalize :: "float80 \<Rightarrow> float80" where
  "f80_normalize f =
     (if fexp f = EXP_DENORMAL then f
      else
        let shift = (if signif f \<noteq> 0 then clzl (signif f) else 64)
        in if uint (fexp f) - int shift < EXP_MIN
           then (f80_shift_left f (nat (uint (fexp f) - EXP_MIN)))\<lparr>fexp := EXP_DENORMAL\<rparr>
           else f80_shift_left f shift)"

definition u128_normalize_round :: "f80_rounding_mode \<Rightarrow> u128 \<Rightarrow> int \<Rightarrow> bool \<Rightarrow> float80" where
  "u128_normalize_round rm s e sign =
     (let shift = u128_clz s in
      if e - int shift > unbias EXP_MAX \<and> \<not> e - int shift < unbias EXP_MIN then
        (if s = push_bit 127 1 then F80_INF
         else if (rm = round_up \<and> sign) \<or> (rm = round_down \<and> \<not> sign) \<or> rm = round_chop
         then \<lparr>signif = - 1, fexp = word_of_int EXP_MAX, fsign = False\<rparr>
         else F80_INF)\<lparr>fsign := sign\<rparr>
      else
        let (s1, e1) =
              (if e - int shift < unbias EXP_MIN then
                 (if e > unbias EXP_MIN then push_bit (nat (e - unbias EXP_MIN)) s
                  else u128_shift_right_round rm s (nat (unbias EXP_MIN - e)) sign,
                  unbias (uint EXP_DENORMAL))
               else (push_bit shift s, e - int shift));
            s2 = u128_shift_right_round rm s1 64 sign
        in if drop_bit 64 s2 \<noteq> 0
           then \<lparr>signif = ucast (drop_bit 1 s2), fexp = word_of_int (bias e1) + 1, fsign = sign\<rparr>
           else \<lparr>signif = ucast s2, fexp = word_of_int (bias e1), fsign = sign\<rparr>)"

section \<open>Conversions\<close>

definition f80_from_int :: "64 word \<Rightarrow> float80" where
  "f80_from_int i =
     f80_normalize
       \<lparr>signif = (if sint i < 0 then - i else i),
        fexp = (if i = 0 then 0 else word_of_int (bias 63)),
        fsign = sint i < 0\<rparr>"

definition INT64_MIN :: "64 word" where "INT64_MIN = 0x8000000000000000"

definition f80_to_int :: "f80_rounding_mode \<Rightarrow> float80 \<Rightarrow> 64 word" where
  "f80_to_int rm f =
     (if \<not> f80_is_supported f then INT64_MIN
      else if uint (fexp f) > bias 63 then INT64_MIN
      else
        let g = f80_shift_right rm f (nat (bias 63 - uint (fexp f)))
        in if \<not> fsign g then signif g else - signif g)"

record double_bits =
  db_signif :: "52 word"
  db_exp :: "11 word"
  db_sign :: bool

definition double_unpack :: "u64 \<Rightarrow> double_bits" where
  "double_unpack d = \<lparr>db_signif = ucast d, db_exp = ucast (drop_bit 52 d), db_sign = bit d 63\<rparr>"

definition double_pack :: "double_bits \<Rightarrow> u64" where
  "double_pack db =
     push_bit 63 (of_bool (db_sign db)) OR push_bit 52 (ucast (db_exp db)) OR ucast (db_signif db)"

definition EXP64_MAX :: int where "EXP64_MAX = 0x7fe"
definition EXP64_SPECIAL :: int where "EXP64_SPECIAL = 0x7ff"

definition f80_from_double :: "u64 \<Rightarrow> float80" where
  "f80_from_double d =
     (let db = double_unpack d;
          e = (if uint (db_exp db) = EXP64_SPECIAL then EXP_SPECIAL
               else if db_exp db = 0
               then (if db_signif db = 0 then 0 else word_of_int (bias (1 - 0x3ff)))
               else word_of_int (bias (uint (db_exp db) - 0x3ff)));
          s = push_bit 11 (ucast (db_signif db));
          s' = (if db_exp db \<noteq> 0 then s OR CURSED_BIT else s)
      in f80_normalize \<lparr>signif = s', fexp = e, fsign = db_sign db\<rparr>)"

definition DOUBLE_NAN :: u64 where "DOUBLE_NAN = 0x7ff8000000000000"
definition DOUBLE_INFINITY :: u64 where "DOUBLE_INFINITY = 0x7ff0000000000000"

definition f80_to_double :: "f80_rounding_mode \<Rightarrow> float80 \<Rightarrow> u64" where
  "f80_to_double rm f =
     (if \<not> f80_is_supported f then DOUBLE_NAN
      else
        let new_exp = (if fexp f = EXP_SPECIAL then EXP64_SPECIAL
                       else unbias (uint (fexp f)) + 0x3ff)
        in if fexp f \<noteq> EXP_SPECIAL \<and> new_exp > EXP64_MAX
           then (if \<not> fsign f then DOUBLE_INFINITY else DOUBLE_INFINITY OR push_bit 63 1)
           else
             let (g, e) = (if new_exp \<le> 0
                           then (let g = f80_shift_right rm (f\<lparr>signif := drop_bit 1 (signif f)\<rparr>)
                                           (nat (- new_exp))
                                 in (g, unbias (uint (fexp g)) + 0x3ff))
                           else (f, new_exp));
                 s = (ucast (u128_shift_right_round rm (ucast (signif g)) 11 (fsign g)) :: u64);
                 carry = s AND push_bit 53 1 \<noteq> 0;
                 s' = (if carry then drop_bit 1 s else s)
             in double_pack \<lparr>db_signif = ucast s',
                             db_exp = word_of_int e + (if carry then 1 else 0),
                             db_sign = fsign f\<rparr>)"

definition f80_round :: "f80_rounding_mode \<Rightarrow> float80 \<Rightarrow> float80" where
  "f80_round rm f =
     (if \<not> f80_is_supported f then F80_NAN
      else
        let bits_to_clear = 63 - unbias (uint (fexp f))
        in if bits_to_clear \<le> 0 then f
           else
             let g = f80_shift_right rm f (nat bits_to_clear)
             in if signif g = 0 then g\<lparr>fexp := EXP_DENORMAL\<rparr> else f80_normalize g)"

section \<open>Arithmetic\<close>

definition f80_neg :: "float80 \<Rightarrow> float80" where "f80_neg f = f\<lparr>fsign := \<not> fsign f\<rparr>"
definition f80_abs :: "float80 \<Rightarrow> float80" where "f80_abs f = f\<lparr>fsign := False\<rparr>"

text \<open>The macro \<open>handle_nans\<close>: \<open>Some r\<close> is an early return of \<open>r\<close>.\<close>

definition handle_nans :: "float80 \<Rightarrow> float80 \<Rightarrow> float80 option" where
  "handle_nans a b =
     (if \<not> f80_is_supported a \<or> \<not> f80_is_supported b then Some F80_NAN
      else if f80_isnan a \<and> f80_isnan b \<and> fsign a \<and> \<not> fsign b then Some b
      else if f80_isnan a then Some a
      else if f80_isnan b then Some b
      else None)"

definition f80_add :: "f80_rounding_mode \<Rightarrow> float80 \<Rightarrow> float80 \<Rightarrow> float80" where
  "f80_add rm a0 b0 =
     (case handle_nans a0 b0 of
        Some r \<Rightarrow> r
      | None \<Rightarrow>
          let (a1, b1) = (if fexp a0 < fexp b0 then (b0, a0) else (a0, b0));
              flipped = fsign a1;
              a = (if flipped then a1\<lparr>fsign := \<not> fsign a1\<rparr> else a1);
              b = (if flipped then b1\<lparr>fsign := \<not> fsign b1\<rparr> else b1);
              a_signif = push_bit 64 (ucast (signif a)) :: u128;
              b_signif = u128_shift_right_round rm (push_bit 64 (ucast (signif b)))
                           (nat (uint (fexp a) - uint (fexp b))) (fsign b \<noteq> flipped);
              e = unbias_denormal (fexp a)
          in if \<not> fsign b then
               (let (s, e') =
                      (if \<not> f80_isinf a then
                         (if uint a_signif + uint b_signif \<ge> 2 ^ 128
                          then (u128_shift_right_round rm (a_signif + b_signif) 1 (fsign a)
                                  OR push_bit 127 1, e + 1)
                          else (a_signif + b_signif, e))
                       else (a_signif, e))
                in u128_normalize_round rm s e' (if flipped then \<not> fsign a else fsign a))
             else if f80_isinf a \<and> f80_isinf b then F80_NAN
             else
               let b_s1 = (if rm = round_chop \<and> b_signif = 0 \<and> signif b \<noteq> 0 then 1 else b_signif);
                   b_s = (if f80_isinf a then 0 else b_s1);
                   (s, sign) = (if a_signif \<ge> b_s then (a_signif - b_s, fsign a)
                                else (b_s - a_signif, True))
               in if s = 0 \<and> a_signif \<noteq> 0 \<and> rm = round_down then F80_ZERO\<lparr>fsign := True\<rparr>
                  else if s = 0 then F80_ZERO
                  else u128_normalize_round rm s e (if flipped then \<not> sign else sign))"

text \<open>
  The assert that ends \<open>f80_add\<close> (line 413). The early returns are NaNs, zeros or unsupported
  operands answered with \<open>F80_NAN\<close>, for which the assert is not reached.
\<close>

definition f80_add_assert :: "f80_rounding_mode \<Rightarrow> float80 \<Rightarrow> float80 \<Rightarrow> bool" where
  "f80_add_assert rm a b \<longleftrightarrow> f80_is_supported (f80_add rm a b)"

definition f80_sub :: "f80_rounding_mode \<Rightarrow> float80 \<Rightarrow> float80 \<Rightarrow> float80" where
  "f80_sub rm a b = f80_add rm a (f80_neg b)"

definition f80_mul :: "f80_rounding_mode \<Rightarrow> float80 \<Rightarrow> float80 \<Rightarrow> float80" where
  "f80_mul rm a b =
     (case handle_nans a b of
        Some r \<Rightarrow> r
      | None \<Rightarrow>
          if f80_isinf a \<or> f80_isinf b then
            (if f80_iszero a \<or> f80_iszero b then F80_NAN
             else F80_INF\<lparr>fsign := (fsign a \<noteq> fsign b)\<rparr>)
          else
            let f_exp = unbias_denormal (fexp a) + unbias_denormal (fexp b) + 1;
                f_signif = ucast (signif a) * ucast (signif b) :: u128
            in (u128_normalize_round rm f_signif f_exp (fsign a \<noteq> fsign b))
                 \<lparr>fsign := (fsign a \<noteq> fsign b)\<rparr>)"

definition f80_div :: "f80_rounding_mode \<Rightarrow> float80 \<Rightarrow> float80 \<Rightarrow> float80" where
  "f80_div rm a b =
     (case handle_nans a b of
        Some r \<Rightarrow> r
      | None \<Rightarrow>
          if f80_isinf a \<and> f80_isinf b then F80_NAN
          else
            (if f80_isinf a then F80_INF
             else if f80_isinf b then F80_ZERO
             else if f80_iszero b then (if f80_iszero a then F80_NAN else F80_INF)
             else
               let b_trailing = ctzl (signif b);
                   bs = ucast (drop_bit b_trailing (signif b)) :: u128;
                   s0 = push_bit 64 (ucast (signif a)) div bs;
                   remainder = push_bit 64 (ucast (signif a)) mod bs;
                   extra_bits = (if s0 \<noteq> 0 then u128_clz s0 else 0);
                   s1 = (if s0 \<noteq> 0
                         then push_bit extra_bits s0 OR (push_bit extra_bits remainder div bs)
                         else s0);
                   e = unbias_denormal (fexp a) - unbias_denormal (fexp b) + 63
                       - int b_trailing - int extra_bits
               in u128_normalize_round rm s1 e (fsign a \<noteq> fsign b))
              \<lparr>fsign := (fsign a \<noteq> fsign b)\<rparr>)"

definition f80_mod :: "f80_rounding_mode \<Rightarrow> float80 \<Rightarrow> float80 \<Rightarrow> float80" where
  "f80_mod rm x y =
     (let quotient = f80_round round_chop (f80_div rm x y)
      in f80_sub rm x (f80_mul rm quotient y))"

section \<open>Comparison\<close>

definition f80_uncomparable :: "float80 \<Rightarrow> float80 \<Rightarrow> bool" where
  "f80_uncomparable a b \<longleftrightarrow>
     \<not> f80_is_supported a \<or> \<not> f80_is_supported b \<or> f80_isnan a \<or> f80_isnan b"

definition f80_lt :: "f80_rounding_mode \<Rightarrow> float80 \<Rightarrow> float80 \<Rightarrow> bool" where
  "f80_lt rm a b =
     (if f80_uncomparable a b then False
      else if f80_isinf a \<and> f80_isinf b \<and> fsign a = fsign b then False
      else if f80_iszero a \<and> f80_iszero b then False
      else let diff = f80_sub rm a b in fsign diff \<and> \<not> f80_iszero diff)"

definition f80_eq :: "float80 \<Rightarrow> float80 \<Rightarrow> bool" where
  "f80_eq a b =
     (if f80_uncomparable a b then False
      else
        let a' = (if f80_iszero a then a\<lparr>fsign := False\<rparr> else a);
            b' = (if f80_iszero a' then b\<lparr>fsign := False\<rparr> else b)
        in fsign a' = fsign b' \<and> fexp a' = fexp b' \<and> signif a' = signif b')"

definition f80_lte :: "f80_rounding_mode \<Rightarrow> float80 \<Rightarrow> float80 \<Rightarrow> bool" where
  "f80_lte rm a b \<longleftrightarrow> f80_lt rm a b \<or> f80_eq a b"

definition f80_gt :: "f80_rounding_mode \<Rightarrow> float80 \<Rightarrow> float80 \<Rightarrow> bool" where
  "f80_gt rm a b \<longleftrightarrow> \<not> f80_lte rm a b"

section \<open>Iterative functions\<close>

text \<open>The loop of \<open>f80_sqrt\<close> runs at most 101 times: the counter is the first argument.\<close>

fun sqrt_loop :: "nat \<Rightarrow> f80_rounding_mode \<Rightarrow> float80 \<Rightarrow> float80 \<Rightarrow> float80" where
  "sqrt_loop 0 rm x guess = guess"
| "sqrt_loop (Suc n) rm x guess =
     (let g = f80_div rm (f80_add rm guess (f80_div rm x guess)) (f80_from_int 2)
      in if \<not> f80_eq g guess then sqrt_loop n rm x g else g)"

text \<open>C division truncates towards zero.\<close>

definition half_trunc :: "int \<Rightarrow> int" where
  "half_trunc e = (if e < 0 then - ((- e) div 2) else e div 2)"

definition f80_sqrt :: "f80_rounding_mode \<Rightarrow> float80 \<Rightarrow> float80" where
  "f80_sqrt rm x =
     (if f80_iszero x then x
      else if f80_isnan x \<or> fsign x then F80_NAN
      else sqrt_loop 101 rm x (x\<lparr>fexp := word_of_int (bias (half_trunc (unbias (uint (fexp x)))))\<rparr>))"

definition f80_scale :: "f80_rounding_mode \<Rightarrow> float80 \<Rightarrow> int \<Rightarrow> float80" where
  "f80_scale rm x scale =
     (if \<not> f80_is_supported x \<or> f80_isnan x then F80_NAN
      else u128_normalize_round rm (push_bit 64 (ucast (signif x)))
             (unbias (uint (fexp x)) + scale) (fsign x))"

definition f80_xtract :: "float80 \<Rightarrow> int \<times> float80" where
  "f80_xtract f = (unbias (uint (fexp f)), f\<lparr>fexp := word_of_int (bias 0)\<rparr>)"

text \<open>
  \<open>f80_log2\<close>: the loops have no bound in the source, so not returning is \<open>None\<close>.
\<close>

partial_function (option) log2_scale_up ::
  "f80_rounding_mode \<Rightarrow> float80 \<Rightarrow> int \<Rightarrow> (float80 \<times> int) option" where
  "log2_scale_up rm x ipart =
     (if f80_lt rm x (f80_from_int 1)
      then log2_scale_up rm (f80_mul rm x (f80_from_int 2)) (ipart - 1)
      else Some (x, ipart))"

partial_function (option) log2_scale_down ::
  "f80_rounding_mode \<Rightarrow> float80 \<Rightarrow> int \<Rightarrow> (float80 \<times> int) option" where
  "log2_scale_down rm x ipart =
     (if f80_gt rm x (f80_from_int 2)
      then log2_scale_down rm (f80_div rm x (f80_from_int 2)) (ipart + 1)
      else Some (x, ipart))"

partial_function (option) log2_square ::
  "f80_rounding_mode \<Rightarrow> float80 \<Rightarrow> float80 \<Rightarrow> (float80 \<times> float80) option" where
  "log2_square rm x b =
     (if f80_lte rm x (f80_from_int 2) \<and> f80_gt rm b (f80_from_int 0)
      then log2_square rm (f80_mul rm x x) (f80_div rm b (f80_from_int 2))
      else Some (x, b))"

partial_function (option) log2_bits ::
  "f80_rounding_mode \<Rightarrow> float80 \<Rightarrow> float80 \<Rightarrow> float80 \<Rightarrow> float80 option" where
  "log2_bits rm x b res =
     (if f80_gt rm b (f80_from_int 0)
      then Option.bind (log2_square rm x b) (\<lambda>(x', b').
             let res' = f80_add rm res b' in
             if res = res' then Some res'
             else log2_bits rm (f80_div rm x' (f80_from_int 2)) b' res')
      else Some res)"

definition f80_log2 :: "f80_rounding_mode \<Rightarrow> float80 \<Rightarrow> float80 option" where
  "f80_log2 rm x =
     (if f80_isnan x \<or> f80_lte rm x (f80_from_int 0) then Some F80_NAN
      else Option.bind (log2_scale_up rm x 0) (\<lambda>(x1, i1).
           Option.bind (log2_scale_down rm x1 i1) (\<lambda>(x2, i2).
           log2_bits rm x2 (f80_from_int 1) (f80_from_int (word_of_int i2)))))"

end
