(* ===== verification/Float80_Rounding.thy ===== *)
theory Float80_Rounding
  imports Float80
begin

text \<open>
  What the rounding kernel of \<^verbatim>\<open>emu/float80.c\<close> computes, on natural numbers: the bit scans give
  binary lengths, \<open>u128_shift_right_round\<close> is division by a power of two rounded in the current
  mode, and \<open>u128_normalize_round\<close> rounds a 128-bit significand to 64 bits.
\<close>

section \<open>Bit scans\<close>

lemma bit_length_0 [simp]: "bit_length 0 = 0"
  by (simp add: bit_length.simps)

lemma bit_length_pos: "0 < n \<Longrightarrow> bit_length n = Suc (bit_length (n div 2))"
  by (simp add: bit_length.simps [of n])

lemma bit_length_bounds: "0 < n \<Longrightarrow> 2 ^ (bit_length n - 1) \<le> n \<and> n < 2 ^ bit_length n"
proof (induction n rule: bit_length.induct)
  case (1 n)
  show ?case
  proof (cases "n div 2 = 0")
    case True
    then have "n = 1" using "1.prems" by presburger
    then show ?thesis by (simp add: bit_length_pos)
  next
    case False
    then have IH: "2 ^ (bit_length (n div 2) - 1) \<le> n div 2" "n div 2 < 2 ^ bit_length (n div 2)"
      using "1.IH" "1.prems" by auto
    have "0 < bit_length (n div 2)" using False by (simp add: bit_length_pos)
    then have p: "(2::nat) ^ bit_length (n div 2) = 2 * 2 ^ (bit_length (n div 2) - 1)"
      by (metis Suc_diff_1 power_Suc)
    have "bit_length n = Suc (bit_length (n div 2))" using "1.prems" by (rule bit_length_pos)
    with IH p show ?thesis by (simp del: power_Suc) (simp; linarith)
  qed
qed

lemma bit_length_unique:
  assumes "2 ^ k \<le> n" "n < 2 ^ Suc k"
  shows "bit_length n = Suc k"
proof -
  have "0 < n" using assms(1) by (metis gr0I not_exp_less_eq_0_int numeral_le_iff power_eq_0_iff
        le_zero_eq zero_neq_numeral)
  then have b: "2 ^ (bit_length n - 1) \<le> n" "n < 2 ^ bit_length n" "0 < bit_length n"
    using bit_length_bounds by (auto simp: bit_length_pos)
  have "k < bit_length n"
    by (rule power_less_imp_less_exp [of "2::nat"]) (use b assms in linarith)+
  moreover have "bit_length n - 1 < Suc k"
    by (rule power_less_imp_less_exp [of "2::nat"]) (use b assms in linarith)+
  ultimately show ?thesis by linarith
qed

lemma bit_length_le: "n < 2 ^ k \<Longrightarrow> bit_length n \<le> k"
proof (cases "n = 0")
  case False
  assume "n < 2 ^ k"
  moreover have "2 ^ (bit_length n - 1) \<le> n" using bit_length_bounds False by blast
  ultimately have "(2::nat) ^ (bit_length n - 1) < 2 ^ k" by linarith
  then have "bit_length n - 1 < k" by (rule power_less_imp_less_exp [rotated]) simp
  then show ?thesis by simp
qed simp

lemma bit_length_div_power: "bit_length (n div 2 ^ k) = bit_length n - k"
proof (induction k arbitrary: n)
  case (Suc k)
  have "n div 2 ^ Suc k = (n div 2) div 2 ^ k" by (simp add: div_mult2_eq)
  then have "bit_length (n div 2 ^ Suc k) = bit_length (n div 2) - k" by (simp only: Suc.IH)
  also have "\<dots> = bit_length n - Suc k" by (cases "n = 0") (simp_all add: bit_length_pos)
  finally show ?case .
qed simp

lemma u128_clz_bit_length: "u128_clz x = 128 - bit_length (unat x)"
proof -
  have hi: "unat (drop_bit 64 x) = unat x div 2 ^ 64"
    by (rule unat_drop_bit)
  have lt: "unat x < 2 ^ 128" using unat_lt [of x] by simp
  have hi64: "unat (ucast (drop_bit 64 x) :: u64) = unat x div 2 ^ 64"
    using lt by (simp add: unat_ucast hi less_mult_imp_div_less)
  have bl: "bit_length (unat x div 2 ^ 64) = bit_length (unat x) - 64"
    by (rule bit_length_div_power)
  have le128: "bit_length (unat x) \<le> 128" by (rule bit_length_le [OF lt])
  show ?thesis
  proof (cases "drop_bit 64 x = 0")
    case False
    then have "0 < unat x div 2 ^ 64" using hi unat_eq_0 [of "drop_bit 64 x"] by simp
    then have "0 < bit_length (unat x) - 64" using bl bit_length_pos [of "unat x div 2 ^ 64"] by linarith
    with False hi64 bl le128 show ?thesis by (simp add: u128_clz_def clzl_def)
  next
    case True
    then have z: "unat x div 2 ^ 64 = 0" using hi by simp
    then have small: "unat x < 2 ^ 64" by (simp add: div_eq_0_iff)
    then have "unat (ucast x :: u64) = unat x"
      by (simp add: unat_ucast)
    moreover have "bit_length (unat x) \<le> 64" by (rule bit_length_le [OF small])
    ultimately show ?thesis using True by (simp add: u128_clz_def clzl_def)
  qed
qed

section \<open>Rounded division\<close>

text \<open>
  The mathematical meaning of a rounding mode: the quotient \<open>n / d\<close> rounded to an integer.
\<close>

definition round_div :: "f80_rounding_mode \<Rightarrow> bool \<Rightarrow> nat \<Rightarrow> nat \<Rightarrow> nat" where
  "round_div rm sign n d =
     (let q = n div d; r = n mod d in
      if r = 0 then q
      else if round_away_from_zero rm sign then q + 1
      else if rm = round_to_nearest \<and> (2 * r > d \<or> 2 * r = d \<and> odd q) then q + 1
      else q)"

lemma guard_rest_split:
  fixes n :: nat
  shows "n mod 2 ^ Suc k = 2 ^ k * (n div 2 ^ k mod 2) + n mod 2 ^ k"
  by (simp add: power_Suc2 mod_mult2_eq del: power_Suc)

lemma unat_round_choice:
  assumes "unat w = q" "unat (w + 1) = q'"
  shows "unat (if G = 0 \<and> R = 0 then w else if A then w + 1
               else if N \<and> G \<noteq> 0 then (if R \<noteq> 0 then w + 1 else if P \<noteq> 0 then w + 1 else w) else w)
       = (if G = 0 \<and> R = 0 then q else if A then q'
          else if N \<and> G \<noteq> 0 then (if R \<noteq> 0 \<or> P \<noteq> 0 then q' else q) else q)"
  using assms by simp

text \<open>
  The kernel is exact while the bits below the guard bit fit the 64-bit variable \<open>rest\<close>, that is
  for shifts up to 65.
\<close>

lemma u128_shift_right_round_spec:
  assumes "shift \<le> 65"
  shows "unat (u128_shift_right_round rm i shift sign) = round_div rm sign (unat i) (2 ^ shift)"
proof (cases shift)
  case 0
  then show ?thesis by (simp add: u128_shift_right_round_def round_div_def)
next
  case (Suc k)
  define n where "n = unat i"
  have k: "k \<le> 64" using assms Suc by simp
  have n: "n < 2 ^ 128" using unat_lt [of i] by (simp add: n_def)
  have q: "unat (drop_bit shift i) = n div 2 ^ shift"
    by (simp only: unat_drop_bit n_def)
  have g: "unat (drop_bit k i AND 1) = n div 2 ^ k mod 2"
    by (simp only: unat_and_one unat_drop_bit n_def)
  have r: "unat (ucast (i AND NOT (push_bit k (- 1))) :: u64) = n mod 2 ^ k"
  proof -
    have "n mod 2 ^ k < 2 ^ 64"
      using power_increasing [OF k, of "2::nat"] by (simp add: less_le_trans [of _ "2 ^ k"])
    then show ?thesis by (simp only: unat_ucast unat_and_low) (simp add: n_def)
  qed
  have odd: "unat (drop_bit shift i AND 1) = n div 2 ^ shift mod 2"
    by (simp only: unat_and_one q)
  have inc: "unat (drop_bit shift i + 1) = n div 2 ^ shift + 1"
  proof -
    have "n div 2 ^ shift = n div 2 div 2 ^ k" by (simp add: Suc div_mult2_eq)
    also have "\<dots> \<le> n div 2" by (rule div_le_dividend)
    also have "\<dots> < 2 ^ 127" using n by simp
    finally have "n div 2 ^ shift < 2 ^ 127" .
    then show ?thesis using q by (simp add: unat_word_ariths)
  qed
  have m: "n mod 2 ^ shift = 2 ^ k * (n div 2 ^ k mod 2) + n mod 2 ^ k"
    unfolding Suc by (rule guard_rest_split)
  have rk: "n mod 2 ^ k < 2 ^ k" by simp
  then have rk2: "\<not> 2 ^ k < n mod 2 ^ k" "n mod 2 ^ k \<noteq> 2 ^ k" by linarith+
  have z: "drop_bit k i AND 1 = 0 \<longleftrightarrow> n div 2 ^ k mod 2 = 0"
      "(ucast (i AND NOT (push_bit k (- 1))) :: u64) = 0 \<longleftrightarrow> n mod 2 ^ k = 0"
      "drop_bit shift i AND 1 = 0 \<longleftrightarrow> n div 2 ^ shift mod 2 = 0"
    using g r odd by (metis unat_eq_0)+
  have "unat (u128_shift_right_round rm i shift sign) =
     (if n div 2 ^ k mod 2 = 0 \<and> n mod 2 ^ k = 0 then n div 2 ^ shift
      else if round_away_from_zero rm sign then n div 2 ^ shift + 1
      else if rm = round_to_nearest \<and> n div 2 ^ k mod 2 \<noteq> 0
        then (if n mod 2 ^ k \<noteq> 0 \<or> n div 2 ^ shift mod 2 \<noteq> 0 then n div 2 ^ shift + 1
              else n div 2 ^ shift)
      else n div 2 ^ shift)"
  proof -
    have sh: "\<not> shift = 0" "\<not> 127 < shift" "shift - 1 = k" using Suc k by simp_all
    show ?thesis
      unfolding u128_shift_right_round_def Let_def sh(3) z if_not_P [OF sh(1)] if_not_P [OF sh(2)]
      by (rule unat_round_choice [OF q inc])
  qed
  also have "\<dots> = round_div rm sign n (2 ^ shift)"
  proof -
    have d: "(2::nat) ^ shift = 2 * 2 ^ k" by (simp add: Suc)
    have "n div 2 ^ k mod 2 = 0 \<or> n div 2 ^ k mod 2 = 1" by linarith
    then show ?thesis
      unfolding round_div_def Let_def m using d rk2 by (auto simp: odd_iff_mod_2_eq_one)
  qed
  finally show ?thesis by (simp only: n_def)
qed

end
