(* ===== verification/Memory.thy ===== *)
theory Memory
  imports Ish_Prelude "HOL-Library.Monad_Syntax"
begin

text \<open>
  Guest address spaces, \<^verbatim>\<open>kernel/memory.c\<close>: the two-level page table, the reference-counted
  backing objects (\<open>struct data\<close>) that several address spaces share after a fork, and the page
  operations on them. The host's memory is explicit: \<open>h_host\<close> maps the number of a host mapping to
  its bytes, and a pointer into it is a pair of a mapping and an offset. The outcome of each host
  \<open>mmap\<close> and \<open>malloc\<close> is read off the fields \<open>h_mmap_err\<close> and \<open>h_malloc_ok\<close>, indexed by the
  attempt. \<open>None\<close> as the outcome of an operation is undefined behaviour of the C code: an access
  outside the page directory or to a freed \<open>struct data\<close>. The list \<open>m_inval\<close> records the calls of
  \<open>asbestos_invalidate_page\<close>.
\<close>

section \<open>Model\<close>

definition MEM_PAGES :: nat where "MEM_PAGES = 2 ^ 20"
definition MEM_PGDIR_SIZE :: nat where "MEM_PGDIR_SIZE = 2 ^ 10"
definition PAGE_BITS :: nat where "PAGE_BITS = 12"
definition PAGE_SIZE :: nat where "PAGE_SIZE = 2 ^ 12"
definition BAD_PAGE :: nat where "BAD_PAGE = 0x10000"

definition PAGE :: "addr_t \<Rightarrow> nat" where "PAGE a = unat (drop_bit PAGE_BITS a)"
definition PGOFFSET :: "addr_t \<Rightarrow> nat" where "PGOFFSET a = unat (a AND 0xfff)"
definition PAGE_ROUND_UP :: "addr_t \<Rightarrow> nat" where "PAGE_ROUND_UP n = PAGE (n + 0xfff)"

definition P_READ :: u32 where "P_READ = 1"
definition P_WRITE :: u32 where "P_WRITE = 2"
definition P_EXEC :: u32 where "P_EXEC = 4"
definition P_RWX :: u32 where "P_RWX = P_READ OR P_WRITE OR P_EXEC"
definition P_GROWSDOWN :: u32 where "P_GROWSDOWN = 8"
definition P_COW :: u32 where "P_COW = 16"
definition P_ANONYMOUS :: u32 where "P_ANONYMOUS = 64"
definition P_SHARED :: u32 where "P_SHARED = 128"

definition P_WRITABLE :: "u32 \<Rightarrow> bool" where
  "P_WRITABLE flags \<longleftrightarrow> tst flags P_WRITE \<and> \<not> tst flags P_COW"

datatype mem_type = MEM_READ | MEM_WRITE | MEM_WRITE_PTRACE

record data =
  d_data :: nat
  d_size :: nat
  d_refcount :: u32
  d_fd :: "nat option"
  d_file_offset :: nat

record kheap =
  h_datas :: "nat \<Rightarrow> data option"
  h_next :: nat
  h_host :: "nat \<Rightarrow> u8 list option"
  h_hnext :: nat
  h_malloc_ok :: "nat \<Rightarrow> bool"
  h_mmap_err :: "nat \<Rightarrow> errno option"
  h_closed :: "nat list"

text \<open>\<open>vdso_data\<close> is static data of the program, not a mapping it made: number 0.\<close>

definition vdso_data :: nat where "vdso_data = 0"

record pt_entry =
  pe_data :: "nat option"
  pe_offset :: nat
  pe_flags :: u32

record mem =
  m_pgdir :: "nat \<Rightarrow> (nat \<Rightarrow> pt_entry) option"
  m_pgdir_used :: int
  m_changes :: u64
  m_inval :: "nat list"

definition mem_init :: mem where
  "mem_init = \<lparr>m_pgdir = (\<lambda>_. None), m_pgdir_used = 0, m_changes = 0, m_inval = []\<rparr>"

definition PGDIR_TOP :: "nat \<Rightarrow> nat" where "PGDIR_TOP page = page div 2 ^ 10"
definition PGDIR_BOTTOM :: "nat \<Rightarrow> nat" where "PGDIR_BOTTOM page = page mod MEM_PGDIR_SIZE"

text \<open>\<open>calloc\<close>ed page tables: entries without data.\<close>

definition pt_empty :: pt_entry where
  "pt_empty = \<lparr>pe_data = None, pe_offset = 0, pe_flags = 0\<rparr>"

definition mem_pt_new :: "mem \<Rightarrow> nat \<Rightarrow> mem option" where
  "mem_pt_new m page =
     (if PGDIR_TOP page \<ge> MEM_PGDIR_SIZE then None
      else case m_pgdir m (PGDIR_TOP page) of
             Some _ \<Rightarrow> Some m
           | None \<Rightarrow> Some (m\<lparr>m_pgdir := (m_pgdir m)(PGDIR_TOP page \<mapsto> (\<lambda>_. pt_empty)),
                             m_pgdir_used := m_pgdir_used m + 1\<rparr>))"

text \<open>A store through the pointer to an entry that \<open>mem_pt_new\<close> or \<open>mem_pt\<close> returned.\<close>

definition mem_pt_store :: "mem \<Rightarrow> nat \<Rightarrow> pt_entry \<Rightarrow> mem" where
  "mem_pt_store m page e =
     (case m_pgdir m (PGDIR_TOP page) of
        None \<Rightarrow> m
      | Some d \<Rightarrow> m\<lparr>m_pgdir := (m_pgdir m)(PGDIR_TOP page \<mapsto> d(PGDIR_BOTTOM page := e))\<rparr>)"

definition mem_pt :: "mem \<Rightarrow> nat \<Rightarrow> pt_entry option option" where
  "mem_pt m page =
     (if PGDIR_TOP page \<ge> MEM_PGDIR_SIZE then None
      else Some (case m_pgdir m (PGDIR_TOP page) of
                   None \<Rightarrow> None
                 | Some d \<Rightarrow>
                     let entry = d (PGDIR_BOTTOM page)
                     in if pe_data entry = None then None else Some entry))"

definition mem_pt_del :: "mem \<Rightarrow> nat \<Rightarrow> mem option" where
  "mem_pt_del m page = do {
     e \<leftarrow> mem_pt m page;
     Some (case e of None \<Rightarrow> m | Some entry \<Rightarrow> mem_pt_store m page (entry\<lparr>pe_data := None\<rparr>))
   }"

function skip_dirs :: "mem \<Rightarrow> nat \<Rightarrow> nat" where
  "skip_dirs m page =
     (if page < MEM_PAGES \<and> m_pgdir m (PGDIR_TOP page) = None
      then skip_dirs m (page - PGDIR_BOTTOM page + MEM_PGDIR_SIZE) else page)"
  by pat_completeness auto
termination
proof (relation "measure (\<lambda>(m, page). MEM_PAGES - page)")
  fix m :: mem and page
  assume a: "page < MEM_PAGES \<and> m_pgdir m (PGDIR_TOP page) = None"
  have "PGDIR_BOTTOM page < MEM_PGDIR_SIZE" "PGDIR_BOTTOM page \<le> page"
    by (simp_all add: PGDIR_BOTTOM_def MEM_PGDIR_SIZE_def)
  then have "page < page - PGDIR_BOTTOM page + MEM_PGDIR_SIZE" by linarith
  with a show "((m, page - PGDIR_BOTTOM page + MEM_PGDIR_SIZE), m, page)
      \<in> measure (\<lambda>(m, page). MEM_PAGES - page)" by (simp only: in_measure case_prod_conv) linarith
qed simp

declare skip_dirs.simps [simp del]

definition mem_next_page :: "mem \<Rightarrow> nat \<Rightarrow> nat" where
  "mem_next_page m page = (if page + 1 \<ge> MEM_PAGES then page + 1 else skip_dirs m (page + 1))"

text \<open>\<open>start + pages\<close> is computed in 32 bits.\<close>

definition range_end :: "nat \<Rightarrow> nat \<Rightarrow> nat" where
  "range_end start pages = (start + pages) mod 2 ^ 32"

text \<open>The search of \<open>pt_find_hole\<close> from page \<open>page\<close> downwards; \<open>hole\<close> is \<open>hole_end\<close> while in a hole.\<close>

function find_hole_loop :: "mem \<Rightarrow> nat \<Rightarrow> nat \<Rightarrow> bool \<Rightarrow> nat \<Rightarrow> nat option" where
  "find_hole_loop m sz hole_end in_hole page =
     (if page > 0x40000 then do {
        e \<leftarrow> mem_pt m page;
        let hole_end' = (if \<not> in_hole \<and> e = None then page + 1 else hole_end);
        let in_hole' = (e = None);
        if e = None \<and> hole_end' - page = sz then Some page
        else find_hole_loop m sz hole_end' in_hole' (page - 1)
      } else Some BAD_PAGE)"
  by pat_completeness auto
termination by (relation "measure (\<lambda>(m, sz, he, ih, page). page)") auto

declare find_hole_loop.simps [simp del]

definition pt_find_hole :: "mem \<Rightarrow> nat \<Rightarrow> nat option" where
  "pt_find_hole m sz = find_hole_loop m sz 0 False 0xf7ffd"

fun all_unmapped :: "mem \<Rightarrow> nat list \<Rightarrow> bool option" where
  "all_unmapped m [] = Some True"
| "all_unmapped m (p # ps) = do {
     e \<leftarrow> mem_pt m p;
     if e \<noteq> None then Some False else all_unmapped m ps
   }"

definition pt_is_hole :: "mem \<Rightarrow> nat \<Rightarrow> nat \<Rightarrow> bool option" where
  "pt_is_hole m start pages = all_unmapped m [start..<range_end start pages]"

definition mem_changed :: "mem \<Rightarrow> mem" where
  "mem_changed m = m\<lparr>m_changes := m_changes m + 1\<rparr>"

text \<open>\<open>munmap(2)\<close>, \<open>fd_close\<close> and \<open>free\<close> when the last reference goes.\<close>

definition data_free :: "kheap \<Rightarrow> nat \<Rightarrow> data \<Rightarrow> kheap" where
  "data_free h i d =
     h\<lparr>h_host := (if d_data d \<noteq> vdso_data then (h_host h)(d_data d := None) else h_host h),
       h_closed := h_closed h @ (case d_fd d of None \<Rightarrow> [] | Some fd \<Rightarrow> [fd]),
       h_datas := (h_datas h)(i := None)\<rparr>"

definition data_release :: "kheap \<Rightarrow> nat \<Rightarrow> kheap option" where
  "data_release h i = do {
     d \<leftarrow> h_datas h i;
     Some (if d_refcount d - 1 = 0 then data_free h i d
           else h\<lparr>h_datas := (h_datas h)(i \<mapsto> d\<lparr>d_refcount := d_refcount d - 1\<rparr>)\<rparr>)
   }"

definition data_retain :: "kheap \<Rightarrow> nat \<Rightarrow> kheap option" where
  "data_retain h i = do {
     d \<leftarrow> h_datas h i;
     Some (h\<lparr>h_datas := (h_datas h)(i \<mapsto> d\<lparr>d_refcount := d_refcount d + 1\<rparr>)\<rparr>)
   }"

definition unmap_page :: "kheap \<Rightarrow> mem \<Rightarrow> nat \<Rightarrow> (kheap \<times> mem) option" where
  "unmap_page h m page = do {
     e \<leftarrow> mem_pt m page;
     case e of
       None \<Rightarrow> Some (h, m)
     | Some pt \<Rightarrow> do {
         m' \<leftarrow> mem_pt_del (m\<lparr>m_inval := m_inval m @ [page]\<rparr>) page;
         i \<leftarrow> pe_data pt;
         h' \<leftarrow> data_release h i;
         Some (h', m')
       }
   }"

lemma skip_dirs_ge: "page \<le> skip_dirs m page"
proof (induction m page rule: skip_dirs.induct)
  case (1 m page)
  have "page \<le> page - PGDIR_BOTTOM page + MEM_PGDIR_SIZE"
    using mod_less_divisor [of MEM_PGDIR_SIZE page]
    by (simp add: PGDIR_BOTTOM_def MEM_PGDIR_SIZE_def)
  with 1 show ?case by (subst skip_dirs.simps) (auto intro: le_trans)
qed

lemma mem_next_page_gt: "page < mem_next_page m page"
  using skip_dirs_ge [of "page + 1" m] by (auto simp: mem_next_page_def)

function unmap_loop :: "kheap \<Rightarrow> mem \<Rightarrow> nat \<Rightarrow> nat \<Rightarrow> (kheap \<times> mem) option" where
  "unmap_loop h m page end_page =
     (if page < end_page then do {
        (h', m') \<leftarrow> unmap_page h m page;
        unmap_loop h' m' (mem_next_page m' page) end_page
      } else Some (h, m))"
  by pat_completeness auto
termination
  by (relation "measure (\<lambda>(h, m, page, end_page). end_page - page)")
     (auto intro: diff_less_mono2 mem_next_page_gt)

declare unmap_loop.simps [simp del]

definition pt_unmap_always :: "kheap \<Rightarrow> mem \<Rightarrow> nat \<Rightarrow> nat \<Rightarrow> (int \<times> kheap \<times> mem) option" where
  "pt_unmap_always h m start pages = do {
     (h', m') \<leftarrow> unmap_loop h m start (range_end start pages);
     Some (0, h', mem_changed m')
   }"

fun all_mapped :: "mem \<Rightarrow> nat list \<Rightarrow> bool option" where
  "all_mapped m [] = Some True"
| "all_mapped m (p # ps) = do {
     e \<leftarrow> mem_pt m p;
     if e = None then Some False else all_mapped m ps
   }"

definition pt_unmap :: "kheap \<Rightarrow> mem \<Rightarrow> nat \<Rightarrow> nat \<Rightarrow> (int \<times> kheap \<times> mem) option" where
  "pt_unmap h m start pages = do {
     ok \<leftarrow> all_mapped m [start..<range_end start pages];
     if ok then pt_unmap_always h m start pages else Some (-1, h, m)
   }"

text \<open>The loop of \<open>pt_map\<close>.\<close>

fun map_pages :: "kheap \<Rightarrow> mem \<Rightarrow> nat \<Rightarrow> nat \<Rightarrow> nat \<Rightarrow> u32 \<Rightarrow> nat list \<Rightarrow> (kheap \<times> mem) option" where
  "map_pages h m i start offset flags [] = Some (h, m)"
| "map_pages h m i start offset flags (page # ps) = do {
     e \<leftarrow> mem_pt m page;
     (h1, m1) \<leftarrow> (if e \<noteq> None then map_option snd (pt_unmap h m page 1) else Some (h, m));
     h2 \<leftarrow> data_retain h1 i;
     m2 \<leftarrow> mem_pt_new m1 page;
     map_pages h2
       (mem_pt_store m2 page \<lparr>pe_data = Some i,
                              pe_offset = ((page - start) * PAGE_SIZE) mod 2 ^ 32 + offset,
                              pe_flags = flags\<rparr>)
       i start offset flags ps
   }"

text \<open>\<open>memory\<close> is the result of the host's \<open>mmap\<close>: \<open>Inl e\<close> for \<open>MAP_FAILED\<close> with \<open>errno\<close>.\<close>

definition pt_map ::
  "kheap \<Rightarrow> mem \<Rightarrow> nat \<Rightarrow> nat \<Rightarrow> nat result \<Rightarrow> nat \<Rightarrow> u32 \<Rightarrow> (unit result \<times> kheap \<times> mem) option" where
  "pt_map h m start pages memory offset flags =
     (case memory of
        Inl e \<Rightarrow> Some (Inl e, h, m)
      | Inr region \<Rightarrow>
          if \<not> h_malloc_ok h (h_next h) then Some (Inl ENOMEM, h\<lparr>h_next := h_next h + 1\<rparr>, m)
          else do {
            let i = h_next h;
            let h1 = h\<lparr>h_next := i + 1,
                       h_datas := (h_datas h)(i \<mapsto>
                         \<lparr>d_data = region, d_size = (pages * PAGE_SIZE) mod 2 ^ 32 + offset,
                          d_refcount = 0, d_fd = None, d_file_offset = 0\<rparr>)\<rparr>;
            (h2, m2) \<leftarrow> map_pages h1 m i start offset flags [start..<range_end start pages];
            Some (Inr (), h2, m2)
          })"

text \<open>An anonymous private mapping of the host: zeroed memory under a fresh number.\<close>

definition host_mmap :: "kheap \<Rightarrow> nat \<Rightarrow> nat result \<times> kheap" where
  "host_mmap h n =
     (case h_mmap_err h (h_hnext h) of
        Some e \<Rightarrow> (Inl e, h\<lparr>h_hnext := h_hnext h + 1\<rparr>)
      | None \<Rightarrow> (Inr (h_hnext h),
                 h\<lparr>h_hnext := h_hnext h + 1, h_host := (h_host h)(h_hnext h \<mapsto> replicate n 0)\<rparr>))"

definition pt_map_nothing ::
  "kheap \<Rightarrow> mem \<Rightarrow> nat \<Rightarrow> nat \<Rightarrow> u32 \<Rightarrow> (unit result \<times> kheap \<times> mem) option" where
  "pt_map_nothing h m start pages flags =
     (if pages = 0 then Some (Inr (), h, m)
      else let (memory, h1) = host_mmap h ((pages * PAGE_SIZE) mod 2 ^ 32)
           in pt_map h1 m start pages memory 0 (flags OR P_ANONYMOUS))"

text \<open>
  \<open>pt_set_flags\<close>. \<open>mprotect page = Some e\<close> says that the host's \<open>mprotect\<close> of the page fails; the
  host protection has no other effect on the model.
\<close>

fun set_flags_pages ::
  "(nat \<Rightarrow> errno option) \<Rightarrow> mem \<Rightarrow> u32 \<Rightarrow> nat list \<Rightarrow> (unit result \<times> mem) option" where
  "set_flags_pages mprotect m flags [] = Some (Inr (), m)"
| "set_flags_pages mprotect m flags (page # ps) = do {
     e \<leftarrow> mem_pt m page;
     entry \<leftarrow> e;
     let m' = mem_pt_store m page (entry\<lparr>pe_flags := flags\<rparr>);
     case (if tst (flags AND NOT (pe_flags entry)) (P_READ OR P_WRITE) then mprotect page else None) of
       Some err \<Rightarrow> Some (Inl err, m')
     | None \<Rightarrow> set_flags_pages mprotect m' flags ps
   }"

definition pt_set_flags ::
  "(nat \<Rightarrow> errno option) \<Rightarrow> mem \<Rightarrow> nat \<Rightarrow> nat \<Rightarrow> u32 \<Rightarrow> (unit result \<times> mem) option" where
  "pt_set_flags mprotect m start pages flags = do {
     ok \<leftarrow> all_mapped m [start..<range_end start pages];
     if \<not> ok then Some (Inl ENOMEM, m)
     else do {
       (r, m') \<leftarrow> set_flags_pages mprotect m flags [start..<range_end start pages];
       Some (case r of Inl e \<Rightarrow> (Inl e, m') | Inr _ \<Rightarrow> (Inr (), mem_changed m'))
     }
   }"

text \<open>One page of \<open>pt_copy_on_write\<close>.\<close>

definition cow_page ::
  "kheap \<Rightarrow> mem \<Rightarrow> mem \<Rightarrow> nat \<Rightarrow> (kheap \<times> mem \<times> mem) option" where
  "cow_page h src dst page = do {
     e \<leftarrow> mem_pt src page;
     case e of
       None \<Rightarrow> Some (h, src, dst)
     | Some entry \<Rightarrow> do {
         (rc, h1, dst1) \<leftarrow> pt_unmap_always h dst page 1;
         let flags = (if \<not> tst (pe_flags entry) P_SHARED then pe_flags entry OR P_COW
                      else pe_flags entry);
         let src1 = mem_pt_store src page (entry\<lparr>pe_flags := flags\<rparr>);
         i \<leftarrow> pe_data entry;
         h2 \<leftarrow> data_retain h1 i;
         dst2 \<leftarrow> mem_pt_new dst1 page;
         Some (h2, src1, mem_pt_store dst2 page
                 \<lparr>pe_data = Some i, pe_offset = pe_offset entry, pe_flags = flags\<rparr>)
       }
   }"

function cow_loop ::
  "kheap \<Rightarrow> mem \<Rightarrow> mem \<Rightarrow> nat \<Rightarrow> nat \<Rightarrow> (kheap \<times> mem \<times> mem) option" where
  "cow_loop h src dst page end_page =
     (if page < end_page then do {
        (h', src', dst') \<leftarrow> cow_page h src dst page;
        cow_loop h' src' dst' (mem_next_page src' page) end_page
      } else Some (h, src, dst))"
  by pat_completeness auto
termination
  by (relation "measure (\<lambda>(h, src, dst, page, end_page). end_page - page)")
     (auto intro: diff_less_mono2 mem_next_page_gt)

declare cow_loop.simps [simp del]

definition pt_copy_on_write ::
  "kheap \<Rightarrow> mem \<Rightarrow> mem \<Rightarrow> nat \<Rightarrow> nat \<Rightarrow> (int \<times> kheap \<times> mem \<times> mem) option" where
  "pt_copy_on_write h src dst start pages = do {
     (h', src', dst') \<leftarrow> cow_loop h src dst start (range_end start pages);
     Some (0, h', mem_changed src', mem_changed dst')
   }"

definition mem_destroy :: "kheap \<Rightarrow> mem \<Rightarrow> kheap option" where
  "mem_destroy h m = do {
     (rc, h', m') \<leftarrow> pt_unmap_always h m 0 MEM_PAGES;
     Some h'
   }"

type_synonym host_ptr = "nat \<times> nat"

definition mem_ptr_nofault :: "kheap \<Rightarrow> mem \<Rightarrow> addr_t \<Rightarrow> mem_type \<Rightarrow> host_ptr option option" where
  "mem_ptr_nofault h m addr type = do {
     e \<leftarrow> mem_pt m (PAGE addr);
     case e of
       None \<Rightarrow> Some None
     | Some entry \<Rightarrow>
         if type = MEM_WRITE \<and> \<not> P_WRITABLE (pe_flags entry) then Some None
         else do {
           i \<leftarrow> pe_data entry;
           d \<leftarrow> h_datas h i;
           Some (Some (d_data d, pe_offset entry + PGOFFSET addr))
         }
   }"

text \<open>The search for the next mapped page above a fault.\<close>

function next_mapped :: "mem \<Rightarrow> nat \<Rightarrow> nat" where
  "next_mapped m p = (if p < MEM_PAGES \<and> mem_pt m p = Some None then next_mapped m (p + 1) else p)"
  by pat_completeness auto
termination by (relation "measure (\<lambda>(m, p). MEM_PAGES - p)") auto

declare next_mapped.simps [simp del]

definition grow_down :: "kheap \<Rightarrow> mem \<Rightarrow> nat \<Rightarrow> (unit result \<times> kheap \<times> mem) option" where
  "grow_down h m page =
     (let p = next_mapped m (page + 1) in
      if p \<ge> MEM_PAGES then Some (Inl EFAULT, h, m)
      else do {
        e \<leftarrow> mem_pt m p;
        entry \<leftarrow> e;
        if \<not> tst (pe_flags entry) P_GROWSDOWN then Some (Inl EFAULT, h, m)
        else pt_map_nothing h m page 1 (P_WRITE OR P_GROWSDOWN)
      })"

definition copy_page :: "kheap \<Rightarrow> mem \<Rightarrow> nat \<Rightarrow> pt_entry \<Rightarrow> u32 \<Rightarrow> (unit result \<times> kheap \<times> mem) option" where
  "copy_page h m page entry flags =
     (let (copy, h1) = host_mmap h PAGE_SIZE in
      case copy of
        Inl e \<Rightarrow> Some (Inl e, h1, m)
      | Inr region \<Rightarrow> do {
          i \<leftarrow> pe_data entry;
          d \<leftarrow> h_datas h1 i;
          old \<leftarrow> h_host h1 (d_data d);
          bytes \<leftarrow> copy_from old (pe_offset entry) PAGE_SIZE;
          let h2 = h1\<lparr>h_host := (h_host h1)(region \<mapsto> bytes)\<rparr>;
          (r, h3, m3) \<leftarrow> pt_map h2 m page 1 (Inr region) 0 (flags AND NOT P_COW);
          Some (case r of
                  Inl e \<Rightarrow> (Inl e, h3\<lparr>h_host := (h_host h3)(region := None)\<rparr>, m3)
                | Inr _ \<Rightarrow> (Inr (), h3, m3))
        })"

definition mem_resolve_fault ::
  "kheap \<Rightarrow> mem \<Rightarrow> nat \<Rightarrow> mem_type \<Rightarrow> bool \<Rightarrow> (unit result \<times> kheap \<times> mem) option" where
  "mem_resolve_fault h m page type ptrace_copy = do {
     e \<leftarrow> mem_pt m page;
     (r, h1, m1) \<leftarrow> (if e = None then grow_down h m page else Some (Inr (), h, m));
     case r of
       Inl err \<Rightarrow> Some (Inl err, h1, m1)
     | Inr _ \<Rightarrow>
         if type \<noteq> MEM_WRITE \<and> type \<noteq> MEM_WRITE_PTRACE then Some (Inr (), h1, m1)
         else do {
           e1 \<leftarrow> mem_pt m1 page;
           entry \<leftarrow> e1;
           let flags = (if ptrace_copy then pe_flags entry OR P_WRITE OR P_COW else pe_flags entry);
           if \<not> tst flags P_WRITE then Some (Inl EFAULT, h1, m1)
           else if tst flags P_COW then copy_page h1 m1 page entry flags
           else Some (Inr (), h1, m1)
         }
   }"

text \<open>
  \<open>mem_ptr\<close>. In the two gaps around \<open>mem_resolve_fault\<close> the lock is free and other threads may
  change the address space: \<open>env\<close> gives what they do in the n-th gap. The loop has no bound in the
  source; \<open>fuel\<close> bounds its rounds, and running out of it is \<open>None\<close>.
\<close>

fun mem_ptr_loop ::
  "nat \<Rightarrow> (nat \<Rightarrow> kheap \<times> mem \<Rightarrow> kheap \<times> mem) \<Rightarrow> nat \<Rightarrow> kheap \<Rightarrow> mem \<Rightarrow> addr_t \<Rightarrow> mem_type \<Rightarrow> bool
     \<Rightarrow> (host_ptr option \<times> kheap \<times> mem) option" where
  "mem_ptr_loop 0 env n h m addr type ptrace_copy = None"
| "mem_ptr_loop (Suc fuel) env n h m addr type ptrace_copy = do {
     let writing = (type = MEM_WRITE \<or> type = MEM_WRITE_PTRACE);
     let page = PAGE addr;
     e \<leftarrow> mem_pt m page;
     if (case e of None \<Rightarrow> False
         | Some entry \<Rightarrow> \<not> ptrace_copy \<and> (\<not> writing \<or> P_WRITABLE (pe_flags entry)))
     then do {
       let m1 = (if writing then m\<lparr>m_inval := m_inval m @ [page]\<rparr> else m);
       p \<leftarrow> mem_ptr_nofault h m1 addr type;
       Some (p, h, m1)
     }
     else if (case e of None \<Rightarrow> False
              | Some entry \<Rightarrow> writing \<and> type \<noteq> MEM_WRITE_PTRACE \<and> \<not> tst (pe_flags entry) P_WRITE)
     then Some (None, h, m)
     else do {
       let (h1, m1) = env (2 * n) (h, m);
       (r, h2, m2) \<leftarrow> mem_resolve_fault h1 m1 page type ptrace_copy;
       let (h3, m3) = env (2 * n + 1) (h2, m2);
       case r of
         Inl err \<Rightarrow> Some (None, h3, m3)
       | Inr _ \<Rightarrow> mem_ptr_loop fuel env (n + 1) h3 m3 addr type False
     }
   }"

definition mem_ptr ::
  "nat \<Rightarrow> (nat \<Rightarrow> kheap \<times> mem \<Rightarrow> kheap \<times> mem) \<Rightarrow> kheap \<Rightarrow> mem \<Rightarrow> addr_t \<Rightarrow> mem_type
     \<Rightarrow> (host_ptr option \<times> kheap \<times> mem) option" where
  "mem_ptr fuel env h m addr type = mem_ptr_loop fuel env 0 h m addr type (type = MEM_WRITE_PTRACE)"

definition SEGV_MAPERR :: int where "SEGV_MAPERR = 1"
definition SEGV_ACCERR :: int where "SEGV_ACCERR = 2"

definition mem_segv_reason :: "mem \<Rightarrow> addr_t \<Rightarrow> int option" where
  "mem_segv_reason m addr = do {
     e \<leftarrow> mem_pt m (PAGE addr);
     Some (if e = None then SEGV_MAPERR else SEGV_ACCERR)
   }"

end
