(* ===== verification/Page_Views.thy ===== *)
theory Page_Views
  imports Memory
begin

text \<open>
  The page table of \<^verbatim>\<open>kernel/memory.c\<close> seen as a partial map from page numbers to entries, the
  number of references an address space holds on a backing object, and the invariant that ties the
  reference counts of the heap to the entries of all address spaces.
\<close>

section \<open>The page table as a map\<close>

definition page_view :: "mem \<Rightarrow> nat \<Rightarrow> pt_entry option" where
  "page_view m p = (case m_pgdir m (PGDIR_TOP p) of
      None \<Rightarrow> None
    | Some d \<Rightarrow> (let e = d (PGDIR_BOTTOM p) in if pe_data e = None then None else Some e))"

named_theorems view_simps \<open>effect of the page-table operations on the view\<close>

lemma PGDIR_TOP_bound [simp]: "MEM_PGDIR_SIZE \<le> PGDIR_TOP p \<longleftrightarrow> MEM_PAGES \<le> p"
  by (simp add: PGDIR_TOP_def MEM_PGDIR_SIZE_def MEM_PAGES_def less_eq_div_iff_mult_less_eq)

lemma PGDIR_inj: "PGDIR_TOP p = PGDIR_TOP q \<Longrightarrow> PGDIR_BOTTOM p = PGDIR_BOTTOM q \<Longrightarrow> p = q"
  unfolding PGDIR_TOP_def PGDIR_BOTTOM_def MEM_PGDIR_SIZE_def by (metis div_mod_decomp)

lemma mem_pt_view: "mem_pt m p = (if p < MEM_PAGES then Some (page_view m p) else None)"
  by (simp add: mem_pt_def page_view_def not_le)

lemma page_view_data: "page_view m p = Some e \<Longrightarrow> pe_data e \<noteq> None"
  by (auto simp: page_view_def Let_def split: option.splits if_splits)

lemma mem_pt_new_ok: "p < MEM_PAGES \<Longrightarrow> \<exists>m'. mem_pt_new m p = Some m'"
  by (auto simp: mem_pt_new_def not_le split: option.splits)

lemma view_mem_pt_new [view_simps]: "mem_pt_new m p = Some m' \<Longrightarrow> page_view m' q = page_view m q"
  by (auto simp: mem_pt_new_def page_view_def pt_empty_def split: if_splits option.splits)

lemma view_mem_pt_new_store [view_simps]:
  "mem_pt_new m p = Some m1 \<Longrightarrow> pe_data e \<noteq> None \<Longrightarrow>
     page_view (mem_pt_store m1 p e) q = (if q = p then Some e else page_view m q)"
  by (auto simp: mem_pt_new_def mem_pt_store_def page_view_def pt_empty_def Let_def
      dest: PGDIR_inj split: if_splits option.splits)

lemma view_mem_pt_store [view_simps]:
  "page_view m p = Some e0 \<Longrightarrow>
     page_view (mem_pt_store m p e) q =
       (if q = p then (if pe_data e = None then None else Some e) else page_view m q)"
  by (auto simp: mem_pt_store_def page_view_def Let_def dest: PGDIR_inj split: if_splits option.splits)

lemma mem_pt_store_fields [simp]:
  "m_changes (mem_pt_store m p e) = m_changes m" "m_inval (mem_pt_store m p e) = m_inval m"
  by (simp_all add: mem_pt_store_def split: option.splits)

lemma view_mem_pt_del:
  "p < MEM_PAGES \<Longrightarrow> \<exists>m'. mem_pt_del m p = Some m'
     \<and> (\<forall>q. page_view m' q = (if q = p then None else page_view m q))
     \<and> m_changes m' = m_changes m \<and> m_inval m' = m_inval m"
  by (auto simp: mem_pt_del_def mem_pt_view view_mem_pt_store split: option.splits)

lemma view_fields [view_simps]:
  "page_view (m\<lparr>m_inval := a\<rparr>) = page_view m" "page_view (m\<lparr>m_changes := c\<rparr>) = page_view m"
  "page_view (mem_changed m) = page_view m"
  by (rule ext, simp add: page_view_def mem_changed_def)+

lemma mem_pt_new_fields:
  "mem_pt_new m p = Some m' \<Longrightarrow> m_changes m' = m_changes m \<and> m_inval m' = m_inval m"
  by (auto simp: mem_pt_new_def split: if_splits option.splits)

lemma range_end_exact [simp]: "start + pages \<le> MEM_PAGES \<Longrightarrow> range_end start pages = start + pages"
  by (simp add: range_end_def MEM_PAGES_def)

text \<open>The page iterator skips only pages without entry.\<close>

lemma skip_dirs_empty: "page \<le> q \<Longrightarrow> q < skip_dirs m page \<Longrightarrow> page_view m q = None"
proof (induction m page rule: skip_dirs.induct)
  case (1 m page)
  show ?case
  proof (cases "page < MEM_PAGES \<and> m_pgdir m (PGDIR_TOP page) = None")
    case False
    then have "skip_dirs m page = page" by (subst skip_dirs.simps) auto
    with "1.prems" show ?thesis by simp
  next
    case True
    define nxt where "nxt = page - PGDIR_BOTTOM page + MEM_PGDIR_SIZE"
    have skip: "skip_dirs m page = skip_dirs m nxt"
      using True by (subst skip_dirs.simps) (simp add: nxt_def)
    show ?thesis
    proof (cases "nxt \<le> q")
      case True
      then show ?thesis using "1.IH" [OF \<open>page < MEM_PAGES \<and> _\<close>] "1.prems" skip by (simp add: nxt_def)
    next
      case False
      have "page = 2 ^ 10 * PGDIR_TOP page + PGDIR_BOTTOM page" "nxt = 2 ^ 10 * PGDIR_TOP page + 2 ^ 10"
        by (simp_all add: nxt_def PGDIR_TOP_def PGDIR_BOTTOM_def MEM_PGDIR_SIZE_def flip: minus_mod_eq_mult_div)
      with False "1.prems"(1) have "PGDIR_TOP q = PGDIR_TOP page"
        unfolding PGDIR_TOP_def by (intro div_nat_eqI) simp_all
      with True show ?thesis by (simp add: page_view_def)
    qed
  qed
qed

lemma mem_next_page_empty:
  "page < q \<Longrightarrow> q < mem_next_page m page \<Longrightarrow> page_view m q = None"
  using skip_dirs_empty [of "page + 1" q m] by (auto simp: mem_next_page_def split: if_splits)

section \<open>References\<close>

definition refers :: "mem \<Rightarrow> nat \<Rightarrow> nat \<Rightarrow> bool" where
  "refers m i p \<longleftrightarrow> (\<exists>e. page_view m p = Some e \<and> pe_data e = Some i)"

definition refs :: "mem \<Rightarrow> nat \<Rightarrow> nat" where
  "refs m i = card {p. p < MEM_PAGES \<and> refers m i p}"

lemma refs_le: "refs m i \<le> MEM_PAGES"
  unfolding refs_def using card_mono [of "{..<MEM_PAGES}" "{p. p < MEM_PAGES \<and> refers m i p}"]
  by auto

lemma refs_pos: "p < MEM_PAGES \<Longrightarrow> refers m i p \<Longrightarrow> 0 < refs m i"
  unfolding refs_def by (rule card_gt_0_iff [THEN iffD2]) auto

lemma refs_same_view: "(\<And>p. p < MEM_PAGES \<Longrightarrow> refers m' i p = refers m i p) \<Longrightarrow> refs m' i = refs m i"
  unfolding refs_def by (rule arg_cong [of _ _ card]) auto

lemma refs_update:
  assumes p: "p < MEM_PAGES" and other: "\<And>q. q \<noteq> p \<Longrightarrow> page_view m' q = page_view m q"
  shows "refs m' i + of_bool (refers m i p) = refs m i + of_bool (refers m' i p)"
proof -
  define S where "S = {q. q < MEM_PAGES \<and> q \<noteq> p \<and> refers m i q}"
  have fin: "finite S" "p \<notin> S" by (auto simp: S_def)
  have 1: "{q. q < MEM_PAGES \<and> refers m i q} = (if refers m i p then insert p S else S)"
    using p by (auto simp: S_def)
  have eq: "refers m' i q = refers m i q" if "q \<noteq> p" for q by (simp add: refers_def other [OF that])
  have "{q. q < MEM_PAGES \<and> q \<noteq> p \<and> refers m' i q} = S" unfolding S_def using eq by blast
  then have 2: "{q. q < MEM_PAGES \<and> refers m' i q} = (if refers m' i p then insert p S else S)"
    using p by auto
  show ?thesis unfolding refs_def 1 2 using fin by simp
qed

lemma refs_init: "refs mem_init i = 0"
  by (simp add: refs_def refers_def page_view_def mem_init_def)

section \<open>The heap invariant\<close>

text \<open>
  \<open>heap_ok h R X\<close>: a backing object exists exactly when some page refers to it (or it is one of the
  objects \<open>X\<close> under construction), its counter is the number \<open>R\<close> of references, and it owns a live
  host mapping large enough for it, which no other object owns.
\<close>

definition data_ok :: "kheap \<Rightarrow> data \<Rightarrow> bool" where
  "data_ok h d \<longleftrightarrow> (\<exists>bytes. h_host h (d_data d) = Some bytes \<and> d_size d \<le> length bytes)
     \<and> d_data d < h_hnext h"

definition heap_ok :: "kheap \<Rightarrow> (nat \<Rightarrow> nat) \<Rightarrow> nat set \<Rightarrow> bool" where
  "heap_ok h R X \<longleftrightarrow>
     (\<forall>i. h_datas h i = None \<longrightarrow> R i = 0)
   \<and> (\<forall>i d. h_datas h i = Some d \<longrightarrow>
        (0 < R i \<or> i \<in> X) \<and> d_refcount d = of_nat (R i) \<and> data_ok h d \<and> i < h_next h)
   \<and> (\<forall>i j d d'. h_datas h i = Some d \<longrightarrow> h_datas h j = Some d' \<longrightarrow> d_data d = d_data d'
        \<longrightarrow> d_data d \<noteq> vdso_data \<longrightarrow> i = j)"

text \<open>Every mapped page lies inside its backing object.\<close>

definition mem_ok :: "kheap \<Rightarrow> mem \<Rightarrow> bool" where
  "mem_ok h m \<longleftrightarrow> (\<forall>p e. p < MEM_PAGES \<longrightarrow> page_view m p = Some e \<longrightarrow>
     (\<exists>i d. pe_data e = Some i \<and> h_datas h i = Some d \<and> pe_offset e + PAGE_SIZE \<le> d_size d))"

text \<open>
  What a change of the heap keeps for an address space that did not take part in it: an object
  with a reference keeps its mapping, its size and the bytes.
\<close>

definition keeps :: "kheap \<Rightarrow> kheap \<Rightarrow> nat \<Rightarrow> bool" where
  "keeps h h' i \<longleftrightarrow> (\<forall>d. h_datas h i = Some d \<longrightarrow>
     (\<exists>d'. h_datas h' i = Some d' \<and> d_data d' = d_data d \<and> d_size d' = d_size d
        \<and> h_host h' (d_data d) = h_host h (d_data d)))"

lemma keeps_refl [simp]: "keeps h h i"
  by (simp add: keeps_def)

lemma keeps_trans: "keeps h h' i \<Longrightarrow> keeps h' h'' i \<Longrightarrow> keeps h h'' i"
  unfolding keeps_def by metis

lemma mem_ok_keeps:
  assumes "mem_ok h m" "\<And>i p. p < MEM_PAGES \<Longrightarrow> refers m i p \<Longrightarrow> keeps h h' i"
  shows "mem_ok h' m"
  unfolding mem_ok_def
proof (intro allI impI)
  fix p e assume p: "p < MEM_PAGES" "page_view m p = Some e"
  then obtain i d where i: "pe_data e = Some i" "h_datas h i = Some d" "pe_offset e + PAGE_SIZE \<le> d_size d"
    using assms(1) unfolding mem_ok_def by blast
  have "keeps h h' i" using assms(2) [OF p(1)] p i by (auto simp: refers_def)
  with i show "\<exists>i d. pe_data e = Some i \<and> h_datas h' i = Some d \<and> pe_offset e + PAGE_SIZE \<le> d_size d"
    unfolding keeps_def by metis
qed

lemma heap_okD:
  assumes "heap_ok h R X" "h_datas h i = Some d"
  shows "0 < R i \<or> i \<in> X" "d_refcount d = of_nat (R i)" "data_ok h d" "i < h_next h"
  using assms unfolding heap_ok_def by blast+

lemma heap_okI:
  assumes "\<And>i. h_datas h i = None \<Longrightarrow> R i = 0"
    and "\<And>i d. h_datas h i = Some d \<Longrightarrow> 0 < R i \<or> i \<in> X"
    and "\<And>i d. h_datas h i = Some d \<Longrightarrow> d_refcount d = of_nat (R i)"
    and "\<And>i d. h_datas h i = Some d \<Longrightarrow> data_ok h d"
    and "\<And>i d. h_datas h i = Some d \<Longrightarrow> i < h_next h"
    and "\<And>i j d d'. h_datas h i = Some d \<Longrightarrow> h_datas h j = Some d' \<Longrightarrow> d_data d = d_data d' \<Longrightarrow>
           d_data d \<noteq> vdso_data \<Longrightarrow> i = j"
  shows "heap_ok h R X"
  using assms unfolding heap_ok_def by blast

lemma heap_ok_absent: "heap_ok h R X \<Longrightarrow> h_datas h i = None \<Longrightarrow> R i = 0"
  unfolding heap_ok_def by blast

lemma heap_ok_refer: "heap_ok h R X \<Longrightarrow> 0 < R i \<Longrightarrow> \<exists>d. h_datas h i = Some d"
  unfolding heap_ok_def by (metis less_irrefl not_None_eq)

lemma heap_ok_owner:
  "heap_ok h R X \<Longrightarrow> h_datas h i = Some d \<Longrightarrow> h_datas h j = Some d' \<Longrightarrow> d_data d = d_data d' \<Longrightarrow>
     d_data d \<noteq> vdso_data \<Longrightarrow> i = j"
  unfolding heap_ok_def by blast

lemma heap_ok_mono:
  assumes "heap_ok h R X" "X \<subseteq> Y"
  shows "heap_ok h R Y"
proof (rule heap_okI)
  fix i d assume "h_datas h i = Some d"
  note heap_okD [OF assms(1) this]
  then show "0 < R i \<or> i \<in> Y" "d_refcount d = of_nat (R i)" "data_ok h d" "i < h_next h"
    using assms(2) by blast+
qed (erule heap_ok_absent [OF assms(1)], erule (3) heap_ok_owner [OF assms(1)])

text \<open>Changing one counter along with the count.\<close>

lemma heap_ok_recount:
  assumes ok: "heap_ok h R X" and d: "h_datas h i = Some d"
    and c: "c = of_nat n" and n: "0 < n" and X: "X - {i} \<subseteq> Y"
  shows "heap_ok (h\<lparr>h_datas := (h_datas h)(i \<mapsto> d\<lparr>d_refcount := c\<rparr>)\<rparr>) (R(i := n)) Y"
proof (rule heap_okI)
  let ?h = "h\<lparr>h_datas := (h_datas h)(i \<mapsto> d\<lparr>d_refcount := c\<rparr>)\<rparr>"
  fix j d' assume j: "h_datas ?h j = Some d'"
  obtain d0 where d0: "h_datas h j = Some d0" "d_data d' = d_data d0" "d_size d' = d_size d0"
      "j \<noteq> i \<longrightarrow> d' = d0" "j = i \<longrightarrow> d_refcount d' = c"
    using j d by (auto split: if_splits)
  note ok' = heap_okD [OF ok d0(1)]
  show "0 < (R(i := n)) j \<or> j \<in> Y" "d_refcount d' = of_nat ((R(i := n)) j)" "j < h_next ?h"
    using ok' d0(4,5) X c n by auto
  show "data_ok ?h d'" using ok'(3) d0(2,3) by (simp add: data_ok_def)
next
  let ?h = "h\<lparr>h_datas := (h_datas h)(i \<mapsto> d\<lparr>d_refcount := c\<rparr>)\<rparr>"
  have orig: "\<exists>d0. h_datas h l = Some d0 \<and> d_data d' = d_data d0" if "h_datas ?h l = Some d'" for l d'
    using that d by (cases "l = i") auto
  fix j k d1 d2 assume "h_datas ?h j = Some d1" "h_datas ?h k = Some d2"
    and e: "d_data d1 = d_data d2" "d_data d1 \<noteq> vdso_data"
  note orig [OF this(1)] orig [OF this(2)]
  with e show "j = k" using heap_ok_owner [OF ok] by metis
qed (use heap_ok_absent [OF ok] in \<open>auto split: if_splits\<close>)

text \<open>Giving up a reference.\<close>

lemma data_release_ok:
  assumes ok: "heap_ok h R X" and pos: "0 < R i" and small: "R i < 2 ^ 32" and notx: "i \<notin> X"
  obtains h' where "data_release h i = Some h'" "heap_ok h' (R(i := R i - 1)) X"
    "\<And>j. j \<noteq> i \<or> 1 < R i \<Longrightarrow> keeps h h' j" "h_next h' = h_next h" "h_hnext h' = h_hnext h"
proof -
  obtain d where d: "h_datas h i = Some d" using heap_ok_refer [OF ok pos] by blast
  have rc: "d_refcount d - 1 = of_nat (R i - 1)"
    using heap_okD(2) [OF ok d] pos by (cases "R i") simp_all
  have zero: "d_refcount d - 1 = 0 \<longleftrightarrow> R i = 1"
  proof -
    have "d_refcount d - 1 = 0 \<longleftrightarrow> 2 ^ 32 dvd R i - 1" unfolding rc by (simp add: word_of_nat_eq_0_iff)
    also have "\<dots> \<longleftrightarrow> R i - 1 = 0" using small by (auto dest: dvd_imp_le)
    finally show ?thesis using pos by auto
  qed
  show ?thesis
  proof (cases "R i = 1")
    case True
    then have rel: "data_release h i = Some (data_free h i d)" using d zero by (simp add: data_release_def)
    have oth: "h_host (data_free h i d) (d_data d') = h_host h (d_data d')"
      if "h_datas h j = Some d'" "j \<noteq> i" for j d'
      using heap_ok_owner [OF ok d that(1)] that(2) by (auto simp: data_free_def)
    have "heap_ok (data_free h i d) (R(i := R i - 1)) X"
    proof (rule heap_okI)
      fix j d' assume j: "h_datas (data_free h i d) j = Some d'"
      then have j': "j \<noteq> i" "h_datas h j = Some d'" by (auto simp: data_free_def split: if_splits)
      note ok' = heap_okD [OF ok j'(2)]
      show "0 < (R(i := R i - 1)) j \<or> j \<in> X" "d_refcount d' = of_nat ((R(i := R i - 1)) j)"
        "j < h_next (data_free h i d)"
        using ok' j' by (auto simp: data_free_def)
      show "data_ok (data_free h i d) d'"
        using ok'(3) oth [OF j'(2,1)] unfolding data_ok_def by (simp add: data_free_def)
    next
      fix j k d1 d2 assume "h_datas (data_free h i d) j = Some d1" "h_datas (data_free h i d) k = Some d2"
        "d_data d1 = d_data d2" "d_data d1 \<noteq> vdso_data"
      then show "j = k" by (auto simp: data_free_def split: if_splits intro: heap_ok_owner [OF ok])
    qed (use True heap_ok_absent [OF ok] in \<open>auto simp: data_free_def split: if_splits\<close>)
    moreover have "keeps h (data_free h i d) j" if "j \<noteq> i \<or> 1 < R i" for j
      using that True oth unfolding keeps_def by (auto simp: data_free_def)
    ultimately show ?thesis using that rel by (simp add: data_free_def)
  next
    case False
    let ?h = "h\<lparr>h_datas := (h_datas h)(i \<mapsto> d\<lparr>d_refcount := d_refcount d - 1\<rparr>)\<rparr>"
    have "data_release h i = Some ?h" using d zero False by (simp add: data_release_def)
    moreover have "heap_ok ?h (R(i := R i - 1)) X"
      by (rule heap_ok_recount [OF ok d]) (use rc pos False in auto)
    moreover have "keeps h ?h j" for j using d unfolding keeps_def by auto
    ultimately show ?thesis using that by simp
  qed
qed

text \<open>Taking a reference.\<close>

lemma data_retain_ok:
  assumes ok: "heap_ok h R X" and d: "h_datas h i = Some d"
  obtains h' where "data_retain h i = Some h'" "heap_ok h' (R(i := R i + 1)) (X - {i})"
    "\<And>j. keeps h h' j" "h_next h' = h_next h" "h_hnext h' = h_hnext h" "h_host h' = h_host h"
proof -
  let ?h = "h\<lparr>h_datas := (h_datas h)(i \<mapsto> d\<lparr>d_refcount := d_refcount d + 1\<rparr>)\<rparr>"
  have "data_retain h i = Some ?h" using d by (simp add: data_retain_def)
  moreover have "heap_ok ?h (R(i := R i + 1)) (X - {i})"
    by (rule heap_ok_recount [OF ok d]) (use heap_okD(2) [OF ok d] in auto)
  moreover have "keeps h ?h j" for j using d unfolding keeps_def by auto
  ultimately show ?thesis using that by simp
qed

end
