(* ===== verification/Memory_Props.thy ===== *)
theory Memory_Props
  imports Page_Views
begin

text \<open>
  Correctness of the page operations of \<^verbatim>\<open>kernel/memory.c\<close>: their effect on the page map, and that
  they keep the reference counts, so that a backing object lives exactly as long as some page of
  some address space refers to it.
\<close>

section \<open>Unmapping\<close>

lemma refs_mono:
  "(\<And>p. p < MEM_PAGES \<Longrightarrow> refers m' i p \<Longrightarrow> refers m i p) \<Longrightarrow> refs m' i \<le> refs m i"
  unfolding refs_def by (rule card_mono) auto

text \<open>
  \<open>Ro\<close> counts the references of all other address spaces: there is room for the references of
  4094 of them in the 32-bit counter.
\<close>

definition room :: "(nat \<Rightarrow> nat) \<Rightarrow> bool" where
  "room Ro \<longleftrightarrow> (\<forall>i. Ro i + MEM_PAGES < 2 ^ 32)"

lemma room_bound: "room Ro \<Longrightarrow> refs m i + Ro i < 2 ^ 32"
  using refs_le [of m i] unfolding room_def by (metis add.commute add_le_cancel_left le_less_trans)

lemma unmap_page_ok:
  assumes p: "p < MEM_PAGES" and ok: "heap_ok h (\<lambda>i. refs m i + Ro i) X" and rm: "room Ro"
    and fresh: "\<And>i. refers m i p \<Longrightarrow> i \<notin> X"
  obtains h' m' where "unmap_page h m p = Some (h', m')"
    "\<And>q. page_view m' q = (if q = p then None else page_view m q)"
    "heap_ok h' (\<lambda>i. refs m' i + Ro i) X"
    "\<And>i. 0 < refs m' i + Ro i \<or> i \<in> X \<Longrightarrow> keeps h h' i"
    "m_changes m' = m_changes m" "h_next h' = h_next h" "h_hnext h' = h_hnext h"
proof (cases "page_view m p")
  case None
  then have "unmap_page h m p = Some (h, m)" using p by (simp add: unmap_page_def mem_pt_view)
  then show ?thesis using that [of h m] ok None by auto
next
  case (Some e)
  then obtain i where i: "pe_data e = Some i" using page_view_data by blast
  have r: "refers m i p" using Some i by (auto simp: refers_def)
  let ?m1 = "m\<lparr>m_inval := m_inval m @ [p]\<rparr>"
  obtain m' where m': "mem_pt_del ?m1 p = Some m'"
      "\<And>q. page_view m' q = (if q = p then None else page_view m q)" "m_changes m' = m_changes m"
    using view_mem_pt_del [OF p, of ?m1] by (auto simp: view_fields)
  have up: "refs m' j + of_bool (refers m j p) = refs m j" for j
    using refs_update [OF p, of m' m j] m'(2) by (simp add: refers_def)
  have cnt: "(\<lambda>j. refs m' j + Ro j) = (\<lambda>j. refs m j + Ro j)(i := refs m i + Ro i - 1)"
  proof
    fix j show "refs m' j + Ro j = ((\<lambda>j. refs m j + Ro j)(i := refs m i + Ro i - 1)) j"
      using up [of j] r Some i by (cases "j = i") (auto simp: refers_def)
  qed
  have pos: "0 < refs m i + Ro i" using refs_pos [OF p r] by simp
  obtain h' where h': "data_release h i = Some h'"
      "heap_ok h' ((\<lambda>j. refs m j + Ro j)(i := refs m i + Ro i - 1)) X"
      "\<And>j. j \<noteq> i \<or> 1 < refs m i + Ro i \<Longrightarrow> keeps h h' j" "h_next h' = h_next h" "h_hnext h' = h_hnext h"
    using data_release_ok [OF ok pos room_bound [OF rm] fresh [OF r]] by metis
  have "unmap_page h m p = Some (h', m')"
    using p Some i m'(1) h'(1) by (simp add: unmap_page_def mem_pt_view)
  moreover have "keeps h h' j" if "0 < refs m' j + Ro j \<or> j \<in> X" for j
    using that h'(3) [of j] fresh [OF r] fun_cong [OF cnt, of j] by (cases "j = i") auto
  ultimately show ?thesis using that [OF _ m'(2)] h'(2,4,5) m'(3) unfolding cnt by blast
qed

lemma unmap_loop_ok:
  assumes "heap_ok h (\<lambda>i. refs m i + Ro i) X" "room Ro" "end_page \<le> MEM_PAGES"
    "\<forall>i p. start \<le> p \<and> p < end_page \<and> refers m i p \<longrightarrow> i \<notin> X"
  shows "\<exists>h' m'. unmap_loop h m start end_page = Some (h', m')
    \<and> (\<forall>q. page_view m' q = (if start \<le> q \<and> q < end_page then None else page_view m q))
    \<and> heap_ok h' (\<lambda>i. refs m' i + Ro i) X
    \<and> (\<forall>i. 0 < refs m' i + Ro i \<or> i \<in> X \<longrightarrow> keeps h h' i)
    \<and> m_changes m' = m_changes m \<and> h_next h' = h_next h \<and> h_hnext h' = h_hnext h"
  using assms
proof (induction h m start end_page rule: unmap_loop.induct)
  case (1 h m page end_page)
  show ?case
  proof (cases "page < end_page")
    case False
    then have "unmap_loop h m page end_page = Some (h, m)" by (subst unmap_loop.simps) simp
    with False "1.prems" show ?thesis by (auto)
  next
    case True
    have p: "page < MEM_PAGES" using True "1.prems"(3) by simp
    obtain h1 m1 where s: "unmap_page h m page = Some (h1, m1)"
      "\<And>q. page_view m1 q = (if q = page then None else page_view m q)"
      "heap_ok h1 (\<lambda>i. refs m1 i + Ro i) X"
      "\<And>i. 0 < refs m1 i + Ro i \<or> i \<in> X \<Longrightarrow> keeps h h1 i"
      "m_changes m1 = m_changes m" "h_next h1 = h_next h" "h_hnext h1 = h_hnext h"
      using unmap_page_ok [OF p "1.prems"(1,2), of thesis] "1.prems"(4) True by blast
    define nx where "nx = mem_next_page m1 page"
    have nx: "page < nx" by (simp add: nx_def mem_next_page_gt)
    have sub: "refers m1 i q \<Longrightarrow> refers m i q" for i q by (auto simp: refers_def s(2) split: if_splits)
    have notX: "\<forall>i q. nx \<le> q \<and> q < end_page \<and> refers m1 i q \<longrightarrow> i \<notin> X"
      using "1.prems"(4) nx sub by (meson less_imp_le_nat order.trans)
    from "1.IH" [OF True s(1) refl s(3) "1.prems"(2,3), folded nx_def, OF notX] obtain h' m' where
      IH: "unmap_loop h1 m1 nx end_page = Some (h', m')"
        "\<And>q. page_view m' q = (if nx \<le> q \<and> q < end_page then None else page_view m1 q)"
        "heap_ok h' (\<lambda>i. refs m' i + Ro i) X"
        "\<And>i. 0 < refs m' i + Ro i \<or> i \<in> X \<Longrightarrow> keeps h1 h' i"
        "m_changes m' = m_changes m1" "h_next h' = h_next h1" "h_hnext h' = h_hnext h1"
      by blast
    have view: "page_view m' q = (if page \<le> q \<and> q < end_page then None else page_view m q)" for q
      using IH(2) [of q] s(2) [of q] nx mem_next_page_empty [of page q m1] nx_def True by auto
    have "refs m' i \<le> refs m1 i" for i
      by (rule refs_mono) (auto simp: refers_def IH(2) split: if_splits)
    then have "keeps h h' i" if "0 < refs m' i + Ro i \<or> i \<in> X" for i
      using that keeps_trans [OF s(4) IH(4)] by (metis add_gr_0 gr0I le_zero_eq)
    moreover have "unmap_loop h m page end_page = Some (h', m')"
      using True s(1) IH(1) by (subst unmap_loop.simps) (simp add: nx_def)
    ultimately show ?thesis using view IH s by auto
  qed
qed

lemma pt_unmap_always_ok:
  assumes "heap_ok h (\<lambda>i. refs m i + Ro i) X" "room Ro" "start + pages \<le> MEM_PAGES"
    "\<forall>i p. start \<le> p \<and> p < start + pages \<and> refers m i p \<longrightarrow> i \<notin> X"
  shows "\<exists>h' m'. pt_unmap_always h m start pages = Some (0, h', m')
    \<and> (\<forall>q. page_view m' q = (if start \<le> q \<and> q < start + pages then None else page_view m q))
    \<and> heap_ok h' (\<lambda>i. refs m' i + Ro i) X
    \<and> (\<forall>i. 0 < refs m' i + Ro i \<or> i \<in> X \<longrightarrow> keeps h h' i)
    \<and> m_changes m' = m_changes m + 1 \<and> h_next h' = h_next h \<and> h_hnext h' = h_hnext h"
proof -
  have same: "refs (mem_changed m0) = refs m0" for m0
    by (simp add: refs_def refers_def view_fields fun_eq_iff)
  show ?thesis
    using unmap_loop_ok [OF assms] assms(3)
    by (auto simp: pt_unmap_always_def view_fields same mem_changed_def [THEN arg_cong, of m_changes])
qed

lemma all_mapped_view:
  "set ps \<subseteq> {..<MEM_PAGES} \<Longrightarrow> all_mapped m ps = Some (\<forall>p \<in> set ps. page_view m p \<noteq> None)"
  by (induction ps) (auto simp: mem_pt_view)

lemma all_unmapped_view:
  "set ps \<subseteq> {..<MEM_PAGES} \<Longrightarrow> all_unmapped m ps = Some (\<forall>p \<in> set ps. page_view m p = None)"
  by (induction ps) (auto simp: mem_pt_view)

lemma pt_unmap_one:
  "p < MEM_PAGES \<Longrightarrow> page_view m p \<noteq> None \<Longrightarrow> pt_unmap h m p 1 = pt_unmap_always h m p 1"
  by (auto simp: pt_unmap_def mem_pt_view)

section \<open>Mapping\<close>

definition new_entry :: "nat \<Rightarrow> nat \<Rightarrow> nat \<Rightarrow> u32 \<Rightarrow> nat \<Rightarrow> pt_entry" where
  "new_entry i start offset flags p =
     \<lparr>pe_data = Some i, pe_offset = (p - start) * PAGE_SIZE + offset, pe_flags = flags\<rparr>"

text \<open>One round of the loop of \<open>pt_map\<close>.\<close>

lemma map_page_ok:
  assumes p: "p < MEM_PAGES" and ok: "heap_ok h (\<lambda>i. refs m i + Ro i) X" and rm: "room Ro"
    and d: "h_datas h i = Some d" and fresh: "\<not> refers m i p" "X \<subseteq> {i}" and e: "pe_data e = Some i"
  shows "\<exists>h1 m1 h2 m2. (if page_view m p \<noteq> None then map_option snd (pt_unmap h m p 1) else Some (h, m)) = Some (h1, m1)
    \<and> data_retain h1 i = Some h2 \<and> mem_pt_new m1 p = Some m2
    \<and> (\<forall>q. page_view (mem_pt_store m2 p e) q = (if q = p then Some e else page_view m q))
    \<and> heap_ok h2 (\<lambda>j. refs (mem_pt_store m2 p e) j + Ro j) {}
    \<and> (\<forall>j. 0 < refs (mem_pt_store m2 p e) j + Ro j \<or> j = i \<longrightarrow> keeps h h2 j)
    \<and> m_changes (mem_pt_store m2 p e) = (if page_view m p = None then m_changes m else m_changes m + 1)
    \<and> h_next h2 = h_next h \<and> h_hnext h2 = h_hnext h"
proof -
  have notX: "\<forall>j q. p \<le> q \<and> q < p + 1 \<and> refers m j q \<longrightarrow> j \<notin> insert i X"
  proof (intro allI impI)
    fix j q assume a: "p \<le> q \<and> q < p + 1 \<and> refers m j q"
    then have "q = p" by linarith
    with a fresh show "j \<notin> insert i X" by blast
  qed
  have ok': "heap_ok h (\<lambda>j. refs m j + Ro j) (insert i X)"
    using ok by (rule heap_ok_mono) blast
  obtain h1 m1 where 1: "(if page_view m p \<noteq> None then map_option snd (pt_unmap h m p 1) else Some (h, m)) = Some (h1, m1)"
      "\<And>q. page_view m1 q = (if q = p then None else page_view m q)"
      "heap_ok h1 (\<lambda>j. refs m1 j + Ro j) (insert i X)"
      "\<And>j. 0 < refs m1 j + Ro j \<or> j = i \<Longrightarrow> keeps h h1 j"
      "m_changes m1 = (if page_view m p = None then m_changes m else m_changes m + 1)"
      "h_next h1 = h_next h" "h_hnext h1 = h_hnext h"
  proof (cases "page_view m p = None")
    case True
    then show thesis using that [of h m] ok' by auto
  next
    case False
    have "p + 1 \<le> MEM_PAGES" using p by simp
    from pt_unmap_always_ok [OF ok' rm this notX] obtain h1 m1 where
      u: "pt_unmap_always h m p 1 = Some (0, h1, m1)"
      "\<forall>q. page_view m1 q = (if p \<le> q \<and> q < p + 1 then None else page_view m q)"
      "heap_ok h1 (\<lambda>j. refs m1 j + Ro j) (insert i X)"
      "\<forall>j. 0 < refs m1 j + Ro j \<or> j \<in> insert i X \<longrightarrow> keeps h h1 j"
      "m_changes m1 = m_changes m + 1" "h_next h1 = h_next h" "h_hnext h1 = h_hnext h" by blast
    have "page_view m1 q = (if q = p then None else page_view m q)" for q
      using u(2) by (cases "q = p") auto
    moreover have "map_option snd (pt_unmap h m p 1) = Some (h1, m1)"
      using u(1) pt_unmap_one [OF p False] by simp
    moreover have "keeps h h1 j" if "0 < refs m1 j + Ro j \<or> j = i" for j
      using u(4) that by blast
    ultimately show thesis using that [of h1 m1] u(3,5-7) False by simp
  qed
  obtain d1 where d1: "h_datas h1 i = Some d1" using 1(4) [of i] d unfolding keeps_def by auto
  obtain h2 where 2: "data_retain h1 i = Some h2"
      "heap_ok h2 ((\<lambda>j. refs m1 j + Ro j)(i := refs m1 i + Ro i + 1)) (insert i X - {i})"
      "\<And>j. keeps h1 h2 j" "h_next h2 = h_next h1" "h_hnext h2 = h_hnext h1"
    using data_retain_ok [OF 1(3) d1] by metis
  obtain m2 where m2: "mem_pt_new m1 p = Some m2" using mem_pt_new_ok [OF p] by blast
  define m3 where "m3 = mem_pt_store m2 p e"
  have v: "page_view m3 q = (if q = p then Some e else page_view m q)" for q
    using view_mem_pt_new_store [OF m2, of e q] e 1(2) [of q] by (simp add: m3_def)
  have up: "refs m3 j = refs m1 j + of_bool (j = i)" for j
    using refs_update [OF p, of m3 m1 j] v 1(2) e by (auto simp: refers_def)
  have "(\<lambda>j. refs m3 j + Ro j) = (\<lambda>j. refs m1 j + Ro j)(i := refs m1 i + Ro i + 1)"
    by (auto simp: up)
  moreover have "insert i X - {i} = {}" using fresh(2) by blast
  ultimately have "heap_ok h2 (\<lambda>j. refs m3 j + Ro j) {}" using 2(2) by argo
  moreover have "keeps h h2 j" if "0 < refs m3 j + Ro j \<or> j = i" for j
    by (rule keeps_trans [OF 1(4) 2(3)]) (use that up [of j] in \<open>auto split: if_splits\<close>)
  moreover have "m_changes m3 = m_changes m1" using mem_pt_new_fields [OF m2] by (simp add: m3_def)
  ultimately show ?thesis using 1 2 m2 v unfolding m3_def by auto
qed

definition replaced :: "mem \<Rightarrow> nat list \<Rightarrow> nat" where
  "replaced m ps = length (filter (\<lambda>p. page_view m p \<noteq> None) ps)"

lemma replaced_cong: "(\<And>q. q \<in> set ps \<Longrightarrow> page_view m' q = page_view m q) \<Longrightarrow> replaced m' ps = replaced m ps"
  unfolding replaced_def by (metis (mono_tags, lifting) filter_cong)

lemma map_pages_ok:
  assumes "heap_ok h (\<lambda>j. refs m j + Ro j) X" "room Ro" "h_datas h i = Some d" "X \<subseteq> {i}"
    "set ps \<subseteq> {..<MEM_PAGES}" "distinct ps" "\<forall>p \<in> set ps. \<not> refers m i p" "X = {} \<or> ps \<noteq> []"
    "\<forall>p \<in> set ps. start \<le> p"
  shows "\<exists>h' m'. map_pages h m i start offset flags ps = Some (h', m')
    \<and> (\<forall>q. page_view m' q = (if q \<in> set ps then Some (new_entry i start offset flags q) else page_view m q))
    \<and> heap_ok h' (\<lambda>j. refs m' j + Ro j) {}
    \<and> (\<forall>j. 0 < refs m' j + Ro j \<or> j = i \<longrightarrow> keeps h h' j)
    \<and> m_changes m' = m_changes m + of_nat (replaced m ps)
    \<and> h_next h' = h_next h \<and> h_hnext h' = h_hnext h"
  using assms
proof (induction ps arbitrary: h m X d)
  case Nil
  then show ?case by (auto simp: replaced_def)
next
  case (Cons p ps)
  define en where "en = \<lparr>pe_data = Some i, pe_offset = ((p - start) * PAGE_SIZE) mod 2 ^ 32 + offset, pe_flags = flags\<rparr>"
  have p: "p < MEM_PAGES" and np: "\<not> refers m i p" using Cons.prems by auto
  have e: "en = new_entry i start offset flags p" "pe_data en = Some i"
    using p by (simp_all add: new_entry_def en_def PAGE_SIZE_def MEM_PAGES_def)
  from map_page_ok [OF p Cons.prems(1,2,3) np Cons.prems(4) e(2)] obtain h1 m1 h2 m2 where
    s: "(if page_view m p \<noteq> None then map_option snd (pt_unmap h m p 1) else Some (h, m)) = Some (h1, m1)"
      "data_retain h1 i = Some h2" "mem_pt_new m1 p = Some m2"
    and v: "\<And>q. page_view (mem_pt_store m2 p en) q = (if q = p then Some en else page_view m q)"
    and ok: "heap_ok h2 (\<lambda>j. refs (mem_pt_store m2 p en) j + Ro j) {}"
    and k: "\<And>j. 0 < refs (mem_pt_store m2 p en) j + Ro j \<or> j = i \<Longrightarrow> keeps h h2 j"
    and c: "m_changes (mem_pt_store m2 p en) = (if page_view m p = None then m_changes m else m_changes m + 1)"
    and n: "h_next h2 = h_next h" "h_hnext h2 = h_hnext h" by blast
  define m3 where "m3 = mem_pt_store m2 p en"
  obtain d2 where d2: "h_datas h2 i = Some d2" using k [of i] Cons.prems(3) unfolding keeps_def by auto
  have nr: "\<forall>q \<in> set ps. \<not> refers m3 i q"
    using Cons.prems(6,7) v by (auto simp: refers_def m3_def)
  have rest: "set ps \<subseteq> {..<MEM_PAGES}" "distinct ps" "\<forall>q \<in> set ps. start \<le> q"
    using Cons.prems by auto
  from Cons.IH [OF ok [folded m3_def] Cons.prems(2) d2 _ rest(1,2) nr _ rest(3)] obtain h' m' where
    IH: "map_pages h2 m3 i start offset flags ps = Some (h', m')"
      "\<And>q. page_view m' q = (if q \<in> set ps then Some (new_entry i start offset flags q) else page_view m3 q)"
      "heap_ok h' (\<lambda>j. refs m' j + Ro j) {}" "\<And>j. 0 < refs m' j + Ro j \<or> j = i \<Longrightarrow> keeps h2 h' j"
      "m_changes m' = m_changes m3 + of_nat (replaced m3 ps)"
      "h_next h' = h_next h2" "h_hnext h' = h_hnext h2" by auto
  have le: "refs m' j \<le> refs m3 j" if "j \<noteq> i" for j
    by (rule refs_mono) (use that IH(2) in \<open>auto simp: refers_def new_entry_def split: if_splits\<close>)
  have kp: "keeps h h' j" if "0 < refs m' j + Ro j \<or> j = i" for j
    by (rule keeps_trans [OF k IH(4)]) (use that le [of j] in \<open>auto simp: m3_def\<close>)
  have vw: "page_view m' q = (if q \<in> set (p # ps) then Some (new_entry i start offset flags q) else page_view m q)" for q
    using IH(2) [of q] v [of q] e(1) by (auto simp: m3_def)
  have mp: "map_pages h m i start offset flags (p # ps) = Some (h', m')"
    using s IH(1) p by (simp add: mem_pt_view m3_def en_def)
  have same: "replaced m3 ps = replaced m ps"
    by (rule replaced_cong) (use v Cons.prems(6) in \<open>auto simp: m3_def\<close>)
  have ch: "m_changes m' = m_changes m + of_nat (replaced m (p # ps))"
    unfolding IH(5) same using c by (simp add: m3_def replaced_def)
  show ?case
    by (rule exI [of _ h'], rule exI [of _ m'], intro conjI allI impI)
       (rule mp, rule vw, rule IH(3), erule kp, rule ch, simp_all only: IH(6,7) n)
qed

section \<open>Building objects\<close>

text \<open>\<open>malloc\<close> of a \<open>struct data\<close> for a live host mapping that nothing owns yet.\<close>

definition unowned :: "kheap \<Rightarrow> nat \<Rightarrow> nat \<Rightarrow> bool" where
  "unowned h region n \<longleftrightarrow> region < h_hnext h
     \<and> (\<exists>bytes. h_host h region = Some bytes \<and> n \<le> length bytes)
     \<and> (\<forall>j d. h_datas h j = Some d \<longrightarrow> d_data d = region \<longrightarrow> region = vdso_data)"

lemma heap_ok_new_data:
  assumes ok: "heap_ok h R {}" and un: "unowned h region (d_size d)" and d: "d_data d = region" "d_refcount d = 0"
  defines "h1 \<equiv> h\<lparr>h_next := h_next h + 1, h_datas := (h_datas h)(h_next h \<mapsto> d)\<rparr>"
  shows "heap_ok h1 R {h_next h}" "\<And>i. keeps h h1 i" "R (h_next h) = 0"
proof -
  have none: "h_datas h (h_next h) = None"
    using heap_okD(4) [OF ok, of "h_next h"] by (cases "h_datas h (h_next h)") auto
  then show R0: "R (h_next h) = 0" by (rule heap_ok_absent [OF ok])
  show "keeps h h1 i" for i using none unfolding keeps_def h1_def by auto
  show "heap_ok h1 R {h_next h}"
  proof (rule heap_okI)
    fix j d' assume j: "h_datas h1 j = Some d'"
    show "0 < R j \<or> j \<in> {h_next h}" "d_refcount d' = of_nat (R j)" "j < h_next h1"
      using j R0 d heap_okD [OF ok, of j d'] by (auto simp: h1_def split: if_splits)
    show "data_ok h1 d'"
      using j un d heap_okD(3) [OF ok, of j d'] unfolding data_ok_def unowned_def
      by (auto simp: h1_def split: if_splits)
  next
    fix j k d1 d2 assume "h_datas h1 j = Some d1" "h_datas h1 k = Some d2" "d_data d1 = d_data d2"
      "d_data d1 \<noteq> vdso_data"
    then show "j = k" using un d heap_ok_owner [OF ok, of j d1 k d2] unfolding unowned_def
      by (auto simp: h1_def split: if_splits)
  qed (use heap_ok_absent [OF ok] in \<open>auto simp: h1_def split: if_splits\<close>)
qed

lemma pt_map_ok:
  assumes ok: "heap_ok h (\<lambda>i. refs m i + Ro i) {}" and rm: "room Ro" and r: "start + pages \<le> MEM_PAGES"
    and pg: "0 < pages" "pages < MEM_PAGES" and al: "h_malloc_ok h (h_next h)" and un: "unowned h region (pages * PAGE_SIZE + offset)"
  shows "\<exists>h' m'. pt_map h m start pages (Inr region) offset flags = Some (Inr (), h', m')
    \<and> (\<forall>q. page_view m' q = (if start \<le> q \<and> q < start + pages
                             then Some (new_entry (h_next h) start offset flags q) else page_view m q))
    \<and> heap_ok h' (\<lambda>i. refs m' i + Ro i) {}
    \<and> (\<forall>i. 0 < refs m' i + Ro i \<longrightarrow> keeps h h' i)
    \<and> (\<exists>d. h_datas h' (h_next h) = Some d \<and> d_data d = region \<and> d_size d = pages * PAGE_SIZE + offset
           \<and> h_host h' region = h_host h region)
    \<and> m_changes m' = m_changes m + of_nat (replaced m [start..<start + pages])"
proof -
  define d where "d = \<lparr>d_data = region, d_size = (pages * PAGE_SIZE) mod 2 ^ 32 + offset,
                          d_refcount = 0, d_fd = None, d_file_offset = 0\<rparr>"
  define i where "i = h_next h"
  define h1 where "h1 = h\<lparr>h_next := i + 1, h_datas := (h_datas h)(i \<mapsto> d)\<rparr>"
  have sz: "d_size d = pages * PAGE_SIZE + offset"
    using pg by (simp add: d_def PAGE_SIZE_def MEM_PAGES_def)
  have new: "heap_ok h1 (\<lambda>i. refs m i + Ro i) {i}" "\<And>j. keeps h h1 j" "refs m i + Ro i = 0"
    using heap_ok_new_data [OF ok un [folded sz]] unfolding h1_def i_def by (simp_all add: d_def)
  have d1: "h_datas h1 i = Some d" "h_host h1 = h_host h" by (simp_all add: h1_def)
  let ?ps = "[start..<start + pages]"
  have nr: "\<forall>p \<in> set ?ps. \<not> refers m i p"
    using refs_pos [of _ m i] new(3) r by (metis add_is_0 atLeastLessThan_iff less_irrefl order_less_le_trans set_upt)
  have ps: "set ?ps \<subseteq> {..<MEM_PAGES}" "distinct ?ps" "{i} = {} \<or> ?ps \<noteq> []" "\<forall>p \<in> set ?ps. start \<le> p"
    using r pg by auto
  from map_pages_ok [OF new(1) rm d1(1) subset_refl ps(1,2) nr ps(3,4), of offset flags] obtain h' m' where
    s: "map_pages h1 m i start offset flags ?ps = Some (h', m')"
    and v: "\<forall>q. page_view m' q = (if q \<in> set ?ps then Some (new_entry i start offset flags q) else page_view m q)"
    and ok': "heap_ok h' (\<lambda>j. refs m' j + Ro j) {}"
    and k: "\<forall>j. 0 < refs m' j + Ro j \<or> j = i \<longrightarrow> keeps h1 h' j"
    and c: "m_changes m' = m_changes m + of_nat (replaced m ?ps)" by blast
  have run: "pt_map h m start pages (Inr region) offset flags = Some (Inr (), h', m')"
    using s al r by (simp add: pt_map_def Let_def h1_def d_def i_def)
  have dat: "\<exists>d. h_datas h' i = Some d \<and> d_data d = region \<and> d_size d = pages * PAGE_SIZE + offset
           \<and> h_host h' region = h_host h region"
    using k d1 sz unfolding keeps_def by (auto simp: d_def)
  have kp: "\<forall>j. 0 < refs m' j + Ro j \<longrightarrow> keeps h h' j"
    using k new(2) keeps_trans by blast
  show ?thesis
    using run v ok' kp dat c unfolding i_def set_upt atLeastLessThan_iff
    by (intro exI [of _ h'] exI [of _ m'] conjI)
qed

section \<open>The invariant of one address space among others\<close>

definition space_ok :: "kheap \<Rightarrow> mem \<Rightarrow> (nat \<Rightarrow> nat) \<Rightarrow> bool" where
  "space_ok h m Ro \<longleftrightarrow> heap_ok h (\<lambda>i. refs m i + Ro i) {} \<and> mem_ok h m"

lemma mem_ok_sub:
  assumes "mem_ok h m" "\<And>p e. p < MEM_PAGES \<Longrightarrow> page_view m' p = Some e \<Longrightarrow> page_view m p = Some e"
    "\<And>i. 0 < refs m' i \<Longrightarrow> keeps h h' i"
  shows "mem_ok h' m'"
proof (rule mem_ok_keeps)
  show "mem_ok h m'" using assms(1,2) unfolding mem_ok_def by blast
  show "keeps h h' i" if "p < MEM_PAGES" "refers m' i p" for i p
    using assms(3) refs_pos [OF that] by blast
qed

lemma unmap_always_space:
  assumes "space_ok h m Ro" "room Ro" "start + pages \<le> MEM_PAGES"
  shows "\<exists>h' m'. pt_unmap_always h m start pages = Some (0, h', m')
    \<and> (\<forall>q. page_view m' q = (if start \<le> q \<and> q < start + pages then None else page_view m q))
    \<and> space_ok h' m' Ro \<and> (\<forall>i. 0 < refs m' i + Ro i \<longrightarrow> keeps h h' i)
    \<and> m_changes m' = m_changes m + 1"
proof -
  from pt_unmap_always_ok [of h m Ro "{}" start pages] assms obtain h' m' where
    u: "pt_unmap_always h m start pages = Some (0, h', m')"
      "\<forall>q. page_view m' q = (if start \<le> q \<and> q < start + pages then None else page_view m q)"
      "heap_ok h' (\<lambda>i. refs m' i + Ro i) {}" "\<forall>i. 0 < refs m' i + Ro i \<longrightarrow> keeps h h' i"
      "m_changes m' = m_changes m + 1" unfolding space_ok_def by blast
  have "mem_ok h' m'"
    by (rule mem_ok_sub [of h m]) (use assms(1) u(2,4) in \<open>auto simp: space_ok_def split: if_splits\<close>)
  with u show ?thesis unfolding space_ok_def by blast
qed

lemma pt_map_space:
  assumes "space_ok h m Ro" "room Ro" "start + pages \<le> MEM_PAGES" "0 < pages" "pages < MEM_PAGES"
    "h_malloc_ok h (h_next h)" "unowned h region (pages * PAGE_SIZE + offset)"
  shows "\<exists>h' m'. pt_map h m start pages (Inr region) offset flags = Some (Inr (), h', m')
    \<and> (\<forall>q. page_view m' q = (if start \<le> q \<and> q < start + pages
                             then Some (new_entry (h_next h) start offset flags q) else page_view m q))
    \<and> space_ok h' m' Ro \<and> (\<forall>i. 0 < refs m' i + Ro i \<longrightarrow> keeps h h' i)
    \<and> (\<exists>d. h_datas h' (h_next h) = Some d \<and> d_data d = region \<and> d_size d = pages * PAGE_SIZE + offset
           \<and> h_host h' region = h_host h region)
    \<and> m_changes m' = m_changes m + of_nat (replaced m [start..<start + pages])"
proof -
  from pt_map_ok [OF _ assms(2-7), of m flags] assms(1) obtain h' m' where
    u: "pt_map h m start pages (Inr region) offset flags = Some (Inr (), h', m')"
      "\<forall>q. page_view m' q = (if start \<le> q \<and> q < start + pages
                             then Some (new_entry (h_next h) start offset flags q) else page_view m q)"
      "heap_ok h' (\<lambda>i. refs m' i + Ro i) {}" "\<forall>i. 0 < refs m' i + Ro i \<longrightarrow> keeps h h' i"
      "\<exists>d. h_datas h' (h_next h) = Some d \<and> d_data d = region \<and> d_size d = pages * PAGE_SIZE + offset
           \<and> h_host h' region = h_host h region"
      "m_changes m' = m_changes m + of_nat (replaced m [start..<start + pages])"
    unfolding space_ok_def by blast
  have "mem_ok h' m'"
    unfolding mem_ok_def
  proof (intro allI impI)
    fix p e assume p: "p < MEM_PAGES" "page_view m' p = Some e"
    show "\<exists>i d. pe_data e = Some i \<and> h_datas h' i = Some d \<and> pe_offset e + PAGE_SIZE \<le> d_size d"
    proof (cases "start \<le> p \<and> p < start + pages")
      case True
      then have "(p - start + 1) * PAGE_SIZE \<le> pages * PAGE_SIZE" by (intro mult_le_mono) auto
      with True p u(2,5) show ?thesis by (auto simp: new_entry_def)
    next
      case False
      then have e: "page_view m p = Some e" using p u(2) by auto
      then obtain i d where i: "pe_data e = Some i" "h_datas h i = Some d" "pe_offset e + PAGE_SIZE \<le> d_size d"
        using assms(1) p(1) unfolding space_ok_def mem_ok_def by blast
      have "0 < refs m' i" by (rule refs_pos [OF p(1)]) (use p i in \<open>auto simp: refers_def\<close>)
      with u(4) i show ?thesis unfolding keeps_def by (metis add_gr_0)
    qed
  qed
  with u show ?thesis unfolding space_ok_def by blast
qed

lemma heap_ok_host:
  assumes ok: "heap_ok h R X" and f: "\<And>i d. h_datas h i = Some d \<Longrightarrow> f (d_data d) = h_host h (d_data d)"
    and n: "h_hnext h \<le> n"
  shows "heap_ok (h\<lparr>h_host := f, h_hnext := n\<rparr>) R X"
proof (rule heap_okI)
  fix i d assume "h_datas (h\<lparr>h_host := f, h_hnext := n\<rparr>) i = Some d"
  then have d: "h_datas h i = Some d" by simp
  note D = heap_okD [OF ok d]
  show "0 < R i \<or> i \<in> X" "d_refcount d = of_nat (R i)" "i < h_next (h\<lparr>h_host := f, h_hnext := n\<rparr>)"
    using D by auto
  show "data_ok (h\<lparr>h_host := f, h_hnext := n\<rparr>) d"
    using D(3) f [OF d] n by (auto simp: data_ok_def)
qed (use heap_ok_absent [OF ok] heap_ok_owner [OF ok] in auto)

section \<open>Copy on write\<close>

definition cow_entry :: "pt_entry \<Rightarrow> pt_entry" where
  "cow_entry e = (if tst (pe_flags e) P_SHARED then e else e\<lparr>pe_flags := pe_flags e OR P_COW\<rparr>)"

lemma cow_entry_fields [simp]: "pe_data (cow_entry e) = pe_data e" "pe_offset (cow_entry e) = pe_offset e"
  by (simp_all add: cow_entry_def)

lemma cow_page_ok:
  assumes p: "p < MEM_PAGES" and ok: "heap_ok h (\<lambda>i. refs dst i + (refs src i + Ro i)) {}"
    and rm: "room (\<lambda>i. MEM_PAGES + Ro i)"
  shows "\<exists>h' src' dst'. cow_page h src dst p = Some (h', src', dst')
    \<and> (\<forall>q. page_view src' q = (if q = p then map_option cow_entry (page_view src p) else page_view src q))
    \<and> (\<forall>q. page_view dst' q = (if q = p \<and> page_view src p \<noteq> None
                               then map_option cow_entry (page_view src p) else page_view dst q))
    \<and> heap_ok h' (\<lambda>i. refs dst' i + (refs src' i + Ro i)) {}
    \<and> (\<forall>i. 0 < refs dst' i + (refs src' i + Ro i) \<longrightarrow> keeps h h' i)"
proof (cases "page_view src p")
  case None
  then show ?thesis using p ok by (auto simp: cow_page_def mem_pt_view)
next
  case (Some e)
  obtain i where i: "pe_data e = Some i" using page_view_data [OF Some] by blast
  have rm': "room (\<lambda>j. refs src j + Ro j)"
    using rm refs_le [of src] unfolding room_def by (meson add_le_cancel_right le_less_trans)
  have "p + 1 \<le> MEM_PAGES" using p by simp
  from pt_unmap_always_ok [OF ok rm' this] obtain h1 dst1 where
    u: "pt_unmap_always h dst p 1 = Some (0, h1, dst1)"
      "\<forall>q. page_view dst1 q = (if p \<le> q \<and> q < p + 1 then None else page_view dst q)"
      "heap_ok h1 (\<lambda>j. refs dst1 j + (refs src j + Ro j)) {}"
      "\<forall>j. 0 < refs dst1 j + (refs src j + Ro j) \<longrightarrow> keeps h h1 j" by auto
  have "0 < refs src i" by (rule refs_pos [OF p]) (use Some i in \<open>auto simp: refers_def\<close>)
  then obtain d1 where d1: "h_datas h1 i = Some d1" using heap_ok_refer [OF u(3), of i] by auto
  obtain h2 where r: "data_retain h1 i = Some h2"
      "heap_ok h2 ((\<lambda>j. refs dst1 j + (refs src j + Ro j))(i := refs dst1 i + (refs src i + Ro i) + 1)) ({} - {i})"
      "\<And>j. keeps h1 h2 j" using data_retain_ok [OF u(3) d1] by metis
  obtain dst2 where n: "mem_pt_new dst1 p = Some dst2" using mem_pt_new_ok [OF p] by blast
  define src' where "src' = mem_pt_store src p (cow_entry e)"
  define dst' where "dst' = mem_pt_store dst2 p (cow_entry e)"
  have vs: "page_view src' q = (if q = p then Some (cow_entry e) else page_view src q)" for q
    using view_mem_pt_store [OF Some, of "cow_entry e" q] i by (simp add: src'_def)
  have vd: "page_view dst' q = (if q = p then Some (cow_entry e) else page_view dst q)" for q
    using view_mem_pt_new_store [OF n, of "cow_entry e" q] u(2) i by (auto simp: dst'_def)
  have rs: "refs src' j = refs src j" for j
    by (rule refs_same_view) (use vs Some in \<open>auto simp: refers_def\<close>)
  have vd1: "page_view dst1 q = (if q = p then None else page_view dst q)" for q
    using u(2) by (cases "q = p") auto
  have rd: "refs dst' j = refs dst1 j + of_bool (j = i)" for j
    using refs_update [OF p, of dst' dst1 j] vd vd1 i by (auto simp: refers_def)
  have "(\<lambda>j. refs dst' j + (refs src' j + Ro j))
      = (\<lambda>j. refs dst1 j + (refs src j + Ro j))(i := refs dst1 i + (refs src i + Ro i) + 1)"
    by (auto simp: rs rd)
  then have ok': "heap_ok h2 (\<lambda>j. refs dst' j + (refs src' j + Ro j)) {}" using r(2) by simp
  have kp: "keeps h h2 j" if "0 < refs dst' j + (refs src' j + Ro j)" for j
    by (rule keeps_trans [OF _ r(3)])
       (use that u(4) rs rd \<open>0 < refs src i\<close> in \<open>cases "j = i"; auto\<close>)
  have ce: "cow_entry e = \<lparr>pe_data = Some i, pe_offset = pe_offset e,
     pe_flags = (if \<not> tst (pe_flags e) P_SHARED then pe_flags e OR P_COW else pe_flags e)\<rparr>"
    "e\<lparr>pe_flags := (if \<not> tst (pe_flags e) P_SHARED then pe_flags e OR P_COW else pe_flags e)\<rparr> = cow_entry e"
    using i by (simp_all add: cow_entry_def)
  have "cow_page h src dst p = Some (h2, src', dst')"
    unfolding cow_page_def mem_pt_view if_P [OF p] Some
    by (simp only: bind.bind_lunit option.case u(1) Let_def case_prod_conv i r(1) n ce(2) src'_def dst'_def)
       (simp only: ce(1))
  then show ?thesis using vs vd ok' kp Some by (intro exI conjI) (assumption | simp)+
qed

lemma cow_loop_ok:
  assumes "heap_ok h (\<lambda>i. refs dst i + (refs src i + Ro i)) {}" "room (\<lambda>i. MEM_PAGES + Ro i)"
    "end_page \<le> MEM_PAGES" "\<forall>q. start \<le> q \<longrightarrow> page_view dst q = None"
  shows "\<exists>h' src' dst'. cow_loop h src dst start end_page = Some (h', src', dst')
    \<and> (\<forall>q. page_view src' q = (if start \<le> q \<and> q < end_page then map_option cow_entry (page_view src q)
                                else page_view src q))
    \<and> (\<forall>q. page_view dst' q = (if start \<le> q \<and> q < end_page then map_option cow_entry (page_view src q)
                                else page_view dst q))
    \<and> heap_ok h' (\<lambda>i. refs dst' i + (refs src' i + Ro i)) {}
    \<and> (\<forall>i. 0 < refs src i + Ro i \<longrightarrow> keeps h h' i)"
  using assms
proof (induction h src dst start end_page rule: cow_loop.induct)
  case (1 h src dst page end_page)
  show ?case
  proof (cases "page < end_page")
    case False
    then have "cow_loop h src dst page end_page = Some (h, src, dst)" by (subst cow_loop.simps) simp
    with False "1.prems" show ?thesis by auto
  next
    case True
    have p: "page < MEM_PAGES" using True "1.prems"(3) by simp
    from cow_page_ok [OF p "1.prems"(1,2)] obtain h1 src1 dst1 where
      s: "cow_page h src dst page = Some (h1, src1, dst1)"
        "\<And>q. page_view src1 q = (if q = page then map_option cow_entry (page_view src page) else page_view src q)"
        "\<And>q. page_view dst1 q = (if q = page \<and> page_view src page \<noteq> None
                               then map_option cow_entry (page_view src page) else page_view dst q)"
        "heap_ok h1 (\<lambda>i. refs dst1 i + (refs src1 i + Ro i)) {}"
        "\<And>i. 0 < refs dst1 i + (refs src1 i + Ro i) \<Longrightarrow> keeps h h1 i" by blast
    define nx where "nx = mem_next_page src1 page"
    have nx: "page < nx" by (simp add: nx_def mem_next_page_gt)
    have d1: "\<forall>q. nx \<le> q \<longrightarrow> page_view dst1 q = None" using s(3) "1.prems"(4) nx by auto
    from "1.IH" [OF True s(1) refl refl s(4) "1.prems"(2,3), folded nx_def, OF d1] obtain h' src' dst' where
      IH: "cow_loop h1 src1 dst1 nx end_page = Some (h', src', dst')"
        "\<And>q. page_view src' q = (if nx \<le> q \<and> q < end_page then map_option cow_entry (page_view src1 q)
                                else page_view src1 q)"
        "\<And>q. page_view dst' q = (if nx \<le> q \<and> q < end_page then map_option cow_entry (page_view src1 q)
                                else page_view dst1 q)"
        "heap_ok h' (\<lambda>i. refs dst' i + (refs src' i + Ro i)) {}"
        "\<And>i. 0 < refs src1 i + Ro i \<Longrightarrow> keeps h1 h' i" by blast
    have gap: "page_view src q = None" if "page < q" "q < nx" for q
      using mem_next_page_empty [of page q src1] that s(2) [of q] by (simp add: nx_def)
    have vs: "page_view src' q = (if page \<le> q \<and> q < end_page then map_option cow_entry (page_view src q)
                                else page_view src q)" for q
      using IH(2) [of q] s(2) [of q] gap [of q] nx True by (cases q page rule: linorder_cases) auto
    have vd: "page_view dst' q = (if page \<le> q \<and> q < end_page then map_option cow_entry (page_view src q)
                                else page_view dst q)" for q
      using IH(3) [of q] s(2) [of q] s(3) [of q] gap [of q] nx True "1.prems"(4)
      by (cases q page rule: linorder_cases) auto
    have rs: "refs src1 i = refs src i" for i
    proof (rule refs_same_view)
      show "refers src1 i q = refers src i q" for q
        using s(2) [of q] by (cases "page_view src page") (auto simp: refers_def)
    qed
    have "keeps h h' i" if "0 < refs src i + Ro i" for i
      by (rule keeps_trans [OF s(5) IH(5)]) (use that rs in auto)
    moreover have "cow_loop h src dst page end_page = Some (h', src', dst')"
      using True s(1) IH(1) by (subst cow_loop.simps) (simp add: nx_def)
    ultimately show ?thesis using vs vd IH(4) by (intro exI conjI) (assumption | simp)+
  qed
qed

text \<open>
  The whole of a fork: copying an address space into a fresh one. Both end up with the same pages
  on the same backing objects, private ones marked for copy on write.
\<close>

lemma fork_ok:
  assumes sp: "space_ok h src Ro" and rm: "room (\<lambda>i. MEM_PAGES + Ro i)"
  shows "\<exists>h' src' dst'. pt_copy_on_write h src mem_init 0 MEM_PAGES = Some (0, h', src', dst')
    \<and> (\<forall>q < MEM_PAGES. page_view src' q = map_option cow_entry (page_view src q))
    \<and> (\<forall>q < MEM_PAGES. page_view dst' q = map_option cow_entry (page_view src q))
    \<and> space_ok h' src' (\<lambda>i. refs dst' i + Ro i) \<and> space_ok h' dst' (\<lambda>i. refs src' i + Ro i)
    \<and> (\<forall>i. 0 < refs src i + Ro i \<longrightarrow> keeps h h' i)"
proof -
  have ok: "heap_ok h (\<lambda>i. refs mem_init i + (refs src i + Ro i)) {}"
    using sp by (simp add: refs_init space_ok_def)
  have none: "\<forall>q. 0 \<le> q \<longrightarrow> page_view mem_init q = None"
    by (simp add: page_view_def mem_init_def)
  from cow_loop_ok [OF ok rm order_refl none] obtain h' s' d' where
    l: "cow_loop h src mem_init 0 MEM_PAGES = Some (h', s', d')"
      "\<And>q. q < MEM_PAGES \<Longrightarrow> page_view s' q = map_option cow_entry (page_view src q)"
      "\<And>q. q < MEM_PAGES \<Longrightarrow> page_view d' q = map_option cow_entry (page_view src q)"
      "heap_ok h' (\<lambda>i. refs d' i + (refs s' i + Ro i)) {}"
      "\<forall>i. 0 < refs src i + Ro i \<longrightarrow> keeps h h' i"
    by (metis (no_types, lifting) le0)
  have same: "refs (mem_changed m0) = refs m0" for m0
    by (simp add: refs_def refers_def view_fields fun_eq_iff)
  have mo: "mem_ok h' m'" if mv: "\<And>q. q < MEM_PAGES \<Longrightarrow> page_view m' q = map_option cow_entry (page_view src q)" for m'
    unfolding mem_ok_def
  proof (intro allI impI)
    fix p e assume p: "p < MEM_PAGES" "page_view m' p = Some e"
    then obtain e0 where e0: "page_view src p = Some e0" "e = cow_entry e0" using mv by auto
    then obtain i d where i: "pe_data e0 = Some i" "h_datas h i = Some d" "pe_offset e0 + PAGE_SIZE \<le> d_size d"
      using sp p(1) unfolding space_ok_def mem_ok_def by blast
    have "0 < refs src i" by (rule refs_pos [OF p(1)]) (use e0 i in \<open>auto simp: refers_def\<close>)
    then have "keeps h h' i" using l(5) by simp
    with i e0 show "\<exists>i d. pe_data e = Some i \<and> h_datas h' i = Some d \<and> pe_offset e + PAGE_SIZE \<le> d_size d"
      unfolding keeps_def by auto
  qed
  have "heap_ok h' (\<lambda>i. refs s' i + (refs d' i + Ro i)) {}"
    using l(4) by (simp only: add.left_commute)
  then have "space_ok h' (mem_changed s') (\<lambda>i. refs (mem_changed d') i + Ro i)"
      "space_ok h' (mem_changed d') (\<lambda>i. refs (mem_changed s') i + Ro i)"
    using l(4) mo l(2,3) by (simp_all add: space_ok_def same view_fields)
  moreover have "pt_copy_on_write h src mem_init 0 MEM_PAGES = Some (0, h', mem_changed s', mem_changed d')"
    using l(1) by (simp add: pt_copy_on_write_def)
  ultimately show ?thesis
    using l by (intro exI [of _ h'] exI [of _ "mem_changed s'"] exI [of _ "mem_changed d'"])
      (simp add: view_fields)
qed

end
