(* ===== verification/Memory_Faults.thy ===== *)
theory Memory_Faults
  imports Memory_Props
begin

text \<open>
  What the guest sees: the bytes of an address space, page faults (\<open>mem_ptr\<close>,
  \<open>mem_resolve_fault\<close>) and the isolation of address spaces after a fork.
\<close>

section \<open>Page flags\<close>

lemma tst_clear_cow: "tst (f AND NOT P_COW) P_WRITE \<longleftrightarrow> tst f P_WRITE"
proof -
  have "(f AND NOT P_COW) AND P_WRITE = f AND P_WRITE"
    unfolding P_COW_def P_WRITE_def by (simp add: and.assoc)
  then show ?thesis by simp
qed

section \<open>Bytes of an address space\<close>

definition guest_byte :: "kheap \<Rightarrow> mem \<Rightarrow> addr_t \<Rightarrow> u8 option" where
  "guest_byte h m a = do {
     e \<leftarrow> page_view m (PAGE a);
     i \<leftarrow> pe_data e;
     d \<leftarrow> h_datas h i;
     bytes \<leftarrow> h_host h (d_data d);
     Some (bytes ! (pe_offset e + PGOFFSET a))
   }"

definition poke :: "kheap \<Rightarrow> host_ptr \<Rightarrow> u8 \<Rightarrow> kheap" where
  "poke h ptr b = (case h_host h (fst ptr) of
     None \<Rightarrow> h
   | Some bytes \<Rightarrow> h\<lparr>h_host := (h_host h)(fst ptr \<mapsto> bytes[snd ptr := b])\<rparr>)"

lemma PAGE_lt [simp]: "PAGE a < MEM_PAGES"
  using unat_lt [of a] by (simp add: PAGE_def PAGE_BITS_def MEM_PAGES_def unat_drop_bit)

lemma PGOFFSET_mod: "PGOFFSET a = unat a mod 2 ^ 12"
proof -
  have "a AND 0xfff = take_bit 12 a" by (simp add: take_bit_eq_mask mask_eq_exp_minus_1)
  then show ?thesis by (simp only: PGOFFSET_def unat_take_bit)
qed

lemma PGOFFSET_lt [simp]: "PGOFFSET a < PAGE_SIZE"
  by (simp add: PGOFFSET_mod PAGE_SIZE_def)

lemma addr_split: "PAGE a = PAGE b \<Longrightarrow> PGOFFSET a = PGOFFSET b \<Longrightarrow> a = b"
  unfolding PGOFFSET_mod PAGE_def PAGE_BITS_def unat_drop_bit
  by (metis div_mod_decomp unsigned_word_eqI)

lemma guest_byte_keeps:
  assumes "mem_ok h m" "\<And>i. 0 < refs m i \<Longrightarrow> keeps h h' i"
  shows "guest_byte h' m a = guest_byte h m a"
proof (cases "page_view m (PAGE a)")
  case (Some e)
  then obtain i d where i: "pe_data e = Some i" "h_datas h i = Some d"
    using assms(1) unfolding mem_ok_def by (metis PAGE_lt)
  have "0 < refs m i" by (rule refs_pos [OF PAGE_lt [of a]]) (use Some i in \<open>auto simp: refers_def\<close>)
  then have "keeps h h' i" by (rule assms(2))
  with i Some show ?thesis unfolding keeps_def by (auto simp: guest_byte_def)
qed (simp add: guest_byte_def)

lemma guest_byte_same_entry:
  "page_view m' (PAGE a) = map_option cow_entry (page_view m (PAGE a)) \<Longrightarrow> guest_byte h m' a = guest_byte h m a"
  by (cases "page_view m (PAGE a)") (auto simp: guest_byte_def)

section \<open>Copying a page\<close>

lemma host_mmap_ok:
  assumes "space_ok h m Ro" "h_mmap_err h (h_hnext h) = None"
  shows "\<exists>h1. host_mmap h n = (Inr (h_hnext h), h1) \<and> space_ok h1 m Ro \<and> (\<forall>i. keeps h h1 i)
     \<and> h_host h1 (h_hnext h) = Some (replicate n 0) \<and> h_datas h1 = h_datas h \<and> h_next h1 = h_next h
     \<and> h_malloc_ok h1 = h_malloc_ok h \<and> h_hnext h1 = h_hnext h + 1
     \<and> (\<forall>i d. h_datas h i = Some d \<longrightarrow> d_data d \<noteq> h_hnext h)"
proof -
  let ?h1 = "h\<lparr>h_host := (h_host h)(h_hnext h \<mapsto> replicate n 0), h_hnext := h_hnext h + 1\<rparr>"
  have ok: "heap_ok h (\<lambda>i. refs m i + Ro i) {}" and mo: "mem_ok h m" using assms(1) by (auto simp: space_ok_def)
  have ne: "d_data d \<noteq> h_hnext h" if "h_datas h i = Some d" for i d
    using heap_okD(3) [OF ok that] by (auto simp: data_ok_def)
  have "heap_ok ?h1 (\<lambda>i. refs m i + Ro i) {}" by (rule heap_ok_host [OF ok]) (auto dest: ne)
  moreover have k: "keeps h ?h1 i" for i using ne unfolding keeps_def by auto
  moreover have "mem_ok ?h1 m" by (rule mem_ok_keeps [OF mo]) (rule k)
  ultimately show ?thesis
    using assms(2) ne by (intro exI [of _ ?h1]) (simp add: host_mmap_def space_ok_def)
qed

text \<open>
  The copy of a page that is written for the first time: it succeeds when the host gives memory,
  the new page is a fresh object of its own with the same bytes, and no byte of this or of any
  other address space changes.
\<close>

lemma copy_page_ok:
  assumes sp: "space_ok h m Ro" and rm: "room Ro" and p: "p < MEM_PAGES" and e: "page_view m p = Some e"
    and al: "h_mmap_err h (h_hnext h) = None" "h_malloc_ok h (h_next h)" and ne: "h_hnext h \<noteq> vdso_data"
  shows "\<exists>h' m' d bytes. copy_page h m p e flags = Some (Inr (), h', m')
    \<and> (\<forall>q. page_view m' q = (if q = p then Some (new_entry (h_next h) p 0 (flags AND NOT P_COW) p) else page_view m q))
    \<and> space_ok h' m' Ro \<and> (\<forall>i. 0 < refs m' i + Ro i \<longrightarrow> keeps h h' i)
    \<and> h_datas h (h_next h) = None
    \<and> h_datas h' (h_next h) = Some d \<and> d_data d = h_hnext h \<and> h_host h' (h_hnext h) = Some bytes
    \<and> length bytes = PAGE_SIZE
    \<and> (\<forall>a. PAGE a = p \<longrightarrow> guest_byte h m a = Some (bytes ! PGOFFSET a))
    \<and> (\<forall>j d'. h_datas h' j = Some d' \<longrightarrow> d_data d' = h_hnext h \<longrightarrow> j = h_next h)"
proof -
  obtain h1 where h1: "host_mmap h PAGE_SIZE = (Inr (h_hnext h), h1)" "space_ok h1 m Ro" "\<And>i. keeps h h1 i"
      "h_datas h1 = h_datas h" "h_next h1 = h_next h" "h_malloc_ok h1 = h_malloc_ok h" "h_hnext h1 = h_hnext h + 1"
      "\<And>i d. h_datas h i = Some d \<Longrightarrow> d_data d \<noteq> h_hnext h"
    using host_mmap_ok [OF sp al(1), of PAGE_SIZE] by blast
  obtain i d where i: "pe_data e = Some i" "h_datas h i = Some d" "pe_offset e + PAGE_SIZE \<le> d_size d"
    using sp p e unfolding space_ok_def mem_ok_def by blast
  have ok: "heap_ok h (\<lambda>i. refs m i + Ro i) {}" using sp by (simp add: space_ok_def)
  have ok1: "heap_ok h1 (\<lambda>i. refs m i + Ro i) {}" using h1(2) by (simp add: space_ok_def)
  obtain old where old: "h_host h (d_data d) = Some old" "d_size d \<le> length old"
    using heap_okD(3) [OF ok i(2)] by (auto simp: data_ok_def)
  have old1: "h_host h1 (d_data d) = Some old"
    using h1(3) [of i] i(2) old(1) unfolding keeps_def by auto
  define bytes where "bytes = take PAGE_SIZE (drop (pe_offset e) old)"
  have cp: "copy_from old (pe_offset e) PAGE_SIZE = Some bytes" "length bytes = PAGE_SIZE"
    using i(3) old(2) by (simp_all add: copy_from_def bytes_def)
  define h2 where "h2 = h1\<lparr>h_host := (h_host h1)(h_hnext h \<mapsto> bytes)\<rparr>"
  have h2': "h2 = h1\<lparr>h_host := (h_host h1)(h_hnext h \<mapsto> bytes), h_hnext := h_hnext h1\<rparr>" by (simp add: h2_def)
  have k2: "keeps h h2 j" for j
    using h1(3) [of j] h1(8) unfolding keeps_def by (auto simp: h2_def)
  have "heap_ok h2 (\<lambda>i. refs m i + Ro i) {}"
    unfolding h2' by (rule heap_ok_host [OF ok1]) (auto simp: h1(4) dest: h1(8))
  moreover have "mem_ok h2 m" by (rule mem_ok_keeps [of h]) (use sp k2 in \<open>auto simp: space_ok_def\<close>)
  ultimately have sp2: "space_ok h2 m Ro" by (simp add: space_ok_def)
  have un: "unowned h2 (h_hnext h) (1 * PAGE_SIZE + 0)"
    using cp(2) h1(4,7,8) by (auto simp: unowned_def h2_def)
  have al2: "h_malloc_ok h2 (h_next h2)" using al(2) h1(5,6) by (simp add: h2_def)
  have rng: "p + 1 \<le> MEM_PAGES" "(0::nat) < 1" "1 < MEM_PAGES" using p by (simp_all add: MEM_PAGES_def)
  from pt_map_space [OF sp2 rm rng al2 un, of "flags AND NOT P_COW"] obtain h' m' where
    m: "pt_map h2 m p 1 (Inr (h_hnext h)) 0 (flags AND NOT P_COW) = Some (Inr (), h', m')"
      "\<forall>q. page_view m' q = (if p \<le> q \<and> q < p + 1
            then Some (new_entry (h_next h2) p 0 (flags AND NOT P_COW) q) else page_view m q)"
      "space_ok h' m' Ro" "\<forall>i. 0 < refs m' i + Ro i \<longrightarrow> keeps h2 h' i"
      "\<exists>d. h_datas h' (h_next h2) = Some d \<and> d_data d = h_hnext h \<and> d_size d = 1 * PAGE_SIZE + 0
          \<and> h_host h' (h_hnext h) = h_host h2 (h_hnext h)" by blast
  have nx: "h_next h2 = h_next h" using h1(5) by (simp add: h2_def)
  have run: "copy_page h m p e flags = Some (Inr (), h', m')"
    using h1(1,4) i old1 cp(1) m(1) by (simp add: copy_page_def h2_def [symmetric])
  have view: "page_view m' q = (if q = p then Some (new_entry (h_next h) p 0 (flags AND NOT P_COW) p)
      else page_view m q)" for q using m(2) nx by (cases "q = p") auto
  have fresh: "h_datas h (h_next h) = None"
    using heap_okD(4) [OF ok, of "h_next h"] by (cases "h_datas h (h_next h)") auto
  obtain d' where d': "h_datas h' (h_next h) = Some d'" "d_data d' = h_hnext h" "h_host h' (h_hnext h) = Some bytes"
    using m(5) nx by (auto simp: h2_def)
  have gb: "guest_byte h m a = Some (bytes ! PGOFFSET a)" if "PAGE a = p" for a
    using that e i old cp by (simp add: guest_byte_def bytes_def)
  have own: "j = h_next h" if "h_datas h' j = Some d''" "d_data d'' = h_hnext h" for j d''
    using heap_ok_owner [OF _ that(1) d'(1)] m(3) that(2) d'(2) ne by (auto simp: space_ok_def)
  have kp: "keeps h h' j" if "0 < refs m' j + Ro j" for j
    by (rule keeps_trans [OF k2 m(4) [rule_format, OF that]])
  show ?thesis
    by (rule exI [of _ h'], rule exI [of _ m'], rule exI [of _ d'], rule exI [of _ bytes])
       (use run view m(3) kp fresh d' cp(2) gb own in blast)
qed

section \<open>Writing to a page shared after a fork\<close>

definition idle :: "nat \<Rightarrow> kheap \<times> mem \<Rightarrow> kheap \<times> mem" where
  "idle n s = s"

lemma mem_ptr_cow_write:
  assumes sp: "space_ok h m Ro" and rm: "room Ro" and e: "page_view m (PAGE a) = Some e"
    and fl: "tst (pe_flags e) P_WRITE" "tst (pe_flags e) P_COW"
    and al: "h_mmap_err h (h_hnext h) = None" "h_malloc_ok h (h_next h)" and ne: "h_hnext h \<noteq> vdso_data"
  shows "\<exists>h' m' d bytes. mem_ptr 2 idle h m a MEM_WRITE
         = Some (Some (h_hnext h, PGOFFSET a), h', m'\<lparr>m_inval := m_inval m' @ [PAGE a]\<rparr>)
    \<and> (\<forall>q. page_view m' q = (if q = PAGE a then Some (new_entry (h_next h) (PAGE a) 0 (pe_flags e AND NOT P_COW) (PAGE a))
                             else page_view m q))
    \<and> space_ok h' m' Ro \<and> (\<forall>i. 0 < refs m' i + Ro i \<longrightarrow> keeps h h' i)
    \<and> h_datas h (h_next h) = None
    \<and> h_datas h' (h_next h) = Some d \<and> d_data d = h_hnext h \<and> h_host h' (h_hnext h) = Some bytes
    \<and> length bytes = PAGE_SIZE
    \<and> (\<forall>b. PAGE b = PAGE a \<longrightarrow> guest_byte h m b = Some (bytes ! PGOFFSET b))
    \<and> (\<forall>j d'. h_datas h' j = Some d' \<longrightarrow> d_data d' = h_hnext h \<longrightarrow> j = h_next h)"
proof -
  from copy_page_ok [OF sp rm PAGE_lt e al ne, of "pe_flags e"] obtain h' m' d bytes where
    c: "copy_page h m (PAGE a) e (pe_flags e) = Some (Inr (), h', m')"
      "\<forall>q. page_view m' q = (if q = PAGE a then Some (new_entry (h_next h) (PAGE a) 0 (pe_flags e AND NOT P_COW) (PAGE a))
                             else page_view m q)"
    and rest: "space_ok h' m' Ro \<and> (\<forall>i. 0 < refs m' i + Ro i \<longrightarrow> keeps h h' i)
      \<and> h_datas h (h_next h) = None
      \<and> h_datas h' (h_next h) = Some d \<and> d_data d = h_hnext h \<and> h_host h' (h_hnext h) = Some bytes
      \<and> length bytes = PAGE_SIZE
      \<and> (\<forall>b. PAGE b = PAGE a \<longrightarrow> guest_byte h m b = Some (bytes ! PGOFFSET b))
      \<and> (\<forall>j d'. h_datas h' j = Some d' \<longrightarrow> d_data d' = h_hnext h \<longrightarrow> j = h_next h)" by blast
  have nw: "\<not> P_WRITABLE (pe_flags e)" using fl(2) by (simp add: P_WRITABLE_def)
  have w: "P_WRITABLE (pe_flags e AND NOT P_COW)"
    using fl(1) not_tst_clear [of "pe_flags e" P_COW] tst_clear_cow [of "pe_flags e"] by (simp add: P_WRITABLE_def)
  have res: "mem_resolve_fault h m (PAGE a) MEM_WRITE False = Some (Inr (), h', m')"
    using e fl c(1) by (simp add: mem_resolve_fault_def mem_pt_view)
  have nf: "mem_ptr_nofault h' (m'\<lparr>m_inval := m_inval m' @ [PAGE a]\<rparr>) a MEM_WRITE
      = Some (Some (h_hnext h, PGOFFSET a))"
    using c(2) rest w by (simp add: mem_ptr_nofault_def mem_pt_view view_fields new_entry_def)
  have "mem_ptr 2 idle h m a MEM_WRITE
         = Some (Some (h_hnext h, PGOFFSET a), h', m'\<lparr>m_inval := m_inval m' @ [PAGE a]\<rparr>)"
    using e nw fl(1) res c(2) w nf
    by (simp add: mem_ptr_def numeral_2_eq_2 mem_pt_view idle_def new_entry_def Let_def)
  with c(2) rest show ?thesis by (intro exI [of _ h'] exI [of _ m'] exI [of _ d] exI [of _ bytes]) blast
qed

text \<open>A store through a pointer into a mapping that one object owns is seen on its pages only.\<close>

lemma guest_byte_poke_other:
  assumes "\<And>e i d. page_view m (PAGE x) = Some e \<Longrightarrow> pe_data e = Some i \<Longrightarrow> h_datas h i = Some d \<Longrightarrow> d_data d \<noteq> fst ptr"
  shows "guest_byte (poke h ptr v) m x = guest_byte h m x"
proof (cases "page_view m (PAGE x)")
  case (Some e)
  with assms show ?thesis
    by (cases "pe_data e"; cases "h_datas h (the (pe_data e))")
       (auto simp: guest_byte_def poke_def split: option.splits)
qed (simp add: guest_byte_def)

lemma cow_write_isolated:
  assumes sp: "space_ok h m Ro" and rm: "room Ro" and e: "page_view m (PAGE a) = Some e"
    and fl: "tst (pe_flags e) P_WRITE" "tst (pe_flags e) P_COW"
    and al: "h_mmap_err h (h_hnext h) = None" "h_malloc_ok h (h_next h)"
  shows "\<exists>ptr h2 m2. mem_ptr 2 idle h m a MEM_WRITE = Some (Some ptr, h2, m2)
    \<and> (\<forall>x. guest_byte (poke h2 ptr v) m2 x = (if x = a then Some v else guest_byte h m x))
    \<and> (\<forall>m' x. mem_ok h m' \<and> (\<forall>i. refs m' i \<le> Ro i) \<longrightarrow> guest_byte (poke h2 ptr v) m' x = guest_byte h m' x)"
proof -
  have ok: "heap_ok h (\<lambda>i. refs m i + Ro i) {}" and mo: "mem_ok h m" using sp by (auto simp: space_ok_def)
  obtain i0 d0 where "h_datas h i0 = Some d0" using mo e unfolding mem_ok_def by (metis PAGE_lt)
  then have ne: "h_hnext h \<noteq> vdso_data"
    using heap_okD(3) [OF ok, of i0 d0] by (auto simp: data_ok_def vdso_data_def)
  let ?n = "h_next h" and ?r = "h_hnext h"
  from mem_ptr_cow_write [OF sp rm e fl al ne] obtain h2 m2 d bytes where
    run: "mem_ptr 2 idle h m a MEM_WRITE = Some (Some (?r, PGOFFSET a), h2, m2\<lparr>m_inval := m_inval m2 @ [PAGE a]\<rparr>)"
    and v: "\<And>q. page_view m2 q = (if q = PAGE a then Some (new_entry ?n (PAGE a) 0 (pe_flags e AND NOT P_COW) (PAGE a))
                             else page_view m q)"
    and sp2: "space_ok h2 m2 Ro" and kp: "\<And>i. 0 < refs m2 i + Ro i \<Longrightarrow> keeps h h2 i"
    and fresh: "h_datas h ?n = None"
    and d: "h_datas h2 ?n = Some d" "d_data d = ?r" "h_host h2 ?r = Some bytes" "length bytes = PAGE_SIZE"
    and gb: "\<And>b. PAGE b = PAGE a \<Longrightarrow> guest_byte h m b = Some (bytes ! PGOFFSET b)"
    and own: "\<And>j d'. h_datas h2 j = Some d' \<Longrightarrow> d_data d' = ?r \<Longrightarrow> j = ?n"
    by blast
  let ?m2 = "m2\<lparr>m_inval := m_inval m2 @ [PAGE a]\<rparr>"
  have z: "refs m ?n = 0" "Ro ?n = 0" using heap_ok_absent [OF ok fresh] by auto
  have nor: "\<not> refers m ?n p" if "p < MEM_PAGES" for p using refs_pos [OF that, of m ?n] z by auto
  have mine: "guest_byte (poke h2 (?r, PGOFFSET a) w) ?m2 x = (if x = a then Some w else guest_byte h m x)" for x w
  proof (cases "PAGE x = PAGE a")
    case True
    then have "x = a \<longleftrightarrow> PGOFFSET x = PGOFFSET a" using addr_split by blast
    with True d v gb [OF True] show ?thesis
      by (auto simp: guest_byte_def view_fields new_entry_def poke_def)
  next
    case False
    have same: "page_view ?m2 (PAGE x) = page_view m (PAGE x)" using v False by (simp add: view_fields)
    have "guest_byte (poke h2 (?r, PGOFFSET a) w) ?m2 x = guest_byte h2 ?m2 x"
      by (rule guest_byte_poke_other)
         (use same nor [OF PAGE_lt [of x]] in \<open>auto simp: refers_def dest!: own\<close>)
    also have "\<dots> = guest_byte h2 m x" using same by (simp add: guest_byte_def)
    also have "\<dots> = guest_byte h m x"
    proof (cases "page_view m (PAGE x)")
      case (Some ex)
      then obtain i dx where i: "pe_data ex = Some i" "h_datas h i = Some dx"
        using mo unfolding mem_ok_def by (metis PAGE_lt)
      have "0 < refs m2 i"
        by (rule refs_pos [OF PAGE_lt [of x]]) (use Some i same in \<open>auto simp: refers_def view_fields\<close>)
      then have "keeps h h2 i" using kp by simp
      with Some i show ?thesis unfolding keeps_def by (auto simp: guest_byte_def)
    qed (simp add: guest_byte_def)
    finally show ?thesis using False by auto
  qed
  have other: "guest_byte (poke h2 (?r, PGOFFSET a) w) m' x = guest_byte h m' x"
    if m': "mem_ok h m'" and le: "\<forall>i. refs m' i \<le> Ro i" for m' x w
  proof -
    have nr: "\<not> refers m' ?n p" if "p < MEM_PAGES" for p
      using refs_pos [OF that, of m' ?n] le z(2) by (metis le_zero_eq less_irrefl)
    have "guest_byte (poke h2 (?r, PGOFFSET a) w) m' x = guest_byte h2 m' x"
      by (rule guest_byte_poke_other) (use nr [OF PAGE_lt [of x]] in \<open>auto simp: refers_def dest!: own\<close>)
    also have "\<dots> = guest_byte h m' x"
      by (rule guest_byte_keeps [OF m']) (use kp le in \<open>metis add_gr_0 gr0I le_zero_eq\<close>)
    finally show ?thesis .
  qed
  show ?thesis
    by (rule exI [of _ "(?r, PGOFFSET a)"], rule exI [of _ h2], rule exI [of _ ?m2]) (use run mine other in blast)
qed

lemma room_fork: "room (\<lambda>i. MEM_PAGES + Ro i) \<Longrightarrow> room (\<lambda>i. refs m i + Ro i)"
  using refs_le [of m] unfolding room_def by (meson add_le_cancel_right le_less_trans)

section \<open>An example address space\<close>

definition ex_entry :: pt_entry where
  "ex_entry = \<lparr>pe_data = Some 0, pe_offset = 0, pe_flags = P_WRITE OR P_ANONYMOUS\<rparr>"

definition ex_mem :: mem where
  "ex_mem = mem_init\<lparr>m_pgdir := [0 \<mapsto> (\<lambda>_. pt_empty)(1 := ex_entry)], m_pgdir_used := 1\<rparr>"

definition ex_heap :: kheap where
  "ex_heap = \<lparr>h_datas = [0 \<mapsto> \<lparr>d_data = 1, d_size = PAGE_SIZE, d_refcount = 1, d_fd = None, d_file_offset = 0\<rparr>],
     h_next = 1, h_host = [1 \<mapsto> replicate PAGE_SIZE 7], h_hnext = 2, h_malloc_ok = (\<lambda>_. True),
     h_mmap_err = (\<lambda>_. None), h_closed = []\<rparr>"

lemma ex_view: "page_view ex_mem p = (if p = 1 then Some ex_entry else None)"
proof -
  have "p div 1024 = 0 \<and> p mod 1024 = 1 \<longleftrightarrow> p = 1" by (auto simp: div_eq_0_iff)
  then show ?thesis
    by (auto simp: page_view_def ex_mem_def ex_entry_def mem_init_def pt_empty_def PGDIR_TOP_def
        PGDIR_BOTTOM_def MEM_PGDIR_SIZE_def)
qed

lemma ex_refs: "refs ex_mem i = (if i = 0 then 1 else 0)"
proof -
  have "{p. p < MEM_PAGES \<and> refers ex_mem i p} = (if i = 0 then {1} else {})"
    by (auto simp: refers_def ex_view ex_entry_def MEM_PAGES_def)
  then show ?thesis by (simp add: refs_def)
qed

lemma ex_space: "space_ok ex_heap ex_mem (\<lambda>_. 0)"
proof -
  have "heap_ok ex_heap (\<lambda>i. refs ex_mem i + 0) {}"
    by (rule heap_okI) (auto simp: ex_refs ex_heap_def data_ok_def split: if_splits)
  moreover have "mem_ok ex_heap ex_mem"
    by (simp add: mem_ok_def ex_view ex_entry_def ex_heap_def)
  ultimately show ?thesis by (simp add: space_ok_def)
qed

lemma ex_room: "room (\<lambda>i. MEM_PAGES + 0)" "room (\<lambda>_. 0)"
  by (simp_all add: room_def MEM_PAGES_def)

lemma ex_page: "PAGE 0x1000 = 1" "page_view ex_mem (PAGE 0x1000) = Some ex_entry"
  by (simp_all add: PAGE_def PAGE_BITS_def unat_drop_bit ex_view)

section \<open>Properties\<close>

text \<open>
  C2. A fork shares memory without the two processes noticing. Copying an address space into a fresh
  one succeeds; afterwards parent and child both read what the parent read before. When the child
  then writes a byte to a private writable page (and the host has memory), the fault handler copies
  the page: the child reads the byte it wrote and is otherwise unchanged, and no byte of the parent
  changes. \<open>Ro\<close> counts the references of all other address spaces.
\<close>

theorem fork_isolation:
  assumes "space_ok h src Ro" "room (\<lambda>i. MEM_PAGES + Ro i)"
    and "page_view src (PAGE a) = Some e" "tst (pe_flags e) P_WRITE" "\<not> tst (pe_flags e) P_SHARED"
  shows "\<exists>h' src' dst'. pt_copy_on_write h src mem_init 0 MEM_PAGES = Some (0, h', src', dst')
     \<and> (\<forall>x. guest_byte h' src' x = guest_byte h src x \<and> guest_byte h' dst' x = guest_byte h src x)
     \<and> (h_mmap_err h' (h_hnext h') = None \<and> h_malloc_ok h' (h_next h') \<longrightarrow>
        (\<exists>ptr h2 m2. mem_ptr 2 idle h' dst' a MEM_WRITE = Some (Some ptr, h2, m2)
           \<and> (\<forall>x. guest_byte (poke h2 ptr v) m2 x = (if x = a then Some v else guest_byte h src x))
           \<and> (\<forall>x. guest_byte (poke h2 ptr v) src' x = guest_byte h src x)))"
proof -
  from fork_ok [OF assms(1,2)] obtain h' src' dst' where
    f: "pt_copy_on_write h src mem_init 0 MEM_PAGES = Some (0, h', src', dst')"
      "\<And>q. q < MEM_PAGES \<Longrightarrow> page_view src' q = map_option cow_entry (page_view src q)"
      "\<And>q. q < MEM_PAGES \<Longrightarrow> page_view dst' q = map_option cow_entry (page_view src q)"
      "space_ok h' src' (\<lambda>i. refs dst' i + Ro i)" "space_ok h' dst' (\<lambda>i. refs src' i + Ro i)"
      "\<And>i. 0 < refs src i + Ro i \<Longrightarrow> keeps h h' i" by blast
  have g: "guest_byte h' src x = guest_byte h src x" for x
    by (rule guest_byte_keeps) (use assms(1) f(6) in \<open>auto simp: space_ok_def\<close>)
  have gs: "guest_byte h' src' x = guest_byte h src x" "guest_byte h' dst' x = guest_byte h src x" for x
    using guest_byte_same_entry [of src' x src h'] guest_byte_same_entry [of dst' x src h'] f(2,3) g by simp_all
  have e': "page_view dst' (PAGE a) = Some (cow_entry e)" using f(3) assms(3) by simp
  have fl: "tst (pe_flags (cow_entry e)) P_WRITE" "tst (pe_flags (cow_entry e)) P_COW"
    using assms(4,5) by (simp_all add: cow_entry_def tst_or) (simp add: P_COW_def)
  have "\<exists>ptr h2 m2. mem_ptr 2 idle h' dst' a MEM_WRITE = Some (Some ptr, h2, m2)
           \<and> (\<forall>x. guest_byte (poke h2 ptr v) m2 x = (if x = a then Some v else guest_byte h src x))
           \<and> (\<forall>x. guest_byte (poke h2 ptr v) src' x = guest_byte h src x)"
    if al: "h_mmap_err h' (h_hnext h') = None" "h_malloc_ok h' (h_next h')"
    using cow_write_isolated [OF f(5) room_fork [OF assms(2)] e' fl al, of v] f(4) gs
    by (auto simp: space_ok_def)
  with f(1) gs show ?thesis by (intro exI [of _ h'] exI [of _ src'] exI [of _ dst']) blast
qed

theorem fork_isolation_witness:
  "\<exists>h' src' dst'. pt_copy_on_write ex_heap ex_mem mem_init 0 MEM_PAGES = Some (0, h', src', dst')
     \<and> guest_byte h' dst' 0x1000 = guest_byte ex_heap ex_mem 0x1000"
  using fork_isolation [OF ex_space ex_room(1) ex_page(2), of 0]
  by (auto simp: ex_entry_def P_WRITE_def P_ANONYMOUS_def P_SHARED_def)

text \<open>
  C33. \<open>mprotect\<close> undoes copy on write. After a fork, when the child sets a private page to
  readable and writable, the new flags replace the old ones and the copy-on-write mark is lost: the
  next write of the child goes to the backing object it still shares, and the parent reads the
  child's byte.
\<close>

theorem mprotect_breaks_copy_on_write:
  assumes "space_ok h src Ro" "room (\<lambda>i. MEM_PAGES + Ro i)" "page_view src (PAGE a) = Some e"
  shows "\<exists>h' src' dst' m3 ptr m4. pt_copy_on_write h src mem_init 0 MEM_PAGES = Some (0, h', src', dst')
     \<and> pt_set_flags (\<lambda>_. None) dst' (PAGE a) 1 (P_READ OR P_WRITE) = Some (Inr (), m3)
     \<and> mem_ptr 1 idle h' m3 a MEM_WRITE = Some (Some ptr, h', m4)
     \<and> guest_byte (poke h' ptr v) src' a = Some v"
proof -
  from fork_ok [OF assms(1,2)] obtain h' src' dst' where
    f: "pt_copy_on_write h src mem_init 0 MEM_PAGES = Some (0, h', src', dst')"
      "\<And>q. q < MEM_PAGES \<Longrightarrow> page_view src' q = map_option cow_entry (page_view src q)"
      "\<And>q. q < MEM_PAGES \<Longrightarrow> page_view dst' q = map_option cow_entry (page_view src q)"
      "space_ok h' src' (\<lambda>i. refs dst' i + Ro i)" by blast
  have v: "page_view dst' (PAGE a) = Some (cow_entry e)" "page_view src' (PAGE a) = Some (cow_entry e)"
    using f(2,3) assms(3) by simp_all
  define rw where "rw = P_READ OR P_WRITE"
  define m3 where "m3 = mem_changed (mem_pt_store dst' (PAGE a) (cow_entry e\<lparr>pe_flags := rw\<rparr>))"
  have ok: "heap_ok h' (\<lambda>i. refs src' i + (refs dst' i + Ro i)) {}" "mem_ok h' src'"
    using f(4) by (simp_all add: space_ok_def)
  from ok(2) v(2) obtain i d where id: "pe_data (cow_entry e) = Some i" "h_datas h' i = Some d"
      "pe_offset (cow_entry e) + PAGE_SIZE \<le> d_size d"
    unfolding mem_ok_def using PAGE_lt by blast
  from heap_okD(3) [OF ok(1) id(2)] obtain bytes where
    "h_host h' (d_data d) = Some bytes" "d_size d \<le> length bytes" by (auto simp: data_ok_def)
  with id have i: "pe_data e = Some i" "h_datas h' i = Some d" "pe_offset e + PAGE_SIZE \<le> d_size d"
      "h_host h' (d_data d) = Some bytes" "d_size d \<le> length bytes" by simp_all
  have r1: "PAGE a + 1 \<le> MEM_PAGES" using PAGE_lt [of a] by linarith
  have set: "pt_set_flags (\<lambda>_. None) dst' (PAGE a) 1 rw = Some (Inr (), m3)"
    unfolding pt_set_flags_def range_end_exact [OF r1] using v(1)
    by (simp add: mem_pt_view Let_def m3_def)
  have v3: "page_view m3 (PAGE a) = Some (cow_entry e\<lparr>pe_flags := rw\<rparr>)"
    using view_mem_pt_store [OF v(1)] i(1) by (simp add: m3_def view_fields)
  have w: "P_WRITABLE rw" by (simp add: rw_def P_WRITABLE_def P_READ_def P_WRITE_def P_COW_def)
  have ptr: "mem_ptr 1 idle h' m3 a MEM_WRITE
      = Some (Some (d_data d, pe_offset e + PGOFFSET a), h', m3\<lparr>m_inval := m_inval m3 @ [PAGE a]\<rparr>)"
    using v3 w i by (simp add: mem_ptr_def mem_pt_view mem_ptr_nofault_def view_fields Let_def)
  have "pe_offset e + PGOFFSET a < length bytes" using i(3,5) PGOFFSET_lt [of a] by linarith
  then have "guest_byte (poke h' (d_data d, pe_offset e + PGOFFSET a) v) src' a = Some v"
    using v(2) i by (simp add: guest_byte_def poke_def)
  with f(1) set ptr show ?thesis unfolding rw_def by blast
qed

theorem mprotect_breaks_copy_on_write_witness:
  "\<exists>h' src' dst'. pt_copy_on_write ex_heap ex_mem mem_init 0 MEM_PAGES = Some (0, h', src', dst')
     \<and> (\<exists>ptr. guest_byte (poke h' ptr 9) src' 0x1000 = Some 9)"
  using mprotect_breaks_copy_on_write [OF ex_space ex_room(1) ex_page(2), of 9] by blast

text \<open>
  C15. Unmapping a range inside the address space removes exactly its pages, keeps every reference
  count equal to the number of pages that refer to the object, and leaves the bytes of every other
  address space alone.
\<close>

theorem unmap_keeps_counts:
  assumes "space_ok h m Ro" "room Ro" "start + pages \<le> MEM_PAGES"
  shows "\<exists>h' m'. pt_unmap_always h m start pages = Some (0, h', m')
    \<and> (\<forall>q. page_view m' q = (if start \<le> q \<and> q < start + pages then None else page_view m q))
    \<and> (\<forall>i. case h_datas h' i of None \<Rightarrow> refs m' i + Ro i = 0
          | Some d \<Rightarrow> 0 < refs m' i + Ro i \<and> d_refcount d = of_nat (refs m' i + Ro i))
    \<and> (\<forall>m2 x. mem_ok h m2 \<and> (\<forall>i. refs m2 i \<le> Ro i) \<longrightarrow> guest_byte h' m2 x = guest_byte h m2 x)"
proof -
  from unmap_always_space [OF assms] obtain h' m' where
    u: "pt_unmap_always h m start pages = Some (0, h', m')"
      "\<forall>q. page_view m' q = (if start \<le> q \<and> q < start + pages then None else page_view m q)"
      "space_ok h' m' Ro" "\<forall>i. 0 < refs m' i + Ro i \<longrightarrow> keeps h h' i" by blast
  have ok: "heap_ok h' (\<lambda>i. refs m' i + Ro i) {}" using u(3) by (simp add: space_ok_def)
  have cnt: "case h_datas h' i of None \<Rightarrow> refs m' i + Ro i = 0
      | Some d \<Rightarrow> 0 < refs m' i + Ro i \<and> d_refcount d = of_nat (refs m' i + Ro i)" for i
    using heap_ok_absent [OF ok, of i] heap_okD(1,2) [OF ok, of i]
    by (cases "h_datas h' i") (simp_all only: option.case empty_iff simp_thms)
  have fr: "guest_byte h' m2 x = guest_byte h m2 x" if "mem_ok h m2" "\<forall>i. refs m2 i \<le> Ro i" for m2 x
    by (rule guest_byte_keeps [OF that(1)]) (use u(4) that(2) in \<open>metis add_gr_0 gr0I le_zero_eq\<close>)
  from u(1,2) cnt fr show ?thesis by blast
qed

theorem unmap_keeps_counts_witness:
  "\<exists>h' m'. pt_unmap_always ex_heap ex_mem 0 2 = Some (0, h', m') \<and> h_datas h' 0 = None"
proof -
  have le: "0 + 2 \<le> MEM_PAGES" by (simp add: MEM_PAGES_def)
  from unmap_keeps_counts [OF ex_space ex_room(2) le] obtain h' m' where
    u: "pt_unmap_always ex_heap ex_mem 0 2 = Some (0, h', m')"
      "\<forall>q. page_view m' q = (if 0 \<le> q \<and> q < 0 + 2 then None else page_view ex_mem q)"
      "\<forall>i. case h_datas h' i of None \<Rightarrow> refs m' i + 0 = 0
          | Some d \<Rightarrow> 0 < refs m' i + 0 \<and> d_refcount d = of_nat (refs m' i + 0)" by blast
  have "page_view m' q = None" for q using u(2) by (simp add: ex_view)
  then have "refs m' 0 = 0" by (simp add: refs_def refers_def)
  with u(3) have "h_datas h' 0 = None"
    by (metis (mono_tags, lifting) add_0_right less_irrefl option.case_eq_if)
  with u(1) show ?thesis by blast
qed

text \<open>
Destroying the last address space that refers to anything frees every backing object: no
  \<open>struct data\<close> survives.
\<close>

theorem mem_destroy_frees_all:
  assumes "space_ok h m (\<lambda>_. 0)"
  shows "\<exists>h'. mem_destroy h m = Some h' \<and> (\<forall>i. h_datas h' i = None)"
proof -
  from unmap_always_space [OF assms ex_room(2), of 0 MEM_PAGES] obtain h' m' where
    u: "pt_unmap_always h m 0 MEM_PAGES = Some (0, h', m')"
      "\<forall>q. page_view m' q = (if 0 \<le> q \<and> q < 0 + MEM_PAGES then None else page_view m q)"
      "space_ok h' m' (\<lambda>_. 0)" by auto
  have z: "refs m' i = 0" for i unfolding refs_def refers_def using u(2) by simp
  have "h_datas h' i = None" for i
    using heap_okD(1) [of h' "\<lambda>i. refs m' i + 0" "{}" i] u(3) z
    by (cases "h_datas h' i") (auto simp: space_ok_def)
  with u(1) show ?thesis by (simp add: mem_destroy_def)
qed

theorem mem_destroy_frees_all_witness:
  "\<exists>h'. mem_destroy ex_heap ex_mem = Some h' \<and> (\<forall>i. h_datas h' i = None)"
  using mem_destroy_frees_all [OF ex_space] .

end
