(* ===== verification/Memory_Holes.thy ===== *)
theory Memory_Holes
  imports Memory_Faults
begin

text \<open>The search for free address space, \<open>pt_find_hole\<close> of \<^verbatim>\<open>kernel/memory.c\<close>.\<close>

definition is_hole :: "mem \<Rightarrow> nat \<Rightarrow> nat \<Rightarrow> bool" where
  "is_hole m start sz \<longleftrightarrow> (\<forall>q. start \<le> q \<and> q < start + sz \<longrightarrow> page_view m q = None)"

definition hole_top :: nat where "hole_top = 0xf7ffe"

text \<open>
  The invariant of the downward search: nothing above \<open>page\<close> starts a hole of the wanted size,
  and while in a hole all pages up to its end are free and the end is as high as possible.
\<close>

definition search_inv :: "mem \<Rightarrow> nat \<Rightarrow> nat \<Rightarrow> bool \<Rightarrow> nat \<Rightarrow> bool" where
  "search_inv m sz hole_end in_hole page \<longleftrightarrow>
     page < hole_top
   \<and> (\<forall>s > page. s + sz \<le> hole_top \<longrightarrow> \<not> is_hole m s sz)
   \<and> (if in_hole
      then page < hole_end \<and> hole_end \<le> hole_top \<and> hole_end < page + 1 + sz
         \<and> (\<forall>q. page < q \<and> q < hole_end \<longrightarrow> page_view m q = None)
         \<and> (hole_end = hole_top \<or> page_view m hole_end \<noteq> None)
      else page + 1 = hole_top \<or> page_view m (page + 1) \<noteq> None)"

lemma find_hole_loop_spec:
  assumes "search_inv m sz hole_end in_hole page" "0 < sz"
  shows "\<exists>p. find_hole_loop m sz hole_end in_hole page = Some p
    \<and> (if p = BAD_PAGE then \<forall>s > 0x40000. s + sz \<le> hole_top \<longrightarrow> \<not> is_hole m s sz
       else 0x40000 < p \<and> p + sz \<le> hole_top \<and> is_hole m p sz)"
  using assms
proof (induction m sz hole_end in_hole page rule: find_hole_loop.induct)
  case (1 m sz hole_end in_hole page)
  show ?case
  proof (cases "page > 0x40000")
    case False
    then have "find_hole_loop m sz hole_end in_hole page = Some BAD_PAGE"
      by (subst find_hole_loop.simps) simp
    with False "1.prems" show ?thesis by (auto simp: search_inv_def)
  next
    case True
    have pm: "page < MEM_PAGES" using "1.prems" by (simp add: search_inv_def hole_top_def MEM_PAGES_def)
    define he where "he = (if \<not> in_hole \<and> page_view m page = None then page + 1 else hole_end)"
    have run: "find_hole_loop m sz hole_end in_hole page =
       (if page_view m page = None \<and> he - page = sz then Some page
        else find_hole_loop m sz he (page_view m page = None) (page - 1))"
      unfolding find_hole_loop.simps [of m sz hole_end in_hole page] mem_pt_view if_P [OF True] if_P [OF pm]
        bind.bind_lunit Let_def he_def ..
    have free: "page < he \<and> he \<le> hole_top \<and> he \<le> page + sz
         \<and> (\<forall>q. page \<le> q \<and> q < he \<longrightarrow> page_view m q = None)
         \<and> (he = hole_top \<or> page_view m he \<noteq> None)" if "page_view m page = None"
      using "1.prems" that unfolding search_inv_def he_def
      by (cases in_hole) (auto simp: le_less Suc_le_eq)
    show ?thesis
    proof (cases "page_view m page = None \<and> he - page = sz")
      case True
      then have "is_hole m page sz" "page + sz \<le> hole_top"
        using free by (auto simp: is_hole_def)
      moreover have "page \<noteq> BAD_PAGE" using \<open>page > 0x40000\<close> by (simp add: BAD_PAGE_def)
      ultimately show ?thesis using run True \<open>page > 0x40000\<close> by simp
    next
      case no: False
      have nohole: "\<not> is_hole m page sz" if "page + sz \<le> hole_top"
      proof (cases "page_view m page = None")
        case True
        then have "he < page + sz" "page_view m he \<noteq> None" "page < he" using free no that by auto
        then show ?thesis by (auto simp: is_hole_def intro!: exI [of _ he])
      next
        case False
        then show ?thesis using "1.prems"(2) by (auto simp: is_hole_def)
      qed
      have "search_inv m sz he (page_view m page = None) (page - 1)"
        unfolding search_inv_def
      proof (intro conjI)
        show "page - 1 < hole_top" using "1.prems"(1) unfolding search_inv_def by linarith
        show "\<forall>s > page - 1. s + sz \<le> hole_top \<longrightarrow> \<not> is_hole m s sz"
          using nohole "1.prems"(1) \<open>page > 0x40000\<close> unfolding search_inv_def
          by (metis One_nat_def Suc_pred gr_implies_not0 le_neq_implies_less less_Suc_eq_le neq0_conv not_less_eq)
        show "if page_view m page = None
          then page - 1 < he \<and> he \<le> hole_top \<and> he < page - 1 + 1 + sz
            \<and> (\<forall>q. page - 1 < q \<and> q < he \<longrightarrow> page_view m q = None)
            \<and> (he = hole_top \<or> page_view m he \<noteq> None)
          else page - 1 + 1 = hole_top \<or> page_view m (page - 1 + 1) \<noteq> None"
          using free no \<open>page > 0x40000\<close> by auto
      qed
      note inv' = this
      have mp: "mem_pt m page = Some (page_view m page)" using pm by (simp add: mem_pt_view)
      show ?thesis
        unfolding run if_not_P [OF no] by (rule "1.IH" [OF True mp he_def refl no inv' "1.prems"(2)])
    qed
  qed
qed

lemma pt_find_hole_ok:
  assumes "0 < sz"
  shows "\<exists>p. pt_find_hole m sz = Some p
    \<and> (if p = BAD_PAGE then \<forall>s > 0x40000. s + sz \<le> hole_top \<longrightarrow> \<not> is_hole m s sz
       else 0x40000 < p \<and> p + sz \<le> hole_top \<and> is_hole m p sz)"
  unfolding pt_find_hole_def
  by (rule find_hole_loop_spec [OF _ assms]) (use assms in \<open>auto simp: search_inv_def hole_top_def\<close>)

lemma pt_is_hole_ok:
  "start + pages \<le> MEM_PAGES \<Longrightarrow> pt_is_hole m start pages = Some (is_hole m start pages)"
  using all_unmapped_view [of "[start..<start + pages]" m]
  by (subst pt_is_hole_def) (simp add: is_hole_def Ball_def subset_iff)

section \<open>Properties\<close>

text \<open>
  C26. The search for a hole always answers, and is right both ways: an answer other than
  \<open>BAD_PAGE\<close> is the start of \<open>sz\<close> free pages between 0x40000 and 0xf7ffe, and \<open>BAD_PAGE\<close> means
  that no such run of free pages exists there.
\<close>

theorem pt_find_hole_correct:
  assumes "0 < sz"
  shows "\<exists>p. pt_find_hole m sz = Some p
    \<and> (if p = BAD_PAGE then \<forall>s > 0x40000. s + sz \<le> 0xf7ffe \<longrightarrow> (\<exists>q. s \<le> q \<and> q < s + sz \<and> page_view m q \<noteq> None)
       else 0x40000 < p \<and> p + sz \<le> 0xf7ffe \<and> (\<forall>q. p \<le> q \<and> q < p + sz \<longrightarrow> page_view m q = None))"
  using pt_find_hole_ok [OF assms, of m] unfolding is_hole_def hole_top_def not_all not_imp conj_assoc .

theorem pt_find_hole_correct_witness:
  "\<exists>p. pt_find_hole ex_mem 3 = Some p \<and> p \<noteq> BAD_PAGE"
proof -
  obtain p where p: "pt_find_hole ex_mem 3 = Some p"
    "if p = BAD_PAGE then \<forall>s > 0x40000. s + 3 \<le> 0xf7ffe \<longrightarrow> (\<exists>q. s \<le> q \<and> q < s + 3 \<and> page_view ex_mem q \<noteq> None)
     else 0x40000 < p \<and> p + 3 \<le> 0xf7ffe \<and> (\<forall>q. p \<le> q \<and> q < p + 3 \<longrightarrow> page_view ex_mem q = None)"
    using pt_find_hole_correct [of 3 ex_mem, OF zero_less_numeral] by blast
  have "p \<noteq> BAD_PAGE"
  proof
    assume "p = BAD_PAGE"
    with p(2) have "\<exists>q. 0x50000 \<le> q \<and> q < 0x50000 + 3 \<and> page_view ex_mem q \<noteq> None"
      by (simp only: if_True)
    then show False by (auto simp: ex_view split: if_splits)
  qed
  with p(1) show ?thesis by blast
qed

end
