(* ===== verification/Mmap.thy ===== *)
theory Mmap
  imports Memory_Holes
begin

text \<open>
  The memory system calls of \<^verbatim>\<open>kernel/mmap.c\<close> and the copies between kernel and guest memory of
  \<^verbatim>\<open>kernel/user.c\<close>. The calling task's \<open>struct mm\<close> and the heap are passed explicitly. What a file
  descriptor gives is an argument: \<open>f_get\<close> looks it up, \<open>fd_mmap fd\<close> is the \<open>mmap\<close> operation of its
  driver, if it has one.
\<close>

section \<open>Address spaces\<close>

record mm =
  mm_refcount :: u32
  mm_mem :: mem
  mm_vdso :: addr_t
  mm_start_brk :: addr_t
  mm_brk :: addr_t
  mm_exefile :: "nat option"

definition mm_new :: mm where
  "mm_new = \<lparr>mm_refcount = 1, mm_mem = mem_init, mm_vdso = 0, mm_start_brk = 0, mm_brk = 0,
             mm_exefile = None\<rparr>"

text \<open>Returns the copy, the changed original and the file whose count \<open>fd_retain\<close> raises.\<close>

definition mm_copy :: "kheap \<Rightarrow> mm \<Rightarrow> (kheap \<times> mm \<times> mm \<times> nat option) option" where
  "mm_copy h mm = do {
     (rc, h', src, dst) \<leftarrow> pt_copy_on_write h (mm_mem mm) mem_init 0 MEM_PAGES;
     Some (h', mm\<lparr>mm_mem := src\<rparr>, mm\<lparr>mm_refcount := 1, mm_mem := dst\<rparr>, mm_exefile mm)
   }"

definition mm_retain :: "mm \<Rightarrow> mm" where
  "mm_retain mm = mm\<lparr>mm_refcount := mm_refcount mm + 1\<rparr>"

text \<open>\<open>None\<close> as the address space of the result: it is gone.\<close>

definition mm_release :: "kheap \<Rightarrow> mm \<Rightarrow> (kheap \<times> mm option) option" where
  "mm_release h mm =
     (if mm_refcount mm - 1 = 0 then do {
        let h1 = (case mm_exefile mm of None \<Rightarrow> h | Some f \<Rightarrow> h\<lparr>h_closed := h_closed h @ [f]\<rparr>);
        h2 \<leftarrow> mem_destroy h1 (mm_mem mm);
        Some (h2, None)
      } else Some (h, Some (mm\<lparr>mm_refcount := mm_refcount mm - 1\<rparr>)))"

section \<open>mmap, munmap, mremap, mprotect, brk\<close>

definition MMAP_SHARED :: u32 where "MMAP_SHARED = 0x1"
definition MMAP_PRIVATE :: u32 where "MMAP_PRIVATE = 0x2"
definition MMAP_FIXED :: u32 where "MMAP_FIXED = 0x10"
definition MMAP_ANONYMOUS :: u32 where "MMAP_ANONYMOUS = 0x20"

type_synonym fd_mmap_op =
  "kheap \<Rightarrow> mem \<Rightarrow> nat \<Rightarrow> nat \<Rightarrow> u32 \<Rightarrow> u32 \<Rightarrow> u32 \<Rightarrow> (unit result \<times> kheap \<times> mem) option"

text \<open>The choice of the first page in \<open>do_mmap\<close>.\<close>

definition mmap_page :: "mem \<Rightarrow> addr_t \<Rightarrow> nat \<Rightarrow> u32 \<Rightarrow> nat result option" where
  "mmap_page m addr pages flags =
     (if addr \<noteq> 0 then
        (if PGOFFSET addr \<noteq> 0 then Some (Inl EINVAL)
         else if \<not> tst flags MMAP_FIXED then do {
           hole \<leftarrow> pt_is_hole m (PAGE addr) pages;
           Some (Inr (PAGE addr))
         } else Some (Inr (PAGE addr)))
      else do {
        page \<leftarrow> pt_find_hole m pages;
        Some (if page = BAD_PAGE then Inl ENOMEM else Inr page)
      })"

definition do_mmap ::
  "(int \<Rightarrow> nat option) \<Rightarrow> (nat \<Rightarrow> fd_mmap_op option) \<Rightarrow> kheap \<Rightarrow> mem
     \<Rightarrow> addr_t \<Rightarrow> u32 \<Rightarrow> u32 \<Rightarrow> u32 \<Rightarrow> int \<Rightarrow> u32 \<Rightarrow> (addr_t result \<times> kheap \<times> mem) option" where
  "do_mmap f_get fd_mmap h m addr len prot flags fd_no offset =
     (let pages = PAGE_ROUND_UP len in
      if pages = 0 then Some (Inl EINVAL, h, m)
      else do {
        r \<leftarrow> mmap_page m addr pages flags;
        case r of
          Inl e \<Rightarrow> Some (Inl e, h, m)
        | Inr page \<Rightarrow>
            let prot' = (if tst flags MMAP_SHARED then prot OR P_SHARED else prot);
                res = push_bit PAGE_BITS (of_nat page) :: addr_t
            in if tst flags MMAP_ANONYMOUS then do {
                 (err, h', m') \<leftarrow> pt_map_nothing h m page pages prot';
                 Some (case err of Inl e \<Rightarrow> (Inl e, h', m') | Inr _ \<Rightarrow> (Inr res, h', m'))
               }
               else case f_get fd_no of
                 None \<Rightarrow> Some (Inl EBADF, h, m)
               | Some fd \<Rightarrow>
                   (case fd_mmap fd of
                      None \<Rightarrow> Some (Inl ENODEV, h, m)
                    | Some mmap_op \<Rightarrow> do {
                        (err, h', m') \<leftarrow> mmap_op h m page pages offset prot' flags;
                        case err of
                          Inl e \<Rightarrow> Some (Inl e, h', m')
                        | Inr _ \<Rightarrow> do {
                            entry \<leftarrow> mem_pt m' page;
                            pt \<leftarrow> entry;
                            i \<leftarrow> pe_data pt;
                            d \<leftarrow> h_datas h' i;
                            Some (Inr res,
                              h'\<lparr>h_datas := (h_datas h')(i \<mapsto>
                                   d\<lparr>d_fd := Some fd, d_file_offset := unat offset\<rparr>)\<rparr>, m')
                          }
                      })
      })"

definition mmap_common ::
  "(int \<Rightarrow> nat option) \<Rightarrow> (nat \<Rightarrow> fd_mmap_op option) \<Rightarrow> kheap \<Rightarrow> mem
     \<Rightarrow> addr_t \<Rightarrow> u32 \<Rightarrow> u32 \<Rightarrow> u32 \<Rightarrow> int \<Rightarrow> u32 \<Rightarrow> (addr_t result \<times> kheap \<times> mem) option" where
  "mmap_common f_get fd_mmap h m addr len prot flags fd_no offset =
     (if len = 0 then Some (Inl EINVAL, h, m)
      else if prot AND NOT P_RWX \<noteq> 0 then Some (Inl EINVAL, h, m)
      else if tst flags MMAP_PRIVATE \<and> tst flags MMAP_SHARED then Some (Inl EINVAL, h, m)
      else do_mmap f_get fd_mmap h m addr len prot flags fd_no offset)"

definition sys_mmap2 ::
  "(int \<Rightarrow> nat option) \<Rightarrow> (nat \<Rightarrow> fd_mmap_op option) \<Rightarrow> kheap \<Rightarrow> mem
     \<Rightarrow> addr_t \<Rightarrow> u32 \<Rightarrow> u32 \<Rightarrow> u32 \<Rightarrow> int \<Rightarrow> u32 \<Rightarrow> (addr_t result \<times> kheap \<times> mem) option" where
  "sys_mmap2 f_get fd_mmap h m addr len prot flags fd_no offset =
     mmap_common f_get fd_mmap h m addr len prot flags fd_no (push_bit PAGE_BITS offset)"

definition sys_munmap :: "kheap \<Rightarrow> mem \<Rightarrow> addr_t \<Rightarrow> u32 \<Rightarrow> (unit result \<times> kheap \<times> mem) option" where
  "sys_munmap h m addr len =
     (if PGOFFSET addr \<noteq> 0 then Some (Inl EINVAL, h, m)
      else if len = 0 then Some (Inl EINVAL, h, m)
      else do {
        (err, h', m') \<leftarrow> pt_unmap_always h m (PAGE addr) (PAGE_ROUND_UP len);
        Some (if err < 0 then Inl EINVAL else Inr (), h', m')
      })"

definition MREMAP_MAYMOVE :: u32 where "MREMAP_MAYMOVE = 1"
definition MREMAP_FIXED :: u32 where "MREMAP_FIXED = 2"

text \<open>
  The loop over the old pages: a page without entry dereferences the null pointer (undefined
  behaviour), a page with an entry passes.
\<close>

fun mremap_check :: "mem \<Rightarrow> nat list \<Rightarrow> unit option" where
  "mremap_check m [] = Some ()"
| "mremap_check m (p # ps) = do {
     e \<leftarrow> mem_pt m p;
     entry \<leftarrow> e;
     mremap_check m ps
   }"

definition sys_mremap ::
  "kheap \<Rightarrow> mem \<Rightarrow> addr_t \<Rightarrow> u32 \<Rightarrow> u32 \<Rightarrow> u32 \<Rightarrow> (addr_t result \<times> kheap \<times> mem) option" where
  "sys_mremap h m addr old_len new_len flags =
     (if PGOFFSET addr \<noteq> 0 then Some (Inl EINVAL, h, m)
      else if flags AND NOT (MREMAP_MAYMOVE OR MREMAP_FIXED) \<noteq> 0 then Some (Inl EINVAL, h, m)
      else if tst flags MREMAP_FIXED then Some (Inl EINVAL, h, m)
      else
        let old_pages = PAGE old_len; new_pages = PAGE new_len in
        if new_pages \<le> old_pages then do {
          (err, h', m') \<leftarrow> pt_unmap h m (PAGE addr + new_pages) (old_pages - new_pages);
          Some (if err < 0 then Inl EFAULT else Inr addr, h', m')
        }
        else do {
          e \<leftarrow> mem_pt m (PAGE addr);
          case e of
            None \<Rightarrow> Some (Inl EFAULT, h, m)
          | Some entry \<Rightarrow> do {
              mremap_check m [PAGE addr..<range_end (PAGE addr) old_pages];
              if \<not> tst (pe_flags entry) P_ANONYMOUS then Some (Inl EFAULT, h, m)
              else do {
                let extra_start = PAGE addr + old_pages;
                let extra_pages = new_pages - old_pages;
                hole \<leftarrow> pt_is_hole m extra_start extra_pages;
                if \<not> hole then Some (Inl ENOMEM, h, m)
                else do {
                  (err, h', m') \<leftarrow> pt_map_nothing h m extra_start extra_pages (pe_flags entry);
                  Some (case err of Inl x \<Rightarrow> Inl x | Inr _ \<Rightarrow> Inr addr, h', m')
                }
              }
            }
        })"

definition sys_mprotect ::
  "(nat \<Rightarrow> errno option) \<Rightarrow> mem \<Rightarrow> addr_t \<Rightarrow> u32 \<Rightarrow> u32 \<Rightarrow> (unit result \<times> mem) option" where
  "sys_mprotect mprotect m addr len prot =
     (if PGOFFSET addr \<noteq> 0 then Some (Inl EINVAL, m)
      else if prot AND NOT P_RWX \<noteq> 0 then Some (Inl EINVAL, m)
      else pt_set_flags mprotect m (PAGE addr) (PAGE_ROUND_UP len) prot)"

definition sys_brk :: "kheap \<Rightarrow> mm \<Rightarrow> addr_t \<Rightarrow> (addr_t \<times> kheap \<times> mm) option" where
  "sys_brk h mm new_brk =
     (if new_brk < mm_start_brk mm then Some (mm_brk mm, h, mm)
      else if new_brk > mm_brk mm then do {
        let start = PAGE_ROUND_UP (mm_brk mm);
        let sz = unat (of_nat (PAGE_ROUND_UP new_brk) - of_nat (PAGE_ROUND_UP (mm_brk mm)) :: u32);
        hole \<leftarrow> pt_is_hole (mm_mem mm) start sz;
        if \<not> hole then Some (mm_brk mm, h, mm)
        else do {
          (err, h', m') \<leftarrow> pt_map_nothing h (mm_mem mm) start sz P_WRITE;
          Some (case err of
                  Inl e \<Rightarrow> (mm_brk mm, h', mm\<lparr>mm_mem := m'\<rparr>)
                | Inr _ \<Rightarrow> (new_brk, h', mm\<lparr>mm_mem := m', mm_brk := new_brk\<rparr>))
        }
      }
      else if new_brk < mm_brk mm then do {
        (err, h', m') \<leftarrow> pt_unmap_always h (mm_mem mm) (PAGE new_brk) (PAGE (mm_brk mm) - PAGE new_brk);
        Some (new_brk, h', mm\<lparr>mm_mem := m', mm_brk := new_brk\<rparr>)
      }
      else Some (new_brk, h, mm\<lparr>mm_brk := new_brk\<rparr>))"

section \<open>Copies between kernel and guest (kernel/user.c)\<close>

text \<open>
  The loop condition \<open>p < addr + count\<close> is evaluated in 64 bits, \<open>chunk_end\<close> and \<open>chunk_end - p\<close>
  in 32 bits. \<open>fuel\<close> bounds the rounds: the loop does not end when \<open>addr + count\<close> exceeds the
  32-bit address space. \<open>mf\<close> and \<open>env\<close> are the bound and the interference of \<open>mem_ptr\<close>.
\<close>

definition chunk_end :: "nat \<Rightarrow> nat \<Rightarrow> nat" where
  "chunk_end p end_addr =
     (let c = ((p div PAGE_SIZE + 1) * PAGE_SIZE) mod 2 ^ 32
      in if c > end_addr then end_addr mod 2 ^ 32 else c)"

definition u32_sub :: "nat \<Rightarrow> nat \<Rightarrow> nat" where
  "u32_sub a b = (a + 2 ^ 32 - b) mod 2 ^ 32"

type_synonym interference = "nat \<Rightarrow> nat \<Rightarrow> kheap \<times> mem \<Rightarrow> kheap \<times> mem"

fun user_read_loop ::
  "nat \<Rightarrow> nat \<Rightarrow> interference \<Rightarrow> kheap \<Rightarrow> mem \<Rightarrow> nat \<Rightarrow> nat \<Rightarrow> nat \<Rightarrow> u8 list
     \<Rightarrow> (int \<times> u8 list \<times> kheap \<times> mem) option" where
  "user_read_loop 0 mf env h m addr end_addr p cbuf = None"
| "user_read_loop (Suc fuel) mf env h m addr end_addr p cbuf =
     (if p < end_addr then do {
        let ce = chunk_end p end_addr;
        (ptr, h', m') \<leftarrow> mem_ptr mf (env p) h m (of_nat p) MEM_READ;
        case ptr of
          None \<Rightarrow> Some (1, cbuf, h', m')
        | Some (r, off) \<Rightarrow> do {
            bytes \<leftarrow> h_host h' r;
            xs \<leftarrow> copy_from bytes off (u32_sub ce p);
            cbuf' \<leftarrow> copy_into cbuf (u32_sub p addr) xs;
            user_read_loop fuel mf env h' m' addr end_addr ce cbuf'
          }
      } else Some (0, cbuf, h, m))"

definition user_read_task ::
  "nat \<Rightarrow> nat \<Rightarrow> interference \<Rightarrow> kheap \<Rightarrow> mem \<Rightarrow> addr_t \<Rightarrow> u8 list
     \<Rightarrow> (int \<times> u8 list \<times> kheap \<times> mem) option" where
  "user_read_task fuel mf env h m addr buf =
     user_read_loop fuel mf env h m (unat addr) (szadd (unat addr) (length buf)) (unat addr) buf"

fun user_write_loop ::
  "nat \<Rightarrow> nat \<Rightarrow> interference \<Rightarrow> kheap \<Rightarrow> mem \<Rightarrow> nat \<Rightarrow> nat \<Rightarrow> nat \<Rightarrow> u8 list \<Rightarrow> bool
     \<Rightarrow> (int \<times> kheap \<times> mem) option" where
  "user_write_loop 0 mf env h m addr end_addr p cbuf ptrace = None"
| "user_write_loop (Suc fuel) mf env h m addr end_addr p cbuf ptrace =
     (if p < end_addr then do {
        let ce = chunk_end p end_addr;
        (ptr, h', m') \<leftarrow> mem_ptr mf (env p) h m (of_nat p) (if ptrace then MEM_WRITE_PTRACE else MEM_WRITE);
        case ptr of
          None \<Rightarrow> Some (1, h', m')
        | Some (r, off) \<Rightarrow> do {
            bytes \<leftarrow> h_host h' r;
            xs \<leftarrow> copy_from cbuf (u32_sub p addr) (u32_sub ce p);
            bytes' \<leftarrow> copy_into bytes off xs;
            user_write_loop fuel mf env (h'\<lparr>h_host := (h_host h')(r \<mapsto> bytes')\<rparr>) m' addr end_addr ce cbuf ptrace
          }
      } else Some (0, h, m))"

definition user_write_task ::
  "nat \<Rightarrow> nat \<Rightarrow> interference \<Rightarrow> kheap \<Rightarrow> mem \<Rightarrow> addr_t \<Rightarrow> u8 list \<Rightarrow> (int \<times> kheap \<times> mem) option" where
  "user_write_task fuel mf env h m addr buf =
     user_write_loop fuel mf env h m (unat addr) (szadd (unat addr) (length buf)) (unat addr) buf False"

definition user_write_task_ptrace ::
  "nat \<Rightarrow> nat \<Rightarrow> interference \<Rightarrow> kheap \<Rightarrow> mem \<Rightarrow> addr_t \<Rightarrow> u8 list \<Rightarrow> (int \<times> kheap \<times> mem) option" where
  "user_write_task_ptrace fuel mf env h m addr buf =
     user_write_loop fuel mf env h m (unat addr) (szadd (unat addr) (length buf)) (unat addr) buf True"

text \<open>\<open>user_read_string\<close>: byte by byte up to \<open>maxlen\<close> bytes; \<open>left\<close> counts down from \<open>maxlen\<close>.\<close>

fun read_string_loop ::
  "nat \<Rightarrow> nat \<Rightarrow> nat \<Rightarrow> interference \<Rightarrow> kheap \<Rightarrow> mem \<Rightarrow> addr_t \<Rightarrow> nat \<Rightarrow> u8 list
     \<Rightarrow> (int \<times> u8 list \<times> kheap \<times> mem) option" where
  "read_string_loop 0 fuel mf env h m addr i acc = Some (0, acc, h, m)"
| "read_string_loop (Suc left) fuel mf env h m addr i acc = do {
     (err, b, h', m') \<leftarrow> user_read_task fuel mf env h m (addr + of_nat i) [0];
     if err \<noteq> 0 then Some (1, acc, h', m')
     else if b = [0] then Some (0, acc @ b, h', m')
     else read_string_loop left fuel mf env h' m' addr (i + 1) (acc @ b)
   }"

definition user_read_string ::
  "nat \<Rightarrow> nat \<Rightarrow> interference \<Rightarrow> kheap \<Rightarrow> mem \<Rightarrow> addr_t \<Rightarrow> nat
     \<Rightarrow> (int \<times> u8 list \<times> kheap \<times> mem) option" where
  "user_read_string fuel mf env h m addr maxlen =
     (if addr = 0 then Some (1, [], h, m) else read_string_loop maxlen fuel mf env h m addr 0 [])"

text \<open>\<open>user_write_string\<close> of a C string: its bytes followed by the terminating zero.\<close>

fun write_string_loop ::
  "u8 list \<Rightarrow> nat \<Rightarrow> nat \<Rightarrow> interference \<Rightarrow> kheap \<Rightarrow> mem \<Rightarrow> addr_t \<Rightarrow> nat
     \<Rightarrow> (int \<times> kheap \<times> mem) option" where
  "write_string_loop [] fuel mf env h m addr i = Some (0, h, m)"
| "write_string_loop (b # bs) fuel mf env h m addr i = do {
     (err, h', m') \<leftarrow> user_write_task fuel mf env h m (addr + of_nat i) [b];
     if err \<noteq> 0 then Some (1, h', m')
     else write_string_loop bs fuel mf env h' m' addr (i + 1)
   }"

definition user_write_string ::
  "nat \<Rightarrow> nat \<Rightarrow> interference \<Rightarrow> kheap \<Rightarrow> mem \<Rightarrow> addr_t \<Rightarrow> u8 list \<Rightarrow> (int \<times> kheap \<times> mem) option" where
  "user_write_string fuel mf env h m addr buf =
     (if addr = 0 then Some (1, h, m) else write_string_loop (buf @ [0]) fuel mf env h m addr 0)"

end
