(* ===== verification/Mmap_Props.thy ===== *)
theory Mmap_Props
  imports Mmap
begin

text \<open>Correctness of the memory system calls and of the copies to and from guest memory.\<close>

section \<open>Anonymous mappings\<close>

lemma pt_map_nothing_ok:
  assumes sp: "space_ok h m Ro" and rm: "room Ro" and r: "start + pages \<le> MEM_PAGES"
    and pg: "0 < pages" "pages < MEM_PAGES"
    and al: "h_mmap_err h (h_hnext h) = None" "h_malloc_ok h (h_next h)"
  shows "\<exists>h' m'. pt_map_nothing h m start pages flags = Some (Inr (), h', m')
    \<and> (\<forall>q. page_view m' q = (if start \<le> q \<and> q < start + pages
                             then Some (new_entry (h_next h) start 0 (flags OR P_ANONYMOUS) q) else page_view m q))
    \<and> space_ok h' m' Ro \<and> (\<forall>i. 0 < refs m' i + Ro i \<longrightarrow> keeps h h' i)
    \<and> (\<exists>d. h_datas h' (h_next h) = Some d \<and> h_host h' (d_data d) = Some (replicate (pages * PAGE_SIZE) 0))
    \<and> m_changes m' = m_changes m + of_nat (replaced m [start..<start + pages])"
proof -
  have sz: "pages * PAGE_SIZE mod 2 ^ 32 = pages * PAGE_SIZE"
    using pg by (simp add: PAGE_SIZE_def MEM_PAGES_def)
  obtain h1 where h1: "host_mmap h (pages * PAGE_SIZE) = (Inr (h_hnext h), h1)" "space_ok h1 m Ro"
      "\<forall>i. keeps h h1 i" "h_host h1 (h_hnext h) = Some (replicate (pages * PAGE_SIZE) 0)"
      "h_datas h1 = h_datas h" "h_next h1 = h_next h" "h_malloc_ok h1 = h_malloc_ok h"
      "h_hnext h1 = h_hnext h + 1" "\<forall>i d. h_datas h i = Some d \<longrightarrow> d_data d \<noteq> h_hnext h"
    using host_mmap_ok [OF sp al(1), of "pages * PAGE_SIZE"] by blast
  have un: "unowned h1 (h_hnext h) (pages * PAGE_SIZE + 0)"
    using h1(4,5,8,9) by (auto simp: unowned_def)
  have al1: "h_malloc_ok h1 (h_next h1)" using al(2) h1(6,7) by simp
  from pt_map_space [OF h1(2) rm r pg al1 un, of "flags OR P_ANONYMOUS"] obtain h' m' where
    m: "pt_map h1 m start pages (Inr (h_hnext h)) 0 (flags OR P_ANONYMOUS) = Some (Inr (), h', m')"
      "\<forall>q. page_view m' q = (if start \<le> q \<and> q < start + pages
            then Some (new_entry (h_next h1) start 0 (flags OR P_ANONYMOUS) q) else page_view m q)"
      "space_ok h' m' Ro" "\<forall>i. 0 < refs m' i + Ro i \<longrightarrow> keeps h1 h' i"
      "\<exists>d. h_datas h' (h_next h1) = Some d \<and> d_data d = h_hnext h \<and> d_size d = pages * PAGE_SIZE + 0
          \<and> h_host h' (h_hnext h) = h_host h1 (h_hnext h)"
      "m_changes m' = m_changes m + of_nat (replaced m [start..<start + pages])"
    by blast
  have k: "keeps h h' i" if "0 < refs m' i + Ro i" for i
    by (rule keeps_trans [OF h1(3) [rule_format] m(4) [rule_format, OF that]])
  have d: "\<exists>d. h_datas h' (h_next h) = Some d \<and> h_host h' (d_data d) = Some (replicate (pages * PAGE_SIZE) 0)"
    using m(5) h1(4,6) by auto
  have run: "pt_map_nothing h m start pages flags = Some (Inr (), h', m')"
    using h1(1) m(1) pg(1) by (simp only: pt_map_nothing_def sz case_prod_conv Let_def) simp
  show ?thesis
    using run m(2) [unfolded h1(6)] m(3) k d m(6)
    by (intro exI [of _ h'] exI [of _ m']) blast
qed

lemma PAGE_shift: "page < MEM_PAGES \<Longrightarrow> PAGE (push_bit PAGE_BITS (of_nat page)) = page"
  and PGOFFSET_shift: "page < MEM_PAGES \<Longrightarrow> PGOFFSET (push_bit PAGE_BITS (of_nat page)) = 0"
proof -
  assume p: "page < MEM_PAGES"
  have "unat (push_bit PAGE_BITS (of_nat page) :: addr_t) = page * 2 ^ 12"
    using p by (simp add: unat_push_bit PAGE_BITS_def MEM_PAGES_def unsigned_of_nat take_bit_eq_mod)
  then show "PAGE (push_bit PAGE_BITS (of_nat page)) = page" "PGOFFSET (push_bit PAGE_BITS (of_nat page)) = 0"
    by (simp_all add: PAGE_def PGOFFSET_mod unat_drop_bit PAGE_BITS_def)
qed

lemma PAGE_ROUND_UP_lt: "PAGE_ROUND_UP n < MEM_PAGES"
  by (simp add: PAGE_ROUND_UP_def)

lemma guest_byte_kept:
  assumes "page_view m' (PAGE x) = page_view m (PAGE x)" "mem_ok h m" "\<forall>i. 0 < refs m' i + Ro i \<longrightarrow> keeps h h' i"
  shows "guest_byte h' m' x = guest_byte h m x"
proof (cases "page_view m (PAGE x)")
  case (Some e)
  then obtain i d where i: "pe_data e = Some i" "h_datas h i = Some d"
    using assms(2) unfolding mem_ok_def by (metis PAGE_lt)
  have "0 < refs m' i" by (rule refs_pos [OF PAGE_lt [of x]]) (use Some i assms(1) in \<open>auto simp: refers_def\<close>)
  then have "keeps h h' i" using assms(3) by simp
  with i Some assms(1) show ?thesis unfolding keeps_def by (auto simp: guest_byte_def)
qed (use assms(1) in \<open>simp add: guest_byte_def\<close>)

lemma map_nothing_bytes:
  assumes "space_ok h m Ro" "room Ro" "start + pages \<le> MEM_PAGES" "0 < pages" "pages < MEM_PAGES"
    "h_mmap_err h (h_hnext h) = None" "h_malloc_ok h (h_next h)"
  shows "\<exists>h' m'. pt_map_nothing h m start pages flags = Some (Inr (), h', m') \<and> space_ok h' m' Ro
    \<and> (\<forall>x. guest_byte h' m' x = (if start \<le> PAGE x \<and> PAGE x < start + pages then Some 0 else guest_byte h m x))
    \<and> (\<forall>q. page_view m' q = (if start \<le> q \<and> q < start + pages
                             then Some (new_entry (h_next h) start 0 (flags OR P_ANONYMOUS) q) else page_view m q))"
proof -
  from pt_map_nothing_ok [OF assms, of flags] obtain h' m' d where
    m: "pt_map_nothing h m start pages flags = Some (Inr (), h', m')"
      "\<forall>q. page_view m' q = (if start \<le> q \<and> q < start + pages
                             then Some (new_entry (h_next h) start 0 (flags OR P_ANONYMOUS) q) else page_view m q)"
      "space_ok h' m' Ro" "\<forall>i. 0 < refs m' i + Ro i \<longrightarrow> keeps h h' i"
      "h_datas h' (h_next h) = Some d" "h_host h' (d_data d) = Some (replicate (pages * PAGE_SIZE) 0)" by blast
  have "guest_byte h' m' x = (if start \<le> PAGE x \<and> PAGE x < start + pages then Some 0 else guest_byte h m x)" for x
  proof (cases "start \<le> PAGE x \<and> PAGE x < start + pages")
    case True
    then have "(PAGE x - start) * PAGE_SIZE + PAGE_SIZE \<le> pages * PAGE_SIZE"
      by (metis Suc_leI add.commute diff_less_mono less_diff_conv2 mult_Suc mult_le_mono1 add_diff_cancel_left')
    then have "(PAGE x - start) * PAGE_SIZE + PGOFFSET x < pages * PAGE_SIZE"
      using PGOFFSET_lt [of x] by linarith
    with True m(2,5,6) show ?thesis by (simp add: guest_byte_def new_entry_def)
  next
    case False
    then have "guest_byte h' m' x = guest_byte h m x"
      by (intro guest_byte_kept [OF _ _ m(4)]) (use m(2) assms(1) in \<open>auto simp: space_ok_def\<close>)
    with False show ?thesis by auto
  qed
  with m show ?thesis by blast
qed

section \<open>Properties\<close>

text \<open>
  C16. An anonymous \<open>mmap\<close> without address hint, while address space and host memory last, succeeds:
  the range it returns was free, it now reads as zeros, and every other byte of the address space is
  unchanged, as is the invariant of the page tables.
\<close>

theorem mmap_anonymous_fresh:
  assumes "space_ok h m Ro" "room Ro" "len \<noteq> 0" "PAGE_ROUND_UP len = pages" "0 < pages"
    and "prot AND NOT P_RWX = 0" "\<not> (tst flags MMAP_PRIVATE \<and> tst flags MMAP_SHARED)" "tst flags MMAP_ANONYMOUS"
    and "h_mmap_err h (h_hnext h) = None" "h_malloc_ok h (h_next h)"
    and hole: "0x40000 < s" "s + pages \<le> 0xf7ffe" "\<forall>q. s \<le> q \<and> q < s + pages \<longrightarrow> page_view m q = None"
  shows "\<exists>page h' m'. sys_mmap2 f_get fd_mmap h m 0 len prot flags fd_no off
        = Some (Inr (push_bit PAGE_BITS (of_nat page)), h', m')
     \<and> 0x40000 < page \<and> page + pages \<le> 0xf7ffe
     \<and> (\<forall>q. page \<le> q \<and> q < page + pages \<longrightarrow> page_view m q = None)
     \<and> (\<forall>x. guest_byte h' m' x = (if page \<le> PAGE x \<and> PAGE x < page + pages then Some 0 else guest_byte h m x))
     \<and> space_ok h' m' Ro"
proof -
  from pt_find_hole_ok [OF assms(5), of m] obtain page where
    p: "pt_find_hole m pages = Some page"
      "if page = BAD_PAGE then \<forall>s > 0x40000. s + pages \<le> hole_top \<longrightarrow> \<not> is_hole m s pages
       else 0x40000 < page \<and> page + pages \<le> hole_top \<and> is_hole m page pages" by blast
  have "is_hole m s pages" using hole(3) by (simp add: is_hole_def)
  then have ne: "page \<noteq> BAD_PAGE" using p(2) hole(1,2) by (auto simp: hole_top_def split: if_splits)
  then have pp: "0x40000 < page" "page + pages \<le> 0xf7ffe" "is_hole m page pages"
    using p(2) by (auto simp: hole_top_def)
  have le: "page + pages \<le> MEM_PAGES" "pages < MEM_PAGES"
    using pp(2) PAGE_ROUND_UP_lt [of len] assms(4) by (simp_all add: MEM_PAGES_def)
  from map_nothing_bytes [OF assms(1,2) le(1) assms(5) le(2) assms(9,10),
      of "if tst flags MMAP_SHARED then prot OR P_SHARED else prot"] obtain h' m' where
    m: "pt_map_nothing h m page pages (if tst flags MMAP_SHARED then prot OR P_SHARED else prot) = Some (Inr (), h', m')"
      "space_ok h' m' Ro"
      "\<forall>x. guest_byte h' m' x = (if page \<le> PAGE x \<and> PAGE x < page + pages then Some 0 else guest_byte h m x)" by blast
  have pg: "mmap_page m 0 pages flags = Some (Inr page)" using p(1) ne by (simp add: mmap_page_def)
  have "sys_mmap2 f_get fd_mmap h m 0 len prot flags fd_no off
        = Some (Inr (push_bit PAGE_BITS (of_nat page)), h', m')"
    using assms(3-8) pg m(1) unfolding sys_mmap2_def mmap_common_def do_mmap_def Let_def by simp
  with pp m show ?thesis by (intro exI [of _ page] exI [of _ h'] exI [of _ m']) (simp add: is_hole_def)
qed

theorem mmap_anonymous_fresh_witness:
  "\<exists>page h' m'. sys_mmap2 (\<lambda>_. None) (\<lambda>_. None) ex_heap ex_mem 0 0x1000 P_WRITE (MMAP_PRIVATE OR MMAP_ANONYMOUS) (-1) 0
     = Some (Inr (push_bit PAGE_BITS (of_nat page)), h', m') \<and> guest_byte h' m' 0x1000 = guest_byte ex_heap ex_mem 0x1000"
proof -
  have r: "PAGE_ROUND_UP 0x1000 = 1" by (simp add: PAGE_ROUND_UP_def PAGE_def PAGE_BITS_def unat_drop_bit)
  have fl: "P_WRITE AND NOT P_RWX = 0" "\<not> (tst (MMAP_PRIVATE OR MMAP_ANONYMOUS) MMAP_PRIVATE \<and> tst (MMAP_PRIVATE OR MMAP_ANONYMOUS) MMAP_SHARED)"
    "tst (MMAP_PRIVATE OR MMAP_ANONYMOUS) MMAP_ANONYMOUS" "(0x1000::u32) \<noteq> 0"
    by (simp_all add: P_WRITE_def P_RWX_def P_READ_def P_EXEC_def MMAP_PRIVATE_def MMAP_ANONYMOUS_def MMAP_SHARED_def)
  have al: "h_mmap_err ex_heap (h_hnext ex_heap) = None" "h_malloc_ok ex_heap (h_next ex_heap)" by (simp_all add: ex_heap_def)
  have hole: "0x40000 < (0x50000::nat)" "(0x50000::nat) + 1 \<le> 0xf7ffe"
    "\<forall>q. 0x50000 \<le> q \<and> q < 0x50000 + 1 \<longrightarrow> page_view ex_mem q = None" by (simp_all add: ex_view)
  from mmap_anonymous_fresh [OF ex_space ex_room(2) fl(4) r zero_less_one fl(1,2,3) al hole]
  obtain page h' m' where *: "sys_mmap2 (\<lambda>_. None) (\<lambda>_. None) ex_heap ex_mem 0 0x1000 P_WRITE (MMAP_PRIVATE OR MMAP_ANONYMOUS) (-1) 0
     = Some (Inr (push_bit PAGE_BITS (of_nat page)), h', m')" "0x40000 < page"
     "\<forall>x. guest_byte h' m' x = (if page \<le> PAGE x \<and> PAGE x < page + 1 then Some 0 else guest_byte ex_heap ex_mem x)" by blast
  then show ?thesis by (auto simp: ex_page(1))
qed

text \<open>
The address hint of \<open>mmap\<close> destroys what is mapped there. Without \<open>MAP_FIXED\<close>, a hint whose
  range is in use should only be a hint, but the page computed from it is kept: the call succeeds at
  the hinted address and the bytes mapped there are replaced by zeros.
\<close>

theorem mmap_hint_overwrites:
  assumes "space_ok h m Ro" "room Ro" "PGOFFSET addr = 0" "addr \<noteq> 0" "page_view m (PAGE addr) \<noteq> None"
    and "h_mmap_err h (h_hnext h) = None" "h_malloc_ok h (h_next h)"
  shows "\<exists>h' m'. sys_mmap2 f_get fd_mmap h m addr 0x1000 P_WRITE (MMAP_PRIVATE OR MMAP_ANONYMOUS) fd_no off
        = Some (Inr addr, h', m') \<and> (\<forall>x. PAGE x = PAGE addr \<longrightarrow> guest_byte h' m' x = Some 0)"
proof -
  have r: "PAGE_ROUND_UP 0x1000 = 1" by (simp add: PAGE_ROUND_UP_def PAGE_def PAGE_BITS_def unat_drop_bit)
  have le: "PAGE addr + 1 \<le> MEM_PAGES" "1 < MEM_PAGES" using PAGE_lt [of addr] by (simp_all add: MEM_PAGES_def)
  from map_nothing_bytes [OF assms(1,2) le(1) zero_less_one le(2) assms(6,7), of P_WRITE] obtain h' m' where
    m: "pt_map_nothing h m (PAGE addr) 1 P_WRITE = Some (Inr (), h', m')"
      "\<forall>x. guest_byte h' m' x = (if PAGE addr \<le> PAGE x \<and> PAGE x < PAGE addr + 1 then Some 0 else guest_byte h m x)" by blast
  have back_addr: "push_bit PAGE_BITS (of_nat (PAGE addr)) = addr"
    by (rule addr_split) (simp_all add: PAGE_shift PGOFFSET_shift assms(3))
  have pg: "mmap_page m addr 1 (MMAP_PRIVATE OR MMAP_ANONYMOUS) = Some (Inr (PAGE addr))"
    using assms(3,4) pt_is_hole_ok [OF le(1)] by (simp add: mmap_page_def)
  have fl: "P_WRITE AND NOT P_RWX = 0" "\<not> tst (MMAP_PRIVATE OR MMAP_ANONYMOUS) MMAP_SHARED"
    "tst (MMAP_PRIVATE OR MMAP_ANONYMOUS) MMAP_ANONYMOUS"
    by (simp_all add: P_WRITE_def P_RWX_def P_READ_def P_EXEC_def MMAP_PRIVATE_def MMAP_ANONYMOUS_def MMAP_SHARED_def)
  have "sys_mmap2 f_get fd_mmap h m addr 0x1000 P_WRITE (MMAP_PRIVATE OR MMAP_ANONYMOUS) fd_no off
        = Some (Inr addr, h', m')"
    using fl pg m(1) back_addr unfolding sys_mmap2_def mmap_common_def do_mmap_def Let_def r by simp
  with m(2) show ?thesis by auto
qed

theorem mmap_hint_overwrites_witness:
  "guest_byte ex_heap ex_mem 0x1000 = Some 7 \<and> (\<exists>h' m'. sys_mmap2 (\<lambda>_. None) (\<lambda>_. None) ex_heap ex_mem 0x1000 0x1000
     P_WRITE (MMAP_PRIVATE OR MMAP_ANONYMOUS) (-1) 0 = Some (Inr 0x1000, h', m') \<and> guest_byte h' m' 0x1000 = Some 0)"
proof
  show "guest_byte ex_heap ex_mem 0x1000 = Some 7"
    by (simp add: guest_byte_def ex_page(1) ex_view ex_entry_def ex_heap_def PGOFFSET_def PAGE_SIZE_def)
  have o: "PGOFFSET 0x1000 = 0" "(0x1000::addr_t) \<noteq> 0" "page_view ex_mem (PAGE 0x1000) \<noteq> None"
    by (simp_all add: PGOFFSET_def ex_page(2))
  have al: "h_mmap_err ex_heap (h_hnext ex_heap) = None" "h_malloc_ok ex_heap (h_next ex_heap)" by (simp_all add: ex_heap_def)
  from mmap_hint_overwrites [OF ex_space ex_room(2) o al, of "\<lambda>_. None" "\<lambda>_. None" "-1" 0]
  show "\<exists>h' m'. sys_mmap2 (\<lambda>_. None) (\<lambda>_. None) ex_heap ex_mem 0x1000 0x1000
     P_WRITE (MMAP_PRIVATE OR MMAP_ANONYMOUS) (-1) 0 = Some (Inr 0x1000, h', m') \<and> guest_byte h' m' 0x1000 = Some 0"
    by blast
qed

text \<open>
\<open>munmap\<close> does not check that its range ends inside the address space: unmapping two pages from
  the last page on reads the page directory beyond its 1024 entries, whatever is mapped.
\<close>

theorem munmap_leaves_directory: "sys_munmap h m 0xfffff000 0x2000 = None"
proof -
  have pg: "PAGE 0xfffff000 = 0xfffff" "PAGE_ROUND_UP 0x2000 = 2" "PGOFFSET 0xfffff000 = 0"
    by (simp_all add: PAGE_def PAGE_ROUND_UP_def PAGE_BITS_def unat_drop_bit PGOFFSET_def)
  have out: "unmap_loop h' m' 0x100000 0x100001 = None" for h' m'
    by (subst unmap_loop.simps) (simp add: unmap_page_def mem_pt_view MEM_PAGES_def)
  have nxt: "mem_next_page m' 0xfffff = 0x100000" for m' by (simp add: mem_next_page_def MEM_PAGES_def)
  have "unmap_loop h m 0xfffff 0x100001 = None"
    by (subst unmap_loop.simps) (cases "unmap_page h m 0xfffff"; simp add: nxt out split_beta)
  then show ?thesis by (simp add: sys_munmap_def pg pt_unmap_always_def range_end_def)
qed

end
