(* ===== verification/User_Copy.thy ===== *)
theory User_Copy
  imports Mmap_Props
begin

text \<open>Correctness of the copies from and to guest memory of \<^verbatim>\<open>kernel/user.c\<close>.\<close>

lemma PAGE_of_nat: "p < 2 ^ 32 \<Longrightarrow> PAGE (of_nat p) = p div PAGE_SIZE"
  by (simp add: PAGE_def PAGE_BITS_def PAGE_SIZE_def unat_drop_bit unsigned_of_nat take_bit_eq_mod)

lemma PGOFFSET_of_nat: "p < 2 ^ 32 \<Longrightarrow> PGOFFSET (of_nat p) = p mod PAGE_SIZE"
  by (simp add: PGOFFSET_mod PAGE_SIZE_def unsigned_of_nat take_bit_eq_mod)

lemma u32_sub_exact: "b \<le> a \<Longrightarrow> a < 2 ^ 32 \<Longrightarrow> u32_sub a b = a - b"
proof -
  assume "b \<le> a" "a < 2 ^ 32"
  then have "a + 2 ^ 32 - b = (a - b) + 2 ^ 32" by simp
  then show ?thesis using \<open>a < 2 ^ 32\<close> by (simp only: u32_sub_def mod_add_self2) simp
qed

text \<open>Below the last page a chunk ends at the end of the page or of the range.\<close>

lemma chunk_end_exact:
  assumes "p < end_addr" "end_addr \<le> 2 ^ 32 - PAGE_SIZE"
  shows "chunk_end p end_addr = min ((p div PAGE_SIZE + 1) * PAGE_SIZE) end_addr"
    "p < chunk_end p end_addr" "chunk_end p end_addr \<le> end_addr"
    "chunk_end p end_addr - p + p mod PAGE_SIZE \<le> PAGE_SIZE"
proof -
  define q where "q = p div PAGE_SIZE"
  have p: "p = q * PAGE_SIZE + p mod PAGE_SIZE" "p mod PAGE_SIZE < PAGE_SIZE"
    by (simp_all add: q_def PAGE_SIZE_def)
  have "q * PAGE_SIZE < 2 ^ 32 - PAGE_SIZE" using p assms by linarith
  then have "(q + 1) * PAGE_SIZE < 2 ^ 32" by (simp add: PAGE_SIZE_def)
  then show e: "chunk_end p end_addr = min ((p div PAGE_SIZE + 1) * PAGE_SIZE) end_addr"
    using assms by (simp add: chunk_end_def q_def [symmetric] PAGE_SIZE_def min_def)
  have "p < (q + 1) * PAGE_SIZE" using p by (simp add: algebra_simps)
  then show "p < chunk_end p end_addr" "chunk_end p end_addr \<le> end_addr"
    using assms unfolding e q_def by simp_all
  show "chunk_end p end_addr - p + p mod PAGE_SIZE \<le> PAGE_SIZE"
  proof -
    have "min ((q + 1) * PAGE_SIZE) end_addr \<le> q * PAGE_SIZE + PAGE_SIZE" by simp
    with p show ?thesis unfolding e q_def [symmetric] by linarith
  qed
qed

lemma mem_ptr_read:
  assumes "page_view m (PAGE a) = Some e" "pe_data e = Some i" "h_datas h i = Some d"
  shows "mem_ptr (Suc mf) env h m a MEM_READ = Some (Some (d_data d, pe_offset e + PGOFFSET a), h, m)"
  using assms by (simp add: mem_ptr_def mem_pt_view mem_ptr_nofault_def Let_def)

lemma mapped_page:
  assumes "space_ok h m Ro" "page_view m (PAGE a) \<noteq> None"
  obtains e i d bytes where "page_view m (PAGE a) = Some e" "pe_data e = Some i" "h_datas h i = Some d"
    "h_host h (d_data d) = Some bytes" "pe_offset e + PAGE_SIZE \<le> length bytes"
proof -
  have ok: "heap_ok h (\<lambda>i. refs m i + Ro i) {}" "mem_ok h m" using assms(1) by (simp_all add: space_ok_def)
  obtain e where e: "page_view m (PAGE a) = Some e" using assms(2) by blast
  then obtain i d where i: "pe_data e = Some i" "h_datas h i = Some d" "pe_offset e + PAGE_SIZE \<le> d_size d"
    using ok(2) unfolding mem_ok_def by (metis PAGE_lt)
  obtain bytes where "h_host h (d_data d) = Some bytes" "d_size d \<le> length bytes"
    using heap_okD(3) [OF ok(1) i(2)] by (auto simp: data_ok_def)
  with e i show thesis using that by simp
qed

text \<open>Addresses of one page read consecutive bytes of its backing object.\<close>

lemma guest_byte_in_page:
  assumes "page_view m (PAGE (of_nat p)) = Some e" "pe_data e = Some i" "h_datas h i = Some d"
    "h_host h (d_data d) = Some bytes" "p + k < 2 ^ 32" "p mod PAGE_SIZE + k < PAGE_SIZE"
  shows "guest_byte h m (of_nat (p + k)) = Some (bytes ! (pe_offset e + p mod PAGE_SIZE + k))"
proof -
  have "(p + k) div PAGE_SIZE = p div PAGE_SIZE \<and> (p + k) mod PAGE_SIZE = p mod PAGE_SIZE + k"
  proof -
    define q r where "q = p div PAGE_SIZE" and "r = p mod PAGE_SIZE"
    have pk: "p + k = (r + k) + q * PAGE_SIZE" by (simp add: q_def r_def)
    have "r + k < PAGE_SIZE" "PAGE_SIZE \<noteq> 0" using assms(6) by (simp_all add: r_def PAGE_SIZE_def)
    then show ?thesis unfolding pk by (simp add: q_def [symmetric] r_def [symmetric])
  qed
  then have "PAGE (of_nat (p + k)) = PAGE (of_nat p)" "PGOFFSET (of_nat (p + k)) = p mod PAGE_SIZE + k"
    using assms(5) PAGE_of_nat [of "p + k"] PAGE_of_nat [of p] PGOFFSET_of_nat [of "p + k"] by simp_all
  with assms(1-4) show ?thesis by (simp add: guest_byte_def add.assoc)
qed

lemma user_read_loop_ok:
  assumes "space_ok h m Ro" "end_addr \<le> 2 ^ 32 - PAGE_SIZE" "addr \<le> p" "p \<le> end_addr"
    "length cbuf = end_addr - addr" "end_addr - p < fuel"
    "\<forall>x. p \<le> x \<and> x < end_addr \<longrightarrow> page_view m (PAGE (of_nat x)) \<noteq> None"
  shows "\<exists>cbuf'. user_read_loop fuel (Suc mf) env h m addr end_addr p cbuf = Some (0, cbuf', h, m)
     \<and> length cbuf' = end_addr - addr
     \<and> (\<forall>k < p - addr. cbuf' ! k = cbuf ! k)
     \<and> (\<forall>x. p \<le> x \<and> x < end_addr \<longrightarrow> guest_byte h m (of_nat x) = Some (cbuf' ! (x - addr)))"
  using assms
proof (induction fuel arbitrary: p cbuf)
  case (Suc fuel)
  show ?case
  proof (cases "p < end_addr")
    case False
    with Suc.prems show ?thesis by (intro exI [of _ cbuf]) auto
  next
    case True
    define ce where "ce = chunk_end p end_addr"
    note c = chunk_end_exact [OF True Suc.prems(2), folded ce_def]
    have e32: "end_addr < 2 ^ 32" using Suc.prems(2) by (simp add: PAGE_SIZE_def)
    obtain e i d bytes where g: "page_view m (PAGE (of_nat p)) = Some e" "pe_data e = Some i" "h_datas h i = Some d"
        "h_host h (d_data d) = Some bytes" "pe_offset e + PAGE_SIZE \<le> length bytes"
      using mapped_page [OF Suc.prems(1)] Suc.prems(7) True by blast
    define off where "off = pe_offset e + p mod PAGE_SIZE"
    have sub: "u32_sub ce p = ce - p" "u32_sub p addr = p - addr"
      using c Suc.prems(3) e32 True by (simp_all add: u32_sub_exact)
    have fit: "off + (ce - p) \<le> length bytes" using c(4) g(5) by (simp add: off_def)
    define xs where "xs = take (ce - p) (drop off bytes)"
    have cf: "copy_from bytes off (ce - p) = Some xs" "length xs = ce - p"
      using fit by (simp_all add: copy_from_def xs_def)
    have "p - addr + length xs \<le> length cbuf" using cf(2) c Suc.prems(3,5) by linarith
    then obtain cb where cb: "copy_into cbuf (p - addr) xs = Some cb" by (simp add: copy_into_def)
    have lcb: "length cb = end_addr - addr" using length_copy_into [OF cb] Suc.prems(5) by simp
    have pm: "mem_ptr (Suc mf) (env p) h m (of_nat p) MEM_READ = Some (Some (d_data d, off), h, m)"
      using mem_ptr_read [OF g(1-3)] True e32 by (simp add: off_def PGOFFSET_of_nat)
    have ce: "addr \<le> ce" "ce \<le> end_addr" "end_addr - ce < fuel" using c Suc.prems(3,6) True by linarith+
    from Suc.IH [OF Suc.prems(1,2) ce(1,2) lcb ce(3)] Suc.prems(7) c(2) obtain cb' where
      IH: "user_read_loop fuel (Suc mf) env h m addr end_addr ce cb = Some (0, cb', h, m)"
        "length cb' = end_addr - addr" "\<forall>k < ce - addr. cb' ! k = cb ! k"
        "\<forall>x. ce \<le> x \<and> x < end_addr \<longrightarrow> guest_byte h m (of_nat x) = Some (cb' ! (x - addr))" by auto
    have nth: "cb ! k = (if p - addr \<le> k \<and> k < p - addr + (ce - p) then bytes ! (off + (k - (p - addr))) else cbuf ! k)"
      if "k < end_addr - addr" for k
      using nth_copy_into [OF cb, of k] nth_copy_from [OF cf(1), of "k - (p - addr)"] that cf(2) Suc.prems(5) by auto
    have here: "guest_byte h m (of_nat x) = Some (cb' ! (x - addr))" if x: "p \<le> x" "x < ce" for x
    proof -
      have b: "p + (x - p) < 2 ^ 32" "p mod PAGE_SIZE + (x - p) < PAGE_SIZE" using x c e32 by linarith+
      have "guest_byte h m (of_nat (p + (x - p))) = Some (bytes ! (pe_offset e + p mod PAGE_SIZE + (x - p)))"
        by (rule guest_byte_in_page [OF g(1-4) b])
      moreover have "cb' ! (x - addr) = bytes ! (off + (x - p))"
        using IH(3) nth [of "x - addr"] x c Suc.prems(3) by auto
      ultimately show ?thesis using x by (simp add: off_def)
    qed
    have "user_read_loop (Suc fuel) (Suc mf) env h m addr end_addr p cbuf = Some (0, cb', h, m)"
      using True pm g(4) cf(1) cb IH(1) by (simp add: ce_def [symmetric] sub Let_def)
    moreover have "\<forall>k < p - addr. cb' ! k = cbuf ! k"
      using IH(3) nth c Suc.prems(3) by auto
    moreover have "\<forall>x. p \<le> x \<and> x < end_addr \<longrightarrow> guest_byte h m (of_nat x) = Some (cb' ! (x - addr))"
      using here IH(4) by (metis not_le)
    ultimately show ?thesis using IH(2) by blast
  qed
qed simp

section \<open>Properties\<close>

text \<open>
  C18. Reading guest memory into a kernel buffer, for a range of mapped pages that ends below the last
  page: the loop ends within one round per byte, touches nothing outside the buffer, changes nothing
  and fills the buffer with the guest's bytes, across any number of pages.
\<close>

theorem user_read_correct:
  assumes "space_ok h m Ro" "unat addr + length buf \<le> 2 ^ 32 - PAGE_SIZE" "length buf < fuel"
    and mapped: "\<forall>k < length buf. page_view m (PAGE (addr + of_nat k)) \<noteq> None"
  shows "\<exists>buf'. user_read_task fuel (Suc mf) env h m addr buf = Some (0, buf', h, m)
     \<and> length buf' = length buf
     \<and> (\<forall>k < length buf. guest_byte h m (addr + of_nat k) = Some (buf' ! k))"
proof -
  define a where "a = unat addr"
  have w: "of_nat x = addr + of_nat (x - a)" if "a \<le> x" for x
  proof -
    have "(of_nat x :: addr_t) = of_nat (a + (x - a))" using that by simp
    then show ?thesis by (simp add: a_def)
  qed
  have sz: "szadd a (length buf) = a + length buf"
    using assms(2) by (intro szadd_exact) (simp add: a_def size_max_def PAGE_SIZE_def)
  have m: "\<forall>x. a \<le> x \<and> x < a + length buf \<longrightarrow> page_view m (PAGE (of_nat x)) \<noteq> None"
  proof (intro allI impI)
    fix x assume x: "a \<le> x \<and> x < a + length buf"
    then have "x - a < length buf" by linarith
    with mapped show "page_view m (PAGE (of_nat x)) \<noteq> None"
      unfolding w [OF conjunct1 [OF x]] by blast
  qed
  from user_read_loop_ok [OF assms(1) assms(2) [folded a_def] order_refl _ _ _ m, of buf fuel mf env] assms(3)
  obtain buf' where r: "user_read_loop fuel (Suc mf) env h m a (a + length buf) a buf = Some (0, buf', h, m)"
      "length buf' = length buf"
      "\<forall>x. a \<le> x \<and> x < a + length buf \<longrightarrow> guest_byte h m (of_nat x) = Some (buf' ! (x - a))" by auto
  have "guest_byte h m (addr + of_nat k) = Some (buf' ! k)" if "k < length buf" for k
    using r(3) [rule_format, of "a + k"] w [of "a + k"] that by simp
  with r show ?thesis by (auto simp: user_read_task_def sz a_def [symmetric])
qed

theorem user_read_correct_witness:
  "\<exists>buf'. user_read_task 9 1 (\<lambda>_ _ s. s) ex_heap ex_mem 0x1ffc [0, 0] = Some (0, buf', ex_heap, ex_mem)
     \<and> guest_byte ex_heap ex_mem 0x1ffd = Some (buf' ! 1)"
proof -
  have pg: "PAGE 0x1ffc = 1" "PAGE 0x1ffd = 1"
    by (simp_all add: PAGE_def PAGE_BITS_def unat_drop_bit)
  have m: "\<forall>k < length [0 :: u8, 0]. page_view ex_mem (PAGE (0x1ffc + of_nat k)) \<noteq> None"
    using pg by (auto simp: ex_view less_Suc_eq)
  have "unat (0x1ffc :: addr_t) + length [0 :: u8, 0] \<le> 2 ^ 32 - PAGE_SIZE" "length [0 :: u8, 0] < 9"
    by (simp_all add: PAGE_SIZE_def)
  from user_read_correct [OF ex_space this m, of 0 "\<lambda>_ _ s. s"] show ?thesis
    by (fastforce simp: less_Suc_eq)
qed

text \<open>
In the last page of the address space the end of a chunk wraps to address zero and is not
  cut back to the end of the range: a read of fewer than 4096 bytes at 0xfffff000 copies the whole
  page and writes past the kernel's buffer (the undefined outcome of the model), whenever that page
  is mapped.
\<close>

theorem user_read_last_page_overflows:
  assumes "space_ok h m Ro" "page_view m 0xfffff \<noteq> None" "0 < length buf" "length buf < PAGE_SIZE"
  shows "user_read_task (Suc fuel) (Suc mf) env h m 0xfffff000 buf = None"
proof -
  have pg: "PAGE 0xfffff000 = 0xfffff" "PGOFFSET 0xfffff000 = 0"
    by (simp_all add: PAGE_def PAGE_BITS_def unat_drop_bit PGOFFSET_def)
  obtain e i d bytes where g: "page_view m (PAGE 0xfffff000) = Some e" "pe_data e = Some i" "h_datas h i = Some d"
        "h_host h (d_data d) = Some bytes" "pe_offset e + PAGE_SIZE \<le> length bytes"
    using mapped_page [OF assms(1), of "0xfffff000"] assms(2) unfolding pg(1) by blast
  have sz: "szadd 0xfffff000 (length buf) = 0xfffff000 + length buf"
    using assms(4) by (intro szadd_exact) (simp add: size_max_def PAGE_SIZE_def)
  have ce: "chunk_end 0xfffff000 (0xfffff000 + length buf) = 0" by (simp add: chunk_end_def PAGE_SIZE_def)
  have sub: "u32_sub 0 0xfffff000 = PAGE_SIZE" "u32_sub 0xfffff000 0xfffff000 = 0"
    by (simp_all add: u32_sub_def PAGE_SIZE_def)
  obtain xs where xs: "copy_from bytes (pe_offset e) PAGE_SIZE = Some xs" "length xs = PAGE_SIZE"
    using g(5) by (simp add: copy_from_def)
  have "copy_into buf 0 xs = None" using xs(2) assms(4) by (simp add: copy_into_def)
  moreover have "mem_ptr (Suc mf) (env 0xfffff000) h m 0xfffff000 MEM_READ = Some (Some (d_data d, pe_offset e), h, m)"
    using mem_ptr_read [OF g(1-3)] pg by simp
  ultimately show ?thesis
    using assms(3) g(4) xs(1) by (simp add: user_read_task_def sz ce sub)
qed

definition top_mem :: mem where
  "top_mem = mem_init\<lparr>m_pgdir := [1023 \<mapsto> (\<lambda>_. pt_empty)(1023 := ex_entry)], m_pgdir_used := 1\<rparr>"

lemma top_view: "page_view top_mem p = (if p = 0xfffff then Some ex_entry else None)"
proof -
  have "p div 1024 = 1023 \<and> p mod 1024 = 1023 \<longleftrightarrow> p = 0xfffff"
  proof
    assume "p div 1024 = 1023 \<and> p mod 1024 = 1023"
    then show "p = 0xfffff" using div_mult_mod_eq [of p 1024] by linarith
  qed simp
  then show ?thesis
    by (auto simp: page_view_def top_mem_def ex_entry_def mem_init_def pt_empty_def PGDIR_TOP_def
        PGDIR_BOTTOM_def MEM_PGDIR_SIZE_def)
qed

lemma top_space: "space_ok ex_heap top_mem (\<lambda>_. 0)"
proof -
  have "{p. p < MEM_PAGES \<and> refers top_mem i p} = (if i = 0 then {0xfffff} else {})" for i
    by (auto simp: refers_def top_view ex_entry_def MEM_PAGES_def)
  then have r: "refs top_mem i = (if i = 0 then 1 else 0)" for i by (simp add: refs_def)
  have "heap_ok ex_heap (\<lambda>i. refs top_mem i + 0) {}"
    by (rule heap_okI) (auto simp: r ex_heap_def data_ok_def split: if_splits)
  moreover have "mem_ok ex_heap top_mem" by (simp add: mem_ok_def top_view ex_entry_def ex_heap_def)
  ultimately show ?thesis by (simp add: space_ok_def)
qed

theorem user_read_last_page_overflows_witness:
  "user_read_task 1 1 (\<lambda>_ _ s. s) ex_heap top_mem 0xfffff000 [0] = None"
  using user_read_last_page_overflows [OF top_space, of "[0]" 0 0] by (simp add: top_view PAGE_SIZE_def)

end
