(* ===== verification/Tlb.thy ===== *)
theory Tlb
  imports User_Copy
begin

text \<open>
  The software TLB of \<^verbatim>\<open>emu/tlb.c\<close> and \<^verbatim>\<open>emu/tlb.h\<close>, which caches translations of the page table.
  The \<open>struct mmu\<close> it refers to is reached through function pointers: the definitions take the
  translation \<open>tr\<close>, the change counter \<open>ch\<close> and the current state \<open>s\<close> of the memory behind them.
  A host pointer is a pair of a mapping and an offset, and \<open>data_minus_addr\<close> keeps the offset minus
  the address as an integer. Each TLB remembers the identity of its \<open>mmu\<close> as a number.
\<close>

section \<open>Model\<close>

record tlb_entry =
  te_page :: u32
  te_page_if_writable :: u32
  te_data_minus_addr :: "nat \<times> int"

record tlb =
  t_mmu :: nat
  t_dirty_page :: u32
  t_mem_changes :: u32
  t_segfault_addr :: addr_t
  t_entries :: "nat \<Rightarrow> tlb_entry"

definition TLB_BITS :: nat where "TLB_BITS = 10"
definition TLB_SIZE :: nat where "TLB_SIZE = 2 ^ TLB_BITS"

definition TLB_INDEX :: "addr_t \<Rightarrow> nat" where
  "TLB_INDEX addr =
     unat ((drop_bit PAGE_BITS addr AND (of_nat TLB_SIZE - 1)) XOR drop_bit (PAGE_BITS + TLB_BITS) addr)"

definition TLB_PAGE :: "addr_t \<Rightarrow> u32" where "TLB_PAGE addr = addr AND 0xfffff000"
definition TLB_PAGE_EMPTY :: u32 where "TLB_PAGE_EMPTY = 1"

definition empty_entry :: tlb_entry where
  "empty_entry = \<lparr>te_page = 1, te_page_if_writable = 1, te_data_minus_addr = (0, 0)\<rparr>"

text \<open>\<open>mem_changes\<close> is an \<open>unsigned\<close>: the 64-bit counter is truncated when it is stored.\<close>

definition tlb_flush :: "('s \<Rightarrow> u64) \<Rightarrow> 's \<Rightarrow> tlb \<Rightarrow> tlb" where
  "tlb_flush ch s t = t\<lparr>t_mem_changes := ucast (ch s), t_entries := (\<lambda>_. empty_entry)\<rparr>"

definition tlb_refresh :: "('s \<Rightarrow> u64) \<Rightarrow> 's \<Rightarrow> nat \<Rightarrow> tlb \<Rightarrow> tlb" where
  "tlb_refresh ch s mmu t =
     (if t_mmu t = mmu \<and> ucast (t_mem_changes t) = ch s then t
      else tlb_flush ch s (t\<lparr>t_mmu := mmu, t_dirty_page := TLB_PAGE_EMPTY, t_mem_changes := ucast (ch s)\<rparr>))"

type_synonym 's translate = "'s \<Rightarrow> addr_t \<Rightarrow> mem_type \<Rightarrow> host_ptr option"

definition entry_ptr :: "tlb_entry \<Rightarrow> addr_t \<Rightarrow> host_ptr" where
  "entry_ptr e addr = (fst (te_data_minus_addr e), nat (snd (te_data_minus_addr e) + uint addr))"

definition tlb_handle_miss ::
  "'s translate \<Rightarrow> ('s \<Rightarrow> u64) \<Rightarrow> 's \<Rightarrow> tlb \<Rightarrow> addr_t \<Rightarrow> mem_type \<Rightarrow> host_ptr option \<times> tlb" where
  "tlb_handle_miss tr ch s t addr type =
     (let ptr = tr s (TLB_PAGE addr) type;
          t1 = (if ch s \<noteq> ucast (t_mem_changes t) then tlb_flush ch s t else t)
      in case ptr of
           None \<Rightarrow> (None, t1\<lparr>t_segfault_addr := addr\<rparr>)
         | Some (r, off) \<Rightarrow>
             let e = \<lparr>te_page = TLB_PAGE addr,
                      te_page_if_writable = (if type = MEM_WRITE then TLB_PAGE addr else TLB_PAGE_EMPTY),
                      te_data_minus_addr = (r, int off - uint (TLB_PAGE addr))\<rparr>
             in (Some (entry_ptr e addr),
                 t1\<lparr>t_dirty_page := TLB_PAGE addr,
                    t_entries := (t_entries t1)(TLB_INDEX addr := e)\<rparr>))"

definition tlb_read_ptr ::
  "'s translate \<Rightarrow> ('s \<Rightarrow> u64) \<Rightarrow> 's \<Rightarrow> tlb \<Rightarrow> addr_t \<Rightarrow> host_ptr option \<times> tlb" where
  "tlb_read_ptr tr ch s t addr =
     (let entry = t_entries t (TLB_INDEX addr) in
      if te_page entry = TLB_PAGE addr then (Some (entry_ptr entry addr), t)
      else tlb_handle_miss tr ch s t addr MEM_READ)"

definition tlb_write_ptr ::
  "'s translate \<Rightarrow> ('s \<Rightarrow> u64) \<Rightarrow> 's \<Rightarrow> tlb \<Rightarrow> addr_t \<Rightarrow> host_ptr option \<times> tlb" where
  "tlb_write_ptr tr ch s t addr =
     (let entry = t_entries t (TLB_INDEX addr) in
      if te_page_if_writable entry = TLB_PAGE addr
      then (Some (entry_ptr entry addr), t\<lparr>t_dirty_page := TLB_PAGE addr\<rparr>)
      else tlb_handle_miss tr ch s t addr MEM_WRITE)"

text \<open>
  The access functions find the pieces of host memory to copy from or to: one piece, or two for an
  access that crosses a page. The \<open>memcpy\<close> itself is \<open>copy_from\<close> or \<open>copy_into\<close> on those pieces.
\<close>

definition next_page_addr :: "addr_t \<Rightarrow> addr_t" where
  "next_page_addr addr = push_bit PAGE_BITS (drop_bit PAGE_BITS addr + 1)"

definition tlb_cross_page ::
  "(tlb \<Rightarrow> addr_t \<Rightarrow> host_ptr option \<times> tlb) \<Rightarrow> tlb \<Rightarrow> addr_t \<Rightarrow> nat \<Rightarrow> (host_ptr \<times> nat) list option \<times> tlb" where
  "tlb_cross_page get t addr n =
     (case get t addr of
        (None, t1) \<Rightarrow> (None, t1)
      | (Some p1, t1) \<Rightarrow>
          (case get t1 (next_page_addr addr) of
             (None, t2) \<Rightarrow> (None, t2)
           | (Some p2, t2) \<Rightarrow>
               let part1 = PAGE_SIZE - PGOFFSET addr
               in (Some [(p1, part1), (p2, n - part1)], t2)))"

definition tlb_access ::
  "(tlb \<Rightarrow> addr_t \<Rightarrow> host_ptr option \<times> tlb) \<Rightarrow> tlb \<Rightarrow> addr_t \<Rightarrow> nat \<Rightarrow> (host_ptr \<times> nat) list option \<times> tlb" where
  "tlb_access get t addr n =
     (if PGOFFSET addr > u32_sub PAGE_SIZE n then tlb_cross_page get t addr n
      else case get t addr of
             (None, t1) \<Rightarrow> (None, t1)
           | (Some p, t1) \<Rightarrow> (Some [(p, n)], t1))"

definition tlb_read ::
  "'s translate \<Rightarrow> ('s \<Rightarrow> u64) \<Rightarrow> 's \<Rightarrow> tlb \<Rightarrow> addr_t \<Rightarrow> nat \<Rightarrow> (host_ptr \<times> nat) list option \<times> tlb" where
  "tlb_read tr ch s t addr n = tlb_access (tlb_read_ptr tr ch s) t addr n"

definition tlb_write ::
  "'s translate \<Rightarrow> ('s \<Rightarrow> u64) \<Rightarrow> 's \<Rightarrow> tlb \<Rightarrow> addr_t \<Rightarrow> nat \<Rightarrow> (host_ptr \<times> nat) list option \<times> tlb" where
  "tlb_write tr ch s t addr n = tlb_access (tlb_write_ptr tr ch s) t addr n"

text \<open>The page table as the memory behind a TLB.\<close>

definition mem_mmu_translate :: "(kheap \<times> mem) translate" where
  "mem_mmu_translate s a type = Option.bind (mem_ptr_nofault (fst s) (snd s) a type) (\<lambda>p. p)"

definition mmu_changes :: "kheap \<times> mem \<Rightarrow> u64" where
  "mmu_changes s = m_changes (snd s)"

section \<open>Index arithmetic\<close>

lemma TLB_INDEX_lt: "TLB_INDEX addr < TLB_SIZE"
proof -
  let ?x = "drop_bit PAGE_BITS addr AND (of_nat TLB_SIZE - 1)" and ?y = "drop_bit (PAGE_BITS + TLB_BITS) addr"
  have "?x = take_bit 10 (drop_bit PAGE_BITS addr)"
    by (simp add: TLB_SIZE_def TLB_BITS_def take_bit_eq_mask mask_eq_exp_minus_1)
  moreover have "?y = take_bit 10 ?y"
    by (rule bit_word_eqI) (auto simp: bit_simps PAGE_BITS_def TLB_BITS_def dest: bit_imp_le_length)
  ultimately have "?x XOR ?y = take_bit 10 (drop_bit PAGE_BITS addr XOR ?y)"
    by (metis take_bit_xor)
  then have "TLB_INDEX addr = unat (drop_bit PAGE_BITS addr XOR ?y) mod 2 ^ 10"
    by (simp only: TLB_INDEX_def unat_take_bit)
  then show ?thesis by (simp add: TLB_SIZE_def TLB_BITS_def)
qed

lemma TLB_PAGE_push: "TLB_PAGE a = push_bit 12 (drop_bit 12 a)"
proof -
  have m: "(0xfffff000 :: u32) = NOT (mask 12)" by (simp add: mask_eq_exp_minus_1)
  show ?thesis unfolding TLB_PAGE_def m by (rule bit_word_eqI) (auto simp: bit_simps)
qed

lemma TLB_PAGE_unat: "unat (TLB_PAGE a) = PAGE a * PAGE_SIZE"
proof -
  have "PAGE a * PAGE_SIZE \<le> unat a" by (simp add: PAGE_def PAGE_BITS_def PAGE_SIZE_def unat_drop_bit)
  then have "PAGE a * PAGE_SIZE < 2 ^ 32" using unat_lt [of a] by simp
  then show ?thesis
    by (simp add: TLB_PAGE_push unat_push_bit) (simp add: PAGE_def PAGE_BITS_def PAGE_SIZE_def)
qed

lemma unat_addr: "unat a = unat (TLB_PAGE a) + PGOFFSET a"
  by (simp add: TLB_PAGE_unat PAGE_def PAGE_BITS_def PGOFFSET_mod PAGE_SIZE_def unat_drop_bit)

lemma TLB_PAGE_PAGE: "PAGE (TLB_PAGE a) = PAGE a" "PGOFFSET (TLB_PAGE a) = 0"
  by (simp_all add: PAGE_def PAGE_BITS_def PGOFFSET_mod unat_drop_bit TLB_PAGE_unat)
     (simp_all add: PAGE_SIZE_def PAGE_def PAGE_BITS_def unat_drop_bit)

lemma TLB_PAGE_eq: "TLB_PAGE a = TLB_PAGE b \<longleftrightarrow> PAGE a = PAGE b"
  by (metis TLB_PAGE_PAGE(1) TLB_PAGE_unat unsigned_word_eqI)

text \<open>The number 1 of an empty entry is not the address of a page.\<close>

lemma TLB_PAGE_not_empty: "TLB_PAGE a \<noteq> 1"
proof
  assume "TLB_PAGE a = 1"
  then have "PGOFFSET 1 = 0" using TLB_PAGE_PAGE(2) [of a] by simp
  then show False by (simp add: PGOFFSET_def)
qed

section \<open>Runs of a TLB\<close>

text \<open>
  The life of a TLB for one \<open>mmu\<close>: it is first refreshed when it comes from another \<open>mmu\<close>; after
  that the memory changes, the TLB is refreshed, and the processor reads and writes through it. The
  processor holds the memory's lock while it runs and refreshes when it starts, so an access happens
  only while the counter in the TLB is current. A step of the memory is labelled with the set of
  pages it changes without announcing it by the counter; the run collects those pages in \<open>D\<close> until
  the counter moves and every TLB is flushed at its next refresh.
\<close>

inductive tlb_run ::
  "'s translate \<Rightarrow> ('s \<Rightarrow> u64) \<Rightarrow> ('s \<Rightarrow> nat set \<Rightarrow> 's \<Rightarrow> bool) \<Rightarrow> nat \<Rightarrow> nat set \<Rightarrow> 's \<Rightarrow> tlb \<Rightarrow> bool"
  for tr ch step mmu where
  run_attach: "t_mmu t \<noteq> mmu \<Longrightarrow> tlb_run tr ch step mmu {} s (tlb_refresh ch s mmu t)"
| run_memory: "tlb_run tr ch step mmu D s t \<Longrightarrow> step s X s' \<Longrightarrow>
     tlb_run tr ch step mmu (if ch s' = ch s then D \<union> X else {}) s' t"
| run_refresh: "tlb_run tr ch step mmu D s t \<Longrightarrow> tlb_run tr ch step mmu D s (tlb_refresh ch s mmu t)"
| run_read: "tlb_run tr ch step mmu D s t \<Longrightarrow> ucast (t_mem_changes t) = ch s \<Longrightarrow>
     tlb_run tr ch step mmu D s (snd (tlb_read_ptr tr ch s t a))"
| run_write: "tlb_run tr ch step mmu D s t \<Longrightarrow> ucast (t_mem_changes t) = ch s \<Longrightarrow>
     tlb_run tr ch step mmu D s (snd (tlb_write_ptr tr ch s t a))"

section \<open>The memory behind a TLB\<close>

text \<open>
  What the TLB relies on: while the change counter stands still a translation that succeeded stays
  as it is, except on the pages the step is labelled with, the counter never goes back, a translation is determined page by page, and a page that
  may be written may be read at the same place.
\<close>

locale translation =
  fixes tr :: "'s translate"
    and ch :: "'s \<Rightarrow> u64"
    and step :: "'s \<Rightarrow> nat set \<Rightarrow> 's \<Rightarrow> bool"
  assumes stable: "step s X s' \<Longrightarrow> ch s' = ch s \<Longrightarrow> PAGE a \<notin> X \<Longrightarrow> tr s a ty = Some p \<Longrightarrow> tr s' a ty = Some p"
    and counter: "step s X s' \<Longrightarrow> ch s \<le> ch s'"
    and paged: "tr s (TLB_PAGE a) ty = map_option (\<lambda>(r, off). (r, off - PGOFFSET a)) (tr s a ty)"
    and offset: "tr s a ty = Some (r, off) \<Longrightarrow> PGOFFSET a \<le> off"
    and writable: "tr s a MEM_WRITE = Some p \<Longrightarrow> tr s a MEM_READ = Some p"
begin

text \<open>Every cached entry for a page outside \<open>D\<close> agrees with the memory, while the counter is the one it was
  cached under.\<close>

definition entries_ok :: "nat set \<Rightarrow> 's \<Rightarrow> tlb \<Rightarrow> bool" where
  "entries_ok D s t \<longleftrightarrow> (\<forall>a. PAGE a \<notin> D \<longrightarrow> (let e = t_entries t (TLB_INDEX a) in
      (te_page e = TLB_PAGE a \<longrightarrow> tr s a MEM_READ = Some (entry_ptr e a))
    \<and> (te_page_if_writable e = TLB_PAGE a \<longrightarrow> tr s a MEM_WRITE = Some (entry_ptr e a))))"

definition coherent :: "nat set \<Rightarrow> 's \<Rightarrow> tlb \<Rightarrow> bool" where
  "coherent D s t \<longleftrightarrow> unat (t_mem_changes t) \<le> unat (ch s)
     \<and> (unat (t_mem_changes t) = unat (ch s) \<longrightarrow> entries_ok D s t)"

lemma entries_ok_empty: "entries_ok D s (t\<lparr>t_entries := (\<lambda>_. empty_entry)\<rparr>)"
  by (simp add: entries_ok_def empty_entry_def TLB_PAGE_not_empty [symmetric])

lemma flush_coherent: "coherent D s (tlb_flush ch s t)"
  by (auto simp: coherent_def tlb_flush_def unat_ucast entries_ok_empty)

lemma same_counter: "ucast (t_mem_changes t) = ch s \<longleftrightarrow> unat (t_mem_changes t) = unat (ch s)"
proof -
  have "unat (ucast (t_mem_changes t) :: u64) = unat (t_mem_changes t)"
    using unat_lt [of "t_mem_changes t"] by (simp add: unat_ucast)
  then show ?thesis by (metis unsigned_word_eqI)
qed

text \<open>Changes of the memory keep the TLB coherent: either the counter moved, or nothing cached moved.\<close>

lemma step_coherent:
  "step s X s' \<Longrightarrow> coherent D s t \<Longrightarrow> coherent (if ch s' = ch s then D \<union> X else {}) s' t"
proof -
  assume st: "step s X s'" and co: "coherent D s t"
  have le: "unat (ch s) \<le> unat (ch s')" using counter [OF st] by (simp add: word_le_nat_alt)
  show ?thesis
  proof (cases "ch s' = ch s")
    case True
    have "entries_ok (D \<union> X) s' t" if "entries_ok D s t"
      using that stable [OF st True] unfolding entries_ok_def Let_def by (metis Un_iff)
    then show ?thesis using co True by (simp add: coherent_def)
  next
    case False
    then have "unat (ch s) < unat (ch s')" using le by (metis le_neq_implies_less unsigned_word_eqI)
    then show ?thesis using co by (auto simp: coherent_def)
  qed
qed

lemma refresh_coherent: "t_mmu t = mmu \<Longrightarrow> coherent D s t \<Longrightarrow> coherent D s (tlb_refresh ch s mmu t)"
  by (auto simp: tlb_refresh_def flush_coherent)

text \<open>A refreshed TLB is current: its entries agree with the memory.\<close>

lemma refresh_current:
  "(t_mmu t = mmu \<Longrightarrow> coherent D s t) \<Longrightarrow> entries_ok D s (tlb_refresh ch s mmu t)"
  by (auto simp: tlb_refresh_def coherent_def same_counter tlb_flush_def entries_ok_empty)

text \<open>Filling an entry after a miss.\<close>

lemma entry_ptr_new:
  "tr s (TLB_PAGE addr) ty = Some (r, off) \<Longrightarrow> TLB_PAGE a = TLB_PAGE addr \<Longrightarrow>
     tr s a ty = Some (r, nat (int off - uint (TLB_PAGE addr) + uint a))"
proof -
  assume t: "tr s (TLB_PAGE addr) ty = Some (r, off)" and pg: "TLB_PAGE a = TLB_PAGE addr"
  then obtain off' where o: "tr s a ty = Some (r, off')" "off = off' - PGOFFSET a"
    using paged [of s a ty] by (cases "tr s a ty") auto
  have u: "uint x = int (unat x)" for x :: addr_t by simp
  have "PGOFFSET a \<le> off'" using offset [OF o(1)] .
  then have "int off - uint (TLB_PAGE addr) + uint a = int off'"
    unfolding u pg [symmetric] unat_addr [of a] o(2) by (simp only: of_nat_diff of_nat_add)
  with o(1) show ?thesis by (simp only: nat_int)
qed

lemma miss_ok:
  assumes "unat (t_mem_changes t) = unat (ch s) \<longrightarrow> entries_ok D s t" "ty = MEM_READ \<or> ty = MEM_WRITE"
  shows "fst (tlb_handle_miss tr ch s t addr ty) = tr s addr ty"
    "entries_ok D s (snd (tlb_handle_miss tr ch s t addr ty))"
proof -
  define t1 where "t1 = (if ch s \<noteq> ucast (t_mem_changes t) then tlb_flush ch s t else t)"
  have ok1: "entries_ok D s t1"
    using assms(1) same_counter [of t s] by (auto simp: t1_def tlb_flush_def entries_ok_empty)
  show "fst (tlb_handle_miss tr ch s t addr ty) = tr s addr ty"
  proof (cases "tr s (TLB_PAGE addr) ty")
    case None
    then have "tr s addr ty = None" using paged [of s addr ty] by simp
    with None show ?thesis by (simp add: tlb_handle_miss_def Let_def)
  next
    case (Some p)
    obtain r off where p: "p = (r, off)" by (cases p)
    from entry_ptr_new [OF Some [unfolded p] refl] Some p show ?thesis
      by (simp add: tlb_handle_miss_def Let_def entry_ptr_def)
  qed
  show "entries_ok D s (snd (tlb_handle_miss tr ch s t addr ty))"
  proof (cases "tr s (TLB_PAGE addr) ty")
    case None
    then show ?thesis using ok1 by (simp add: tlb_handle_miss_def Let_def t1_def [symmetric] entries_ok_def)
  next
    case (Some p)
    obtain r off where p: "p = (r, off)" by (cases p)
    have rd: "tr s a MEM_READ = Some (r, nat (int off - uint (TLB_PAGE addr) + uint a))"
      if "TLB_PAGE a = TLB_PAGE addr" for a
      using entry_ptr_new [of s addr ty r off a] Some p that assms(2) writable by auto
    have wr: "tr s a MEM_WRITE = Some (r, nat (int off - uint (TLB_PAGE addr) + uint a))"
      if "TLB_PAGE a = TLB_PAGE addr" "ty = MEM_WRITE" for a
      using entry_ptr_new [of s addr ty r off a] Some p that by simp
    show ?thesis
      using ok1 rd wr Some p TLB_PAGE_not_empty
      by (auto simp: tlb_handle_miss_def Let_def t1_def [symmetric] entries_ok_def entry_ptr_def TLB_PAGE_EMPTY_def)
  qed
qed

lemma read_ptr_ok:
  assumes "entries_ok D s t"
  shows "PAGE addr \<notin> D \<Longrightarrow> fst (tlb_read_ptr tr ch s t addr) = tr s addr MEM_READ"
    "entries_ok D s (snd (tlb_read_ptr tr ch s t addr))"
  using assms miss_ok [of t s D MEM_READ addr]
  by (auto simp: tlb_read_ptr_def Let_def entries_ok_def)

lemma write_ptr_ok:
  assumes "entries_ok D s t"
  shows "PAGE addr \<notin> D \<Longrightarrow> fst (tlb_write_ptr tr ch s t addr) = tr s addr MEM_WRITE"
    "entries_ok D s (snd (tlb_write_ptr tr ch s t addr))"
  using assms miss_ok [of t s D MEM_WRITE addr]
  by (auto simp: tlb_write_ptr_def Let_def entries_ok_def)

lemma miss_counter:
  "ucast (t_mem_changes t) = ch s \<Longrightarrow> t_mem_changes (snd (tlb_handle_miss tr ch s t addr ty)) = t_mem_changes t"
  by (auto simp: tlb_handle_miss_def Let_def split: option.splits prod.splits)

lemma run_coherent: "tlb_run tr ch step mmu D s t \<Longrightarrow> coherent D s t"
proof (induction rule: tlb_run.induct)
  case (run_attach t s)
  then show ?case by (simp add: tlb_refresh_def flush_coherent)
next
  case (run_memory D s t X s')
  then show ?case using step_coherent by blast
next
  case (run_refresh D s t)
  then show ?case by (auto simp: tlb_refresh_def flush_coherent)
next
  case (run_read D s t a)
  then have "entries_ok D s t" by (simp add: coherent_def same_counter)
  with read_ptr_ok(2) [OF this, of a] run_read.IH miss_counter [OF run_read.hyps(2), of a MEM_READ] show ?case
    by (simp add: coherent_def tlb_read_ptr_def Let_def)
next
  case (run_write D s t a)
  then have "entries_ok D s t" by (simp add: coherent_def same_counter)
  with write_ptr_ok(2) [OF this, of a] run_write.IH miss_counter [OF run_write.hyps(2), of a MEM_WRITE] show ?case
    by (simp add: coherent_def tlb_write_ptr_def Let_def)
qed

lemma run_exact:
  assumes "tlb_run tr ch step mmu D s t" "PAGE a \<notin> D"
  shows "fst (tlb_read_ptr tr ch s (tlb_refresh ch s mmu t) a) = tr s a MEM_READ"
    and "fst (tlb_write_ptr tr ch s (tlb_refresh ch s mmu t) a) = tr s a MEM_WRITE"
  using read_ptr_ok(1) [OF _ assms(2)] write_ptr_ok(1) [OF _ assms(2)] refresh_current [of t mmu D s]
    run_coherent [OF assms(1)] by blast+

end

section \<open>The page table as translation\<close>

text \<open>
  The changes an address space undergoes: its own mapping operations, each from a state that
  satisfies the invariant, and changes of the shared heap by other address spaces, which keep what
  this one refers to. The 64-bit counter does not overflow. A protection change that fails half way,
  because the host refuses its \<open>mprotect\<close>, has replaced the flags of some pages and returns without
  \<open>mem_changed\<close>: its step is labelled with the pages whose entries are no longer what they were.
  Every other step announces what it changes, or changes nothing that is mapped.
\<close>

inductive mem_step :: "kheap \<times> mem \<Rightarrow> nat set \<Rightarrow> kheap \<times> mem \<Rightarrow> bool" where
  step_map: "space_ok h m Ro \<Longrightarrow> room Ro \<Longrightarrow> start + pages \<le> MEM_PAGES \<Longrightarrow> 0 < pages \<Longrightarrow> pages < MEM_PAGES \<Longrightarrow>
     h_malloc_ok h (h_next h) \<Longrightarrow> unowned h region (pages * PAGE_SIZE + off) \<Longrightarrow>
     unat (m_changes m) < 2 ^ 63 \<Longrightarrow>
     pt_map h m start pages (Inr region) off flags = Some (Inr (), h', m') \<Longrightarrow> mem_step (h, m) {} (h', m')"
| step_unmap: "space_ok h m Ro \<Longrightarrow> room Ro \<Longrightarrow> start + pages \<le> MEM_PAGES \<Longrightarrow> unat (m_changes m) < 2 ^ 63 \<Longrightarrow>
     pt_unmap_always h m start pages = Some (rc, h', m') \<Longrightarrow> mem_step (h, m) {} (h', m')"
| step_protect: "unat (m_changes m) < 2 ^ 63 \<Longrightarrow>
     pt_set_flags mprotect m start pages flags = Some (Inr (), m') \<Longrightarrow> mem_step (h, m) {} (h, m')"
| step_protect_fails: "pt_set_flags mprotect m start pages flags = Some (Inl e, m') \<Longrightarrow>
     mem_step (h, m) {p. page_view m' p \<noteq> page_view m p} (h, m')"
| step_fork: "unat (m_changes m) < 2 ^ 63 \<Longrightarrow>
     pt_copy_on_write h m dst 0 MEM_PAGES = Some (rc, h', m', dst') \<Longrightarrow> mem_step (h, m) {} (h', m')"
| step_other: "mem_ok h m \<Longrightarrow> (\<And>i. 0 < refs m i \<Longrightarrow> keeps h h' i) \<Longrightarrow> mem_step (h, m) {} (h', m)"

lemma cow_page_changes: "cow_page h src dst p = Some (h', src', dst') \<Longrightarrow> m_changes src' = m_changes src"
  by (auto simp: cow_page_def Let_def bind_eq_Some_conv split: option.splits)

lemma cow_loop_changes: "cow_loop h src dst p e = Some (h', src', dst') \<Longrightarrow> m_changes src' = m_changes src"
proof (induction h src dst p e rule: cow_loop.induct)
  case (1 h src dst page e)
  show ?case
  proof (cases "page < e")
    case True
    with "1.prems" obtain h1 s1 d1 where
      c: "cow_page h src dst page = Some (h1, s1, d1)" "cow_loop h1 s1 d1 (mem_next_page s1 page) e = Some (h', src', dst')"
      by (subst (asm) cow_loop.simps) (auto simp: bind_eq_Some_conv)
    show ?thesis using "1.IH" [OF True c(1) refl refl c(2)] cow_page_changes [OF c(1)] by simp
  next
    case False
    with "1.prems" show ?thesis by (subst (asm) cow_loop.simps) simp
  qed
qed

lemma set_flags_changes: "set_flags_pages mp m flags ps = Some (r, m') \<Longrightarrow> m_changes m' = m_changes m"
  by (induction ps arbitrary: m) (auto simp: bind_eq_Some_conv Let_def split: option.splits if_splits)

text \<open>A protection change that fails keeps the counter, and touches no page outside its range.\<close>

lemma set_flags_views:
  "set_flags_pages mp m flags ps = Some (r, m') \<Longrightarrow> q \<notin> set ps \<Longrightarrow> page_view m' q = page_view m q"
proof (induction ps arbitrary: m)
  case (Cons p ps)
  from Cons.prems(1) obtain entry where e: "mem_pt m p = Some (Some entry)"
    by (auto simp: bind_eq_Some_conv)
  then have v: "page_view m p = Some entry" by (simp add: mem_pt_view split: if_splits)
  let ?m = "mem_pt_store m p (entry\<lparr>pe_flags := flags\<rparr>)"
  have q: "page_view ?m q = page_view m q"
    using view_mem_pt_store [OF v] page_view_data [OF v] Cons.prems(2) by simp
  from Cons.prems(1) e consider "m' = ?m" | "set_flags_pages mp ?m flags ps = Some (r, m')"
    by (auto simp: Let_def split: option.splits if_splits)
  then show ?case using q Cons.IH Cons.prems(2) by cases auto
qed simp

lemma not_done: "r \<noteq> Inr () \<longleftrightarrow> (\<exists>e. r = Inl e)"
  by (cases r) auto

lemma set_flags_fails:
  assumes "pt_set_flags mp m start pages flags = Some (Inl e, m')"
  shows "m_changes m' = m_changes m"
    "page_view m' q \<noteq> page_view m q \<Longrightarrow> start \<le> q \<and> q < range_end start pages"
proof -
  have c: "m' = m \<or> set_flags_pages mp m flags [start..<range_end start pages] = Some (Inl e, m')"
    using assms by (auto simp: pt_set_flags_def bind_eq_Some_conv not_done split: if_splits sum.splits)
  then show "m_changes m' = m_changes m" using set_flags_changes by blast
  show "start \<le> q \<and> q < range_end start pages" if "page_view m' q \<noteq> page_view m q"
    using c that set_flags_views [of mp m flags "[start..<range_end start pages]" "Inl e" m' q] by auto
qed

lemma word_plus_count:
  fixes c :: u64
  assumes "unat c < 2 ^ 63" "n \<le> 2 ^ 20"
  shows "unat (c + of_nat n) = unat c + n"
  using assms by (simp add: unat_word_ariths unsigned_of_nat take_bit_eq_mod)

lemma translate_view:
  "mem_mmu_translate (h, m) a ty = (case page_view m (PAGE a) of
     None \<Rightarrow> None
   | Some e \<Rightarrow> if ty = MEM_WRITE \<and> \<not> P_WRITABLE (pe_flags e) then None
               else do { i \<leftarrow> pe_data e; d \<leftarrow> h_datas h i; Some (d_data d, pe_offset e + PGOFFSET a) })"
  by (auto simp: mem_mmu_translate_def mem_ptr_nofault_def mem_pt_view bind_eq_None_conv split: option.splits)

lemma translate_kept:
  assumes "mem_mmu_translate (h, m) a ty = Some p" "page_view m' (PAGE a) = page_view m (PAGE a)"
    "\<And>i. refers m' i (PAGE a) \<Longrightarrow> keeps h h' i"
  shows "mem_mmu_translate (h', m') a ty = Some p"
proof -
  obtain e i d where e: "page_view m (PAGE a) = Some e" "pe_data e = Some i" "h_datas h i = Some d"
    using assms(1) unfolding translate_view by (auto split: option.splits if_splits simp: bind_eq_Some_conv)
  then have "keeps h h' i" using assms(2,3) by (simp add: refers_def)
  with e assms(1,2) show ?thesis
    unfolding translate_view keeps_def by (auto split: if_splits)
qed

lemma mem_step_law:
  "mem_step s X s' \<Longrightarrow> mmu_changes s \<le> mmu_changes s'
     \<and> (mmu_changes s' = mmu_changes s \<longrightarrow> PAGE a \<notin> X \<longrightarrow> mem_mmu_translate s a ty = Some p \<longrightarrow> mem_mmu_translate s' a ty = Some p)"
proof (induction rule: mem_step.induct)
  case (step_map h m Ro start pages region off flags h' m')
  from pt_map_space [OF step_map(1-7), of flags] step_map(9) have
    v: "\<forall>q. page_view m' q = (if start \<le> q \<and> q < start + pages
          then Some (new_entry (h_next h) start off flags q) else page_view m q)"
    and k: "\<forall>i. 0 < refs m' i + Ro i \<longrightarrow> keeps h h' i"
    and c: "m_changes m' = m_changes m + of_nat (replaced m [start..<start + pages])" by auto
  have n: "replaced m [start..<start + pages] \<le> 2 ^ 20"
    using length_filter_le [of _ "[start..<start + pages]"] step_map(5)
    unfolding replaced_def MEM_PAGES_def by (metis diff_add_inverse le_trans length_upt less_imp_le)
  note u = word_plus_count [OF step_map(8) n, folded c]
  have "mem_mmu_translate (h', m') a ty = Some p"
    if eq: "m_changes m' = m_changes m" and t: "mem_mmu_translate (h, m) a ty = Some p"
  proof (rule translate_kept [OF t])
    have "replaced m [start..<start + pages] = 0" using u eq by simp
    then have "page_view m q = None" if "start \<le> q" "q < start + pages" for q
      using that by (auto simp: replaced_def filter_empty_conv)
    moreover have "page_view m (PAGE a) \<noteq> None" using t by (auto simp: translate_view split: option.splits)
    ultimately show "page_view m' (PAGE a) = page_view m (PAGE a)" using v by auto
    show "keeps h h' i" if "refers m' i (PAGE a)" for i using k refs_pos [OF PAGE_lt that] by simp
  qed
  then show ?case using u by (simp add: mmu_changes_def word_le_nat_alt)
next
  case (step_unmap h m Ro start pages rc h' m')
  from unmap_always_space [OF step_unmap(1-3)] step_unmap(5) have c: "m_changes m' = m_changes m + 1" by auto
  have "unat (m_changes m') = unat (m_changes m) + 1"
    using word_plus_count [OF step_unmap(4), of 1] c by simp
  then show ?case using c by (auto simp: mmu_changes_def word_le_nat_alt)
next
  case (step_protect m mprotect start pages flags m' h)
  then have c: "m_changes m' = m_changes m + 1"
    by (auto simp: pt_set_flags_def bind_eq_Some_conv mem_changed_def not_done dest!: set_flags_changes split: if_splits sum.splits)
  have "unat (m_changes m') = unat (m_changes m) + 1"
    using word_plus_count [OF step_protect(1), of 1] c by simp
  then show ?case using c by (auto simp: mmu_changes_def word_le_nat_alt)
next
  case (step_protect_fails mprotect m start pages flags e m' h)
  then have "m_changes m' = m_changes m" by (rule set_flags_fails(1))
  then show ?case using translate_kept [of h m a ty p m' h] by (auto simp: mmu_changes_def keeps_def)
next
  case (step_fork m h dst rc h' m' dst')
  then have c: "m_changes m' = m_changes m + 1"
    by (auto simp: pt_copy_on_write_def bind_eq_Some_conv mem_changed_def dest!: cow_loop_changes)
  have "unat (m_changes m') = unat (m_changes m) + 1"
    using word_plus_count [OF step_fork(1), of 1] c by simp
  then show ?case using c by (auto simp: mmu_changes_def word_le_nat_alt)
next
  case (step_other h m h')
  then show ?case using translate_kept [of h m a ty p m h'] refs_pos [OF PAGE_lt [of a]]
    by (auto simp: mmu_changes_def)
qed

interpretation page_table: translation mem_mmu_translate mmu_changes mem_step
proof
  fix s X s' a ty p
  assume "mem_step s X s'" "mmu_changes s' = mmu_changes s" "PAGE a \<notin> X" "mem_mmu_translate s a ty = Some p"
  then show "mem_mmu_translate s' a ty = Some p" using mem_step_law by blast
next
  fix s X s' assume "mem_step s X s'" then show "mmu_changes s \<le> mmu_changes s'" using mem_step_law by blast
next
  fix s :: "kheap \<times> mem" and a ty
  obtain h :: kheap and m :: mem where s: "s = (h, m)" by (cases s)
  show "mem_mmu_translate s (TLB_PAGE a) ty = map_option (\<lambda>(r, off). (r, off - PGOFFSET a)) (mem_mmu_translate s a ty)"
    unfolding s translate_view TLB_PAGE_PAGE
    by (cases "page_view m (PAGE a)"; cases "pe_data (the (page_view m (PAGE a)))";
        cases "h_datas h (the (pe_data (the (page_view m (PAGE a)))))") auto
next
  fix s a ty r off
  assume "mem_mmu_translate s a ty = Some (r, off)"
  then show "PGOFFSET a \<le> off"
    by (cases s) (auto simp: translate_view bind_eq_Some_conv split: option.splits if_splits)
next
  fix s a p
  assume "mem_mmu_translate s a MEM_WRITE = Some p"
  then show "mem_mmu_translate s a MEM_READ = Some p"
    by (cases s) (auto simp: translate_view split: option.splits if_splits)
qed

section \<open>Properties\<close>

text \<open>
  C1. The TLB serves no stale translation: in every run, however mapping, unmapping, protection
  changes, forks and the doings of other address spaces interleave with the accesses of a processor
  whose TLB is current, a refreshed TLB answers a read or a write of an address exactly as the page
  table does at that moment, faults included, although it keeps only the low 32 bits of the change
  counter. The one exception is a page in \<open>D\<close>, whose flags were replaced by a protection change that
  failed half way since the counter last moved; \<open>D\<close> is empty in a run without such a failure. The
  64-bit counter is taken not to overflow.
\<close>

theorem tlb_exact:
  assumes "tlb_run mem_mmu_translate mmu_changes mem_step mmu D s t" "PAGE a \<notin> D"
  shows "fst (tlb_read_ptr mem_mmu_translate mmu_changes s (tlb_refresh mmu_changes s mmu t) a)
           = mem_mmu_translate s a MEM_READ
       \<and> fst (tlb_write_ptr mem_mmu_translate mmu_changes s (tlb_refresh mmu_changes s mmu t) a)
           = mem_mmu_translate s a MEM_WRITE"
  using page_table.run_exact [OF assms] by blast

definition ex_tlb :: tlb where
  "ex_tlb = \<lparr>t_mmu = 0, t_dirty_page = 0, t_mem_changes = 0, t_segfault_addr = 0, t_entries = (\<lambda>_. empty_entry)\<rparr>"

theorem tlb_exact_witness:
  "fst (tlb_read_ptr mem_mmu_translate mmu_changes (ex_heap, ex_mem)
     (tlb_refresh mmu_changes (ex_heap, ex_mem) 1 (tlb_refresh mmu_changes (ex_heap, ex_mem) 1 ex_tlb)) 0x1234)
   = Some (1, 0x234)"
proof -
  have run: "tlb_run mem_mmu_translate mmu_changes mem_step 1 {} (ex_heap, ex_mem)
      (tlb_refresh mmu_changes (ex_heap, ex_mem) 1 ex_tlb)"
    by (rule run_attach) (simp add: ex_tlb_def)
  have "mem_mmu_translate (ex_heap, ex_mem) 0x1234 MEM_READ = Some (1, 0x234)"
    by (simp add: translate_view ex_view ex_entry_def ex_heap_def PAGE_def PAGE_BITS_def unat_drop_bit PGOFFSET_def)
  with tlb_exact [OF run, of "0x1234", simplified] show ?thesis by simp
qed

text \<open>
  The exception is real: after a failed protection change that took the write permission of a page,
  a TLB that has the page cached for writing still hands out its memory, although refreshed.
\<close>

lemma failed_mprotect_leaves_tlb_stale:
  assumes "pt_set_flags mp m start pages flags = Some (Inl e, m')"
    "t_mmu t = mmu" "ucast (t_mem_changes t) = m_changes m"
    "te_page_if_writable (t_entries t (TLB_INDEX a)) = TLB_PAGE a"
    "page_view m' (PAGE a) = Some en" "\<not> P_WRITABLE (pe_flags en)"
  shows "mem_mmu_translate (h, m') a MEM_WRITE = None"
    "fst (tlb_write_ptr mem_mmu_translate mmu_changes (h, m') (tlb_refresh mmu_changes (h, m') mmu t) a)
       = Some (entry_ptr (t_entries t (TLB_INDEX a)) a)"
  using assms set_flags_fails(1) [OF assms(1)]
  by (simp_all add: translate_view tlb_refresh_def mmu_changes_def tlb_write_ptr_def Let_def)

text \<open>
Every address indexes an entry inside the table, for all 2^32 addresses.
\<close>

theorem tlb_index_in_table: "TLB_INDEX addr < 1024"
  using TLB_INDEX_lt [of addr] by (simp add: TLB_SIZE_def TLB_BITS_def)

end
