(* ===== verification/File_Lock.thy ===== *)
theory File_Lock
  imports Ish_Prelude "HOL-Library.Monad_Syntax"
begin

text \<open>
  POSIX record locks, \<^verbatim>\<open>fs/lock.c\<close>. The list of locks of an inode is a list in the order of the C
  list; the owner (a \<open>struct fdtable\<close> pointer) is a number, and \<open>F_INVALID\<close> stands for any type
  number other than the three. Offsets are integers; a sum or difference that leaves the 64 bits of
  \<open>off_t_\<close> is undefined behaviour, outcome \<open>None\<close>. Those are the ones of \<open>file_lock_from_flock\<close> and
  \<open>flock_from_file_lock\<close>, and \<open>start - 1\<close> in \<open>file_locks_adjacent\<close>, for a start at the least offset:
  negative starts are not refused. The other two, where a lock is cut, follow a comparison that keeps
  them in range.
\<close>

section \<open>Model\<close>

datatype lock_type = F_RDLCK | F_WRLCK | F_UNLCK | F_INVALID

record file_lock =
  fl_start :: int
  fl_end :: int
  fl_type :: lock_type
  fl_pid :: int
  fl_owner :: nat

definition file_locks_overlap :: "file_lock \<Rightarrow> file_lock \<Rightarrow> bool" where
  "file_locks_overlap a b \<longleftrightarrow> fl_end a \<ge> fl_start b \<and> fl_end b \<ge> fl_start a"

definition file_locks_conflict :: "file_lock \<Rightarrow> file_lock \<Rightarrow> bool" where
  "file_locks_conflict a b =
     (if fl_owner a = fl_owner b then False
      else if \<not> file_locks_overlap a b then False
      else fl_type a = F_WRLCK \<or> fl_type b = F_WRLCK)"

definition off_pred :: "int \<Rightarrow> int option" where
  "off_pred x = (if x = - (2 ^ 63) then None else Some (x - 1))"

definition file_locks_adjacent :: "file_lock \<Rightarrow> file_lock \<Rightarrow> bool option" where
  "file_locks_adjacent a b = do {
     s \<leftarrow> off_pred (fl_start b);
     if fl_end a = s then Some True
     else do { t \<leftarrow> off_pred (fl_start a); Some (fl_end b = t) }
   }"

definition file_lock_test :: "file_lock list \<Rightarrow> file_lock \<Rightarrow> file_lock option" where
  "file_lock_test locks request = find (\<lambda>l. file_locks_conflict l request) locks"

text \<open>What is left of a lock of another type when the request is cut out of it.\<close>

definition lock_subtract :: "file_lock \<Rightarrow> file_lock \<Rightarrow> file_lock list" where
  "lock_subtract l request =
     (if fl_start request > fl_start l \<and> fl_end request < fl_end l
      then [l\<lparr>fl_end := fl_start request - 1\<rparr>, l\<lparr>fl_start := fl_end request + 1\<rparr>]
      else if fl_start request \<le> fl_start l \<and> fl_end request \<ge> fl_end l then []
      else if fl_start l < fl_start request then [l\<lparr>fl_end := fl_start request - 1\<rparr>]
      else if fl_end l > fl_end request then [l\<lparr>fl_start := fl_end request + 1\<rparr>]
      else [l])"

definition lock_extend :: "file_lock \<Rightarrow> file_lock \<Rightarrow> file_lock" where
  "lock_extend request l =
     request\<lparr>fl_start := (if fl_start l < fl_start request then fl_start l else fl_start request),
             fl_end := (if fl_end l > fl_end request then fl_end l else fl_end request)\<rparr>"

text \<open>
  The second loop of \<open>file_lock_acquire\<close>. It returns the locks before the place where the loop
  stopped, the extended request, the locks from that place on, and whether waiters were notified.
\<close>

fun acquire_loop ::
  "bool \<Rightarrow> file_lock \<Rightarrow> bool \<Rightarrow> file_lock list \<Rightarrow> (file_lock list \<times> file_lock \<times> file_lock list \<times> bool) option" where
  "acquire_loop found request notified [] = Some ([], request, [], notified)"
| "acquire_loop found request notified (l # ls) =
     (if fl_owner l \<noteq> fl_owner request then
        (if found then Some ([], request, l # ls, notified)
         else do { (p, r, s, n) \<leftarrow> acquire_loop False request notified ls; Some (l # p, r, s, n) })
      else if fl_type request = fl_type l then do {
        merge \<leftarrow> (if file_locks_overlap l request then Some True else file_locks_adjacent request l);
        if \<not> merge then do { (p, r, s, n) \<leftarrow> acquire_loop True request notified ls; Some (l # p, r, s, n) }
        else acquire_loop True (lock_extend request l) notified ls
      }
      else if \<not> file_locks_overlap l request
        then do { (p, r, s, n) \<leftarrow> acquire_loop True request notified ls; Some (l # p, r, s, n) }
      else do { (p, r, s, n) \<leftarrow> acquire_loop True request True ls; Some (lock_subtract l request @ p, r, s, n) })"

definition file_lock_acquire :: "file_lock list \<Rightarrow> file_lock \<Rightarrow> (bool \<times> file_lock list) result option" where
  "file_lock_acquire locks request =
     (if fl_type request \<noteq> F_UNLCK \<and> (\<exists>l \<in> set locks. file_locks_conflict l request) then Some (Inl EAGAIN)
      else do {
        (p, r, s, n) \<leftarrow> acquire_loop False request False locks;
        Some (Inr (n, p @ (if fl_type request \<noteq> F_UNLCK then [r] else []) @ s))
      })"

definition OFF_T_MAX :: int where "OFF_T_MAX = 2 ^ 63 - 1"

definition off_t :: "int \<Rightarrow> int option" where
  "off_t x = (if - (2 ^ 63) \<le> x \<and> x \<le> OFF_T_MAX then Some x else None)"

datatype lseek_whence = LSEEK_SET | LSEEK_CUR | LSEEK_END | LSEEK_OTHER

record flock =
  f_type :: lock_type
  f_whence :: lseek_whence
  f_start :: int
  f_len :: int
  f_pid :: int

text \<open>
  \<open>lseek_cur\<close>: the file position, as the driver's \<open>lseek\<close> gives it (\<open>None\<close>: no \<open>lseek\<close> operation);
  \<open>fstat_size\<close>: the file size, as the file system's \<open>fstat\<close> gives it.
\<close>

definition flock_offset ::
  "int result option \<Rightarrow> int result \<Rightarrow> lseek_whence \<Rightarrow> int result" where
  "flock_offset lseek_cur fstat_size whence =
     (case whence of
        LSEEK_SET \<Rightarrow> Inr 0
      | LSEEK_CUR \<Rightarrow> (case lseek_cur of None \<Rightarrow> Inr 0 | Some r \<Rightarrow> r)
      | LSEEK_END \<Rightarrow> fstat_size
      | LSEEK_OTHER \<Rightarrow> Inl EINVAL)"

definition file_lock_from_flock ::
  "int result option \<Rightarrow> int result \<Rightarrow> nat \<Rightarrow> int \<Rightarrow> flock \<Rightarrow> file_lock result option" where
  "file_lock_from_flock lseek_cur fstat_size files pid fl =
     (case flock_offset lseek_cur fstat_size (f_whence fl) of
        Inl e \<Rightarrow> Some (Inl e)
      | Inr offset \<Rightarrow> do {
          start \<leftarrow> off_t (f_start fl + offset);
          (s, e) \<leftarrow> (if f_len fl > 0 then do {
                        t \<leftarrow> off_t (start + f_len fl);
                        Some (start, t - 1)
                      }
                      else if f_len fl < 0 then do {
                        e \<leftarrow> off_t (start - 1);
                        t \<leftarrow> off_t (e + f_len fl);
                        Some (t + 1, e)
                      }
                      else Some (start, OFF_T_MAX));
          Some (Inr \<lparr>fl_start = s, fl_end = e, fl_type = f_type fl, fl_pid = pid, fl_owner = files\<rparr>)
        })"

definition flock_from_file_lock :: "file_lock \<Rightarrow> flock option" where
  "flock_from_file_lock l = do {
     len \<leftarrow> (if fl_end l \<noteq> OFF_T_MAX then do { d \<leftarrow> off_t (fl_end l - fl_start l); off_t (d + 1) } else Some 0);
     Some \<lparr>f_type = fl_type l, f_whence = LSEEK_SET, f_start = fl_start l, f_len = len, f_pid = fl_pid l\<rparr>
   }"

definition fcntl_getlk ::
  "int result option \<Rightarrow> int result \<Rightarrow> nat \<Rightarrow> int \<Rightarrow> file_lock list \<Rightarrow> flock \<Rightarrow> flock result option" where
  "fcntl_getlk lseek_cur fstat_size files pid locks fl =
     (if f_type fl \<noteq> F_RDLCK \<and> f_type fl \<noteq> F_WRLCK then Some (Inl EINVAL)
      else do {
        r \<leftarrow> file_lock_from_flock lseek_cur fstat_size files pid fl;
        case r of
          Inl e \<Rightarrow> Some (Inl e)
        | Inr request \<Rightarrow>
            (case file_lock_test locks request of
               Some l \<Rightarrow> map_option Inr (flock_from_file_lock l)
             | None \<Rightarrow> Some (Inr (fl\<lparr>f_type := F_UNLCK\<rparr>)))
      })"

datatype access_mode = O_RDONLY | O_WRONLY | O_RDWR

text \<open>
  The waiting loop. While the caller waits for \<open>posix_unlock\<close> other processes change the locks:
  \<open>env n\<close> gives the list after the n-th wait and whether the wait was interrupted. The loop has no
  bound; \<open>fuel\<close> limits it.
\<close>

fun setlk_loop ::
  "nat \<Rightarrow> (nat \<Rightarrow> file_lock list \<Rightarrow> file_lock list \<times> errno option) \<Rightarrow> nat \<Rightarrow> file_lock list \<Rightarrow> file_lock
     \<Rightarrow> bool \<Rightarrow> (unit result \<times> file_lock list) option" where
  "setlk_loop 0 env n locks request blocking = None"
| "setlk_loop (Suc fuel) env n locks request blocking = do {
     r \<leftarrow> file_lock_acquire locks request;
     case r of
       Inr (notified, locks') \<Rightarrow> Some (Inr (), locks')
     | Inl e \<Rightarrow>
         if e \<noteq> EAGAIN \<or> \<not> blocking then Some (Inl e, locks)
         else case env n locks of
                (locks', Some err) \<Rightarrow> Some (Inl err, locks')
              | (locks', None) \<Rightarrow> setlk_loop fuel env (n + 1) locks' request blocking
   }"

definition fcntl_setlk ::
  "nat \<Rightarrow> (nat \<Rightarrow> file_lock list \<Rightarrow> file_lock list \<times> errno option) \<Rightarrow> int result option \<Rightarrow> int result
     \<Rightarrow> access_mode \<Rightarrow> nat \<Rightarrow> int \<Rightarrow> file_lock list \<Rightarrow> flock \<Rightarrow> bool \<Rightarrow> (unit result \<times> file_lock list) option" where
  "fcntl_setlk fuel env lseek_cur fstat_size fd_mode files pid locks fl blocking =
     (if f_type fl \<noteq> F_RDLCK \<and> f_type fl \<noteq> F_WRLCK \<and> f_type fl \<noteq> F_UNLCK then Some (Inl EINVAL, locks)
      else if f_type fl = F_RDLCK \<and> fd_mode = O_WRONLY then Some (Inl EBADF, locks)
      else if f_type fl = F_WRLCK \<and> fd_mode = O_RDONLY then Some (Inl EBADF, locks)
      else do {
        r \<leftarrow> file_lock_from_flock lseek_cur fstat_size files pid fl;
        case r of
          Inl e \<Rightarrow> Some (Inl e, locks)
        | Inr request \<Rightarrow> setlk_loop fuel env 0 locks request blocking
      })"

definition file_lock_remove_owned_by :: "file_lock list \<Rightarrow> nat \<Rightarrow> file_lock list" where
  "file_lock_remove_owned_by locks owner = filter (\<lambda>l. fl_owner l \<noteq> owner) locks"

section \<open>Grouping by owner\<close>

fun grouped :: "'o list \<Rightarrow> bool" where
  "grouped [] = True"
| "grouped (x # xs) \<longleftrightarrow> x \<notin> set (dropWhile (\<lambda>y. y = x) xs) \<and> grouped xs"

lemma grouped_tail: "n \<notin> set ys \<Longrightarrow> grouped (replicate k n @ ys) = grouped ys"
proof (induction k)
  case (Suc k)
  have "dropWhile (\<lambda>y. y = n) (replicate k n @ ys) = ys"
    using Suc.prems by (cases ys) (auto simp: dropWhile_append)
  with Suc show ?case by simp
qed simp

lemma grouped_block:
  assumes "n \<notin> set xs" "n \<notin> set ys" "0 < k"
  shows "grouped (xs @ replicate k n @ ys) \<longleftrightarrow> grouped xs \<and> grouped ys \<and> set xs \<inter> set ys = {}"
  using assms(1)
proof (induction xs)
  case Nil
  then show ?case using grouped_tail [OF assms(2)] by simp
next
  case (Cons x xs)
  have "dropWhile (\<lambda>y. y = x) (replicate k n @ ys) = replicate k n @ ys"
    using assms(3) Cons.prems by (cases k) auto
  then have "set (dropWhile (\<lambda>y. y = x) (xs @ replicate k n @ ys)) - {n}
      = (set (dropWhile (\<lambda>y. y = x) xs) \<union> set ys) - {n}"
    by (auto simp: dropWhile_append dropWhile_eq_Nil_conv [symmetric] simp del: dropWhile_eq_Nil_conv dest: set_dropWhileD)
  then have "x \<notin> set (dropWhile (\<lambda>y. y = x) (xs @ replicate k n @ ys))
      \<longleftrightarrow> x \<notin> set (dropWhile (\<lambda>y. y = x) xs) \<and> x \<notin> set ys"
    using Cons.prems by auto
  with Cons show ?case by auto
qed

lemma grouped_append: "grouped xs \<Longrightarrow> grouped ys \<Longrightarrow> set xs \<inter> set ys = {} \<Longrightarrow> grouped (xs @ ys)"
  by (induction xs) (auto simp: dropWhile_append dest: set_dropWhileD)

text \<open>In a grouped list the locks of one owner form one block.\<close>

lemma grouped_split:
  assumes "grouped (map f ls)"
  obtains pre own post where "ls = pre @ own @ post" "\<forall>l \<in> set own. f l = n"
    "\<forall>l \<in> set pre. f l \<noteq> n" "\<forall>l \<in> set post. f l \<noteq> n" "own = [] \<longrightarrow> post = []"
proof -
  define pre where "pre = takeWhile (\<lambda>l. f l \<noteq> n) ls"
  define rest where "rest = dropWhile (\<lambda>l. f l \<noteq> n) ls"
  define own where "own = takeWhile (\<lambda>l. f l = n) rest"
  define post where "post = dropWhile (\<lambda>l. f l = n) rest"
  have ls: "ls = pre @ own @ post" by (simp add: pre_def rest_def own_def post_def)
  have g: "grouped (map f rest)"
    using assms by (simp add: rest_def) (induction ls, auto)
  have hd: "f r = n" if "rest = r # rs" for r rs using that by (simp add: rest_def dropWhile_eq_Cons_conv)
  then have own_emp: "own = [] \<longrightarrow> post = []"
    by (cases rest) (auto simp: own_def post_def)
  have "\<forall>l \<in> set post. f l \<noteq> n"
  proof (cases rest)
    case (Cons r rs)
    then have "f r = n" by (rule hd)
    then have "post = dropWhile (\<lambda>l. f l = n) rs" by (simp add: post_def Cons)
    moreover have "n \<notin> set (dropWhile (\<lambda>y. y = n) (map f rs))" using g Cons \<open>f r = n\<close> by simp
    ultimately show ?thesis by (auto simp: dropWhile_map comp_def)
  qed (simp add: post_def)
  moreover have "\<forall>l \<in> set own. f l = n" "\<forall>l \<in> set pre. f l \<noteq> n"
    by (auto simp: own_def pre_def dest: set_takeWhileD)
  ultimately show thesis using that ls own_emp by blast
qed

section \<open>What the locks mean\<close>

definition span :: "file_lock \<Rightarrow> int set" where
  "span l = {fl_start l..fl_end l}"

definition holds :: "file_lock list \<Rightarrow> nat \<Rightarrow> int \<Rightarrow> lock_type \<Rightarrow> bool" where
  "holds locks n x t \<longleftrightarrow> (\<exists>l \<in> set locks. fl_owner l = n \<and> fl_type l = t \<and> x \<in> span l)"

text \<open>
  The invariant of an inode's list: locks are grouped by owner, no lock is empty or an unlock, the
  locks of one owner do not overlap, and locks of different owners do not conflict.
\<close>

definition locks_inv :: "file_lock list \<Rightarrow> bool" where
  "locks_inv ls \<longleftrightarrow> grouped (map fl_owner ls)
     \<and> (\<forall>l \<in> set ls. fl_start l \<le> fl_end l \<and> (fl_type l = F_RDLCK \<or> fl_type l = F_WRLCK))
     \<and> sorted_wrt (\<lambda>a b. fl_owner a = fl_owner b \<longrightarrow> span a \<inter> span b = {}) ls
     \<and> (\<forall>a \<in> set ls. \<forall>b \<in> set ls. \<not> file_locks_conflict a b)"

lemma overlap_span:
  "fl_start a \<le> fl_end a \<Longrightarrow> fl_start b \<le> fl_end b \<Longrightarrow> file_locks_overlap a b \<longleftrightarrow> span a \<inter> span b \<noteq> {}"
  by (auto simp: file_locks_overlap_def span_def Int_def) (metis linorder_le_cases)+

text \<open>
  The loop on unbounded offsets, which the code's loop follows wherever it is defined; it is undefined
  only when a lock or the request starts at the least offset.
\<close>

definition adjoining :: "file_lock \<Rightarrow> file_lock \<Rightarrow> bool" where
  "adjoining a b \<longleftrightarrow> fl_end a = fl_start b - 1 \<or> fl_end b = fl_start a - 1"

lemma adjacent_adjoining: "file_locks_adjacent a b = Some x \<Longrightarrow> x = adjoining a b"
  by (auto simp: file_locks_adjacent_def off_pred_def adjoining_def split: if_splits)

lemma adjacent_defined:
  "fl_start a \<noteq> - (2 ^ 63) \<Longrightarrow> fl_start b \<noteq> - (2 ^ 63) \<Longrightarrow> file_locks_adjacent a b = Some (adjoining a b)"
  by (auto simp: file_locks_adjacent_def off_pred_def adjoining_def)

fun acquire_run ::
  "bool \<Rightarrow> file_lock \<Rightarrow> bool \<Rightarrow> file_lock list \<Rightarrow> file_lock list \<times> file_lock \<times> file_lock list \<times> bool" where
  "acquire_run found request notified [] = ([], request, [], notified)"
| "acquire_run found request notified (l # ls) =
     (if fl_owner l \<noteq> fl_owner request then
        (if found then ([], request, l # ls, notified)
         else let (p, r, s, n) = acquire_run False request notified ls in (l # p, r, s, n))
      else if fl_type request = fl_type l then
        (if \<not> file_locks_overlap l request \<and> \<not> adjoining request l
         then let (p, r, s, n) = acquire_run True request notified ls in (l # p, r, s, n)
         else acquire_run True (lock_extend request l) notified ls)
      else
        (if \<not> file_locks_overlap l request
         then let (p, r, s, n) = acquire_run True request notified ls in (l # p, r, s, n)
         else let (p, r, s, n) = acquire_run True request True ls in (lock_subtract l request @ p, r, s, n)))"

lemma acquire_loop_run: "acquire_loop found req notified ls = Some x \<Longrightarrow> acquire_run found req notified ls = x"
proof (induction ls arbitrary: found req notified x)
  case (Cons l ls)
  have IH: "acquire_run f q k ls = (p, r, s, n)" if "acquire_loop f q k ls = Some (p, r, s, n)" for f q k p r s n
    using Cons.IH [OF that] .
  consider (other) "fl_owner l \<noteq> fl_owner req" | (cut) "fl_owner l = fl_owner req" "fl_type req \<noteq> fl_type l"
    | (same) "fl_owner l = fl_owner req" "fl_type req = fl_type l" by blast
  then show ?case
  proof cases
    case other
    then show ?thesis using Cons.prems IH by (cases found) (auto simp: bind_eq_Some_conv)
  next
    case cut
    then show ?thesis using Cons.prems IH by (cases "file_locks_overlap l req") (auto simp: bind_eq_Some_conv)
  next
    case same
    show ?thesis
    proof (cases "file_locks_overlap l req")
      case True
      then show ?thesis using Cons.prems same Cons.IH by simp
    next
      case False
      then obtain m where m: "file_locks_adjacent req l = Some m" using Cons.prems same by (auto simp: bind_eq_Some_conv)
      then show ?thesis using Cons.prems same False IH Cons.IH adjacent_adjoining [OF m]
        by (cases m) (auto simp: bind_eq_Some_conv)
    qed
  qed
qed simp

lemma acquire_loop_defined:
  "fl_start req \<noteq> - (2 ^ 63) \<Longrightarrow> \<forall>l \<in> set ls. fl_start l \<noteq> - (2 ^ 63) \<Longrightarrow>
     \<exists>p r s n. acquire_loop found req notified ls = Some (p, r, s, n)"
proof (induction ls arbitrary: found req notified)
  case (Cons l ls)
  have IH: "\<exists>p r s n. acquire_loop f q k ls = Some (p, r, s, n)" if "fl_start q \<noteq> - (2 ^ 63)" for f q k
    using Cons.IH [OF that] Cons.prems(2) by simp
  have "fl_start (lock_extend req l) \<noteq> - (2 ^ 63)" using Cons.prems by (simp add: lock_extend_def)
  from IH [OF this, of True notified] obtain p r s n where e: "acquire_loop True (lock_extend req l) notified ls = Some (p, r, s, n)" by blast
  obtain p1 r1 s1 n1 where a: "acquire_loop False req notified ls = Some (p1, r1, s1, n1)" using IH [OF Cons.prems(1)] by blast
  obtain p2 r2 s2 n2 where b: "acquire_loop True req notified ls = Some (p2, r2, s2, n2)" using IH [OF Cons.prems(1)] by blast
  obtain p3 r3 s3 n3 where c: "acquire_loop True req True ls = Some (p3, r3, s3, n3)" using IH [OF Cons.prems(1)] by blast
  have "file_locks_adjacent req l = Some (adjoining req l)" using Cons.prems by (intro adjacent_defined) simp_all
  then show ?case using e a b c by simp
qed simp

text \<open>Merging covers exactly both, subtracting exactly the difference.\<close>

lemma extend_span:
  assumes "fl_start l \<le> fl_end l" "fl_start r \<le> fl_end r"
    "file_locks_overlap l r \<or> adjoining r l"
  shows "span (lock_extend r l) = span r \<union> span l"
  using assms by (auto simp: span_def lock_extend_def file_locks_overlap_def adjoining_def)

lemma extend_fields [simp]:
  "fl_owner (lock_extend r l) = fl_owner r" "fl_type (lock_extend r l) = fl_type r" "fl_pid (lock_extend r l) = fl_pid r"
  by (simp_all add: lock_extend_def)

lemma extend_ordered: "fl_start r \<le> fl_end r \<Longrightarrow> fl_start (lock_extend r l) \<le> fl_end (lock_extend r l)"
  by (auto simp: lock_extend_def)

lemma subtract_span:
  assumes "fl_start l \<le> fl_end l" "fl_start r \<le> fl_end r" "file_locks_overlap l r"
  shows "\<Union> (span ` set (lock_subtract l r)) = span l - span r"
    "\<forall>q \<in> set (lock_subtract l r). fl_owner q = fl_owner l \<and> fl_type q = fl_type l \<and> fl_start q \<le> fl_end q"
    "sorted_wrt (\<lambda>a b. span a \<inter> span b = {}) (lock_subtract l r)"
  using assms by (auto simp: span_def lock_subtract_def file_locks_overlap_def)

section \<open>The loop over the owner's locks\<close>

lemma acquire_loop_own:
  assumes "\<forall>l \<in> set own. fl_owner l = fl_owner req" "post = [] \<or> fl_owner (hd post) \<noteq> fl_owner req"
  shows "\<exists>p r n. acquire_run True req notified (own @ post) = (p, r, post, n)
      \<and> acquire_run True req notified own = (p, r, [], n)"
  using assms
proof (induction own arbitrary: req notified)
  case Nil
  then show ?case by (cases post) auto
next
  case (Cons l own)
  have step: "\<exists>p r n. acquire_run True rq nt (own @ post) = (p, r, post, n) \<and> acquire_run True rq nt own = (p, r, [], n)"
    if "fl_owner rq = fl_owner req" for rq nt
    using Cons.IH [of rq nt] Cons.prems that by auto
  from step [of req notified] step [of req True] step [of "lock_extend req l" notified] Cons.prems
  show ?case by auto
qed

lemma acquire_loop_split:
  assumes "\<forall>l \<in> set pre. fl_owner l \<noteq> fl_owner req" "\<forall>l \<in> set own. fl_owner l = fl_owner req"
    "\<forall>l \<in> set post. fl_owner l \<noteq> fl_owner req" "own = [] \<longrightarrow> post = []"
  shows "\<exists>p r n. acquire_run False req notified (pre @ own @ post) = (pre @ p, r, post, n)
      \<and> acquire_run True req notified own = (p, r, [], n)"
  using assms(1)
proof (induction pre)
  case Nil
  have "acquire_run False req notified (own @ post) = acquire_run True req notified (own @ post)"
    using assms(2,4) by (cases own) auto
  moreover have "post = [] \<or> fl_owner (hd post) \<noteq> fl_owner req" using assms(3) by (cases post) auto
  ultimately show ?case using acquire_loop_own [OF assms(2), of post notified] by simp
next
  case (Cons l pre)
  then show ?case by auto
qed

definition loop_post :: "file_lock \<Rightarrow> file_lock list \<Rightarrow> file_lock list \<Rightarrow> file_lock \<Rightarrow> bool" where
  "loop_post req own p r \<longleftrightarrow>
     fl_owner r = fl_owner req \<and> fl_type r = fl_type req \<and> fl_pid r = fl_pid req \<and> fl_start r \<le> fl_end r
   \<and> (\<forall>q \<in> set p. fl_owner q = fl_owner req \<and> fl_start q \<le> fl_end q
        \<and> (\<exists>l \<in> set own. fl_type q = fl_type l \<and> span q \<subseteq> span l))
   \<and> (\<forall>x \<in> span r. x \<in> span req \<or> (\<exists>l \<in> set own. fl_type l = fl_type req \<and> x \<in> span l))
   \<and> (\<forall>q \<in> set p. span q \<inter> span r = {})
   \<and> sorted_wrt (\<lambda>a b. span a \<inter> span b = {}) p
   \<and> (\<forall>x t. (\<exists>q \<in> set p. fl_type q = t \<and> x \<in> span q) \<or> (x \<in> span r \<and> t = fl_type req)
        \<longleftrightarrow> (if x \<in> span req then t = fl_type req else \<exists>l \<in> set own. fl_type l = t \<and> x \<in> span l))"

lemma loop_post_keep:
  assumes "loop_post req own p r" "\<forall>b \<in> set own. span l \<inter> span b = {}" "span l \<inter> span req = {}"
    "fl_start l \<le> fl_end l" "fl_owner l = fl_owner req"
  shows "loop_post req (l # own) (l # p) r"
proof -
  have "span l \<inter> span q = {}" if "q \<in> set p" for q using assms(1,2) that unfolding loop_post_def by blast
  moreover have "span l \<inter> span r = {}" using assms(1-3) unfolding loop_post_def by blast
  moreover have "(\<exists>q \<in> set (l # p). fl_type q = t \<and> x \<in> span q) \<or> (x \<in> span r \<and> t = fl_type req)
        \<longleftrightarrow> (if x \<in> span req then t = fl_type req else \<exists>k \<in> set (l # own). fl_type k = t \<and> x \<in> span k)" for x t
    using assms(1,3) unfolding loop_post_def by (cases "x \<in> span l") auto
  ultimately show ?thesis using assms unfolding loop_post_def by auto
qed

lemma loop_post_merge:
  assumes "loop_post (lock_extend req l) own p r" "\<forall>b \<in> set own. span l \<inter> span b = {}"
    "span (lock_extend req l) = span req \<union> span l" "fl_type l = fl_type req"
  shows "loop_post req (l # own) p r"
proof -
  have "(\<exists>q \<in> set p. fl_type q = t \<and> x \<in> span q) \<or> (x \<in> span r \<and> t = fl_type req)
        \<longleftrightarrow> (if x \<in> span req then t = fl_type req else \<exists>k \<in> set (l # own). fl_type k = t \<and> x \<in> span k)" for x t
    using assms unfolding loop_post_def by (cases "x \<in> span l") auto
  then show ?thesis using assms unfolding loop_post_def by auto
qed

lemma loop_post_subtract:
  assumes lp: "loop_post req own p r" and dis: "\<forall>b \<in> set own. span l \<inter> span b = {}"
    and ord: "fl_start l \<le> fl_end l" "fl_start req \<le> fl_end req" and ov: "file_locks_overlap l req"
    and ow: "fl_owner l = fl_owner req" and ty: "fl_type l \<noteq> fl_type req"
  shows "loop_post req (l # own) (lock_subtract l req @ p) r"
proof -
  note sub = subtract_span [OF ord ov]
  have in_l: "q \<in> set (lock_subtract l req) \<Longrightarrow> span q \<subseteq> span l - span req" for q using sub(1) by blast
  have p_l: "span q \<inter> span b = {}" if "q \<in> set (lock_subtract l req)" "b \<in> set p" for q b
    using in_l [OF that(1)] lp that(2) dis unfolding loop_post_def by blast
  have r_l: "span q \<inter> span r = {}" if "q \<in> set (lock_subtract l req)" for q
    using in_l [OF that] lp dis unfolding loop_post_def by blast
  have piece: "(\<exists>q \<in> set (lock_subtract l req). fl_type q = t \<and> x \<in> span q) \<longleftrightarrow> t = fl_type l \<and> x \<in> span l - span req" for x t
    using sub(1,2) by blast
  have "(\<exists>q \<in> set (lock_subtract l req @ p). fl_type q = t \<and> x \<in> span q) \<or> (x \<in> span r \<and> t = fl_type req)
        \<longleftrightarrow> (if x \<in> span req then t = fl_type req else \<exists>k \<in> set (l # own). fl_type k = t \<and> x \<in> span k)" for x t
    using lp piece [of t x] unfolding loop_post_def set_append bex_Un by auto
  moreover have "sorted_wrt (\<lambda>a b. span a \<inter> span b = {}) (lock_subtract l req @ p)"
    using lp sub(3) p_l unfolding loop_post_def sorted_wrt_append by blast
  moreover have "\<forall>q \<in> set (lock_subtract l req @ p). fl_owner q = fl_owner req \<and> fl_start q \<le> fl_end q
        \<and> (\<exists>k \<in> set (l # own). fl_type q = fl_type k \<and> span q \<subseteq> span k)"
    using lp sub(2) in_l ow unfolding loop_post_def by fastforce
  moreover have "\<forall>q \<in> set (lock_subtract l req @ p). span q \<inter> span r = {}"
    using lp r_l unfolding loop_post_def set_append by blast
  moreover have "\<forall>x \<in> span r. x \<in> span req \<or> (\<exists>k \<in> set (l # own). fl_type k = fl_type req \<and> x \<in> span k)"
    using lp unfolding loop_post_def by fastforce
  ultimately show ?thesis using lp unfolding loop_post_def by (intro conjI) (assumption | blast)+
qed

lemma acquire_loop_post:
  assumes "\<forall>l \<in> set own. fl_owner l = fl_owner req \<and> fl_start l \<le> fl_end l"
    "sorted_wrt (\<lambda>a b. span a \<inter> span b = {}) own" "fl_start req \<le> fl_end req"
    "acquire_run True req notified own = (p, r, s, n)"
  shows "loop_post req own p r"
  using assms
proof (induction own arbitrary: req notified p r s n)
  case Nil
  then show ?case by (auto simp: loop_post_def)
next
  case (Cons l own)
  have l: "fl_owner l = fl_owner req" "fl_start l \<le> fl_end l" "\<forall>b \<in> set own. span l \<inter> span b = {}"
    using Cons.prems by auto
  have IH: "loop_post rq own p' r'" if "fl_owner rq = fl_owner req" "fl_start rq \<le> fl_end rq"
    "acquire_run True rq nt own = (p', r', s', n')" for rq nt p' r' s' n'
    using Cons.IH [OF _ _ that(2,3)] Cons.prems(1,2) that(1) by auto
  consider (keep) "\<not> file_locks_overlap l req" "fl_type req = fl_type l \<longrightarrow> \<not> adjoining req l"
    | (merge) "fl_type req = fl_type l" "file_locks_overlap l req \<or> adjoining req l"
    | (cut) "fl_type req \<noteq> fl_type l" "file_locks_overlap l req" by blast
  then show ?case
  proof cases
    case keep
    then obtain p' where "p = l # p'" "acquire_run True req notified own = (p', r, s, n)"
      using Cons.prems(4) l(1) by (auto split: prod.splits if_splits)
    with loop_post_keep [OF IH [OF refl Cons.prems(3)] l(3)] keep(1) l overlap_span [OF l(2) Cons.prems(3)]
    show ?thesis by blast
  next
    case merge
    then have "acquire_run True (lock_extend req l) notified own = (p, r, s, n)"
      using Cons.prems(4) l(1) by auto
    from loop_post_merge [OF IH [OF _ _ this] l(3) extend_span [OF l(2) Cons.prems(3) merge(2)]]
      extend_ordered [OF Cons.prems(3)] merge(1) show ?thesis by simp
  next
    case cut
    then obtain p' where "p = lock_subtract l req @ p'" "acquire_run True req True own = (p', r, s, n)"
      using Cons.prems(4) l(1) by (auto split: prod.splits if_splits)
    with loop_post_subtract [OF IH [OF refl Cons.prems(3)] l(3) l(2) Cons.prems(3) cut(2) l(1)] cut(1)
    show ?thesis by metis
  qed
qed

lemma conflict_sub:
  assumes "file_locks_conflict q b" "fl_owner q = fl_owner l" "fl_type q = fl_type l" "span q \<subseteq> span l"
    "fl_start q \<le> fl_end q" "fl_start b \<le> fl_end b" "fl_start l \<le> fl_end l"
  shows "file_locks_conflict l b"
proof -
  have "span q \<inter> span b \<noteq> {}" "fl_owner q \<noteq> fl_owner b" "fl_type q = F_WRLCK \<or> fl_type b = F_WRLCK"
    using assms(1) overlap_span [OF assms(5,6)] by (auto simp: file_locks_conflict_def split: if_splits)
  with assms(2-4) overlap_span [OF assms(7,6)] show ?thesis by (auto simp: file_locks_conflict_def)
qed

lemma conflict_iff:
  "fl_start a \<le> fl_end a \<Longrightarrow> fl_start b \<le> fl_end b \<Longrightarrow> file_locks_conflict a b \<longleftrightarrow>
     fl_owner a \<noteq> fl_owner b \<and> (\<exists>x. x \<in> span a \<and> x \<in> span b) \<and> (fl_type a = F_WRLCK \<or> fl_type b = F_WRLCK)"
  using overlap_span [of a b] by (auto simp: file_locks_conflict_def)

lemma conflict_sym: "file_locks_conflict a b = file_locks_conflict b a"
  by (auto simp: file_locks_conflict_def file_locks_overlap_def)

text \<open>The extended request conflicts with nobody: it consists of the request and of old locks.\<close>

lemma extended_no_conflict:
  assumes lp: "loop_post req own p r" and b: "fl_start b \<le> fl_end b" "fl_start req \<le> fl_end req"
    and nr: "\<not> file_locks_conflict b req" and no: "\<forall>l \<in> set own. fl_start l \<le> fl_end l \<and> fl_owner l = fl_owner req \<and> \<not> file_locks_conflict l b"
  shows "\<not> file_locks_conflict r b"
proof
  assume c: "file_locks_conflict r b"
  have r: "fl_start r \<le> fl_end r" "fl_owner r = fl_owner req" "fl_type r = fl_type req"
    using lp by (auto simp: loop_post_def)
  obtain x where x: "x \<in> span r" "x \<in> span b" and ow: "fl_owner r \<noteq> fl_owner b"
    and t: "fl_type r = F_WRLCK \<or> fl_type b = F_WRLCK"
    using c conflict_iff [OF r(1) b(1)] by blast
  from lp x(1) consider "x \<in> span req" | l where "l \<in> set own" "fl_type l = fl_type req" "x \<in> span l"
    unfolding loop_post_def by blast
  then show False
  proof cases
    case 1
    with nr x ow t r conflict_iff [OF b] show False by auto
  next
    case 2
    with no x ow t r conflict_iff [of l b] b(1) show False by auto
  qed
qed

lemma map_owner_replicate: "\<forall>l \<in> set ls. fl_owner l = n \<Longrightarrow> map fl_owner ls = replicate (length ls) n"
  by (induction ls) auto

text \<open>
  How a successful request rearranges the list: the owner's locks \<open>own\<close> are one block, replaced by what
  the loop keeps of them and the extended request.
\<close>

definition rearranged ::
  "file_lock list \<Rightarrow> file_lock \<Rightarrow> file_lock list \<Rightarrow> file_lock list \<Rightarrow> file_lock list
     \<Rightarrow> file_lock list \<Rightarrow> file_lock \<Rightarrow> file_lock list \<Rightarrow> bool" where
  "rearranged ls req pre own post p r mid \<longleftrightarrow>
     locks_inv ls \<and> fl_start req \<le> fl_end req \<and> fl_type req \<noteq> F_INVALID \<and> ls = pre @ own @ post
   \<and> (\<forall>l \<in> set own. fl_owner l = fl_owner req) \<and> (own = [] \<longrightarrow> post = [])
   \<and> (\<forall>l \<in> set pre \<union> set post. fl_owner l \<noteq> fl_owner req)
   \<and> loop_post req own p r \<and> mid = p @ (if fl_type req \<noteq> F_UNLCK then [r] else [])"

lemma acquire_rearranges:
  assumes inv: "locks_inv ls" and ord: "fl_start req \<le> fl_end req" and ty: "fl_type req \<noteq> F_INVALID"
    and free: "fl_type req \<noteq> F_UNLCK \<longrightarrow> (\<forall>l \<in> set ls. \<not> file_locks_conflict l req)"
    and acq: "file_lock_acquire ls req = Some res"
  shows "\<exists>n pre own post p r mid. res = Inr (n, pre @ mid @ post) \<and> rearranged ls req pre own post p r mid"
proof -
  have gr: "grouped (map fl_owner ls)" using inv by (simp add: locks_inv_def)
  obtain pre own post where ls: "ls = pre @ own @ post" and own: "\<forall>l \<in> set own. fl_owner l = fl_owner req"
    and oth: "\<forall>l \<in> set pre. fl_owner l \<noteq> fl_owner req" "\<forall>l \<in> set post. fl_owner l \<noteq> fl_owner req"
    and emp: "own = [] \<longrightarrow> post = []"
    by (rule grouped_split [OF gr, of "fl_owner req"])
  obtain p r n where run: "acquire_run False req False ls = (pre @ p, r, post, n)"
      and runo: "acquire_run True req False own = (p, r, [], n)"
    using acquire_loop_split [OF oth(1) own oth(2) emp] ls by blast
  have wf: "\<forall>l \<in> set ls. fl_start l \<le> fl_end l \<and> (fl_type l = F_RDLCK \<or> fl_type l = F_WRLCK)"
    and sw: "sorted_wrt (\<lambda>a b. fl_owner a = fl_owner b \<longrightarrow> span a \<inter> span b = {}) ls"
    using inv by (auto simp: locks_inv_def)
  have swo: "sorted_wrt (\<lambda>a b. span a \<inter> span b = {}) own"
  proof (rule sorted_wrt_mono_rel)
    show "sorted_wrt (\<lambda>a b. fl_owner a = fl_owner b \<longrightarrow> span a \<inter> span b = {}) own"
      using sw by (simp add: ls sorted_wrt_append)
  qed (use own in auto)
  have lp: "loop_post req own p r"
    by (rule acquire_loop_post [OF _ swo ord runo]) (use own wf ls in auto)
  let ?mid = "p @ (if fl_type req \<noteq> F_UNLCK then [r] else [])"
  have "\<not> (fl_type req \<noteq> F_UNLCK \<and> (\<exists>l \<in> set ls. file_locks_conflict l req))" using free by auto
  then have "res = Inr (n, pre @ ?mid @ post)"
    using acq run unfolding file_lock_acquire_def by (auto simp: bind_eq_Some_conv dest!: acquire_loop_run)
  moreover have "rearranged ls req pre own post p r ?mid"
    using inv ord ty ls own oth emp lp unfolding rearranged_def by blast
  ultimately show ?thesis by blast
qed

lemma rearranged_mid:
  assumes "rearranged ls req pre own post p r mid"
  shows "\<forall>l \<in> set mid. fl_owner l = fl_owner req \<and> fl_start l \<le> fl_end l \<and> (fl_type l = F_RDLCK \<or> fl_type l = F_WRLCK)"
proof -
  have wf: "\<forall>l \<in> set own. fl_type l = F_RDLCK \<or> fl_type l = F_WRLCK"
    using assms by (auto simp: rearranged_def locks_inv_def)
  then show ?thesis
    using assms unfolding rearranged_def loop_post_def by (cases "fl_type req") fastforce+
qed

lemma rearranged_grouped:
  assumes R: "rearranged ls req pre own post p r mid"
  shows "grouped (map fl_owner (pre @ mid @ post))"
proof -
  have o1: "map fl_owner own = replicate (length own) (fl_owner req)" "map fl_owner mid = replicate (length mid) (fl_owner req)"
    using R rearranged_mid [OF R] unfolding rearranged_def by (blast intro: map_owner_replicate)+
  have gr: "grouped (map fl_owner ls)" and ls: "ls = pre @ own @ post" and emp: "own = [] \<longrightarrow> post = []"
    and ni: "fl_owner req \<notin> set (map fl_owner pre)" "fl_owner req \<notin> set (map fl_owner post)"
    using R by (auto simp: rearranged_def locks_inv_def)
  have sep: "grouped (map fl_owner pre) \<and> grouped (map fl_owner post) \<and> set (map fl_owner pre) \<inter> set (map fl_owner post) = {}"
  proof (cases "own = []")
    case True
    then show ?thesis using gr emp ls by simp
  next
    case False
    then show ?thesis using gr grouped_block [OF ni, of "length own"] unfolding ls map_append o1 by simp
  qed
  show ?thesis
  proof (cases "mid = []")
    case True
    then show ?thesis using grouped_append [of "map fl_owner pre" "map fl_owner post"] sep by simp
  next
    case False
    then show ?thesis using sep grouped_block [OF ni, of "length mid"] unfolding map_append o1 by simp
  qed
qed

lemma rearranged_disjoint:
  assumes R: "rearranged ls req pre own post p r mid"
  shows "sorted_wrt (\<lambda>a b. fl_owner a = fl_owner b \<longrightarrow> span a \<inter> span b = {}) (pre @ mid @ post)"
proof -
  let ?P = "\<lambda>a b. fl_owner a = fl_owner b \<longrightarrow> span a \<inter> span b = {}"
  have ls: "ls = pre @ own @ post" and sw: "sorted_wrt ?P ls" using R by (auto simp: rearranged_def locks_inv_def)
  have "sorted_wrt (\<lambda>a b. span a \<inter> span b = {}) mid"
    using R unfolding rearranged_def loop_post_def by (auto simp: sorted_wrt_append)
  then have m: "sorted_wrt ?P mid" by (rule sorted_wrt_mono_rel [rotated]) simp
  have "fl_owner a \<noteq> fl_owner b" if "a \<in> set pre \<and> b \<in> set mid \<or> a \<in> set mid \<and> b \<in> set post" for a b
    using that rearranged_mid [OF R] R unfolding rearranged_def by (metis UnI1 UnI2)
  with m sw show ?thesis
    unfolding ls sorted_wrt_append [of _ pre] sorted_wrt_append [of _ mid] sorted_wrt_append [of _ own]
    by (simp only: set_append Un_iff) blast
qed

lemma rearranged_no_conflict:
  assumes R: "rearranged ls req pre own post p r mid"
    and free: "fl_type req \<noteq> F_UNLCK \<longrightarrow> (\<forall>l \<in> set ls. \<not> file_locks_conflict l req)"
  shows "\<forall>a \<in> set (pre @ mid @ post). \<forall>b \<in> set (pre @ mid @ post). \<not> file_locks_conflict a b"
proof -
  have ls: "ls = pre @ own @ post" and ord: "fl_start req \<le> fl_end req" and lp: "loop_post req own p r"
    and own: "\<forall>l \<in> set own. fl_owner l = fl_owner req"
    and new: "mid = p @ (if fl_type req \<noteq> F_UNLCK then [r] else [])"
    and wf: "\<forall>l \<in> set ls. fl_start l \<le> fl_end l \<and> (fl_type l = F_RDLCK \<or> fl_type l = F_WRLCK)"
    and nc: "\<forall>a \<in> set ls. \<forall>b \<in> set ls. \<not> file_locks_conflict a b"
    using R by (auto simp: rearranged_def locks_inv_def)
  have q: "\<not> file_locks_conflict q b" if "q \<in> set mid" "b \<in> set pre \<union> set post" for q b
  proof (cases "q \<in> set p")
    case True
    then obtain l where l: "l \<in> set own" "fl_type q = fl_type l" "span q \<subseteq> span l" "fl_start q \<le> fl_end q" "fl_owner q = fl_owner req"
      using lp unfolding loop_post_def by blast
    then show ?thesis using conflict_sub [of q b l] nc wf that(2) own unfolding ls by auto
  next
    case False
    then have "q = r" "fl_type req \<noteq> F_UNLCK" using that(1) by (auto simp: new split: if_splits)
    with extended_no_conflict [OF lp _ ord, of b] free nc wf own that(2) show ?thesis unfolding ls by auto
  qed
  have "\<not> file_locks_conflict a b" if "a \<in> set mid" "b \<in> set mid" for a b
    using rearranged_mid [OF R] that by (simp add: file_locks_conflict_def)
  with q nc conflict_sym show ?thesis unfolding ls by (metis UnCI UnE set_append)
qed

lemma rearranged_holds:
  assumes R: "rearranged ls req pre own post p r mid"
  shows "holds (pre @ mid @ post) o' x t \<longleftrightarrow>
         (if o' = fl_owner req \<and> x \<in> span req then t = fl_type req \<and> t \<noteq> F_UNLCK else holds ls o' x t)"
proof -
  have ls: "ls = pre @ own @ post" and own: "\<forall>l \<in> set own. fl_owner l = fl_owner req"
    and oth: "\<forall>l \<in> set pre \<union> set post. fl_owner l \<noteq> fl_owner req"
    and new: "mid = p @ (if fl_type req \<noteq> F_UNLCK then [r] else [])" and lp: "loop_post req own p r"
    and wf: "\<forall>l \<in> set own. fl_type l = F_RDLCK \<or> fl_type l = F_WRLCK"
    using R by (auto simp: rearranged_def locks_inv_def)
  note mid = rearranged_mid [OF R]
  show ?thesis
  proof (cases "o' = fl_owner req")
    case False
    then have "holds (pre @ mid @ post) o' x t = holds (pre @ post) o' x t" "holds ls o' x t = holds (pre @ post) o' x t"
      using mid own unfolding holds_def ls by auto
    with False show ?thesis by simp
  next
    case True
    have cov: "(\<exists>q \<in> set p. fl_type q = t \<and> x \<in> span q) \<or> (x \<in> span r \<and> t = fl_type req)
        \<longleftrightarrow> (if x \<in> span req then t = fl_type req else \<exists>l \<in> set own. fl_type l = t \<and> x \<in> span l)"
      using lp unfolding loop_post_def by blast
    have l: "holds ls o' x t \<longleftrightarrow> (\<exists>l \<in> set own. fl_type l = t \<and> x \<in> span l)"
      using True own oth unfolding holds_def ls by auto
    have m: "holds (pre @ mid @ post) o' x t \<longleftrightarrow> (\<exists>q \<in> set mid. fl_type q = t \<and> x \<in> span q)"
      using True mid oth unfolding holds_def by auto
    have n: "(\<exists>q \<in> set mid. fl_type q = t \<and> x \<in> span q) \<longleftrightarrow>
        (\<exists>q \<in> set p. fl_type q = t \<and> x \<in> span q) \<or> (fl_type req \<noteq> F_UNLCK \<and> x \<in> span r \<and> t = fl_type req)"
      using lp by (auto simp: new loop_post_def)
    have un: "t = F_UNLCK \<Longrightarrow> \<not> (\<exists>q \<in> set mid. fl_type q = t \<and> x \<in> span q) \<and> \<not> (\<exists>l \<in> set own. fl_type l = t \<and> x \<in> span l)"
      using mid wf by fastforce
    show ?thesis
    proof (cases "t = F_UNLCK")
      case u: True
      then have "\<not> holds (pre @ mid @ post) o' x t" "\<not> holds ls o' x t" using un unfolding m l by blast+
      with u show ?thesis by simp
    next
      case False
      then show ?thesis using cov True unfolding m n l by (cases "x \<in> span req") auto
    qed
  qed
qed

lemma acquire_ok:
  assumes inv: "locks_inv ls" and ord: "fl_start req \<le> fl_end req"
    and ty: "fl_type req \<noteq> F_INVALID"
    and free: "fl_type req \<noteq> F_UNLCK \<longrightarrow> (\<forall>l \<in> set ls. \<not> file_locks_conflict l req)"
    and acq: "file_lock_acquire ls req = Some res"
  shows "\<exists>n ls'. res = Inr (n, ls') \<and> locks_inv ls'
    \<and> (\<forall>o' x t. holds ls' o' x t \<longleftrightarrow>
         (if o' = fl_owner req \<and> x \<in> span req then t = fl_type req \<and> t \<noteq> F_UNLCK else holds ls o' x t))"
proof -
  obtain n pre own post p r mid where acq: "res = Inr (n, pre @ mid @ post)"
    and R: "rearranged ls req pre own post p r mid"
    using acquire_rearranges [OF assms] by blast
  have "\<forall>l \<in> set (pre @ mid @ post). fl_start l \<le> fl_end l \<and> (fl_type l = F_RDLCK \<or> fl_type l = F_WRLCK)"
    using rearranged_mid [OF R] R by (auto simp: rearranged_def locks_inv_def)
  then have "locks_inv (pre @ mid @ post)"
    using rearranged_grouped [OF R] rearranged_disjoint [OF R] rearranged_no_conflict [OF R free]
    unfolding locks_inv_def by blast
  then show ?thesis using acq rearranged_holds [OF R] by blast
qed

section \<open>Properties\<close>

text \<open>
  C8. Setting a record lock refines the abstract lock table. On a well-formed list and a nonempty
  range, the call fails with \<open>EAGAIN\<close> exactly when a lock is requested that conflicts with a lock of
  another owner, and changes nothing then; otherwise, after all merging, cutting and splitting, the
  caller holds the requested type on the whole range (nothing, for an unlock), every other offset of
  every owner is locked as before, and the list is well-formed again. The call always returns, unless
  the request or a lock of the list starts at the least offset, from which the code subtracts one.
\<close>

theorem file_lock_acquire_correct:
  assumes "locks_inv ls" "fl_start req \<le> fl_end req" "fl_type req \<noteq> F_INVALID"
  shows "case file_lock_acquire ls req of
      None \<Rightarrow> \<exists>l \<in> insert req (set ls). fl_start l = - (2 ^ 63)
    | Some (Inl e) \<Rightarrow> e = EAGAIN \<and> fl_type req \<noteq> F_UNLCK
        \<and> (\<exists>o' x t. o' \<noteq> fl_owner req \<and> x \<in> span req \<and> holds ls o' x t \<and> (t = F_WRLCK \<or> fl_type req = F_WRLCK))
    | Some (Inr (n, ls')) \<Rightarrow> locks_inv ls' \<and> (\<forall>o' x t. holds ls' o' x t \<longleftrightarrow>
         (if o' = fl_owner req \<and> x \<in> span req then t = fl_type req \<and> t \<noteq> F_UNLCK else holds ls o' x t))"
proof (cases "fl_type req \<noteq> F_UNLCK \<and> (\<exists>l \<in> set ls. file_locks_conflict l req)")
  case True
  then obtain l where l: "l \<in> set ls" "file_locks_conflict l req" by blast
  have "fl_start l \<le> fl_end l" using assms(1) l(1) by (auto simp: locks_inv_def)
  then have "\<exists>o' x t. o' \<noteq> fl_owner req \<and> x \<in> span req \<and> holds ls o' x t \<and> (t = F_WRLCK \<or> fl_type req = F_WRLCK)"
    using l conflict_iff [OF _ assms(2), of l] unfolding holds_def by metis
  with True show ?thesis by (simp add: file_lock_acquire_def)
next
  case False
  then have free: "fl_type req \<noteq> F_UNLCK \<longrightarrow> (\<forall>l \<in> set ls. \<not> file_locks_conflict l req)" by blast
  show ?thesis
  proof (cases "file_lock_acquire ls req")
    case None
    then have "acquire_loop False req False ls = None"
      using False unfolding file_lock_acquire_def by (auto simp: bind_eq_None_conv split: prod.splits)
    then have "\<exists>l \<in> insert req (set ls). fl_start l = - (2 ^ 63)"
      using acquire_loop_defined [of req ls False False] by auto
    with None show ?thesis by simp
  next
    case (Some res)
    with acquire_ok [OF assms free Some] show ?thesis by auto
  qed
qed

definition ex_locks :: "file_lock list" where
  "ex_locks = [\<lparr>fl_start = 0, fl_end = 99, fl_type = F_RDLCK, fl_pid = 1, fl_owner = 1\<rparr>,
               \<lparr>fl_start = 50, fl_end = 60, fl_type = F_RDLCK, fl_pid = 2, fl_owner = 2\<rparr>]"

theorem file_lock_acquire_correct_witness:
  "locks_inv ex_locks \<and> (\<exists>n ls'. file_lock_acquire ex_locks
      \<lparr>fl_start = 10, fl_end = 20, fl_type = F_WRLCK, fl_pid = 1, fl_owner = 1\<rparr> = Some (Inr (n, ls'))
    \<and> holds ls' 1 15 F_WRLCK \<and> holds ls' 1 21 F_RDLCK \<and> holds ls' 2 55 F_RDLCK)"
proof
  show inv: "locks_inv ex_locks"
    by (auto simp: locks_inv_def ex_locks_def file_locks_conflict_def)
  let ?r = "\<lparr>fl_start = 10, fl_end = 20, fl_type = F_WRLCK, fl_pid = 1, fl_owner = 1\<rparr> :: file_lock"
  obtain n ls' where a: "file_lock_acquire ex_locks ?r = Some (Inr (n, ls'))"
    by (simp add: file_lock_acquire_def ex_locks_def file_locks_conflict_def file_locks_overlap_def lock_subtract_def)
  have "locks_inv ls' \<and> (\<forall>o' x t. holds ls' o' x t \<longleftrightarrow>
         (if o' = fl_owner ?r \<and> x \<in> span ?r then t = fl_type ?r \<and> t \<noteq> F_UNLCK else holds ex_locks o' x t))"
    using file_lock_acquire_correct [OF inv, of ?r] a by simp
  then have "holds ls' 1 15 F_WRLCK \<and> holds ls' 1 21 F_RDLCK \<and> holds ls' 2 55 F_RDLCK"
    by (auto simp: span_def holds_def ex_locks_def)
  with a show "\<exists>n ls'. file_lock_acquire ex_locks ?r = Some (Inr (n, ls'))
    \<and> holds ls' 1 15 F_WRLCK \<and> holds ls' 1 21 F_RDLCK \<and> holds ls' 2 55 F_RDLCK" by blast
qed

end
