(* ===== verification/Fd_Table.thy ===== *)
theory Fd_Table
  imports File_Lock
begin

text \<open>
  File descriptor tables, \<^verbatim>\<open>fs/fd.c\<close>, and the bit arrays of \<^verbatim>\<open>util/bits.h\<close>. An open file
  (\<open>struct fd\<close>) is a number into a heap of reference-counted records. The drivers' \<open>close\<close>,
  \<open>getflags\<close> and \<open>setflags\<close> operations are data of the file: the value they return, if the driver
  has them; \<open>fd_fs_close_op\<close> is the \<open>close\<close> of the mount's file system when it is another one. The heap records the files that were destroyed and the files whose record locks were
  dropped. The limit \<open>RLIMIT_NOFILE\<close> and the success of \<open>malloc\<close> are arguments. \<open>None\<close> is an access
  outside an array, to a freed file, or a failed assertion.
\<close>

section \<open>Bit arrays (util/bits.h)\<close>

definition BITS_SIZE :: "nat \<Rightarrow> nat" where
  "BITS_SIZE n = (n - 1) div 8 + 1"

definition bit_test :: "nat \<Rightarrow> u8 list \<Rightarrow> bool option" where
  "bit_test i c =
     (if i div 8 < length c then Some (c ! (i div 8) AND push_bit (i mod 8) 1 \<noteq> 0) else None)"

definition bit_set :: "nat \<Rightarrow> u8 list \<Rightarrow> u8 list option" where
  "bit_set i c =
     (if i div 8 < length c then Some (c[i div 8 := c ! (i div 8) OR push_bit (i mod 8) 1]) else None)"

definition bit_clear :: "nat \<Rightarrow> u8 list \<Rightarrow> u8 list option" where
  "bit_clear i c =
     (if i div 8 < length c then Some (c[i div 8 := c ! (i div 8) AND NOT (push_bit (i mod 8) 1)]) else None)"

section \<open>Files and tables\<close>

record fd =
  fd_refcount :: u32
  fd_flags :: u32
  fd_has_inode :: bool
  fd_close_op :: "int option"
  fd_fs_close_op :: "int option"
  fd_getflags_op :: "u32 option"
  fd_setflags_op :: "int option"

record files =
  fh_files :: "nat \<Rightarrow> fd option"
  fh_destroyed :: "nat list"
  fh_unlocked :: "nat list"

record fdtable =
  ft_refcount :: u32
  ft_files :: "nat option list"
  ft_cloexec :: "u8 list"

definition ft_size :: "fdtable \<Rightarrow> nat" where "ft_size t = length (ft_files t)"

definition fd_create :: fd where
  "fd_create = \<lparr>fd_refcount = 1, fd_flags = 0, fd_has_inode = False, fd_close_op = None,
                fd_fs_close_op = None, fd_getflags_op = None, fd_setflags_op = None\<rparr>"

definition fd_retain :: "files \<Rightarrow> nat \<Rightarrow> files option" where
  "fd_retain h i = do {
     f \<leftarrow> fh_files h i;
     Some (h\<lparr>fh_files := (fh_files h)(i \<mapsto> f\<lparr>fd_refcount := fd_refcount f + 1\<rparr>)\<rparr>)
   }"

definition fd_close_err :: "fd \<Rightarrow> int" where
  "fd_close_err f =
     (let err = (case fd_close_op f of Some e \<Rightarrow> e | None \<Rightarrow> 0) in
      case fd_fs_close_op f of Some e \<Rightarrow> if e < 0 then e else err | None \<Rightarrow> err)"

definition fd_close :: "files \<Rightarrow> nat \<Rightarrow> (int \<times> files) option" where
  "fd_close h i = do {
     f \<leftarrow> fh_files h i;
     Some (if fd_refcount f - 1 = 0
           then (fd_close_err f, h\<lparr>fh_files := (fh_files h)(i := None), fh_destroyed := fh_destroyed h @ [i]\<rparr>)
           else (0, h\<lparr>fh_files := (fh_files h)(i \<mapsto> f\<lparr>fd_refcount := fd_refcount f - 1\<rparr>)\<rparr>))
   }"

text \<open>The assertion requires a larger size; the old bits fill the front of the new array.\<close>

definition fdtable_resize :: "bool \<Rightarrow> fdtable \<Rightarrow> nat \<Rightarrow> (unit result \<times> fdtable) option" where
  "fdtable_resize alloc t n =
     (if \<not> n > ft_size t then None
      else if \<not> alloc then Some (Inl ENOMEM, t)
      else Some (Inr (), t\<lparr>ft_files := ft_files t @ replicate (n - ft_size t) None,
                           ft_cloexec := take (BITS_SIZE (ft_size t)) (ft_cloexec t)
                             @ replicate (BITS_SIZE n - length (take (BITS_SIZE (ft_size t)) (ft_cloexec t))) 0\<rparr>))"

definition fdtable_empty :: fdtable where
  "fdtable_empty = \<lparr>ft_refcount = 1, ft_files = [], ft_cloexec = []\<rparr>"

definition fdtable_new :: "bool \<Rightarrow> nat \<Rightarrow> fdtable result option" where
  "fdtable_new alloc n = do {
     (r, t) \<leftarrow> fdtable_resize alloc fdtable_empty n;
     Some (case r of Inl e \<Rightarrow> Inl e | Inr _ \<Rightarrow> Inr t)
   }"

fun retain_all :: "files \<Rightarrow> nat option list \<Rightarrow> files option" where
  "retain_all h [] = Some h"
| "retain_all h (None # fs) = retain_all h fs"
| "retain_all h (Some i # fs) = do { h' \<leftarrow> fd_retain h i; retain_all h' fs }"

definition fdtable_copy :: "bool \<Rightarrow> files \<Rightarrow> fdtable \<Rightarrow> (fdtable result \<times> files) option" where
  "fdtable_copy alloc h t = do {
     r \<leftarrow> fdtable_new alloc (ft_size t);
     case r of
       Inl e \<Rightarrow> Some (Inl e, h)
     | Inr n \<Rightarrow> do {
         h' \<leftarrow> retain_all h (ft_files t);
         Some (Inr (n\<lparr>ft_files := ft_files t, ft_cloexec := take (BITS_SIZE (ft_size t)) (ft_cloexec t)\<rparr>), h')
       }
   }"

text \<open>\<open>size = max + 1\<close> is computed in 32 bits: \<open>max = -1\<close> gives size 0.\<close>

definition fdtable_expand :: "bool \<Rightarrow> nat \<Rightarrow> fdtable \<Rightarrow> int \<Rightarrow> (unit result \<times> fdtable) option" where
  "fdtable_expand alloc nofile t mx =
     (let n = nat ((mx + 1) mod 2 ^ 32) in
      if n > nofile then Some (Inl EMFILE, t)
      else if ft_size t \<ge> n then Some (Inr (), t)
      else fdtable_resize alloc t n)"

text \<open>The bound is that of the current table: \<open>current\<close> is its size.\<close>

definition fdtable_get :: "nat \<Rightarrow> fdtable \<Rightarrow> int \<Rightarrow> nat option option" where
  "fdtable_get current_size t f =
     (if f < 0 \<or> nat f \<ge> current_size then Some None
      else if nat f < length (ft_files t) then Some (ft_files t ! nat f) else None)"

definition f_get :: "fdtable \<Rightarrow> int \<Rightarrow> nat option option" where
  "f_get t f = fdtable_get (ft_size t) t f"

function install_scan :: "nat option list \<Rightarrow> nat \<Rightarrow> nat \<Rightarrow> nat" where
  "install_scan fs n f = (if f < n \<and> fs ! f \<noteq> None then install_scan fs n (f + 1) else f)"
  by pat_completeness auto
termination by (relation "measure (\<lambda>(fs, n, f). n - f)") auto

declare install_scan.simps [simp del]

definition f_install_start ::
  "bool \<Rightarrow> nat \<Rightarrow> files \<Rightarrow> fdtable \<Rightarrow> nat \<Rightarrow> int \<Rightarrow> (nat result \<times> files \<times> fdtable) option" where
  "f_install_start alloc nofile h t fd start =
     (if start < 0 then None
      else do {
        let lim = nofile mod 2 ^ 32;
        let n = (if lim > ft_size t then ft_size t else lim);
        let f = install_scan (ft_files t) n (nat start);
        (r, t1) \<leftarrow> (if f \<ge> n then fdtable_expand alloc nofile t (int f) else Some (Inr (), t));
        case r of
          Inl e \<Rightarrow> do { (_, h') \<leftarrow> fd_close h fd; Some (Inl e, h', t1) }
        | Inr _ \<Rightarrow>
            if f < ft_size t1 then do {
              c \<leftarrow> bit_clear f (ft_cloexec t1);
              Some (Inr f, h, t1\<lparr>ft_files := (ft_files t1)[f := Some fd], ft_cloexec := c\<rparr>)
            } else None
      })"

definition O_APPEND :: u32 where "O_APPEND = 0x400"
definition O_NONBLOCK :: u32 where "O_NONBLOCK = 0x800"
definition O_CLOEXEC :: u32 where "O_CLOEXEC = 0x80000"

definition FD_ALLOWED_FLAGS :: u32 where "FD_ALLOWED_FLAGS = O_APPEND OR O_NONBLOCK"

definition fd_getflags :: "fd \<Rightarrow> u32" where
  "fd_getflags f = (case fd_getflags_op f of Some r \<Rightarrow> r | None \<Rightarrow> fd_flags f)"

definition fd_setflags :: "fd \<Rightarrow> u32 \<Rightarrow> int \<times> fd" where
  "fd_setflags f flags =
     (case fd_setflags_op f of
        Some r \<Rightarrow> (r, f)
      | None \<Rightarrow> (0, f\<lparr>fd_flags := (fd_flags f AND NOT FD_ALLOWED_FLAGS) OR (flags AND FD_ALLOWED_FLAGS)\<rparr>))"

definition file_update :: "files \<Rightarrow> nat \<Rightarrow> fd \<Rightarrow> files" where
  "file_update h i f = h\<lparr>fh_files := (fh_files h)(i \<mapsto> f)\<rparr>"

definition f_install ::
  "bool \<Rightarrow> nat \<Rightarrow> files \<Rightarrow> fdtable \<Rightarrow> nat \<Rightarrow> u32 \<Rightarrow> (nat result \<times> files \<times> fdtable) option" where
  "f_install alloc nofile h t fd flags = do {
     (r, h1, t1) \<leftarrow> f_install_start alloc nofile h t fd 0;
     case r of
       Inl e \<Rightarrow> Some (Inl e, h1, t1)
     | Inr f \<Rightarrow> do {
         c \<leftarrow> (if tst flags O_CLOEXEC then bit_set f (ft_cloexec t1) else Some (ft_cloexec t1));
         h2 \<leftarrow> (if tst flags O_NONBLOCK
                 then do { x \<leftarrow> fh_files h1 fd; Some (file_update h1 fd (snd (fd_setflags x O_NONBLOCK))) }
                 else Some h1);
         Some (Inr f, h2, t1\<lparr>ft_cloexec := c\<rparr>)
       }
   }"

text \<open>Closing a descriptor; an error of the driver is passed on but the slot is freed.\<close>

definition fdtable_close :: "nat \<Rightarrow> files \<Rightarrow> fdtable \<Rightarrow> int \<Rightarrow> (int result \<times> files \<times> fdtable) option" where
  "fdtable_close current_size h t f = do {
     r \<leftarrow> fdtable_get current_size t f;
     case r of
       None \<Rightarrow> Some (Inl EBADF, h, t)
     | Some i \<Rightarrow> do {
         x \<leftarrow> fh_files h i;
         let h1 = (if fd_has_inode x then h\<lparr>fh_unlocked := fh_unlocked h @ [i]\<rparr> else h);
         (err, h2) \<leftarrow> fd_close h1 i;
         c \<leftarrow> bit_clear (nat f) (ft_cloexec t);
         Some (Inr err, h2, t\<lparr>ft_files := (ft_files t)[nat f := None], ft_cloexec := c\<rparr>)
       }
   }"

definition f_close :: "files \<Rightarrow> fdtable \<Rightarrow> int \<Rightarrow> (int result \<times> files \<times> fdtable) option" where
  "f_close h t f = fdtable_close (ft_size t) h t f"

fun close_range :: "nat \<Rightarrow> files \<Rightarrow> fdtable \<Rightarrow> nat list \<Rightarrow> (files \<times> fdtable) option" where
  "close_range cs h t [] = Some (h, t)"
| "close_range cs h t (f # fs) = do {
     (_, h', t') \<leftarrow> fdtable_close cs h t (int f);
     close_range cs h' t' fs
   }"

definition fdtable_release :: "nat \<Rightarrow> files \<Rightarrow> fdtable \<Rightarrow> (files \<times> fdtable option) option" where
  "fdtable_release cs h t =
     (if ft_refcount t - 1 = 0 then do {
        (h', t') \<leftarrow> close_range cs h t [0..<ft_size t];
        Some (h', None)
      } else Some (h, Some (t\<lparr>ft_refcount := ft_refcount t - 1\<rparr>)))"

fun cloexec_range :: "nat \<Rightarrow> files \<Rightarrow> fdtable \<Rightarrow> nat list \<Rightarrow> (files \<times> fdtable) option" where
  "cloexec_range cs h t [] = Some (h, t)"
| "cloexec_range cs h t (f # fs) = do {
     b \<leftarrow> bit_test f (ft_cloexec t);
     (h', t') \<leftarrow> (if b then map_option snd (fdtable_close cs h t (int f)) else Some (h, t));
     cloexec_range cs h' t' fs
   }"

definition fdtable_do_cloexec :: "nat \<Rightarrow> files \<Rightarrow> fdtable \<Rightarrow> (files \<times> fdtable) option" where
  "fdtable_do_cloexec cs h t = cloexec_range cs h t [0..<ft_size t]"

section \<open>System calls\<close>

definition sys_dup :: "bool \<Rightarrow> nat \<Rightarrow> files \<Rightarrow> fdtable \<Rightarrow> int \<Rightarrow> (nat result \<times> files \<times> fdtable) option" where
  "sys_dup alloc nofile h t f = do {
     r \<leftarrow> f_get t f;
     case r of
       None \<Rightarrow> Some (Inl EBADF, h, t)
     | Some i \<Rightarrow> do { h1 \<leftarrow> fd_retain h i; f_install alloc nofile h1 t i 0 }
   }"

definition sys_dup3 ::
  "bool \<Rightarrow> nat \<Rightarrow> files \<Rightarrow> fdtable \<Rightarrow> int \<Rightarrow> int \<Rightarrow> u32 \<Rightarrow> (int result \<times> files \<times> fdtable) option" where
  "sys_dup3 alloc nofile h t f new_f flags = do {
     r \<leftarrow> f_get t f;
     case r of
       None \<Rightarrow> Some (Inl EBADF, h, t)
     | Some i \<Rightarrow> do {
         (e, t1) \<leftarrow> fdtable_expand alloc nofile t new_f;
         case e of
           Inl err \<Rightarrow> Some (Inl err, h, t1)
         | Inr _ \<Rightarrow> do {
             h1 \<leftarrow> fd_retain h i;
             (_, h2, t2) \<leftarrow> f_close h1 t1 new_f;
             if 0 \<le> new_f \<and> nat new_f < ft_size t2 then do {
               c \<leftarrow> (if tst flags O_CLOEXEC then bit_set (nat new_f) (ft_cloexec t2) else Some (ft_cloexec t2));
               Some (Inr new_f, h2, t2\<lparr>ft_files := (ft_files t2)[nat new_f := Some i], ft_cloexec := c\<rparr>)
             } else None
           }
       }
   }"

definition sys_dup2 ::
  "bool \<Rightarrow> nat \<Rightarrow> files \<Rightarrow> fdtable \<Rightarrow> int \<Rightarrow> int \<Rightarrow> (int result \<times> files \<times> fdtable) option" where
  "sys_dup2 alloc nofile h t f new_f = sys_dup3 alloc nofile h t f new_f 0"

datatype fcntl_cmd =
    F_DUPFD | F_GETFD | F_SETFD | F_GETFL | F_SETFL
  | F_GETLK | F_SETLK | F_SETLKW | F_GETLK64 | F_SETLK64 | F_SETLKW64 | F_DUPFD_CLOEXEC | F_OTHER

text \<open>
  The record-lock commands. \<open>le_flock\<close> and \<open>le_flock32\<close> are the structures that \<open>user_read\<close> finds at
  the argument, in the 64-bit and in the 32-bit layout (\<open>None\<close>: the read fails), \<open>le_write_ok\<close> says
  whether the \<open>user_write\<close> of the answer succeeds; the rest is what \<open>fcntl_getlk\<close> and \<open>fcntl_setlk\<close>
  take of the file and the caller. The fields of the 32-bit layout are unsigned.
\<close>

record flock32 =
  f32_type :: lock_type
  f32_whence :: lseek_whence
  f32_start :: u32
  f32_len :: u32
  f32_pid :: int

record lock_env =
  le_flock :: "flock option"
  le_flock32 :: "flock32 option"
  le_write_ok :: bool
  le_fuel :: nat
  le_wait :: "nat \<Rightarrow> file_lock list \<Rightarrow> file_lock list \<times> errno option"
  le_lseek :: "int result option"
  le_size :: "int result"
  le_mode :: access_mode
  le_files :: nat
  le_pid :: int

definition flock_of_32 :: "flock32 \<Rightarrow> flock" where
  "flock_of_32 x = \<lparr>f_type = f32_type x, f_whence = f32_whence x, f_start = uint (f32_start x),
                    f_len = uint (f32_len x), f_pid = f32_pid x\<rparr>"

definition flock_to_32 :: "flock \<Rightarrow> flock32" where
  "flock_to_32 x = \<lparr>f32_type = f_type x, f32_whence = f_whence x, f32_start = word_of_int (f_start x),
                    f32_len = word_of_int (f_len x), f32_pid = f_pid x\<rparr>"

definition fcntl_lock_get :: "lock_env \<Rightarrow> file_lock list \<Rightarrow> flock option \<Rightarrow> (int result \<times> flock option) option" where
  "fcntl_lock_get le locks arg =
     (case arg of
        None \<Rightarrow> Some (Inl EFAULT, None)
      | Some fl \<Rightarrow> do {
          r \<leftarrow> fcntl_getlk (le_lseek le) (le_size le) (le_files le) (le_pid le) locks fl;
          Some (case r of
                  Inl e \<Rightarrow> (Inl e, None)
                | Inr ans \<Rightarrow> if le_write_ok le then (Inr 0, Some ans) else (Inl EFAULT, None))
        })"

definition fcntl_lock_set ::
  "lock_env \<Rightarrow> file_lock list \<Rightarrow> flock option \<Rightarrow> bool \<Rightarrow> (int result \<times> file_lock list) option" where
  "fcntl_lock_set le locks arg blocking =
     (case arg of
        None \<Rightarrow> Some (Inl EFAULT, locks)
      | Some fl \<Rightarrow> do {
          (r, locks') \<leftarrow> fcntl_setlk (le_fuel le) (le_wait le) (le_lseek le) (le_size le) (le_mode le)
                            (le_files le) (le_pid le) locks fl blocking;
          Some (case r of Inl e \<Rightarrow> Inl e | Inr _ \<Rightarrow> Inr 0, locks')
        })"

text \<open>
  The answer is given in the 64-bit layout; that of \<open>F_GETLK\<close> has gone through the 32-bit one, which
  cuts \<open>start\<close> and \<open>len\<close>. The flags of the blocking variants are as in the code.
\<close>

definition fcntl_lock ::
  "lock_env \<Rightarrow> file_lock list \<Rightarrow> fcntl_cmd \<Rightarrow> (int result \<times> file_lock list \<times> flock option) option" where
  "fcntl_lock le locks cmd =
     (if cmd = F_GETLK then do {
        (r, ans) \<leftarrow> fcntl_lock_get le locks (map_option flock_of_32 (le_flock32 le));
        Some (r, locks, map_option (flock_of_32 \<circ> flock_to_32) ans)
      } else if cmd = F_GETLK64 then do {
        (r, ans) \<leftarrow> fcntl_lock_get le locks (le_flock le); Some (r, locks, ans)
      } else if cmd = F_SETLK \<or> cmd = F_SETLKW then do {
        (r, locks') \<leftarrow> fcntl_lock_set le locks (map_option flock_of_32 (le_flock32 le)) (cmd = F_SETLKW64);
        Some (r, locks', None)
      } else if cmd = F_SETLK64 \<or> cmd = F_SETLKW64 then do {
        (r, locks') \<leftarrow> fcntl_lock_set le locks (le_flock le) (cmd = F_SETLKW);
        Some (r, locks', None)
      } else Some (Inl EINVAL, locks, None))"

definition fcntl_dupfd ::
  "bool \<Rightarrow> nat \<Rightarrow> files \<Rightarrow> fdtable \<Rightarrow> nat \<Rightarrow> u32 \<Rightarrow> (int result \<times> files \<times> fdtable) option" where
  "fcntl_dupfd alloc nofile h t i arg = do {
     h1 \<leftarrow> fd_retain h i;
     (r, h2, t2) \<leftarrow> f_install_start alloc nofile h1 t i (sint arg);
     Some (case r of Inl e \<Rightarrow> Inl e | Inr n \<Rightarrow> Inr (int n), h2, t2)
   }"

definition fcntl_fd ::
  "bool \<Rightarrow> nat \<Rightarrow> files \<Rightarrow> fdtable \<Rightarrow> int \<Rightarrow> nat \<Rightarrow> fcntl_cmd \<Rightarrow> u32 \<Rightarrow> (int result \<times> files \<times> fdtable) option" where
  "fcntl_fd alloc nofile h t f i cmd arg =
     (case cmd of
        F_DUPFD \<Rightarrow> fcntl_dupfd alloc nofile h t i arg
      | F_DUPFD_CLOEXEC \<Rightarrow> do {
          (r, h2, t2) \<leftarrow> fcntl_dupfd alloc nofile h t i arg;
          n \<leftarrow> (case r of Inl e \<Rightarrow> None | Inr n \<Rightarrow> Some n);
          c \<leftarrow> bit_set (nat n) (ft_cloexec t2);
          Some (r, h2, t2\<lparr>ft_cloexec := c\<rparr>)
        }
      | F_GETFD \<Rightarrow> do {
          b \<leftarrow> bit_test (nat f) (ft_cloexec t);
          Some (Inr (if b then 1 else 0), h, t)
        }
      | F_SETFD \<Rightarrow> do {
          c \<leftarrow> (if arg AND 1 \<noteq> 0 then bit_set (nat f) (ft_cloexec t) else bit_clear (nat f) (ft_cloexec t));
          Some (Inr 0, h, t\<lparr>ft_cloexec := c\<rparr>)
        }
      | F_GETFL \<Rightarrow> do { x \<leftarrow> fh_files h i; Some (Inr (uint (fd_getflags x)), h, t) }
      | F_SETFL \<Rightarrow> do {
          x \<leftarrow> fh_files h i;
          Some (Inr (fst (fd_setflags x arg)), file_update h i (snd (fd_setflags x arg)), t)
        }
      | _ \<Rightarrow> Some (Inl EINVAL, h, t))"

definition sys_fcntl ::
  "bool \<Rightarrow> nat \<Rightarrow> lock_env \<Rightarrow> files \<Rightarrow> fdtable \<Rightarrow> file_lock list \<Rightarrow> int \<Rightarrow> fcntl_cmd \<Rightarrow> u32
     \<Rightarrow> (int result \<times> files \<times> fdtable \<times> file_lock list \<times> flock option) option" where
  "sys_fcntl alloc nofile le h t locks f cmd arg = do {
     r \<leftarrow> f_get t f;
     case r of
       None \<Rightarrow> Some (Inl EBADF, h, t, locks, None)
     | Some i \<Rightarrow>
         if cmd \<in> {F_GETLK, F_SETLK, F_SETLKW, F_GETLK64, F_SETLK64, F_SETLKW64} then do {
           (res, locks', ans) \<leftarrow> fcntl_lock le locks cmd;
           Some (res, h, t, locks', ans)
         } else do {
           (res, h', t') \<leftarrow> fcntl_fd alloc nofile h t f i cmd arg;
           Some (res, h', t', locks, None)
         }
   }"

definition sys_fcntl32 ::
  "bool \<Rightarrow> nat \<Rightarrow> lock_env \<Rightarrow> files \<Rightarrow> fdtable \<Rightarrow> file_lock list \<Rightarrow> int \<Rightarrow> fcntl_cmd \<Rightarrow> u32
     \<Rightarrow> (int result \<times> files \<times> fdtable \<times> file_lock list \<times> flock option) option" where
  "sys_fcntl32 alloc nofile le h t locks f cmd arg =
     (if cmd = F_GETLK64 \<or> cmd = F_SETLK64 \<or> cmd = F_SETLKW64 then Some (Inl EINVAL, h, t, locks, None)
      else sys_fcntl alloc nofile le h t locks f cmd arg)"

end
