(* ===== verification/Fd_Props.thy ===== *)
theory Fd_Props
  imports Fd_Table
begin

text \<open>
  Correctness of the descriptor table: bit arrays, the choice of the lowest free descriptor,
  reference counts of open files, and close-on-exec.
\<close>

section \<open>Bit arrays\<close>

text \<open>The interface the table relies on for its close-on-exec bits.\<close>

locale bit_array =
  fixes test :: "nat \<Rightarrow> 'b \<Rightarrow> bool option"
    and put :: "nat \<Rightarrow> 'b \<Rightarrow> 'b option"
    and unput :: "nat \<Rightarrow> 'b \<Rightarrow> 'b option"
  assumes test_put: "put i b = Some b' \<Longrightarrow> test j b' = (if j = i then Some True else test j b)"
    and test_unput: "unput i b = Some b' \<Longrightarrow> test j b' = (if j = i then Some False else test j b)"
    and put_defined: "put i b \<noteq> None \<longleftrightarrow> test i b \<noteq> None"
    and unput_defined: "unput i b \<noteq> None \<longleftrightarrow> test i b \<noteq> None"
begin

lemma put_unput: "put i b = Some b1 \<Longrightarrow> unput i b1 = Some b2 \<Longrightarrow> test j b2 = (if j = i then Some False else test j b)"
  by (simp add: test_put test_unput)

lemma unput_ok: "test i b \<noteq> None \<Longrightarrow> \<exists>b'. unput i b = Some b' \<and> (\<forall>j. test j b' = (if j = i then Some False else test j b))"
  using unput_defined test_unput by (metis not_None_eq)

end

lemma bit_mask_test: "n < 8 \<Longrightarrow> w AND push_bit n 1 \<noteq> 0 \<longleftrightarrow> bit w n" for w :: u8
  unfolding tst_iff by (auto simp: bit_simps)

lemma bit_test_alt: "bit_test i c = (if i div 8 < length c then Some (bit (c ! (i div 8)) (i mod 8)) else None)"
  using bit_mask_test [of "i mod 8" "c ! (i div 8)"] by (simp add: bit_test_def)

lemma same_bit: "j div 8 = i div 8 \<Longrightarrow> j mod 8 = i mod 8 \<longleftrightarrow> j = (i::nat)"
  by (metis div_mult_mod_eq)

interpretation cloexec_bits: bit_array bit_test bit_set bit_clear
proof
  fix i j b b'
  assume s: "bit_set i b = Some b'"
  show "bit_test j b' = (if j = i then Some True else bit_test j b)"
    using s same_bit [of j i]
    by (auto simp: bit_set_def bit_test_alt nth_list_update bit_simps split: if_splits)
next
  fix i j b b'
  assume s: "bit_clear i b = Some b'"
  show "bit_test j b' = (if j = i then Some False else bit_test j b)"
    using s same_bit [of j i]
    by (auto simp: bit_clear_def bit_test_alt nth_list_update bit_simps split: if_splits)
qed (auto simp: bit_set_def bit_clear_def bit_test_def)

section \<open>The table\<close>

definition table_ok :: "fdtable \<Rightarrow> bool" where
  "table_ok t \<longleftrightarrow> 0 < ft_size t \<and> length (ft_cloexec t) = BITS_SIZE (ft_size t)"

definition slot :: "fdtable \<Rightarrow> nat \<Rightarrow> nat option" where
  "slot t f = (if f < ft_size t then ft_files t ! f else None)"

definition cloexec :: "fdtable \<Rightarrow> nat \<Rightarrow> bool" where
  "cloexec t f = (bit_test f (ft_cloexec t) = Some True)"

lemma bits_size_covers: "f < n \<Longrightarrow> f div 8 < BITS_SIZE n"
  by (simp add: BITS_SIZE_def)

lemma test_defined: "table_ok t \<Longrightarrow> f < ft_size t \<Longrightarrow> bit_test f (ft_cloexec t) \<noteq> None"
  using bits_size_covers [of f "ft_size t"] by (simp add: bit_test_def table_ok_def)

lemma resize_ok:
  assumes "table_ok t" "ft_size t < n"
  shows "\<exists>t'. fdtable_resize True t n = Some (Inr (), t') \<and> table_ok t' \<and> ft_size t' = n \<and> slot t' = slot t
     \<and> (\<forall>f < ft_size t. cloexec t' f = cloexec t f)
     \<and> ft_files t' = ft_files t @ replicate (n - ft_size t) None"
proof -
  let ?t = "t\<lparr>ft_files := ft_files t @ replicate (n - ft_size t) None,
     ft_cloexec := take (BITS_SIZE (ft_size t)) (ft_cloexec t)
        @ replicate (BITS_SIZE n - length (take (BITS_SIZE (ft_size t)) (ft_cloexec t))) 0\<rparr>"
  have "BITS_SIZE (ft_size t) \<le> BITS_SIZE n" using assms(2) by (simp add: BITS_SIZE_def div_le_mono)
  then have "table_ok ?t" "ft_size ?t = n"
    using assms by (auto simp: table_ok_def ft_size_def)
  moreover have "slot ?t = slot t"
    using assms by (auto simp: slot_def ft_size_def nth_append fun_eq_iff)
  moreover have "cloexec ?t f = cloexec t f" if "f < ft_size t" for f
    using assms(1) bits_size_covers [OF that] by (simp add: cloexec_def bit_test_def nth_append table_ok_def)
  ultimately show ?thesis using assms(2) by (simp add: fdtable_resize_def)
qed

lemma expand_size: "f + 1 < 2 ^ 32 \<Longrightarrow> nat ((int f + 1) mod 2 ^ 32) = f + 1"
  by (simp add: nat_add_distrib)

lemma expand_alt:
  "f + 1 < 2 ^ 32 \<Longrightarrow> fdtable_expand alloc nofile t (int f) =
     (if f + 1 > nofile then Some (Inl EMFILE, t)
      else if ft_size t \<ge> f + 1 then Some (Inr (), t)
      else fdtable_resize alloc t (f + 1))"
  unfolding fdtable_expand_def Let_def by (simp only: expand_size)

lemma expand_refused:
  "nofile \<le> f \<Longrightarrow> f + 1 < 2 ^ 32 \<Longrightarrow> fdtable_expand alloc nofile t (int f) = Some (Inl EMFILE, t)"
  by (simp add: expand_alt)

lemma install_scan_unfold:
  "install_scan fs n f = (if f < n \<and> fs ! f \<noteq> None then install_scan fs n (Suc f) else f)"
  unfolding Suc_eq_plus1 by (rule install_scan.simps)

lemma install_scan_spec:
  "f \<le> install_scan fs n f \<and> (install_scan fs n f < n \<longrightarrow> fs ! install_scan fs n f = None)
   \<and> (\<forall>g. f \<le> g \<and> g < install_scan fs n f \<longrightarrow> g < n \<and> fs ! g \<noteq> None)"
proof (induction fs n f rule: install_scan.induct)
  case (1 fs n f)
  show ?case
  proof (cases "f < n \<and> fs ! f \<noteq> None")
    case True
    then have e: "install_scan fs n f = install_scan fs n (Suc f)" by (subst install_scan_unfold) simp
    note IH = 1 [OF True, simplified]
    have "g < n \<and> fs ! g \<noteq> None" if "f \<le> g" "g < install_scan fs n (Suc f)" for g
      using IH that True by (cases "g = f") auto
    then show ?thesis unfolding e using IH by auto
  next
    case False
    then have "install_scan fs n f = f" by (subst install_scan_unfold) auto
    with False show ?thesis by auto
  qed
qed

section \<open>Reference counts\<close>

text \<open>
  \<open>ext i\<close> is the number of references to file \<open>i\<close> held outside the table: those of other tables, of
  running system calls and of the kernel's own structures.
\<close>

definition refs_ok :: "files \<Rightarrow> (nat \<Rightarrow> nat) \<Rightarrow> bool" where
  "refs_ok h n \<longleftrightarrow>
     (\<forall>i. (fh_files h i = None \<longrightarrow> n i = 0) \<and> (\<forall>x. fh_files h i = Some x \<longrightarrow> unat (fd_refcount x) = n i \<and> 0 < n i))"

definition held :: "fdtable \<Rightarrow> nat \<Rightarrow> nat" where
  "held t i = count_list (ft_files t) (Some i)"

definition counts :: "files \<Rightarrow> fdtable \<Rightarrow> (nat \<Rightarrow> nat) \<Rightarrow> bool" where
  "counts h t ext \<longleftrightarrow> refs_ok h (\<lambda>i. held t i + ext i)"

definition fd_room :: "files \<Rightarrow> bool" where
  "fd_room h \<longleftrightarrow> (\<forall>i x. fh_files h i = Some x \<longrightarrow> unat (fd_refcount x) + 1 < 2 ^ 32)"

lemma count_list_update:
  "f < length xs \<Longrightarrow>
     count_list (xs[f := v]) y + of_bool (xs ! f = y) = count_list xs y + of_bool (v = y)"
proof (induction xs arbitrary: f)
  case (Cons a xs)
  then show ?case using Cons.IH [of "f - 1"] by (cases f) auto
qed simp

lemma slot_held: "slot t f = Some i \<Longrightarrow> f < ft_size t \<and> ft_files t ! f = Some i \<and> 0 < held t i"
  by (auto simp: slot_def ft_size_def held_def count_list_0_iff neq0_conv [symmetric] in_set_conv_nth split: if_splits)

lemma unat_inc: "unat w + 1 < 2 ^ 32 \<Longrightarrow> unat (w + 1) = unat w + 1" for w :: u32
  by (simp add: unat_word_ariths)

lemma unat_dec: "0 < unat w \<Longrightarrow> unat (w - 1) = unat w - 1" for w :: u32
  by (metis unat_minus_one unat_0 neq0_conv)

lemma refs_okD: "refs_ok h n \<Longrightarrow> 0 < n i \<Longrightarrow> \<exists>x. fh_files h i = Some x \<and> unat (fd_refcount x) = n i"
  unfolding refs_ok_def by (metis not_None_eq neq0_conv)

lemma retain_refs:
  assumes "refs_ok h n" "fd_room h" "0 < n i"
  shows "\<exists>h'. fd_retain h i = Some h' \<and> refs_ok h' (n(i := n i + 1))"
proof -
  obtain x where x: "fh_files h i = Some x" "unat (fd_refcount x) = n i"
    using refs_okD [OF assms(1,3)] by blast
  then have "unat (fd_refcount x) + 1 < 2 ^ 32" using assms(2) unfolding fd_room_def by blast
  from unat_inc [OF this] show ?thesis using assms(1) x by (auto simp: fd_retain_def refs_ok_def)
qed

text \<open>Giving back one reference destroys the file exactly when it was the last one.\<close>

lemma close_refs:
  assumes "refs_ok h n" "0 < n i"
  shows "\<exists>err h'. fd_close h i = Some (err, h') \<and> refs_ok h' (n(i := n i - 1))
     \<and> fh_destroyed h' = fh_destroyed h @ (if n i = 1 then [i] else []) \<and> fh_unlocked h' = fh_unlocked h"
proof -
  obtain x where x: "fh_files h i = Some x" "unat (fd_refcount x) = n i"
    using refs_okD [OF assms] by blast
  then have u: "unat (fd_refcount x - 1) = n i - 1" using unat_dec [of "fd_refcount x"] assms(2) by simp
  show ?thesis
  proof (cases "fd_refcount x - 1 = 0")
    case True
    then have "n i = 1" using u assms(2) by simp
    with True x assms(1) show ?thesis by (auto simp: fd_close_def refs_ok_def)
  next
    case False
    then have "n i \<noteq> 1" "0 < n i - 1" using u assms(2) by (simp_all add: unat_eq_zero [symmetric] del: unat_eq_zero)
    with False x u assms(1) show ?thesis by (auto simp: fd_close_def refs_ok_def)
  qed
qed

lemma held_update:
  "f < ft_size t \<Longrightarrow> held (t\<lparr>ft_files := (ft_files t)[f := v], ft_cloexec := c\<rparr>) i + of_bool (ft_files t ! f = Some i)
     = held t i + of_bool (v = Some i)"
  using count_list_update [of f "ft_files t" v "Some i"] by (simp add: held_def ft_size_def)

lemma slot_update:
  "f < ft_size t \<Longrightarrow> slot (t\<lparr>ft_files := (ft_files t)[f := v], ft_cloexec := c\<rparr>) = (slot t)(f := v)"
  by (auto simp: slot_def ft_size_def fun_eq_iff)

lemma refs_cong: "refs_ok h n \<Longrightarrow> (\<And>i. n i = m i) \<Longrightarrow> refs_ok h m"
  by (simp add: refs_ok_def)

section \<open>Closing\<close>

lemma clear_ok:
  assumes "table_ok t" "f < ft_size t"
  shows "\<exists>c. bit_clear f (ft_cloexec t) = Some c \<and> length c = length (ft_cloexec t)
     \<and> (\<forall>g. bit_test g c = (if g = f then Some False else bit_test g (ft_cloexec t)))"
proof -
  obtain c where c: "bit_clear f (ft_cloexec t) = Some c"
    "\<forall>g. bit_test g c = (if g = f then Some False else bit_test g (ft_cloexec t))"
    using cloexec_bits.unput_ok [OF test_defined [OF assms]] by blast
  then show ?thesis by (auto simp: bit_clear_def split: if_splits)
qed

lemma close_ok:
  assumes "table_ok t" "counts h t ext" "slot t f = Some i"
  shows "\<exists>err h' t'. fdtable_close (ft_size t) h t (int f) = Some (Inr err, h', t')
     \<and> table_ok t' \<and> ft_size t' = ft_size t \<and> slot t' = (slot t)(f := None) \<and> counts h' t' ext
     \<and> (\<forall>g. cloexec t' g = (g \<noteq> f \<and> cloexec t g))
     \<and> fh_destroyed h' = fh_destroyed h @ (if held t i + ext i = 1 then [i] else [])"
proof -
  have f: "f < ft_size t" "ft_files t ! f = Some i" "0 < held t i + ext i" using slot_held [OF assms(3)] by auto
  obtain x where x: "fh_files h i = Some x"
    using refs_okD [OF assms(2)[unfolded counts_def] f(3)] by blast
  let ?h = "if fd_has_inode x then h\<lparr>fh_unlocked := fh_unlocked h @ [i]\<rparr> else h"
  have r: "refs_ok ?h (\<lambda>i. held t i + ext i)" using assms(2) by (simp add: counts_def refs_ok_def)
  obtain err h' where h': "fd_close ?h i = Some (err, h')"
    "refs_ok h' ((\<lambda>i. held t i + ext i)(i := held t i + ext i - 1))"
    "fh_destroyed h' = fh_destroyed ?h @ (if held t i + ext i = 1 then [i] else [])"
    using close_refs [OF r f(3)] by blast
  obtain c where c: "bit_clear f (ft_cloexec t) = Some c" "length c = length (ft_cloexec t)"
    "\<forall>g. bit_test g c = (if g = f then Some False else bit_test g (ft_cloexec t))"
    using clear_ok [OF assms(1) f(1)] by blast
  let ?t = "t\<lparr>ft_files := (ft_files t)[f := None], ft_cloexec := c\<rparr>"
  have "((\<lambda>i. held t i + ext i)(i := held t i + ext i - 1)) j = held ?t j + ext j" for j
    using held_update [OF f(1), where v = None and c = c and i = j] f(2) by (cases "j = i") auto
  then have "counts h' ?t ext" unfolding counts_def by (rule refs_cong [OF h'(2)])
  moreover have "table_ok ?t" using assms(1) c(2) by (simp add: table_ok_def ft_size_def)
  moreover have "fdtable_close (ft_size t) h t (int f) = Some (Inr err, h', ?t)"
    using f x h'(1) c(1) by (simp add: fdtable_close_def fdtable_get_def ft_size_def Let_def)
  ultimately show ?thesis using slot_update [OF f(1)] c(3) h'(3)
    by (auto simp: cloexec_def ft_size_def)
qed

lemma close_empty: "f < ft_size t \<Longrightarrow> slot t f = None \<Longrightarrow> fdtable_close (ft_size t) h t (int f) = Some (Inl EBADF, h, t)"
  by (simp add: fdtable_close_def fdtable_get_def slot_def ft_size_def)

text \<open>Closing a descriptor whatever its slot holds.\<close>

lemma close_any:
  assumes "table_ok t" "counts h t ext" "f < ft_size t"
  shows "\<exists>r h' t'. fdtable_close (ft_size t) h t (int f) = Some (r, h', t')
     \<and> table_ok t' \<and> ft_size t' = ft_size t \<and> slot t' = (slot t)(f := None) \<and> counts h' t' ext
     \<and> (\<forall>g. g \<noteq> f \<longrightarrow> cloexec t' g = cloexec t g) \<and> (slot t f \<noteq> None \<longrightarrow> \<not> cloexec t' f)"
proof (cases "slot t f")
  case None
  then show ?thesis using close_empty [OF assms(3)] assms by (auto simp: fun_eq_iff)
next
  case (Some i)
  then show ?thesis using close_ok [OF assms(1,2) Some] by blast
qed

lemma cloexec_range_ok:
  assumes "table_ok t" "counts h t ext" "\<forall>f \<in> set fs. f < ft_size t" "distinct fs"
  shows "\<exists>h' t'. cloexec_range (ft_size t) h t fs = Some (h', t')
     \<and> table_ok t' \<and> ft_size t' = ft_size t \<and> counts h' t' ext
     \<and> (\<forall>g. slot t' g = (if g \<in> set fs \<and> cloexec t g then None else slot t g))
     \<and> (\<forall>g. slot t' g \<noteq> None \<longrightarrow> cloexec t' g = cloexec t g)"
  using assms
proof (induction fs arbitrary: h t)
  case (Cons f fs)
  then have f: "f < ft_size t" and fs: "\<forall>f \<in> set fs. f < ft_size t" "distinct fs" "f \<notin> set fs" by auto
  obtain b where b: "bit_test f (ft_cloexec t) = Some b" using test_defined [OF Cons.prems(1) f] by blast
  show ?case
  proof (cases b)
    case False
    then show ?thesis using Cons.IH [OF Cons.prems(1,2) fs(1,2)] b by (auto simp: cloexec_def)
  next
    case True
    then have cl: "cloexec t f" using b by (simp add: cloexec_def)
    obtain r h1 t1 where 1: "fdtable_close (ft_size t) h t (int f) = Some (r, h1, t1)"
      "table_ok t1" "ft_size t1 = ft_size t" "slot t1 = (slot t)(f := None)" "counts h1 t1 ext"
      "\<forall>g. g \<noteq> f \<longrightarrow> cloexec t1 g = cloexec t g"
      using close_any [OF Cons.prems(1,2) f] by blast
    obtain h2 t2 where 2: "cloexec_range (ft_size t) h1 t1 fs = Some (h2, t2)"
      "table_ok t2" "ft_size t2 = ft_size t" "counts h2 t2 ext"
      "\<forall>g. slot t2 g = (if g \<in> set fs \<and> cloexec t1 g then None else slot t1 g)"
      "\<forall>g. slot t2 g \<noteq> None \<longrightarrow> cloexec t2 g = cloexec t1 g"
      using Cons.IH [OF 1(2,5)] fs(1,2) 1(3) by auto
    have "slot t2 g = (if g \<in> set (f # fs) \<and> cloexec t g then None else slot t g)" for g
      using 2(5) 1(4,6) cl fs(3) by auto
    moreover have "slot t2 g \<noteq> None \<longrightarrow> cloexec t2 g = cloexec t g" for g
      using 2(5,6) 1(4,6) fs(3) by (cases "g = f") auto
    ultimately show ?thesis using b True 1(1) 2(1-4) by auto
  qed
qed auto

lemma close_range_ok:
  assumes "table_ok t" "counts h t ext" "\<forall>f \<in> set fs. f < ft_size t"
  shows "\<exists>h' t'. close_range (ft_size t) h t fs = Some (h', t')
     \<and> table_ok t' \<and> ft_size t' = ft_size t \<and> counts h' t' ext
     \<and> (\<forall>g. slot t' g = (if g \<in> set fs then None else slot t g))"
  using assms
proof (induction fs arbitrary: h t)
  case (Cons f fs)
  then have f: "f < ft_size t" and fs: "\<forall>f \<in> set fs. f < ft_size t" by auto
  obtain r h1 t1 where 1: "fdtable_close (ft_size t) h t (int f) = Some (r, h1, t1)"
    "table_ok t1" "ft_size t1 = ft_size t" "slot t1 = (slot t)(f := None)" "counts h1 t1 ext"
    using close_any [OF Cons.prems(1,2) f] by blast
  obtain h2 t2 where 2: "close_range (ft_size t) h1 t1 fs = Some (h2, t2)"
    "table_ok t2" "ft_size t2 = ft_size t" "counts h2 t2 ext"
    "\<forall>g. slot t2 g = (if g \<in> set fs then None else slot t1 g)"
    using Cons.IH [OF 1(2,5)] fs 1(3) by auto
  then show ?case using 1(1,4) by auto
qed auto

lemma expand_kept:
  assumes "table_ok t" "f < nofile" "nofile < 2 ^ 31"
  shows "\<exists>t'. fdtable_expand True nofile t (int f) = Some (Inr (), t') \<and> table_ok t' \<and> f < ft_size t'
     \<and> slot t' = slot t \<and> (\<forall>g < ft_size t. cloexec t' g = cloexec t g) \<and> held t' = held t"
proof -
  have a: "fdtable_expand True nofile t (int f) =
     (if ft_size t \<ge> f + 1 then Some (Inr (), t) else fdtable_resize True t (f + 1))"
    using assms expand_alt [of f] by simp
  show ?thesis
  proof (cases "ft_size t \<ge> f + 1")
    case True
    then show ?thesis using assms a by auto
  next
    case False
    obtain t' where t': "fdtable_resize True t (f + 1) = Some (Inr (), t')" "table_ok t'" "ft_size t' = f + 1"
      "slot t' = slot t" "\<forall>g < ft_size t. cloexec t' g = cloexec t g"
      "ft_files t' = ft_files t @ replicate (f + 1 - ft_size t) None"
      using resize_ok [OF assms(1), of "f + 1"] False by auto
    then have "held t' = held t" by (simp add: held_def fun_eq_iff count_list_0_iff)
    then show ?thesis using t' False unfolding a by auto
  qed
qed

section \<open>Installing\<close>

text \<open>What \<open>f_install_start\<close> scans for: the first free descriptor, which may lie past the table.\<close>

lemma scan_first:
  fixes t start nofile
  defines "f \<equiv> install_scan (ft_files t) (min nofile (ft_size t)) start"
  shows "start \<le> f" "\<forall>g. start \<le> g \<and> g < f \<longrightarrow> slot t g \<noteq> None" "f < nofile \<longrightarrow> slot t f = None"
proof -
  note S = install_scan_spec [of start "ft_files t" "min nofile (ft_size t)", folded f_def]
  show "start \<le> f" using S by simp
  show "\<forall>g. start \<le> g \<and> g < f \<longrightarrow> slot t g \<noteq> None" using S by (auto simp: slot_def)
  show "f < nofile \<longrightarrow> slot t f = None" using S by (auto simp: slot_def)
qed

lemma install_found:
  assumes t: "table_ok t" and lim: "nofile < 2 ^ 31"
    and f: "f = install_scan (ft_files t) (min nofile (ft_size t)) start" "f < nofile"
  shows "\<exists>t'. f_install_start True nofile h t i (int start) = Some (Inr f, h, t')
     \<and> table_ok t' \<and> slot t' = (slot t)(f \<mapsto> i) \<and> \<not> cloexec t' f
     \<and> (\<forall>g < ft_size t. g \<noteq> f \<longrightarrow> cloexec t' g = cloexec t g) \<and> (\<forall>ext. counts h t (ext(i := ext i + 1)) \<longrightarrow> counts h t' ext)"
proof -
  have n: "nofile mod 2 ^ 32 = nofile" using lim by simp
  have free: "slot t f = None" using scan_first(3) [of t nofile start] f by simp
  obtain t1 where t1: "(if f \<ge> min nofile (ft_size t) then fdtable_expand True nofile t (int f) else Some (Inr (), t)) = Some (Inr (), t1)"
    "table_ok t1" "f < ft_size t1" "slot t1 = slot t" "\<forall>g < ft_size t. cloexec t1 g = cloexec t g"
    "held t1 = held t"
  proof (cases "f \<ge> min nofile (ft_size t)")
    case True
    then show ?thesis using that expand_kept [OF t f(2) lim] by auto
  next
    case False
    then show ?thesis using that [of t] t by simp
  qed
  obtain c where c: "bit_clear f (ft_cloexec t1) = Some c" "length c = length (ft_cloexec t1)"
    "\<forall>g. bit_test g c = (if g = f then Some False else bit_test g (ft_cloexec t1))"
    using clear_ok [OF t1(2,3)] by blast
  let ?t = "t1\<lparr>ft_files := (ft_files t1)[f := Some i], ft_cloexec := c\<rparr>"
  have e: "ft_files t1 ! f = None" using free t1(3) unfolding t1(4) [symmetric] by (simp add: slot_def)
  have "counts h ?t ext" if "counts h t (ext(i := ext i + 1))" for ext
  proof -
    have "held t j + (ext(i := ext i + 1)) j = held ?t j + ext j" for j
      using held_update [OF t1(3), where v = "Some i" and c = c and i = j] e t1(6) by (cases "j = i") auto
    from refs_cong [OF that [unfolded counts_def] this] show ?thesis by (simp add: counts_def)
  qed
  moreover have "table_ok ?t" using t1(2) c(2) by (simp add: table_ok_def ft_size_def)
  moreover have "f_install_start True nofile h t i (int start) = Some (Inr f, h, ?t)"
    using t1(1,3) c(1) n f(1) by (simp add: f_install_start_def min_def Let_def not_less [symmetric] split: if_splits)
  ultimately show ?thesis using slot_update [OF t1(3)] t1(4,5) c(3) by (auto simp: cloexec_def)
qed

lemma install_refused:
  assumes lim: "nofile < 2 ^ 31" and st: "start < 2 ^ 31" and i: "counts h t (ext(i := ext i + 1))"
    and f: "f = install_scan (ft_files t) (min nofile (ft_size t)) start" "nofile \<le> f"
  shows "\<exists>h'. f_install_start alloc nofile h t i (int start) = Some (Inl EMFILE, h', t) \<and> counts h' t ext"
proof -
  have n: "nofile mod 2 ^ 32 = nofile" using lim by simp
  note S = install_scan_spec [of start "ft_files t" "min nofile (ft_size t)", folded f(1)]
  have "f \<le> max start nofile"
  proof (rule ccontr)
    assume "\<not> f \<le> max start nofile"
    then have "start \<le> max start nofile \<and> max start nofile < f" by linarith
    with S have "max start nofile < min nofile (ft_size t)" by blast
    then show False by simp
  qed
  then have "f + 1 < 2 ^ 32" using lim st by simp
  then have x: "fdtable_expand alloc nofile t (int f) = Some (Inl EMFILE, t)" by (rule expand_refused [OF f(2)])
  obtain err h' where h': "fd_close h i = Some (err, h')"
    "refs_ok h' ((\<lambda>j. held t j + (ext(i := ext i + 1)) j)(i := held t i + (ext(i := ext i + 1)) i - 1))"
    using close_refs [OF i [unfolded counts_def], of i] by auto
  have "counts h' t ext" unfolding counts_def by (rule refs_cong [OF h'(2)]) simp
  moreover have "f_install_start alloc nofile h t i (int start) = Some (Inl EMFILE, h', t)"
    using x h'(1) n f by (simp add: f_install_start_def min_def Let_def not_less [symmetric] split: if_splits)
  ultimately show ?thesis by blast
qed

lemma set_if:
  assumes "table_ok t" "f < ft_size t"
  shows "\<exists>c. (if b then bit_set f (ft_cloexec t) else Some (ft_cloexec t)) = Some c \<and> length c = length (ft_cloexec t)
     \<and> (\<forall>g. bit_test g c = (if g = f \<and> b then Some True else bit_test g (ft_cloexec t)))"
proof (cases b)
  case True
  obtain c where c: "bit_set f (ft_cloexec t) = Some c"
    using cloexec_bits.put_defined [of f "ft_cloexec t"] test_defined [OF assms] by auto
  then have "length c = length (ft_cloexec t)" by (auto simp: bit_set_def split: if_splits)
  with c cloexec_bits.test_put [OF c] True show ?thesis by auto
qed simp

section \<open>Duplicating\<close>

lemma dup3_ok:
  assumes t: "table_ok t" and c: "counts h t ext" and r: "fd_room h" and lim: "nofile < 2 ^ 31"
    and f: "slot t f = Some i" and n: "n < nofile"
  shows "\<exists>h' t'. sys_dup3 True nofile h t (int f) (int n) flags = Some (Inr (int n), h', t')
     \<and> table_ok t' \<and> slot t' = (slot t)(n \<mapsto> i) \<and> counts h' t' ext
     \<and> (slot t n \<noteq> None \<longrightarrow> cloexec t' n = tst flags O_CLOEXEC)
     \<and> (\<forall>g < ft_size t. g \<noteq> n \<longrightarrow> cloexec t' g = cloexec t g)"
proof -
  have g: "f_get t (int f) = Some (Some i)" "0 < held t i + ext i"
    using slot_held [OF f] by (auto simp: f_get_def fdtable_get_def ft_size_def)
  obtain t1 where 1: "fdtable_expand True nofile t (int n) = Some (Inr (), t1)" "table_ok t1" "n < ft_size t1"
    "slot t1 = slot t" "\<forall>g < ft_size t. cloexec t1 g = cloexec t g" "held t1 = held t"
    using expand_kept [OF t n lim] by blast
  obtain h1 where h1: "fd_retain h i = Some h1"
    "refs_ok h1 ((\<lambda>i. held t i + ext i)(i := held t i + ext i + 1))"
    using retain_refs [OF c [unfolded counts_def] r g(2)] by blast
  have c1: "counts h1 t1 (ext(i := ext i + 1))"
    unfolding counts_def by (rule refs_cong [OF h1(2)]) (simp add: 1(6))
  obtain res h2 t2 where 2: "fdtable_close (ft_size t1) h1 t1 (int n) = Some (res, h2, t2)"
    "table_ok t2" "ft_size t2 = ft_size t1" "slot t2 = (slot t1)(n := None)" "counts h2 t2 (ext(i := ext i + 1))"
    "\<forall>g. g \<noteq> n \<longrightarrow> cloexec t2 g = cloexec t1 g" "slot t1 n \<noteq> None \<longrightarrow> \<not> cloexec t2 n"
    using close_any [OF 1(2) c1 1(3)] by blast
  have n2: "n < ft_size t2" using 1(3) 2(3) by simp
  obtain d where d: "(if tst flags O_CLOEXEC then bit_set n (ft_cloexec t2) else Some (ft_cloexec t2)) = Some d"
    "length d = length (ft_cloexec t2)"
    "\<forall>g. bit_test g d = (if g = n \<and> tst flags O_CLOEXEC then Some True else bit_test g (ft_cloexec t2))"
    using set_if [OF 2(2) n2] by blast
  let ?t = "t2\<lparr>ft_files := (ft_files t2)[n := Some i], ft_cloexec := d\<rparr>"
  have "slot t2 n = None" using 2(4) by simp
  then have "ft_files t2 ! n = None" using n2 by (simp add: slot_def)
  then have "held t2 j + (ext(i := ext i + 1)) j = held ?t j + ext j" for j
    using held_update [OF n2, where v = "Some i" and c = d and i = j] by (cases "j = i") auto
  from refs_cong [OF 2(5)[unfolded counts_def] this] have "counts h2 ?t ext" by (simp add: counts_def)
  moreover have "table_ok ?t" using 2(2) d(2) by (simp add: table_ok_def ft_size_def)
  moreover have "sys_dup3 True nofile h t (int f) (int n) flags = Some (Inr (int n), h2, ?t)"
    using g(1) 1(1) h1(1) 2(1) n2 d(1)
    by (cases "tst flags O_CLOEXEC") (auto simp: sys_dup3_def f_close_def)
  moreover have "slot ?t = (slot t)(n \<mapsto> i)" using slot_update [OF n2] 2(4) 1(4) by simp
  moreover have "cloexec ?t g = cloexec t g" if "g < ft_size t" "g \<noteq> n" for g
    using that 1(5) 2(6) d(3) by (simp add: cloexec_def)
  ultimately show ?thesis using 2(7) d(3) 1(4) by (auto simp: cloexec_def)
qed

section \<open>Copying a table at fork\<close>

lemma retain_all_ok:
  assumes "refs_ok h n" "\<forall>i. n i + count_list fs (Some i) < 2 ^ 32" "\<forall>i. Some i \<in> set fs \<longrightarrow> 0 < n i"
  shows "\<exists>h'. retain_all h fs = Some h' \<and> refs_ok h' (\<lambda>i. n i + count_list fs (Some i))"
  using assms
proof (induction fs arbitrary: h n)
  case (Cons a fs)
  show ?case
  proof (cases a)
    case None
    then show ?thesis using Cons by simp
  next
    case (Some i)
    have pos: "0 < n i" using Cons.prems(3) Some by simp
    obtain x where x: "fh_files h i = Some x" "unat (fd_refcount x) = n i"
      using refs_okD [OF Cons.prems(1) pos] by blast
    have "unat (fd_refcount x) + 1 < 2 ^ 32" using Cons.prems(2)[rule_format, of i] Some x(2) by simp
    from unat_inc [OF this] have h1: "fd_retain h i = Some (file_update h i (x\<lparr>fd_refcount := fd_refcount x + 1\<rparr>))"
      "refs_ok (file_update h i (x\<lparr>fd_refcount := fd_refcount x + 1\<rparr>)) (n(i := n i + 1))"
      using Cons.prems(1) x by (auto simp: fd_retain_def file_update_def refs_ok_def)
    have "\<forall>j. (n(i := n i + 1)) j + count_list fs (Some j) < 2 ^ 32"
      using Cons.prems(2) Some by (metis add.assoc add.commute count_list.simps(2) fun_upd_apply option.inject)
    moreover have "\<forall>j. Some j \<in> set fs \<longrightarrow> 0 < (n(i := n i + 1)) j" using Cons.prems(3) by simp
    ultimately obtain h' where h': "retain_all (file_update h i (x\<lparr>fd_refcount := fd_refcount x + 1\<rparr>)) fs = Some h'"
      "refs_ok h' (\<lambda>j. (n(i := n i + 1)) j + count_list fs (Some j))"
      using Cons.IH [OF h1(2)] by blast
    have "refs_ok h' (\<lambda>j. n j + count_list (a # fs) (Some j))"
      by (rule refs_cong [OF h'(2)]) (auto simp: Some)
    then show ?thesis using h1(1) h'(1) Some by simp
  qed
qed simp

lemma fdtable_copy_ok:
  assumes t: "table_ok t" and c: "counts h t ext" and r: "\<forall>i. 2 * held t i + ext i < 2 ^ 32"
  shows "\<exists>h' t'. fdtable_copy True h t = Some (Inr t', h') \<and> table_ok t' \<and> slot t' = slot t
     \<and> cloexec t' = cloexec t \<and> ft_size t' = ft_size t \<and> held t' = held t
     \<and> counts h' t (\<lambda>i. ext i + held t' i) \<and> counts h' t' (\<lambda>i. ext i + held t i)"
proof -
  have "\<forall>i. (held t i + ext i) + count_list (ft_files t) (Some i) < 2 ^ 32" using r by (simp add: held_def mult_2 ac_simps)
  moreover have "\<forall>i. Some i \<in> set (ft_files t) \<longrightarrow> 0 < held t i + ext i" by (simp add: held_def count_list_0_iff neq0_conv [symmetric] del: neq0_conv)
  ultimately obtain h' where h': "retain_all h (ft_files t) = Some h'"
    "refs_ok h' (\<lambda>i. held t i + ext i + count_list (ft_files t) (Some i))"
    using retain_all_ok [OF c [unfolded counts_def]] by blast
  obtain n where n: "fdtable_new True (ft_size t) = Some (Inr n)" "ft_files n = replicate (ft_size t) None"
    using t by (simp add: fdtable_new_def fdtable_resize_def fdtable_empty_def table_ok_def ft_size_def)
  let ?t = "n\<lparr>ft_files := ft_files t, ft_cloexec := take (BITS_SIZE (ft_size t)) (ft_cloexec t)\<rparr>"
  have f: "ft_files ?t = ft_files t" "ft_cloexec ?t = ft_cloexec t" using t by (simp_all add: table_ok_def)
  have "held ?t = held t" by (simp add: held_def fun_eq_iff)
  moreover have "counts h' t (\<lambda>i. ext i + held t i)"
    unfolding counts_def by (rule refs_cong [OF h'(2)]) (simp add: held_def)
  moreover have "counts h' ?t (\<lambda>i. ext i + held t i)"
    unfolding counts_def by (rule refs_cong [OF h'(2)]) (simp add: held_def)
  moreover have "table_ok ?t" "slot ?t = slot t" "cloexec ?t = cloexec t" "ft_size ?t = ft_size t"
    using t f by (simp_all add: table_ok_def ft_size_def slot_def cloexec_def fun_eq_iff)
  moreover have "fdtable_copy True h t = Some (Inr ?t, h')" using n h'(1) by (simp add: fdtable_copy_def)
  ultimately show ?thesis by metis
qed

lemma release_ok:
  assumes t: "table_ok t" and c: "counts h t ext" and last: "ft_refcount t = 1"
  shows "\<exists>h'. fdtable_release (ft_size t) h t = Some (h', None) \<and> refs_ok h' ext"
proof -
  obtain h' t' where r: "close_range (ft_size t) h t [0..<ft_size t] = Some (h', t')"
    "ft_size t' = ft_size t" "counts h' t' ext" "\<forall>g. slot t' g = (if g \<in> set [0..<ft_size t] then None else slot t g)"
    using close_range_ok [OF t c, of "[0..<ft_size t]"] by auto
  have "held t' i = 0" for i
  proof -
    have "Some i \<notin> set (ft_files t')"
      using r(2,4) by (auto simp: in_set_conv_nth slot_def ft_size_def split: if_splits)
    then show ?thesis by (simp add: held_def count_list_0_iff)
  qed
  then have "refs_ok h' ext" using r(3) by (simp add: counts_def)
  with r(1) last show ?thesis by (simp add: fdtable_release_def)
qed

section \<open>Properties\<close>

text \<open>
\<open>f_install_start\<close> gives the lowest free descriptor that is at least \<open>start\<close> and below
  \<open>RLIMIT_NOFILE\<close>, growing the table when it lies past its end: the file is in that slot, without
  close-on-exec, every other slot is as before, and the caller's reference has become the table's. When
  there is none it fails with \<open>EMFILE\<close>, leaves the table alone, and gives the caller's reference back.
\<close>

theorem f_install_lowest:
  assumes t: "table_ok t" and lim: "nofile < 2 ^ 31" "start < 2 ^ 31" and c: "counts h t (ext(i := ext i + 1))"
  shows "if \<exists>f \<ge> start. f < nofile \<and> slot t f = None
    then \<exists>f t'. f_install_start True nofile h t i (int start) = Some (Inr f, h, t')
      \<and> start \<le> f \<and> f < nofile \<and> slot t f = None \<and> (\<forall>g. start \<le> g \<and> g < f \<longrightarrow> slot t g \<noteq> None)
      \<and> table_ok t' \<and> slot t' = (slot t)(f \<mapsto> i) \<and> \<not> cloexec t' f
      \<and> (\<forall>g < ft_size t. g \<noteq> f \<longrightarrow> cloexec t' g = cloexec t g) \<and> counts h t' ext
    else \<exists>h'. f_install_start True nofile h t i (int start) = Some (Inl EMFILE, h', t) \<and> counts h' t ext"
proof -
  let ?f = "install_scan (ft_files t) (min nofile (ft_size t)) start"
  note S = scan_first [where start = start and t = t and nofile = nofile]
  show ?thesis
  proof (cases "?f < nofile")
    case True
    then have "\<exists>f \<ge> start. f < nofile \<and> slot t f = None" using S by blast
    moreover note install_found [OF t lim(1) refl True, of h i]
    ultimately show ?thesis using S True c by (smt (verit))
  next
    case False
    then have "\<not> (\<exists>f \<ge> start. f < nofile \<and> slot t f = None)" using S(2) by (meson le_less_trans linorder_not_less order.strict_trans2)
    moreover have "nofile \<le> ?f" using False by simp
    note install_refused [OF lim c refl this, of True]
    ultimately show ?thesis by (simp only: if_False)
  qed
qed

definition ex_fd :: "u32 \<Rightarrow> fd" where
  "ex_fd n = fd_create\<lparr>fd_refcount := n\<rparr>"

definition ex_files :: files where
  "ex_files = \<lparr>fh_files = [0 \<mapsto> ex_fd 2, 1 \<mapsto> ex_fd 2], fh_destroyed = [], fh_unlocked = []\<rparr>"

definition ex_table :: fdtable where
  "ex_table = \<lparr>ft_refcount = 1, ft_files = [Some 0, Some 1, None, Some 0], ft_cloexec = [8]\<rparr>"

lemma ex_table_ok: "table_ok ex_table" "ft_size ex_table = 4"
  by (simp_all add: table_ok_def ex_table_def ft_size_def BITS_SIZE_def)

lemma ex_table_counts: "counts ex_files ex_table ((\<lambda>i. 0)(1 := 0 + 1))"
  by (auto simp: counts_def refs_ok_def ex_files_def ex_table_def held_def ex_fd_def fd_create_def split: if_splits)

theorem f_install_lowest_witness:
  "counts ex_files ex_table ((\<lambda>i. 0)(1 := 0 + 1)) \<and>
   (\<exists>f t'. f_install_start True 256 ex_files ex_table 1 (int 0) = Some (Inr f, ex_files, t') \<and> slot t' 2 = Some 1)"
proof
  show c: "counts ex_files ex_table ((\<lambda>i. 0)(1 := 0 + 1))" by (rule ex_table_counts)
  have e: "\<exists>f \<ge> 0. f < 256 \<and> slot ex_table f = None"
    by (rule exI [of _ 2]) (simp add: slot_def ex_table_def ft_size_def)
  have f: "f = 2" if "slot ex_table f = None" "\<forall>g. 0 \<le> g \<and> g < f \<longrightarrow> slot ex_table g \<noteq> None" for f
  proof -
    have "\<not> 2 < f" using that(2)[rule_format, of 2] by (auto simp: slot_def ex_table_def ft_size_def)
    moreover have "slot ex_table 0 \<noteq> None" "slot ex_table 1 \<noteq> None" by (simp_all add: slot_def ex_table_def ft_size_def)
    then have "f \<noteq> 0" "f \<noteq> 1" using that(1) by metis+
    ultimately show ?thesis by linarith
  qed
  show "\<exists>f t'. f_install_start True 256 ex_files ex_table 1 (int 0) = Some (Inr f, ex_files, t') \<and> slot t' 2 = Some 1"
    using f_install_lowest [OF ex_table_ok(1), of 256 0 ex_files "\<lambda>i. 0" 1, OF _ _ c] e f by (auto simp: fun_upd_def)
qed

text \<open>
  C10. \<open>dup3\<close> (and \<open>dup2\<close>, its case without flags) of an open descriptor onto any number below
  \<open>RLIMIT_NOFILE\<close> succeeds and returns that number; the two descriptors then name the same file, every
  other one is as before, what the number named before is closed, and every file's reference count is
  again the number of its references, so that a file is destroyed exactly when none is left.
\<close>

theorem sys_dup3_spec:
  assumes "table_ok t" "counts h t ext" "fd_room h" "nofile < 2 ^ 31" "slot t f = Some i" "n < nofile"
  shows "\<exists>h' t'. sys_dup3 True nofile h t (int f) (int n) flags = Some (Inr (int n), h', t')
     \<and> table_ok t' \<and> slot t' = (slot t)(n \<mapsto> i) \<and> counts h' t' ext
     \<and> (slot t n \<noteq> None \<longrightarrow> cloexec t' n = tst flags O_CLOEXEC)
     \<and> (\<forall>g < ft_size t. g \<noteq> n \<longrightarrow> cloexec t' g = cloexec t g)"
  using assms by (rule dup3_ok)

lemma ex_table_room: "fd_room ex_files"
  by (auto simp: fd_room_def ex_files_def ex_fd_def split: if_splits)

lemma ex_table_slot: "slot ex_table 3 = Some 0"
  by (simp add: slot_def ex_table_def ft_size_def)

theorem sys_dup3_spec_witness:
  "\<exists>h' t'. sys_dup3 True 256 ex_files ex_table (int 3) (int 1) O_CLOEXEC = Some (Inr (int 1), h', t')
     \<and> slot t' 1 = Some 0 \<and> counts h' t' ((\<lambda>i. 0)(1 := 0 + 1))"
proof -
  have "(256::nat) < 2 ^ 31" "(1::nat) < 256" by simp_all
  from sys_dup3_spec [OF ex_table_ok(1) ex_table_counts ex_table_room this(1) ex_table_slot this(2), of O_CLOEXEC]
  show ?thesis by (metis fun_upd_same)
qed

text \<open>
\<open>fdtable_do_cloexec\<close>, which \<open>exec\<close> runs on the table of the calling process, closes exactly the
  descriptors marked close-on-exec and keeps the reference counts exact.
\<close>

theorem do_cloexec_closes_marked:
  assumes "table_ok t" "counts h t ext"
  shows "\<exists>h' t'. fdtable_do_cloexec (ft_size t) h t = Some (h', t') \<and> table_ok t' \<and> counts h' t' ext
     \<and> (\<forall>f. slot t' f = (if cloexec t f then None else slot t f))
     \<and> (\<forall>f. slot t' f \<noteq> None \<longrightarrow> \<not> cloexec t' f)"
proof -
  obtain h' t' where r: "fdtable_do_cloexec (ft_size t) h t = Some (h', t')" "table_ok t'" "counts h' t' ext"
    "\<forall>g. slot t' g = (if g \<in> set [0..<ft_size t] \<and> cloexec t g then None else slot t g)"
    "\<forall>g. slot t' g \<noteq> None \<longrightarrow> cloexec t' g = cloexec t g"
    using cloexec_range_ok [OF assms, of "[0..<ft_size t]"] unfolding fdtable_do_cloexec_def by auto
  have "slot t' f = (if cloexec t f then None else slot t f)" for f
    using r(4) by (simp add: slot_def)
  with r show ?thesis by metis
qed

theorem do_cloexec_closes_marked_witness:
  "\<exists>h' t'. fdtable_do_cloexec 4 ex_files ex_table = Some (h', t') \<and> slot t' 3 = None \<and> slot t' 0 = Some 0"
proof -
  have "cloexec ex_table 3" "\<not> cloexec ex_table 0" "slot ex_table 0 = Some 0"
    by (simp_all add: cloexec_def ex_table_def bit_test_def slot_def ft_size_def push_bit_eq_mult)
  then show ?thesis
    using do_cloexec_closes_marked [OF ex_table_ok(1) ex_table_counts] unfolding ex_table_ok(2) by metis
qed

text \<open>
The table that \<open>fork\<close> copies names the same files under the same numbers with the same
  close-on-exec marks, each of its descriptors counted as one more reference; releasing the copy
  (the child's exit) closes them all and leaves exactly the references there were before the fork.
\<close>

theorem fork_table_roundtrip:
  assumes "table_ok t" "counts h t ext" "\<forall>i. 2 * held t i + ext i < 2 ^ 32"
  shows "\<exists>h' t' h''. fdtable_copy True h t = Some (Inr t', h') \<and> slot t' = slot t \<and> cloexec t' = cloexec t
     \<and> counts h' t (\<lambda>i. ext i + held t' i)
     \<and> fdtable_release (ft_size t') h' t' = Some (h'', None) \<and> counts h'' t ext"
proof -
  obtain h' t' where c: "fdtable_copy True h t = Some (Inr t', h')" "table_ok t'" "slot t' = slot t"
     "cloexec t' = cloexec t" "counts h' t (\<lambda>i. ext i + held t' i)" "counts h' t' (\<lambda>i. ext i + held t i)"
    using fdtable_copy_ok [OF assms] by blast
  have "ft_refcount t' = 1"
    using c(1) by (auto simp: fdtable_copy_def fdtable_new_def fdtable_resize_def fdtable_empty_def bind_eq_Some_conv
        split: sum.splits if_splits)
  then obtain h'' where "fdtable_release (ft_size t') h' t' = Some (h'', None)" "refs_ok h'' (\<lambda>i. ext i + held t i)"
    using release_ok [OF c(2,6)] by blast
  moreover then have "counts h'' t ext" by (simp add: counts_def add.commute)
  ultimately show ?thesis using c by blast
qed

theorem fork_table_roundtrip_witness:
  "\<exists>h' t' h''. fdtable_copy True ex_files ex_table = Some (Inr t', h')
     \<and> fdtable_release (ft_size t') h' t' = Some (h'', None) \<and> counts h'' ex_table ((\<lambda>i. 0)(1 := 0 + 1))"
proof -
  have "\<forall>i. 2 * held ex_table i + ((\<lambda>i. 0)(1 := 0 + 1)) i < 2 ^ 32" by (simp add: held_def ex_table_def)
  from fork_table_roundtrip [OF ex_table_ok(1) ex_table_counts this] show ?thesis by blast
qed

text \<open>
\<open>dup2\<close> of an open descriptor onto -1 is not refused: \<open>fdtable_expand\<close> computes the size it
  needs as \<open>-1 + 1 = 0\<close> in unsigned arithmetic and accepts it, and the code stores the file to
  \<open>files[-1]\<close>, outside the array.
\<close>

theorem dup2_minus_one_out_of_bounds:
  assumes "counts h t ext" "slot t f = Some i"
  shows "fdtable_expand True nofile t (-1) = Some (Inr (), t) \<and> sys_dup2 True nofile h t (int f) (-1) = None"
proof -
  have g: "f_get t (int f) = Some (Some i)"
    using slot_held [OF assms(2)] by (auto simp: f_get_def fdtable_get_def ft_size_def)
  have e: "fdtable_expand True nofile t (-1) = Some (Inr (), t)" by (simp add: fdtable_expand_def)
  have c: "f_close h' t (-1) = Some (Inl EBADF, h', t)" for h'
    by (simp add: f_close_def fdtable_close_def fdtable_get_def)
  have "sys_dup2 True nofile h t (int f) (-1) = None"
    using g e c by (simp add: sys_dup2_def sys_dup3_def)
  with e show ?thesis by simp
qed

theorem dup2_minus_one_out_of_bounds_witness: "sys_dup2 True 256 ex_files ex_table (int 3) (-1) = None"
  using dup2_minus_one_out_of_bounds [OF ex_table_counts ex_table_slot] by blast

text \<open>
No record-lock command of \<open>fcntl\<close> ever waits: the results of \<open>F_SETLKW\<close> and
  \<open>F_SETLKW64\<close> do not depend on what would happen while waiting, because each of the two cases tests
  for the other's command. A conflict makes them fail with \<open>EAGAIN\<close> as \<open>F_SETLK\<close> does.
\<close>

theorem fcntl_lock_never_waits:
  "fcntl_lock (le\<lparr>le_wait := w\<rparr>) locks cmd = fcntl_lock le locks cmd"
proof -
  have "setlk_loop fuel w n locks r False = setlk_loop fuel (le_wait le) n locks r False" for fuel n r
    by (cases fuel) (simp_all split: sum.splits)
  then have s: "fcntl_lock_set (le\<lparr>le_wait := w\<rparr>) locks arg False = fcntl_lock_set le locks arg False" for arg
    by (simp add: fcntl_lock_set_def fcntl_setlk_def cong: if_cong option.case_cong sum.case_cong)
  have g: "fcntl_lock_get (le\<lparr>le_wait := w\<rparr>) locks arg = fcntl_lock_get le locks arg" for arg
    by (simp add: fcntl_lock_get_def cong: if_cong option.case_cong sum.case_cong)
  show ?thesis by (simp add: fcntl_lock_def s g)
qed

end
