(* ===== verification/Mount.thy ===== *)
theory Mount
  imports Ish_Prelude "HOL-Library.Sublist" "HOL-Library.Monad_Syntax"
begin

text \<open>
  Mounted file systems, \<^verbatim>\<open>fs/mount.c\<close> and the lookup of \<^verbatim>\<open>fs/generic.c\<close>. The mount list is
  a list of records in the order of the kernel's list; a mount is named by its position. A file system is
  a number, the operations behind it are the record \<open>fs_ops\<close> of functions on an abstract state \<open>'w\<close> of all
  file systems. \<open>None\<close> is a failed assertion, an access outside a buffer or a loop that does not end.
\<close>

section \<open>Normalized paths (fs/path.c)\<close>

function path_is_normalized :: "string \<Rightarrow> bool" where
  "path_is_normalized [] = True"
| "path_is_normalized (c # cs) =
     (c = CHR ''/'' \<and> (case cs of [] \<Rightarrow> True | d # _ \<Rightarrow> d \<noteq> CHR ''/'')
        \<and> path_is_normalized (dropWhile (\<lambda>x. x \<noteq> CHR ''/'') cs))"
  by pat_completeness auto
termination by (relation "measure length") (auto simp: length_dropWhile_le le_imp_less_Suc)

section \<open>Mounts\<close>

text \<open>
  The descriptor \<open>root_fd\<close> of a new mount is uninitialised (\<open>None\<close>) until the file system's hook opens
  it; what a hook keeps in \<open>data\<close> is part of the state \<open>'w\<close>.
\<close>

record mount =
  mnt_point :: string
  mnt_source :: string
  mnt_info :: string
  mnt_flags :: u32
  mnt_fs :: nat
  mnt_refcount :: u32
  mnt_root_fd :: "int option"

record stat =
  st_mode :: u32
  st_uid :: u32
  st_gid :: u32
  st_inode :: u64
  st_rdev :: u32

text \<open>The operations of a file system; \<open>None\<close> is an operation it does not have.\<close>

record 'w fs_ops =
  op_name :: string
  op_mount :: "('w \<Rightarrow> mount \<Rightarrow> unit result \<times> mount \<times> 'w) option"
  op_umount :: "('w \<Rightarrow> mount \<Rightarrow> 'w) option"
  op_readlink :: "('w \<Rightarrow> mount \<Rightarrow> string \<Rightarrow> nat \<Rightarrow> string result) option"
  op_stat :: "'w \<Rightarrow> mount \<Rightarrow> string \<Rightarrow> stat result"

definition MAX_FILESYSTEMS :: nat where "MAX_FILESYSTEMS = 10"

text \<open>The table of registered file systems: numbers in ten slots.\<close>

fun fs_register :: "nat option list \<Rightarrow> nat \<Rightarrow> nat option list option" where
  "fs_register [] f = None"
| "fs_register (None # t) f = Some (Some f # t)"
| "fs_register (Some g # t) f = map_option (\<lambda>t'. Some g # t') (fs_register t f)"

definition mount_match :: "string \<Rightarrow> string \<Rightarrow> bool" where
  "mount_match path point \<longleftrightarrow> take (length point) path = point
     \<and> (drop (length point) path = [] \<or> hd (drop (length point) path) = CHR ''/'')"

fun mount_index :: "mount list \<Rightarrow> string \<Rightarrow> nat option" where
  "mount_index [] path = None"
| "mount_index (m # ms) path =
     (if mount_match path (mnt_point m) then Some 0 else map_option Suc (mount_index ms path))"

definition mount_ref :: "mount list \<Rightarrow> nat \<Rightarrow> u32 \<Rightarrow> mount list" where
  "mount_ref ms i d = ms[i := (ms ! i)\<lparr>mnt_refcount := mnt_refcount (ms ! i) + d\<rparr>]"

definition mount_retain :: "mount list \<Rightarrow> nat \<Rightarrow> mount list" where
  "mount_retain ms i = mount_ref ms i 1"

definition mount_release :: "mount list \<Rightarrow> nat \<Rightarrow> mount list" where
  "mount_release ms i = mount_ref ms i (- 1)"

text \<open>Without a matching mount the code would count a reference on the list head.\<close>

definition mount_find :: "mount list \<Rightarrow> string \<Rightarrow> (nat \<times> mount list) option" where
  "mount_find ms path =
     (if \<not> path_is_normalized path then None
      else do { i \<leftarrow> mount_index ms path; Some (i, mount_retain ms i) })"

definition find_mount_and_trim_path :: "mount list \<Rightarrow> string \<Rightarrow> (nat \<times> string \<times> mount list) option" where
  "find_mount_and_trim_path ms path = do {
     (i, ms') \<leftarrow> mount_find ms path;
     Some (i, drop (length (mnt_point (ms ! i))) path, ms')
   }"

definition contains_mount_point :: "mount list \<Rightarrow> string \<Rightarrow> bool" where
  "contains_mount_point ms path = list_ex (\<lambda>m. mount_match (mnt_point m) path) ms"

fun mount_insert :: "mount \<Rightarrow> mount list \<Rightarrow> mount list" where
  "mount_insert n [] = [n]"
| "mount_insert n (m # ms) =
     (if length (mnt_point m) \<le> length (mnt_point n) then n # m # ms else m # mount_insert n ms)"

text \<open>
  \<open>alloc\<close> says whether \<open>malloc\<close> finds room for the mount. The three copies of the strings, whose
  results the code does not test, are taken to succeed. The hook of the file system gets the new mount
  before it is on the list and may change it.
\<close>

definition do_mount ::
  "bool \<Rightarrow> (nat \<Rightarrow> 'w fs_ops) \<Rightarrow> 'w \<Rightarrow> mount list \<Rightarrow> nat \<Rightarrow> string \<Rightarrow> string \<Rightarrow> string \<Rightarrow> u32
     \<Rightarrow> unit result \<times> 'w \<times> mount list" where
  "do_mount alloc ops w ms fs source point info flags =
     (if \<not> alloc then (Inl ENOMEM, w, ms)
      else
        let new_mount = \<lparr>mnt_point = point, mnt_source = source, mnt_info = info, mnt_flags = flags, mnt_fs = fs,
                         mnt_refcount = 0, mnt_root_fd = None\<rparr>;
            (r, m, w') = (case op_mount (ops fs) of Some f \<Rightarrow> f w new_mount | None \<Rightarrow> (Inr (), new_mount, w)) in
        case r of
          Inl e \<Rightarrow> (Inl e, w', ms)
        | Inr _ \<Rightarrow> (Inr (), w', mount_insert m ms))"

text \<open>
  The hook of the real file system, \<^verbatim>\<open>fs/real.c\<close>: the source becomes the path that the host's
  \<open>realpath\<close> gives for it, and the directory there is opened.
\<close>

definition realfs_mount ::
  "('w \<Rightarrow> string \<Rightarrow> string result) \<Rightarrow> ('w \<Rightarrow> string \<Rightarrow> int result) \<Rightarrow> 'w \<Rightarrow> mount \<Rightarrow> unit result \<times> mount \<times> 'w" where
  "realfs_mount realpath open_dir w m =
     (case realpath w (mnt_source m) of
        Inl e \<Rightarrow> (Inl e, m, w)
      | Inr source_realpath \<Rightarrow>
          let m1 = m\<lparr>mnt_source := source_realpath\<rparr> in
          case open_dir w source_realpath of
            Inl e \<Rightarrow> (Inl e, m1\<lparr>mnt_root_fd := Some (- 1)\<rparr>, w)
          | Inr fd \<Rightarrow> (Inr (), m1\<lparr>mnt_root_fd := Some fd\<rparr>, w))"

definition mount_remove :: "(nat \<Rightarrow> 'w fs_ops) \<Rightarrow> 'w \<Rightarrow> mount list \<Rightarrow> nat \<Rightarrow> unit result \<times> 'w \<times> mount list" where
  "mount_remove ops w ms i =
     (if mnt_refcount (ms ! i) \<noteq> 0 then (Inl EBUSY, w, ms)
      else (Inr (), case op_umount (ops (mnt_fs (ms ! i))) of Some f \<Rightarrow> f w (ms ! i) | None \<Rightarrow> w,
            take i ms @ drop (Suc i) ms))"

fun point_index :: "mount list \<Rightarrow> string \<Rightarrow> nat option" where
  "point_index [] point = None"
| "point_index (m # ms) point = (if point = mnt_point m then Some 0 else map_option Suc (point_index ms point))"

definition do_umount :: "(nat \<Rightarrow> 'w fs_ops) \<Rightarrow> 'w \<Rightarrow> mount list \<Rightarrow> string \<Rightarrow> unit result \<times> 'w \<times> mount list" where
  "do_umount ops w ms point =
     (case point_index ms point of None \<Rightarrow> (Inl EINVAL, w, ms) | Some i \<Rightarrow> mount_remove ops w ms i)"

text \<open>The search for an option in the comma-separated list \<open>info\<close>, with fuel for its loop.\<close>

fun mount_param_flag :: "nat \<Rightarrow> string \<Rightarrow> string \<Rightarrow> bool option" where
  "mount_param_flag 0 info flag = None"
| "mount_param_flag (Suc fuel) info flag =
     (if info = [] then Some False
      else if take (length flag) info = flag then Some True
      else mount_param_flag fuel (dropWhile (\<lambda>c. c \<noteq> CHR '','') info) flag)"

definition MS_READONLY :: u32 where "MS_READONLY = 1"
definition MS_NOSUID :: u32 where "MS_NOSUID = 2"
definition MS_NODEV :: u32 where "MS_NODEV = 4"
definition MS_NOEXEC :: u32 where "MS_NOEXEC = 8"
definition MS_SILENT :: u32 where "MS_SILENT = 0x8000"

definition MS_SUPPORTED :: u32 where
  "MS_SUPPORTED = MS_READONLY OR MS_NOSUID OR MS_NODEV OR MS_NOEXEC OR MS_SILENT"

definition MS_FLAGS :: u32 where
  "MS_FLAGS = MS_READONLY OR MS_NOSUID OR MS_NODEV OR MS_NOEXEC"

fun fs_by_name :: "(nat \<Rightarrow> 'w fs_ops) \<Rightarrow> nat option list \<Rightarrow> string \<Rightarrow> nat option" where
  "fs_by_name ops [] ty = None"
| "fs_by_name ops (None # t) ty = fs_by_name ops t ty"
| "fs_by_name ops (Some f # t) ty = (if op_name (ops f) = ty then Some f else fs_by_name ops t ty)"

section \<open>Permissions (kernel/fs.c)\<close>

record cred =
  cr_euid :: u32
  cr_egid :: u32

definition superuser :: "cred \<Rightarrow> bool" where "superuser c \<longleftrightarrow> cr_euid c = 0"

definition AC_R :: u32 where "AC_R = 4"
definition AC_W :: u32 where "AC_W = 2"
definition AC_X :: u32 where "AC_X = 1"

definition access_check :: "cred \<Rightarrow> stat \<Rightarrow> u32 \<Rightarrow> unit result" where
  "access_check c st check =
     (if superuser c then Inr ()
      else if check = 0 then Inr ()
      else
        let check' = (if cr_euid c = st_uid st then push_bit 6 check
                      else if cr_egid c = st_gid st then push_bit 3 check else check) in
        if st_mode st AND check' = 0 then Inl EACCES else Inr ())"

definition S_IFMT :: u32 where "S_IFMT = 0xf000"
definition S_ISDIR :: "u32 \<Rightarrow> bool" where "S_ISDIR m \<longleftrightarrow> m AND S_IFMT = 0x4000"
definition S_ISCHR :: "u32 \<Rightarrow> bool" where "S_ISCHR m \<longleftrightarrow> m AND S_IFMT = 0x2000"
definition S_ISBLK :: "u32 \<Rightarrow> bool" where "S_ISBLK m \<longleftrightarrow> m AND S_IFMT = 0x6000"
definition S_ISLNK :: "u32 \<Rightarrow> bool" where "S_ISLNK m \<longleftrightarrow> m AND S_IFMT = 0xa000"
definition S_ISSOCK :: "u32 \<Rightarrow> bool" where "S_ISSOCK m \<longleftrightarrow> m AND S_IFMT = 0xc000"

end
