(* ===== verification/Mount_Props.thy ===== *)
theory Mount_Props
  imports Mount
begin

text \<open>
  Properties of the mount list: the order that \<open>do_mount\<close> keeps makes the lookup find the innermost
  and newest mount, and unmounting restores the list. Two defects are stated as theorems.
\<close>

section \<open>The order of the list\<close>

definition mounts_ok :: "mount list \<Rightarrow> bool" where
  "mounts_ok ms \<longleftrightarrow> sorted_wrt (\<lambda>a b. length (mnt_point b) \<le> length (mnt_point a)) ms"

lemma insert_set: "set (mount_insert n ms) = insert n (set ms)"
  by (induction ms) auto

lemma insert_ok: "mounts_ok ms \<Longrightarrow> mounts_ok (mount_insert n ms)"
  unfolding mounts_ok_def
proof (induction ms)
  case (Cons m ms)
  then show ?case by (auto simp: insert_set intro: order.trans)
qed simp

lemma insert_split:
  "mounts_ok ms \<Longrightarrow> \<exists>xs ys. ms = xs @ ys \<and> mount_insert n ms = xs @ n # ys
     \<and> (\<forall>m \<in> set xs. length (mnt_point n) < length (mnt_point m)) \<and> (\<forall>m \<in> set ys. length (mnt_point m) \<le> length (mnt_point n))"
  unfolding mounts_ok_def
proof (induction ms)
  case (Cons m ms)
  show ?case
  proof (cases "length (mnt_point m) \<le> length (mnt_point n)")
    case True
    then show ?thesis using Cons.prems by (intro exI [of _ "[]"] exI [of _ "m # ms"]) (auto intro: order.trans)
  next
    case False
    obtain xs ys where "ms = xs @ ys" "mount_insert n ms = xs @ n # ys"
      "\<forall>m \<in> set xs. length (mnt_point n) < length (mnt_point m)" "\<forall>m \<in> set ys. length (mnt_point m) \<le> length (mnt_point n)"
      using Cons by auto
    then show ?thesis using False by (intro exI [of _ "m # xs"] exI [of _ ys]) auto
  qed
qed simp

section \<open>Lookup\<close>

text \<open>The mount that a lookup returns, as a record instead of a position.\<close>

fun lookup :: "mount list \<Rightarrow> string \<Rightarrow> mount option" where
  "lookup [] path = None"
| "lookup (m # ms) path = (if mount_match path (mnt_point m) then Some m else lookup ms path)"

lemma lookup_index: "lookup ms path = map_option (\<lambda>i. ms ! i) (mount_index ms path)"
  by (induction ms) (auto simp: option.map_comp comp_def)

lemma lookup_append: "lookup (xs @ ys) path = (case lookup xs path of None \<Rightarrow> lookup ys path | Some m \<Rightarrow> Some m)"
  by (induction xs) auto

lemma lookup_None: "lookup ms path = None \<longleftrightarrow> (\<forall>m \<in> set ms. \<not> mount_match path (mnt_point m))"
  by (induction ms) auto

lemma lookup_Some: "lookup ms path = Some m \<Longrightarrow> m \<in> set ms \<and> mount_match path (mnt_point m)"
  by (induction ms) (auto split: if_splits)

lemma lookup_longest:
  "mounts_ok ms \<Longrightarrow> lookup ms path = Some m \<Longrightarrow> m' \<in> set ms \<Longrightarrow> mount_match path (mnt_point m')
     \<Longrightarrow> length (mnt_point m') \<le> length (mnt_point m)"
  unfolding mounts_ok_def by (induction ms) (auto split: if_splits)

lemma point_index_append:
  "\<forall>m \<in> set xs. mnt_point m \<noteq> p \<Longrightarrow> point_index (xs @ n # ys) p =
     (if mnt_point n = p then Some (length xs) else map_option (\<lambda>i. i + length xs) (point_index (n # ys) p))"
  by (induction xs) (auto simp: option.map_comp comp_def)

section \<open>Properties\<close>

text \<open>
  What the hook of a file system may do to the mount it is given: it keeps the mount point, the file
  system and the count of references. The hook of the real file system does, and changes the source.
\<close>

definition keeps_identity :: "('w \<Rightarrow> mount \<Rightarrow> unit result \<times> mount \<times> 'w) \<Rightarrow> bool" where
  "keeps_identity f \<longleftrightarrow> (\<forall>w m. mnt_point (fst (snd (f w m))) = mnt_point m \<and> mnt_fs (fst (snd (f w m))) = mnt_fs m
     \<and> mnt_refcount (fst (snd (f w m))) = mnt_refcount m)"

lemma realfs_mount_keeps: "keeps_identity (realfs_mount realpath open_dir)"
  by (auto simp: keeps_identity_def realfs_mount_def Let_def split: sum.splits)

text \<open>The mount as \<open>do_mount\<close> makes it, and as it is put on the list.\<close>

definition fresh_mount :: "nat \<Rightarrow> string \<Rightarrow> string \<Rightarrow> string \<Rightarrow> u32 \<Rightarrow> mount" where
  "fresh_mount fs source point info flags = \<lparr>mnt_point = point, mnt_source = source, mnt_info = info,
     mnt_flags = flags, mnt_fs = fs, mnt_refcount = 0, mnt_root_fd = None\<rparr>"

definition hooked :: "(nat \<Rightarrow> 'w fs_ops) \<Rightarrow> 'w \<Rightarrow> mount \<Rightarrow> unit result \<times> mount \<times> 'w" where
  "hooked ops w m = (case op_mount (ops (mnt_fs m)) of Some f \<Rightarrow> f w m | None \<Rightarrow> (Inr (), m, w))"

lemma hooked_keeps:
  assumes "\<forall>f. op_mount (ops (mnt_fs m)) = Some f \<longrightarrow> keeps_identity f" "hooked ops w m = (r, n, w')"
  shows "mnt_point n = mnt_point m \<and> mnt_fs n = mnt_fs m \<and> mnt_refcount n = mnt_refcount m"
  using assms by (auto simp: hooked_def keeps_identity_def split: option.splits) (metis fst_conv snd_conv)+

lemma do_mount_hooked:
  "do_mount alloc ops w ms fs source point info flags =
     (if \<not> alloc then (Inl ENOMEM, w, ms)
      else case hooked ops w (fresh_mount fs source point info flags) of
             (Inl e, n, w') \<Rightarrow> (Inl e, w', ms)
           | (Inr _, n, w') \<Rightarrow> (Inr (), w', mount_insert n ms))"
  by (auto simp: do_mount_def hooked_def fresh_mount_def Let_def split: option.splits prod.splits sum.splits)

text \<open>Where the lookup stops after a mount has been put on the list.\<close>

lemma insert_lookup:
  assumes ok: "mounts_ok ms" and i: "mount_index (mount_insert n ms) path = Some i"
  shows "\<forall>m \<in> set (mount_insert n ms). mount_match path (mnt_point m) \<longrightarrow>
      length (mnt_point m) \<le> length (mnt_point (mount_insert n ms ! i))"
    and "if mount_match path (mnt_point n)
          \<and> (\<forall>m \<in> set ms. mount_match path (mnt_point m) \<longrightarrow> length (mnt_point m) \<le> length (mnt_point n))
       then mount_insert n ms ! i = n
       else \<exists>j. mount_index ms path = Some j \<and> mount_insert n ms ! i = ms ! j"
proof -
  define ms' where ms': "ms' = mount_insert n ms"
  obtain xs ys where sp: "ms = xs @ ys" "ms' = xs @ n # ys" "\<forall>m \<in> set xs. length (mnt_point n) < length (mnt_point m)"
    "\<forall>m \<in> set ys. length (mnt_point m) \<le> length (mnt_point n)"
    using insert_split [OF ok, of n] unfolding ms' by auto
  have ok': "mounts_ok ms'" unfolding ms' by (rule insert_ok [OF ok])
  have l: "lookup ms' path = Some (ms' ! i)" using i by (simp add: lookup_index ms')
  show "\<forall>m \<in> set (mount_insert n ms). mount_match path (mnt_point m) \<longrightarrow>
      length (mnt_point m) \<le> length (mnt_point (mount_insert n ms ! i))"
    using lookup_longest [OF ok' l] unfolding ms' by blast
  show "if mount_match path (mnt_point n)
          \<and> (\<forall>m \<in> set ms. mount_match path (mnt_point m) \<longrightarrow> length (mnt_point m) \<le> length (mnt_point n))
       then mount_insert n ms ! i = n
       else \<exists>j. mount_index ms path = Some j \<and> mount_insert n ms ! i = ms ! j"
    (is "if ?top then _ else _")
  proof (cases ?top)
    case True
    then have "lookup xs path = None" using sp(1,3) by (fastforce simp: lookup_None)
    then have "ms' ! i = n" using l True by (simp add: sp(2) lookup_append)
    with True show ?thesis unfolding ms' by simp
  next
    case False
    then have "lookup xs path \<noteq> None \<or> \<not> mount_match path (mnt_point n)"
      using sp(1,4) by (auto simp: lookup_None)
    then have "lookup ms path = Some (ms' ! i)" using l by (auto simp: sp(1,2) lookup_append split: option.splits)
    then have "\<exists>j. mount_index ms path = Some j \<and> ms' ! i = ms ! j" by (auto simp: lookup_index)
    then show ?thesis unfolding ms' if_not_P [OF False] .
  qed
qed

text \<open>
  C27. Mounting on a list in the kernel's order, with a file system whose hook keeps the mount point
  (it may replace the source and open the root): without memory, or when the hook refuses, the list is
  what it was and the error is returned; otherwise the list is in order again, and \<open>mount_find\<close> finds
  for every path the new mount as the hook left it, if the path is at or below its mount point and no
  longer mount point matches, and what it found before otherwise. In both cases it is a mount with the
  longest matching point.
\<close>

theorem do_mount_lookup:
  assumes ok: "mounts_ok ms" and hook: "\<forall>f. op_mount (ops fs) = Some f \<longrightarrow> keeps_identity f"
    and r: "do_mount alloc ops w ms fs source point info flags = (r, w', ms')"
  shows "case r of
     Inl e \<Rightarrow> ms' = ms \<and> (if alloc then \<exists>n. hooked ops w (fresh_mount fs source point info flags) = (Inl e, n, w')
                          else e = ENOMEM \<and> w' = w)
   | Inr _ \<Rightarrow> alloc \<and> mounts_ok ms' \<and> (\<exists>n. hooked ops w (fresh_mount fs source point info flags) = (Inr (), n, w')
       \<and> mnt_point n = point \<and> mnt_fs n = fs
       \<and> (\<forall>path i. mount_index ms' path = Some i \<longrightarrow>
            (\<forall>m \<in> set ms'. mount_match path (mnt_point m) \<longrightarrow> length (mnt_point m) \<le> length (mnt_point (ms' ! i)))
          \<and> (if mount_match path point
                \<and> (\<forall>m \<in> set ms. mount_match path (mnt_point m) \<longrightarrow> length (mnt_point m) \<le> length point)
             then ms' ! i = n
             else \<exists>j. mount_index ms path = Some j \<and> ms' ! i = ms ! j)))"
proof (cases r)
  case (Inl e)
  then show ?thesis using r by (auto simp: do_mount_hooked split: if_splits prod.splits sum.splits)
next
  case (Inr u)
  then obtain n where n: "alloc" "hooked ops w (fresh_mount fs source point info flags) = (Inr (), n, w')"
    "ms' = mount_insert n ms"
    using r by (auto simp: do_mount_hooked split: if_splits prod.splits sum.splits)
  have k: "mnt_point n = point" "mnt_fs n = fs" using hooked_keeps [OF _ n(2)] hook by (simp_all add: fresh_mount_def)
  show ?thesis unfolding Inr sum.case
    using n(1,2) k insert_ok [OF ok, of n] insert_lookup [OF ok, of n] unfolding n(3) by blast
qed

definition root_mount :: mount where
  "root_mount = \<lparr>mnt_point = [], mnt_source = ''/'', mnt_info = [], mnt_flags = 0, mnt_fs = 0, mnt_refcount = 1,
                mnt_root_fd = Some 3\<rparr>"

definition no_ops :: "nat \<Rightarrow> unit fs_ops" where
  "no_ops f = \<lparr>op_name = ''tmp'', op_mount = None, op_umount = None, op_readlink = None, op_stat = (\<lambda>w m p. Inl ENOENT)\<rparr>"

lemma root_ok: "mounts_ok [root_mount]"
  by (simp add: mounts_ok_def)

text \<open>A real file system on a host where everything is under \<open>/host\<close>.\<close>

definition real_ops :: "nat \<Rightarrow> unit fs_ops" where
  "real_ops f = (no_ops f)\<lparr>op_name := ''real'',
     op_mount := Some (realfs_mount (\<lambda>w p. Inr (''/host'' @ p)) (\<lambda>w p. Inr 5))\<rparr>"

definition real_tmp :: mount where
  "real_tmp = \<lparr>mnt_point = ''/tmp'', mnt_source = ''/host/t'', mnt_info = [], mnt_flags = 0, mnt_fs = 3,
               mnt_refcount = 0, mnt_root_fd = Some 5\<rparr>"

lemma real_hook: "\<forall>f. op_mount (real_ops 3) = Some f \<longrightarrow> keeps_identity f"
  by (simp add: real_ops_def realfs_mount_keeps)

lemma ex_do_mount: "do_mount True real_ops () [root_mount] 3 ''/t'' ''/tmp'' [] 0 = (Inr (), (), [real_tmp, root_mount])"
  by (simp add: do_mount_def real_ops_def realfs_mount_def root_mount_def real_tmp_def)

theorem do_mount_lookup_witness:
  "\<exists>i. mount_index [real_tmp, root_mount] ''/tmp/x'' = Some i \<and> [real_tmp, root_mount] ! i = real_tmp"
proof -
  have i: "mount_index [real_tmp, root_mount] ''/tmp/x'' = Some 0" by (simp add: real_tmp_def mount_match_def)
  have n: "hooked real_ops () (fresh_mount 3 ''/t'' ''/tmp'' [] 0) = (Inr (), real_tmp, ())"
    by (simp add: hooked_def fresh_mount_def real_ops_def realfs_mount_def real_tmp_def)
  from do_mount_lookup [OF root_ok real_hook ex_do_mount] i n show ?thesis
    by (fastforce simp: mount_match_def root_mount_def)
qed

text \<open>
Unmounting undoes mounting: on an ordered list, \<open>do_umount\<close> of the point just mounted removes
  exactly the new mount, also when an older file system is mounted on the same point, and restores the
  list; and a mount that is in use is refused with \<open>EBUSY\<close>, leaving everything as it was.
\<close>

theorem umount_undoes_mount:
  assumes ok: "mounts_ok ms" and hook: "\<forall>f. op_mount (ops fs) = Some f \<longrightarrow> keeps_identity f"
    and r: "do_mount alloc ops w ms fs source point info flags = (Inr (), w', ms')"
  shows "(\<exists>w''. do_umount ops w' ms' point = (Inr (), w'', ms))
     \<and> (\<forall>i. mount_index ms' point = Some i \<longrightarrow> do_umount ops w' (mount_retain ms' i) point = (Inl EBUSY, w', mount_retain ms' i))"
proof -
  obtain n where n: "hooked ops w (fresh_mount fs source point info flags) = (Inr (), n, w')" "ms' = mount_insert n ms"
    using r by (auto simp: do_mount_hooked split: if_splits prod.splits sum.splits)
  have k: "mnt_point n = point" "mnt_refcount n = 0" using hooked_keeps [OF _ n(1)] hook by (simp_all add: fresh_mount_def)
  obtain xs ys where sp: "ms = xs @ ys" "ms' = xs @ n # ys" "\<forall>m \<in> set xs. length point < length (mnt_point m)"
    using insert_split [OF ok, of n] k(1) unfolding n(2) by auto
  have xs: "\<forall>m \<in> set xs. mnt_point m \<noteq> point" using sp(3) by auto
  have "point_index ms' point = Some (length xs)" using point_index_append [OF xs, of n ys] sp(2) k(1) by simp
  then have u: "\<exists>w''. do_umount ops w' ms' point = (Inr (), w'', ms)" using k(2) by (simp add: do_umount_def mount_remove_def sp)
  have "do_umount ops w' (mount_retain ms' i) point = (Inl EBUSY, w', mount_retain ms' i)" if i: "mount_index ms' point = Some i" for i
  proof -
    have mm: "mount_match point point" by (simp add: mount_match_def)
    have "\<not> mount_match point (mnt_point m)" if "m \<in> set xs" for m
      using sp(3) that by (auto simp: mount_match_def dest: arg_cong [where f = length])
    then have "i = length xs" using i mm k(1) unfolding sp(2)
      by (induction xs arbitrary: i) (auto split: if_splits)
    then have "mount_retain ms' i = xs @ (n\<lparr>mnt_refcount := 1\<rparr>) # ys"
      using k(2) by (simp add: sp(2) mount_retain_def mount_ref_def list_update_append)
    then show ?thesis using point_index_append [OF xs, of "n\<lparr>mnt_refcount := 1\<rparr>" ys] k(1) by (simp add: do_umount_def mount_remove_def)
  qed
  with u show ?thesis by blast
qed

theorem umount_undoes_mount_witness:
  "\<exists>w''. do_umount real_ops () [real_tmp, root_mount] ''/tmp'' = (Inr (), w'', [root_mount])"
  using umount_undoes_mount [OF root_ok real_hook ex_do_mount] by blast

text \<open>
\<open>mount_param_flag\<close> does not terminate when the option is not the first in the list: at the comma
  behind the first option \<open>strcspn\<close> returns 0 and the position stays where it is, for ever.
\<close>

theorem mount_param_flag_diverges:
  assumes "flag \<noteq> []" "hd flag \<noteq> CHR '',''" "CHR '','' \<notin> set opt" "opt \<noteq> []"
    "take (length flag) (opt @ [CHR '',''] @ rest) \<noteq> flag"
  shows "mount_param_flag fuel (opt @ [CHR '',''] @ rest) flag = None"
proof -
  have comma: "mount_param_flag fuel (CHR '','' # rest) flag = None" for fuel
    using assms(1,2) by (induction fuel) (cases flag; auto)+
  have "dropWhile (\<lambda>c. c \<noteq> CHR '','') (opt @ CHR '','' # rest) = CHR '','' # rest"
    using assms(3) by (induction opt) auto
  then show ?thesis using comma assms(4,5) by (cases fuel) simp_all
qed

theorem mount_param_flag_diverges_witness: "mount_param_flag 1000 (''ro'' @ [CHR '',''] @ ''noatime'') ''noatime'' = None"
  by (rule mount_param_flag_diverges) simp_all

text \<open>
\<open>access_check\<close> asks whether any of the requested permissions is granted, not all of them: an
  unprivileged process that may read a file but not write it passes the check for reading and
  writing, the one that \<open>generic_openat\<close> makes for \<open>O_RDWR\<close>.
\<close>

theorem access_check_any_bit:
  assumes "\<not> superuser c" "access_check c st AC_R = Inr ()" "access_check c st AC_W = Inl EACCES"
  shows "access_check c st (AC_R OR AC_W) = Inr ()"
proof -
  have or0: "m AND (x OR y) \<noteq> 0" if "m AND x \<noteq> 0" for m x y :: u32
    using that unfolding tst_iff by (auto simp: bit_simps)
  have "AC_R \<noteq> 0" "AC_R OR AC_W \<noteq> 0" by (simp_all add: AC_R_def AC_W_def)
  then show ?thesis using assms or0 by (auto simp: access_check_def Let_def push_bit_or split: if_splits)
qed

theorem access_check_any_bit_witness:
  "access_check \<lparr>cr_euid = 5, cr_egid = 5\<rparr> \<lparr>st_mode = 0x8124, st_uid = 0, st_gid = 0, st_inode = 1, st_rdev = 0\<rparr> (AC_R OR AC_W) = Inr ()"
  by (rule access_check_any_bit) (simp_all add: superuser_def access_check_def AC_R_def AC_W_def)

end
