(* ===== verification/Path.thy ===== *)
theory Path
  imports Mount
begin

text \<open>
  Path resolution, \<^verbatim>\<open>fs/path.c\<close>. Strings are character lists without their terminating null, \<open>out\<close>
  is what the output buffer holds up to the write position, \<open>n\<close> is the code's signed count of the space
  left. \<open>None\<close> is a failed assertion or an access outside one of the \<open>MAX_PATH\<close> buffers. The references the
  code takes to mounts on its way are counted in the mount list, which is threaded through.
\<close>

definition MAX_PATH :: nat where "MAX_PATH = 4096"
definition MAX_NAME :: nat where "MAX_NAME = 256"

abbreviation slash :: char where "slash \<equiv> CHR ''/''"

section \<open>Scanning one component\<close>

text \<open>The end of a component is a slash or the end of the string.\<close>

definition at_end :: "string \<Rightarrow> bool" where
  "at_end p \<longleftrightarrow> p = [] \<or> hd p = slash"

definition is_dot :: "string \<Rightarrow> bool" where
  "is_dot p \<longleftrightarrow> p \<noteq> [] \<and> hd p = CHR ''.'' \<and> at_end (tl p)"

definition is_dotdot :: "string \<Rightarrow> bool" where
  "is_dotdot p \<longleftrightarrow> length p \<ge> 2 \<and> p ! 0 = CHR ''.'' \<and> p ! 1 = CHR ''.'' \<and> at_end (drop 2 p)"

definition eat_slashes :: "string \<Rightarrow> string" where
  "eat_slashes p = dropWhile (\<lambda>c. c = slash) p"

text \<open>Whether the character before the position reached is a slash; \<open>None\<close> before the string.\<close>

definition after_slash :: "bool option \<Rightarrow> bool \<Rightarrow> string \<Rightarrow> bool option" where
  "after_slash prev moved p = (if p \<noteq> [] \<and> hd p = slash then Some True else if moved then Some False else prev)"

text \<open>Back to the last slash of the output, which is cut off as well.\<close>

definition pop_component :: "string \<Rightarrow> string option" where
  "pop_component out =
     (if out = [] then Some []
      else let r = dropWhile (\<lambda>c. c \<noteq> slash) (rev out) in if r = [] then None else Some (rev (tl r)))"

fun copy_component :: "string \<Rightarrow> int \<Rightarrow> string \<times> string \<times> int" where
  "copy_component [] n = ([], [], n)"
| "copy_component (c # cs) n =
     (if c = slash then ([], c # cs, n)
      else if n - 1 > 0 then (let (w, p, m) = copy_component cs (n - 1) in (c # w, p, m))
      else ([], c # cs, n - 1))"

section \<open>Normalization\<close>

definition readlink_at :: "(nat \<Rightarrow> 'w fs_ops) \<Rightarrow> 'w \<Rightarrow> mount \<Rightarrow> string \<Rightarrow> nat \<Rightarrow> string result" where
  "readlink_at ops w m path bufsize =
     (case op_readlink (ops (mnt_fs m)) of None \<Rightarrow> Inl EINVAL | Some f \<Rightarrow> f w m path bufsize)"

text \<open>The path a symbolic link expands to: its target, absolute or behind its directory, and the rest.\<close>

definition symlink_expand :: "string \<Rightarrow> string \<Rightarrow> string \<Rightarrow> string" where
  "symlink_expand out target rest =
     (if target \<noteq> [] \<and> hd target = slash then target else out @ [slash] @ target)
       @ (if rest \<noteq> [] then [slash] @ rest else [])"

text \<open>A component followed by a slash must be a directory that may be searched, if it exists.\<close>

definition dir_check :: "(nat \<Rightarrow> 'w fs_ops) \<Rightarrow> 'w \<Rightarrow> cred \<Rightarrow> mount \<Rightarrow> string \<Rightarrow> unit result" where
  "dir_check ops w cr m path =
     (case op_stat (ops (mnt_fs m)) w m path of
        Inl e \<Rightarrow> Inr ()
      | Inr st \<Rightarrow> if \<not> S_ISDIR (st_mode st) then Inl ENOTDIR else access_check cr st AC_X)"

lemma copy_component_length: "copy_component p n = (w, p', m) \<Longrightarrow> length p' \<le> length p \<and> p = w @ p'"
  by (induction p n arbitrary: w p' m rule: copy_component.induct) (auto split: if_splits prod.splits)

lemma eat_slashes_length: "length (eat_slashes p) \<le> length p"
  by (simp add: eat_slashes_def length_dropWhile_le)

lemma component_shorter: "(w, p', m) = copy_component p n \<Longrightarrow> length (eat_slashes p') \<le> length p"
  using copy_component_length [of p n w p' m] eat_slashes_length [of p'] by simp

function norm_loop ::
  "(nat \<Rightarrow> 'w fs_ops) \<Rightarrow> 'w \<Rightarrow> cred \<Rightarrow> bool \<Rightarrow> nat \<Rightarrow> mount list \<Rightarrow> bool option \<Rightarrow> string \<Rightarrow> string \<Rightarrow> int
     \<Rightarrow> (string result \<times> mount list) option" where
  "norm_loop ops w cr follow levels ms prev p out n =
     (if p = [] then
        if length out < MAX_PATH \<and> path_is_normalized out then Some (Inr out, ms) else None
      else if is_dot p then
        norm_loop ops w cr follow levels ms (after_slash prev True (tl p)) (eat_slashes (tl p)) out n
      else if is_dotdot p then do {
        out' \<leftarrow> pop_component out;
        norm_loop ops w cr follow levels ms (after_slash prev True (drop 2 p)) (eat_slashes (drop 2 p)) out'
          (n + int (length out - length out'))
      }
      else if \<not> length out < MAX_PATH then None
      else
        let (word, p1, n1) = copy_component p (n - 1);
            o1 = out @ [slash] @ word;
            p2 = eat_slashes p1;
            prev2 = after_slash prev (word \<noteq> []) p1 in
        if length o1 > MAX_PATH then None
        else if n1 = 0 then Some (Inl ENAMETOOLONG, ms)
        else if \<not> (follow \<or> p2 \<noteq> []) then norm_loop ops w cr follow levels ms prev2 p2 o1 n1
        else if length o1 \<ge> MAX_PATH then None
        else do {
          (i, path, ms1) \<leftarrow> find_mount_and_trim_path ms o1;
          if \<not> path_is_normalized path then None
          else case readlink_at ops w (ms1 ! i) path (MAX_PATH - (length out + 1)) of
            Inr target \<Rightarrow>
              if levels \<ge> 5 then Some (Inl ELOOP, mount_release ms1 i)
              else if length out + 1 + length target \<ge> MAX_PATH then None
              else
                let expanded = symlink_expand out target p2 in
                if length expanded \<ge> MAX_PATH then None
                else if expanded = [] then Some (Inl ENOENT, mount_release ms1 i)
                else norm_loop ops w cr follow (levels + 1) (mount_release ms1 i)
                       (after_slash None False expanded) (eat_slashes expanded) [] (int MAX_PATH - 1)
          | Inl e \<Rightarrow> do {
              sl \<leftarrow> prev2;
              case (if sl then dir_check ops w cr (ms1 ! i) path else Inr ()) of
                Inl err \<Rightarrow> Some (Inl err, mount_release ms1 i)
              | Inr _ \<Rightarrow> norm_loop ops w cr follow levels (mount_release ms1 i) prev2 p2 o1 n1
            }
        })"
  by pat_completeness auto
termination
proof (relation "measures [\<lambda>(ops, w, cr, follow, levels, ms, prev, p, out, n). 5 - levels,
                           \<lambda>(ops, w, cr, follow, levels, ms, prev, p, out, n). length p,
                           \<lambda>(ops, w, cr, follow, levels, ms, prev, p, out, n). MAX_PATH + 1 - length out]",
    goal_cases)
  case 1
  show ?case by simp
next
  case (2 ops w cr follow levels ms prev p out n)
  then show ?case using eat_slashes_length [of "tl p"] by (cases p) auto
next
  case (3 ops w cr follow levels ms prev p out n out')
  then show ?case using eat_slashes_length [of "drop 2 p"] by (cases p) auto
next
  case (4 ops w cr follow levels ms prev p out n x word y p1 n1 o1 p2 prev2)
  then have "length p2 \<le> length p" using component_shorter by metis
  then show ?case using 4 by (cases "length p2 < length p") auto
next
  case (5 ops w cr follow levels ms prev p out n x word y p1 n1 o1 p2 prev2)
  then have "length p2 \<le> length p" using component_shorter by metis
  then show ?case using 5 by (cases "length p2 < length p") auto
next
  case (6 ops w cr follow levels ms prev p out n x word y p1 n1 o1 p2 prev2)
  then show ?case by auto
qed

declare norm_loop.simps [simp del]

text \<open>\<open>__path_normalize\<close>, entered with the path of the directory to start from.\<close>

definition path_normalize_at ::
  "(nat \<Rightarrow> 'w fs_ops) \<Rightarrow> 'w \<Rightarrow> cred \<Rightarrow> bool \<Rightarrow> mount list \<Rightarrow> string option \<Rightarrow> string
     \<Rightarrow> (string result \<times> mount list) option" where
  "path_normalize_at ops w cr follow ms at_path path =
     (if path = [] then Some (Inl ENOENT, ms)
      else
        let start = (case at_path of Some a \<Rightarrow> if a \<noteq> [slash] then a else [] | None \<Rightarrow> []) in
        if length start \<ge> MAX_PATH then None
        else norm_loop ops w cr follow 0 ms (after_slash None False path) (eat_slashes path) start
               (int MAX_PATH - 1 - int (length start)))"

text \<open>
  \<open>path_normalize\<close>: the directory is the root for an absolute path and otherwise the one given; its
  path is what \<open>generic_getpath\<close> returns for it.
\<close>

definition path_normalize ::
  "(nat \<Rightarrow> 'w fs_ops) \<Rightarrow> 'w \<Rightarrow> cred \<Rightarrow> bool \<Rightarrow> mount list \<Rightarrow> string result \<Rightarrow> string result \<Rightarrow> string
     \<Rightarrow> (string result \<times> mount list) option" where
  "path_normalize ops w cr follow ms root at path =
     (if path = [] then Some (Inl ENOENT, ms)
      else case (if hd path = slash then root else at) of
             Inl e \<Rightarrow> Some (Inl e, ms)
           | Inr a \<Rightarrow> if path_is_normalized a then path_normalize_at ops w cr follow ms (Some a) path else None)"

section \<open>Iterating over a normalized path\<close>

datatype next_component = Component string string | End_of_path | Component_error errno

fun take_component :: "string \<Rightarrow> nat \<Rightarrow> string \<Rightarrow> next_component" where
  "take_component acc k [] = Component (rev acc) []"
| "take_component acc k (c # cs) =
     (if c = slash then Component (rev acc) (c # cs)
      else if k + 1 \<ge> MAX_NAME then Component_error ENAMETOOLONG
      else take_component (c # acc) (k + 1) cs)"

definition path_next_component :: "string \<Rightarrow> next_component option" where
  "path_next_component p =
     (case p of
        [] \<Rightarrow> Some End_of_path
      | c # cs \<Rightarrow> if c = slash then Some (take_component [] 0 cs) else None)"

end
