(* ===== verification/Path_Props.thy ===== *)
theory Path_Props
  imports Path
begin

text \<open>
  Correctness of path resolution. A normalized path is the join of its components; a scan of the
  loop's body gives one step of a resolution on component lists, and the induction rule \<open>norm_induct\<close>
  follows the steps of the loop.
\<close>

section \<open>Components\<close>

definition comp_ok :: "string \<Rightarrow> bool" where
  "comp_ok c \<longleftrightarrow> c \<noteq> [] \<and> slash \<notin> set c \<and> c \<noteq> ''.'' \<and> c \<noteq> ''..''"

definition join :: "string list \<Rightarrow> string" where
  "join cs = concat (map (\<lambda>c. slash # c) cs)"

lemma join_simps [simp]: "join [] = []" "join (c # cs) = slash # c @ join cs" "join (cs @ ds) = join cs @ join ds"
  by (simp_all add: join_def)

lemma join_head: "join cs \<noteq> [] \<Longrightarrow> hd (join cs) = slash"
  by (cases cs) auto

lemma dropWhile_word: "slash \<notin> set w \<Longrightarrow> at_end s \<Longrightarrow> dropWhile (\<lambda>x. x \<noteq> slash) (w @ s) = s"
  by (induction w) (auto simp: at_end_def dropWhile_eq_self_iff)

lemma takeWhile_word: "slash \<notin> set w \<Longrightarrow> at_end s \<Longrightarrow> takeWhile (\<lambda>x. x \<noteq> slash) (w @ s) = w"
  by (induction w) (auto simp: at_end_def takeWhile_eq_Nil_iff)

lemma at_end_join: "at_end s \<Longrightarrow> at_end (join cs @ s)"
  by (cases cs) (auto simp: at_end_def)

lemma normalized_word:
  "slash \<notin> set w \<Longrightarrow> w \<noteq> [] \<Longrightarrow> at_end s \<Longrightarrow> path_is_normalized (slash # w @ s) = path_is_normalized s"
  using dropWhile_word [of w s] by (cases w) auto

lemma normalized_join:
  "\<forall>c \<in> set cs. comp_ok c \<Longrightarrow> at_end s \<Longrightarrow> path_is_normalized (join cs @ s) = path_is_normalized s"
proof (induction cs)
  case (Cons c cs)
  then show ?case using normalized_word [of c "join cs @ s"] at_end_join [of s cs] by (auto simp: comp_ok_def)
qed simp

lemma double_slash_not_normalized: "\<forall>c \<in> set cs. comp_ok c \<Longrightarrow> \<not> path_is_normalized (join cs @ [slash, slash])"
  using normalized_join [of cs "[slash, slash]"] by (simp add: at_end_def)

lemma pop_join: "\<forall>c \<in> set cs. comp_ok c \<Longrightarrow> pop_component (join cs) = Some (join (butlast cs))"
proof (cases cs rule: rev_cases)
  case (snoc ds c)
  moreover assume "\<forall>c \<in> set cs. comp_ok c"
  ultimately have "slash \<notin> set (rev c)" by (auto simp: comp_ok_def)
  then have "dropWhile (\<lambda>x. x \<noteq> slash) (rev c @ slash # rev (join ds)) = slash # rev (join ds)"
    by (intro dropWhile_word) (auto simp: at_end_def)
  with snoc show ?thesis by (simp add: pop_component_def)
qed (simp add: pop_component_def)

section \<open>The scan of one component\<close>

lemma copy_spec:
  "copy_component p n = (w, p', m) \<Longrightarrow>
     p = w @ p' \<and> slash \<notin> set w \<and> (at_end p' \<longrightarrow> m = n - int (length w))
   \<and> (w \<noteq> [] \<longrightarrow> at_end p' \<or> m = 0) \<and> (\<not> at_end p' \<longrightarrow> m \<le> 0 \<or> w = []) \<and> (w = [] \<longrightarrow> at_end p \<or> m = n - 1 \<and> m \<le> 0)"
proof (induction p n arbitrary: w p' m rule: copy_component.induct)
  case (2 c cs n)
  show ?case
  proof (cases "c = slash \<or> \<not> n - 1 > 0")
    case True
    then show ?thesis using 2(2) by (auto simp: at_end_def split: if_splits)
  next
    case False
    then obtain w1 where w: "copy_component cs (n - 1) = (w1, p', m)" "w = c # w1"
      using 2(2) by (auto split: prod.splits)
    with 2(1) [OF _ _ w(1)] False show ?thesis by (auto simp: at_end_def)
  qed
qed (auto simp: at_end_def)

text \<open>With enough room the whole component is copied.\<close>

lemma copy_fits:
  assumes "slash \<notin> set w" "at_end s" "int (length w) < n"
  shows "copy_component (w @ s) n = (w, s, n - int (length w))"
  using assms
proof (induction w arbitrary: n)
  case Nil
  then show ?case by (cases s) (auto simp: at_end_def)
qed auto

lemma retain_release: "i < length ms \<Longrightarrow> mount_release (mount_retain ms i) i = ms"
  by (simp add: mount_release_def mount_retain_def mount_ref_def)

lemma mount_index_bound: "mount_index ms path = Some i \<Longrightarrow> i < length ms \<and> mount_match path (mnt_point (ms ! i))"
  by (induction ms arbitrary: i) (auto split: if_splits)

lemma find_mount_release:
  "find_mount_and_trim_path ms path = Some (i, t, ms1) \<Longrightarrow>
     path_is_normalized path \<and> i < length ms \<and> t = drop (length (mnt_point (ms ! i))) path
   \<and> ms1 = mount_retain ms i \<and> mount_release ms1 i = ms"
  by (auto simp: find_mount_and_trim_path_def mount_find_def bind_eq_Some_conv retain_release
      dest: mount_index_bound split: if_splits)

section \<open>Induction along the loop\<close>

lemma norm_induct [case_names step]:
  fixes levels :: nat
  assumes step: "\<And>levels prev p out n.
     \<lbrakk> \<lbrakk>p \<noteq> []; is_dot p\<rbrakk> \<Longrightarrow> P levels (after_slash prev True (tl p)) (eat_slashes (tl p)) out n;
       \<And>out'. \<lbrakk>p \<noteq> []; \<not> is_dot p; is_dotdot p\<rbrakk>
          \<Longrightarrow> P levels (after_slash prev True (drop 2 p)) (eat_slashes (drop 2 p)) out' (n + int (length out - length out'));
       \<And>word p1 n1. \<lbrakk>copy_component p (n - 1) = (word, p1, n1); length (out @ [slash] @ word) \<le> MAX_PATH\<rbrakk>
          \<Longrightarrow> P levels (after_slash prev (word \<noteq> []) p1) (eat_slashes p1) (out @ [slash] @ word) n1;
       \<And>q. levels < 5 \<Longrightarrow> P (levels + 1) (after_slash None False q) (eat_slashes q) [] (int MAX_PATH - 1) \<rbrakk>
     \<Longrightarrow> P levels prev p out n"
  shows "P levels prev p out n"
proof -
  have "\<forall>prev n. P (fst x) prev (fst (snd x)) (snd (snd x)) n" for x :: "nat \<times> string \<times> string"
  proof (induction x rule: wf_induct_rule [OF wf_measures [where fs = "[\<lambda>(levels :: nat, p :: string, out :: string). 5 - levels,
      \<lambda>(levels, p, out). length p, \<lambda>(levels, p, out). MAX_PATH + 1 - length out]"]])
    case (1 x)
    obtain levels p out where x: "x = (levels, p, out)" by (cases x)
    note IH = 1 [of "(l, q, r)" for l q r, unfolded x, simplified]
    show ?case unfolding x
    proof (clarsimp, rule step, goal_cases)
      case (1 prev n)
      then have "length (eat_slashes (tl p)) < length p" using eat_slashes_length [of "tl p"] by (cases p) auto
      then show ?case using IH by simp
    next
      case (2 prev n out')
      then have "length (eat_slashes (drop 2 p)) < length p" using eat_slashes_length [of "drop 2 p"] by (cases p) auto
      then show ?case using IH by simp
    next
      case (3 prev n word p1 n1)
      have "length (eat_slashes p1) \<le> length p" using component_shorter [OF 3(1)[symmetric]] .
      then show ?case using IH [of levels "eat_slashes p1" "out @ [slash] @ word"] 3(2)
        by (cases "length (eat_slashes p1) < length p") auto
    next
      case (4 prev n q)
      then have "4 - levels < 5 - levels" by simp
      then show ?case using IH [of "levels + 1" "eat_slashes q" "[]"] by simp
    qed
  qed
  from this [of "(levels, p, out)"] show ?thesis by simp
qed

section \<open>What a successful resolution returns\<close>

lemma norm_loop_regular:
  assumes "p \<noteq> []" "\<not> is_dot p" "\<not> is_dotdot p" "copy_component p (n - 1) = (word, p1, n1)"
  shows "norm_loop ops w cr follow levels ms prev p out n =
     (let o1 = out @ [slash] @ word; p2 = eat_slashes p1; prev2 = after_slash prev (word \<noteq> []) p1 in
        if \<not> length out < MAX_PATH \<or> length o1 > MAX_PATH then None
        else if n1 = 0 then Some (Inl ENAMETOOLONG, ms)
        else if \<not> (follow \<or> p2 \<noteq> []) then norm_loop ops w cr follow levels ms prev2 p2 o1 n1
        else if length o1 \<ge> MAX_PATH then None
        else do {
          (i, path, ms1) \<leftarrow> find_mount_and_trim_path ms o1;
          if \<not> path_is_normalized path then None
          else case readlink_at ops w (ms1 ! i) path (MAX_PATH - (length out + 1)) of
            Inr target \<Rightarrow>
              if levels \<ge> 5 then Some (Inl ELOOP, ms)
              else if length out + 1 + length target \<ge> MAX_PATH then None
              else if length (symlink_expand out target p2) \<ge> MAX_PATH then None
              else if symlink_expand out target p2 = [] then Some (Inl ENOENT, ms)
              else norm_loop ops w cr follow (levels + 1) ms
                     (after_slash None False (symlink_expand out target p2)) (eat_slashes (symlink_expand out target p2)) [] (int MAX_PATH - 1)
          | Inl e \<Rightarrow> do {
              sl \<leftarrow> prev2;
              case (if sl then dir_check ops w cr (ms1 ! i) path else Inr ()) of
                Inl err \<Rightarrow> Some (Inl err, ms)
              | Inr _ \<Rightarrow> norm_loop ops w cr follow levels ms prev2 p2 o1 n1
            }
        })"
proof (cases "find_mount_and_trim_path ms (out @ [slash] @ word)")
  case None
  then show ?thesis using assms by (subst norm_loop.simps) (simp add: Let_def)
next
  case (Some x)
  obtain i path ms1 where x: "x = (i, path, ms1)" by (cases x)
  from find_mount_release [OF Some [unfolded x]] have "mount_release ms1 i = ms" by blast
  with Some x assms show ?thesis
    by (subst norm_loop.simps) (simp add: Let_def cong: if_cong sum.case_cong)
qed

lemma norm_regular:
  assumes p: "p \<noteq> []" "\<not> is_dot p" "\<not> is_dotdot p" and c: "copy_component p (n - 1) = (word, p1, n1)"
    and r: "norm_loop ops w cr follow levels ms prev p out n = Some (r, ms')"
  shows "length (out @ [slash] @ word) \<le> MAX_PATH
    \<and> ((\<exists>e. r = Inl e \<and> ms' = ms)
       \<or> n1 \<noteq> 0 \<and> (eat_slashes p1 \<noteq> [] \<longrightarrow> path_is_normalized (out @ [slash] @ word))
         \<and> (norm_loop ops w cr follow levels ms (after_slash prev (word \<noteq> []) p1) (eat_slashes p1) (out @ [slash] @ word) n1
               = Some (r, ms')
            \<or> (\<exists>q. levels < 5 \<and> norm_loop ops w cr follow (levels + 1) ms (after_slash None False q) (eat_slashes q) []
                     (int MAX_PATH - 1) = Some (r, ms'))))"
  using r find_mount_release [of ms "out @ [slash] @ word"]
  unfolding norm_loop_regular [OF p c] Let_def
  by (fastforce simp: bind_eq_Some_conv split: if_splits sum.splits)

definition clean :: "string \<Rightarrow> bool" where
  "clean out \<longleftrightarrow> (\<exists>cs. (\<forall>c \<in> set cs. comp_ok c) \<and> out = join cs)"

text \<open>
  The state after a component for which no room was left: a slash without a component, the position
  in the path unchanged. The next step writes another slash and stops at the assertion in
  \<open>mount_find\<close>.
\<close>

definition stuck :: "string \<Rightarrow> string \<Rightarrow> int \<Rightarrow> bool" where
  "stuck out p n \<longleftrightarrow> p \<noteq> [] \<and> \<not> is_dot p \<and> \<not> is_dotdot p \<and> hd p \<noteq> slash \<and> n \<le> 0
     \<and> (\<exists>cs. (\<forall>c \<in> set cs. comp_ok c) \<and> out = join cs @ [slash])"

lemma eat_slashes_head: "eat_slashes p = [] \<or> hd (eat_slashes p) \<noteq> slash"
  using hd_dropWhile [of "\<lambda>c. c = slash" p] by (auto simp: eat_slashes_def)

lemma eat_slashes_id: "p = [] \<or> hd p \<noteq> slash \<Longrightarrow> eat_slashes p = p"
  by (cases p) (auto simp: eat_slashes_def)

lemma stuck_fails:
  assumes "stuck out p n"
  shows "norm_loop ops w cr follow levels ms prev p out n = None"
proof (rule ccontr)
  have p: "p \<noteq> []" "\<not> is_dot p" "\<not> is_dotdot p" "hd p \<noteq> slash" "n \<le> 0" using assms by (auto simp: stuck_def)
  obtain cs where cs: "\<forall>c \<in> set cs. comp_ok c" "out = join cs @ [slash]" using assms by (auto simp: stuck_def)
  have c: "copy_component p (n - 1) = ([], p, n - 2)" using p by (cases p) auto
  assume "norm_loop ops w cr follow levels ms prev p out n \<noteq> None"
  then obtain r ms' where "norm_loop ops w cr follow levels ms prev p out n = Some (r, ms')" by (cases "norm_loop ops w cr follow levels ms prev p out n") auto
  from norm_regular [OF p(1-3) c this] have "(\<exists>e. r = Inl e) \<or> path_is_normalized (out @ [slash] @ [])"
    using eat_slashes_id [of p] p by auto
  moreover have "\<not> path_is_normalized (out @ [slash])" using double_slash_not_normalized [OF cs(1)] cs(2) by simp
  ultimately obtain e where "r = Inl e" by auto
  have "find_mount_and_trim_path ms (out @ [slash] @ []) = None"
    using \<open>\<not> path_is_normalized (out @ [slash])\<close> by (simp add: find_mount_and_trim_path_def mount_find_def)
  then have "norm_loop ops w cr follow levels ms prev p out n = None"
    unfolding norm_loop_regular [OF p(1-3) c] Let_def using p eat_slashes_id [of p] by auto
  with \<open>norm_loop ops w cr follow levels ms prev p out n \<noteq> None\<close> show False by simp
qed

lemma clean_snoc:
  assumes "clean out" "comp_ok word"
  shows "clean (out @ [slash] @ word)"
proof -
  obtain cs where "\<forall>c \<in> set cs. comp_ok c" "out = join cs" using assms(1) by (auto simp: clean_def)
  then have "(\<forall>c \<in> set (cs @ [word]). comp_ok c) \<and> out @ [slash] @ word = join (cs @ [word])" using assms(2) by auto
  then show ?thesis unfolding clean_def by blast
qed

lemma word_comp_ok:
  assumes "\<not> is_dot p" "\<not> is_dotdot p" "copy_component p n = (word, p1, n1)" "word \<noteq> []" "n1 \<noteq> 0"
  shows "comp_ok word" "at_end p1"
proof -
  note S = copy_spec [OF assms(3)]
  show e: "at_end p1" using S assms(4,5) by blast
  have "word \<noteq> ''.''" "word \<noteq> ''..''" using assms(1,2) S e by (auto simp: is_dot_def is_dotdot_def)
  then show "comp_ok word" using S assms(4) by (simp add: comp_ok_def)
qed

lemma norm_loop_result:
  assumes "clean out" "p = [] \<or> hd p \<noteq> slash"
    and "norm_loop ops w cr follow levels ms prev p out n = Some (r, ms')"
  shows "ms' = ms \<and> (\<forall>res. r = Inr res \<longrightarrow> clean res \<and> length res < MAX_PATH)"
  using assms
proof (induction levels prev p out n rule: norm_induct)
  case (step levels prev p out n)
  note r = step.prems(3)
  consider "p = []" | "p \<noteq> []" "is_dot p" | "p \<noteq> []" "\<not> is_dot p" "is_dotdot p"
    | "p \<noteq> []" "\<not> is_dot p" "\<not> is_dotdot p" by blast
  then show ?case
  proof cases
    case 1
    then show ?thesis using r step.prems(1) by (subst (asm) norm_loop.simps) (auto split: if_splits)
  next
    case 2
    then show ?thesis using step.IH(1) [OF 2 step.prems(1) eat_slashes_head] r
      by (subst (asm) (2) norm_loop.simps) simp
  next
    case 3
    obtain cs where cs: "\<forall>c \<in> set cs. comp_ok c" "out = join cs" using step.prems(1) by (auto simp: clean_def)
    have "\<forall>c \<in> set (butlast cs). comp_ok c" using cs(1) by (meson in_set_butlastD)
    then have "clean (join (butlast cs))" unfolding clean_def by blast
    then show ?thesis using step.IH(2) [OF 3 _ eat_slashes_head, of "join (butlast cs)"] r 3 pop_join [OF cs(1)] cs(2)
      by (subst (asm) (2) norm_loop.simps) simp
  next
    case 4
    obtain word p1 n1 where c: "copy_component p (n - 1) = (word, p1, n1)" by (cases "copy_component p (n - 1)")
    note R = norm_regular [OF 4 c r]
    consider "\<exists>e. r = Inl e \<and> ms' = ms"
      | "n1 \<noteq> 0" "norm_loop ops w cr follow levels ms (after_slash prev (word \<noteq> []) p1) (eat_slashes p1) (out @ [slash] @ word) n1 = Some (r, ms')"
      | q where "levels < 5" "norm_loop ops w cr follow (levels + 1) ms (after_slash None False q) (eat_slashes q) [] (int MAX_PATH - 1) = Some (r, ms')"
      using R by blast
    then show ?thesis
    proof cases
      case 1
      then show ?thesis by auto
    next
      case 2
      show ?thesis
      proof (cases "word = []")
        case True
        then have "p1 = p" "n1 \<le> 0" using copy_spec [OF c] 4(1) step.prems(2) by (auto simp: at_end_def)
        then have "stuck (out @ [slash] @ word) (eat_slashes p1) n1"
          using 4 step.prems(1,2) eat_slashes_id [of p] True by (auto simp: stuck_def clean_def)
        from stuck_fails [OF this] 2(2) show ?thesis by (metis option.distinct(1))
      next
        case False
        have "clean (out @ [slash] @ word)"
          using clean_snoc [OF step.prems(1) word_comp_ok(1) [OF 4(2,3) c False 2(1)]] .
        from step.IH(3) [OF c _ this eat_slashes_head 2(2)] R show ?thesis by blast
      qed
    next
      case 3
      have "clean []" by (auto simp: clean_def intro: exI [of _ "[]"])
      from step.IH(4) [OF 3(1) this eat_slashes_head 3(2)] show ?thesis .
    qed
  qed
qed

text \<open>The references to mounts are given back from any starting point.\<close>

lemma norm_loop_mounts:
  "norm_loop ops w cr follow levels ms prev p out n = Some (r, ms') \<Longrightarrow> ms' = ms"
proof (induction levels prev p out n rule: norm_induct)
  case (step levels prev p out n)
  note r = step.prems
  consider "p = []" | "p \<noteq> []" "is_dot p" | "p \<noteq> []" "\<not> is_dot p" "is_dotdot p"
    | "p \<noteq> []" "\<not> is_dot p" "\<not> is_dotdot p" by blast
  then show ?case
  proof cases
    case 1
    then show ?thesis using r by (subst (asm) norm_loop.simps) (auto split: if_splits)
  next
    case 2
    then show ?thesis using step.IH(1) [OF 2] r by (subst (asm) (2) norm_loop.simps) simp
  next
    case 3
    then show ?thesis using step.IH(2) [OF 3] r by (subst (asm) (2) norm_loop.simps) (auto simp: bind_eq_Some_conv)
  next
    case 4
    obtain word p1 n1 where c: "copy_component p (n - 1) = (word, p1, n1)" by (cases "copy_component p (n - 1)")
    from norm_regular [OF 4 c r] step.IH(3) [OF c] step.IH(4) show ?thesis by blast
  qed
qed

lemma path_normalize_mounts: "path_normalize ops w cr follow ms root at path = Some (r, ms') \<Longrightarrow> ms' = ms"
  by (auto simp: path_normalize_def path_normalize_at_def Let_def dest: norm_loop_mounts split: if_splits sum.splits)

section \<open>Resolution on component lists\<close>

text \<open>
  The reference: split at slashes, then keep a stack of components. \<open>chk\<close> decides whether the
  directory a path names may be passed through; it is asked about every component that another one
  follows, and about the last one when \<open>final\<close> says so.
\<close>

function comps :: "string \<Rightarrow> string list" where
  "comps p =
     (if eat_slashes p = [] then []
      else takeWhile (\<lambda>c. c \<noteq> slash) (eat_slashes p) # comps (dropWhile (\<lambda>c. c \<noteq> slash) (eat_slashes p)))"
  by pat_completeness auto
termination
proof (relation "measure length", goal_cases)
  case (2 p)
  then obtain c cs where c: "eat_slashes p = c # cs" "c \<noteq> slash" using eat_slashes_head [of p] by (cases "eat_slashes p") auto
  have "length (dropWhile (\<lambda>c. c \<noteq> slash) cs) \<le> length cs" by (rule length_dropWhile_le)
  then show ?case using c eat_slashes_length [of p] by simp
qed simp

declare comps.simps [simp del]

fun resolve :: "(string \<Rightarrow> unit result) \<Rightarrow> bool \<Rightarrow> string list \<Rightarrow> string list \<Rightarrow> string list result" where
  "resolve chk final acc [] = Inr acc"
| "resolve chk final acc (c # cs) =
     (if c = ''.'' then resolve chk final acc cs
      else if c = ''..'' then resolve chk final (butlast acc) cs
      else case (if cs \<noteq> [] \<or> final then chk (join (acc @ [c])) else Inr ()) of
             Inl e \<Rightarrow> Inl e
           | Inr _ \<Rightarrow> resolve chk final (acc @ [c]) cs)"

lemma eat_slashes_idem [simp]: "eat_slashes (eat_slashes p) = eat_slashes p"
  by (rule eat_slashes_id [OF eat_slashes_head])

lemma comps_eat [simp]: "comps (eat_slashes p) = comps p"
  by (subst (1 2) comps.simps) simp

lemma comps_Nil [simp]: "comps [] = []"
  by (subst comps.simps) (simp add: eat_slashes_def)

lemma comps_word: "slash \<notin> set w \<Longrightarrow> w \<noteq> [] \<Longrightarrow> at_end s \<Longrightarrow> comps (w @ s) = w # comps s"
  using dropWhile_word [of w s] takeWhile_word [of w s] eat_slashes_id [of "w @ s"]
  by (subst comps.simps) (cases w; auto)

lemma eat_at_end: "at_end s \<Longrightarrow> length (eat_slashes s) \<le> length s - 1"
  using eat_slashes_length [of "tl s"] by (cases s) (auto simp: at_end_def eat_slashes_def)

text \<open>A path in two at a component boundary.\<close>

lemma word_split:
  assumes "p \<noteq> []" "hd p \<noteq> slash"
  obtains word s where "p = word @ s" "word \<noteq> []" "slash \<notin> set word" "at_end s"
proof (rule that [of "takeWhile (\<lambda>c. c \<noteq> slash) p" "dropWhile (\<lambda>c. c \<noteq> slash) p"])
  show "takeWhile (\<lambda>c. c \<noteq> slash) p \<noteq> []" using assms by (cases p) auto
  show "slash \<notin> set (takeWhile (\<lambda>c. c \<noteq> slash) p)" by (auto dest: set_takeWhileD)
  show "at_end (dropWhile (\<lambda>c. c \<noteq> slash) p)"
    using hd_dropWhile [of "\<lambda>c. c \<noteq> slash" p] by (auto simp: at_end_def)
qed simp

lemma dot_words:
  assumes "p = word @ s" "word \<noteq> []" "slash \<notin> set word" "at_end s"
  shows "is_dot p \<longleftrightarrow> word = ''.''" "is_dotdot p \<longleftrightarrow> word = ''..''"
proof -
  show "is_dot p \<longleftrightarrow> word = ''.''"
    using assms by (cases word; cases "tl word") (auto simp: is_dot_def at_end_def)
  show "is_dotdot p \<longleftrightarrow> word = ''..''"
  proof (cases "length word \<ge> 3")
    case True
    then obtain a b c v where "word = a # b # c # v" by (auto simp: numeral_3_eq_3 Suc_le_length_iff)
    then show ?thesis using assms by (auto simp: is_dotdot_def at_end_def)
  next
    case False
    then show ?thesis using assms
      by (cases word; cases "tl word"; cases "tl (tl word)"; cases s) (auto simp: is_dotdot_def at_end_def)
  qed
qed

text \<open>The part of a normalized path behind a mount point.\<close>

lemma normalized_suffix: "path_is_normalized (a @ s) \<Longrightarrow> at_end s \<Longrightarrow> path_is_normalized s"
proof (induction "length a" arbitrary: a rule: less_induct)
  case less
  show ?case
  proof (cases a)
    case (Cons c cs)
    have n: "path_is_normalized (dropWhile (\<lambda>x. x \<noteq> slash) (cs @ s))" using less.prems(1) Cons by simp
    show ?thesis
    proof (cases "slash \<in> set cs")
      case True
      then have "dropWhile (\<lambda>x. x \<noteq> slash) (cs @ s) = dropWhile (\<lambda>x. x \<noteq> slash) cs @ s" by (simp add: dropWhile_append1)
      then show ?thesis
        using less.hyps [of "dropWhile (\<lambda>x. x \<noteq> slash) cs"] n less.prems(2) Cons length_dropWhile_le [of "\<lambda>x. x \<noteq> slash" cs]
        by auto
    next
      case False
      then show ?thesis using dropWhile_word [of cs s] n less.prems(2) by simp
    qed
  qed (use less.prems in simp)
qed

lemma find_mount_normalized:
  assumes "find_mount_and_trim_path ms path = Some (i, t, ms1)"
  shows "path_is_normalized t"
proof -
  have i: "mount_index ms path = Some i" "path_is_normalized path" "t = drop (length (mnt_point (ms ! i))) path"
    using assms by (auto simp: find_mount_and_trim_path_def mount_find_def bind_eq_Some_conv split: if_splits)
  then have "mount_match path (mnt_point (ms ! i))" using mount_index_bound by blast
  then have "path = mnt_point (ms ! i) @ t" "at_end t" using i(3) append_take_drop_id [of "length (mnt_point (ms ! i))" path]
    by (auto simp: mount_match_def at_end_def)
  then show ?thesis using normalized_suffix i(2) by metis
qed

section \<open>Resolution without symbolic links\<close>

text \<open>
  A tree without symbolic links: \<open>readlink\<close> fails on every path of every mount. Directories, other
  files, missing entries and directories that may not be searched are all possible. Every absolute
  path belongs to a mount when one is mounted at the root. \<open>search_check\<close> is the check of a directory
  on the way, with the mount as it is while the resolution holds a reference to it.
\<close>

definition no_links :: "(nat \<Rightarrow> 'w fs_ops) \<Rightarrow> 'w \<Rightarrow> bool" where
  "no_links ops w \<longleftrightarrow> (\<forall>m path n. \<exists>e. readlink_at ops w m path n = Inl e)"

definition root_mounted :: "mount list \<Rightarrow> bool" where
  "root_mounted ms \<longleftrightarrow> (\<exists>m \<in> set ms. mnt_point m = [])"

definition search_check :: "(nat \<Rightarrow> 'w fs_ops) \<Rightarrow> 'w \<Rightarrow> cred \<Rightarrow> mount list \<Rightarrow> string \<Rightarrow> unit result" where
  "search_check ops w cr ms path =
     (case mount_index ms path of
        None \<Rightarrow> Inr ()
      | Some i \<Rightarrow> dir_check ops w cr (mount_retain ms i ! i) (drop (length (mnt_point (ms ! i))) path))"

lemma normalized_head: "path_is_normalized p \<Longrightarrow> p = [] \<or> hd p = slash"
  by (cases p) auto

lemma at_root: "mount_match path [] \<longleftrightarrow> path = [] \<or> hd path = slash"
  by (auto simp: mount_match_def)

lemma root_mounted_index:
  assumes "root_mounted ms" "path_is_normalized path"
  obtains i where "mount_index ms path = Some i"
proof -
  have "\<exists>m \<in> set ms. mount_match path (mnt_point m)"
    using assms(1) normalized_head [OF assms(2)] at_root [of path] unfolding root_mounted_def by metis
  then have "mount_index ms path \<noteq> None" by (induction ms) auto
  then show thesis using that by blast
qed

text \<open>One component: checked when something follows it or a slash ends a path that is followed.\<close>

lemma norm_plain_step:
  assumes N: "no_links ops w" "root_mounted ms" and p: "p \<noteq> []" "\<not> is_dot p" "\<not> is_dotdot p"
    and c: "copy_component p (n - 1) = (word, p1, n1)" "word \<noteq> []" "n1 \<noteq> 0" "at_end p1"
    and l: "length (out @ [slash] @ word) < MAX_PATH" "path_is_normalized (out @ [slash] @ word)"
  shows "norm_loop ops w cr follow levels ms prev p out n
       = (case (if eat_slashes p1 \<noteq> [] \<or> follow \<and> p1 \<noteq> [] then search_check ops w cr ms (out @ [slash] @ word) else Inr ()) of
            Inl e \<Rightarrow> Some (Inl e, ms)
          | Inr _ \<Rightarrow> norm_loop ops w cr follow levels ms (after_slash prev True p1) (eat_slashes p1) (out @ [slash] @ word) n1)"
proof -
  obtain i where i: "mount_index ms (out @ [slash] @ word) = Some i" using root_mounted_index N(2) l(2) by blast
  define t where "t = drop (length (mnt_point (ms ! i))) (out @ [slash] @ word)"
  have f: "find_mount_and_trim_path ms (out @ [slash] @ word) = Some (i, t, mount_retain ms i)"
    using i l(2) by (simp add: find_mount_and_trim_path_def mount_find_def t_def)
  have d: "search_check ops w cr ms (out @ [slash] @ word) = dir_check ops w cr (mount_retain ms i ! i) t"
    using i by (simp add: search_check_def t_def)
  note t = find_mount_normalized [OF f]
  obtain e where e: "readlink_at ops w (mount_retain ms i ! i) t (MAX_PATH - (length out + 1)) = Inl e"
    using N by (metis no_links_def)
  have sl: "after_slash prev True p1 = Some (p1 \<noteq> [])" using c(4) by (auto simp: after_slash_def at_end_def)
  have z: "eat_slashes p1 \<noteq> [] \<Longrightarrow> p1 \<noteq> []" by (auto simp: eat_slashes_def)
  have g: "\<not> (\<not> length out < MAX_PATH \<or> length (out @ [slash] @ word) > MAX_PATH)" using l(1) by simp
  show ?thesis
  proof (cases "follow \<or> eat_slashes p1 \<noteq> []")
    case False
    then show ?thesis unfolding norm_loop_regular [OF p c(1)] Let_def if_not_P [OF g] using c(2,3) by simp
  next
    case True
    have k: "(if eat_slashes p1 \<noteq> [] \<or> follow \<and> p1 \<noteq> [] then search_check ops w cr ms (out @ [slash] @ word) else Inr ())
        = (if p1 \<noteq> [] then dir_check ops w cr (mount_retain ms i ! i) t else Inr ())"
      using True z d by auto
    show ?thesis unfolding norm_loop_regular [OF p c(1)] Let_def if_not_P [OF g] k
      using True c(2,3) l(1) f t e sl by (simp cong: sum.case_cong)
  qed
qed

text \<open>Where every check passes the loop always goes on with the next component, unless there was no room.\<close>

lemma norm_plain_no_link:
  assumes N: "no_links ops w" "\<forall>m q. dir_check ops w cr m q = Inr ()" and p: "p \<noteq> []" "\<not> is_dot p" "\<not> is_dotdot p"
    and c: "copy_component p (n - 1) = (word, p1, n1)"
    and r: "norm_loop ops w cr follow levels ms prev p out n = Some (r, ms')"
  shows "n1 = 0 \<or> norm_loop ops w cr follow levels ms (after_slash prev (word \<noteq> []) p1) (eat_slashes p1) (out @ [slash] @ word) n1
           = Some (r, ms')"
proof -
  have e: "\<exists>e. readlink_at ops w m q b = Inl e" for m q b using N(1) by (auto simp: no_links_def)
  have d': "dir_check ops w cr = (\<lambda>m q. Inr ())" using N(2) by (simp add: fun_eq_iff)
  show ?thesis using r unfolding norm_loop_regular [OF p c] Let_def d'
    by (auto simp: bind_eq_Some_conv split: if_splits sum.splits) (metis e sum.distinct(1))+
qed

lemma last_eat: "eat_slashes s \<noteq> [] \<Longrightarrow> last (eat_slashes s) = last s"
  by (metis eat_slashes_def last_appendR takeWhile_dropWhile_id)

lemma comps_empty_iff: "comps s = [] \<longleftrightarrow> eat_slashes s = []"
  by (cases "eat_slashes s = []") (simp_all add: comps.simps [of s])

lemma case_result:
  "y = Some (map_sum id f z, ms) \<Longrightarrow>
     (case x of Inl e \<Rightarrow> Some (Inl e, ms) | Inr _ \<Rightarrow> y)
       = Some (map_sum id f (case x of Inl e \<Rightarrow> Inl e | Inr _ \<Rightarrow> z), ms)"
  by (cases x) auto

lemma plain_checked:
  assumes "word \<noteq> []" "slash \<notin> set word" "at_end s"
  shows "comps (eat_slashes s) \<noteq> [] \<or> follow \<and> last (word @ s) = slash \<longleftrightarrow> eat_slashes s \<noteq> [] \<or> follow \<and> s \<noteq> []"
proof (cases "eat_slashes s = []")
  case True
  then have "s \<noteq> [] \<Longrightarrow> last s = slash" by (simp add: eat_slashes_def)
  moreover have "last word \<noteq> slash" using assms(1,2) by (metis last_in_set)
  ultimately show ?thesis using True by auto
qed (simp add: comps_empty_iff)

lemma norm_loop_plain:
  assumes N: "no_links ops w" "root_mounted ms" and "\<forall>c \<in> set cs. comp_ok c" "p = [] \<or> hd p \<noteq> slash"
    "length (join cs) + (if p = [] then 0 else length p + 2) < MAX_PATH" "n = int MAX_PATH - 1 - int (length (join cs))"
    "p \<noteq> [] \<longrightarrow> final = (follow \<and> last p = slash)"
  shows "norm_loop ops w cr follow levels ms prev p (join cs) n
    = Some (map_sum id join (resolve (search_check ops w cr ms) final cs (comps p)), ms)"
  using assms(3-)
proof (induction "length p" arbitrary: p cs n prev rule: less_induct)
  case less
  have nj: "path_is_normalized (join cs)" using normalized_join [OF less.prems(1), of "[]"] by (simp add: at_end_def)
  show ?case
  proof (cases "p = []")
    case True
    then show ?thesis using less.prems(3) nj by (subst norm_loop.simps) simp
  next
    case False
    then obtain word s where p: "p = word @ s" "word \<noteq> []" "slash \<notin> set word" "at_end s"
      using word_split less.prems(2) by blast
    have cp: "comps p = word # comps (eat_slashes s)" using comps_word [OF p(3,2,4)] p(1) by simp
    have sh: "length (eat_slashes s) < length p" using eat_slashes_length [of s] p(1,2) by (cases word) auto
    have fin: "eat_slashes s \<noteq> [] \<longrightarrow> final = (follow \<and> last (eat_slashes s) = slash)"
      using less.prems(5) False p(1) last_eat by (cases s) (auto simp: eat_slashes_def)
    note IH = less.hyps [OF sh _ eat_slashes_head _ _ fin]
    note D = dot_words [OF p]
    consider "word = ''.''" | "word = ''..''" | "word \<noteq> ''.''" "word \<noteq> ''..''" by blast
    then show ?thesis
    proof cases
      case 1
      then show ?thesis using IH [OF less.prems(1), of n "after_slash prev True s"] less.prems(3,4) sh cp p(1) False D
        by (subst norm_loop.simps) simp
    next
      case 2
      have b: "\<forall>c \<in> set (butlast cs). comp_ok c" using less.prems(1) by (meson in_set_butlastD)
      have jl: "length (join (butlast cs)) \<le> length (join cs)" by (cases cs rule: rev_cases) auto
      have "length (join (butlast cs)) + (if eat_slashes s = [] then 0 else length (eat_slashes s) + 2) < MAX_PATH"
        using less.prems(3) sh jl False by simp
      moreover have "n + int (length (join cs) - length (join (butlast cs))) = int MAX_PATH - 1 - int (length (join (butlast cs)))"
        using jl less.prems(4) by simp
      ultimately show ?thesis using IH [OF b, of _ "after_slash prev True s"] 2 cp p(1) False D pop_join [OF less.prems(1)]
        by (subst norm_loop.simps) simp
    next
      case 3
      have ok: "comp_ok word" using 3 p by (simp add: comp_ok_def)
      have a: "\<forall>c \<in> set (cs @ [word]). comp_ok c" using ok less.prems(1) by auto
      have cc: "copy_component p (n - 1) = (word, s, n - 1 - int (length word))"
        unfolding p(1) using less.prems(3,4) p(1,2) by (intro copy_fits [OF p(3,4)]) simp
      have nn: "path_is_normalized (join cs @ [slash] @ word)"
        using normalized_join [OF a, of "[]"] by (simp add: at_end_def)
      have "length (join (cs @ [word])) + (if eat_slashes s = [] then 0 else length (eat_slashes s) + 2) < MAX_PATH"
        using less.prems(3) p(1,2) eat_at_end [OF p(4)] by (cases s) (auto simp: eat_slashes_def)
      then have rest: "norm_loop ops w cr follow levels ms (after_slash prev True s) (eat_slashes s) (join (cs @ [word])) (n - 1 - int (length word))
          = Some (map_sum id join (resolve (search_check ops w cr ms) final (cs @ [word]) (comps (eat_slashes s))), ms)"
        using less.prems(4) by (intro IH [OF a]) auto
      have chk: "comps (eat_slashes s) \<noteq> [] \<or> final \<longleftrightarrow> eat_slashes s \<noteq> [] \<or> follow \<and> s \<noteq> []"
        using plain_checked [OF p(2-4)] less.prems(5) False p(1) by simp
      have "norm_loop ops w cr follow levels ms prev p (join cs) n
          = (case (if eat_slashes s \<noteq> [] \<or> follow \<and> s \<noteq> [] then search_check ops w cr ms (join cs @ [slash] @ word) else Inr ()) of
               Inl e \<Rightarrow> Some (Inl e, ms)
             | Inr _ \<Rightarrow> norm_loop ops w cr follow levels ms (after_slash prev True s) (eat_slashes s) (join cs @ [slash] @ word) (n - 1 - int (length word)))"
        using False D 3 less.prems(3,4) p(1,2,4) nn by (intro norm_plain_step [OF N _ _ _ cc]) auto
      also have "\<dots> = Some (map_sum id join (case (if eat_slashes s \<noteq> [] \<or> follow \<and> s \<noteq> []
            then search_check ops w cr ms (join cs @ [slash] @ word) else Inr ()) of
               Inl e \<Rightarrow> Inl e
             | Inr _ \<Rightarrow> resolve (search_check ops w cr ms) final (cs @ [word]) (comps (eat_slashes s))), ms)"
        by (rule case_result) (use rest in simp)
      also have "(case (if eat_slashes s \<noteq> [] \<or> follow \<and> s \<noteq> [] then search_check ops w cr ms (join cs @ [slash] @ word) else Inr ()) of
               Inl e \<Rightarrow> Inl e
             | Inr _ \<Rightarrow> resolve (search_check ops w cr ms) final (cs @ [word]) (comps (eat_slashes s)))
          = resolve (search_check ops w cr ms) final cs (word # comps (eat_slashes s))"
        unfolding chk [symmetric] resolve.simps using 3 by simp
      finally show ?thesis unfolding cp .
    qed
  qed
qed

section \<open>Properties\<close>

text \<open>
  C19. Whatever the file systems answer, a resolution that succeeds returns an absolute path whose
  components are nonempty and none of them \<open>.\<close> or \<open>..\<close>, and that fits the buffer with its null; and
  every path of the code, errors included, gives back all references it took to mounts.
\<close>

theorem path_normalize_result:
  assumes "path_normalize_at ops w cr follow ms (Some (join cs)) path = Some (r, ms')" "\<forall>c \<in> set cs. comp_ok c"
  shows "ms' = ms \<and> (\<forall>out. r = Inr out \<longrightarrow>
     length out < MAX_PATH \<and> (\<exists>ds. (\<forall>d \<in> set ds. comp_ok d) \<and> out = join ds))"
proof (cases "path = []")
  case True
  then show ?thesis using assms(1) by (auto simp: path_normalize_at_def)
next
  case False
  have "join cs \<noteq> [slash]" using assms(2) by (cases cs) (auto simp: comp_ok_def)
  then have "norm_loop ops w cr follow 0 ms (after_slash None False path) (eat_slashes path) (join cs)
      (int MAX_PATH - 1 - int (length (join cs))) = Some (r, ms')"
    using assms(1) False by (auto simp: path_normalize_at_def Let_def split: if_splits)
  moreover have "clean (join cs)" using assms(2) by (auto simp: clean_def)
  ultimately show ?thesis using norm_loop_result eat_slashes_head unfolding clean_def by metis
qed

definition ex_ops :: "nat \<Rightarrow> unit fs_ops" where
  "ex_ops f = \<lparr>op_name = ''real'', op_mount = None, op_umount = None, op_readlink = None,
               op_stat = (\<lambda>w m p. Inr \<lparr>st_mode = 0x41ed, st_uid = 0, st_gid = 0, st_inode = 1, st_rdev = 0\<rparr>)\<rparr>"

definition ex_mounts :: "mount list" where
  "ex_mounts = [\<lparr>mnt_point = [], mnt_source = ''/'', mnt_info = [], mnt_flags = 0, mnt_fs = 0, mnt_refcount = 3,
                  mnt_root_fd = None\<rparr>]"

definition ex_cred :: cred where "ex_cred = \<lparr>cr_euid = 7, cr_egid = 7\<rparr>"

lemma ex_no_links: "no_links ex_ops ()" "root_mounted ex_mounts" "dir_check ex_ops () ex_cred m q = Inr ()"
  by (auto simp: no_links_def root_mounted_def readlink_at_def ex_ops_def dir_check_def S_ISDIR_def S_IFMT_def access_check_def
      superuser_def ex_cred_def AC_X_def ex_mounts_def)

lemma ex_search: "search_check ex_ops () ex_cred ms q = Inr ()"
  by (simp add: search_check_def ex_no_links split: option.split)

lemma path_normalize_plain:
  assumes "no_links ops w" "root_mounted ms" "\<forall>c \<in> set cs. comp_ok c" "path \<noteq> []" "length (join cs) + length path + 2 < MAX_PATH"
  shows "path_normalize_at ops w cr follow ms (Some (if cs = [] then ''/'' else join cs)) path
       = Some (map_sum id join (resolve (search_check ops w cr ms) (follow \<and> last path = slash) cs (comps path)), ms)"
proof -
  have s: "(if (if cs = [] then ''/'' else join cs) \<noteq> ''/'' then (if cs = [] then ''/'' else join cs) else []) = join cs"
    using assms(3) by (cases cs) (auto simp: comp_ok_def)
  have l: "length (join cs) + (if eat_slashes path = [] then 0 else length (eat_slashes path) + 2) < MAX_PATH"
    using assms(5) eat_slashes_length [of path] by simp
  have f: "eat_slashes path \<noteq> [] \<longrightarrow> (follow \<and> last path = slash) = (follow \<and> last (eat_slashes path) = slash)"
    using last_eat by simp
  note N = norm_loop_plain [OF assms(1-3) eat_slashes_head l refl f, of cr 0 "after_slash None False path"]
  show ?thesis using N unfolding path_normalize_at_def Let_def option.case s using assms(4,5) by simp
qed

text \<open>
  C3. On a tree without symbolic links, whose root is mounted, the resolution of a path always
  returns when the directory and the path together stay two characters below \<open>MAX_PATH\<close> (a longer one
  can stop the emulator), and it returns what the reference resolution on component lists does: \<open>.\<close>
  is skipped, \<open>..\<close> removes the last component if there is one, repeated slashes do not matter; a
  component that another one follows, or that a slash ends when the last component is followed, must
  be a directory that may be searched, if it exists at all, and the first that is not ends the
  resolution with the error of the check, \<open>ENOTDIR\<close> or \<open>EACCES\<close>.
\<close>

theorem path_normalize_reference:
  assumes "no_links ops w" "root_mounted ms" "\<forall>c \<in> set cs. comp_ok c" "path \<noteq> []" "length (join cs) + length path + 2 < MAX_PATH"
  shows "path_normalize_at ops w cr follow ms (Some (if cs = [] then ''/'' else join cs)) path
       = Some (map_sum id join (resolve (search_check ops w cr ms) (follow \<and> last path = slash) cs (comps path)), ms)"
  using assms by (rule path_normalize_plain)

lemma ex_comps: "comps ''../x//./y/'' = [''..'', ''x'', ''.'', ''y'']"
  by (simp add: comps.simps eat_slashes_def)

text \<open>A tree in which everything is a directory but \<open>/usr/x\<close>, a regular file.\<close>

definition ex_file_ops :: "nat \<Rightarrow> unit fs_ops" where
  "ex_file_ops f = (ex_ops f)\<lparr>op_stat := (\<lambda>w m p. Inr \<lparr>st_mode = (if p = ''/usr/x'' then 0x81a4 else 0x41ed),
     st_uid = 0, st_gid = 0, st_inode = 1, st_rdev = 0\<rparr>)\<rparr>"

lemma ex_file_links: "no_links ex_file_ops ()"
  by (simp add: no_links_def readlink_at_def ex_file_ops_def ex_ops_def)

lemma ex_file_search: "search_check ex_file_ops () ex_cred ex_mounts ''/usr/x'' = Inl ENOTDIR"
  by (simp add: search_check_def dir_check_def ex_file_ops_def ex_mounts_def ex_ops_def mount_match_def S_ISDIR_def S_IFMT_def)

theorem path_normalize_reference_witness:
  "path_normalize_at ex_ops () ex_cred True ex_mounts (Some ''/usr/bin'') ''../x//./y/'' = Some (Inr ''/usr/x/y'', ex_mounts)
   \<and> path_normalize_at ex_file_ops () ex_cred True ex_mounts (Some ''/usr/bin'') ''../x//./y/'' = Some (Inl ENOTDIR, ex_mounts)"
  using path_normalize_reference [OF ex_no_links(1,2), of "[''usr'', ''bin'']" "''../x//./y/''" ex_cred True]
    path_normalize_reference [OF ex_file_links ex_no_links(2), of "[''usr'', ''bin'']" "''../x//./y/''" ex_cred True]
  by (simp add: comp_ok_def MAX_PATH_def ex_comps ex_search ex_file_search)

theorem path_normalize_result_witness:
  "\<exists>out. path_normalize_at ex_ops () ex_cred True ex_mounts (Some (join [])) ''/x'' = Some (Inr out, ex_mounts) \<and> length out < MAX_PATH"
proof -
  have "norm_loop ex_ops () ex_cred True 0 ex_mounts (after_slash None False ''/x'') (eat_slashes ''/x'') (join [])
      (int MAX_PATH - 1 - int (length (join [])))
      = Some (map_sum id join (resolve (search_check ex_ops () ex_cred ex_mounts) False [] (comps (eat_slashes ''/x''))), ex_mounts)"
    by (rule norm_loop_plain [OF ex_no_links(1,2)]) (simp_all add: eat_slashes_def MAX_PATH_def)
  moreover have "comps ''/x'' = [''x'']" by (simp add: comps.simps eat_slashes_def)
  ultimately have "path_normalize_at ex_ops () ex_cred True ex_mounts (Some (join [])) ''/x'' = Some (Inr ''/x'', ex_mounts)"
    by (simp add: path_normalize_at_def MAX_PATH_def)
  with path_normalize_result [OF this] show ?thesis by simp
qed

text \<open>
A path whose normal form would just be too long is not always refused with \<open>ENAMETOOLONG\<close>: when
  a prefix leaves room for exactly one more character, the slash of the next component uses it up, the
  count of the space left passes from 1 to -1 without being 0, and the loop goes on writing slashes
  without moving in the path until the assertion in \<open>mount_find\<close> stops the whole emulator.
\<close>

theorem path_normalize_count_skips_zero:
  assumes N: "no_links ops w" "root_mounted ms" "\<forall>m q. dir_check ops w cr m q = Inr ()"
    and v: "length v = MAX_PATH - 3" "comp_ok v" and p: "comp_ok q"
  shows "path_normalize_at ops w cr follow ms None (v @ [slash] @ q) = None"
proof -
  have s: "slash \<notin> set v" "v \<noteq> []" "v \<noteq> ''.''" "v \<noteq> ''..''" using v(2) by (auto simp: comp_ok_def)
  have e: "eat_slashes (v @ [slash] @ q) = v @ [slash] @ q" using s by (intro eat_slashes_id) (cases v; auto)
  have q: "eat_slashes (slash # q) = q" "q \<noteq> []" "hd q \<noteq> slash" "slash \<notin> set q"
    using p eat_slashes_id [of q] by (cases q; auto simp: comp_ok_def eat_slashes_def)+
  have a: "at_end ([slash] @ q)" by (simp add: at_end_def)
  have ss: "search_check ops w cr ms x = Inr ()" for x using N(3) by (simp add: search_check_def split: option.split)
  note D = dot_words [OF refl s(2,1) a]
  have "norm_loop ops w cr follow 0 ms (after_slash None False (v @ [slash] @ q)) (v @ [slash] @ q) [] (int MAX_PATH - 1)
      = norm_loop ops w cr follow 0 ms (after_slash (after_slash None False (v @ [slash] @ q)) True (slash # q)) q (slash # v) 1"
  proof (rule trans, rule norm_plain_step [OF N(1,2)])
    show "copy_component (v @ [slash] @ q) (int MAX_PATH - 1 - 1) = (v, [slash] @ q, 1)"
      using copy_fits [OF s(1) a, of "int MAX_PATH - 2"] v(1) by (simp add: MAX_PATH_def)
    show "path_is_normalized ([] @ [slash] @ v)"
      using normalized_word [OF s(1,2), of "[]"] by (simp add: at_end_def)
  qed (use D s v(1) q a ss in \<open>auto simp: MAX_PATH_def\<close>)
  moreover have "norm_loop ops w cr follow 0 ms prev q (slash # v) 1 = None" for prev
  proof -
    have Q: "\<not> is_dot q" "\<not> is_dotdot q" using dot_words [of q q "[]"] p q by (auto simp: comp_ok_def at_end_def)
    have c: "copy_component q (1 - 1) = ([], q, -1)" using q by (cases q) auto
    have "\<forall>c \<in> set [v]. comp_ok c" using v(2) by simp
    then have "stuck ((slash # v) @ [slash] @ []) q (-1)"
      unfolding stuck_def using Q q by (intro conjI exI [of _ "[v]"]) auto
    note st = stuck_fails [OF this]
    show ?thesis
    proof (rule ccontr)
      assume "norm_loop ops w cr follow 0 ms prev q (slash # v) 1 \<noteq> None"
      then obtain r ms' where "norm_loop ops w cr follow 0 ms prev q (slash # v) 1 = Some (r, ms')" by auto
      from norm_plain_no_link [OF N(1,3) q(2) Q c this] st [of ops w cr follow 0 ms] show False
        using eat_slashes_id [of q] q by simp
    qed
  qed
  ultimately show ?thesis using e v(1) by (simp add: path_normalize_at_def)
qed

theorem path_normalize_count_skips_zero_witness:
  "path_normalize_at ex_ops () ex_cred True ex_mounts None (replicate 4093 CHR ''a'' @ [slash] @ ''y'') = None"
proof (rule path_normalize_count_skips_zero [OF ex_no_links(1,2)])
  have "replicate 4093 CHR ''a'' \<noteq> s" if "length s < 4093" for s using that by (metis length_replicate less_irrefl)
  then show "comp_ok (replicate 4093 CHR ''a'')" by (simp add: comp_ok_def)
qed (simp_all add: MAX_PATH_def comp_ok_def ex_no_links(3))

text \<open>
The expansion of a symbolic link is not bounded: for a path and a link target that each fit
  their buffer, but whose combination does not, the code concatenates both into a buffer of \<open>MAX_PATH\<close>
  bytes on the stack and writes past its end.
\<close>

theorem symlink_expansion_overflows:
  assumes c: "comp_ok c" "length c + length rest + 1 < MAX_PATH" and rest: "rest \<noteq> []" "hd rest \<noteq> slash"
    and m: "mount_index ms (slash # c) = Some i"
    and l: "readlink_at ops w (mount_retain ms i ! i) (drop (length (mnt_point (ms ! i))) (slash # c)) (MAX_PATH - 1) = Inr target"
    and t: "length target < MAX_PATH - 1" "MAX_PATH \<le> length target + length rest + 1"
  shows "path_normalize_at ops w cr follow ms None (c @ [slash] @ rest) = None"
proof -
  have s: "slash \<notin> set c" "c \<noteq> []" "c \<noteq> ''.''" "c \<noteq> ''..''" using c(1) by (auto simp: comp_ok_def)
  have e: "eat_slashes (c @ [slash] @ rest) = c @ [slash] @ rest" using s by (intro eat_slashes_id) (cases c; auto)
  have r: "eat_slashes ([slash] @ rest) = rest" using rest eat_slashes_id [of rest] by (simp add: eat_slashes_def)
  have a: "at_end ([slash] @ rest)" by (simp add: at_end_def)
  note D = dot_words [OF refl s(2,1) a]
  have p: "c @ [slash] @ rest \<noteq> []" "\<not> is_dot (c @ [slash] @ rest)" "\<not> is_dotdot (c @ [slash] @ rest)" using D s by auto
  have cc: "copy_component (c @ [slash] @ rest) (int MAX_PATH - 1 - 1) = (c, [slash] @ rest, int MAX_PATH - 1 - 1 - int (length c))"
    using c(2) rest(1) by (intro copy_fits [OF s(1) a]) (cases rest; simp)
  have "path_is_normalized (slash # c)" using normalized_word [OF s(1,2), of "[]"] by (simp add: at_end_def)
  then have f: "find_mount_and_trim_path ms (slash # c) = Some (i, drop (length (mnt_point (ms ! i))) (slash # c), mount_retain ms i)"
    using m by (simp add: find_mount_and_trim_path_def mount_find_def)
  have lc: "int MAX_PATH - 2 \<noteq> int (length c)" "Suc (length c) < MAX_PATH" using c(2) rest(1) by (cases rest; simp)+
  have "length (symlink_expand [] target rest) \<ge> MAX_PATH" using t(2) rest(1) by (simp add: symlink_expand_def)
  then have "norm_loop ops w cr follow 0 ms prev (c @ [slash] @ rest) [] (int MAX_PATH - 1) = None" for prev
    unfolding norm_loop_regular [OF p cc] Let_def using r f l find_mount_normalized [OF f] lc rest(1) by simp
  then show ?thesis using e s(2) by (simp add: path_normalize_at_def MAX_PATH_def)
qed

definition ex_link_ops :: "nat \<Rightarrow> unit fs_ops" where
  "ex_link_ops f = (ex_ops f)\<lparr>op_readlink := Some (\<lambda>w m p n. if p = ''/l'' then Inr (replicate 3000 CHR ''b'') else Inl EINVAL)\<rparr>"

theorem symlink_expansion_overflows_witness:
  "path_normalize_at ex_link_ops () ex_cred True ex_mounts None (''l'' @ [slash] @ replicate 3000 CHR ''d'') = None"
proof (rule symlink_expansion_overflows [of _ _ _ 0])
  show "readlink_at ex_link_ops () (mount_retain ex_mounts 0 ! 0) (drop (length (mnt_point (ex_mounts ! 0))) ''/l'') (MAX_PATH - 1)
      = Inr (replicate 3000 CHR ''b'')"
    by (simp add: readlink_at_def ex_link_ops_def ex_mounts_def)
qed (simp_all add: comp_ok_def MAX_PATH_def ex_mounts_def mount_match_def)

end
