(* ===== verification/Generic_Fs.thy ===== *)
theory Generic_Fs
  imports Path_Props File_Lock
begin

text \<open>
  The calls of \<^verbatim>\<open>fs/generic.c\<close> that act on a path: each resolves its path, finds the mount, runs
  the operation of the mounted file system on the rest of the path and releases the mount. File systems
  are records of functions on the state \<open>'w\<close>; an operation a file system does not have is \<open>None\<close>.
  Also \<^verbatim>\<open>fs/dev.c\<close> and the encoding of device numbers of \<^verbatim>\<open>fs/dev.h\<close>.
\<close>

record 'w vfs_ops = "'w fs_ops" +
  op_link :: "('w \<Rightarrow> mount \<Rightarrow> string \<Rightarrow> string \<Rightarrow> unit result \<times> 'w) option"
  op_unlink :: "('w \<Rightarrow> mount \<Rightarrow> string \<Rightarrow> unit result \<times> 'w) option"
  op_rmdir :: "('w \<Rightarrow> mount \<Rightarrow> string \<Rightarrow> unit result \<times> 'w) option"
  op_rename :: "('w \<Rightarrow> mount \<Rightarrow> string \<Rightarrow> string \<Rightarrow> unit result \<times> 'w) option"
  op_symlink :: "('w \<Rightarrow> mount \<Rightarrow> string \<Rightarrow> string \<Rightarrow> unit result \<times> 'w) option"
  op_mknod :: "('w \<Rightarrow> mount \<Rightarrow> string \<Rightarrow> u32 \<Rightarrow> u32 \<Rightarrow> unit result \<times> 'w) option"
  op_mkdir :: "('w \<Rightarrow> mount \<Rightarrow> string \<Rightarrow> u32 \<Rightarrow> unit result \<times> 'w) option"
  op_setattr :: "('w \<Rightarrow> mount \<Rightarrow> string \<Rightarrow> nat \<times> u64 \<Rightarrow> unit result \<times> 'w) option"
  op_utime :: "('w \<Rightarrow> mount \<Rightarrow> string \<Rightarrow> (int \<times> int) \<Rightarrow> (int \<times> int) \<Rightarrow> unit result \<times> 'w) option"

definition base :: "(nat \<Rightarrow> 'w vfs_ops) \<Rightarrow> nat \<Rightarrow> 'w fs_ops" where
  "base ops f = fs_ops.truncate (ops f)"

text \<open>A directory to resolve from: its mount and the path its driver reports.\<close>

record dir_fd =
  df_point :: string
  df_path :: "string result"

definition generic_getpath :: "dir_fd \<Rightarrow> string result" where
  "generic_getpath d =
     (case df_path d of
        Inl e \<Rightarrow> Inl e
      | Inr buf \<Rightarrow>
          if length buf + length (df_point d) \<ge> MAX_PATH then Inl ENAMETOOLONG
          else if df_point d @ buf = [] then Inr ''/'' else Inr (df_point d @ buf))"

text \<open>What a call sees: the caller, the mounts, the root directory and the directory it resolves from.\<close>

record call_env =
  ce_cred :: cred
  ce_root :: dir_fd

type_synonym 'w call = "(unit result \<times> 'w \<times> mount list) option"

definition normalize ::
  "(nat \<Rightarrow> 'w vfs_ops) \<Rightarrow> call_env \<Rightarrow> 'w \<Rightarrow> mount list \<Rightarrow> dir_fd \<Rightarrow> bool \<Rightarrow> string \<Rightarrow> (string result \<times> mount list) option" where
  "normalize ops ce w ms at follow path =
     path_normalize (base ops) w (ce_cred ce) follow ms (generic_getpath (ce_root ce)) (generic_getpath at) path"

text \<open>
  The shape the calls share: resolve, find the mount and trim the path, run the operation \<open>f\<close> on the
  mount (\<open>None\<close>: not supported by the file system, error \<open>dflt\<close>), release the mount.
\<close>

definition run_op ::
  "errno \<Rightarrow> 'w \<Rightarrow> mount list \<Rightarrow> string \<Rightarrow> (mount \<Rightarrow> ('w \<Rightarrow> mount \<Rightarrow> string \<Rightarrow> unit result \<times> 'w) option) \<Rightarrow> 'w call" where
  "run_op dflt w ms path f = do {
     (i, t, ms1) \<leftarrow> find_mount_and_trim_path ms path;
     let (r, w') = (case f (ms1 ! i) of None \<Rightarrow> (Inl dflt, w) | Some g \<Rightarrow> g w (ms1 ! i) t);
     Some (r, w', mount_release ms1 i)
   }"

definition at_path ::
  "(nat \<Rightarrow> 'w vfs_ops) \<Rightarrow> call_env \<Rightarrow> 'w \<Rightarrow> mount list \<Rightarrow> dir_fd \<Rightarrow> bool \<Rightarrow> string \<Rightarrow> (string \<Rightarrow> mount list \<Rightarrow> 'w call) \<Rightarrow> 'w call" where
  "at_path ops ce w ms at follow path k = do {
     (r, ms') \<leftarrow> normalize ops ce w ms at follow path;
     case r of Inl e \<Rightarrow> Some (Inl e, w, ms') | Inr p \<Rightarrow> k p ms'
   }"

definition generic_accessat ::
  "(nat \<Rightarrow> 'w vfs_ops) \<Rightarrow> call_env \<Rightarrow> 'w \<Rightarrow> mount list \<Rightarrow> dir_fd \<Rightarrow> string \<Rightarrow> u32 \<Rightarrow> 'w call" where
  "generic_accessat ops ce w ms at path mode =
     at_path ops ce w ms at True path (\<lambda>p ms'. run_op EPERM w ms' p (\<lambda>m. Some (\<lambda>w m t.
       (case op_stat (ops (mnt_fs m)) w m t of Inl e \<Rightarrow> Inl e | Inr st \<Rightarrow> access_check (ce_cred ce) st mode, w))))"

text \<open>Two paths: the operation runs when both belong to the same mount.\<close>

definition run_op2 ::
  "'w \<Rightarrow> mount list \<Rightarrow> string \<Rightarrow> string \<Rightarrow> (mount \<Rightarrow> ('w \<Rightarrow> mount \<Rightarrow> string \<Rightarrow> string \<Rightarrow> unit result \<times> 'w) option) \<Rightarrow> 'w call" where
  "run_op2 w ms src dst f = do {
     (i, s, ms1) \<leftarrow> find_mount_and_trim_path ms src;
     (j, d, ms2) \<leftarrow> find_mount_and_trim_path ms1 dst;
     let (r, w') = (if i \<noteq> j then (Inl EXDEV, w)
                    else case f (ms2 ! i) of None \<Rightarrow> (Inl EPERM, w) | Some g \<Rightarrow> g w (ms2 ! i) s d);
     Some (r, w', mount_release (mount_release ms2 i) j)
   }"

definition generic_linkat ::
  "(nat \<Rightarrow> 'w vfs_ops) \<Rightarrow> call_env \<Rightarrow> 'w \<Rightarrow> mount list \<Rightarrow> dir_fd \<Rightarrow> string \<Rightarrow> dir_fd \<Rightarrow> string \<Rightarrow> 'w call" where
  "generic_linkat ops ce w ms src_at src_raw dst_at dst_raw =
     at_path ops ce w ms src_at False src_raw (\<lambda>src ms1.
       at_path ops ce w ms1 dst_at False dst_raw (\<lambda>dst ms2.
         run_op2 w ms2 src dst (\<lambda>m. op_link (ops (mnt_fs m)))))"

definition generic_unlinkat :: "(nat \<Rightarrow> 'w vfs_ops) \<Rightarrow> call_env \<Rightarrow> 'w \<Rightarrow> mount list \<Rightarrow> dir_fd \<Rightarrow> string \<Rightarrow> 'w call" where
  "generic_unlinkat ops ce w ms at path =
     at_path ops ce w ms at False path (\<lambda>p ms'. run_op EPERM w ms' p (\<lambda>m. op_unlink (ops (mnt_fs m))))"

definition generic_renameat ::
  "(nat \<Rightarrow> 'w vfs_ops) \<Rightarrow> call_env \<Rightarrow> 'w \<Rightarrow> mount list \<Rightarrow> dir_fd \<Rightarrow> string \<Rightarrow> dir_fd \<Rightarrow> string \<Rightarrow> 'w call" where
  "generic_renameat ops ce w ms src_at src_raw dst_at dst_raw =
     at_path ops ce w ms src_at False src_raw (\<lambda>src ms1.
       at_path ops ce w ms1 dst_at False dst_raw (\<lambda>dst ms2.
         if contains_mount_point ms2 src then Some (Inl EBUSY, w, ms2)
         else run_op2 w ms2 src dst (\<lambda>m. op_rename (ops (mnt_fs m)))))"

definition generic_symlinkat ::
  "(nat \<Rightarrow> 'w vfs_ops) \<Rightarrow> call_env \<Rightarrow> 'w \<Rightarrow> mount list \<Rightarrow> string \<Rightarrow> dir_fd \<Rightarrow> string \<Rightarrow> 'w call" where
  "generic_symlinkat ops ce w ms target at link =
     at_path ops ce w ms at False link (\<lambda>p ms'. run_op EPERM w ms' p
       (\<lambda>m. map_option (\<lambda>g w m t. g w m target t) (op_symlink (ops (mnt_fs m)))))"

definition generic_mknodat ::
  "(nat \<Rightarrow> 'w vfs_ops) \<Rightarrow> call_env \<Rightarrow> 'w \<Rightarrow> mount list \<Rightarrow> dir_fd \<Rightarrow> string \<Rightarrow> u32 \<Rightarrow> u32 \<Rightarrow> 'w call" where
  "generic_mknodat ops ce w ms at path mode dev =
     (if S_ISDIR mode \<or> S_ISLNK mode then Some (Inl EINVAL, w, ms)
      else if \<not> superuser (ce_cred ce) \<and> (S_ISBLK mode \<or> S_ISCHR mode) then Some (Inl EPERM, w, ms)
      else at_path ops ce w ms at False path (\<lambda>p ms'. run_op EPERM w ms' p
             (\<lambda>m. map_option (\<lambda>g w m t. g w m t mode dev) (op_mknod (ops (mnt_fs m))))))"

definition generic_setattrat ::
  "(nat \<Rightarrow> 'w vfs_ops) \<Rightarrow> call_env \<Rightarrow> 'w \<Rightarrow> mount list \<Rightarrow> dir_fd \<Rightarrow> string \<Rightarrow> nat \<times> u64 \<Rightarrow> bool \<Rightarrow> 'w call" where
  "generic_setattrat ops ce w ms at path attr follow_links =
     at_path ops ce w ms at follow_links path (\<lambda>p ms'. run_op EPERM w ms' p
       (\<lambda>m. map_option (\<lambda>g w m t. g w m t attr) (op_setattr (ops (mnt_fs m)))))"

definition generic_utime ::
  "(nat \<Rightarrow> 'w vfs_ops) \<Rightarrow> call_env \<Rightarrow> 'w \<Rightarrow> mount list \<Rightarrow> dir_fd \<Rightarrow> string \<Rightarrow> int \<times> int \<Rightarrow> int \<times> int \<Rightarrow> bool \<Rightarrow> 'w call" where
  "generic_utime ops ce w ms at path atime mtime follow_links =
     at_path ops ce w ms at follow_links path (\<lambda>p ms'. run_op EPERM w ms' p
       (\<lambda>m. map_option (\<lambda>g w m t. g w m t atime mtime) (op_utime (ops (mnt_fs m)))))"

definition generic_mkdirat ::
  "(nat \<Rightarrow> 'w vfs_ops) \<Rightarrow> call_env \<Rightarrow> 'w \<Rightarrow> mount list \<Rightarrow> dir_fd \<Rightarrow> string \<Rightarrow> u32 \<Rightarrow> 'w call" where
  "generic_mkdirat ops ce w ms at path mode =
     at_path ops ce w ms at True path (\<lambda>p ms'. run_op EPERM w ms' p
       (\<lambda>m. map_option (\<lambda>g w m t. g w m t mode) (op_mkdir (ops (mnt_fs m)))))"

definition generic_rmdirat :: "(nat \<Rightarrow> 'w vfs_ops) \<Rightarrow> call_env \<Rightarrow> 'w \<Rightarrow> mount list \<Rightarrow> dir_fd \<Rightarrow> string \<Rightarrow> 'w call" where
  "generic_rmdirat ops ce w ms at path =
     at_path ops ce w ms at True path (\<lambda>p ms'.
       if contains_mount_point ms' p then Some (Inl EBUSY, w, ms')
       else run_op EPERM w ms' p (\<lambda>m. op_rmdir (ops (mnt_fs m))))"

text \<open>The calls that return data: the link's target cut to the buffer, and the file's attributes.\<close>

definition generic_readlinkat ::
  "(nat \<Rightarrow> 'w vfs_ops) \<Rightarrow> call_env \<Rightarrow> 'w \<Rightarrow> mount list \<Rightarrow> dir_fd \<Rightarrow> string \<Rightarrow> nat \<Rightarrow> (string result \<times> mount list) option" where
  "generic_readlinkat ops ce w ms at path bufsize = do {
     (r, ms') \<leftarrow> normalize ops ce w ms at False path;
     case r of
       Inl e \<Rightarrow> Some (Inl e, ms')
     | Inr p \<Rightarrow> do {
         (i, t, ms1) \<leftarrow> find_mount_and_trim_path ms' p;
         Some (readlink_at (base ops) w (ms1 ! i) t bufsize, mount_release ms1 i)
       }
   }"

definition generic_statat ::
  "(nat \<Rightarrow> 'w vfs_ops) \<Rightarrow> call_env \<Rightarrow> 'w \<Rightarrow> mount list \<Rightarrow> dir_fd \<Rightarrow> string \<Rightarrow> bool \<Rightarrow> (stat result \<times> mount list) option" where
  "generic_statat ops ce w ms at path follow_links = do {
     (r, ms') \<leftarrow> normalize ops ce w ms at follow_links path;
     case r of
       Inl e \<Rightarrow> Some (Inl e, ms')
     | Inr p \<Rightarrow> do {
         (i, t, ms1) \<leftarrow> find_mount_and_trim_path ms' p;
         Some (op_stat (ops (mnt_fs (ms1 ! i))) w (ms1 ! i) t, mount_release ms1 i)
       }
   }"

section \<open>Mounting from the guest\<close>

text \<open>
  \<open>sys_mount\<close> and \<open>sys_umount2\<close>, with the strings as \<open>user_read_string\<close> delivers them (\<open>None\<close>: a
  fault). \<open>alloc\<close> says whether there is memory for a mount. \<open>data\<close> is \<open>None\<close> for a null pointer; the code then passes an uninitialised buffer on.
\<close>

definition sys_mount ::
  "bool \<Rightarrow> (nat \<Rightarrow> 'w vfs_ops) \<Rightarrow> nat option list \<Rightarrow> call_env \<Rightarrow> dir_fd \<Rightarrow> 'w \<Rightarrow> mount list
     \<Rightarrow> string option \<Rightarrow> string option \<Rightarrow> string option \<Rightarrow> u32 \<Rightarrow> string option option \<Rightarrow> 'w call" where
  "sys_mount alloc ops table ce pwd w ms source point_raw ty flags data =
     (case (source, point_raw, data, ty) of
        (Some src, Some pt, d, Some t) \<Rightarrow>
          if d = Some None then Some (Inl EFAULT, w, ms)
          else if flags AND NOT MS_SUPPORTED \<noteq> 0 then Some (Inl EINVAL, w, ms)
          else (case fs_by_name (base ops) table t of
            None \<Rightarrow> Some (Inl EINVAL, w, ms)
          | Some fs \<Rightarrow> do {
              (st, ms1) \<leftarrow> generic_statat ops ce w ms pwd pt True;
              case st of
                Inl e \<Rightarrow> Some (Inl e, w, ms1)
              | Inr s \<Rightarrow>
                  if \<not> S_ISDIR (st_mode s) then Some (Inl ENOTDIR, w, ms1)
                  else at_path ops ce w ms1 pwd True pt (\<lambda>p ms2.
                    case d of
                      Some (Some info) \<Rightarrow> Some (do_mount alloc (base ops) w ms2 fs src p info (flags AND MS_FLAGS))
                    | _ \<Rightarrow> None)
            })
      | _ \<Rightarrow> Some (Inl EFAULT, w, ms))"

definition UMOUNT_NOFOLLOW :: u32 where "UMOUNT_NOFOLLOW = 8"

definition sys_umount2 ::
  "(nat \<Rightarrow> 'w vfs_ops) \<Rightarrow> call_env \<Rightarrow> dir_fd \<Rightarrow> 'w \<Rightarrow> mount list \<Rightarrow> string option \<Rightarrow> u32 \<Rightarrow> 'w call" where
  "sys_umount2 ops ce pwd w ms target flags =
     (case target of
        None \<Rightarrow> Some (Inl EFAULT, w, ms)
      | Some t \<Rightarrow> at_path ops ce w ms pwd (\<not> tst flags UMOUNT_NOFOLLOW) t
                    (\<lambda>p ms'. Some (do_umount (base ops) w ms' p)))"

section \<open>Offsets\<close>

text \<open>\<open>generic_seek\<close> on the offset of a file; offsets are 64-bit signed, \<open>size + off\<close> is computed unsigned.\<close>

definition generic_seek :: "int \<Rightarrow> int \<Rightarrow> lseek_whence \<Rightarrow> nat \<Rightarrow> unit result \<times> int" where
  "generic_seek offset off whence len =
     (case whence of
        LSEEK_SET \<Rightarrow> (Inr (), off)
      | LSEEK_CUR \<Rightarrow> if offset + off > OFF_T_MAX \<or> offset + off < 0 then (Inl EINVAL, offset) else (Inr (), offset + off)
      | LSEEK_END \<Rightarrow>
          let n = signed_take_bit 63 (int len + off) in if n < 0 then (Inl EINVAL, offset) else (Inr (), n)
      | LSEEK_OTHER \<Rightarrow> (Inl EINVAL, offset))"

section \<open>Devices (fs/dev.h, fs/dev.c)\<close>

definition dev_make :: "u32 \<Rightarrow> u32 \<Rightarrow> u32" where
  "dev_make major minor = push_bit 12 (minor AND 0xfff00) OR push_bit 8 major OR (minor AND 0xff)"

definition dev_major :: "u32 \<Rightarrow> u32" where
  "dev_major dev = drop_bit 8 (dev AND 0xfff00)"

definition dev_minor :: "u32 \<Rightarrow> u32" where
  "dev_minor dev = drop_bit 12 (dev AND 0xfff00000) OR (dev AND 0xff)"

text \<open>The tables have 256 entries, the drivers' numbers or nothing; \<open>None\<close> is an index outside.\<close>

definition dev_open :: "nat option list \<Rightarrow> u32 \<Rightarrow> (nat \<Rightarrow> unit result) \<Rightarrow> (unit result \<times> nat option) option" where
  "dev_open devs major driver_open =
     (if unat major < length devs then
        Some (case devs ! unat major of
                None \<Rightarrow> (Inl ENXIO, None)
              | Some d \<Rightarrow> (driver_open d, Some d))
      else None)"

section \<open>References to mounts\<close>

lemma find_retained:
  "find_mount_and_trim_path ms p = Some (i, t, ms1) \<Longrightarrow> mount_release ms1 i = ms \<and> length ms1 = length ms \<and> i < length ms
     \<and> ms1 = mount_retain ms i"
  using find_mount_release [of ms p i t ms1] by (auto simp: mount_retain_def mount_ref_def)

lemma run_op_mounts: "run_op d w ms p f = Some (r, w', ms') \<Longrightarrow> ms' = ms"
  by (cases "find_mount_and_trim_path ms p") (auto simp: run_op_def Let_def split: prod.split_asm dest: find_retained)

lemma mount_ref_commute: "i < length ms \<Longrightarrow> mount_ref (mount_ref ms i a) j b = mount_ref (mount_ref ms j b) i a"
  by (cases "i = j") (auto simp: mount_ref_def list_update_swap ac_simps)

lemma run_op2_mounts:
  assumes "run_op2 w ms src dst f = Some (r, w', ms')"
  shows "ms' = ms"
proof -
  obtain i s ms1 where 1: "find_mount_and_trim_path ms src = Some (i, s, ms1)"
    using assms by (cases "find_mount_and_trim_path ms src") (auto simp: run_op2_def)
  obtain j d ms2 where 2: "find_mount_and_trim_path ms1 dst = Some (j, d, ms2)"
    using assms 1 by (cases "find_mount_and_trim_path ms1 dst") (auto simp: run_op2_def)
  have 3: "ms' = mount_release (mount_release ms2 i) j"
    using assms 1 2 by (auto simp: run_op2_def Let_def split: prod.split_asm)
  have "i < length ms2" using find_retained [OF 1] find_retained [OF 2] by metis
  then have "mount_release (mount_release ms2 i) j = mount_release (mount_release ms2 j) i"
    unfolding mount_release_def by (rule mount_ref_commute)
  then show ?thesis using 3 find_retained [OF 1] find_retained [OF 2] by metis
qed

lemma at_path_mounts:
  assumes "at_path ops ce w ms at follow path k = Some (r, w', ms')"
    and "\<And>p r w' ms'. k p ms = Some (r, w', ms') \<Longrightarrow> ms' = ms"
  shows "ms' = ms"
proof -
  obtain q ms1 where 1: "normalize ops ce w ms at follow path = Some (q, ms1)"
    using assms(1) by (cases "normalize ops ce w ms at follow path") (auto simp: at_path_def)
  then have "ms1 = ms" unfolding normalize_def by (rule path_normalize_mounts)
  with 1 assms show ?thesis by (auto simp: at_path_def split: sum.split_asm)
qed

section \<open>Properties\<close>

text \<open>
No call on a path leaks or drops a reference to a mount: whatever the file systems do and however
  the call ends, the reference counts of all mounts after it are those before it, so that an unmount
  is not blocked, or allowed too early, by a finished call.
\<close>

theorem generic_calls_keep_mounts:
  "generic_accessat ops ce w ms at path mode = Some (r, w', ms') \<or> generic_linkat ops ce w ms at path at2 path2 = Some (r, w', ms')
   \<or> generic_unlinkat ops ce w ms at path = Some (r, w', ms') \<or> generic_renameat ops ce w ms at path at2 path2 = Some (r, w', ms')
   \<or> generic_symlinkat ops ce w ms path2 at path = Some (r, w', ms') \<or> generic_mknodat ops ce w ms at path mode dev = Some (r, w', ms')
   \<or> generic_setattrat ops ce w ms at path attr fl = Some (r, w', ms') \<or> generic_utime ops ce w ms at path t1 t2 fl = Some (r, w', ms')
   \<or> generic_mkdirat ops ce w ms at path mode = Some (r, w', ms') \<or> generic_rmdirat ops ce w ms at path = Some (r, w', ms')
   \<Longrightarrow> ms' = ms"
proof (elim disjE, goal_cases)
  case 1 then show ?case unfolding generic_accessat_def by (blast intro: at_path_mounts run_op_mounts)
next
  case 2 then show ?case unfolding generic_linkat_def by (blast intro: at_path_mounts run_op2_mounts)
next
  case 3 then show ?case unfolding generic_unlinkat_def by (blast intro: at_path_mounts run_op_mounts)
next
  case 4 then show ?case unfolding generic_renameat_def
    by (auto elim!: at_path_mounts dest: run_op2_mounts split: if_splits)
next
  case 5 then show ?case unfolding generic_symlinkat_def by (blast intro: at_path_mounts run_op_mounts)
next
  case 6 then show ?case unfolding generic_mknodat_def
    by (auto elim!: at_path_mounts dest: run_op_mounts split: if_splits)
next
  case 7 then show ?case unfolding generic_setattrat_def by (blast intro: at_path_mounts run_op_mounts)
next
  case 8 then show ?case unfolding generic_utime_def by (blast intro: at_path_mounts run_op_mounts)
next
  case 9 then show ?case unfolding generic_mkdirat_def by (blast intro: at_path_mounts run_op_mounts)
next
  case 10 then show ?case unfolding generic_rmdirat_def
    by (auto elim!: at_path_mounts dest: run_op_mounts split: if_splits)
qed

definition ex_vfs :: "nat \<Rightarrow> unit vfs_ops" where
  "ex_vfs f = fs_ops.extend (ex_ops f) (vfs_ops.fields None (Some (\<lambda>w m p. (Inr (), w))) None None None None None None None)"

definition ex_env :: call_env where
  "ex_env = \<lparr>ce_cred = ex_cred, ce_root = \<lparr>df_point = [], df_path = Inr []\<rparr>\<rparr>"

lemma ex_vfs_base: "base ex_vfs = ex_ops"
  by (simp add: base_def fun_eq_iff ex_vfs_def ex_ops_def fs_ops.defs vfs_ops.defs)

lemma ex_unlink:
  "generic_unlinkat ex_vfs ex_env () ex_mounts (ce_root ex_env) ''/x'' = Some (Inr (), (), ex_mounts)"
proof -
  have "path_normalize_at ex_ops () ex_cred False ex_mounts (Some ''/'') ''/x'' = Some (Inr ''/x'', ex_mounts)"
    using path_normalize_plain [OF ex_no_links(1,2), of "[]" "''/x''" ex_cred False]
    by (simp add: MAX_PATH_def comps.simps eat_slashes_def)
  then have "normalize ex_vfs ex_env () ex_mounts (ce_root ex_env) False ''/x'' = Some (Inr ''/x'', ex_mounts)"
    by (simp add: normalize_def ex_vfs_base path_normalize_def ex_env_def generic_getpath_def MAX_PATH_def)
  then show ?thesis
    by (simp add: generic_unlinkat_def at_path_def run_op_def find_mount_and_trim_path_def mount_find_def ex_mounts_def
        mount_match_def mount_retain_def mount_release_def mount_ref_def ex_vfs_def fs_ops.defs vfs_ops.defs ex_ops_def)
qed

theorem generic_calls_keep_mounts_witness:
  "\<exists>ms'. generic_unlinkat ex_vfs ex_env () ex_mounts (ce_root ex_env) ''/x'' = Some (Inr (), (), ms') \<and> ms' = ex_mounts"
  using generic_calls_keep_mounts [OF disjI2 [OF disjI2 [OF disjI1 [OF ex_unlink]]]] ex_unlink by blast

lemma dev_masks: "(0xfff00 :: u32) = push_bit 8 (mask 12)" "(0xff :: u32) = mask 8" "(0xfff00000 :: u32) = push_bit 20 (mask 12)"
  by (simp_all add: mask_eq_exp_minus_1 push_bit_eq_mult)

lemma bit_small: "unat w < 2 ^ k \<Longrightarrow> bit w n \<Longrightarrow> n < k" for w :: u32
proof -
  assume "unat w < 2 ^ k" "bit w n"
  then have "unat (take_bit k w) = unat w" by (simp add: unat_take_bit)
  then have "take_bit k w = w" by (simp only: word_unat_eq_iff)
  with \<open>bit w n\<close> show "n < k" by (metis bit_take_bit_iff)
qed

lemma dev_major_make:
  assumes "unat major < 2 ^ 12" "unat minor < 2 ^ 20"
  shows "dev_major (dev_make major minor) = major"
  unfolding dev_major_def dev_make_def dev_masks
  by (rule bit_word_eqI) (auto simp: bit_simps dest: bit_small [OF assms(1)] bit_small [OF assms(2)])

text \<open>
  The numbers of a device survive their encoding: a major number below \<open>2 ^ 12\<close> and a minor
  number below \<open>2 ^ 20\<close> are read back from \<open>dev_make\<close>.
\<close>

theorem dev_numbers_roundtrip:
  assumes "unat major < 2 ^ 12" "unat minor < 2 ^ 20"
  shows "dev_major (dev_make major minor) = major \<and> dev_minor (dev_make major minor) = minor"
proof
  note M = bit_small [OF assms(1)] and m = bit_small [OF assms(2)]
  show "dev_major (dev_make major minor) = major" by (rule dev_major_make [OF assms])
  show "dev_minor (dev_make major minor) = minor"
    unfolding dev_minor_def dev_make_def dev_masks
    by (rule bit_word_eqI) (auto simp: bit_simps dest: M m)
qed

theorem dev_numbers_roundtrip_witness: "dev_major (dev_make 136 300) = 136 \<and> dev_minor (dev_make 136 300) = 300"
  by (rule dev_numbers_roundtrip) simp_all

text \<open>
Opening a device whose major number is 256 or more, which \<open>mknod\<close> lets the superuser create,
  reads the driver table outside its 256 entries.
\<close>

theorem dev_open_out_of_table:
  assumes "length devs = 256" "256 \<le> unat major" "unat major < 2 ^ 12" "unat minor < 2 ^ 20"
  shows "dev_open devs (dev_major (dev_make major minor)) f = None"
  using assms dev_major_make by (simp add: dev_open_def)

theorem dev_open_out_of_table_witness: "dev_open (replicate 256 None) (dev_major (dev_make 300 0)) (\<lambda>d. Inr ()) = None"
  by (rule dev_open_out_of_table) simp_all

text \<open>
  \<open>generic_seek\<close> with \<open>LSEEK_SET\<close> accepts a negative offset and stores it; from the other two
  origins an offset is only ever stored when it is in range.
\<close>

theorem generic_seek_range:
  assumes "0 \<le> offset" "offset \<le> OFF_T_MAX"
  shows "generic_seek offset (-1) LSEEK_SET len = (Inr (), -1)
     \<and> (whence \<noteq> LSEEK_SET \<longrightarrow> 0 \<le> snd (generic_seek offset off whence len) \<and> snd (generic_seek offset off whence len) \<le> OFF_T_MAX)"
proof -
  have "signed_take_bit 63 x \<le> OFF_T_MAX" for x :: int
    using signed_take_bit_int_less_exp [of 63 x] by (simp add: OFF_T_MAX_def)
  then show ?thesis using assms by (cases whence) (auto simp: generic_seek_def Let_def)
qed

theorem generic_seek_range_witness: "snd (generic_seek 10 (-3) LSEEK_CUR 0) = 7 \<and> 0 \<le> snd (generic_seek 10 (-3) LSEEK_CUR 0)"
  using generic_seek_range [of 10 0 LSEEK_CUR "-3"] by (simp add: generic_seek_def OFF_T_MAX_def)

end
