(* ===== verification/Fpu.thy ===== *)
theory Fpu
  imports Float80_Rounding "HOL-Library.Monad_Syntax"
begin

text \<open>
  The flags and floating-point registers of \<open>struct cpu_state\<close> (\<^verbatim>\<open>emu/cpu.h\<close>), the lazy evaluation of
  the condition flags, and the floating-point instructions of \<^verbatim>\<open>emu/fpu.c\<close>. Bit fields are bits of
  the word they share memory with. The thread's rounding mode is a component of the state beside the
  control word. The functions of the host's C library and the conversions between \<open>float\<close> and
  \<open>double\<close>, on bit patterns, are arguments.
\<close>

section \<open>Bit fields\<close>

definition put_bit :: "nat \<Rightarrow> bool \<Rightarrow> 'a::len word \<Rightarrow> 'a word" where
  "put_bit n b w = (if b then set_bit n w else unset_bit n w)"

lemma bit_put_bit [simp]: "bit (put_bit n b w) m \<longleftrightarrow> (if m = n then b \<and> n < LENGTH('a) else bit w m)" for w :: "'a::len word"
  by (auto simp: put_bit_def bit_simps dest: bit_imp_le_length)

section \<open>State (emu/cpu.h)\<close>

record cpu_state =
  eflags :: u32
  cf :: u8
  cpu_of :: u8
  res :: u32
  op1 :: u32
  op2 :: u32
  flags_res :: u8
  fp :: "float80 list"
  fsw :: u16
  fcw :: u16
  rmode :: f80_rounding_mode

text \<open>Positions of the bit fields.\<close>

abbreviation CF_bit :: nat where "CF_bit \<equiv> 0"
abbreviation PF_bit :: nat where "PF_bit \<equiv> 2"
abbreviation AF_bit :: nat where "AF_bit \<equiv> 4"
abbreviation ZF_bit :: nat where "ZF_bit \<equiv> 6"
abbreviation SF_bit :: nat where "SF_bit \<equiv> 7"
abbreviation IF_bit :: nat where "IF_bit \<equiv> 9"
abbreviation OF_bit :: nat where "OF_bit \<equiv> 11"
abbreviation pf_res :: nat where "pf_res \<equiv> 0"
abbreviation zf_res :: nat where "zf_res \<equiv> 1"
abbreviation sf_res :: nat where "sf_res \<equiv> 2"
abbreviation af_ops :: nat where "af_ops \<equiv> 3"
abbreviation stf_bit :: nat where "stf_bit \<equiv> 6"
abbreviation c0_bit :: nat where "c0_bit \<equiv> 8"
abbreviation c1_bit :: nat where "c1_bit \<equiv> 9"
abbreviation c2_bit :: nat where "c2_bit \<equiv> 10"
abbreviation c3_bit :: nat where "c3_bit \<equiv> 14"

definition put_flag :: "nat \<Rightarrow> bool \<Rightarrow> cpu_state \<Rightarrow> cpu_state" where
  "put_flag n b cpu = cpu\<lparr>eflags := put_bit n b (eflags cpu)\<rparr>"

definition put_res :: "nat \<Rightarrow> bool \<Rightarrow> cpu_state \<Rightarrow> cpu_state" where
  "put_res n b cpu = cpu\<lparr>flags_res := put_bit n b (flags_res cpu)\<rparr>"

definition put_fsw :: "nat \<Rightarrow> bool \<Rightarrow> cpu_state \<Rightarrow> cpu_state" where
  "put_fsw n b cpu = cpu\<lparr>fsw := put_bit n b (fsw cpu)\<rparr>"

section \<open>Lazy flags\<close>

fun parity :: "nat \<Rightarrow> u32 \<Rightarrow> bool" where
  "parity 0 w = False"
| "parity (Suc n) w = (parity n w \<noteq> bit w n)"

definition ZF :: "cpu_state \<Rightarrow> bool" where
  "ZF cpu = (if bit (flags_res cpu) zf_res then res cpu = 0 else bit (eflags cpu) ZF_bit)"

definition SF :: "cpu_state \<Rightarrow> bool" where
  "SF cpu = (if bit (flags_res cpu) sf_res then sint (res cpu) < 0 else bit (eflags cpu) SF_bit)"

definition PF :: "cpu_state \<Rightarrow> bool" where
  "PF cpu = (if bit (flags_res cpu) pf_res then \<not> parity 32 (res cpu AND 0xff) else bit (eflags cpu) PF_bit)"

definition AF :: "cpu_state \<Rightarrow> bool" where
  "AF cpu = (if bit (flags_res cpu) af_ops then drop_bit 4 (op1 cpu XOR op2 cpu XOR res cpu) AND 1 = 1
             else bit (eflags cpu) AF_bit)"

definition collapse_flags :: "cpu_state \<Rightarrow> cpu_state" where
  "collapse_flags cpu0 =
     (let cpu1 = put_flag ZF_bit (ZF cpu0) cpu0;
          cpu2 = put_flag SF_bit (SF cpu1) cpu1;
          cpu3 = put_flag PF_bit (PF cpu2) cpu2;
          cpu4 = put_res pf_res False (put_res sf_res False (put_res zf_res False cpu3));
          cpu5 = put_flag OF_bit (bit (cpu_of cpu4) 0) cpu4;
          cpu6 = put_flag CF_bit (bit (cf cpu5) 0) cpu5;
          cpu7 = put_flag AF_bit (AF cpu6) cpu6;
          cpu8 = put_res af_ops False cpu7;
          cpu9 = put_flag 1 True cpu8;
          cpu10 = put_flag 3 False (put_flag 5 False cpu9) in
      put_flag IF_bit True cpu10)"

definition expand_flags :: "cpu_state \<Rightarrow> cpu_state" where
  "expand_flags cpu0 =
     (let cpu1 = cpu0\<lparr>cpu_of := of_bool (bit (eflags cpu0) OF_bit)\<rparr>;
          cpu2 = cpu1\<lparr>cf := of_bool (bit (eflags cpu1) CF_bit)\<rparr> in
      put_res zf_res False (put_res sf_res False (put_res pf_res False (put_res af_ops False cpu2))))"

section \<open>The register stack\<close>

definition ftop :: "cpu_state \<Rightarrow> nat" where
  "ftop cpu = unat (take_bit 3 (drop_bit 11 (fsw cpu)))"

definition set_top :: "nat \<Rightarrow> cpu_state \<Rightarrow> cpu_state" where
  "set_top t cpu = cpu\<lparr>fsw := (fsw cpu AND NOT (push_bit 11 (mask 3))) OR push_bit 11 (take_bit 3 (of_nat t))\<rparr>"

definition ST :: "cpu_state \<Rightarrow> nat \<Rightarrow> float80" where
  "ST cpu i = fp cpu ! ((ftop cpu + i) mod 8)"

definition put_ST :: "nat \<Rightarrow> float80 \<Rightarrow> cpu_state \<Rightarrow> cpu_state" where
  "put_ST i f cpu = cpu\<lparr>fp := (fp cpu)[(ftop cpu + i) mod 8 := f]\<rparr>"

definition fpu_push :: "cpu_state \<Rightarrow> float80 \<Rightarrow> cpu_state" where
  "fpu_push cpu f = put_ST 0 f (set_top (ftop cpu + 7) cpu)"

definition fpu_pop :: "cpu_state \<Rightarrow> cpu_state" where
  "fpu_pop cpu = set_top (ftop cpu + 1) cpu"

definition fpu_xch :: "cpu_state \<Rightarrow> nat \<Rightarrow> cpu_state" where
  "fpu_xch cpu i =
     (let tmp = ST cpu 0;
          cpu1 = put_ST 0 (ST cpu i) cpu in
      put_ST i tmp cpu1)"

definition fpu_incstp :: "cpu_state \<Rightarrow> cpu_state" where
  "fpu_incstp cpu = set_top (ftop cpu + 1) cpu"

section \<open>Loads and stores\<close>

record host_math =
  f32_to_f64 :: "u32 \<Rightarrow> u64"
  f64_to_f32 :: "u64 \<Rightarrow> u32"
  pow2_minus1 :: "u64 \<Rightarrow> u64"
  h_atan2 :: "u64 \<Rightarrow> u64 \<Rightarrow> u64"
  h_sin :: "u64 \<Rightarrow> u64"
  h_cos :: "u64 \<Rightarrow> u64"

datatype fpu_const = fconst_one | fconst_log2t | fconst_log2e | fconst_pi | fconst_log2 | fconst_ln2 | fconst_zero

fun fpu_consts :: "fpu_const \<Rightarrow> float80" where
  "fpu_consts fconst_one = \<lparr>signif = 0x8000000000000000, fexp = 0x3fff, fsign = False\<rparr>"
| "fpu_consts fconst_log2t = \<lparr>signif = 0xd49a784bcd1b8afe, fexp = 0x4000, fsign = False\<rparr>"
| "fpu_consts fconst_log2e = \<lparr>signif = 0xb8aa3b295c17f0bc, fexp = 0x3fff, fsign = False\<rparr>"
| "fpu_consts fconst_pi = \<lparr>signif = 0xc90fdaa22168c235, fexp = 0x4000, fsign = False\<rparr>"
| "fpu_consts fconst_log2 = \<lparr>signif = 0x9a209a84fbcff799, fexp = 0x3ffd, fsign = False\<rparr>"
| "fpu_consts fconst_ln2 = \<lparr>signif = 0xb17217f7d1cf79ac, fexp = 0x3ffe, fsign = False\<rparr>"
| "fpu_consts fconst_zero = \<lparr>signif = 0, fexp = 0, fsign = False\<rparr>"

definition fpu_ld :: "cpu_state \<Rightarrow> nat \<Rightarrow> cpu_state" where
  "fpu_ld cpu i = fpu_push cpu (ST cpu i)"

definition fpu_ldc :: "cpu_state \<Rightarrow> fpu_const \<Rightarrow> cpu_state" where
  "fpu_ldc cpu c = fpu_push cpu (fpu_consts c)"

definition fpu_ild16 :: "cpu_state \<Rightarrow> u16 \<Rightarrow> cpu_state" where
  "fpu_ild16 cpu i = fpu_push cpu (f80_from_int (scast i))"

definition fpu_ild32 :: "cpu_state \<Rightarrow> u32 \<Rightarrow> cpu_state" where
  "fpu_ild32 cpu i = fpu_push cpu (f80_from_int (scast i))"

definition fpu_ild64 :: "cpu_state \<Rightarrow> u64 \<Rightarrow> cpu_state" where
  "fpu_ild64 cpu i = fpu_push cpu (f80_from_int i)"

definition fpu_ldm32 :: "host_math \<Rightarrow> cpu_state \<Rightarrow> u32 \<Rightarrow> cpu_state" where
  "fpu_ldm32 hm cpu f = fpu_push cpu (f80_from_double (f32_to_f64 hm f))"

definition fpu_ldm64 :: "cpu_state \<Rightarrow> u64 \<Rightarrow> cpu_state" where
  "fpu_ldm64 cpu f = fpu_push cpu (f80_from_double f)"

definition fpu_ldm80 :: "cpu_state \<Rightarrow> float80 \<Rightarrow> cpu_state" where
  "fpu_ldm80 cpu f = fpu_push cpu f"

definition fpu_st :: "cpu_state \<Rightarrow> nat \<Rightarrow> cpu_state" where
  "fpu_st cpu i = put_ST i (ST cpu 0) cpu"

definition fpu_ist16 :: "cpu_state \<Rightarrow> u16" where
  "fpu_ist16 cpu =
     (let r = sint (f80_to_int (rmode cpu) (ST cpu 0)) in
      word_of_int (if r < - (2 ^ 15) \<or> r > 2 ^ 15 - 1 then - (2 ^ 15) else r))"

definition fpu_ist32 :: "cpu_state \<Rightarrow> u32" where
  "fpu_ist32 cpu =
     (let r = sint (f80_to_int (rmode cpu) (ST cpu 0)) in
      word_of_int (if r < - (2 ^ 31) \<or> r > 2 ^ 31 - 1 then - (2 ^ 31) else r))"

definition fpu_ist64 :: "cpu_state \<Rightarrow> u64" where
  "fpu_ist64 cpu = f80_to_int (rmode cpu) (ST cpu 0)"

definition fpu_stm32 :: "host_math \<Rightarrow> cpu_state \<Rightarrow> u32" where
  "fpu_stm32 hm cpu = f64_to_f32 hm (f80_to_double (rmode cpu) (ST cpu 0))"

definition fpu_stm64 :: "cpu_state \<Rightarrow> u64" where
  "fpu_stm64 cpu = f80_to_double (rmode cpu) (ST cpu 0)"

definition fpu_stm80 :: "cpu_state \<Rightarrow> float80" where
  "fpu_stm80 cpu = ST cpu 0"

section \<open>Conditional moves\<close>

datatype fcmov_cond = cmov_b | cmov_e | cmov_be | cmov_u | cmov_nb | cmov_ne | cmov_nbe | cmov_nu

text \<open>The conditions read the stored bits and not the lazily evaluated flags.\<close>

fun fcmov_test :: "fcmov_cond \<Rightarrow> cpu_state \<Rightarrow> bool" where
  "fcmov_test cmov_b cpu = (cf cpu \<noteq> 0)"
| "fcmov_test cmov_e cpu = bit (eflags cpu) ZF_bit"
| "fcmov_test cmov_be cpu = (cf cpu OR of_bool (bit (eflags cpu) ZF_bit) \<noteq> 0)"
| "fcmov_test cmov_u cpu = bit (eflags cpu) PF_bit"
| "fcmov_test cmov_nb cpu = (cf cpu = 0)"
| "fcmov_test cmov_ne cpu = (\<not> bit (eflags cpu) ZF_bit)"
| "fcmov_test cmov_nbe cpu = (cf cpu OR of_bool (bit (eflags cpu) ZF_bit) = 0)"
| "fcmov_test cmov_nu cpu = (\<not> bit (eflags cpu) PF_bit)"

definition fpu_cmov :: "fcmov_cond \<Rightarrow> cpu_state \<Rightarrow> nat \<Rightarrow> cpu_state" where
  "fpu_cmov c cpu i = (if fcmov_test c cpu then put_ST 0 (ST cpu i) cpu else cpu)"

section \<open>Arithmetic\<close>

definition fpu_prem :: "cpu_state \<Rightarrow> cpu_state" where
  "fpu_prem cpu = put_fsw c2_bit False (put_ST 0 (f80_mod (rmode cpu) (ST cpu 0) (ST cpu 1)) cpu)"

definition fpu_scale :: "cpu_state \<Rightarrow> cpu_state" where
  "fpu_scale cpu =
     (let scale = signed_take_bit 31 (sint (f80_to_int round_chop (ST cpu 1))) in
      put_ST 0 (f80_scale (rmode cpu) (ST cpu 0) scale) cpu)"

definition fpu_rndint :: "cpu_state \<Rightarrow> cpu_state" where
  "fpu_rndint cpu =
     (if f80_isinf (ST cpu 0) \<or> f80_isnan (ST cpu 0) then cpu
      else put_ST 0 (f80_round (rmode cpu) (ST cpu 0)) cpu)"

definition fpu_sqrt :: "cpu_state \<Rightarrow> cpu_state" where
  "fpu_sqrt cpu = put_ST 0 (f80_sqrt (rmode cpu) (ST cpu 0)) cpu"

definition fpu_yl2x :: "cpu_state \<Rightarrow> cpu_state option" where
  "fpu_yl2x cpu = do {
     l \<leftarrow> f80_log2 (rmode cpu) (ST cpu 0);
     Some (fpu_pop (put_ST 1 (f80_mul (rmode cpu) (ST cpu 1) l) cpu))
   }"

definition fpu_2xm1 :: "host_math \<Rightarrow> cpu_state \<Rightarrow> cpu_state" where
  "fpu_2xm1 hm cpu = put_ST 0 (f80_from_double (pow2_minus1 hm (f80_to_double (rmode cpu) (ST cpu 0)))) cpu"

definition fpu_comparei :: "cpu_state \<Rightarrow> float80 \<Rightarrow> cpu_state" where
  "fpu_comparei cpu0 x =
     (let cpu1 = put_res pf_res False (put_res zf_res False cpu0);
          cpu2 = (put_flag PF_bit False (put_flag ZF_bit False cpu1))\<lparr>cf := 0\<rparr>;
          cpu3 = cpu2\<lparr>cf := of_bool (f80_lt (rmode cpu2) (ST cpu2 0) x)\<rparr>;
          cpu4 = put_flag ZF_bit (f80_eq (ST cpu3 0) x) cpu3 in
      if f80_uncomparable (ST cpu4 0) x
      then (put_flag PF_bit True (put_flag ZF_bit True cpu4))\<lparr>cf := 1\<rparr> else cpu4)"

definition fpu_compare :: "cpu_state \<Rightarrow> float80 \<Rightarrow> cpu_state" where
  "fpu_compare cpu0 x =
     (let cpu1 = put_fsw c2_bit False (put_fsw c1_bit False cpu0);
          cpu2 = put_fsw c0_bit (f80_lt (rmode cpu1) (ST cpu1 0) x) cpu1;
          cpu3 = put_fsw c3_bit (f80_eq (ST cpu2 0) x) cpu2 in
      if f80_uncomparable (ST cpu3 0) x
      then put_fsw c0_bit True (put_fsw c2_bit True (put_fsw c3_bit True cpu3)) else cpu3)"

definition fpu_com :: "cpu_state \<Rightarrow> nat \<Rightarrow> cpu_state" where "fpu_com cpu i = fpu_compare cpu (ST cpu i)"
definition fpu_comi :: "cpu_state \<Rightarrow> nat \<Rightarrow> cpu_state" where "fpu_comi cpu i = fpu_comparei cpu (ST cpu i)"

definition fpu_comm32 :: "host_math \<Rightarrow> cpu_state \<Rightarrow> u32 \<Rightarrow> cpu_state" where
  "fpu_comm32 hm cpu f = fpu_compare cpu (f80_from_double (f32_to_f64 hm f))"

definition fpu_comm64 :: "cpu_state \<Rightarrow> u64 \<Rightarrow> cpu_state" where
  "fpu_comm64 cpu f = fpu_compare cpu (f80_from_double f)"

definition fpu_icom16 :: "cpu_state \<Rightarrow> u16 \<Rightarrow> cpu_state" where
  "fpu_icom16 cpu i = fpu_compare cpu (f80_from_int (scast i))"

definition fpu_icom32 :: "cpu_state \<Rightarrow> u32 \<Rightarrow> cpu_state" where
  "fpu_icom32 cpu i = fpu_compare cpu (f80_from_int (scast i))"

definition fpu_tst :: "cpu_state \<Rightarrow> cpu_state" where
  "fpu_tst cpu = fpu_compare cpu (fpu_consts fconst_zero)"

definition fpu_abs :: "cpu_state \<Rightarrow> cpu_state" where "fpu_abs cpu = put_ST 0 (f80_abs (ST cpu 0)) cpu"
definition fpu_chs :: "cpu_state \<Rightarrow> cpu_state" where "fpu_chs cpu = put_ST 0 (f80_neg (ST cpu 0)) cpu"

text \<open>The six operations of each operand kind; \<open>f80_arith op rm d s\<close> is \<open>d op s\<close>.\<close>

datatype fpu_arith = Fadd | Fsub | Fsubr | Fmul | Fdiv | Fdivr

fun f80_arith :: "fpu_arith \<Rightarrow> f80_rounding_mode \<Rightarrow> float80 \<Rightarrow> float80 \<Rightarrow> float80" where
  "f80_arith Fadd rm d s = f80_add rm d s"
| "f80_arith Fsub rm d s = f80_sub rm d s"
| "f80_arith Fsubr rm d s = f80_sub rm s d"
| "f80_arith Fmul rm d s = f80_mul rm d s"
| "f80_arith Fdiv rm d s = f80_div rm d s"
| "f80_arith Fdivr rm d s = f80_div rm s d"

definition fpu_arith_st :: "fpu_arith \<Rightarrow> cpu_state \<Rightarrow> nat \<Rightarrow> nat \<Rightarrow> cpu_state" where
  "fpu_arith_st op cpu srci dsti = put_ST dsti (f80_arith op (rmode cpu) (ST cpu dsti) (ST cpu srci)) cpu"

definition fpu_arith_i16 :: "fpu_arith \<Rightarrow> cpu_state \<Rightarrow> u16 \<Rightarrow> cpu_state" where
  "fpu_arith_i16 op cpu i = put_ST 0 (f80_arith op (rmode cpu) (ST cpu 0) (f80_from_int (scast i))) cpu"

definition fpu_arith_i32 :: "fpu_arith \<Rightarrow> cpu_state \<Rightarrow> u32 \<Rightarrow> cpu_state" where
  "fpu_arith_i32 op cpu i = put_ST 0 (f80_arith op (rmode cpu) (ST cpu 0) (f80_from_int (scast i))) cpu"

definition fpu_arith_m32 :: "host_math \<Rightarrow> fpu_arith \<Rightarrow> cpu_state \<Rightarrow> u32 \<Rightarrow> cpu_state" where
  "fpu_arith_m32 hm op cpu f = put_ST 0 (f80_arith op (rmode cpu) (ST cpu 0) (f80_from_double (f32_to_f64 hm f))) cpu"

definition fpu_arith_m64 :: "fpu_arith \<Rightarrow> cpu_state \<Rightarrow> u64 \<Rightarrow> cpu_state" where
  "fpu_arith_m64 op cpu f = put_ST 0 (f80_arith op (rmode cpu) (ST cpu 0) (f80_from_double f)) cpu"

definition fpu_patan :: "host_math \<Rightarrow> cpu_state \<Rightarrow> cpu_state" where
  "fpu_patan hm cpu =
     fpu_pop (put_ST 1 (f80_from_double (h_atan2 hm (f80_to_double (rmode cpu) (ST cpu 1)) (f80_to_double (rmode cpu) (ST cpu 0)))) cpu)"

definition fpu_sin :: "host_math \<Rightarrow> cpu_state \<Rightarrow> cpu_state" where
  "fpu_sin hm cpu = put_ST 0 (f80_from_double (h_sin hm (f80_to_double (rmode cpu) (ST cpu 0)))) cpu"

definition fpu_cos :: "host_math \<Rightarrow> cpu_state \<Rightarrow> cpu_state" where
  "fpu_cos hm cpu = put_ST 0 (f80_from_double (h_cos hm (f80_to_double (rmode cpu) (ST cpu 0)))) cpu"

definition fpu_xtract :: "cpu_state \<Rightarrow> cpu_state" where
  "fpu_xtract cpu =
     (let (e, s) = f80_xtract (ST cpu 0) in
      fpu_push (put_ST 0 (f80_from_int (word_of_int e)) cpu) s)"

definition fpu_xam :: "cpu_state \<Rightarrow> cpu_state" where
  "fpu_xam cpu =
     (let f = ST cpu 0;
          out = (if \<not> f80_is_supported f then 0
                 else if f80_isnan f then 1
                 else if f80_isinf f then 3
                 else if f80_iszero f then 4
                 else if f80_isdenormal f then 6
                 else 2 :: u32) in
      put_fsw c3_bit (drop_bit 2 out AND 1 = 1) (put_fsw c2_bit (drop_bit 1 out AND 1 = 1)
        (put_fsw c0_bit (out AND 1 = 1) (put_fsw c1_bit (fsign f) cpu))))"

section \<open>Control\<close>

fun rounding_of_rc :: "nat \<Rightarrow> f80_rounding_mode" where
  "rounding_of_rc n = (if n = 0 then round_to_nearest else if n = 1 then round_down else if n = 2 then round_up else round_chop)"

definition fcw_rc :: "cpu_state \<Rightarrow> nat" where
  "fcw_rc cpu = unat (take_bit 2 (drop_bit 10 (fcw cpu)))"

definition fpu_stcw16 :: "cpu_state \<Rightarrow> u16" where "fpu_stcw16 cpu = fcw cpu"

definition fpu_ldcw16 :: "cpu_state \<Rightarrow> u16 \<Rightarrow> cpu_state" where
  "fpu_ldcw16 cpu i = (let cpu1 = cpu\<lparr>fcw := i\<rparr> in cpu1\<lparr>rmode := rounding_of_rc (fcw_rc cpu1)\<rparr>)"

record fpu_env32 =
  env_control :: u32
  env_status :: u32
  env_tag :: u32
  env_ip :: u32
  env_ip_selector :: u32
  env_operand :: u32
  env_operand_selector :: u32

definition fpu_stenv32 :: "cpu_state \<Rightarrow> fpu_env32" where
  "fpu_stenv32 cpu =
     \<lparr>env_control = ucast (fcw cpu), env_status = ucast (fsw cpu), env_tag = 0, env_ip = 0,
      env_ip_selector = 0, env_operand = 0, env_operand_selector = 0\<rparr>"

definition fpu_ldenv32 :: "cpu_state \<Rightarrow> fpu_env32 \<Rightarrow> cpu_state" where
  "fpu_ldenv32 cpu env = cpu\<lparr>fcw := ucast (env_control env), fsw := ucast (env_status env)\<rparr>"

record fpu_state32 =
  st_env :: fpu_env32
  st_regs :: "float80 list"

definition fpu_save32 :: "cpu_state \<Rightarrow> fpu_state32" where
  "fpu_save32 cpu = \<lparr>st_env = fpu_stenv32 cpu, st_regs = map (ST cpu) [0..<8]\<rparr>"

definition fpu_restore32 :: "cpu_state \<Rightarrow> fpu_state32 \<Rightarrow> cpu_state" where
  "fpu_restore32 cpu st = fold (\<lambda>i c. put_ST i (st_regs st ! i) c) [0..<8] (fpu_ldenv32 cpu (st_env st))"

definition fpu_clex :: "cpu_state \<Rightarrow> cpu_state" where
  "fpu_clex cpu =
     put_fsw 5 False (put_fsw 4 False (put_fsw 3 False (put_fsw 2 False (put_fsw 1 False (put_fsw 0 False
       (put_fsw 7 False (put_flag SF_bit False (put_fsw 15 False cpu))))))))"

end
