(* ===== verification/Signal.thy ===== *)
theory Signal
  imports Fpu "HOL-Library.Monad_Syntax"
begin

text \<open>
  Signals, \<^verbatim>\<open>kernel/signal.c\<close> and \<^verbatim>\<open>kernel/signal.h\<close>: actions, masks, the queue of a task, delivery,
  the frames on the guest's stack, and sending. Guest memory is an argument: whether the write of a frame
  succeeds, and what a read of a frame returns. A call that does not come back is an outcome of its own:
  the group exits, the thread waits for a lock it holds itself, or a traced task stops for its
  tracer (what the tracer does then is not followed). \<open>None\<close> is an access outside an array.
\<close>

section \<open>Sets of signals\<close>

definition NUM_SIGS :: nat where "NUM_SIGS = 64"

definition SIGKILL :: nat where "SIGKILL = 9"
definition SIGSEGV :: nat where "SIGSEGV = 11"
definition SIGCHLD :: nat where "SIGCHLD = 17"
definition SIGCONT :: nat where "SIGCONT = 18"
definition SIGSTOP :: nat where "SIGSTOP = 19"
definition SIGTSTP :: nat where "SIGTSTP = 20"
definition SIGTTIN :: nat where "SIGTTIN = 21"
definition SIGTTOU :: nat where "SIGTTOU = 22"
definition SIGURG :: nat where "SIGURG = 23"
definition SIGWINCH :: nat where "SIGWINCH = 28"
definition SIGIO :: nat where "SIGIO = 29"

text \<open>The assertion of \<open>sig_mask\<close> is the range \<open>1 \<le> sig < NUM_SIGS\<close>.\<close>

definition sig_ok :: "nat \<Rightarrow> bool" where "sig_ok sig \<longleftrightarrow> 1 \<le> sig \<and> sig < NUM_SIGS"

definition sig_mask :: "nat \<Rightarrow> u64" where "sig_mask sig = push_bit (sig - 1) 1"
definition sigset_has :: "u64 \<Rightarrow> nat \<Rightarrow> bool" where "sigset_has s sig = tst s (sig_mask sig)"
definition sigset_add :: "u64 \<Rightarrow> nat \<Rightarrow> u64" where "sigset_add s sig = s OR sig_mask sig"
definition sigset_del :: "u64 \<Rightarrow> nat \<Rightarrow> u64" where "sigset_del s sig = s AND NOT (sig_mask sig)"

definition signal_is_blockable :: "nat \<Rightarrow> bool" where
  "signal_is_blockable sig \<longleftrightarrow> sig \<noteq> SIGKILL \<and> sig \<noteq> SIGSTOP"

definition UNBLOCKABLE_MASK :: u64 where
  "UNBLOCKABLE_MASK = sig_mask SIGKILL OR sig_mask SIGSTOP"

section \<open>State\<close>

definition SIG_DFL :: u32 where "SIG_DFL = 0"
definition SIG_IGN :: u32 where "SIG_IGN = 1"
definition SA_SIGINFO :: u32 where "SA_SIGINFO = 4"
definition SA_NODEFER :: u32 where "SA_NODEFER = 0x40000000"
definition SA_RESETHAND :: u32 where "SA_RESETHAND = 0x80000000"

record sigaction =
  sa_handler :: u32
  sa_flags :: u32
  sa_restorer :: u32
  sa_mask :: u64

record sighand =
  sh_refcount :: u32
  sh_action :: "sigaction list"
  sh_altstack :: u32
  sh_altstack_size :: u32

datatype siginfo_fields =
    Si_none
  | Si_kill u32 u32
  | Si_child u32 u32 u32 u32 u32
  | Si_fault u32
  | Si_sigsys u32 u32
  | Si_timer u32 u32 u32 u32

record siginfo =
  si_sig :: nat
  si_errno :: int
  si_code :: int
  si_fields :: siginfo_fields

definition SIGINFO_NIL :: siginfo where
  "SIGINFO_NIL = \<lparr>si_sig = 0, si_errno = 0, si_code = 128, si_fields = Si_none\<rparr>"

record regs =
  eax :: u32
  ebx :: u32
  ecx :: u32
  edx :: u32
  esi :: u32
  edi :: u32
  ebp :: u32
  esp :: u32
  eip :: u32
  trapno :: u32
  segfault_addr :: u32
  flagregs :: cpu_state

record task =
  t_pid :: nat
  t_tgid :: nat
  t_uid :: u32
  t_euid :: u32
  t_suid :: u32
  t_zombie :: bool
  t_exiting :: bool
  t_traced :: bool
  t_regs :: regs
  t_blocked :: u64
  t_pending :: u64
  t_waiting :: u64
  t_queue :: "siginfo list"
  t_has_saved_mask :: bool
  t_saved_mask :: u64
  t_stopped :: bool
  t_group_exit_code :: u32

datatype 'a outcome = Done 'a | Exit_group nat | Deadlock | Trace_stop siginfo

section \<open>Delivery\<close>

datatype action_kind = SIGNAL_IGNORE | SIGNAL_KILL | SIGNAL_CALL_HANDLER | SIGNAL_STOP

definition default_action :: "nat \<Rightarrow> action_kind" where
  "default_action sig =
     (if sig \<in> {SIGURG, SIGCONT, SIGCHLD, SIGIO, SIGWINCH} then SIGNAL_IGNORE
      else if sig \<in> {SIGSTOP, SIGTSTP, SIGTTIN, SIGTTOU} then SIGNAL_STOP
      else SIGNAL_KILL)"

definition signal_action :: "sighand \<Rightarrow> nat \<Rightarrow> action_kind" where
  "signal_action sh sig =
     (if signal_is_blockable sig \<and> sa_handler (sh_action sh ! sig) = SIG_IGN then SIGNAL_IGNORE
      else if signal_is_blockable sig \<and> sa_handler (sh_action sh ! sig) \<noteq> SIG_DFL then SIGNAL_CALL_HANDLER
      else default_action sig)"

text \<open>
  Queueing a signal. The result says whether the target is woken up (\<open>pthread_kill\<close> and the notification
  of what it waits for), which has no other effect on the state.
\<close>

definition deliver_signal_unlocked :: "task \<Rightarrow> nat \<Rightarrow> siginfo \<Rightarrow> task \<times> bool" where
  "deliver_signal_unlocked t sig info =
     (if sigset_has (t_pending t) sig then (t, False)
      else
        let t1 = t\<lparr>t_pending := sigset_add (t_pending t) sig, t_queue := t_queue t @ [info\<lparr>si_sig := sig\<rparr>]\<rparr> in
        (t1, \<not> (sigset_has (t_blocked t1 AND NOT (t_waiting t1)) sig \<and> signal_is_blockable sig)))"

definition deliver_signal :: "task \<Rightarrow> nat \<Rightarrow> siginfo \<Rightarrow> task" where
  "deliver_signal t sig info = fst (deliver_signal_unlocked t sig info)"

definition send_signal :: "sighand \<Rightarrow> task \<Rightarrow> nat \<Rightarrow> siginfo \<Rightarrow> task" where
  "send_signal sh t sig info =
     (if sig = 0 then t
      else if t_zombie t \<or> t_exiting t then t
      else
        let t1 = (if signal_action sh sig \<noteq> SIGNAL_IGNORE then fst (deliver_signal_unlocked t sig info) else t) in
        if sig = SIGCONT \<or> sig = SIGKILL then t1\<lparr>t_stopped := False\<rparr> else t1)"

definition try_self_signal :: "sighand \<Rightarrow> task \<Rightarrow> nat \<Rightarrow> bool \<times> task" where
  "try_self_signal sh t sig =
     (let can_send = signal_action sh sig \<noteq> SIGNAL_IGNORE \<and> \<not> sigset_has (t_blocked t) sig in
      (can_send, if can_send then fst (deliver_signal_unlocked t sig SIGINFO_NIL) else t))"

section \<open>Frames\<close>

record sigcontext =
  sc_ax :: u32
  sc_bx :: u32
  sc_cx :: u32
  sc_dx :: u32
  sc_di :: u32
  sc_si :: u32
  sc_bp :: u32
  sc_sp :: u32
  sc_sp_at_signal :: u32
  sc_ip :: u32
  sc_flags :: u32
  sc_trapno :: u32
  sc_cr2 :: u32
  sc_oldmask :: u32

record stack_t =
  ss_stack :: u32
  ss_flags :: u32
  ss_size :: u32

record sigframe =
  sf_restorer :: u32
  sf_sig :: nat
  sf_sc :: sigcontext
  sf_extramask :: u32

record rt_sigframe =
  rf_restorer :: u32
  rf_sig :: nat
  rf_pinfo :: u32
  rf_puc :: u32
  rf_info :: siginfo
  rf_stack :: stack_t
  rf_mcontext :: sigcontext
  rf_sigmask :: u64

datatype frame = Plain_frame sigframe | Rt_frame rt_sigframe

text \<open>\<open>sizeof\<close> and \<open>offsetof\<close> of the packed structures.\<close>

definition SIGFRAME_SIZE :: u32 where "SIGFRAME_SIZE = 732"
definition RT_SIGFRAME_SIZE :: u32 where "RT_SIGFRAME_SIZE = 268"
definition SIGFRAME_SC :: u32 where "SIGFRAME_SC = 8"
definition RT_SIGFRAME_SIG :: u32 where "RT_SIGFRAME_SIG = 4"
definition RT_SIGFRAME_INFO :: u32 where "RT_SIGFRAME_INFO = 16"
definition RT_SIGFRAME_UC :: u32 where "RT_SIGFRAME_UC = 144"

definition SS_ONSTACK :: u32 where "SS_ONSTACK = 1"
definition SS_DISABLE :: u32 where "SS_DISABLE = 2"
definition MINSIGSTKSZ :: u32 where "MINSIGSTKSZ = 2048"

definition INT_GPF :: u32 where "INT_GPF = 13"

definition is_on_altstack :: "u32 \<Rightarrow> sighand \<Rightarrow> bool" where
  "is_on_altstack sp sh \<longleftrightarrow> sp > sh_altstack sh \<and> sp \<le> sh_altstack sh + sh_altstack_size sh"

definition altstack_to_user :: "sighand \<Rightarrow> task \<Rightarrow> stack_t" where
  "altstack_to_user sh t =
     \<lparr>ss_stack = sh_altstack sh,
      ss_flags = (if sh_altstack sh = 0 then SS_DISABLE else 0)
                 OR (if is_on_altstack (esp (t_regs t)) sh then SS_ONSTACK else 0),
      ss_size = sh_altstack_size sh\<rparr>"

definition setup_sigcontext :: "task \<Rightarrow> sigcontext \<times> task" where
  "setup_sigcontext t =
     (let r = t_regs t;
          f = collapse_flags (flagregs r) in
      (\<lparr>sc_ax = eax r, sc_bx = ebx r, sc_cx = ecx r, sc_dx = edx r, sc_di = edi r, sc_si = esi r,
        sc_bp = ebp r, sc_sp = esp r, sc_sp_at_signal = esp r, sc_ip = eip r,
        sc_flags = eflags f, sc_trapno = trapno r,
        sc_cr2 = (if trapno r = INT_GPF then segfault_addr r else 0),
        sc_oldmask = ucast (t_blocked t AND 0xffffffff)\<rparr>,
       t\<lparr>t_regs := r\<lparr>flagregs := f\<rparr>\<rparr>))"

text \<open>The code of the trampolines in the frame is constant and left out; \<open>vdso\<close> is the trampoline's address.\<close>

definition setup_sigframe :: "u32 \<Rightarrow> task \<Rightarrow> siginfo \<Rightarrow> sigframe \<times> task" where
  "setup_sigframe vdso t info =
     (let (sc, t1) = setup_sigcontext t in
      (\<lparr>sf_restorer = vdso, sf_sig = si_sig info, sf_sc = sc, sf_extramask = ucast (drop_bit 32 (t_blocked t1))\<rparr>, t1))"

definition setup_rt_sigframe :: "u32 \<Rightarrow> sighand \<Rightarrow> task \<Rightarrow> siginfo \<Rightarrow> rt_sigframe \<times> task" where
  "setup_rt_sigframe vdso sh t info =
     (let st = altstack_to_user sh t;
          (sc, t1) = setup_sigcontext t in
      (\<lparr>rf_restorer = vdso, rf_sig = si_sig info, rf_pinfo = 0, rf_puc = 0, rf_info = info,
        rf_stack = st, rf_mcontext = sc, rf_sigmask = t_blocked t1\<rparr>, t1))"

text \<open>
  What delivery needs of the machine: the addresses of the trampolines, the sizes of the floating-point
  padding (both zero unless set by a debugging tool), and whether the frame can be written.
\<close>

record sig_env =
  se_vdso :: u32
  se_vdso_rt :: u32
  se_xsave_extra :: u32
  se_fxsave_extra :: u32
  se_write :: "u32 \<Rightarrow> frame \<Rightarrow> bool"

definition frame_address :: "sig_env \<Rightarrow> sighand \<Rightarrow> u32 \<Rightarrow> u32 \<Rightarrow> u32" where
  "frame_address env sh sp0 frame_size =
     (let sp1 = (if sh_altstack sh \<noteq> 0 \<and> \<not> is_on_altstack sp0 sh then sh_altstack sh + sh_altstack_size sh else sp0);
          sp2 = (if se_xsave_extra env \<noteq> 0
                 then ((sp1 - se_xsave_extra env) AND NOT 0x3f) - se_fxsave_extra env else sp1);
          sp3 = sp2 - frame_size in
      ((sp3 + 4) AND NOT 0xf) - 4)"

text \<open>
  Running a handler: the frame, the registers of the handler, the mask, and the reset of a one-shot
  action. When the frame cannot be written the code queues \<open>SIGSEGV\<close> with \<open>deliver_signal\<close>, which locks
  the handlers' lock that the caller of \<open>receive_signal\<close> holds.
\<close>

definition call_handler ::
  "sig_env \<Rightarrow> sighand \<Rightarrow> task \<Rightarrow> siginfo \<Rightarrow> ((u32 \<times> frame) \<times> sighand \<times> task) outcome" where
  "call_handler env sh t info =
     (let sig = si_sig info;
          action = sh_action sh ! sig;
          need_siginfo = tst (sa_flags action) SA_SIGINFO;
          (fr, t1) = (if need_siginfo
             then (let (f, t') = setup_rt_sigframe (se_vdso_rt env) sh t info in (Rt_frame f, t'))
             else (let (f, t') = setup_sigframe (se_vdso env) t info in (Plain_frame f, t')));
          r1 = (t_regs t1)\<lparr>eax := of_nat sig, eip := sa_handler action\<rparr>;
          sp = frame_address env sh (esp r1) (if need_siginfo then RT_SIGFRAME_SIZE else SIGFRAME_SIZE);
          r2 = r1\<lparr>esp := sp\<rparr>;
          b1 = (if tst (sa_flags action) SA_NODEFER then t_blocked t1 else sigset_add (t_blocked t1) sig);
          b2 = b1 OR sa_mask action;
          r3 = (if need_siginfo then r2\<lparr>edx := sp + RT_SIGFRAME_INFO, ecx := sp + RT_SIGFRAME_UC\<rparr> else r2);
          fr' = (case fr of
                   Rt_frame f \<Rightarrow> Rt_frame (f\<lparr>rf_pinfo := sp + RT_SIGFRAME_INFO, rf_puc := sp + RT_SIGFRAME_UC\<rparr>)
                 | Plain_frame f \<Rightarrow> Plain_frame f);
          t2 = t1\<lparr>t_regs := r3, t_blocked := b2\<rparr>;
          sh1 = (if tst (sa_flags action) SA_RESETHAND
                 then sh\<lparr>sh_action := (sh_action sh)[sig := \<lparr>sa_handler = SIG_DFL, sa_flags = 0, sa_restorer = 0, sa_mask = 0\<rparr>]\<rparr>
                 else sh) in
      if se_write env sp fr' then Done ((sp, fr'), sh1, t2) else Deadlock)"

definition receive_signal :: "sig_env \<Rightarrow> sighand \<Rightarrow> task \<Rightarrow> siginfo \<Rightarrow> (sighand \<times> task) outcome" where
  "receive_signal env sh t info =
     (case signal_action sh (si_sig info) of
        SIGNAL_IGNORE \<Rightarrow> Done (sh, t)
      | SIGNAL_STOP \<Rightarrow> Done (sh, t\<lparr>t_stopped := True, t_group_exit_code := push_bit 8 (of_nat (si_sig info)) OR 0x7f\<rparr>)
      | SIGNAL_KILL \<Rightarrow> Exit_group (si_sig info)
      | SIGNAL_CALL_HANDLER \<Rightarrow>
          (case call_handler env sh t info of
             Done (_, sh', t') \<Rightarrow> Done (sh', t')
           | Exit_group s \<Rightarrow> Exit_group s | Deadlock \<Rightarrow> Deadlock | Trace_stop i \<Rightarrow> Trace_stop i))"

fun receive_loop :: "sig_env \<Rightarrow> u64 \<Rightarrow> sighand \<Rightarrow> task \<Rightarrow> siginfo list \<Rightarrow> (sighand \<times> task) outcome" where
  "receive_loop env blocked sh t [] = Done (sh, t)"
| "receive_loop env blocked sh t (q # qs) =
     (if sigset_has blocked (si_sig q) then receive_loop env blocked sh t qs
      else
        let t1 = t\<lparr>t_queue := remove1 q (t_queue t), t_pending := sigset_del (t_pending t) (si_sig q)\<rparr> in
        if t_traced t1 \<and> si_sig q \<noteq> SIGKILL then Trace_stop q
        else case receive_signal env sh t1 q of
               Done (sh', t') \<Rightarrow> receive_loop env blocked sh' t' qs
             | Exit_group s \<Rightarrow> Exit_group s | Deadlock \<Rightarrow> Deadlock | Trace_stop i \<Rightarrow> Trace_stop i)"

text \<open>The last component says whether the parent is told that the group has stopped.\<close>

definition receive_signals :: "sig_env \<Rightarrow> sighand \<Rightarrow> task \<Rightarrow> (sighand \<times> task \<times> bool) outcome" where
  "receive_signals env sh t =
     (let was_stopped = t_stopped t;
          blocked = (if t_has_saved_mask t then t_blocked t AND t_saved_mask t else t_blocked t);
          t1 = (if t_has_saved_mask t then t\<lparr>t_has_saved_mask := False, t_blocked := t_saved_mask t\<rparr> else t) in
      case receive_loop env blocked sh t1 (t_queue t1) of
        Done (sh', t') \<Rightarrow> Done (sh', t', \<not> was_stopped \<and> t_stopped t')
      | Exit_group s \<Rightarrow> Exit_group s | Deadlock \<Rightarrow> Deadlock | Trace_stop i \<Rightarrow> Trace_stop i)"

section \<open>Returning from a handler\<close>

definition USE_FLAGS :: u32 where "USE_FLAGS = 0x50dd5"

definition restore_sigcontext :: "sigcontext \<Rightarrow> regs \<Rightarrow> regs" where
  "restore_sigcontext c r =
     (let f = collapse_flags (flagregs r) in
      r\<lparr>eax := sc_ax c, ebx := sc_bx c, ecx := sc_cx c, edx := sc_dx c, edi := sc_di c, esi := sc_si c,
        ebp := sc_bp c, esp := sc_sp c, eip := sc_ip c,
        flagregs := f\<lparr>eflags := (sc_flags c AND USE_FLAGS) OR (eflags f AND NOT USE_FLAGS)\<rparr>\<rparr>)"

definition sigmask_set :: "task \<Rightarrow> u64 \<Rightarrow> task" where
  "sigmask_set t s = t\<lparr>t_blocked := s AND NOT UNBLOCKABLE_MASK\<rparr>"

text \<open>\<open>read\<close> is what \<open>user_get\<close> finds at an address.\<close>

definition sys_rt_sigreturn :: "(u32 \<Rightarrow> rt_sigframe option) \<Rightarrow> sighand \<Rightarrow> task \<Rightarrow> u32 result \<times> sighand \<times> task" where
  "sys_rt_sigreturn read sh t =
     (case read (esp (t_regs t) - RT_SIGFRAME_SIG) of
        None \<Rightarrow> (Inl EFAULT, sh, deliver_signal t SIGSEGV SIGINFO_NIL)
      | Some frame \<Rightarrow>
          let r = restore_sigcontext (rf_mcontext frame) (t_regs t);
              sh1 = (if \<not> is_on_altstack (esp r) sh \<and> ss_size (rf_stack frame) \<ge> MINSIGSTKSZ
                     then sh\<lparr>sh_altstack := ss_stack (rf_stack frame), sh_altstack_size := ss_size (rf_stack frame)\<rparr> else sh) in
          (Inr (eax r), sh1, sigmask_set (t\<lparr>t_regs := r\<rparr>) (rf_sigmask frame)))"

definition sys_sigreturn :: "(u32 \<Rightarrow> sigframe option) \<Rightarrow> task \<Rightarrow> u32 result \<times> task" where
  "sys_sigreturn read t =
     (case read (esp (t_regs t) - SIGFRAME_SC) of
        None \<Rightarrow> (Inl EFAULT, deliver_signal t SIGSEGV SIGINFO_NIL)
      | Some frame \<Rightarrow>
          let r = restore_sigcontext (sf_sc frame) (t_regs t);
              oldmask = push_bit 32 (ucast (sf_extramask frame)) OR ucast (sc_oldmask (sf_sc frame)) in
          (Inr (eax r), sigmask_set (t\<lparr>t_regs := r\<rparr>) oldmask))"

section \<open>Actions and masks\<close>

definition no_action :: sigaction where
  "no_action = \<lparr>sa_handler = 0, sa_flags = 0, sa_restorer = 0, sa_mask = 0\<rparr>"

definition sighand_new :: "bool \<Rightarrow> sighand option" where
  "sighand_new alloc =
     (if alloc then Some \<lparr>sh_refcount = 1, sh_action = replicate NUM_SIGS no_action, sh_altstack = 0, sh_altstack_size = 0\<rparr>
      else None)"

definition sighand_copy :: "bool \<Rightarrow> sighand \<Rightarrow> sighand option" where
  "sighand_copy alloc sh = map_option (\<lambda>n. n\<lparr>sh_action := sh_action sh\<rparr>) (sighand_new alloc)"

definition sighand_release :: "sighand \<Rightarrow> sighand option" where
  "sighand_release sh =
     (if sh_refcount sh - 1 = 0 then None else Some (sh\<lparr>sh_refcount := sh_refcount sh - 1\<rparr>))"

text \<open>\<open>sig\<close> is a signed \<open>int\<close>: a negative one passes the test and indexes before the array.\<close>

definition do_sigaction ::
  "sighand \<Rightarrow> int \<Rightarrow> sigaction option \<Rightarrow> (sigaction result \<times> sighand) option" where
  "do_sigaction sh sig action =
     (if sig \<ge> int NUM_SIGS then Some (Inl EINVAL, sh)
      else if sig = int SIGKILL \<or> sig = int SIGSTOP then Some (Inl EINVAL, sh)
      else if sig < 0 then None
      else Some (Inr (sh_action sh ! nat sig),
                 case action of Some a \<Rightarrow> sh\<lparr>sh_action := (sh_action sh)[nat sig := a]\<rparr> | None \<Rightarrow> sh))"

text \<open>
  \<open>action\<close>: \<open>None\<close> for a null pointer, \<open>Some None\<close> when the read faults. \<open>old_ok\<close>: \<open>None\<close> for a null
  pointer, otherwise whether the write of the old action succeeds.
\<close>

definition sys_rt_sigaction ::
  "sighand \<Rightarrow> u32 \<Rightarrow> sigaction option option \<Rightarrow> bool option \<Rightarrow> u32 \<Rightarrow> (unit result \<times> sigaction option \<times> sighand) option" where
  "sys_rt_sigaction sh signum action old_ok sigset_size =
     (if sigset_size \<noteq> 8 then Some (Inl EINVAL, None, sh)
      else if action = Some None then Some (Inl EFAULT, None, sh)
      else do {
        (r, sh') \<leftarrow> do_sigaction sh (sint signum) (case action of Some a \<Rightarrow> a | None \<Rightarrow> None);
        Some (case r of
                Inl e \<Rightarrow> (Inl e, None, sh')
              | Inr old \<Rightarrow> (case old_ok of
                    None \<Rightarrow> (Inr (), None, sh')
                  | Some True \<Rightarrow> (Inr (), Some old, sh')
                  | Some False \<Rightarrow> (Inl EFAULT, None, sh')))
      })"

definition sys_sigaction ::
  "sighand \<Rightarrow> u32 \<Rightarrow> sigaction option option \<Rightarrow> bool option \<Rightarrow> (unit result \<times> sigaction option \<times> sighand) option" where
  "sys_sigaction sh signum action old_ok = sys_rt_sigaction sh signum action old_ok 1"

definition sigmask_set_temp :: "task \<Rightarrow> u64 \<Rightarrow> task" where
  "sigmask_set_temp t m = sigmask_set (t\<lparr>t_saved_mask := t_blocked t, t_has_saved_mask := True\<rparr>) m"

definition do_sigprocmask :: "task \<Rightarrow> u32 \<Rightarrow> u64 \<Rightarrow> unit result \<times> task" where
  "do_sigprocmask t how s =
     (if how = 0 then (Inr (), sigmask_set t (t_blocked t OR s))
      else if how = 1 then (Inr (), sigmask_set t (t_blocked t AND NOT s))
      else if how = 2 then (Inr (), sigmask_set t s)
      else (Inl EINVAL, t))"

definition sys_rt_sigprocmask ::
  "task \<Rightarrow> u32 \<Rightarrow> u64 option option \<Rightarrow> bool option \<Rightarrow> u32 \<Rightarrow> unit result \<times> u64 option \<times> task" where
  "sys_rt_sigprocmask t how s old_ok len =
     (if len \<noteq> 8 then (Inl EINVAL, None, t)
      else if s = Some None then (Inl EFAULT, None, t)
      else if old_ok = Some False then (Inl EFAULT, None, t)
      else
        let old = (if old_ok = Some True then Some (t_blocked t) else None) in
        case s of
          Some (Some m) \<Rightarrow> (let (r, t') = do_sigprocmask t how m in (r, old, t'))
        | _ \<Rightarrow> (Inr (), old, t))"

definition sys_rt_sigpending :: "task \<Rightarrow> bool \<Rightarrow> unit result \<times> u64 option" where
  "sys_rt_sigpending t put_ok =
     (if put_ok then (Inr (), Some (t_pending t AND t_blocked t)) else (Inl EFAULT, None))"

text \<open>The last component says whether the call returns with the handlers' lock still held.\<close>

definition sys_sigaltstack ::
  "sighand \<Rightarrow> task \<Rightarrow> stack_t option option \<Rightarrow> bool option \<Rightarrow> unit result \<times> stack_t option \<times> sighand \<times> bool" where
  "sys_sigaltstack sh t ss old_ok =
     (if old_ok = Some False then (Inl EFAULT, None, sh, False)
      else
        let old = (if old_ok = Some True then Some (altstack_to_user sh t) else None) in
        case ss of
          None \<Rightarrow> (Inr (), old, sh, False)
        | Some s \<Rightarrow>
            if is_on_altstack (esp (t_regs t)) sh then (Inl EPERM, old, sh, False)
            else (case s of
                None \<Rightarrow> (Inl EFAULT, old, sh, False)
              | Some st \<Rightarrow>
                  if tst (ss_flags st) SS_DISABLE then (Inr (), old, sh\<lparr>sh_altstack := 0\<rparr>, False)
                  else if ss_size st < MINSIGSTKSZ then (Inl ENOMEM, old, sh, True)
                  else (Inr (), old, sh\<lparr>sh_altstack := ss_stack st, sh_altstack_size := ss_size st\<rparr>, False)))"

section \<open>Waiting\<close>

text \<open>
  \<open>sys_rt_sigsuspend\<close> up to its wait, which ends with \<open>EINTR\<close> only, and \<open>sys_rt_sigtimedwait\<close> from the
  end of its wait: \<open>err\<close> is what the wait returned and \<open>t\<close> the task then, with what was delivered meanwhile.
\<close>

definition sys_rt_sigsuspend :: "task \<Rightarrow> u64 option \<Rightarrow> u32 \<Rightarrow> errno \<times> task" where
  "sys_rt_sigsuspend t m len =
     (if len \<noteq> 8 then (EINVAL, t)
      else case m of None \<Rightarrow> (EFAULT, t) | Some s \<Rightarrow> (EINTR, sigmask_set_temp t s))"

definition sigtimedwait_start :: "task \<Rightarrow> u64 \<Rightarrow> task option" where
  "sigtimedwait_start t s = (if t_waiting t = 0 then Some (t\<lparr>t_waiting := s\<rparr>) else None)"

definition sigtimedwait_finish :: "task \<Rightarrow> u64 \<Rightarrow> errno \<Rightarrow> bool option \<Rightarrow> nat result \<times> task" where
  "sigtimedwait_finish t0 s err info_ok =
     (let t = t0\<lparr>t_waiting := 0\<rparr> in
      if err = ETIMEDOUT then (Inl EAGAIN, t)
      else case find (\<lambda>q. sigset_has s (si_sig q)) (t_queue t) of
        None \<Rightarrow> (Inl EINTR, t)
      | Some q \<Rightarrow>
          let t1 = t\<lparr>t_queue := remove1 q (t_queue t)\<rparr> in
          (if info_ok = Some False then Inl EFAULT else Inr (si_sig q), t1))"

section \<open>Sending to other processes\<close>

text \<open>
  The processes: \<open>ps_task\<close> is \<open>pid_get_task\<close> with the handlers of the task, \<open>ps_group\<close> the leaders of
  a process group in the order of its list, \<open>ps_leader\<close> whether a task leads its thread group.
\<close>

record procs =
  ps_task :: "nat \<Rightarrow> (sighand \<times> task) option"
  ps_group :: "nat \<Rightarrow> nat list option"
  ps_leader :: "nat \<Rightarrow> bool"

definition MAX_PID :: nat where "MAX_PID = 32768"

definition may_kill :: "task \<Rightarrow> task \<Rightarrow> bool" where
  "may_kill cur t \<longleftrightarrow> t_euid cur = 0 \<or> t_uid cur = t_uid t \<or> t_uid cur = t_suid t \<or> t_euid cur = t_uid t \<or> t_euid cur = t_suid t"

definition kill_task :: "procs \<Rightarrow> task \<Rightarrow> nat \<Rightarrow> nat \<Rightarrow> (unit result \<times> procs) option" where
  "kill_task ps cur pid sig = do {
     (sh, t) \<leftarrow> ps_task ps pid;
     Some (if \<not> may_kill cur t then (Inl EPERM, ps)
           else (Inr (), ps\<lparr>ps_task := (ps_task ps)(pid \<mapsto> (sh, send_signal sh t sig
                    \<lparr>si_sig = 0, si_errno = 0, si_code = 0, si_fields = Si_kill (of_nat (t_pid cur)) (t_uid cur)\<rparr>))\<rparr>))
   }"

fun kill_all :: "procs \<Rightarrow> task \<Rightarrow> nat \<Rightarrow> unit result \<Rightarrow> nat list \<Rightarrow> (unit result \<times> procs) option" where
  "kill_all ps cur sig err [] = Some (err, ps)"
| "kill_all ps cur sig err (p # qs) = do {
     (r, ps') \<leftarrow> kill_task ps cur p sig;
     kill_all ps' cur sig (if err = Inl EPERM then r else err) qs
   }"

definition kill_group :: "procs \<Rightarrow> task \<Rightarrow> nat \<Rightarrow> nat \<Rightarrow> (unit result \<times> procs) option" where
  "kill_group ps cur pgid sig =
     (case ps_group ps pgid of
        None \<Rightarrow> Some (Inl ESRCH, ps)
      | Some leaders \<Rightarrow> kill_all ps cur sig (Inl EPERM) leaders)"

definition kill_everything :: "procs \<Rightarrow> task \<Rightarrow> nat \<Rightarrow> (unit result \<times> procs) option" where
  "kill_everything ps cur sig =
     kill_all ps cur sig (Inl EPERM)
       (filter (\<lambda>p. ps_task ps p \<noteq> None \<and> p \<noteq> t_pid cur \<and> ps_leader ps p) [2..<MAX_PID])"

definition do_kill :: "procs \<Rightarrow> task \<Rightarrow> nat \<Rightarrow> int \<Rightarrow> nat \<Rightarrow> nat \<Rightarrow> (unit result \<times> procs) option" where
  "do_kill ps cur pgid pid0 sig tgid =
     (if sig \<ge> NUM_SIGS then Some (Inl EINVAL, ps)
      else
        let pid = (if pid0 = 0 then - int pgid else pid0) in
        if pid = -1 then kill_everything ps cur sig
        else if pid < 0 then kill_group ps cur (nat (- pid)) sig
        else (case ps_task ps (nat pid) of
            None \<Rightarrow> Some (Inl ESRCH, ps)
          | Some (sh, t) \<Rightarrow>
              if tgid \<noteq> 0 \<and> t_tgid t \<noteq> tgid then Some (Inl ESRCH, ps)
              else kill_task ps cur (nat pid) sig))"

definition sys_kill :: "procs \<Rightarrow> task \<Rightarrow> nat \<Rightarrow> int \<Rightarrow> nat \<Rightarrow> (unit result \<times> procs) option" where
  "sys_kill ps cur pgid pid sig = do_kill ps cur pgid pid sig 0"

definition sys_tgkill :: "procs \<Rightarrow> task \<Rightarrow> nat \<Rightarrow> int \<Rightarrow> int \<Rightarrow> nat \<Rightarrow> (unit result \<times> procs) option" where
  "sys_tgkill ps cur pgid tgid tid sig =
     (if tid \<le> 0 \<or> tgid \<le> 0 then Some (Inl EINVAL, ps) else do_kill ps cur pgid tid sig (nat tgid))"

definition sys_tkill :: "procs \<Rightarrow> task \<Rightarrow> nat \<Rightarrow> int \<Rightarrow> nat \<Rightarrow> (unit result \<times> procs) option" where
  "sys_tkill ps cur pgid tid sig = (if tid \<le> 0 then Some (Inl EINVAL, ps) else do_kill ps cur pgid tid sig 0)"

definition send_group_signal :: "procs \<Rightarrow> nat \<Rightarrow> nat \<Rightarrow> siginfo \<Rightarrow> unit result \<times> procs" where
  "send_group_signal ps pgid sig info =
     (case ps_group ps pgid of
        None \<Rightarrow> (Inl ESRCH, ps)
      | Some leaders \<Rightarrow> (Inr (), fold (\<lambda>p ps. case ps_task ps p of
             None \<Rightarrow> ps
           | Some (sh, t) \<Rightarrow> ps\<lparr>ps_task := (ps_task ps)(p \<mapsto> (sh, send_signal sh t sig info))\<rparr>) leaders ps))"

end
