(* ===== verification/Tty.thy ===== *)
theory Tty
  imports Signal "HOL-Library.Monad_Syntax"
begin

text \<open>
  Terminals, \<^verbatim>\<open>fs/tty.c\<close> and \<^verbatim>\<open>fs/tty.h\<close>: the input queue, the line discipline, reads, writes, polling
  and the terminal's own ioctls. A place where the code gives up the terminal's lock and waits takes the next
  event of a list: other threads change the terminal, a signal interrupts the waiter, or its time runs
  out. The two conditions of a terminal count their notifications (\<open>produced\<close>, \<open>consumed\<close>): a sleeper looks at
  the terminal again only when what the other threads did has notified the condition it waits on. \<open>None\<close> is a
  call that is still waiting when the list is used up, a failed assertion, or an access outside the buffer;
  sizes are \<open>size_t\<close>, whose subtraction wraps. What the driver writes is the list of
  the writes; \<open>char\<close> is signed, as on the hosts the program is built for.
\<close>

section \<open>State\<close>

definition TTY_BUF_SIZE :: nat where "TTY_BUF_SIZE = 4096"

record termios =
  iflags :: u32
  oflags :: u32
  cflags :: u32
  lflags :: u32
  line_disc :: u8
  ccs :: "u8 list"

record winsize =
  ws_row :: u16
  ws_col :: u16
  ws_xpixel :: u16
  ws_ypixel :: u16

datatype tty_driver = Pty_master | Pty_slave | Other_driver nat

record tty =
  tty_refcount :: nat
  driver :: tty_driver
  hung_up :: bool
  ever_opened :: bool
  buf :: "u8 list"
  buf_flag :: "bool list"
  bufsize :: nat
  packet_flags :: u8
  winsize :: winsize
  termios :: termios
  tty_type :: nat
  tty_num :: nat
  session :: nat
  fg_group :: nat
  pty_other :: "nat option"
  pty_perms :: u16
  pty_uid :: u32
  pty_gid :: u32
  pty_locked :: bool
  packet_mode :: bool
  produced :: nat
  consumed :: nat

definition VINTR :: nat where "VINTR = 0"
definition VQUIT :: nat where "VQUIT = 1"
definition VERASE :: nat where "VERASE = 2"
definition VKILL :: nat where "VKILL = 3"
definition VEOF :: nat where "VEOF = 4"
definition VTIME :: nat where "VTIME = 5"
definition VMIN :: nat where "VMIN = 6"
definition VSTART :: nat where "VSTART = 8"
definition VSTOP :: nat where "VSTOP = 9"
definition VSUSP :: nat where "VSUSP = 10"
definition VEOL :: nat where "VEOL = 11"

definition ISIG :: u32 where "ISIG = 0x1"
definition ICANON :: u32 where "ICANON = 0x2"
definition ECHO :: u32 where "ECHO = 0x8"
definition ECHOE :: u32 where "ECHOE = 0x10"
definition ECHOK :: u32 where "ECHOK = 0x20"
definition ECHOKE :: u32 where "ECHOKE = 0x40"
definition NOFLSH :: u32 where "NOFLSH = 0x80"
definition ECHOCTL :: u32 where "ECHOCTL = 0x200"
definition IEXTEN :: u32 where "IEXTEN = 0x8000"

definition INLCR :: u32 where "INLCR = 0x40"
definition IGNCR :: u32 where "IGNCR = 0x80"
definition ICRNL :: u32 where "ICRNL = 0x100"
definition IXON :: u32 where "IXON = 0x400"

definition OPOST :: u32 where "OPOST = 0x1"
definition ONLCR :: u32 where "ONLCR = 0x4"
definition OCRNL :: u32 where "OCRNL = 0x8"
definition ONLRET :: u32 where "ONLRET = 0x20"

definition SIGINT :: nat where "SIGINT = 2"
definition SIGQUIT :: nat where "SIGQUIT = 3"

definition default_termios :: termios where
  "default_termios = \<lparr>iflags = ICRNL OR IXON, oflags = OPOST OR ONLCR, cflags = 0,
     lflags = ISIG OR ICANON OR ECHO OR ECHOE OR ECHOK OR ECHOCTL OR ECHOKE OR IEXTEN, line_disc = 0,
     ccs = [0x03, 0x1c, 0x7f, 0x15, 0x04, 0, 0x01, 0, 0x11, 0x13, 0x1a, 0, 0x12, 0x0f, 0x17, 0x16, 0, 0, 0]\<rparr>"

text \<open>\<open>junk\<close> is what the allocation contains; the pty fields are set by the pty driver.\<close>

definition tty_alloc :: "bool \<Rightarrow> u8 list \<Rightarrow> tty_driver \<Rightarrow> nat \<Rightarrow> nat \<Rightarrow> tty option" where
  "tty_alloc alloc junk drv type num =
     (if alloc then Some
        \<lparr>tty_refcount = 0, driver = drv, hung_up = False, ever_opened = False, buf = junk,
         buf_flag = replicate TTY_BUF_SIZE False, bufsize = 0, packet_flags = 0,
         winsize = \<lparr>ws_row = 0, ws_col = 0, ws_xpixel = 0, ws_ypixel = 0\<rparr>, termios = default_termios,
         tty_type = type, tty_num = num, session = 0, fg_group = 0,
         pty_other = None, pty_perms = 0, pty_uid = 0, pty_gid = 0, pty_locked = False, packet_mode = False,
         produced = 0, consumed = 0\<rparr>
      else None)"

section \<open>Waiting\<close>

datatype wakeup = Woken "tty \<Rightarrow> tty" bool | Interrupted | Timed_out

text \<open>
  \<open>gap\<close> is what other threads do to the terminal while \<open>tty_poll_wakeup\<close> has released its lock.
\<close>

definition tty_input_wakeup :: "(tty \<Rightarrow> tty) \<Rightarrow> tty \<Rightarrow> tty" where
  "tty_input_wakeup gap t = gap (t\<lparr>produced := produced t + 1\<rparr>)"

section \<open>Input\<close>

text \<open>A signed \<open>char\<close> compared with an unsigned control character.\<close>

definition is_cc :: "tty \<Rightarrow> u8 \<Rightarrow> nat \<Rightarrow> bool" where
  "is_cc t ch i \<longleftrightarrow> sint ch = uint (ccs (termios t) ! i)"

definition SHOULD_ECHOCTL :: "tty \<Rightarrow> u32 \<Rightarrow> u8 \<Rightarrow> bool" where
  "SHOULD_ECHOCTL t lf ch \<longleftrightarrow>
     tst lf ECHOCTL \<and> (0 \<le> sint ch \<and> sint ch < 0x20 \<or> ch = 0x7f) \<and>
     \<not> (ch = 0x09 \<or> ch = 0x0a \<or> is_cc t ch VSTART \<or> is_cc t ch VSTOP)"

definition put_char :: "tty \<Rightarrow> u8 \<Rightarrow> bool \<Rightarrow> tty" where
  "put_char t ch flag =
     t\<lparr>buf := (buf t)[bufsize t := ch], buf_flag := (buf_flag t)[bufsize t := flag], bufsize := bufsize t + 1\<rparr>"

text \<open>
  The wait for room, shared by \<open>tty_push_char\<close> and the raw input loop. \<open>asleep\<close>: the caller is in
  \<open>wait_for\<close> and has not been woken.
\<close>

fun wait_room :: "bool \<Rightarrow> bool \<Rightarrow> tty \<Rightarrow> wakeup list \<Rightarrow> (unit result \<times> tty \<times> wakeup list) option" where
  "wait_room asleep blocking t es =
     (if \<not> asleep \<and> bufsize t < TTY_BUF_SIZE then Some (Inr (), t, es)
      else if \<not> asleep \<and> \<not> blocking then Some (Inl EAGAIN, t, es)
      else (case es of
              [] \<Rightarrow> None
            | Woken f _ # es' \<Rightarrow> wait_room (consumed (f t) = consumed t) blocking (f t) es'
            | Interrupted # es' \<Rightarrow> Some (Inl EINTR, t, es')
            | Timed_out # es' \<Rightarrow> wait_room True blocking t es'))"

declare wait_room.simps [simp del]

definition tty_push_char :: "tty \<Rightarrow> u8 \<Rightarrow> bool \<Rightarrow> bool \<Rightarrow> wakeup list \<Rightarrow> (unit result \<times> tty \<times> wakeup list) option" where
  "tty_push_char t ch flag blocking es = do {
     (r, t', es') \<leftarrow> wait_room False blocking t es;
     Some (r, (if r = Inr () then put_char t' ch flag else t'), es')
   }"

definition input_signal :: "tty \<Rightarrow> u8 \<Rightarrow> nat option" where
  "input_signal t ch =
     (if \<not> tst (lflags (termios t)) ISIG \<or> ch = 0 then None
      else if is_cc t ch VINTR then Some SIGINT
      else if is_cc t ch VQUIT then Some SIGQUIT
      else if is_cc t ch VSUSP then Some SIGTSTP
      else None)"

definition tty_send_input_signal :: "tty \<Rightarrow> u8 \<Rightarrow> u64 \<Rightarrow> bool \<times> tty \<times> u64" where
  "tty_send_input_signal t ch queue =
     (case input_signal t ch of
        None \<Rightarrow> (False, t, queue)
      | Some sig \<Rightarrow>
          if fg_group t \<noteq> 0
          then (True, if \<not> tst (lflags (termios t)) NOFLSH then t\<lparr>bufsize := 0\<rparr> else t, sigset_add queue sig)
          else (True, t, queue))"

text \<open>The state of the loops of \<open>tty_input\<close>: the driver's writes are in \<open>in_out\<close>.\<close>

record input_state =
  in_tty :: tty
  in_done :: nat
  in_err :: "unit result"
  in_queue :: u64
  in_out :: "u8 list list"
  in_events :: "wakeup list"

definition tty_echo :: "u8 list \<Rightarrow> input_state \<Rightarrow> input_state" where
  "tty_echo data s = s\<lparr>in_out := in_out s @ [data]\<rparr>"

text \<open>Erasing up to \<open>count\<close> characters, not past a flag.\<close>

fun erase_loop :: "u32 \<Rightarrow> bool \<Rightarrow> nat \<Rightarrow> input_state \<Rightarrow> input_state option" where
  "erase_loop lf ech 0 s = Some s"
| "erase_loop lf ech (Suc count) s =
     (let t = in_tty s; i = szsub (bufsize t) 1 in
      if i \<ge> TTY_BUF_SIZE then None
      else if buf_flag t ! i then Some s
      else
        let t' = t\<lparr>bufsize := i\<rparr>;
            s1 = s\<lparr>in_tty := t'\<rparr>;
            s2 = (if ech then
                    (let s' = tty_echo [0x08, 0x20, 0x08] s1 in
                     if SHOULD_ECHOCTL t' lf (buf t' ! i) then tty_echo [0x08, 0x20, 0x08] s' else s')
                  else s1) in
        erase_loop lf ech count s2)"

text \<open>
  Pushing a character and leaving the loop when that fails: the boolean says whether the loop goes on.
\<close>

definition push_or_break :: "bool \<Rightarrow> u8 \<Rightarrow> bool \<Rightarrow> input_state \<Rightarrow> (bool \<times> input_state) option" where
  "push_or_break blocking ch flag s = do {
     (r, t, es) \<leftarrow> tty_push_char (in_tty s) ch flag blocking (in_events s);
     let s' = s\<lparr>in_tty := t, in_events := es\<rparr>;
     Some (case r of Inr _ \<Rightarrow> (True, s') | Inl e \<Rightarrow> (False, s'\<lparr>in_done := in_done s' - 1, in_err := Inl e\<rparr>))
   }"

definition echo_char :: "u32 \<Rightarrow> u8 \<Rightarrow> input_state \<Rightarrow> input_state" where
  "echo_char lf ch s =
     (if SHOULD_ECHOCTL (in_tty s) lf ch then tty_echo [ch XOR 0x40] (tty_echo [0x5e] s) else tty_echo [ch] s)"

definition push_line_end :: "(tty \<Rightarrow> tty) \<Rightarrow> bool \<Rightarrow> u8 \<Rightarrow> input_state \<Rightarrow> (bool \<times> input_state) option" where
  "push_line_end gap blocking ch s = do {
     (go, s') \<leftarrow> push_or_break blocking ch True s;
     Some (go, if go then s'\<lparr>in_tty := tty_input_wakeup gap (in_tty s')\<rparr> else s')
   }"

definition map_input :: "u32 \<Rightarrow> u8 \<Rightarrow> u8" where
  "map_input ifl ch =
     (if tst ifl INLCR \<and> ch = 0x0a then 0x0d
      else if tst ifl ICRNL \<and> ch = 0x0d then 0x0a else ch)"

definition canon_char ::
  "(tty \<Rightarrow> tty) \<Rightarrow> bool \<Rightarrow> u32 \<Rightarrow> u32 \<Rightarrow> u8 \<Rightarrow> input_state \<Rightarrow> (bool \<times> input_state) option" where
  "canon_char gap blocking lf ifl ch0 s0 =
     (let s = s0\<lparr>in_done := in_done s0 + 1\<rparr>;
          ech = tst lf ECHO;
          ch = map_input ifl ch0;
          t = in_tty s in
      if tst ifl IGNCR \<and> ch = 0x0d then Some (True, s)
      else if ch = 0 then do {
        (go, s') \<leftarrow> push_or_break blocking ch False s;
        Some (go, if go \<and> ech then echo_char lf ch s' else s')
      }
      else if is_cc t ch VERASE \<or> is_cc t ch VKILL then
        (let one = is_cc t ch VERASE \<and> bufsize t > 0 in
         map_option (Pair True) (erase_loop lf ((if one then tst lf ECHOE else tst lf ECHOK) \<and> tst lf ECHO)
                                   (if one then 1 else bufsize t) s))
      else if is_cc t ch VEOF then push_line_end gap blocking 0 s
      else if ch = 0x0a \<or> is_cc t ch VEOL then
        push_line_end gap blocking ch (if ech then tty_echo [0x0d, 0x0a] s else s)
      else
        (case tty_send_input_signal t ch (in_queue s) of
           (True, t', q') \<Rightarrow>
             let s' = s\<lparr>in_tty := t', in_queue := q'\<rparr> in
             Some (True, if ech then echo_char lf ch s' else s')
         | (False, _, _) \<Rightarrow> do {
             (go, s') \<leftarrow> push_or_break blocking ch False s;
             Some (go, if go \<and> ech then echo_char lf ch s' else s')
           }))"

fun canon_loop :: "(tty \<Rightarrow> tty) \<Rightarrow> bool \<Rightarrow> u32 \<Rightarrow> u32 \<Rightarrow> u8 list \<Rightarrow> input_state \<Rightarrow> input_state option" where
  "canon_loop gap blocking lf ifl [] s = Some s"
| "canon_loop gap blocking lf ifl (ch # chs) s = do {
     (go, s') \<leftarrow> canon_char gap blocking lf ifl ch s;
     if go then canon_loop gap blocking lf ifl chs s' else Some s'
   }"

text \<open>Raw input stores the character and leaves the flag of its slot as it is.\<close>

definition raw_char :: "bool \<Rightarrow> u8 \<Rightarrow> input_state \<Rightarrow> (bool \<times> input_state) option" where
  "raw_char blocking ch s0 =
     (let s = s0\<lparr>in_done := in_done s0 + 1\<rparr>;
          t = in_tty s in
      (case tty_send_input_signal t ch (in_queue s) of
         (True, t', q') \<Rightarrow> Some (True, s\<lparr>in_tty := t', in_queue := q'\<rparr>)
       | (False, _, _) \<Rightarrow> do {
           (r, t', es) \<leftarrow> wait_room False blocking t (in_events s);
           Some (case r of
                   Inl e \<Rightarrow> (False, s\<lparr>in_tty := t', in_events := es, in_done := in_done s - 1, in_err := Inl e\<rparr>)
                 | Inr _ \<Rightarrow> (True, s\<lparr>in_tty := t'\<lparr>buf := (buf t')[bufsize t' := ch], bufsize := bufsize t' + 1\<rparr>, in_events := es\<rparr>))
         }))"

fun raw_loop :: "bool \<Rightarrow> u8 list \<Rightarrow> input_state \<Rightarrow> input_state option" where
  "raw_loop blocking [] s = Some s"
| "raw_loop blocking (ch # chs) s = do {
     (go, s') \<leftarrow> raw_char blocking ch s;
     if go then raw_loop blocking chs s' else Some s'
   }"

text \<open>
  The result: the count or error, the terminal, the driver's writes, and the group and signals to send.
\<close>

definition tty_input ::
  "(tty \<Rightarrow> tty) \<Rightarrow> tty \<Rightarrow> u8 list \<Rightarrow> bool \<Rightarrow> wakeup list \<Rightarrow> (nat result \<times> tty \<times> u8 list list \<times> (nat \<times> nat) list) option" where
  "tty_input gap t input blocking es = do {
     let lf = lflags (termios t);
     let s0 = \<lparr>in_tty = t, in_done = 0, in_err = Inr (), in_queue = 0, in_out = [], in_events = es\<rparr>;
     s \<leftarrow> (if tst lf ICANON then canon_loop gap blocking lf (iflags (termios t)) input s0
           else map_option (\<lambda>s. if bufsize (in_tty s) > 0 then s\<lparr>in_tty := tty_input_wakeup gap (in_tty s)\<rparr> else s)
                  (raw_loop blocking input s0));
     let t' = in_tty s;
     let sigs = (if fg_group t' \<noteq> 0 then map (Pair (fg_group t')) (filter (sigset_has (in_queue s)) [1..<NUM_SIGS]) else []);
     if bufsize t' > TTY_BUF_SIZE then None
     else Some (if in_done s > 0 then Inr (in_done s) else (case in_err s of Inl e \<Rightarrow> Inl e | Inr _ \<Rightarrow> Inr 0),
                t', in_out s, sigs)
   }"

section \<open>Reading\<close>

text \<open>The first \<open>n\<close> characters, which must be there, out of the buffer.\<close>

definition tty_read_into_buf :: "tty \<Rightarrow> nat \<Rightarrow> (u8 list \<times> tty) option" where
  "tty_read_into_buf t n =
     (if n > bufsize t then None
      else
        let rest = szsub (bufsize t) n in
        Some (take n (buf t),
              t\<lparr>bufsize := rest,
                buf := take rest (drop n (buf t)) @ drop rest (buf t),
                buf_flag := take rest (drop n (buf_flag t)) @ drop rest (buf_flag t),
                consumed := consumed t + 1\<rparr>))"

text \<open>The size of the first line with its end, if there is one.\<close>

fun first_flag :: "nat \<Rightarrow> bool list \<Rightarrow> nat option" where
  "first_flag i [] = None"
| "first_flag i (f # fs) = (if f then Some (i + 1) else first_flag (i + 1) fs)"

definition tty_canon_size :: "tty \<Rightarrow> nat option" where
  "tty_canon_size t = first_flag 0 (take (bufsize t) (buf_flag t))"

text \<open>
  The waits. \<open>half\<close> is whether the terminal is the master of a pty whose slave is closed; the events bring
  its new value. A sleeper is \<open>asleep\<close> until the condition \<open>produced\<close> is notified.
\<close>

fun wait_line :: "bool \<Rightarrow> bool \<Rightarrow> bool \<Rightarrow> tty \<Rightarrow> wakeup list \<Rightarrow> (nat result \<times> tty \<times> wakeup list) option" where
  "wait_line asleep half nonblock t es =
     (case (if asleep then None else tty_canon_size t) of
        Some n \<Rightarrow> Some (Inr n, t, es)
      | None \<Rightarrow>
          if \<not> asleep \<and> half then Some (Inl EIO, t, es)
          else if \<not> asleep \<and> nonblock then Some (Inl EAGAIN, t, es)
          else (case es of
                  [] \<Rightarrow> None
                | Woken f h # es' \<Rightarrow> wait_line (produced (f t) = produced t) h nonblock (f t) es'
                | Interrupted # es' \<Rightarrow> Some (Inl EINTR, t, es')
                | Timed_out # es' \<Rightarrow> wait_line True half nonblock t es'))"

text \<open>
  \<open>timed\<close>: the terminal has an inter-character timeout, which runs only once something was read. \<open>asleep\<close>
  is whether the sleep has a timeout, as decided when it began.
\<close>

fun wait_min :: "bool option \<Rightarrow> bool \<Rightarrow> bool \<Rightarrow> nat \<Rightarrow> bool \<Rightarrow> tty \<Rightarrow> wakeup list \<Rightarrow> (unit result \<times> tty \<times> wakeup list) option" where
  "wait_min asleep half nonblock mn timed t es =
     (if asleep = None \<and> \<not> bufsize t < mn then Some (Inr (), t, es)
      else if asleep = None \<and> half then Some (Inl EIO, t, es)
      else if asleep = None \<and> nonblock then Some (Inl EAGAIN, t, es)
      else
        let limit = (case asleep of None \<Rightarrow> timed \<and> bufsize t \<noteq> 0 | Some b \<Rightarrow> b) in
        (case es of
           [] \<Rightarrow> None
         | Woken f h # es' \<Rightarrow>
             wait_min (if produced (f t) = produced t then Some limit else None) h nonblock mn timed (f t) es'
         | Interrupted # es' \<Rightarrow> Some (Inl EINTR, t, es')
         | Timed_out # es' \<Rightarrow>
             if limit then Some (Inr (), t, es') else wait_min (Some limit) half nonblock mn timed t es'))"

declare wait_line.simps [simp del] wait_min.simps [simp del]

text \<open>The reader: its thread's task and handlers, its process group, and whether this is its controlling terminal.\<close>

record reader =
  rd_current :: bool
  rd_pgid :: nat
  rd_sighand :: sighand
  rd_task :: task
  rd_nonblock :: bool

definition tty_signal_if_background :: "tty \<Rightarrow> reader \<Rightarrow> nat \<Rightarrow> unit result \<times> reader" where
  "tty_signal_if_background t rd sig =
     (if \<not> rd_current rd then (Inr (), rd)
      else if fg_group t = 0 \<or> rd_pgid rd = fg_group t then (Inr (), rd)
      else
        let (sent, tk) = try_self_signal (rd_sighand rd) (rd_task rd) sig in
        (Inl (if sent then EINTR else EIO), rd\<lparr>rd_task := tk\<rparr>))"

definition finish_read :: "tty \<Rightarrow> nat \<Rightarrow> (u8 list \<times> tty) option" where
  "finish_read t n0 = do {
     let n = (if n0 > bufsize t then bufsize t else n0);
     (data, t1) \<leftarrow> tty_read_into_buf t n;
     t2 \<leftarrow> (if bufsize t1 > 0 \<and> buf t1 ! 0 = 0 \<and> buf_flag t1 ! 0 then map_option snd (tty_read_into_buf t1 1) else Some t1);
     Some (data, t2)
   }"

text \<open>The bytes that reach the caller's buffer, or the error; \<open>Inr []\<close> is the end of the file.\<close>

definition tty_read :: "bool \<Rightarrow> tty \<Rightarrow> reader \<Rightarrow> nat \<Rightarrow> wakeup list \<Rightarrow> (u8 list result \<times> tty \<times> reader) option" where
  "tty_read half t rd size0 es =
     (if size0 = 0 then Some (Inr [], t, rd)
      else if hung_up t \<or> half then Some (Inr [], t, rd)
      else
        case tty_signal_if_background t rd SIGTTIN of
          (Inl e, rd') \<Rightarrow> Some (Inl e, t, rd')
        | (Inr _, rd') \<Rightarrow>
            let packet = driver t = Pty_master \<and> packet_mode t;
                pre = (if packet then [packet_flags t] else []);
                size = (if packet then size0 - 1 else size0) in
            if packet \<and> (packet_flags t \<noteq> 0 \<or> size = 0) then Some (Inr pre, t, rd')
            else if tst (lflags (termios t)) ICANON then
              (case wait_line False half (rd_nonblock rd) t es of
                 None \<Rightarrow> None
               | Some (Inl e, t', _) \<Rightarrow> Some (Inl e, t', rd')
               | Some (Inr canon, t', _) \<Rightarrow>
                   let canon' = (if buf t' ! (canon - 1) = 0 then canon - 1 else canon) in
                   map_option (\<lambda>(data, t2). (Inr (pre @ data), t2, rd')) (finish_read t' (if size > canon' then canon' else size)))
            else
              (case wait_min None half (rd_nonblock rd) (unat (ccs (termios t) ! VMIN)) (ccs (termios t) ! VTIME \<noteq> 0) t es of
                 None \<Rightarrow> None
               | Some (Inl e, t', _) \<Rightarrow> Some (Inl e, t', rd')
               | Some (Inr _, t', _) \<Rightarrow>
                   map_option (\<lambda>(data, t2). (Inr (pre @ data), t2, rd')) (finish_read t' size)))"

section \<open>Writing\<close>

definition opost_char :: "u32 \<Rightarrow> u8 \<Rightarrow> u8 list" where
  "opost_char ofl ch =
     (if ch = 0x0d \<and> tst ofl ONLRET then []
      else if ch = 0x0d \<and> tst ofl OCRNL then [0x0a]
      else if ch = 0x0a \<and> tst ofl ONLCR then [0x0d, ch]
      else [ch])"

definition postprocess :: "u32 \<Rightarrow> u8 list \<Rightarrow> u8 list" where
  "postprocess ofl s = (if tst ofl OPOST then concat (map (opost_char ofl) s) else s)"

text \<open>\<open>drv\<close> is the driver's write: the number of bytes it took, or its error.\<close>

definition tty_write :: "bool \<Rightarrow> (u8 list \<Rightarrow> bool \<Rightarrow> nat result) \<Rightarrow> tty \<Rightarrow> bool \<Rightarrow> u8 list \<Rightarrow> nat result" where
  "tty_write half drv t nonblock s =
     (if hung_up t \<or> half then Inl EIO
      else (case drv (postprocess (oflags (termios t)) s) (\<not> nonblock) of
              Inl e \<Rightarrow> Inl e
            | Inr _ \<Rightarrow> Inr (length s)))"

section \<open>Polling and ioctls\<close>

definition POLL_READ :: u32 where "POLL_READ = 1"
definition POLL_PRI :: u32 where "POLL_PRI = 2"
definition POLL_WRITE :: u32 where "POLL_WRITE = 4"
definition POLL_ERR :: u32 where "POLL_ERR = 8"
definition POLL_HUP :: u32 where "POLL_HUP = 16"

definition tty_poll :: "bool \<Rightarrow> tty \<Rightarrow> u32" where
  "tty_poll half t =
     POLL_WRITE
     OR (if hung_up t then POLL_READ OR POLL_WRITE OR POLL_ERR OR POLL_HUP
         else if half then POLL_READ OR POLL_HUP
         else if tst (lflags (termios t)) ICANON then (if tty_canon_size t \<noteq> None then POLL_READ else 0)
         else (if bufsize t > 0 then POLL_READ else 0))
     OR (if driver t = Pty_master \<and> packet_flags t \<noteq> 0 then POLL_PRI else 0)"

datatype ioctl =
    Tcgets | Tcsets termios | Tcsetsw termios | Tcsetsf termios
  | Tcflsh u64 | Tiocsctty u64 | Tiocgpgrp | Tiocspgrp u32
  | Tiocgwinsz | Tiocswinsz winsize | Fionread
  | Tiocpkt u32 | Tiocgptn | Tiocsptlck u32 | Tiocgpkt
  | Other_ioctl nat

datatype ioctl_out = No_out | Termios_out termios | Winsize_out winsize | Int_out nat

definition tty_ioctl_size :: "ioctl \<Rightarrow> nat option" where
  "tty_ioctl_size c = (case c of
      Tcgets \<Rightarrow> Some 36 | Tcsets _ \<Rightarrow> Some 36 | Tcsetsf _ \<Rightarrow> Some 36 | Tcsetsw _ \<Rightarrow> Some 36
    | Tiocgwinsz \<Rightarrow> Some 8 | Tiocswinsz _ \<Rightarrow> Some 8
    | Tiocgpgrp \<Rightarrow> Some 4 | Tiocspgrp _ \<Rightarrow> Some 4 | Tiocsptlck _ \<Rightarrow> Some 4 | Tiocgptn \<Rightarrow> Some 4
    | Tiocpkt _ \<Rightarrow> Some 4 | Tiocgpkt \<Rightarrow> Some 4 | Fionread \<Rightarrow> Some 4
    | Tcflsh _ \<Rightarrow> Some 0 | Tiocsctty _ \<Rightarrow> Some 0
    | Other_ioctl _ \<Rightarrow> None)"

text \<open>Flushing the input: what is in the buffer is dropped, and writers are told that there is room.\<close>

definition tty_flush :: "tty \<Rightarrow> tty" where
  "tty_flush t = t\<lparr>bufsize := 0, consumed := consumed t + 1\<rparr>"

text \<open>The result with the terminal and the signals to its foreground group.\<close>

definition tty_set_winsize :: "tty \<Rightarrow> winsize \<Rightarrow> tty \<times> (nat \<times> nat) list" where
  "tty_set_winsize t w = (t\<lparr>winsize := w\<rparr>, if fg_group t \<noteq> 0 then [(fg_group t, SIGWINCH)] else [])"

definition tty_mode_ioctl :: "tty \<Rightarrow> ioctl \<Rightarrow> ioctl_out result \<times> tty \<times> (nat \<times> nat) list" where
  "tty_mode_ioctl t c = (case c of
      Tcgets \<Rightarrow> (Inr (Termios_out (termios t)), t, [])
    | Tcsetsf m \<Rightarrow> (Inr No_out, (tty_flush t)\<lparr>termios := m\<rparr>, [])
    | Tcsetsw m \<Rightarrow> (Inr No_out, t\<lparr>termios := m\<rparr>, [])
    | Tcsets m \<Rightarrow> (Inr No_out, t\<lparr>termios := m\<rparr>, [])
    | Tiocgwinsz \<Rightarrow> (Inr (Winsize_out (winsize t)), t, [])
    | Tiocswinsz w \<Rightarrow> (let (t', sigs) = tty_set_winsize t w in (Inr No_out, t', sigs))
    | _ \<Rightarrow> (Inl ENOTTY, t, []))"

definition tty_hangup :: "tty \<Rightarrow> tty" where
  "tty_hangup t = tty_input_wakeup (\<lambda>t. t) (t\<lparr>hung_up := True\<rparr>)"

end
