(* ===== verification/Pty.thy ===== *)
theory Pty
  imports Tty
begin

text \<open>
  The tables of terminals and the pseudoterminals: the rest of \<^verbatim>\<open>fs/tty.c\<close> and \<^verbatim>\<open>fs/pty.c\<close>. Terminals are
  shared by descriptors, by the tables and by their partners, so they live in a heap; \<open>None\<close> is an access
  outside a table, of a freed terminal or through a null pointer. A driver other than the two of ptys gives
  its operations as functions. The list of descriptors of a terminal only serves wake-ups and is left out.
\<close>

section \<open>State\<close>

definition TTY_ALTERNATE_MAJOR :: nat where "TTY_ALTERNATE_MAJOR = 5"
definition DEV_TTY_MINOR :: nat where "DEV_TTY_MINOR = 0"
definition DEV_CONSOLE_MINOR :: nat where "DEV_CONSOLE_MINOR = 1"
definition DEV_PTMX_MINOR :: nat where "DEV_PTMX_MINOR = 2"
definition TTY_PSEUDO_MASTER_MAJOR :: nat where "TTY_PSEUDO_MASTER_MAJOR = 128"
definition TTY_PSEUDO_SLAVE_MAJOR :: nat where "TTY_PSEUDO_SLAVE_MAJOR = 136"
definition MAX_PTYS :: nat where "MAX_PTYS = 4096"

datatype slot = No_tty | Reserved | Tty_at nat

record tgroup =
  g_sid :: nat
  g_pgid :: nat
  g_tty :: "nat option"

text \<open>The operations of a driver that is not a pty driver.\<close>

record driver_ops =
  op_init :: "tty \<Rightarrow> unit result"
  op_open :: "tty \<Rightarrow> unit result"
  op_close :: "tty \<Rightarrow> tty"
  op_cleanup :: "tty \<Rightarrow> tty"
  op_ioctl :: "(tty \<Rightarrow> ioctl \<Rightarrow> ioctl_out result \<times> tty) option"

record ttys =
  heap :: "nat \<Rightarrow> tty option"
  next_id :: nat
  masters :: "slot list"
  slaves :: "slot list"
  others :: "nat \<Rightarrow> slot list"
  fakes :: "nat set"
  groups :: "nat \<Rightarrow> tgroup"
  drv_ops :: "nat \<Rightarrow> driver_ops"

text \<open>The calling task.\<close>

record caller =
  c_pid :: nat
  c_group :: nat
  c_euid :: u32
  c_egid :: u32
  c_alloc :: bool
  c_junk :: "u8 list"

definition table :: "ttys \<Rightarrow> tty_driver \<Rightarrow> slot list" where
  "table w drv = (case drv of Pty_master \<Rightarrow> masters w | Pty_slave \<Rightarrow> slaves w
     | Other_driver k \<Rightarrow> if k \<in> fakes w then slaves w else others w k)"

definition put_slot :: "tty_driver \<Rightarrow> nat \<Rightarrow> slot \<Rightarrow> ttys \<Rightarrow> ttys option" where
  "put_slot drv num s w =
     (if num < length (table w drv) then Some
        (case drv of Pty_master \<Rightarrow> w\<lparr>masters := (masters w)[num := s]\<rparr>
         | Pty_slave \<Rightarrow> w\<lparr>slaves := (slaves w)[num := s]\<rparr>
         | Other_driver k \<Rightarrow> if k \<in> fakes w then w\<lparr>slaves := (slaves w)[num := s]\<rparr>
                            else w\<lparr>others := (others w)(k := (others w k)[num := s])\<rparr>)
      else None)"

definition put_tty :: "nat \<Rightarrow> tty \<Rightarrow> ttys \<Rightarrow> ttys" where
  "put_tty i t w = w\<lparr>heap := (heap w)(i \<mapsto> t)\<rparr>"

definition free_tty :: "nat \<Rightarrow> ttys \<Rightarrow> ttys" where
  "free_tty i w = w\<lparr>heap := (heap w)(i := None)\<rparr>"

definition new_tty :: "tty \<Rightarrow> ttys \<Rightarrow> nat \<times> ttys" where
  "new_tty t w = (next_id w, put_tty (next_id w) t (w\<lparr>next_id := next_id w + 1\<rparr>))"

section \<open>Pseudoterminals\<close>

definition pty_slave_init_inode :: "caller \<Rightarrow> tty \<Rightarrow> tty" where
  "pty_slave_init_inode c t = t\<lparr>pty_uid := c_euid c, pty_gid := c_egid c, pty_perms := 0x190\<rparr>"

text \<open>The allocation of the slave is not checked: without memory the next line writes through a null pointer.\<close>

definition pty_master_init :: "caller \<Rightarrow> nat \<Rightarrow> ttys \<Rightarrow> ttys option" where
  "pty_master_init c m w = do {
     mt \<leftarrow> heap w m;
     let mt1 = mt\<lparr>termios := (termios mt)\<lparr>iflags := 0, oflags := 0, lflags := 0\<rparr>\<rparr>;
     slave \<leftarrow> tty_alloc (c_alloc c) (c_junk c) Pty_slave TTY_PSEUDO_SLAVE_MAJOR (tty_num mt);
     let (s, w1) = new_tty (slave\<lparr>tty_refcount := 1\<rparr>) w;
     w2 \<leftarrow> put_slot Pty_slave (tty_num mt) (Tty_at s) w1;
     st \<leftarrow> heap w2 s;
     Some (put_tty s (pty_slave_init_inode c (st\<lparr>pty_other := Some m, pty_locked := True\<rparr>))
            (put_tty m (mt1\<lparr>pty_other := Some s\<rparr>) w2))
   }"

definition pty_hangup_other :: "nat \<Rightarrow> ttys \<Rightarrow> ttys option" where
  "pty_hangup_other i w = do {
     t \<leftarrow> heap w i;
     (case pty_other t of
        None \<Rightarrow> Some w
      | Some p \<Rightarrow> do { pt \<leftarrow> heap w p; Some (put_tty p (tty_hangup pt) w) })
   }"

text \<open>
  Dropping a reference: the terminal is freed with the last one. A slave and an ordinary terminal do not
  drop others; a master drops its slave.
\<close>

definition drop_ref :: "(nat \<Rightarrow> ttys \<Rightarrow> ttys option) \<Rightarrow> nat \<Rightarrow> ttys \<Rightarrow> ttys option" where
  "drop_ref cleanup i w = do {
     t \<leftarrow> heap w i;
     if tty_refcount t = 1 then do {
       w1 \<leftarrow> cleanup i (put_tty i (t\<lparr>tty_refcount := 0\<rparr>) w);
       w2 \<leftarrow> put_slot (driver t) (tty_num t) No_tty w1;
       Some (free_tty i w2)
     }
     else if tty_refcount t = 0 then None
     else Some (put_tty i (t\<lparr>tty_refcount := tty_refcount t - 1\<rparr>) w)
   }"

definition plain_cleanup :: "nat \<Rightarrow> ttys \<Rightarrow> ttys option" where
  "plain_cleanup i w = do {
     t \<leftarrow> heap w i;
     (case driver t of
        Pty_slave \<Rightarrow> pty_hangup_other i w
      | Pty_master \<Rightarrow> None
      | Other_driver k \<Rightarrow> Some (put_tty i (op_cleanup (drv_ops w k) t) w))
   }"

definition pty_master_cleanup :: "nat \<Rightarrow> ttys \<Rightarrow> ttys option" where
  "pty_master_cleanup m w = do {
     w1 \<leftarrow> pty_hangup_other m w;
     mt \<leftarrow> heap w1 m;
     s \<leftarrow> pty_other mt;
     st \<leftarrow> heap w1 s;
     drop_ref plain_cleanup s (put_tty s (st\<lparr>pty_other := None\<rparr>) w1)
   }"

definition tty_cleanup :: "nat \<Rightarrow> ttys \<Rightarrow> ttys option" where
  "tty_cleanup i w = do {
     t \<leftarrow> heap w i;
     if driver t = Pty_master then pty_master_cleanup i w else plain_cleanup i w
   }"

definition tty_release :: "nat \<Rightarrow> ttys \<Rightarrow> ttys option" where
  "tty_release = drop_ref tty_cleanup"

definition pty_slave_open :: "tty \<Rightarrow> unit result" where
  "pty_slave_open t = (if pty_other t = None then Inl EIO else if pty_locked t then Inl EIO else Inr ())"

definition pty_slave_close :: "nat \<Rightarrow> ttys \<Rightarrow> ttys option" where
  "pty_slave_close i w = do {
     t \<leftarrow> heap w i;
     if tty_refcount t - 1 = (if session t \<noteq> 0 then 2 else 1) then pty_hangup_other i w else Some w
   }"

definition pty_master_ioctl :: "nat \<Rightarrow> ioctl \<Rightarrow> ttys \<Rightarrow> (ioctl_out result \<times> ttys) option" where
  "pty_master_ioctl m c w = do {
     t \<leftarrow> heap w m;
     s \<leftarrow> pty_other t;
     st \<leftarrow> heap w s;
     Some (case c of
         Tiocsptlck v \<Rightarrow> (Inr No_out, put_tty s (st\<lparr>pty_locked := (v \<noteq> 0)\<rparr>) w)
       | Tiocgptn \<Rightarrow> (Inr (Int_out (tty_num st)), w)
       | Tiocpkt v \<Rightarrow> (Inr No_out, put_tty m (t\<lparr>packet_mode := (v \<noteq> 0)\<rparr>) w)
       | Tiocgpkt \<Rightarrow> (Inr (Int_out (of_bool (packet_mode t))), w)
       | _ \<Rightarrow> (Inl ENOTTY, w))
   }"

definition pty_is_half_closed_master :: "nat \<Rightarrow> ttys \<Rightarrow> bool option" where
  "pty_is_half_closed_master i w = do {
     t \<leftarrow> heap w i;
     if driver t \<noteq> Pty_master then Some False
     else do {
       s \<leftarrow> pty_other t;
       st \<leftarrow> heap w s;
       Some (ever_opened st \<and> (tty_refcount st = 1 \<or> hung_up st))
     }
   }"

section \<open>Opening and closing\<close>

definition driver_init :: "caller \<Rightarrow> nat \<Rightarrow> ttys \<Rightarrow> (unit result \<times> ttys) option" where
  "driver_init c i w = do {
     t \<leftarrow> heap w i;
     (case driver t of
        Pty_master \<Rightarrow> map_option (Pair (Inr ())) (pty_master_init c i w)
      | Pty_slave \<Rightarrow> Some (Inl EIO, w)
      | Other_driver k \<Rightarrow> Some (op_init (drv_ops w k) t, w))
   }"

definition find_slot :: "tty_driver \<Rightarrow> nat \<Rightarrow> ttys \<Rightarrow> slot option" where
  "find_slot drv num w = (if num < length (table w drv) then Some (table w drv ! num) else None)"

definition tty_get :: "caller \<Rightarrow> tty_driver \<Rightarrow> nat \<Rightarrow> nat \<Rightarrow> ttys \<Rightarrow> (nat result \<times> ttys) option" where
  "tty_get c drv type num w = do {
     s \<leftarrow> find_slot drv num w;
     (r, w1) \<leftarrow> (case s of
         Tty_at i \<Rightarrow> Some (Inr i, w)
       | _ \<Rightarrow>
           (case tty_alloc (c_alloc c) (c_junk c) drv type num of
              None \<Rightarrow> Some (Inl ENOMEM, w)
            | Some t \<Rightarrow> do {
                let (i, w1) = new_tty t w;
                (r, w2) \<leftarrow> driver_init c i w1;
                (case r of
                   Inl e \<Rightarrow> Some (Inl e, w2)
                 | Inr _ \<Rightarrow> do { w3 \<leftarrow> put_slot drv num (Tty_at i) w2; Some (Inr i, w3) })
              }));
     (case r of
        Inl e \<Rightarrow> Some (Inl e, w1)
      | Inr i \<Rightarrow> do {
          t \<leftarrow> heap w1 i;
          Some (Inr i, put_tty i (t\<lparr>tty_refcount := tty_refcount t + 1, ever_opened := True\<rparr>) w1)
        })
   }"

definition tty_set_controlling :: "nat \<Rightarrow> nat \<Rightarrow> ttys \<Rightarrow> ttys option" where
  "tty_set_controlling g i w = do {
     t \<leftarrow> heap w i;
     let gr = groups w g;
     Some (if g_tty gr = None
           then put_tty i (t\<lparr>tty_refcount := tty_refcount t + 1, session := g_sid gr, fg_group := g_pgid gr\<rparr>)
                  (w\<lparr>groups := (groups w)(g := gr\<lparr>g_tty := Some i\<rparr>)\<rparr>)
           else w)
   }"

text \<open>\<open>noctty\<close>: the descriptor has \<open>O_NOCTTY\<close>.\<close>

definition tty_open :: "caller \<Rightarrow> bool \<Rightarrow> nat \<Rightarrow> ttys \<Rightarrow> ttys option" where
  "tty_open c noctty i w = do {
     t \<leftarrow> heap w i;
     if \<not> noctty \<and> session t = 0 \<and> g_sid (groups w (c_group c)) = c_pid c
     then tty_set_controlling (c_group c) i w else Some w
   }"

text \<open>The first free number, reserved; the write is not guarded against a full table.\<close>

definition pty_reserve_next :: "ttys \<Rightarrow> (nat \<times> ttys) option" where
  "pty_reserve_next w =
     (let n = length (takeWhile (\<lambda>s. s \<noteq> No_tty) (take MAX_PTYS (slaves w))) in
      map_option (Pair n) (put_slot Pty_slave n Reserved w))"

definition ptmx_open :: "caller \<Rightarrow> bool \<Rightarrow> ttys \<Rightarrow> (nat result \<times> ttys) option" where
  "ptmx_open c noctty w = do {
     (n, w1) \<leftarrow> pty_reserve_next w;
     if n = MAX_PTYS then Some (Inl ENOSPC, w1)
     else do {
       (r, w2) \<leftarrow> tty_get c Pty_master TTY_PSEUDO_MASTER_MAJOR n w1;
       (case r of
          Inl e \<Rightarrow> Some (Inl e, w2)
        | Inr m \<Rightarrow> do { w3 \<leftarrow> tty_open c noctty m w2; Some (Inr m, w3) })
     }
   }"

definition pty_open_fake :: "caller \<Rightarrow> nat \<Rightarrow> ttys \<Rightarrow> (nat result \<times> ttys) option" where
  "pty_open_fake c k w = do {
     (n, w1) \<leftarrow> pty_reserve_next w;
     if n = MAX_PTYS then Some (Inl ENOSPC, w1)
     else do {
       (r, w2) \<leftarrow> tty_get c (Other_driver k) TTY_PSEUDO_SLAVE_MAJOR n (w1\<lparr>fakes := insert k (fakes w1)\<rparr>);
       (case r of
          Inl e \<Rightarrow> Some (Inl e, w2)
        | Inr i \<Rightarrow> do { t \<leftarrow> heap w2 i; Some (Inr i, put_tty i (pty_slave_init_inode c t) w2) })
     }
   }"

definition driver_open :: "nat \<Rightarrow> ttys \<Rightarrow> unit result option" where
  "driver_open i w = do {
     t \<leftarrow> heap w i;
     Some (case driver t of
        Pty_master \<Rightarrow> Inl EIO
      | Pty_slave \<Rightarrow> pty_slave_open t
      | Other_driver k \<Rightarrow> op_open (drv_ops w k) t)
   }"

text \<open>
  \<open>drivers\<close> is the table of drivers by major number; \<open>console\<close> the device of \<^verbatim>\<open>/dev/console\<close>, which must
  not be \<^verbatim>\<open>/dev/console\<close> itself: the code recurses, the model gives up.
\<close>

definition open_got :: "caller \<Rightarrow> bool \<Rightarrow> nat \<Rightarrow> ttys \<Rightarrow> (nat result \<times> ttys) option" where
  "open_got c noctty i w = do {
     r \<leftarrow> driver_open i w;
     (case r of
        Inl e \<Rightarrow> do { w1 \<leftarrow> tty_release i w; Some (Inl e, w1) }
      | Inr _ \<Rightarrow> do { w1 \<leftarrow> tty_open c noctty i w; Some (Inr i, w1) })
   }"

definition open_driver_tty ::
  "(nat \<Rightarrow> tty_driver option) \<Rightarrow> caller \<Rightarrow> bool \<Rightarrow> nat \<Rightarrow> nat \<Rightarrow> ttys \<Rightarrow> (nat result \<times> ttys) option" where
  "open_driver_tty drivers c noctty major minor w = do {
     drv \<leftarrow> drivers major;
     (r, w1) \<leftarrow> tty_get c drv major minor w;
     (case r of Inl e \<Rightarrow> Some (Inl e, w1) | Inr i \<Rightarrow> open_got c noctty i w1)
   }"

definition tty_device_open ::
  "(nat \<Rightarrow> tty_driver option) \<Rightarrow> nat \<times> nat \<Rightarrow> caller \<Rightarrow> bool \<Rightarrow> nat \<Rightarrow> nat \<Rightarrow> ttys \<Rightarrow> (nat result \<times> ttys) option" where
  "tty_device_open drivers console c noctty major minor w =
     (if major \<noteq> TTY_ALTERNATE_MAJOR then open_driver_tty drivers c noctty major minor w
      else if minor = DEV_TTY_MINOR then
        (case g_tty (groups w (c_group c)) of
           None \<Rightarrow> Some (Inl ENXIO, w)
         | Some i \<Rightarrow> do {
             t \<leftarrow> heap w i;
             open_got c noctty i (put_tty i (t\<lparr>tty_refcount := tty_refcount t + 1\<rparr>) w)
           })
      else if minor = DEV_CONSOLE_MINOR then
        (if fst console = TTY_ALTERNATE_MAJOR then None
         else open_driver_tty drivers c noctty (fst console) (snd console) w)
      else if minor = DEV_PTMX_MINOR then ptmx_open c noctty w
      else Some (Inl ENXIO, w))"

definition driver_close :: "nat \<Rightarrow> ttys \<Rightarrow> ttys option" where
  "driver_close i w = do {
     t \<leftarrow> heap w i;
     (case driver t of
        Pty_master \<Rightarrow> Some w
      | Pty_slave \<Rightarrow> pty_slave_close i w
      | Other_driver k \<Rightarrow> Some (put_tty i (op_close (drv_ops w k) t) w))
   }"

definition tty_close :: "nat \<Rightarrow> ttys \<Rightarrow> ttys option" where
  "tty_close i w = do { w1 \<leftarrow> driver_close i w; tty_release i w1 }"

section \<open>Ioctls\<close>

text \<open>\<open>members\<close> are the thread groups of the terminal's session, when the session exists.\<close>

fun steal :: "nat \<Rightarrow> nat list \<Rightarrow> ttys \<Rightarrow> ttys option" where
  "steal i [] w = Some w"
| "steal i (g # gs) w = do {
     t \<leftarrow> heap w i;
     steal i gs (if g_tty (groups w g) = Some i
                 then put_tty i (t\<lparr>tty_refcount := tty_refcount t - 1\<rparr>)
                        (w\<lparr>groups := (groups w)(g := (groups w g)\<lparr>g_tty := None\<rparr>)\<rparr>)
                 else w)
   }"

definition tiocsctty :: "(nat \<Rightarrow> nat list option) \<Rightarrow> caller \<Rightarrow> nat \<Rightarrow> u64 \<Rightarrow> ttys \<Rightarrow> (unit result \<times> ttys) option" where
  "tiocsctty members c i force w = do {
     t \<leftarrow> heap w i;
     let gr = groups w (c_group c);
     if g_sid gr = c_pid c \<and> g_sid gr = session t then Some (Inr (), w)
     else if g_tty gr \<noteq> None then Some (Inl EPERM, w)
     else if session t \<noteq> 0 then
       (if force = 1 \<and> c_euid c = 0
        then do {
          gs \<leftarrow> members (session t);
          w1 \<leftarrow> steal i gs w;
          w2 \<leftarrow> tty_set_controlling (c_group c) i w1;
          Some (Inr (), w2)
        }
        else Some (Inl EPERM, w))
     else do { w2 \<leftarrow> tty_set_controlling (c_group c) i w; Some (Inr (), w2) }
   }"

definition get_slave_side_tty :: "nat \<Rightarrow> ttys \<Rightarrow> nat option" where
  "get_slave_side_tty i w = do {
     t \<leftarrow> heap w i;
     if tty_type t = TTY_PSEUDO_MASTER_MAJOR then pty_other t else Some i
   }"

definition tiocgpgrp :: "caller \<Rightarrow> nat \<Rightarrow> ttys \<Rightarrow> nat result option" where
  "tiocgpgrp c i w = do {
     s \<leftarrow> get_slave_side_tty i w;
     st \<leftarrow> heap w s;
     Some (if i = s \<and> (g_tty (groups w (c_group c)) \<noteq> Some s \<or> fg_group st = 0) then Inl ENOTTY
           else Inr (fg_group st))
   }"

definition mode_ioctl_at :: "nat \<Rightarrow> ioctl \<Rightarrow> ttys \<Rightarrow> (ioctl_out result \<times> ttys \<times> (nat \<times> nat) list) option" where
  "mode_ioctl_at i c w = do {
     t \<leftarrow> heap w i;
     s \<leftarrow> (if driver t = Pty_master then pty_other t else Some i);
     st \<leftarrow> heap w s;
     Some (let (r, st', sigs) = tty_mode_ioctl st c in (r, put_tty s st' w, sigs))
   }"

definition driver_ioctl :: "nat \<Rightarrow> ioctl \<Rightarrow> ttys \<Rightarrow> (ioctl_out result \<times> ttys) option" where
  "driver_ioctl i c w = do {
     t \<leftarrow> heap w i;
     (case driver t of
        Pty_master \<Rightarrow> pty_master_ioctl i c w
      | Pty_slave \<Rightarrow> Some (Inl ENOTTY, w)
      | Other_driver k \<Rightarrow>
          (case op_ioctl (drv_ops w k) of
             None \<Rightarrow> Some (Inl ENOTTY, w)
           | Some f \<Rightarrow> Some (let (r, t') = f t c in (r, put_tty i t' w))))
   }"

definition tty_ioctl ::
  "(nat \<Rightarrow> nat list option) \<Rightarrow> caller \<Rightarrow> nat \<Rightarrow> ioctl \<Rightarrow> ttys \<Rightarrow> (ioctl_out result \<times> ttys \<times> (nat \<times> nat) list) option" where
  "tty_ioctl members cl i c w = do {
     t \<leftarrow> heap w i;
     if hung_up t then Some (Inl (case c of Tiocspgrp _ \<Rightarrow> ENOTTY | _ \<Rightarrow> EIO), w, [])
     else (case c of
         Tcflsh a \<Rightarrow> Some (if a = 0 \<or> a = 2 then (Inr No_out, put_tty i (tty_flush t) w, [])
                          else if a = 1 then (Inr No_out, w, []) else (Inl EINVAL, w, []))
       | Tiocsctty a \<Rightarrow> do {
           (r, w') \<leftarrow> tiocsctty members cl i a w;
           Some (map_sum id (\<lambda>_. No_out) r, w', [])
         }
       | Tiocgpgrp \<Rightarrow> do {
           r \<leftarrow> tiocgpgrp cl i w;
           Some (map_sum id Int_out r, w, [])
         }
       | Tiocspgrp g \<Rightarrow>
           Some (if g_tty (groups w (c_group cl)) \<noteq> Some i \<or> g_sid (groups w (c_group cl)) \<noteq> session t
                 then (Inl ENOTTY, w, [])
                 else (Inr No_out, put_tty i (t\<lparr>fg_group := unat g\<rparr>) w, []))
       | Fionread \<Rightarrow> Some (Inr (Int_out (bufsize t)), w, [])
       | _ \<Rightarrow> do {
           (r, w', sigs) \<leftarrow> mode_ioctl_at i c w;
           if r = Inl ENOTTY then do { (r', w'') \<leftarrow> driver_ioctl i c w'; Some (r', w'', sigs) }
           else Some (r, w', sigs)
         })
   }"

section \<open>The file system of slaves\<close>

definition devpts_pty_exists :: "int \<Rightarrow> ttys \<Rightarrow> bool option" where
  "devpts_pty_exists n w =
     (if n < 0 \<or> n > int MAX_PTYS then Some False
      else map_option (\<lambda>s. s \<noteq> No_tty) (find_slot Pty_slave (nat n) w))"

text \<open>Decimal digits of a path component; \<open>atol\<close> of a number past \<open>LONG_MAX\<close> is \<open>LONG_MAX\<close>.\<close>

definition digits_value :: "string \<Rightarrow> nat" where
  "digits_value s = foldl (\<lambda>n c. n * 10 + (of_char c - 48)) 0 s"

definition is_digit :: "char \<Rightarrow> bool" where
  "is_digit c \<longleftrightarrow> 48 \<le> (of_char c :: nat) \<and> (of_char c :: nat) \<le> 57"

definition devpts_get_pty_num :: "string \<Rightarrow> ttys \<Rightarrow> int result option" where
  "devpts_get_pty_num path w =
     (case path of
        [] \<Rightarrow> Some (Inr (-1))
      | c # name \<Rightarrow>
          if c \<noteq> CHR ''/'' \<or> name = [] \<or> CHR ''/'' \<in> set name then Some (Inl ENOENT)
          else if \<not> list_all is_digit name then Some (Inl ENOENT)
          else if digits_value name > 2147483647 then Some (Inl ENOENT)
          else do {
            ex \<leftarrow> devpts_pty_exists (int (digits_value name)) w;
            Some (if ex then Inr (int (digits_value name)) else Inl ENOENT)
          })"

record pty_stat =
  ps_mode :: u32
  ps_uid :: u32
  ps_gid :: u32
  ps_inode :: nat
  ps_rdev :: "nat \<times> nat"

definition devpts_stat_num :: "int \<Rightarrow> ttys \<Rightarrow> pty_stat option" where
  "devpts_stat_num n w =
     (if n = -1 then Some \<lparr>ps_mode = 0x41ed, ps_uid = 0, ps_gid = 0, ps_inode = 1, ps_rdev = (0, 0)\<rparr>
      else do {
        s \<leftarrow> find_slot Pty_slave (nat n) w;
        i \<leftarrow> (case s of Tty_at i \<Rightarrow> Some i | _ \<Rightarrow> None);
        t \<leftarrow> heap w i;
        Some \<lparr>ps_mode = 0x2000 OR ucast (pty_perms t), ps_uid = pty_uid t, ps_gid = pty_gid t, ps_inode = nat n + 3,
             ps_rdev = (TTY_PSEUDO_SLAVE_MAJOR, nat n)\<rparr>
      })"

datatype pty_attr = Attr_uid u32 | Attr_gid u32 | Attr_mode u16 | Attr_size

definition devpts_setattr_num :: "int \<Rightarrow> pty_attr \<Rightarrow> ttys \<Rightarrow> (unit result \<times> ttys) option" where
  "devpts_setattr_num n a w =
     (if n = -1 then Some (Inl EROFS, w)
      else if a = Attr_size then Some (Inl EINVAL, w)
      else do {
        s \<leftarrow> find_slot Pty_slave (nat n) w;
        i \<leftarrow> (case s of Tty_at i \<Rightarrow> Some i | _ \<Rightarrow> None);
        t \<leftarrow> heap w i;
        Some (Inr (), put_tty i (case a of Attr_uid u \<Rightarrow> t\<lparr>pty_uid := u\<rparr> | Attr_gid g \<Rightarrow> t\<lparr>pty_gid := g\<rparr>
                                 | Attr_mode m \<Rightarrow> t\<lparr>pty_perms := m\<rparr> | Attr_size \<Rightarrow> t) w)
      })"

definition devpts_stat :: "string \<Rightarrow> ttys \<Rightarrow> pty_stat result option" where
  "devpts_stat path w = do {
     r \<leftarrow> devpts_get_pty_num path w;
     (case r of Inl e \<Rightarrow> Some (Inl ENOENT) | Inr n \<Rightarrow> map_option Inr (devpts_stat_num n w))
   }"

text \<open>The result of the change is dropped: only a missing pty is an error.\<close>

definition devpts_setattr :: "string \<Rightarrow> pty_attr \<Rightarrow> ttys \<Rightarrow> (unit result \<times> ttys) option" where
  "devpts_setattr path a w = do {
     r \<leftarrow> devpts_get_pty_num path w;
     (case r of
        Inl e \<Rightarrow> Some (Inl ENOENT, w)
      | Inr n \<Rightarrow> do { (_, w') \<leftarrow> devpts_setattr_num n a w; Some (Inr (), w') })
   }"

text \<open>The next entry of the root from an offset: its number and the new offset.\<close>

definition devpts_readdir :: "nat \<Rightarrow> ttys \<Rightarrow> (nat \<times> nat) option" where
  "devpts_readdir off w =
     (case find (\<lambda>n. devpts_pty_exists (int n) w = Some True) [off..<MAX_PTYS] of
        None \<Rightarrow> None
      | Some n \<Rightarrow> Some (n, n + 1))"

end
