(* ===== verification/Float80_Props.thy ===== *)
theory Float80_Props
  imports Float80_Rounding
begin

text \<open>
  Properties of the 80-bit format: correct rounding of the shift on which all operations rest, and
  integers through the format and back.
\<close>

section \<open>Integers\<close>

lemma clzl_bounds:
  assumes "m \<noteq> 0"
  shows "clzl m \<le> 63" "2 ^ 63 \<le> unat m * 2 ^ clzl m" "unat m * 2 ^ clzl m < 2 ^ 64"
proof -
  have pos: "0 < unat m" using assms by (simp add: unat_gt_0)
  have b: "bit_length (unat m) \<le> 64" by (rule bit_length_le) (use unat_lt [of m] in simp)
  have B: "2 ^ (bit_length (unat m) - 1) \<le> unat m" "unat m < 2 ^ bit_length (unat m)" using bit_length_bounds [OF pos] by auto
  have p: "0 < bit_length (unat m)" using bit_length_pos [OF pos] by simp
  show "clzl m \<le> 63" using p by (simp add: clzl_def)
  have e: "(bit_length (unat m) - 1) + clzl m = 63" "bit_length (unat m) + clzl m = 64" using b p by (simp_all add: clzl_def)
  have "2 ^ (bit_length (unat m) - 1) * 2 ^ clzl m \<le> unat m * 2 ^ clzl m" using B(1) by (rule mult_right_mono) simp
  then show "2 ^ 63 \<le> unat m * 2 ^ clzl m" unfolding power_add [symmetric] e(1) .
  have "unat m * 2 ^ clzl m < 2 ^ bit_length (unat m) * 2 ^ clzl m" using B(2) by simp
  then show "unat m * 2 ^ clzl m < 2 ^ 64" unfolding power_add [symmetric] e(2) .
qed

lemma shift_back:
  assumes "shift \<le> 63" "unat s = m * 2 ^ shift" "m < 2 ^ 64"
  shows "unat (ucast (u128_shift_right_round rm (ucast (s :: u64)) shift sign) :: u64) = m"
proof -
  have "unat (ucast s :: u128) = unat s" using unat_lt [of s] by (simp add: unat_ucast)
  then have "unat (u128_shift_right_round rm (ucast s) shift sign) = round_div rm sign (m * 2 ^ shift) (2 ^ shift)"
    using u128_shift_right_round_spec [of shift rm "ucast s" sign] assms(1,2) by simp
  also have "\<dots> = m" by (simp add: round_div_def)
  finally show ?thesis using assms(3) by (simp add: unat_ucast)
qed

lemma int_through_f80: "f80_to_int rm (f80_from_int i) = i"
proof (cases "i = 0")
  case True
  have "f80_from_int i = \<lparr>signif = 0, fexp = 0, fsign = False\<rparr>"
    using True by (simp add: f80_from_int_def f80_normalize_def EXP_DENORMAL_def)
  then show ?thesis using True
    by (simp add: f80_to_int_def f80_is_supported_def EXP_DENORMAL_def bias_def BIAS80_def f80_shift_right_def
        u128_shift_right_round_def)
next
  case False
  define m where "m = (if sint i < 0 then - i else i)"
  have m0: "m \<noteq> 0" using False by (simp add: m_def)
  define k where "k = clzl m"
  note K = clzl_bounds [OF m0, folded k_def]
  have e: "bias 63 = 16446" by (simp add: bias_def BIAS80_def)
  have ue: "uint (word_of_int (bias 63) :: 15 word) = 16446" by (simp add: e uint_word_of_int)
  define g where "g = \<lparr>signif = push_bit k m, fexp = word_of_int (bias 63) - of_nat k, fsign = sint i < 0\<rparr>"
  have f: "f80_from_int i = g"
  proof -
    have "(word_of_int (bias 63) :: 15 word) \<noteq> EXP_DENORMAL" using ue by (auto simp: EXP_DENORMAL_def)
    moreover have "\<not> (16446 :: int) - int k < EXP_MIN" using K(1) by (simp add: EXP_MIN_def)
    ultimately show ?thesis
      using False m0 unfolding f80_from_int_def f80_normalize_def Let_def m_def [symmetric]
      by (simp add: ue k_def f80_shift_left_def g_def)
  qed
  have ug: "uint (fexp g) = 16446 - int k"
    using K(1) by (simp add: g_def uint_word_ariths ue unsigned_of_nat take_bit_nat_eq_self)
  have sg: "unat (signif g) = unat m * 2 ^ k" using K(3) by (simp add: g_def unat_push_bit)
  have "drop_bit 63 (signif g) = 1"
  proof -
    have "unat (drop_bit 63 (signif g)) = unat m * 2 ^ k div 2 ^ 63" by (simp only: unat_drop_bit sg)
    also have "\<dots> = 1" using K(2,3) by (intro div_nat_eqI) simp_all
    finally show ?thesis by (metis unat_1 word_unat_eq_iff)
  qed
  moreover have "fexp g \<noteq> EXP_DENORMAL" using ug K(1) by (auto simp: EXP_DENORMAL_def)
  ultimately have sup: "f80_is_supported g" by (simp add: f80_is_supported_def)
  have sh: "nat (bias 63 - uint (fexp g)) = k" by (simp add: ug e)
  have "unat (signif (f80_shift_right rm g k)) = unat m"
    using shift_back [OF K(1) sg, of rm "fsign g"] unat_lt [of m] by (simp add: f80_shift_right_def)
  then have s: "signif (f80_shift_right rm g k) = m" by (simp add: word_unat_eq_iff)
  have fs: "fsign (f80_shift_right rm g k) = fsign g" by (simp add: f80_shift_right_def)
  have "f80_to_int rm g = (if \<not> fsign g then m else - m)"
    using sup ug s fs unfolding f80_to_int_def sh Let_def by (simp add: e)
  then show ?thesis using f by (simp add: g_def m_def)
qed

section \<open>Properties\<close>

text \<open>
  C32. A 64-bit integer converted to the 80-bit format and back is unchanged, for every integer,
  \<open>INT64_MIN\<close> included, and in every rounding mode: the format holds all of them exactly.
\<close>

theorem f80_int_roundtrip: "f80_to_int rm (f80_from_int i) = i"
  by (rule int_through_f80)

text \<open>
  C22. The shift on which every operation rests rounds correctly: for shifts of up to 65 places the
  result is the exact quotient rounded in the current mode, ties to even. Beyond, it does not: the bits
  below the guard bit are kept in a 64-bit variable, and a shift by 66 rounds \<open>2 ^ 64\<close> up to 0.
\<close>

theorem shift_right_round_correct:
  "(shift \<le> 65 \<longrightarrow> unat (u128_shift_right_round rm i shift sign) = round_div rm sign (unat i) (2 ^ shift))
   \<and> u128_shift_right_round round_up (push_bit 64 1) 66 False = 0
   \<and> round_div round_up False (2 ^ 64) (2 ^ 66) = 1"
proof -
  have "(ucast (push_bit 64 1 AND NOT (push_bit 65 (- 1)) :: u128) :: u64) = 0"
    by (rule bit_word_eqI) (simp only: bit_simps, simp)
  moreover have "drop_bit 65 (push_bit 64 1 :: u128) AND 1 = 0" "drop_bit 66 (push_bit 64 1 :: u128) = 0"
    by simp_all
  ultimately have "u128_shift_right_round round_up (push_bit 64 1) 66 False = 0"
    unfolding u128_shift_right_round_def Let_def by simp
  then show ?thesis using u128_shift_right_round_spec [of shift rm i sign]
    by (simp add: round_div_def round_away_from_zero_def)
qed

theorem shift_right_round_correct_witness:
  "unat (u128_shift_right_round round_to_nearest 6 2 False) = round_div round_to_nearest False (unat (6 :: u128)) (2 ^ 2)"
  using shift_right_round_correct [of 2 round_to_nearest 6 False] by simp

end
