(* ===== verification/Fpu_Props.thy ===== *)
theory Fpu_Props
  imports Fpu Float80_Props
begin

text \<open>
  The register stack as a list of eight values, exactness of the lazy flags, saving and restoring the
  state, and integers through the 80-bit format.
\<close>

section \<open>The top of the stack\<close>

lemma top_bits: "take_bit 3 (drop_bit 11 ((w AND NOT (push_bit 11 (mask 3))) OR push_bit 11 (take_bit 3 v))) = take_bit 3 v"
  for w v :: u16
  by (rule bit_word_eqI) (auto simp: bit_simps)

lemma ftop_set_top [simp]: "ftop (set_top t cpu) = t mod 8"
proof -
  have f: "fsw (set_top t cpu) = (fsw cpu AND NOT (push_bit 11 (mask 3))) OR push_bit 11 (take_bit 3 (of_nat t))"
    by (simp only: set_top_def) simp
  have "ftop (set_top t cpu) = unat (take_bit 3 (of_nat t :: u16))" unfolding ftop_def f top_bits ..
  also have "\<dots> = unat (of_nat t :: u16) mod 2 ^ 3" by (rule unat_take_bit)
  also have "\<dots> = t mod 2 ^ 16 mod 2 ^ 3" by (simp add: unsigned_of_nat take_bit_eq_mod)
  also have "\<dots> = t mod 8" using mod_mod_cancel [of "8 :: nat" "2 ^ 16" t] by (simp add: dvd_def)
  finally show ?thesis .
qed

lemma ftop_less: "ftop cpu < 8"
proof -
  have "ftop cpu = unat (drop_bit 11 (fsw cpu)) mod 2 ^ 3" by (simp only: ftop_def unat_take_bit)
  then show ?thesis by simp
qed

lemma fp_set_top [simp]: "fp (set_top t cpu) = fp cpu" "rmode (set_top t cpu) = rmode cpu" "fcw (set_top t cpu) = fcw cpu"
  by (simp_all add: set_top_def)

lemma put_ST_fields [simp]: "ftop (put_ST i f cpu) = ftop cpu" "length (fp (put_ST i f cpu)) = length (fp cpu)"
    "rmode (put_ST i f cpu) = rmode cpu" "fsw (put_ST i f cpu) = fsw cpu" "fcw (put_ST i f cpu) = fcw cpu"
  by (simp_all add: put_ST_def ftop_def)

lemma slot_le: "i \<le> j \<Longrightarrow> j < 8 \<Longrightarrow> (t + i) mod 8 = (t + j) mod 8 \<Longrightarrow> i = (j::nat)"
proof -
  assume a: "i \<le> j" "j < 8" "(t + i) mod 8 = (t + j) mod 8"
  have "8 dvd (t + j) - (t + i)" by (rule mod_eq_dvd_iff_nat [THEN iffD1]) (use a in simp_all)
  then have "8 dvd j - i" by simp
  then show "i = j" using a(1,2) nat_dvd_not_less [of "j - i" 8] by (cases "i = j") simp_all
qed

lemma slot_inj:
  assumes "i < 8" "j < 8"
  shows "(t + i) mod 8 = (t + j) mod 8 \<longleftrightarrow> i = (j::nat)"
  using assms slot_le [of i j t] slot_le [of j i t] nat_le_linear [of i j] by metis

lemma ST_put_ST: "length (fp cpu) = 8 \<Longrightarrow> i < 8 \<Longrightarrow> j < 8 \<Longrightarrow> ST (put_ST i f cpu) j = (if j = i then f else ST cpu j)"
  using slot_inj [of i j "ftop cpu"] by (auto simp: ST_def put_ST_def ftop_def nth_list_update)

lemma ST_set_top: "ST (set_top t cpu) j = fp cpu ! ((t + j) mod 8)"
  by (simp add: ST_def mod_add_left_eq)

definition fstack :: "cpu_state \<Rightarrow> float80 list" where
  "fstack cpu = map (ST cpu) [0..<8]"

lemma fstack_nth: "j < 8 \<Longrightarrow> fstack cpu ! j = ST cpu j" and fstack_length [simp]: "length (fstack cpu) = 8"
  by (simp_all add: fstack_def)

lemma fstack_put: "length (fp cpu) = 8 \<Longrightarrow> i < 8 \<Longrightarrow> fstack (put_ST i f cpu) = (fstack cpu)[i := f]"
  by (rule nth_equalityI) (auto simp: fstack_nth ST_put_ST nth_list_update)

lemma fstack_pop: "fstack (set_top (ftop cpu + 1) cpu) = rotate1 (fstack cpu)"
proof (rule nth_equalityI)
  fix j assume "j < length (fstack (set_top (ftop cpu + 1) cpu))"
  then have j: "j < 8" by simp
  have "((ftop cpu + 1) mod 8 + j) mod 8 = (ftop cpu + (j + 1) mod 8) mod 8" by (simp add: mod_add_left_eq mod_add_right_eq)
  then show "fstack (set_top (ftop cpu + 1) cpu) ! j = rotate1 (fstack cpu) ! j"
    using j by (simp add: fstack_nth nth_rotate1 ST_def)
qed simp

lemma fstack_push:
  assumes "length (fp cpu) = 8"
  shows "fstack (fpu_push cpu f) = f # butlast (fstack cpu)"
proof (rule nth_equalityI)
  fix j assume "j < length (fstack (fpu_push cpu f))"
  then have j: "j < 8" by simp
  have p: "ST (fpu_push cpu f) j = (if j = 0 then f else ST (set_top (ftop cpu + 7) cpu) j)"
    unfolding fpu_push_def using assms j by (intro ST_put_ST) simp_all
  show "fstack (fpu_push cpu f) ! j = (f # butlast (fstack cpu)) ! j"
  proof (cases j)
    case 0
    then show ?thesis using p by (simp add: fstack_nth)
  next
    case (Suc i)
    have "(ftop cpu + 7 + j) mod 8 = (ftop cpu + i) mod 8" using Suc mod_add_self2 [of "ftop cpu + i" 8] by (simp add: ac_simps)
    then have "ST (set_top (ftop cpu + 7) cpu) j = ST cpu i" by (simp only: ST_set_top) (simp only: ST_def)
    then show ?thesis using p j Suc by (simp add: fstack_nth nth_butlast)
  qed
qed simp

section \<open>Flags\<close>

lemma set_fields [simp]: "res (put_flag n b c) = res c" "op1 (put_flag n b c) = op1 c" "op2 (put_flag n b c) = op2 c"
  "flags_res (put_flag n b c) = flags_res c" "cf (put_flag n b c) = cf c" "cpu_of (put_flag n b c) = cpu_of c"
  "eflags (put_flag n b c) = put_bit n b (eflags c)" "fp (put_flag n b c) = fp c" "fsw (put_flag n b c) = fsw c"
  "res (put_res n b c) = res c" "op1 (put_res n b c) = op1 c" "op2 (put_res n b c) = op2 c"
  "flags_res (put_res n b c) = put_bit n b (flags_res c)" "cf (put_res n b c) = cf c" "cpu_of (put_res n b c) = cpu_of c"
  "eflags (put_res n b c) = eflags c" "fp (put_res n b c) = fp c" "fsw (put_res n b c) = fsw c"
  by (simp_all add: put_flag_def put_res_def)

lemma collapse_fields:
  "bit (eflags (collapse_flags cpu)) n =
     (if n = ZF_bit then ZF cpu else if n = SF_bit then SF cpu else if n = PF_bit then PF cpu
      else if n = AF_bit then AF cpu else if n = OF_bit then bit (cpu_of cpu) 0 else if n = CF_bit then bit (cf cpu) 0
      else if n = 1 \<or> n = IF_bit then True else if n = 3 \<or> n = 5 then False else bit (eflags cpu) n)"
  "cf (collapse_flags cpu) = cf cpu" "cpu_of (collapse_flags cpu) = cpu_of cpu"
  "\<forall>n < 4. \<not> bit (flags_res (collapse_flags cpu)) n"
  by (auto simp: collapse_flags_def Let_def ZF_def SF_def PF_def AF_def less_Suc_eq numeral_eq_Suc)

section \<open>Properties\<close>

text \<open>
  C23. Materialising the lazily evaluated flags changes no flag: after \<open>collapse_flags\<close> every condition flag has
  the value it had, all of them and carry and overflow are in \<open>eflags\<close>, the other bits are the
  architecture's constants or unchanged; and \<open>expand_flags\<close> after it, with carry and overflow as the
  0 or 1 the code keeps in them, gives back the same flags.
\<close>

theorem collapse_flags_exact:
  assumes "cf cpu \<in> {0, 1}" "cpu_of cpu \<in> {0, 1}"
  shows "let c = collapse_flags cpu; x = expand_flags c in
      ZF c = ZF cpu \<and> SF c = SF cpu \<and> PF c = PF cpu \<and> AF c = AF cpu
    \<and> (bit (eflags c) CF_bit \<longleftrightarrow> cf cpu = 1) \<and> (bit (eflags c) OF_bit \<longleftrightarrow> cpu_of cpu = 1)
    \<and> bit (eflags c) 1 \<and> \<not> bit (eflags c) 3 \<and> \<not> bit (eflags c) 5 \<and> bit (eflags c) IF_bit
    \<and> ZF x = ZF cpu \<and> SF x = SF cpu \<and> PF x = PF cpu \<and> AF x = AF cpu \<and> cf x = cf cpu \<and> cpu_of x = cpu_of cpu"
proof -
  have z: "\<not> bit (flags_res (collapse_flags cpu)) 0" "\<not> bit (flags_res (collapse_flags cpu)) (Suc 0)"
    "\<not> bit (flags_res (collapse_flags cpu)) 2" "\<not> bit (flags_res (collapse_flags cpu)) 3"
    using collapse_fields(4) [of cpu] by simp_all
  have b: "bit (cf cpu) 0 \<longleftrightarrow> cf cpu = 1" "bit (cpu_of cpu) 0 \<longleftrightarrow> cpu_of cpu = 1" using assms by auto
  show ?thesis
    using assms b unfolding Let_def
    by (auto simp: ZF_def SF_def PF_def AF_def z collapse_fields(1-3) expand_flags_def)
qed

definition ex_cpu :: cpu_state where
  "ex_cpu = \<lparr>eflags = 0x202, cf = 1, cpu_of = 0, res = 0, op1 = 0x10, op2 = 0, flags_res = 0xf, fp = replicate 8 F80_ZERO,
             fsw = 0x1800, fcw = 0x37f, rmode = round_to_nearest\<rparr>"

theorem collapse_flags_exact_witness: "ZF (collapse_flags ex_cpu) = ZF ex_cpu \<and> ZF ex_cpu"
  using collapse_flags_exact [of ex_cpu] by (simp add: ex_cpu_def ZF_def Let_def)

text \<open>
  C14. The rotating register file is a stack: seen as the list of \<open>ST(0)\<close> to \<open>ST(7)\<close>, a push puts the
  value in front and drops the last register, a pop rotates the list, an exchange swaps two
  places, a store changes one, and an arithmetic instruction replaces its destination by the result on
  the two operands.
\<close>

theorem fpu_stack_refines:
  assumes "length (fp cpu) = 8" "i < 8" "j < 8"
  shows "fstack (fpu_push cpu f) = f # butlast (fstack cpu)
     \<and> fstack (fpu_pop cpu) = rotate1 (fstack cpu)
     \<and> fstack (fpu_xch cpu i) = (fstack cpu)[0 := fstack cpu ! i, i := fstack cpu ! 0]
     \<and> fstack (fpu_st cpu i) = (fstack cpu)[i := fstack cpu ! 0]
     \<and> fstack (fpu_arith_st op cpu i j) = (fstack cpu)[j := f80_arith op (rmode cpu) (fstack cpu ! j) (fstack cpu ! i)]"
proof (intro conjI)
  show "fstack (fpu_push cpu f) = f # butlast (fstack cpu)" by (rule fstack_push [OF assms(1)])
  show "fstack (fpu_pop cpu) = rotate1 (fstack cpu)" unfolding fpu_pop_def by (rule fstack_pop)
qed (use assms in \<open>simp_all add: fpu_xch_def fpu_st_def fpu_arith_st_def Let_def fstack_put fstack_nth\<close>)

lemma ex_cpu_stack: "fstack ex_cpu = replicate 8 F80_ZERO"
  by (rule nth_equalityI) (simp_all add: fstack_nth ST_def, simp add: ex_cpu_def)

theorem fpu_stack_refines_witness:
  "fstack (fpu_push ex_cpu F80_INF) = F80_INF # butlast (replicate 8 F80_ZERO)"
  using fpu_stack_refines [of ex_cpu 0 0 F80_INF] by (simp add: ex_cpu_stack) (simp add: ex_cpu_def)

text \<open>
Restoring a saved state (\<open>frstor\<close> of what \<open>fsave\<close> stored) brings back the control word, the status word
  with the top of the stack, and all eight registers, whatever the state before the restore; but the
  rounding mode in force stays the one before, it is not taken from the restored control word.
\<close>

lemma fold_put:
  assumes "length (fp c) = 8" "n \<le> 8"
  shows "length (fp (fold (\<lambda>i c. put_ST i (rs ! i) c) [0..<n] c)) = 8
     \<and> ftop (fold (\<lambda>i c. put_ST i (rs ! i) c) [0..<n] c) = ftop c
     \<and> fcw (fold (\<lambda>i c. put_ST i (rs ! i) c) [0..<n] c) = fcw c \<and> fsw (fold (\<lambda>i c. put_ST i (rs ! i) c) [0..<n] c) = fsw c
     \<and> rmode (fold (\<lambda>i c. put_ST i (rs ! i) c) [0..<n] c) = rmode c
     \<and> (\<forall>j < n. ST (fold (\<lambda>i c. put_ST i (rs ! i) c) [0..<n] c) j = rs ! j)"
  using assms(2)
proof (induction n)
  case (Suc n)
  then show ?case by (auto simp: assms(1) ST_put_ST less_Suc_eq)
qed (use assms in simp)

theorem fpu_save_restore:
  assumes "length (fp cpu0) = 8"
  shows "let r = fpu_restore32 cpu0 (fpu_save32 cpu) in
     fcw r = fcw cpu \<and> fsw r = fsw cpu \<and> fstack r = fstack cpu \<and> rmode r = rmode cpu0"
proof -
  let ?c = "fpu_ldenv32 cpu0 (st_env (fpu_save32 cpu))"
  have u: "ucast (ucast w :: u32) = w" for w :: u16
    by (rule bit_word_eqI) (auto simp: bit_simps)
  have c: "fcw ?c = fcw cpu" "fsw ?c = fsw cpu" "rmode ?c = rmode cpu0" "length (fp ?c) = 8"
    using assms by (simp_all add: fpu_ldenv32_def fpu_save32_def fpu_stenv32_def u)
  note F = fold_put [OF c(4), of 8 "st_regs (fpu_save32 cpu)"]
  have "fstack (fpu_restore32 cpu0 (fpu_save32 cpu)) = fstack cpu"
    unfolding fstack_def fpu_restore32_def using F by (intro map_cong) (auto simp: fpu_save32_def)
  with F c show ?thesis by (simp add: fpu_restore32_def Let_def)
qed

theorem fpu_save_restore_witness:
  "fstack (fpu_restore32 (fpu_push ex_cpu F80_INF) (fpu_save32 ex_cpu)) = fstack ex_cpu"
  using fpu_save_restore [of "fpu_push ex_cpu F80_INF" ex_cpu]
  by (simp add: Let_def fpu_push_def put_ST_def ex_cpu_def)

text \<open>
\<open>fclex\<close> clears the sign flag of the integer unit instead of the stack-fault bit: the status bit it
  should clear stays as it is, and with the flag stored in \<open>eflags\<close> a negative result becomes non-negative.
\<close>

theorem fpu_clex_clears_sign:
  "bit (fsw (fpu_clex cpu)) stf_bit = bit (fsw cpu) stf_bit
   \<and> \<not> bit (eflags (fpu_clex cpu)) SF_bit \<and> (\<forall>n \<in> {0..5} \<union> {7, 15}. \<not> bit (fsw (fpu_clex cpu)) n)"
  by (auto simp: fpu_clex_def put_fsw_def put_flag_def atLeastAtMost_iff)

text \<open>
The conditional moves look at the stored flags only: as long as a flag is evaluated lazily, the
  result it is to be computed from has no influence on whether \<open>fcmove\<close> moves.
\<close>

theorem fcmov_ignores_lazy_flags:
  "fcmov_test c (cpu\<lparr>res := r, flags_res := fr\<rparr>) = fcmov_test c cpu
   \<and> fcmov_test cmov_e (collapse_flags cpu) = ZF cpu"
  by (cases c) (simp_all add: collapse_fields)

end
