(* ===== verification/Signal_Props.thy ===== *)
theory Signal_Props
  imports Signal Fpu_Props
begin

text \<open>
  Properties of the signal model: the pending bits and the queue of a task agree whatever is sent and
  delivered, delivery takes exactly the signals that are not blocked, a return from a handler restores the
  interrupted registers and mask, a group is signalled as far as permissions allow; and the places where
  the code falls short of that.
\<close>

section \<open>Sets of signals\<close>

lemma bit_sig_mask: "sig_ok sig \<Longrightarrow> bit (sig_mask sig) n \<longleftrightarrow> n = sig - 1"
  by (auto simp: sig_mask_def sig_ok_def NUM_SIGS_def bit_simps)

lemma sigset_has_bit: "sig_ok sig \<Longrightarrow> sigset_has s sig \<longleftrightarrow> bit s (sig - 1)"
  by (auto simp: sigset_has_def tst_iff bit_sig_mask)

lemma bit_sigset_add: "sig_ok sig \<Longrightarrow> bit (sigset_add s sig) n \<longleftrightarrow> bit s n \<or> n = sig - 1"
  by (auto simp: sigset_add_def bit_simps bit_sig_mask)

lemma bit_sigset_del: "sig_ok sig \<Longrightarrow> bit (sigset_del s sig) n \<longleftrightarrow> bit s n \<and> n \<noteq> sig - 1"
  by (auto simp: sigset_del_def bit_simps bit_sig_mask dest: bit_imp_le_length)

lemma sigset_has_add:
  assumes "sig_ok a" "sig_ok b"
  shows "sigset_has (sigset_add s a) b \<longleftrightarrow> sigset_has s b \<or> b = a"
proof -
  have "b - 1 = a - 1 \<longleftrightarrow> b = a" using assms by (auto simp: sig_ok_def)
  then show ?thesis by (simp only: sigset_has_bit [OF assms(2)] bit_sigset_add [OF assms(1)])
qed

lemma sigset_has_del:
  assumes "sig_ok a" "sig_ok b"
  shows "sigset_has (sigset_del s a) b \<longleftrightarrow> sigset_has s b \<and> b \<noteq> a"
proof -
  have "b - 1 = a - 1 \<longleftrightarrow> b = a" using assms by (auto simp: sig_ok_def)
  then show ?thesis by (simp only: sigset_has_bit [OF assms(2)] bit_sigset_del [OF assms(1)])
qed

lemmas sigset_simps = sigset_has_add sigset_has_del

lemma sig_ok_kill [simp]: "sig_ok SIGKILL" "sig_ok SIGSTOP" "sig_ok SIGSEGV"
  by (simp_all add: sig_ok_def SIGKILL_def SIGSTOP_def SIGSEGV_def NUM_SIGS_def)

section \<open>The queue and the pending bits\<close>

definition queue_ok :: "task \<Rightarrow> bool" where
  "queue_ok t \<longleftrightarrow>
     (\<forall>q\<in>set (t_queue t). sig_ok (si_sig q)) \<and> distinct (map si_sig (t_queue t)) \<and>
     (\<forall>sig. sig_ok sig \<longrightarrow> sigset_has (t_pending t) sig = (sig \<in> si_sig ` set (t_queue t)))"

lemma queue_ok_cong:
  "t_queue t' = t_queue t \<Longrightarrow> t_pending t' = t_pending t \<Longrightarrow> queue_ok t' = queue_ok t"
  by (simp add: queue_ok_def)

lemma deliver_queue_ok:
  assumes "queue_ok t" "sig_ok sig"
  shows "queue_ok (fst (deliver_signal_unlocked t sig info))"
  using assms by (auto simp: queue_ok_def deliver_signal_unlocked_def Let_def sigset_simps)

lemma send_queue_ok:
  assumes "queue_ok t" "sig < NUM_SIGS"
  shows "queue_ok (send_signal sh t sig info)"
proof (cases "sig = 0")
  case True
  then show ?thesis using assms by (simp add: send_signal_def)
next
  case False
  then have "sig_ok sig" using assms by (simp add: sig_ok_def)
  then have d: "queue_ok (fst (deliver_signal_unlocked t sig info))" by (rule deliver_queue_ok [OF assms(1)])
  define t1 where "t1 = (if signal_action sh sig \<noteq> SIGNAL_IGNORE then fst (deliver_signal_unlocked t sig info) else t)"
  have "queue_ok t1" using d assms(1) by (simp add: t1_def)
  then have "queue_ok (t1\<lparr>t_stopped := False\<rparr>)" by (simp add: queue_ok_def)
  then show ?thesis using \<open>queue_ok t1\<close> assms(1) by (simp add: send_signal_def t1_def [symmetric])
qed

lemma remove1_queue:
  assumes "distinct (map si_sig (xs @ q # ys))"
  shows "remove1 q (xs @ q # ys) = xs @ ys"
  using assms by (auto simp: remove1_append remove1_idem)

lemma take_queue_ok:
  assumes "queue_ok t" "t_queue t = xs @ q # ys"
  shows "queue_ok (t\<lparr>t_queue := xs @ ys, t_pending := sigset_del (t_pending t) (si_sig q)\<rparr>)"
proof -
  have q: "sig_ok (si_sig q)" and d: "distinct (map si_sig (xs @ q # ys))"
    using assms by (auto simp: queue_ok_def)
  have *: "sigset_has (sigset_del (t_pending t) (si_sig q)) s \<longleftrightarrow> s \<in> si_sig ` set (xs @ ys)"
    if "sig_ok s" for s
  proof -
    have "sigset_has (sigset_del (t_pending t) (si_sig q)) s \<longleftrightarrow> sigset_has (t_pending t) s \<and> s \<noteq> si_sig q"
      using that q by (simp add: sigset_simps)
    also have "\<dots> \<longleftrightarrow> s \<in> si_sig ` set (xs @ q # ys) \<and> s \<noteq> si_sig q"
      using assms that by (simp only: queue_ok_def)
    also have "\<dots> \<longleftrightarrow> s \<in> si_sig ` set (xs @ ys)" using d by (auto simp: image_iff)
    finally show ?thesis .
  qed
  show ?thesis using assms * by (auto simp: queue_ok_def)
qed

lemma setup_sigcontext_eq:
  "setup_sigcontext t = (fst (setup_sigcontext t),
     t\<lparr>t_regs := (t_regs t)\<lparr>flagregs := collapse_flags (flagregs (t_regs t))\<rparr>\<rparr>)"
  by (simp add: setup_sigcontext_def Let_def)

text \<open>The frame before its address is known.\<close>

definition rt_frame_of :: "sig_env \<Rightarrow> sighand \<Rightarrow> task \<Rightarrow> siginfo \<Rightarrow> rt_sigframe" where
  "rt_frame_of env sh t info = fst (setup_rt_sigframe (se_vdso_rt env) sh t info)"

definition frame_of :: "sig_env \<Rightarrow> task \<Rightarrow> siginfo \<Rightarrow> sigframe" where
  "frame_of env t info = fst (setup_sigframe (se_vdso env) t info)"

lemma setup_rt_sigframe_eq:
  "setup_rt_sigframe (se_vdso_rt env) sh t info = (rt_frame_of env sh t info,
     t\<lparr>t_regs := (t_regs t)\<lparr>flagregs := collapse_flags (flagregs (t_regs t))\<rparr>\<rparr>)"
  by (simp add: rt_frame_of_def setup_rt_sigframe_def setup_sigcontext_def Let_def)

lemma setup_sigframe_eq:
  "setup_sigframe (se_vdso env) t info = (frame_of env t info,
     t\<lparr>t_regs := (t_regs t)\<lparr>flagregs := collapse_flags (flagregs (t_regs t))\<rparr>\<rparr>)"
  by (simp add: frame_of_def setup_sigframe_def setup_sigcontext_def Let_def)

text \<open>What running a handler leaves, for the two kinds of frames.\<close>

definition handler_blocked :: "task \<Rightarrow> sigaction \<Rightarrow> nat \<Rightarrow> u64" where
  "handler_blocked t a sig =
     (if tst (sa_flags a) SA_NODEFER then t_blocked t else sigset_add (t_blocked t) sig) OR sa_mask a"

lemma call_handler_Done:
  assumes "call_handler env sh t info = Done ((sp, fr), sh', t')"
    and a: "a = sh_action sh ! si_sig info"
    and r: "r = (t_regs t)\<lparr>flagregs := collapse_flags (flagregs (t_regs t)), eax := of_nat (si_sig info),
                  eip := sa_handler a, esp := sp\<rparr>"
  shows "sp = frame_address env sh (esp (t_regs t)) (if tst (sa_flags a) SA_SIGINFO then RT_SIGFRAME_SIZE else SIGFRAME_SIZE)"
    and "t' = t\<lparr>t_blocked := handler_blocked t a (si_sig info),
                t_regs := (if tst (sa_flags a) SA_SIGINFO
                           then r\<lparr>edx := sp + RT_SIGFRAME_INFO, ecx := sp + RT_SIGFRAME_UC\<rparr> else r)\<rparr>"
    and "fr = (if tst (sa_flags a) SA_SIGINFO
               then Rt_frame ((rt_frame_of env sh t info)\<lparr>rf_pinfo := sp + RT_SIGFRAME_INFO, rf_puc := sp + RT_SIGFRAME_UC\<rparr>)
               else Plain_frame (frame_of env t info))"
    and "sh' = (if tst (sa_flags a) SA_RESETHAND then sh\<lparr>sh_action := (sh_action sh)[si_sig info := no_action]\<rparr> else sh)"
  using assms(1)
  by (simp_all add: call_handler_def Let_def setup_rt_sigframe_eq setup_sigframe_eq a r
      handler_blocked_def no_action_def split: if_split_asm) (clarsimp simp: SIG_DFL_def)+

lemma call_handler_queue:
  assumes "call_handler env sh t info = Done (x, sh', t')"
  shows "t_queue t' = t_queue t \<and> t_pending t' = t_pending t"
proof -
  obtain sp fr where x: "x = (sp, fr)" by (cases x)
  show ?thesis using call_handler_Done(2) [OF assms [unfolded x] refl refl] by simp
qed

lemma receive_signal_queue:
  assumes "receive_signal env sh t info = Done (sh', t')"
  shows "t_queue t' = t_queue t \<and> t_pending t' = t_pending t"
  using assms call_handler_queue
  by (auto simp: receive_signal_def split: action_kind.splits outcome.splits)

lemma receive_loop_queue:
  assumes "receive_loop env blocked sh t qs = Done (sh', t')" "queue_ok t" "t_queue t = ps @ qs"
    "\<forall>p\<in>set ps. sigset_has blocked (si_sig p)"
  shows "queue_ok t' \<and> t_queue t' = filter (\<lambda>q. sigset_has blocked (si_sig q)) (t_queue t)"
  using assms
proof (induction env blocked sh t qs arbitrary: ps sh' t' rule: receive_loop.induct)
  case (1 env blocked sh t)
  then show ?case by (simp add: filter_id_conv)
next
  case (2 env blocked sh t q qs)
  show ?case
  proof (cases "sigset_has blocked (si_sig q)")
    case True
    then show ?thesis using 2(1) [OF True, of sh' t' "ps @ [q]"] "2.prems" by auto
  next
    case False
    let ?t1 = "t\<lparr>t_queue := ps @ qs, t_pending := sigset_del (t_pending t) (si_sig q)\<rparr>"
    have rm: "remove1 q (t_queue t) = ps @ qs"
      using "2.prems"(2,3) by (simp only: queue_ok_def remove1_queue)
    obtain sh1 t1 where r: "receive_signal env sh ?t1 q = Done (sh1, t1)"
      and l: "receive_loop env blocked sh1 t1 qs = Done (sh', t')"
      and nt: "\<not> (t_traced ?t1 \<and> si_sig q \<noteq> SIGKILL)"
      using "2.prems"(1) False by (auto simp: Let_def rm split: if_splits outcome.splits)
    note rq = receive_signal_queue [OF r]
    have q1: "queue_ok t1"
      using take_queue_ok [OF "2.prems"(2,3)] rq queue_ok_cong [of t1 ?t1] by simp
    have e: "t_queue t1 = ps @ qs" using rq by simp
    have "queue_ok t' \<and> t_queue t' = filter (\<lambda>q. sigset_has blocked (si_sig q)) (t_queue t1)"
      by (rule 2(2) [OF False refl, of "(sh1, t1)" sh1 t1 sh' t' ps])
        (use nt r l q1 e "2.prems"(4) rm in simp_all)
    then show ?thesis using e "2.prems"(3) False by simp
  qed
qed


lemma unblocked_queue_ok: "queue_ok t \<Longrightarrow> queue_ok (t\<lparr>t_has_saved_mask := b, t_blocked := m\<rparr>)"
  by (simp add: queue_ok_def)

text \<open>C4. When delivery returns to the guest, exactly the signals that were blocked (both during the system
  call and after it, when the call changed the mask) are still queued, in their order, and the pending
  bits are those of the signals still queued, each signal queued at most once.\<close>

theorem receive_signals_takes_unblocked:
  assumes "queue_ok t" "receive_signals env sh t = Done (sh', t', tell)"
  shows "queue_ok t' \<and>
         t_queue t' = filter (\<lambda>q. sigset_has (if t_has_saved_mask t then t_blocked t AND t_saved_mask t
                                              else t_blocked t) (si_sig q)) (t_queue t)"
proof -
  define t1 where "t1 = (if t_has_saved_mask t then t\<lparr>t_has_saved_mask := False, t_blocked := t_saved_mask t\<rparr> else t)"
  define b where "b = (if t_has_saved_mask t then t_blocked t AND t_saved_mask t else t_blocked t)"
  have l: "receive_loop env b sh t1 (t_queue t1) = Done (sh', t')"
    using assms(2) by (auto simp: receive_signals_def Let_def b_def t1_def split: outcome.splits)
  have q: "queue_ok t1" "t_queue t1 = t_queue t"
    using assms(1) unblocked_queue_ok [OF assms(1)] by (simp_all add: t1_def)
  show ?thesis using receive_loop_queue [OF l q(1), of "[]"] q(2) by (simp add: b_def)
qed

text \<open>Sending a signal keeps the pending bits and the queue in agreement: a signal is pending exactly
  when it is queued, and it is queued at most once; a signal that is already pending, or that its target
  ignores, changes neither.\<close>

theorem send_signal_queue:
  assumes "queue_ok t" "sig < NUM_SIGS"
  shows "queue_ok (send_signal sh t sig info) \<and>
         t_queue (send_signal sh t sig info) =
           (if sig = 0 \<or> t_zombie t \<or> t_exiting t \<or> signal_action sh sig = SIGNAL_IGNORE
               \<or> sig \<in> si_sig ` set (t_queue t)
            then t_queue t else t_queue t @ [info\<lparr>si_sig := sig\<rparr>])"
proof -
  have "sigset_has (t_pending t) sig \<longleftrightarrow> sig \<in> si_sig ` set (t_queue t)" if "sig \<noteq> 0"
    using assms that by (simp add: queue_ok_def sig_ok_def)
  then show ?thesis using send_queue_ok [OF assms]
    by (auto simp: send_signal_def deliver_signal_unlocked_def Let_def)
qed

section \<open>The mask of a handler\<close>

lemma unblockable_bits:
  "bit UNBLOCKABLE_MASK n \<longleftrightarrow> n = SIGKILL - 1 \<or> n = SIGSTOP - 1"
  by (simp add: UNBLOCKABLE_MASK_def bit_simps bit_sig_mask)

text \<open>Whatever mask a system call or a return from a handler sets, \<open>SIGKILL\<close> and \<open>SIGSTOP\<close> stay
  unblocked in it and every other signal is as asked.\<close>

theorem sigmask_set_unblockable:
  "t_blocked (sigmask_set t s) = s AND NOT UNBLOCKABLE_MASK \<and>
   \<not> sigset_has (t_blocked (sigmask_set t s)) SIGKILL \<and> \<not> sigset_has (t_blocked (sigmask_set t s)) SIGSTOP"
  by (simp add: sigmask_set_def sigset_has_bit bit_simps unblockable_bits)

lemma blocked_queue_stays:
  assumes "\<forall>q\<in>set qs. sigset_has b (si_sig q)"
  shows "receive_loop env b sh t qs = Done (sh, t)"
  using assms by (induction qs) auto

lemma handler_blocks_kill:
  assumes "call_handler env sh t info = Done (x, sh', t')"
    and "sigset_has (sa_mask (sh_action sh ! si_sig info)) SIGKILL"
  shows "sigset_has (t_blocked t') SIGKILL"
proof -
  obtain sp fr where x: "x = (sp, fr)" by (cases x)
  show ?thesis
    using call_handler_Done(2) [OF assms(1) [unfolded x] refl refl] assms(2)
    by (simp add: handler_blocked_def sigset_has_bit bit_simps)
qed

text \<open>The mask of an action is added to the blocked set as the guest gave it. A handler whose mask names
  \<open>SIGKILL\<close> therefore runs with \<open>SIGKILL\<close> blocked: a kill that arrives while it runs stays on the queue
  and delivery returns to the guest.\<close>

theorem handler_mask_blocks_sigkill:
  assumes "call_handler env sh t info = Done (x, sh', t')"
    and "sigset_has (sa_mask (sh_action sh ! si_sig info)) SIGKILL"
    and "t_queue t = []" "t_pending t = 0" "\<not> t_has_saved_mask t" "\<not> t_zombie t" "\<not> t_exiting t" "\<not> t_stopped t"
  shows "receive_signals env sh' (send_signal sh' t' SIGKILL i) = Done (sh', send_signal sh' t' SIGKILL i, False)
         \<and> map si_sig (t_queue (send_signal sh' t' SIGKILL i)) = [SIGKILL]"
proof -
  obtain sp fr where x: "x = (sp, fr)" by (cases x)
  note d = call_handler_Done(2) [OF assms(1) [unfolded x] refl refl]
  have kill: "signal_action sh' SIGKILL = SIGNAL_KILL"
    by (simp add: signal_action_def signal_is_blockable_def default_action_def SIGKILL_def SIGURG_def SIGCONT_def
        SIGCHLD_def SIGIO_def SIGWINCH_def SIGSTOP_def SIGTSTP_def SIGTTIN_def SIGTTOU_def)
  have e: "send_signal sh' t' SIGKILL i =
     t'\<lparr>t_pending := sigset_add 0 SIGKILL, t_queue := [i\<lparr>si_sig := SIGKILL\<rparr>], t_stopped := False\<rparr>"
    using d assms(3-) kill
    by (simp add: send_signal_def deliver_signal_unlocked_def Let_def sigset_has_def SIGKILL_def)
  have b: "sigset_has (t_blocked t') SIGKILL" by (rule handler_blocks_kill [OF assms(1,2)])
  have s: "\<not> t_has_saved_mask t'" using d assms(5) by simp
  show ?thesis unfolding e using b s by (simp add: receive_signals_def)
qed
section \<open>Returning from a handler\<close>

text \<open>
  The end of a handler: it returns to the trampoline of its frame with the stack pointer past the fields
  it popped, other registers and the mask as it left them. \<open>mem\<close> holds the frames on the stack.
\<close>

definition return_from_handler ::
  "frame \<Rightarrow> (u32 \<Rightarrow> frame option) \<Rightarrow> sighand \<Rightarrow> task \<Rightarrow> u32 result \<times> sighand \<times> task" where
  "return_from_handler fr mem sh t =
     (case fr of
        Rt_frame _ \<Rightarrow> sys_rt_sigreturn (\<lambda>a. case mem a of Some (Rt_frame f) \<Rightarrow> Some f | _ \<Rightarrow> None) sh t
      | Plain_frame _ \<Rightarrow>
          (let (v, t') = sys_sigreturn (\<lambda>a. case mem a of Some (Plain_frame f) \<Rightarrow> Some f | _ \<Rightarrow> None) t in (v, sh, t')))"

definition popped :: "frame \<Rightarrow> u32" where
  "popped fr = (case fr of Rt_frame _ \<Rightarrow> 4 | Plain_frame _ \<Rightarrow> 8)"

lemma mask_halves:
  "push_bit 32 (ucast (ucast (drop_bit 32 b) :: u32)) OR ucast (ucast (b AND 0xffffffff) :: u32) = b" for b :: u64
proof -
  have m: "(0xffffffff :: u64) = mask 32" by (simp add: mask_eq_exp_minus_1)
  have "push_bit 32 (ucast (ucast (drop_bit 32 b) :: u32)) OR ucast (ucast (b AND mask 32) :: u32) = b"
    by (rule bit_eqI) (auto simp: bit_simps dest: bit_imp_le_length)
  then show ?thesis by (simp only: m)
qed

lemma select_bits: "((a AND m) OR (b AND NOT m)) AND m = a AND m" for a :: "'a::len word"
  by (rule bit_eqI) (auto simp: bit_simps)

lemma without_unblockable: "b AND UNBLOCKABLE_MASK = 0 \<Longrightarrow> b AND NOT UNBLOCKABLE_MASK = b"
proof -
  assume "b AND UNBLOCKABLE_MASK = 0"
  then have "\<And>n. \<not> (bit b n \<and> bit UNBLOCKABLE_MASK n)" by (metis bit_and_iff bit_0_eq bot_apply bot_bool_def)
  then show ?thesis by (intro bit_eqI) (auto simp: bit_simps)
qed

lemma rt_frame_fields:
  "rf_mcontext (rt_frame_of env sh t info) = fst (setup_sigcontext t)"
  "rf_sigmask (rt_frame_of env sh t info) = t_blocked t"
  "rf_stack (rt_frame_of env sh t info) = altstack_to_user sh t"
  by (simp_all add: rt_frame_of_def setup_rt_sigframe_def setup_sigcontext_def Let_def)

lemma frame_fields:
  "sf_sc (frame_of env t info) = fst (setup_sigcontext t)"
  "sf_extramask (frame_of env t info) = ucast (drop_bit 32 (t_blocked t))"
  by (simp_all add: frame_of_def setup_sigframe_def setup_sigcontext_def Let_def)

lemma restore_context:
  fixes t :: task and r :: regs
  defines "r' \<equiv> restore_sigcontext (fst (setup_sigcontext t)) r"
  shows "r' = (t_regs t)\<lparr>flagregs := flagregs r', trapno := trapno r, segfault_addr := segfault_addr r\<rparr>"
    and "eflags (flagregs r') AND USE_FLAGS = eflags (collapse_flags (flagregs (t_regs t))) AND USE_FLAGS"
    and "cf (flagregs r') = cf (flagregs r)"
    and "eax r' = eax (t_regs t)"
  by (simp_all add: r'_def restore_sigcontext_def setup_sigcontext_def Let_def select_bits collapse_fields)

text \<open>C9. The return from a handler undoes its start: with the frame still in memory and the stack pointer
  where the trampoline leaves it, the system call returns the interrupted \<open>eax\<close>, all general registers,
  the instruction pointer and the arithmetic flags in \<open>eflags\<close> are those at the signal, the blocked set is
  the one before, and the alternate stack is kept, whatever the handler did to its registers and mask.\<close>

theorem sigreturn_undoes_handler:
  assumes "call_handler env sh t info = Done ((sp, fr), sh', t')"
    and "mem sp = Some fr" "esp r = sp + popped fr" "t_blocked t AND UNBLOCKABLE_MASK = 0"
  shows "\<exists>t''. return_from_handler fr mem sh' (t'\<lparr>t_regs := r, t_blocked := m\<rparr>) = (Inr (eax (t_regs t)), sh', t'')
           \<and> t_blocked t'' = t_blocked t \<and> t_queue t'' = t_queue t \<and> t_pending t'' = t_pending t
           \<and> t_regs t'' = (t_regs t)\<lparr>flagregs := flagregs (t_regs t''), trapno := trapno r, segfault_addr := segfault_addr r\<rparr>
           \<and> eflags (flagregs (t_regs t'')) AND USE_FLAGS = eflags (collapse_flags (flagregs (t_regs t))) AND USE_FLAGS"
proof (cases "tst (sa_flags (sh_action sh ! si_sig info)) SA_SIGINFO")
  case True
  note d = call_handler_Done [OF assms(1) refl refl]
  note rc = restore_context [of t r]
  have alt: "sh_altstack sh' = sh_altstack sh" "sh_altstack_size sh' = sh_altstack_size sh"
    using d(4) by (simp_all split: if_splits)
  show ?thesis
    using d(2,3) True assms(2,3,4) rc
    by (simp add: return_from_handler_def sys_rt_sigreturn_def popped_def RT_SIGFRAME_SIG_def Let_def rt_frame_fields
        sigmask_set_def without_unblockable altstack_to_user_def alt [symmetric] del: mult_eq_0_iff)
next
  case False
  note d = call_handler_Done [OF assms(1) refl refl]
  note rc = restore_context [of t r]
  have old: "sc_oldmask (fst (setup_sigcontext t)) = ucast (t_blocked t AND 0xffffffff)"
    by (simp add: setup_sigcontext_def Let_def)
  show ?thesis
    using d(2,3) False assms(2,3,4) rc
    by (simp add: return_from_handler_def sys_sigreturn_def popped_def SIGFRAME_SC_def Let_def frame_fields
        sigmask_set_def without_unblockable old mask_halves)
qed

text \<open>The carry and overflow the emulated instructions use are not in \<open>eflags\<close>, and the return does not
  expand the restored word into them: after it, the carry is the one the handler left, and the
  next collapse of the flags writes it over the restored bit.\<close>

theorem sigreturn_keeps_handler_carry:
  assumes "call_handler env sh t info = Done ((sp, fr), sh', t')"
    and "mem sp = Some fr" "esp r = sp + popped fr"
    and "return_from_handler fr mem sh' (t'\<lparr>t_regs := r\<rparr>) = (v, sh'', t'')"
  shows "cf (flagregs (t_regs t'')) = cf (flagregs r)
         \<and> bit (eflags (collapse_flags (flagregs (t_regs t'')))) CF_bit = bit (cf (flagregs r)) 0"
proof -
  note d = call_handler_Done [OF assms(1) refl refl]
  note rc = restore_context [of t r]
  have "cf (flagregs (t_regs t'')) = cf (flagregs r)"
    using d(2,3) assms(2-) rc(3)
    by (auto simp: return_from_handler_def sys_rt_sigreturn_def sys_sigreturn_def popped_def RT_SIGFRAME_SIG_def
        SIGFRAME_SC_def Let_def rt_frame_fields frame_fields sigmask_set_def split: if_split_asm)
  then show ?thesis by (simp add: collapse_fields)
qed


section \<open>Waiting for a signal\<close>

lemma remove1_filter_sigs:
  "distinct (map si_sig qs) \<Longrightarrow> q \<in> set qs \<Longrightarrow> si_sig q \<notin> si_sig ` set (remove1 q qs)"
  by (induction qs) (auto simp: image_iff)

text \<open>\<open>sigtimedwait\<close> takes the signal off the queue and returns its number, but leaves its pending bit
  set: from then on the signal is pending without being queued, so every later delivery of that number to
  the task is dropped, and no delivery can clear the bit.\<close>

theorem sigtimedwait_loses_signal:
  assumes "queue_ok t" "sigtimedwait_finish t s err ok = (Inr sig, t')"
  shows "sig \<in> si_sig ` set (t_queue t) \<and> sig \<notin> si_sig ` set (t_queue t') \<and> sigset_has (t_pending t') sig
         \<and> deliver_signal t' sig info = t' \<and> \<not> queue_ok t'"
proof -
  obtain q where f: "find (\<lambda>q. sigset_has s (si_sig q)) (t_queue t) = Some q" and sig: "sig = si_sig q"
    and t': "t' = t\<lparr>t_waiting := 0, t_queue := remove1 q (t_queue t)\<rparr>"
    using assms(2) by (auto simp: sigtimedwait_finish_def Let_def split: if_split_asm option.split_asm)
  have q: "q \<in> set (t_queue t)" using f by (auto simp: find_Some_iff)
  have p: "sigset_has (t_pending t') sig" and ok: "sig_ok sig"
    using assms(1) q by (auto simp: queue_ok_def sig t')
  have n: "sig \<notin> si_sig ` set (t_queue t')"
    using assms(1) q remove1_filter_sigs [of "t_queue t" q] by (simp add: queue_ok_def sig t')
  show ?thesis using q n p ok by (auto simp: sig deliver_signal_def deliver_signal_unlocked_def queue_ok_def)
qed

section \<open>Actions\<close>

text \<open>Setting an action: the numbers from 0 up to 63 other than \<open>SIGKILL\<close> and \<open>SIGSTOP\<close> return the old action
  and store the new one there and nowhere else; larger numbers are refused; a negative number, which the
  guest may pass, gets past the only test and indexes before the table.\<close>

theorem rt_sigaction_spec:
  assumes "length (sh_action sh) = NUM_SIGS"
  shows "(case sys_rt_sigaction sh signum (Some (Some a)) None 8 of
           None \<Rightarrow> sint signum < 0
         | Some (r, old, sh') \<Rightarrow>
             (let n = nat (sint signum) in
              0 \<le> sint signum \<and>
              (if n < NUM_SIGS \<and> signal_is_blockable n
               then r = Inr () \<and> (\<forall>i < NUM_SIGS. sh_action sh' ! i = (if i = n then a else sh_action sh ! i))
               else r = Inl EINVAL \<and> sh' = sh))
             \<or> sint signum \<ge> int NUM_SIGS \<and> r = Inl EINVAL \<and> sh' = sh)
         \<and> (sint signum < 0 \<longrightarrow> sys_rt_sigaction sh signum (Some (Some a)) old_ok 8 = None)"
  using assms
  by (auto simp: sys_rt_sigaction_def do_sigaction_def Let_def signal_is_blockable_def NUM_SIGS_def
      SIGKILL_def SIGSTOP_def nth_list_update)

section \<open>Sending to a group\<close>

lemma kill_task_spec:
  assumes "kill_task ps cur p sig = Some (r, ps')"
  shows "\<exists>sh t. ps_task ps p = Some (sh, t) \<and> r = (if may_kill cur t then Inr () else Inl EPERM) \<and>
     ps' = (if may_kill cur t
            then ps\<lparr>ps_task := (ps_task ps)(p \<mapsto> (sh, send_signal sh t sig
                     \<lparr>si_sig = 0, si_errno = 0, si_code = 0, si_fields = Si_kill (of_nat (t_pid cur)) (t_uid cur)\<rparr>))\<rparr>
            else ps)"
proof -
  obtain sh t where t: "ps_task ps p = Some (sh, t)"
    using assms by (auto simp: kill_task_def split: bind_splits)
  show ?thesis by (rule exI [of _ sh], rule exI [of _ t]) (use assms t in \<open>simp add: kill_task_def split: if_split_asm\<close>)
qed

definition killable :: "procs \<Rightarrow> task \<Rightarrow> nat \<Rightarrow> bool" where
  "killable ps cur p = (case ps_task ps p of Some (_, t) \<Rightarrow> may_kill cur t | None \<Rightarrow> False)"

definition killed :: "procs \<Rightarrow> task \<Rightarrow> nat \<Rightarrow> nat \<Rightarrow> (sighand \<times> task) option" where
  "killed ps cur sig p = map_option (\<lambda>(sh, t). (sh, send_signal sh t sig
       \<lparr>si_sig = 0, si_errno = 0, si_code = 0, si_fields = Si_kill (of_nat (t_pid cur)) (t_uid cur)\<rparr>)) (ps_task ps p)"

lemma kill_all_spec:
  assumes "kill_all ps cur sig err ls = Some (r, ps')" "distinct ls"
  shows "(r = (if err = Inl EPERM then (if \<exists>p\<in>set ls. killable ps cur p then Inr () else Inl EPERM) else err)) \<and>
     (\<forall>p. ps_task ps' p = (if p \<in> set ls \<and> killable ps cur p then killed ps cur sig p else ps_task ps p))"
  using assms
proof (induction ps cur sig err ls arbitrary: r ps' rule: kill_all.induct)
  case (1 ps cur sig err)
  then show ?case by simp
next
  case (2 ps cur sig err p qs)
  obtain r1 ps1 where k: "kill_task ps cur p sig = Some (r1, ps1)"
    and rest: "kill_all ps1 cur sig (if err = Inl EPERM then r1 else err) qs = Some (r, ps')"
    using "2.prems"(1) by (auto split: bind_splits)
  obtain sh t where t: "ps_task ps p = Some (sh, t)" and r1: "r1 = (if may_kill cur t then Inr () else Inl EPERM)"
    and ps1: "ps1 = (if may_kill cur t
            then ps\<lparr>ps_task := (ps_task ps)(p \<mapsto> (sh, send_signal sh t sig
                     \<lparr>si_sig = 0, si_errno = 0, si_code = 0, si_fields = Si_kill (of_nat (t_pid cur)) (t_uid cur)\<rparr>))\<rparr>
            else ps)"
    using kill_task_spec [OF k] by blast
  have p: "killable ps cur p = may_kill cur t" using t by (simp add: killable_def)
  have o1: "ps_task ps1 q = (if q = p \<and> may_kill cur t then killed ps cur sig p else ps_task ps q)" for q
    using t by (simp add: ps1 killed_def)
  have o2: "killable ps1 cur q = killable ps cur q" "killed ps1 cur sig q = killed ps cur sig q" if "q \<noteq> p" for q
    using o1 [of q] that by (simp_all add: killable_def killed_def)
  note ih = "2.IH" [OF k refl rest]
  have d: "p \<notin> set qs" "distinct qs" using "2.prems"(2) by simp_all
  have qs: "killable ps1 cur q = killable ps cur q" "killed ps1 cur sig q = killed ps cur sig q" if "q \<in> set qs" for q
    using o2 [of q] that d(1) by auto
  have ex: "(\<exists>q\<in>set qs. killable ps1 cur q) \<longleftrightarrow> (\<exists>q\<in>set qs. killable ps cur q)" using qs by blast
  have "ps_task ps' q = (if q \<in> set (p # qs) \<and> killable ps cur q then killed ps cur sig q else ps_task ps q)" for q
    using conjunct2 [OF ih [OF d(2)]] qs [of q] o1 [of q] d(1) p by (cases "q = p"; cases "q \<in> set qs") simp_all
  moreover have "r = (if err = Inl EPERM then (if \<exists>q\<in>set (p # qs). killable ps cur q then Inr () else Inl EPERM) else err)"
    using conjunct1 [OF ih [OF d(2)]] r1 p ex by simp
  ultimately show ?case by blast
qed

text \<open>A signal to a process group reaches exactly the members the sender may signal, leaves the others as
  they were, and the call fails with \<open>EPERM\<close> only when no member could be signalled.\<close>

theorem kill_group_spec:
  assumes "kill_group ps cur pgid sig = Some (r, ps')" "ps_group ps pgid = Some leaders" "distinct leaders"
  shows "r = (if \<exists>p\<in>set leaders. killable ps cur p then Inr () else Inl EPERM) \<and>
         (\<forall>p. ps_task ps' p = (if p \<in> set leaders \<and> killable ps cur p then killed ps cur sig p else ps_task ps p))"
  using kill_all_spec [of ps cur sig "Inl EPERM" leaders r ps'] assms by (simp add: kill_group_def)


section \<open>Examples\<close>

definition ex_env :: sig_env where
  "ex_env = \<lparr>se_vdso = 0xf7ffb000, se_vdso_rt = 0xf7ffb040, se_xsave_extra = 0, se_fxsave_extra = 0, se_write = \<lambda>_ _. True\<rparr>"

definition ex_regs :: regs where
  "ex_regs = \<lparr>eax = 7, ebx = 0, ecx = 0, edx = 0, esi = 0, edi = 0, ebp = 0, esp = 0xffff0000, eip = 0x8048000,
     trapno = 0, segfault_addr = 0, flagregs = ex_cpu\<rparr>"

definition ex_task :: task where
  "ex_task = \<lparr>t_pid = 5, t_tgid = 5, t_uid = 1000, t_euid = 1000, t_suid = 1000, t_zombie = False, t_exiting = False,
     t_traced = False, t_regs = ex_regs, t_blocked = 0, t_pending = 0, t_waiting = 0, t_queue = [],
     t_has_saved_mask = False, t_saved_mask = 0, t_stopped = False, t_group_exit_code = 0\<rparr>"

text \<open>Handlers for signals 10, with the mask of \<open>SIGKILL\<close>, and 12, with information.\<close>

definition ex_sighand :: sighand where
  "ex_sighand = \<lparr>sh_refcount = 1,
     sh_action = (replicate 64 no_action)
       [10 := \<lparr>sa_handler = 0x8049000, sa_flags = 0, sa_restorer = 0, sa_mask = sig_mask SIGKILL\<rparr>,
        12 := \<lparr>sa_handler = 0x8049100, sa_flags = SA_SIGINFO, sa_restorer = 0, sa_mask = 0\<rparr>],
     sh_altstack = 0, sh_altstack_size = 0\<rparr>"

definition ex_info :: "nat \<Rightarrow> siginfo" where
  "ex_info sig = \<lparr>si_sig = sig, si_errno = 0, si_code = 0, si_fields = Si_none\<rparr>"

lemma ex_handler_runs:
  "\<exists>sp fr sh' t'. call_handler ex_env ex_sighand ex_task (ex_info s) = Done ((sp, fr), sh', t')"
  by (simp add: call_handler_def Let_def ex_env_def split: prod.splits)

lemma ex_queue_ok: "queue_ok ex_task"
  by (simp add: queue_ok_def ex_task_def sigset_has_def)

theorem send_signal_queue_witness:
  "map si_sig (t_queue (send_signal ex_sighand ex_task 10 (ex_info 0))) = [10]"
  using send_signal_queue [of ex_task 10 ex_sighand "ex_info 0"] ex_queue_ok
  by (simp add: NUM_SIGS_def signal_action_def signal_is_blockable_def SIGKILL_def SIGSTOP_def ex_sighand_def
      SIG_IGN_def SIG_DFL_def ex_task_def)

definition ex_blocked :: task where
  "ex_blocked = ex_task\<lparr>t_blocked := sig_mask 12, t_queue := [ex_info 10, ex_info 12],
     t_pending := sig_mask 10 OR sig_mask 12\<rparr>"

lemma ex_blocked_ok: "queue_ok ex_blocked"
  by (auto simp: queue_ok_def ex_blocked_def ex_task_def ex_info_def sig_ok_def NUM_SIGS_def sigset_has_bit
      bit_simps bit_sig_mask)

lemma ex_blocked_received: "\<exists>sh' t' b. receive_signals ex_env ex_sighand ex_blocked = Done (sh', t', b)"
proof -
  have 1: "\<not> sigset_has (sig_mask 12) 10" "sigset_has (sig_mask 12) 12"
    by (simp_all add: sigset_has_bit sig_ok_def NUM_SIGS_def bit_sig_mask)
  have 2: "signal_action ex_sighand 10 = SIGNAL_CALL_HANDLER"
    by (simp add: signal_action_def signal_is_blockable_def SIGKILL_def SIGSTOP_def ex_sighand_def SIG_IGN_def SIG_DFL_def)
  have 3: "\<exists>x sh' t'. call_handler ex_env ex_sighand t (ex_info s) = Done (x, sh', t')" for s t
    by (simp add: call_handler_def Let_def ex_env_def split: prod.splits)
  show ?thesis using 1 2 3 [of _ 10]
    by (auto simp: receive_signals_def ex_blocked_def ex_task_def Let_def receive_signal_def ex_info_def
        split: outcome.splits) (metis outcome.distinct(1,3,5))+
qed

theorem receive_signals_takes_unblocked_witness:
  "\<exists>sh' t' b. receive_signals ex_env ex_sighand ex_blocked = Done (sh', t', b) \<and> t_queue t' = [ex_info 12]"
proof -
  obtain sh' t' b where r: "receive_signals ex_env ex_sighand ex_blocked = Done (sh', t', b)"
    using ex_blocked_received by blast
  show ?thesis using receive_signals_takes_unblocked [OF ex_blocked_ok r] r
    by (simp add: ex_blocked_def ex_task_def ex_info_def sigset_has_bit sig_ok_def NUM_SIGS_def bit_sig_mask)
qed

theorem handler_mask_blocks_sigkill_witness:
  "\<exists>sh t. receive_signals ex_env sh t = Done (sh, t, False) \<and> map si_sig (t_queue t) = [SIGKILL]"
proof -
  obtain x sh' t' where c: "call_handler ex_env ex_sighand ex_task (ex_info 10) = Done (x, sh', t')"
    using ex_handler_runs by blast
  have m: "sigset_has (sa_mask (sh_action ex_sighand ! si_sig (ex_info 10))) SIGKILL"
    by (simp add: ex_sighand_def ex_info_def sigset_has_bit bit_sig_mask)
  show ?thesis using handler_mask_blocks_sigkill [OF c m] by (auto simp: ex_task_def)
qed

theorem sigreturn_undoes_handler_witness:
  "\<exists>sp fr sh' t' t''. call_handler ex_env ex_sighand ex_task (ex_info 12) = Done ((sp, fr), sh', t')
     \<and> return_from_handler fr (\<lambda>a. if a = sp then Some fr else None) sh'
         (t'\<lparr>t_regs := ex_regs\<lparr>eax := 99, esp := sp + popped fr\<rparr>, t_blocked := 3\<rparr>) = (Inr 7, sh', t'')
     \<and> t_blocked t'' = 0"
proof -
  obtain sp fr sh' t' where c: "call_handler ex_env ex_sighand ex_task (ex_info 12) = Done ((sp, fr), sh', t')"
    using ex_handler_runs by blast
  show ?thesis
    using sigreturn_undoes_handler [OF c, of "\<lambda>a. if a = sp then Some fr else None"
        "ex_regs\<lparr>eax := 99, esp := sp + popped fr\<rparr>" 3] c
    by (auto simp: ex_task_def ex_regs_def)
qed

theorem sigreturn_keeps_handler_carry_witness:
  "\<exists>sp fr sh' t' v sh'' t''. call_handler ex_env ex_sighand ex_task (ex_info 12) = Done ((sp, fr), sh', t')
     \<and> return_from_handler fr (\<lambda>a. if a = sp then Some fr else None) sh'
         (t'\<lparr>t_regs := ex_regs\<lparr>esp := sp + popped fr, flagregs := ex_cpu\<lparr>cf := 0\<rparr>\<rparr>\<rparr>) = (v, sh'', t'')
     \<and> cf (flagregs (t_regs ex_task)) = 1 \<and> cf (flagregs (t_regs t'')) = 0"
proof -
  obtain sp fr sh' t' where c: "call_handler ex_env ex_sighand ex_task (ex_info 12) = Done ((sp, fr), sh', t')"
    using ex_handler_runs by blast
  let ?r = "ex_regs\<lparr>esp := sp + popped fr, flagregs := ex_cpu\<lparr>cf := 0\<rparr>\<rparr>"
  obtain v sh'' t'' where r: "return_from_handler fr (\<lambda>a. if a = sp then Some fr else None) sh'
      (t'\<lparr>t_regs := ?r\<rparr>) = (v, sh'', t'')" by (rule prod_cases3)
  show ?thesis using sigreturn_keeps_handler_carry [OF c _ _ r] c r
    by (auto simp: ex_task_def ex_regs_def ex_cpu_def)
qed

theorem sigtimedwait_loses_signal_witness:
  "\<exists>t'. sigtimedwait_finish ex_blocked (sig_mask 12) EINTR None = (Inr 12, t') \<and> deliver_signal t' 12 SIGINFO_NIL = t'"
proof -
  have h: "sigset_has (sig_mask 12) 12" "\<not> sigset_has (sig_mask 12) 10"
    by (simp_all add: sigset_has_bit sig_ok_def NUM_SIGS_def bit_sig_mask)
  obtain t' where r: "sigtimedwait_finish ex_blocked (sig_mask 12) EINTR None = (Inr 12, t')"
    using h by (simp add: sigtimedwait_finish_def Let_def ex_blocked_def ex_info_def)
  show ?thesis using sigtimedwait_loses_signal [OF ex_blocked_ok r, of SIGINFO_NIL] r by blast
qed

theorem rt_sigaction_spec_witness:
  "length (sh_action ex_sighand) = NUM_SIGS \<and> sys_rt_sigaction ex_sighand (-1) (Some (Some no_action)) None 8 = None"
  using rt_sigaction_spec [of ex_sighand "-1" no_action None] by (simp add: ex_sighand_def NUM_SIGS_def)

definition ex_procs :: procs where
  "ex_procs = \<lparr>ps_task = [5 \<mapsto> (ex_sighand, ex_task), 6 \<mapsto> (ex_sighand, ex_task\<lparr>t_uid := 0, t_suid := 0\<rparr>)],
     ps_group = [5 \<mapsto> [5, 6]], ps_leader = \<lambda>_. True\<rparr>"

theorem kill_group_spec_witness:
  "\<exists>ps'. kill_group ex_procs ex_task 5 10 = Some (Inr (), ps') \<and> ps_task ps' 6 = ps_task ex_procs 6"
proof -
  obtain r ps' where k: "kill_group ex_procs ex_task 5 10 = Some (r, ps')"
    by (simp add: kill_group_def ex_procs_def kill_task_def may_kill_def ex_task_def)
  show ?thesis using kill_group_spec [OF k, of "[5, 6]"] k
    by (simp add: ex_procs_def killable_def may_kill_def ex_task_def)
qed

end
