(* ===== verification/Tty_Props.thy ===== *)
theory Tty_Props
  imports Tty Signal_Props
begin

text \<open>
  Properties of the terminal model: the loops of input and reading stay within the buffer, and stop short
  of a result only while they wait; the input queue with its erasing, killing and signals is a line editor on
  a list of characters with end marks.
\<close>

section \<open>The queue as a list\<close>

definition tty_wf :: "tty \<Rightarrow> bool" where
  "tty_wf t \<longleftrightarrow> length (buf t) = TTY_BUF_SIZE \<and> length (buf_flag t) = TTY_BUF_SIZE \<and> bufsize t \<le> TTY_BUF_SIZE"

definition items :: "tty \<Rightarrow> (u8 \<times> bool) list" where
  "items t = take (bufsize t) (zip (buf t) (buf_flag t))"

lemma length_items: "tty_wf t \<Longrightarrow> length (items t) = bufsize t"
  by (simp add: items_def tty_wf_def)

lemma nth_items: "tty_wf t \<Longrightarrow> i < bufsize t \<Longrightarrow> items t ! i = (buf t ! i, buf_flag t ! i)"
  by (simp add: items_def tty_wf_def)

lemma put_char_items:
  assumes "tty_wf t" "bufsize t < TTY_BUF_SIZE"
  shows "tty_wf (put_char t ch f) \<and> items (put_char t ch f) = items t @ [(ch, f)]"
proof -
  have *: "take (Suc n) (zip (b[n := x]) (fl[n := y])) = take n (zip b fl) @ [(x, y)]"
    if "n < length b" "n < length fl" for n and b :: "u8 list" and fl :: "bool list" and x y
    using that by (simp add: update_zip [symmetric, where xy = "(x, y)", simplified] take_Suc_conv_app_nth list_update_append)
  show ?thesis using assms * [of "bufsize t" "buf t" "buf_flag t" ch f]
    by (simp add: tty_wf_def items_def put_char_def)
qed

lemma shrink_items:
  assumes "tty_wf t"
  shows "tty_wf (t\<lparr>bufsize := bufsize t - 1\<rparr>) \<and> items (t\<lparr>bufsize := bufsize t - 1\<rparr>) = butlast (items t)"
  using assms by (auto simp: tty_wf_def items_def butlast_take)

lemma szsub_buf: "tty_wf t \<Longrightarrow> n \<le> bufsize t \<Longrightarrow> szsub (bufsize t) n = bufsize t - n"
  by (rule szsub_exact) (simp_all add: tty_wf_def TTY_BUF_SIZE_def size_max_def)

text \<open>A wake-up changes nothing but the count of notifications, and what other threads do in the gap.\<close>

lemma notified_wf [simp]: "tty_wf (t\<lparr>produced := n\<rparr>) = tty_wf t" "tty_wf (t\<lparr>consumed := n\<rparr>) = tty_wf t"
  "items (t\<lparr>produced := n\<rparr>) = items t" "items (t\<lparr>consumed := n\<rparr>) = items t"
  by (simp_all add: tty_wf_def items_def)

lemma input_wakeup_wf: "tty_wf t \<Longrightarrow> \<forall>u. tty_wf u \<longrightarrow> tty_wf (gap u) \<Longrightarrow> tty_wf (tty_input_wakeup gap t)"
  by (simp add: tty_input_wakeup_def)

lemma read_into_buf_items:
  assumes "tty_wf t" "tty_read_into_buf t n = Some (data, t')"
  shows "tty_wf t' \<and> items t' = drop n (items t) \<and> data = map fst (take n (items t))"
proof -
  have n: "n \<le> bufsize t" using assms(2) by (auto simp: tty_read_into_buf_def split: if_split_asm)
  have 1: "data = take n (buf t)" and 2: "t' = t\<lparr>bufsize := bufsize t - n,
      buf := take (bufsize t - n) (drop n (buf t)) @ drop (bufsize t - n) (buf t),
      buf_flag := take (bufsize t - n) (drop n (buf_flag t)) @ drop (bufsize t - n) (buf_flag t),
      consumed := consumed t + 1\<rparr>"
    using assms n by (auto simp: tty_read_into_buf_def Let_def szsub_buf)
  have "map fst (take n (items t)) = take n (buf t)"
    using assms(1) n by (simp add: items_def tty_wf_def min_def take_map [symmetric] map_fst_zip)
  moreover have "items t' = drop n (items t)"
    using assms(1) n by (simp add: 2 items_def tty_wf_def drop_take drop_zip zip_append1 take_zip min_def)
  moreover have "tty_wf t'" using assms(1) n by (auto simp: 2 tty_wf_def)
  ultimately show ?thesis using 1 by simp
qed

lemma read_into_buf_some: "n \<le> bufsize t \<Longrightarrow> \<exists>d t'. tty_read_into_buf t n = Some (d, t')"
  by (simp add: tty_read_into_buf_def Let_def)

lemma first_flag_index:
  "first_flag i fs = (if True \<in> set fs then Some (i + length (takeWhile Not fs) + 1) else None)"
  by (induction fs arbitrary: i) auto

lemma canon_size_items:
  assumes "tty_wf t"
  shows "tty_canon_size t =
    (if \<exists>x\<in>set (items t). snd x then Some (length (takeWhile (\<lambda>x. \<not> snd x) (items t)) + 1) else None)"
proof -
  have *: "map snd (items t) = take (bufsize t) (buf_flag t)"
    using assms by (simp add: items_def tty_wf_def take_map [symmetric] map_snd_zip)
  have "True \<in> set (map snd (items t)) \<longleftrightarrow> (\<exists>x\<in>set (items t). snd x)" by force
  moreover have "length (takeWhile Not (map snd (items t))) = length (takeWhile (\<lambda>x. \<not> snd x) (items t))"
    by (simp add: takeWhile_map comp_def)
  ultimately show ?thesis by (simp only: tty_canon_size_def first_flag_index *[symmetric]) simp
qed

section \<open>What the input leaves alone\<close>

definition settings :: "tty \<Rightarrow> tty \<Rightarrow> bool" where
  "settings t u \<longleftrightarrow> u = t\<lparr>buf := buf u, buf_flag := buf_flag u, bufsize := bufsize u, produced := produced u,
     consumed := consumed u\<rparr>"

lemma settings_refl [simp]: "settings t t"
  by (simp add: settings_def)

lemma settings_trans:
  assumes "settings t u" "settings u v"
  shows "settings t v"
proof -
  have "u\<lparr>buf := a, buf_flag := b, bufsize := c, produced := d, consumed := e\<rparr> =
        t\<lparr>buf := a, buf_flag := b, bufsize := c, produced := d, consumed := e\<rparr>" for a b c d e
    by (subst assms(1) [unfolded settings_def]) simp
  with assms(2) show ?thesis by (simp only: settings_def)
qed

lemma settings_fields:
  assumes "settings t u"
  shows "termios u = termios t" "fg_group u = fg_group t" "hung_up u = hung_up t" "driver u = driver t"
    "packet_mode u = packet_mode t" "is_cc u c i = is_cc t c i" "SHOULD_ECHOCTL u lf c = SHOULD_ECHOCTL t lf c"
    "input_signal u c = input_signal t c"
proof -
  note e = assms [unfolded settings_def]
  show 1: "termios u = termios t" "fg_group u = fg_group t" "hung_up u = hung_up t" "driver u = driver t"
    "packet_mode u = packet_mode t"
    by (subst e, simp)+
  show 2: "\<And>c i. is_cc u c i = is_cc t c i" by (simp add: is_cc_def 1)
  show "SHOULD_ECHOCTL u lf c = SHOULD_ECHOCTL t lf c" by (simp add: SHOULD_ECHOCTL_def 2)
  show "input_signal u c = input_signal t c" by (simp add: input_signal_def 1 2)
qed

lemma settings_put_char [simp]: "settings t (put_char t ch f)" "settings t (t\<lparr>bufsize := n\<rparr>)"
  "settings t (tty_input_wakeup (\<lambda>u. u) t)"
  by (simp_all add: settings_def put_char_def tty_input_wakeup_def)

lemma echo_char_fields [simp]:
  "in_tty (echo_char lf ch s) = in_tty s" "in_done (echo_char lf ch s) = in_done s" "in_err (echo_char lf ch s) = in_err s"
  "in_tty (tty_echo d s) = in_tty s" "in_done (tty_echo d s) = in_done s" "in_err (tty_echo d s) = in_err s"
  "in_events (tty_echo d s) = in_events s" "in_events (echo_char lf ch s) = in_events s"
  by (simp_all add: echo_char_def tty_echo_def)

lemma erase_loop_some:
  "tty_wf (in_tty s) \<Longrightarrow> n \<le> bufsize (in_tty s) \<Longrightarrow>
     \<exists>s'. erase_loop lf e n s = Some s' \<and> in_done s' = in_done s \<and> in_err s' = in_err s \<and> in_events s' = in_events s \<and>
          produced (in_tty s') = produced (in_tty s) \<and> settings (in_tty s) (in_tty s') \<and> tty_wf (in_tty s')"
proof (induction n arbitrary: s)
  case (Suc n)
  let ?t = "(in_tty s)\<lparr>bufsize := bufsize (in_tty s) - 1\<rparr>"
  have i: "szsub (bufsize (in_tty s)) 1 = bufsize (in_tty s) - 1" "\<not> TTY_BUF_SIZE \<le> bufsize (in_tty s) - 1"
    using Suc.prems szsub_buf [OF Suc.prems(1), of 1] by (auto simp: tty_wf_def TTY_BUF_SIZE_def)
  have wf: "tty_wf ?t" using Suc.prems(1) shrink_items by blast
  have st: "settings (in_tty s) ?t" by simp
  have ih: "\<exists>s'. erase_loop lf e n u = Some s' \<and> in_done s' = in_done s \<and> in_err s' = in_err s \<and> in_events s' = in_events s \<and>
       produced (in_tty s') = produced (in_tty s) \<and> settings (in_tty s) (in_tty s') \<and> tty_wf (in_tty s')"
    if "in_tty u = ?t" "in_done u = in_done s" "in_err u = in_err s" "in_events u = in_events s" for u
    using Suc.IH [of u] that wf Suc.prems(2) settings_trans [OF st] by fastforce
  show ?case
  proof (cases "buf_flag (in_tty s) ! (bufsize (in_tty s) - 1)")
    case True
    then show ?thesis using Suc.prems(1) i by (simp add: Let_def)
  next
    case False
    then show ?thesis using i by (simp add: Let_def ih)
  qed
qed simp

section \<open>Bounds\<close>

fun ev_wf :: "wakeup \<Rightarrow> bool" where
  "ev_wf (Woken f h) = (\<forall>t. tty_wf t \<longrightarrow> tty_wf (f t))"
| "ev_wf _ = True"

lemma wait_room_free: "bufsize t < TTY_BUF_SIZE \<Longrightarrow> wait_room False blocking t es = Some (Inr (), t, es)"
  by (simp add: wait_room.simps)

lemma wait_room_wf:
  "wait_room asleep blocking t es = Some (r, t', es') \<Longrightarrow> tty_wf t \<Longrightarrow> \<forall>e\<in>set es. ev_wf e
   \<Longrightarrow> tty_wf t' \<and> (\<forall>e\<in>set es'. ev_wf e) \<and> (r = Inr () \<longrightarrow> bufsize t' < TTY_BUF_SIZE)"
proof (induction es arbitrary: asleep t)
  case Nil
  then show ?case by (auto simp: wait_room.simps split: if_split_asm)
next
  case (Cons e es)
  show ?case
  proof (cases e)
    case e: (Woken f h)
    then show ?thesis using Cons.prems Cons.IH [of "consumed (f t) = consumed t" "f t"]
      by (auto simp: wait_room.simps [of asleep blocking t "Woken f h # es"] split: if_split_asm)
  next
    case e: Timed_out
    then show ?thesis using Cons.prems Cons.IH [of True t]
      by (auto simp: wait_room.simps [of asleep blocking t "Timed_out # es"] split: if_split_asm)
  next
    case e: Interrupted
    then show ?thesis using Cons.prems
      by (auto simp: wait_room.simps [of asleep blocking t "Interrupted # es"] split: if_split_asm)
  qed
qed

text \<open>A wait that a signal will interrupt ends; it has used the signal up only when it fails.\<close>

lemma wait_room_ends:
  "Interrupted \<in> set es \<Longrightarrow>
   \<exists>r t' es'. wait_room asleep blocking t es = Some (r, t', es') \<and> (r = Inr () \<longrightarrow> Interrupted \<in> set es')"
proof (induction es arbitrary: asleep t)
  case Nil
  then show ?case by simp
next
  case (Cons e es)
  show ?case
  proof (cases e)
    case e: (Woken f h)
    then show ?thesis using Cons.prems Cons.IH [of "consumed (f t) = consumed t" "f t"]
      by (simp add: wait_room.simps [of asleep blocking t "Woken f h # es"])
  next
    case e: Timed_out
    then show ?thesis using Cons.prems Cons.IH [of True t]
      by (simp add: wait_room.simps [of asleep blocking t "Timed_out # es"])
  next
    case e: Interrupted
    then show ?thesis by (simp add: wait_room.simps [of asleep blocking t "Interrupted # es"])
  qed
qed

definition in_wf :: "input_state \<Rightarrow> bool" where
  "in_wf s \<longleftrightarrow> tty_wf (in_tty s) \<and> (\<forall>e\<in>set (in_events s). ev_wf e)"

text \<open>
  A step of the loops: its state stays within the bounds, it yields nothing only when it waits and no signal
  will come, and if the loop goes on the signal is still to come.
\<close>

definition step_ok :: "input_state \<Rightarrow> (bool \<times> input_state) option \<Rightarrow> bool" where
  "step_ok s r \<longleftrightarrow> (case r of
      None \<Rightarrow> Interrupted \<notin> set (in_events s)
    | Some (go, s') \<Rightarrow> in_wf s' \<and> (go \<longrightarrow> Interrupted \<in> set (in_events s) \<longrightarrow> Interrupted \<in> set (in_events s')))"

definition loop_ok :: "input_state \<Rightarrow> input_state option \<Rightarrow> bool" where
  "loop_ok s r \<longleftrightarrow> (case r of None \<Rightarrow> Interrupted \<notin> set (in_events s) | Some s' \<Rightarrow> in_wf s')"

lemma push_or_break_ok:
  assumes "in_wf s"
  shows "step_ok s (push_or_break blocking ch flag s)"
proof (cases "wait_room False blocking (in_tty s) (in_events s)")
  case None
  then show ?thesis using wait_room_ends [of "in_events s" False blocking "in_tty s"]
    by (auto simp: step_ok_def push_or_break_def tty_push_char_def)
next
  case (Some x)
  obtain r t' es' where x: "x = (r, t', es')" by (cases x)
  note w = Some [unfolded x]
  have wf: "tty_wf t'" "\<forall>e\<in>set es'. ev_wf e" "r = Inr () \<longrightarrow> bufsize t' < TTY_BUF_SIZE"
    using wait_room_wf [OF w] assms by (simp_all add: in_wf_def)
  have e: "Interrupted \<in> set (in_events s) \<Longrightarrow> r = Inr () \<Longrightarrow> Interrupted \<in> set es'"
    using wait_room_ends [of "in_events s" False blocking "in_tty s"] w by auto
  show ?thesis
    using w wf e put_char_items [of t' ch flag]
    by (auto simp: step_ok_def push_or_break_def tty_push_char_def in_wf_def Let_def split: sum.split)
qed

lemma send_input_signal_wf:
  "tty_send_input_signal t ch q = (b, t', q') \<Longrightarrow> tty_wf t \<Longrightarrow> tty_wf t'"
  by (auto simp: tty_send_input_signal_def tty_wf_def split: option.split_asm if_split_asm)

lemma tty_echo_wf [simp]: "in_wf (tty_echo d s) = in_wf s"
  by (simp add: in_wf_def tty_echo_def)

lemma echo_char_wf [simp]: "in_wf (echo_char lf ch s) = in_wf s"
  by (simp add: echo_char_def)

text \<open>A pushed character, with what follows when the loop goes on.\<close>

lemma push_then_ok:
  assumes "in_wf s" "in_events s = in_events s0" "\<And>u. in_wf u \<Longrightarrow> in_wf (k u) \<and> in_events (k u) = in_events u"
  shows "step_ok s0 (do { (go, s') \<leftarrow> push_or_break blocking ch flag s; Some (go, if go then k s' else s') })"
  using push_or_break_ok [OF assms(1), of blocking ch flag] assms(2,3)
  by (auto simp: step_ok_def split: option.split bind_split)

lemma push_line_end_ok:
  assumes "in_wf s" "in_events s = in_events s0" "\<forall>t. tty_wf t \<longrightarrow> tty_wf (gap t)"
  shows "step_ok s0 (push_line_end gap blocking ch s)"
  unfolding push_line_end_def
  by (rule push_then_ok [OF assms(1,2)]) (use assms(3) input_wakeup_wf in \<open>simp add: in_wf_def\<close>)

lemma canon_char_ok:
  assumes "in_wf s" "\<forall>t. tty_wf t \<longrightarrow> tty_wf (gap t)"
  shows "step_ok s (canon_char gap blocking lf ifl ch s)"
proof -
  let ?d = "s\<lparr>in_done := in_done s + 1\<rparr>" and ?c = "map_input ifl ch"
  have d: "in_wf ?d" "in_events ?d = in_events s" "in_tty ?d = in_tty s" "tty_wf (in_tty s)"
    using assms(1) by (simp_all add: in_wf_def)
  have done_ok: "step_ok s (Some (True, u))" if "in_wf u" "in_events u = in_events s" for u
    using that by (simp add: step_ok_def)
  have push: "step_ok s (do { (go, s') \<leftarrow> push_or_break blocking x fl ?d; Some (go, if go \<and> e then echo_char lf y s' else s') })" for x fl y e
    using push_then_ok [OF d(1,2), of "echo_char lf y" blocking x fl] push_then_ok [OF d(1,2), of "\<lambda>u. u" blocking x fl]
    by (cases e) simp_all
  have line: "step_ok s (push_line_end gap blocking x ?d)" "step_ok s (push_line_end gap blocking x (tty_echo l ?d))" for x l
    by (rule push_line_end_ok [OF _ _ assms(2)]; use d in simp)+
  have erase: "step_ok s (map_option (Pair True) (erase_loop lf e n ?d))" if "n \<le> bufsize (in_tty s)" for e n
  proof -
    have "tty_wf (in_tty ?d)" "n \<le> bufsize (in_tty ?d)" using d(4) that by simp_all
    then obtain s' where "erase_loop lf e n ?d = Some s'" "in_events s' = in_events ?d" "tty_wf (in_tty s')"
      using erase_loop_some by blast
    then show ?thesis using d(1) by (simp add: step_ok_def in_wf_def)
  qed
  show ?thesis
  proof (cases "tst ifl IGNCR \<and> ?c = 0x0d")
    case True
    then show ?thesis using done_ok [OF d(1,2)] by (simp add: canon_char_def Let_def)
  next
    case ign: False
    show ?thesis
    proof (cases "?c = 0 \<or> is_cc (in_tty s) ?c VERASE \<or> is_cc (in_tty s) ?c VKILL \<or> is_cc (in_tty s) ?c VEOF \<or>
        ?c = 0x0a \<or> is_cc (in_tty s) ?c VEOL")
      case True
      then show ?thesis using ign push [of 0 False] erase line
        by (auto simp: canon_char_def Let_def simp del: erase_loop.simps)
    next
      case False
      obtain b t' q' where g: "tty_send_input_signal (in_tty s) ?c (in_queue s) = (b, t', q')"
        by (cases "tty_send_input_signal (in_tty s) ?c (in_queue s)")
      have "in_wf (?d\<lparr>in_tty := t', in_queue := q'\<rparr>)"
        using send_input_signal_wf [OF g d(4)] d(1) by (simp add: in_wf_def)
      then show ?thesis using ign False g push [of ?c False] done_ok
        by (cases b) (auto simp: canon_char_def Let_def)
    qed
  qed
qed

lemma canon_loop_ok:
  assumes "in_wf s" "\<forall>t. tty_wf t \<longrightarrow> tty_wf (gap t)"
  shows "loop_ok s (canon_loop gap blocking lf ifl chs s)"
  using assms(1)
proof (induction chs arbitrary: s)
  case Nil
  then show ?case by (simp add: loop_ok_def)
next
  case (Cons ch chs)
  have c: "step_ok s (canon_char gap blocking lf ifl ch s)" by (rule canon_char_ok [OF Cons.prems assms(2)])
  show ?case
  proof (cases "canon_char gap blocking lf ifl ch s")
    case None
    then show ?thesis using c by (simp add: loop_ok_def step_ok_def)
  next
    case (Some x)
    obtain go s' where x: "x = (go, s')" by (cases x)
    have s': "in_wf s'" using c Some x by (simp add: step_ok_def)
    show ?thesis using c Some x Cons.IH [OF s'] by (auto simp: loop_ok_def step_ok_def split: option.split_asm option.split)
  qed
qed

lemma raw_char_ok:
  assumes "in_wf s"
  shows "step_ok s (raw_char blocking ch s)"
proof (cases "tty_send_input_signal (in_tty s) ch (in_queue s)")
  case (fields b t1 q1)
  show ?thesis
  proof (cases b)
    case True
    then show ?thesis
      using assms fields send_input_signal_wf [OF fields] by (auto simp: step_ok_def raw_char_def Let_def in_wf_def)
  next
    case False
    show ?thesis
    proof (cases "wait_room False blocking (in_tty s) (in_events s)")
      case None
      then show ?thesis using False fields wait_room_ends [of "in_events s" False blocking "in_tty s"]
        by (auto simp: step_ok_def raw_char_def Let_def)
    next
      case (Some x)
      obtain r t' es' where x: "x = (r, t', es')" by (cases x)
      note w = Some [unfolded x]
      note wf = wait_room_wf [OF w]
      have e: "Interrupted \<in> set (in_events s) \<Longrightarrow> r = Inr () \<Longrightarrow> Interrupted \<in> set es'"
        using wait_room_ends [of "in_events s" False blocking "in_tty s"] w by auto
      have "tty_wf (t'\<lparr>buf := (buf t')[bufsize t' := ch], bufsize := bufsize t' + 1\<rparr>)" if "r = Inr ()"
        using that wf assms by (auto simp: in_wf_def tty_wf_def)
      then show ?thesis
        using assms fields False w wf e by (auto simp: step_ok_def raw_char_def Let_def in_wf_def split: sum.split)
    qed
  qed
qed

lemma raw_loop_ok: "in_wf s \<Longrightarrow> loop_ok s (raw_loop blocking chs s)"
proof (induction chs arbitrary: s)
  case Nil
  then show ?case by (simp add: loop_ok_def)
next
  case (Cons ch chs)
  have c: "step_ok s (raw_char blocking ch s)" by (rule raw_char_ok [OF Cons.prems])
  show ?case
  proof (cases "raw_char blocking ch s")
    case None
    then show ?thesis using c by (simp add: loop_ok_def step_ok_def)
  next
    case (Some x)
    obtain go s' where x: "x = (go, s')" by (cases x)
    have s': "in_wf s'" using c Some x by (simp add: step_ok_def)
    show ?thesis using c Some x Cons.IH [OF s'] by (auto simp: loop_ok_def step_ok_def split: option.split_asm option.split)
  qed
qed

text \<open>Input: nothing comes back only from a wait that no signal ends, and every result is within the bounds.\<close>

lemma tty_input_ok:
  assumes "tty_wf t" "\<forall>e\<in>set es. ev_wf e" "\<forall>u. tty_wf u \<longrightarrow> tty_wf (gap u)"
  shows "case tty_input gap t input blocking es of None \<Rightarrow> Interrupted \<notin> set es | Some (r, t', out, sigs) \<Rightarrow> tty_wf t'"
proof -
  let ?s = "\<lparr>in_tty = t, in_done = 0, in_err = Inr (), in_queue = 0, in_out = [], in_events = es\<rparr>"
  let ?raw = "map_option (\<lambda>s. if bufsize (in_tty s) > 0 then s\<lparr>in_tty := tty_input_wakeup gap (in_tty s)\<rparr> else s)
                (raw_loop blocking input ?s)"
  let ?m = "if tst (lflags (termios t)) ICANON then canon_loop gap blocking (lflags (termios t)) (iflags (termios t)) input ?s else ?raw"
  have s: "in_wf ?s" using assms(1,2) by (simp add: in_wf_def)
  have "loop_ok ?s ?raw"
    using raw_loop_ok [OF s, of blocking input] input_wakeup_wf [OF _ assms(3)]
    by (auto simp: loop_ok_def in_wf_def split: option.splits)
  then have "loop_ok ?s ?m" using canon_loop_ok [OF s assms(3)] by simp
  then show ?thesis
    by (cases ?m) (auto simp: loop_ok_def in_wf_def tty_input_def Let_def tty_wf_def cong: if_cong)
qed

lemma wait_line_wf:
  "wait_line asleep half nb t es = Some (r, t', es') \<Longrightarrow> tty_wf t \<Longrightarrow> \<forall>e\<in>set es. ev_wf e
   \<Longrightarrow> tty_wf t' \<and> (\<forall>n. r = Inr n \<longrightarrow> tty_canon_size t' = Some n)"
proof (induction es arbitrary: asleep half t)
  case Nil
  then show ?case by (auto simp: wait_line.simps split: if_split_asm option.split_asm)
next
  case (Cons e es)
  show ?case
  proof (cases e)
    case e: (Woken f h)
    then show ?thesis using Cons.prems Cons.IH [of "produced (f t) = produced t" h "f t"]
      by (auto simp: wait_line.simps [of asleep half nb "t" "Woken f h # es"] split: if_split_asm option.split_asm)
  next
    case e: Timed_out
    then show ?thesis using Cons.prems Cons.IH [of True half t]
      by (auto simp: wait_line.simps [of asleep half nb "t" "Timed_out # es"] split: if_split_asm option.split_asm)
  next
    case e: Interrupted
    then show ?thesis using Cons.prems
      by (auto simp: wait_line.simps [of asleep half nb "t" "Interrupted # es"] split: if_split_asm option.split_asm)
  qed
qed

lemma wait_line_ends: "Interrupted \<in> set es \<Longrightarrow> wait_line asleep half nb t es \<noteq> None"
proof (induction es arbitrary: asleep half t)
  case (Cons e es)
  show ?case
  proof (cases e)
    case e: (Woken f h)
    then show ?thesis using Cons.prems Cons.IH [of "produced (f t) = produced t" h "f t"]
      by (auto simp: wait_line.simps [of asleep half nb "t" "Woken f h # es"] split: option.split)
  next
    case e: Timed_out
    then show ?thesis using Cons.prems Cons.IH [of True half t]
      by (auto simp: wait_line.simps [of asleep half nb "t" "Timed_out # es"] split: option.split)
  next
    case e: Interrupted
    then show ?thesis by (simp add: wait_line.simps [of asleep half nb "t" "Interrupted # es"] split: option.split)
  qed
qed simp

lemma wait_min_wf:
  "wait_min asleep half nb mn timed t es = Some (r, t', es') \<Longrightarrow> tty_wf t \<Longrightarrow> \<forall>e\<in>set es. ev_wf e \<Longrightarrow> tty_wf t'"
proof (induction es arbitrary: asleep half t)
  case Nil
  then show ?case by (simp add: wait_min.simps Let_def split: if_split_asm)
next
  case (Cons e es)
  define lim where "lim = (case asleep of None \<Rightarrow> timed \<and> bufsize t \<noteq> 0 | Some b \<Rightarrow> b)"
  show ?case
  proof (cases e)
    case e: (Woken f h)
    then show ?thesis using Cons.prems Cons.IH [of "if produced (f t) = produced t then Some lim else None" h "f t"]
      by (simp add: wait_min.simps [of asleep half nb mn timed "t" "Woken f h # es"] Let_def lim_def [symmetric] split: if_split_asm)
  next
    case e: Timed_out
    then show ?thesis using Cons.prems Cons.IH [of "Some lim" half t]
      by (simp add: wait_min.simps [of asleep half nb mn timed "t" "Timed_out # es"] Let_def lim_def [symmetric] split: if_split_asm)
  next
    case e: Interrupted
    then show ?thesis using Cons.prems
      by (simp add: wait_min.simps [of asleep half nb mn timed "t" "Interrupted # es"] Let_def split: if_split_asm)
  qed
qed

lemma wait_min_ends: "Interrupted \<in> set es \<Longrightarrow> wait_min asleep half nb mn timed t es \<noteq> None"
proof (induction es arbitrary: asleep half nb t)
  case (Cons e es)
  have ih: "wait_min a h b mn timed u es \<noteq> None" if "Interrupted \<in> set es" for a h b u
    by (rule Cons.IH [OF that])
  define lim where "lim = (case asleep of None \<Rightarrow> timed \<and> bufsize t \<noteq> 0 | Some b \<Rightarrow> b)"
  show ?case
  proof (cases e)
    case e: (Woken f h)
    then show ?thesis using Cons.prems ih
      by (simp del: not_None_eq add: wait_min.simps [of asleep half nb mn timed "t" "Woken f h # es"] Let_def lim_def [symmetric])
  next
    case e: Timed_out
    then show ?thesis using Cons.prems ih
      by (simp del: not_None_eq add: wait_min.simps [of asleep half nb mn timed "t" "Timed_out # es"] Let_def lim_def [symmetric])
  next
    case e: Interrupted
    then show ?thesis by (simp add: wait_min.simps [of asleep half nb mn timed "t" "Interrupted # es"] Let_def)
  qed
qed simp

lemma finish_read_some:
  assumes "tty_wf t"
  shows "\<exists>d t'. finish_read t n = Some (d, t')"
proof -
  define k where "k = (if n > bufsize t then bufsize t else n)"
  have "k \<le> bufsize t" by (simp add: k_def)
  then obtain d t1 where r: "tty_read_into_buf t k = Some (d, t1)" using read_into_buf_some by blast
  show ?thesis
  proof (cases "bufsize t1 > 0 \<and> buf t1 ! 0 = 0 \<and> buf_flag t1 ! 0")
    case True
    then obtain d2 t2 where "tty_read_into_buf t1 1 = Some (d2, t2)" using read_into_buf_some [of 1 t1] by auto
    then show ?thesis using r True by (simp add: finish_read_def Let_def k_def [symmetric])
  next
    case False
    then show ?thesis using r by (simp add: finish_read_def Let_def k_def [symmetric] if_not_P [OF False])
  qed
qed

lemma finish_read_items:
  assumes "tty_wf t" "finish_read t n = Some (data, t')"
  shows "tty_wf t' \<and> data = map fst (take n (items t)) \<and>
     items t' = (case drop n (items t) of x # xs \<Rightarrow> if x = (0, True) then xs else x # xs | [] \<Rightarrow> [])"
proof -
  define k where "k = (if n > bufsize t then bufsize t else n)"
  have "k \<le> bufsize t" by (simp add: k_def)
  then obtain d1 t1 where r: "tty_read_into_buf t k = Some (d1, t1)" using read_into_buf_some by blast
  have i1: "tty_wf t1" "items t1 = drop n (items t)" "d1 = map fst (take n (items t))"
    using read_into_buf_items [OF assms(1) r] length_items [OF assms(1)]
    by (auto simp: k_def split: if_split_asm)
  have hd: "(buf t1 ! 0, buf_flag t1 ! 0) = items t1 ! 0" if "bufsize t1 > 0"
    using nth_items [OF i1(1) that] by simp
  show ?thesis
  proof (cases "bufsize t1 > 0 \<and> buf t1 ! 0 = 0 \<and> buf_flag t1 ! 0")
    case True
    then obtain x t2 where r2: "tty_read_into_buf t1 1 = Some (x, t2)" using read_into_buf_some [of 1 t1] by auto
    then have e: "t' = t2" "data = d1"
      using assms(2) r True by (simp_all add: finish_read_def Let_def k_def [symmetric])
    have "tty_wf t'" "items t' = drop 1 (items t1)"
      using read_into_buf_items [OF i1(1) r2] e by auto
    moreover obtain xs where "items t1 = (0, True) # xs"
      using True hd length_items [OF i1(1)] by (cases "items t1") auto
    ultimately show ?thesis using i1 e by simp
  next
    case False
    then have "t' = t1" "data = d1"
      using assms(2) r by (auto simp: finish_read_def Let_def k_def [symmetric] split: if_split_asm)
    moreover have "items t1 ! 0 \<noteq> (0, True)" if "items t1 \<noteq> []"
      using False hd length_items [OF i1(1)] that by (metis length_greater_0_conv prod.inject)
    ultimately show ?thesis using i1 by (cases "drop n (items t)") auto
  qed
qed

text \<open>Reading, likewise.\<close>

lemma tty_read_ok:
  assumes "tty_wf t" "\<forall>e\<in>set es. ev_wf e"
  shows "case tty_read half t rd n es of None \<Rightarrow> Interrupted \<notin> set es | Some (r, t', rd') \<Rightarrow> tty_wf t'"
proof (cases "tty_read half t rd n es")
  case None
  let ?l = "wait_line False half (rd_nonblock rd) t es"
  let ?m = "wait_min None half (rd_nonblock rd) (unat (ccs (termios t) ! VMIN)) (ccs (termios t) ! VTIME \<noteq> 0) t es"
  show ?thesis
  proof (rule ccontr)
    assume "\<not> ?thesis"
    then have i: "Interrupted \<in> set es" using None by simp
    obtain r1 t1 e1 where l: "?l = Some (r1, t1, e1)" using wait_line_ends [OF i] by (metis option.exhaust prod.exhaust)
    obtain r2 t2 e2 where m: "?m = Some (r2, t2, e2)" using wait_min_ends [OF i] by (metis option.exhaust prod.exhaust)
    have fin: "finish_read t1 k \<noteq> None" "finish_read t2 k \<noteq> None" for k
      using finish_read_some [of t1 k] finish_read_some [of t2 k] wait_line_wf [OF l assms] wait_min_wf [OF m assms] by auto
    show False
    proof (cases "half \<or> hung_up t \<or> n = 0")
      case True
      then have "tty_read half t rd n es = Some (Inr [], t, rd)" unfolding tty_read_def by presburger
      then show False using None by simp
    next
      case False
      then have h: "half = False" by simp
      show False using None False
        by (auto simp del: not_None_eq simp: tty_read_def Let_def l [unfolded h] m [unfolded h] fin
            split: if_split_asm prod.split_asm sum.split_asm)
    qed
  qed
next
  case (Some x)
  obtain r t' rd' where x: "x = (r, t', rd')" by (cases x)
  have fin: "tty_wf t2" if "finish_read u k = Some (d, t2)" "tty_wf u" for u k d t2
    using finish_read_items [OF that(2,1)] by simp
  have "tty_wf t'"
    using Some assms(1) wait_line_wf [OF _ assms] wait_min_wf [OF _ assms] unfolding x
    by (auto simp: tty_read_def Let_def intro: fin
        split: if_split_asm prod.split_asm sum.split_asm option.split_asm)
  then show ?thesis using Some x by simp
qed

section \<open>The line editor\<close>

definition drop_partial :: "(u8 \<times> bool) list \<Rightarrow> (u8 \<times> bool) list" where
  "drop_partial q = rev (dropWhile (\<lambda>x. \<not> snd x) (rev q))"

text \<open>What one typed character does to the queue, under the settings of \<open>t\<close>.\<close>

definition line_edit :: "tty \<Rightarrow> u8 \<Rightarrow> (u8 \<times> bool) list \<Rightarrow> (u8 \<times> bool) list" where
  "line_edit t ch0 q =
     (let ch = map_input (iflags (termios t)) ch0 in
      if tst (iflags (termios t)) IGNCR \<and> ch = 0x0d then q
      else if ch = 0 then q @ [(0, False)]
      else if is_cc t ch VERASE \<and> q \<noteq> [] then (if snd (last q) then q else butlast q)
      else if is_cc t ch VERASE \<or> is_cc t ch VKILL then drop_partial q
      else if is_cc t ch VEOF then q @ [(0, True)]
      else if ch = 0x0a \<or> is_cc t ch VEOL then q @ [(ch, True)]
      else case input_signal t ch of
             Some sig \<Rightarrow> if fg_group t \<noteq> 0 \<and> \<not> tst (lflags (termios t)) NOFLSH then [] else q
           | None \<Rightarrow> q @ [(ch, False)])"

text \<open>The characters that end a line; each of them notifies the readers, no other character does.\<close>

definition ends_line :: "tty \<Rightarrow> u8 \<Rightarrow> bool" where
  "ends_line t ch0 \<longleftrightarrow>
     (let ch = map_input (iflags (termios t)) ch0 in
      \<not> (tst (iflags (termios t)) IGNCR \<and> ch = 0x0d) \<and> ch \<noteq> 0 \<and> \<not> is_cc t ch VERASE \<and> \<not> is_cc t ch VKILL \<and>
      (is_cc t ch VEOF \<or> ch = 0x0a \<or> is_cc t ch VEOL))"

definition steps_to :: "input_state \<Rightarrow> nat \<Rightarrow> (u8 \<times> bool) list \<Rightarrow> input_state \<Rightarrow> bool" where
  "steps_to s n q s' \<longleftrightarrow> tty_wf (in_tty s') \<and> settings (in_tty s) (in_tty s') \<and> items (in_tty s') = q
     \<and> in_done s' = in_done s + 1 \<and> in_err s' = in_err s \<and> produced (in_tty s') = produced (in_tty s) + n"

lemma push_or_break_room:
  assumes "tty_wf (in_tty s)" "bufsize (in_tty s) < TTY_BUF_SIZE"
  shows "push_or_break b ch f s = Some (True, s\<lparr>in_tty := put_char (in_tty s) ch f\<rparr>)"
  using assms(2) by (simp add: push_or_break_def tty_push_char_def wait_room_free)

lemma last_flag:
  assumes "tty_wf t" "items t \<noteq> []"
  shows "buf_flag t ! (bufsize t - 1) = snd (last (items t))"
proof -
  have "bufsize t > 0" using assms(2) length_items [OF assms(1)] by (cases "items t") auto
  then show ?thesis using assms nth_items [of t "bufsize t - 1"] length_items [OF assms(1)]
    by (simp add: last_conv_nth)
qed

lemma erase_step:
  assumes "tty_wf (in_tty s)" "items (in_tty s) \<noteq> []"
  shows "\<exists>u. in_tty u = (in_tty s)\<lparr>bufsize := bufsize (in_tty s) - 1\<rparr> \<and>
     erase_loop lf e (Suc n) s = (if snd (last (items (in_tty s))) then Some s else erase_loop lf e n u)"
proof -
  have b: "1 \<le> bufsize (in_tty s)" using assms length_items [OF assms(1)] by (cases "items (in_tty s)") auto
  have "szsub (bufsize (in_tty s)) 1 = bufsize (in_tty s) - 1" "\<not> TTY_BUF_SIZE \<le> bufsize (in_tty s) - 1"
    using b assms(1) szsub_buf [OF assms(1) b] by (auto simp: tty_wf_def)
  note i = this
  let ?t = "(in_tty s)\<lparr>bufsize := bufsize (in_tty s) - 1\<rparr>"
  define s1 where "s1 = s\<lparr>in_tty := ?t\<rparr>"
  define u where "u = (if e then (if SHOULD_ECHOCTL ?t lf (buf (in_tty s) ! (bufsize (in_tty s) - 1))
      then tty_echo [0x08, 0x20, 0x08] (tty_echo [0x08, 0x20, 0x08] s1) else tty_echo [0x08, 0x20, 0x08] s1) else s1)"
  have "in_tty u = ?t" by (simp add: u_def s1_def)
  moreover have "erase_loop lf e (Suc n) s = (if snd (last (items (in_tty s))) then Some s else erase_loop lf e n u)"
    using i last_flag [OF assms] by (auto simp: Let_def u_def s1_def)
  ultimately show ?thesis by blast
qed

lemma erase_one_items:
  assumes "tty_wf (in_tty s)" "items (in_tty s) \<noteq> []" "erase_loop lf e 1 s = Some s'"
  shows "items (in_tty s') =
     (if snd (last (items (in_tty s))) then items (in_tty s) else butlast (items (in_tty s)))"
proof -
  obtain u where "in_tty u = (in_tty s)\<lparr>bufsize := bufsize (in_tty s) - 1\<rparr>"
    "erase_loop lf e (Suc 0) s = (if snd (last (items (in_tty s))) then Some s else erase_loop lf e 0 u)"
    using erase_step [OF assms(1,2), of lf e 0] by blast
  then show ?thesis using assms(3) shrink_items [OF assms(1)] by (auto split: if_split_asm)
qed

lemma drop_partial_snoc: "drop_partial (q @ [x]) = (if snd x then q @ [x] else drop_partial q)"
  by (simp add: drop_partial_def)

lemma erase_all_items:
  "tty_wf (in_tty s) \<Longrightarrow> n = bufsize (in_tty s) \<Longrightarrow> erase_loop lf e n s = Some s' \<Longrightarrow>
     items (in_tty s') = drop_partial (items (in_tty s))"
proof (induction n arbitrary: s)
  case 0
  then show ?case using length_items [of "in_tty s"] by (simp add: drop_partial_def)
next
  case (Suc n)
  have ne: "items (in_tty s) \<noteq> []" using Suc.prems length_items [of "in_tty s"] by auto
  note wf = shrink_items [OF Suc.prems(1)]
  obtain q x where q: "items (in_tty s) = q @ [x]" using ne by (meson rev_exhaust)
  obtain u where u: "in_tty u = (in_tty s)\<lparr>bufsize := bufsize (in_tty s) - 1\<rparr>"
    "erase_loop lf e (Suc n) s = (if snd x then Some s else erase_loop lf e n u)"
    using erase_step [OF Suc.prems(1) ne, of lf e n] by (auto simp: q)
  show ?case
  proof (cases "snd x")
    case True
    then show ?thesis using u Suc.prems(3) q by (simp add: drop_partial_snoc)
  next
    case False
    have "items (in_tty s') = drop_partial (items (in_tty u))"
      by (rule Suc.IH) (use u False Suc.prems wf in simp_all)
    then show ?thesis using u(1) wf q False by (simp add: drop_partial_snoc)
  qed
qed

lemma push_char_steps:
  assumes "tty_wf (in_tty s)" "length (items (in_tty s)) < TTY_BUF_SIZE" "in_tty s1 = in_tty s"
    "in_done s1 = in_done s + 1" "in_err s1 = in_err s"
  shows "\<exists>s'. push_or_break b ch f s1 = Some (True, s') \<and> steps_to s 0 (items (in_tty s) @ [(ch, f)]) s'"
proof -
  have r: "bufsize (in_tty s1) < TTY_BUF_SIZE" using assms length_items by simp
  show ?thesis
    using push_or_break_room [of s1 b ch f] r assms put_char_items [of "in_tty s" ch f]
    by (simp add: steps_to_def) (simp add: put_char_def)
qed

lemma canon_char_edits:
  assumes wf: "tty_wf (in_tty s)" and room: "length (items (in_tty s)) < TTY_BUF_SIZE"
    and st: "settings t (in_tty s)"
  shows "\<exists>s'. canon_char (\<lambda>t. t) b (lflags (termios t)) (iflags (termios t)) ch s = Some (True, s')
     \<and> steps_to s (of_bool (ends_line t ch)) (line_edit t ch (items (in_tty s))) s'"
proof -
  let ?c = "map_input (iflags (termios t)) ch" and ?q = "items (in_tty s)" and ?lf = "lflags (termios t)"
  let ?d = "s\<lparr>in_done := in_done s + 1\<rparr>"
  note f = settings_fields [OF st]
  have push: "\<exists>s'. push_or_break b x fl s1 = Some (True, s') \<and> steps_to s 0 (?q @ [(x, fl)]) s'"
    if "in_tty s1 = in_tty s" "in_done s1 = in_done s + 1" "in_err s1 = in_err s" for s1 x fl
    using push_char_steps [OF wf room that] .
  have echo: "steps_to s n q (echo_char l x u) = steps_to s n q u" for n q l x u by (simp add: steps_to_def)
  have wake: "steps_to s (Suc 0) q (u\<lparr>in_tty := tty_input_wakeup (\<lambda>t. t) (in_tty u)\<rparr>)" if "steps_to s 0 q u" for q u
    using that settings_trans [OF _ settings_put_char(3), of "in_tty s" "in_tty u"] by (simp add: steps_to_def tty_input_wakeup_def)
  have len: "bufsize (in_tty s) = 0 \<longleftrightarrow> ?q = []" using length_items [OF wf] by auto
  have erase: "\<exists>s'. erase_loop ?lf e n ?d = Some s' \<and> steps_to s 0 (items (in_tty s')) s'" if "n \<le> bufsize (in_tty s)" for e n
    using erase_loop_some [of ?d n ?lf e] wf that by (fastforce simp: steps_to_def)
  consider (ign) "tst (iflags (termios t)) IGNCR \<and> ?c = 0x0d"
    | (nul) "\<not> (tst (iflags (termios t)) IGNCR \<and> ?c = 0x0d)" "?c = 0"
    | (era) "\<not> (tst (iflags (termios t)) IGNCR \<and> ?c = 0x0d)" "?c \<noteq> 0" "is_cc t ?c VERASE \<or> is_cc t ?c VKILL"
    | (eof) "\<not> (tst (iflags (termios t)) IGNCR \<and> ?c = 0x0d)" "?c \<noteq> 0" "\<not> (is_cc t ?c VERASE \<or> is_cc t ?c VKILL)" "is_cc t ?c VEOF"
    | (eol) "\<not> (tst (iflags (termios t)) IGNCR \<and> ?c = 0x0d)" "?c \<noteq> 0" "\<not> (is_cc t ?c VERASE \<or> is_cc t ?c VKILL)" "\<not> is_cc t ?c VEOF"
        "?c = 0x0a \<or> is_cc t ?c VEOL"
    | (other) "\<not> (tst (iflags (termios t)) IGNCR \<and> ?c = 0x0d)" "?c \<noteq> 0" "\<not> (is_cc t ?c VERASE \<or> is_cc t ?c VKILL)" "\<not> is_cc t ?c VEOF"
        "\<not> (?c = 0x0a \<or> is_cc t ?c VEOL)"
    by blast
  then show ?thesis
  proof cases
    case ign
    then have "\<not> ends_line t ch" by (simp add: ends_line_def)
    with ign show ?thesis using wf by (simp add: canon_char_def line_edit_def steps_to_def)
  next
    case nul
    then have "\<not> ends_line t ch" by (simp add: ends_line_def)
    with nul show ?thesis using push [of ?d 0 False]
      by (auto simp: canon_char_def line_edit_def echo Let_def)
  next
    case era
    then have ne: "\<not> ends_line t ch" by (auto simp: ends_line_def)
    show ?thesis
    proof (cases "is_cc t ?c VERASE \<and> ?q \<noteq> []")
      case True
      then have b: "1 \<le> bufsize (in_tty s)" using len by auto
      define ec where "ec = (tst ?lf ECHOE \<and> tst ?lf ECHO)"
      obtain s' where s': "erase_loop ?lf ec 1 ?d = Some s'" "steps_to s 0 (items (in_tty s')) s'" using erase [OF b] by blast
      have q: "items (in_tty s') = (if snd (last ?q) then ?q else butlast ?q)"
        using erase_one_items [OF _ _ s'(1)] wf True by simp
      have "canon_char (\<lambda>t. t) b (lflags (termios t)) (iflags (termios t)) ch s = map_option (Pair True) (erase_loop ?lf ec 1 ?d)"
        using True era b by (auto simp: canon_char_def Let_def f ec_def simp del: erase_loop.simps One_nat_def)
      moreover have "line_edit t ch ?q = (if snd (last ?q) then ?q else butlast ?q)"
        using True era by (auto simp: line_edit_def Let_def)
      ultimately show ?thesis using s' q ne by simp
    next
      case False
      define ec where "ec = (tst ?lf ECHOK \<and> tst ?lf ECHO)"
      obtain s' where s': "erase_loop ?lf ec (bufsize (in_tty s)) ?d = Some s'" "steps_to s 0 (items (in_tty s')) s'"
        using erase [OF order_refl] by blast
      have q: "items (in_tty s') = drop_partial ?q" using erase_all_items [OF _ _ s'(1)] wf by simp
      have "canon_char (\<lambda>t. t) b (lflags (termios t)) (iflags (termios t)) ch s
          = map_option (Pair True) (erase_loop ?lf ec (bufsize (in_tty s)) ?d)"
        using False era len by (auto simp: canon_char_def Let_def f ec_def simp del: erase_loop.simps One_nat_def)
      moreover have "line_edit t ch ?q = drop_partial ?q"
        using False era by (auto simp: line_edit_def Let_def)
      ultimately show ?thesis using s' q ne by simp
    qed
  next
    case eof
    then have "ends_line t ch" unfolding ends_line_def Let_def by blast
    with eof show ?thesis using push [of ?d 0 True]
      by (auto simp: canon_char_def line_edit_def Let_def f push_line_end_def wake)
  next
    case eol
    then have "ends_line t ch" unfolding ends_line_def Let_def by blast
    with eol show ?thesis using push [of ?d ?c True] push [of "tty_echo [13, 10] ?d" ?c True]
      by (auto simp: canon_char_def line_edit_def Let_def f push_line_end_def wake)
  next
    case other
    then have ne: "\<not> ends_line t ch" unfolding ends_line_def Let_def by blast
    have e: "items ((in_tty s)\<lparr>bufsize := 0\<rparr>) = []" by (simp add: items_def)
    have z: "tty_wf ((in_tty s)\<lparr>bufsize := 0\<rparr>)" using wf by (simp add: tty_wf_def)
    show ?thesis
    proof (cases "input_signal t ?c")
      case None
      then show ?thesis using ne other push [of ?d ?c False]
        by (auto simp: canon_char_def line_edit_def Let_def f tty_send_input_signal_def echo)
    next
      case (Some sig)
      then show ?thesis using ne other wf e z
        by (auto simp: canon_char_def line_edit_def Let_def f tty_send_input_signal_def steps_to_def)
    qed
  qed
qed

end
