(* ===== verification/Tty_Lines.thy ===== *)
theory Tty_Lines
  imports Tty_Props
begin

text \<open>
  What the terminal does for its users: the line editor behind \<open>tty_input\<close>, canonical reads, a blocked reader
  and the notifications it waits for, hanging up, output processing, and a mark that outlives its line.
\<close>

section \<open>Input and reads\<close>

lemma length_butlast_le: "length (butlast q) \<le> length q" by simp

lemma length_drop_partial: "length (drop_partial q) \<le> length q"
  by (simp add: drop_partial_def length_dropWhile_le [of _ "rev q", simplified])

lemma line_edit_length: "length (line_edit t ch q) \<le> length q + 1"
  using length_drop_partial [of q] by (auto simp: line_edit_def Let_def split: option.split)

lemma canon_loop_edits:
  assumes "tty_wf (in_tty s)" "length (items (in_tty s)) + length chs \<le> TTY_BUF_SIZE" "settings t (in_tty s)"
  shows "\<exists>s'. canon_loop (\<lambda>t. t) b (lflags (termios t)) (iflags (termios t)) chs s = Some s'
     \<and> tty_wf (in_tty s') \<and> settings t (in_tty s') \<and> items (in_tty s') = fold (line_edit t) chs (items (in_tty s))
     \<and> in_done s' = in_done s + length chs \<and> in_err s' = in_err s
     \<and> produced (in_tty s') = produced (in_tty s) + length (filter (ends_line t) chs)"
  using assms
proof (induction chs arbitrary: s)
  case Nil
  then show ?case by simp
next
  case (Cons ch chs)
  have room: "length (items (in_tty s)) < TTY_BUF_SIZE" using Cons.prems(2) by simp
  obtain s1 where c: "canon_char (\<lambda>t. t) b (lflags (termios t)) (iflags (termios t)) ch s = Some (True, s1)"
    and st: "steps_to s (of_bool (ends_line t ch)) (line_edit t ch (items (in_tty s))) s1"
    using canon_char_edits [OF Cons.prems(1) room Cons.prems(3)] by blast
  have i: "items (in_tty s1) = line_edit t ch (items (in_tty s))" "tty_wf (in_tty s1)" "settings t (in_tty s1)"
    "in_done s1 = in_done s + 1" "in_err s1 = in_err s" "produced (in_tty s1) = produced (in_tty s) + of_bool (ends_line t ch)"
    using st Cons.prems(3) by (auto simp: steps_to_def intro: settings_trans)
  have "length (items (in_tty s1)) + length chs \<le> TTY_BUF_SIZE"
    using Cons.prems(2) line_edit_length [of t ch "items (in_tty s)"] by (simp add: i)
  from Cons.IH [OF i(2) this i(3)] show ?case using c i by auto
qed

lemma input_edits:
  assumes "tty_wf t" "tst (lflags (termios t)) ICANON" "length (items t) + length input \<le> TTY_BUF_SIZE"
  shows "\<exists>t' out sigs. tty_input (\<lambda>t. t) t input blocking es = Some (Inr (length input), t', out, sigs)
     \<and> tty_wf t' \<and> settings t t' \<and> items t' = fold (line_edit t) input (items t)
     \<and> produced t' = produced t + length (filter (ends_line t) input)"
proof -
  let ?s = "\<lparr>in_tty = t, in_done = 0, in_err = Inr (), in_queue = 0, in_out = [], in_events = es\<rparr>"
  obtain s' where l: "canon_loop (\<lambda>t. t) blocking (lflags (termios t)) (iflags (termios t)) input ?s = Some s'"
    and s': "tty_wf (in_tty s') \<and> settings t (in_tty s') \<and> items (in_tty s') = fold (line_edit t) input (items t)
     \<and> in_done s' = length input \<and> in_err s' = Inr ()
     \<and> produced (in_tty s') = produced t + length (filter (ends_line t) input)"
    using canon_loop_edits [of ?s input t blocking] assms by auto
  show ?thesis
    unfolding tty_input_def Let_def using l s' assms(2) by (cases "length input > 0") (auto simp: tty_wf_def)
qed

text \<open>C7. In canonical mode the input queue is a line editor: as long as the typed characters fit, all of them are
  taken without blocking and the queue becomes what the editor makes of it character by character: ordinary
  characters and line ends are appended, erasing drops the last character and killing the whole current
  line but neither goes past a line end, the end-of-file character becomes an end mark, ignored characters
  do nothing, and a signal character empties the queue when it reaches a foreground group and flushing is on.\<close>

theorem tty_input_edits_lines:
  assumes "tty_wf t" "tst (lflags (termios t)) ICANON" "length (items t) + length input \<le> TTY_BUF_SIZE"
  shows "\<exists>t' out sigs. tty_input (\<lambda>t. t) t input blocking es = Some (Inr (length input), t', out, sigs)
     \<and> tty_wf t' \<and> settings t t' \<and> items t' = fold (line_edit t) input (items t)"
  using input_edits [OF assms] by blast

definition foreground :: "tty \<Rightarrow> reader \<Rightarrow> bool" where
  "foreground t rd \<longleftrightarrow> \<not> rd_current rd \<or> fg_group t = 0 \<or> rd_pgid rd = fg_group t"

definition plain_reader :: "tty \<Rightarrow> reader \<Rightarrow> bool" where
  "plain_reader t rd \<longleftrightarrow> foreground t rd \<and> \<not> hung_up t \<and> \<not> (driver t = Pty_master \<and> packet_mode t)"

text \<open>What is left of the queue after taking \<open>m\<close> characters: an end-of-file mark at the front goes too.\<close>

definition after_read :: "nat \<Rightarrow> (u8 \<times> bool) list \<Rightarrow> (u8 \<times> bool) list" where
  "after_read m q = (case drop m q of x # xs \<Rightarrow> if x = (0, True) then xs else x # xs | [] \<Rightarrow> [])"

text \<open>How much a read of at most \<open>n\<close> takes: up to the first mark, and the mark itself unless it is an end of file.\<close>

definition line_take :: "nat \<Rightarrow> (u8 \<times> bool) list \<Rightarrow> nat" where
  "line_take n q =
     (let k = length (takeWhile (\<lambda>x. \<not> snd x) q) in min n (if fst (q ! k) = 0 then k else k + 1))"

lemma takeWhile_mark:
  "\<exists>x\<in>set q. P x \<Longrightarrow> length (takeWhile (\<lambda>x. \<not> P x) q) < length q"
  by (induction q) auto

lemma canonical_read:
  assumes "tty_wf t'" "tst (lflags (termios t)) ICANON" "plain_reader t rd" "n > 0"
    and w: "wait_line False False (rd_nonblock rd) t es = Some (Inr c, t', es')" and c: "tty_canon_size t' = Some c"
  shows "\<exists>t2. tty_read False t rd n es = Some (Inr (map fst (take (line_take n (items t')) (items t'))), t2, rd)
     \<and> tty_wf t2 \<and> items t2 = after_read (line_take n (items t')) (items t')"
proof -
  let ?q = "items t'" and ?k = "length (takeWhile (\<lambda>x. \<not> snd x) (items t'))"
  have m: "\<exists>x\<in>set ?q. snd x" and ck: "c = ?k + 1"
    using c canon_size_items [OF assms(1)] by (auto split: if_split_asm)
  have "?k < bufsize t'" using takeWhile_mark [OF m] length_items [OF assms(1)] by simp
  then have k: "buf t' ! ?k = fst (?q ! ?k)" using nth_items [OF assms(1)] by simp
  obtain d t2 where fr: "finish_read t' (line_take n ?q) = Some (d, t2)" using finish_read_some [OF assms(1)] by blast
  have fg: "tty_signal_if_background t rd SIGTTIN = (Inr (), rd)"
    using assms(3) by (auto simp: tty_signal_if_background_def plain_reader_def foreground_def)
  have sz: "(if n > (if buf t' ! (c - 1) = 0 then c - 1 else c) then (if buf t' ! (c - 1) = 0 then c - 1 else c) else n) = line_take n ?q"
    by (simp add: line_take_def Let_def ck k min_def)
  have p: "(driver t = Pty_master \<and> packet_mode t) = False" and h: "\<not> hung_up t"
    using assms(3) by (auto simp: plain_reader_def)
  have "tty_read False t rd n es = Some (Inr d, t2, rd)"
    unfolding tty_read_def Let_def p if_False sz using assms(2,4) h fg w fr sz by simp
  then show ?thesis using finish_read_items [OF assms(1) fr] by (simp add: after_read_def)
qed

text \<open>C29. A canonical read of a foreground reader returns at once when the queue holds a line end: it gets the characters up
  to and including the first line end (an end-of-file mark ends the line and is not delivered), at most as many
  as it asked for, and exactly these and a following end-of-file mark leave the queue.\<close>

theorem tty_read_one_line:
  assumes "tty_wf t" "tst (lflags (termios t)) ICANON" "plain_reader t rd" "n > 0" "\<exists>x\<in>set (items t). snd x"
  shows "\<exists>t2. tty_read False t rd n es = Some (Inr (map fst (take (line_take n (items t)) (items t))), t2, rd)
     \<and> tty_wf t2 \<and> items t2 = after_read (line_take n (items t)) (items t)"
proof -
  obtain c where c: "tty_canon_size t = Some c" using canon_size_items [OF assms(1)] assms(5) by simp
  then have "wait_line False False (rd_nonblock rd) t es = Some (Inr c, t, es)" by (simp add: wait_line.simps)
  then show ?thesis by (rule canonical_read [OF assms(1-4) _ c])
qed

text \<open>A character that is stored as it is, and a terminal whose newline ends the line.\<close>

definition plain_char :: "tty \<Rightarrow> u8 \<Rightarrow> bool" where
  "plain_char t c \<longleftrightarrow> map_input (iflags (termios t)) c = c \<and> c \<notin> {0, 0x0a, 0x0d} \<and> input_signal t c = None
     \<and> (\<forall>i\<in>{VERASE, VKILL, VEOF, VEOL}. \<not> is_cc t c i)"

definition newline_ends :: "tty \<Rightarrow> bool" where
  "newline_ends t \<longleftrightarrow> \<not> tst (iflags (termios t)) INLCR \<and> (\<forall>i\<in>{VERASE, VKILL, VEOF}. \<not> is_cc t 0x0a i)"

lemma plain_edit: "plain_char t c \<Longrightarrow> line_edit t c q = q @ [(c, False)]"
  by (auto simp: line_edit_def plain_char_def Let_def)

lemma plain_edits: "\<forall>c\<in>set s. plain_char t c \<Longrightarrow> fold (line_edit t) s q = q @ map (\<lambda>c. (c, False)) s"
  by (induction s arbitrary: q) (simp_all add: plain_edit)

lemma newline_edit: "newline_ends t \<Longrightarrow> line_edit t 0x0a q = q @ [(0x0a, True)]"
  by (auto simp: line_edit_def newline_ends_def map_input_def Let_def)

lemma plain_not_end: "plain_char t c \<Longrightarrow> \<not> ends_line t c"
  by (auto simp: ends_line_def plain_char_def Let_def)

lemma newline_is_end: "newline_ends t \<Longrightarrow> ends_line t 0x0a"
  by (auto simp: ends_line_def newline_ends_def map_input_def Let_def)

lemma settings_chars:
  "settings t u \<Longrightarrow> plain_char u c = plain_char t c" "settings t u \<Longrightarrow> newline_ends u = newline_ends t"
  by (simp_all add: plain_char_def newline_ends_def settings_fields)

text \<open>What another thread does that types \<open>s\<close> into the terminal.\<close>

definition typing :: "u8 list \<Rightarrow> tty \<Rightarrow> tty" where
  "typing s t = (case tty_input (\<lambda>t. t) t s False [] of Some (_, t', _) \<Rightarrow> t' | None \<Rightarrow> t)"

abbreviation types :: "u8 list \<Rightarrow> wakeup" where
  "types s \<equiv> Woken (typing s) False"

text \<open>A terminal in whose queue the unfinished line \<open>p\<close> stands, with room for \<open>k\<close> more characters.\<close>

definition unfinished :: "tty \<Rightarrow> u8 list \<Rightarrow> nat \<Rightarrow> bool" where
  "unfinished t p k \<longleftrightarrow> tty_wf t \<and> tst (lflags (termios t)) ICANON \<and> items t = map (\<lambda>c. (c, False)) p \<and> length p + k \<le> TTY_BUF_SIZE"

lemma unfinished_none: "unfinished t p k \<Longrightarrow> tty_canon_size t = None"
  using canon_size_items [of t] by (auto simp: unfinished_def)

text \<open>Typing ordinary characters notifies nobody; typing the newline notifies the readers.\<close>

lemma typing_plain:
  assumes "unfinished t p (length s + k)" "\<forall>c\<in>set s. plain_char t c"
  shows "unfinished (typing s t) (p @ s) k \<and> settings t (typing s t) \<and> produced (typing s t) = produced t"
proof -
  have room: "length (items t) + length s \<le> TTY_BUF_SIZE" using assms(1) by (simp add: unfinished_def)
  obtain t1 o1 s1 where i: "tty_input (\<lambda>t. t) t s False [] = Some (Inr (length s), t1, o1, s1)"
    and t1: "tty_wf t1" "settings t t1" "items t1 = fold (line_edit t) s (items t)"
      "produced t1 = produced t + length (filter (ends_line t) s)"
    using input_edits [of t s False "[]"] assms(1) room by (auto simp: unfinished_def)
  have "filter (ends_line t) s = []" using assms(2) plain_not_end by (auto simp: filter_empty_conv)
  then show ?thesis using i t1 assms(1) plain_edits [OF assms(2)] settings_fields(1) [OF t1(2)]
    by (simp add: typing_def unfinished_def)
qed

lemma typing_line:
  assumes "unfinished t p (Suc (length s))" "\<forall>c\<in>set s. plain_char t c" "newline_ends t"
  shows "tty_wf (typing (s @ [0x0a]) t) \<and> items (typing (s @ [0x0a]) t) = map (\<lambda>c. (c, False)) (p @ s) @ [(0x0a, True)]
     \<and> produced (typing (s @ [0x0a]) t) = produced t + 1"
proof -
  have room: "length (items t) + length (s @ [0x0a]) \<le> TTY_BUF_SIZE" using assms(1) by (simp add: unfinished_def)
  obtain t1 o1 s1 where i: "tty_input (\<lambda>t. t) t (s @ [0x0a]) False [] = Some (Inr (length (s @ [0x0a])), t1, o1, s1)"
    and t1: "tty_wf t1" "settings t t1" "items t1 = fold (line_edit t) (s @ [0x0a]) (items t)"
      "produced t1 = produced t + length (filter (ends_line t) (s @ [0x0a]))"
    using input_edits [of t "s @ [0x0a]" False "[]"] assms(1) room by (auto simp: unfinished_def)
  have "filter (ends_line t) s = []" using assms(2) plain_not_end by (auto simp: filter_empty_conv)
  then show ?thesis
    using i t1 assms(1) plain_edits [OF assms(2)] newline_edit [OF assms(3)] newline_is_end [OF assms(3)]
    by (simp add: typing_def unfinished_def)
qed

text \<open>A reader that waits for a line sleeps through its characters, and wakes up when the newline is typed.\<close>

lemma reader_sleeps:
  "unfinished t p (length (concat ss)) \<Longrightarrow> \<forall>c\<in>set (concat ss). plain_char t c \<Longrightarrow>
   wait_line asleep False False t (map types ss) = None"
proof (induction ss arbitrary: asleep t p)
  case Nil
  then show ?case using unfinished_none by (simp add: wait_line.simps)
next
  case (Cons s ss)
  have u: "unfinished (typing s t) (p @ s) (length (concat ss))" "settings t (typing s t)" "produced (typing s t) = produced t"
    using typing_plain [of t p s "length (concat ss)"] Cons.prems by auto
  have "wait_line True False False (typing s t) (map types ss) = None"
    using Cons.IH [OF u(1)] Cons.prems(2) settings_chars(1) [OF u(2)] by simp
  then show ?case using u(3) unfinished_none [OF Cons.prems(1)] by (simp add: wait_line.simps [of asleep False False t "_ # _"])
qed

lemma append_line_cases:
  assumes "v @ w = s @ [x]"
  obtains s' where "s = v @ s'" "w = s' @ [x]" | "v = s @ [x]" "w = []"
proof (cases w rule: rev_cases)
  case Nil
  then show thesis using assms that(2) by simp
next
  case (snoc w' y)
  then show thesis using assms that(1) [of w'] by simp
qed

lemma reader_wakes:
  "unfinished t p (length (concat ss)) \<Longrightarrow> concat ss = s @ [0x0a] \<Longrightarrow> \<forall>c\<in>set s. plain_char t c \<Longrightarrow> newline_ends t \<Longrightarrow>
   \<exists>t1 es'. wait_line asleep False False t (map types ss @ es) = Some (Inr (length (p @ s) + 1), t1, es')
      \<and> tty_wf t1 \<and> items t1 = map (\<lambda>c. (c, False)) (p @ s) @ [(0x0a, True)]"
proof (induction ss arbitrary: asleep t p s)
  case Nil
  then show ?case by simp
next
  case (Cons v ss)
  note none = unfinished_none [OF Cons.prems(1)]
  have "v @ concat ss = s @ [0x0a]" using Cons.prems(2) by simp
  then show ?case
  proof (cases rule: append_line_cases)
    case (1 s')
    have u: "unfinished (typing v t) (p @ v) (length (concat ss))" "settings t (typing v t)" "produced (typing v t) = produced t"
      using typing_plain [of t p v "length (concat ss)"] Cons.prems 1 by auto
    have "\<exists>t1 es'. wait_line True False False (typing v t) (map types ss @ es) = Some (Inr (length ((p @ v) @ s') + 1), t1, es')
       \<and> tty_wf t1 \<and> items t1 = map (\<lambda>c. (c, False)) ((p @ v) @ s') @ [(0x0a, True)]"
      by (rule Cons.IH [OF u(1) 1(2)]) (use Cons.prems 1 settings_chars [OF u(2)] in auto)
    then show ?thesis using u(3) none 1(1) by (simp add: wait_line.simps [of asleep False False t "_ # _"])
  next
    case 2
    let ?t = "typing v t" and ?l = "map (\<lambda>c. (c, False)) (p @ s)"
    have t: "tty_wf ?t" "items ?t = ?l @ [(0x0a, True)]" "produced ?t = produced t + 1"
      using typing_line [of t p s] Cons.prems 2 by auto
    have "takeWhile (\<lambda>x. \<not> snd x) (?l @ [(0x0a, True)]) = ?l" by (subst takeWhile_append2) auto
    then have c: "tty_canon_size ?t = Some (length (p @ s) + 1)" using canon_size_items [OF t(1)] by (simp add: t(2))
    then have "wait_line False False False ?t es' = Some (Inr (length (p @ s) + 1), ?t, es')" for es'
      by (simp add: wait_line.simps)
    then show ?thesis using t none by (simp add: wait_line.simps [of asleep False False t "_ # _"])
  qed
qed

lemma read_sleeps:
  assumes "tst (lflags (termios t)) ICANON" "plain_reader t rd" "n > 0" "wait_line False False (rd_nonblock rd) t es = None"
  shows "tty_read False t rd n es = None"
  using assms by (auto simp: tty_read_def plain_reader_def foreground_def tty_signal_if_background_def Let_def)

text \<open>C21. A reader blocked on an empty canonical terminal sleeps through the characters of a line, in however many pieces
  other threads type them, and returns with the line once its newline is typed: the characters come back as
  they were typed, and nothing of the line is left behind. A thread that types does not wake the reader by
  being in the list of events: the reader looks at the queue again only because the input of the newline
  notifies the condition it sleeps on, which the input of the other characters does not.\<close>

theorem blocked_reader_gets_line:
  assumes "tty_wf t" "tst (lflags (termios t)) ICANON" "plain_reader t rd" "\<not> rd_nonblock rd" "items t = []"
    and "\<forall>c\<in>set s. plain_char t c" "newline_ends t" "length s < n" "length s < TTY_BUF_SIZE"
  shows "(\<forall>ss k. concat ss = take k s \<longrightarrow> tty_read False t rd n (map types ss) = None) \<and>
     (\<forall>ss. concat ss = s @ [0x0a] \<longrightarrow>
        (\<exists>t2. tty_read False t rd n (map types ss @ es) = Some (Inr (s @ [0x0a]), t2, rd) \<and> items t2 = []))"
proof (intro conjI allI impI)
  have u: "unfinished t [] k" if "k \<le> length s + 1" for k
    using that assms(1,2,5,9) by (simp add: unfinished_def)
  have n: "n > 0" and nb: "rd_nonblock rd = False" using assms(4,8) by simp_all
  fix ss k
  assume ss: "concat ss = take k s"
  have "wait_line False False (rd_nonblock rd) t (map types ss) = None"
    unfolding nb by (rule reader_sleeps [OF u]) (use ss assms(6) in_set_takeD in \<open>fastforce\<close>)+
  then show "tty_read False t rd n (map types ss) = None" by (rule read_sleeps [OF assms(2,3) n])
next
  have u: "unfinished t [] k" if "k \<le> length s + 1" for k
    using that assms(1,2,5,9) by (simp add: unfinished_def)
  have n: "n > 0" and nb: "rd_nonblock rd = False" using assms(4,8) by simp_all
  fix ss
  assume ss: "concat ss = s @ [0x0a]"
  let ?l = "map (\<lambda>c. (c, False)) s"
  obtain t1 es' where w: "wait_line False False (rd_nonblock rd) t (map types ss @ es) = Some (Inr (length s + 1), t1, es')"
    and t1: "tty_wf t1" "items t1 = ?l @ [(0x0a, True)]"
    using reader_wakes [OF u ss assms(6,7), of False es] ss by (auto simp: nb)
  have tw: "takeWhile (\<lambda>x. \<not> snd x) (?l @ [(0x0a, True)]) = ?l"
    by (subst takeWhile_append2) auto
  have c: "tty_canon_size t1 = Some (length s + 1)" using canon_size_items [OF t1(1)] by (simp add: t1(2) tw)
  have lt: "line_take n (items t1) = length s + 1"
    using assms(8) by (simp add: line_take_def t1(2) tw Let_def nth_append)
  show "\<exists>t2. tty_read False t rd n (map types ss @ es) = Some (Inr (s @ [0x0a]), t2, rd) \<and> items t2 = []"
    using canonical_read [OF t1(1) assms(2,3) n w c] unfolding lt
    by (auto simp: t1(2) after_read_def comp_def)
qed


section \<open>Hanging up\<close>

lemma wait_line_hangups:
  "tty_canon_size t = None \<Longrightarrow> wait_line False False False t (replicate k (Woken tty_hangup False)) = None"
proof (induction k arbitrary: t)
  case 0
  then show ?case by (simp add: wait_line.simps)
next
  case (Suc k)
  have "tty_canon_size (tty_hangup t) = None" using Suc.prems by (simp add: tty_canon_size_def tty_hangup_def tty_input_wakeup_def)
  moreover have "produced (tty_hangup t) \<noteq> produced t" by (simp add: tty_hangup_def tty_input_wakeup_def)
  ultimately show ?case using Suc by (simp add: wait_line.simps [of False False False t "_ # _"])
qed

text \<open>Hanging up a terminal wakes its blocked canonical reader, but the loop it waits in does not look at the
  hang-up: however often it is woken it goes back to waiting, while a read that starts after the hang-up ends
  at once with the end of the file.\<close>

theorem hangup_leaves_reader_blocked:
  assumes "tst (lflags (termios t)) ICANON" "plain_reader t rd" "\<not> rd_nonblock rd" "n > 0" "tty_canon_size t = None"
  shows "tty_read False t rd n (replicate k (Woken tty_hangup False)) = None
         \<and> tty_read False (tty_hangup t) rd n es = Some (Inr [], tty_hangup t, rd)"
proof -
  have fg: "tty_signal_if_background t rd SIGTTIN = (Inr (), rd)"
    using assms(2) by (auto simp: tty_signal_if_background_def plain_reader_def foreground_def)
  have p: "(driver t = Pty_master \<and> packet_mode t) = False" and h: "\<not> hung_up t"
    using assms(2) by (auto simp: plain_reader_def)
  have "tty_read False t rd n (replicate k (Woken tty_hangup False)) = None"
    unfolding tty_read_def Let_def p if_False
    using assms(1,3,4) h fg wait_line_hangups [OF assms(5)] by simp
  then show ?thesis using assms(4) by (simp add: tty_read_def tty_hangup_def tty_input_wakeup_def)
qed

section \<open>Output\<close>


section \<open>A mark that outlives its line\<close>

text \<open>\<open>np\<close> and \<open>nc\<close> count the notifications.\<close>

definition ex_tty :: "u8 list \<Rightarrow> bool list \<Rightarrow> nat \<Rightarrow> termios \<Rightarrow> nat \<Rightarrow> nat \<Rightarrow> tty" where
  "ex_tty b fl n m np nc = \<lparr>tty_refcount = 1, driver = Pty_slave, hung_up = False, ever_opened = True, buf = b,
     buf_flag = fl, bufsize = n, packet_flags = 0, winsize = \<lparr>ws_row = 0, ws_col = 0, ws_xpixel = 0, ws_ypixel = 0\<rparr>,
     termios = m, tty_type = 136, tty_num = 0, session = 0, fg_group = 0, pty_other = None, pty_perms = 0,
     pty_uid = 0, pty_gid = 0, pty_locked = False, packet_mode = False, produced = np, consumed = nc\<rparr>"

definition raw_termios :: termios where "raw_termios = default_termios\<lparr>lflags := 0\<rparr>"

definition ex_reader :: reader where
  "ex_reader = \<lparr>rd_current = False, rd_pgid = 5, rd_sighand = ex_sighand, rd_task = ex_task, rd_nonblock = False\<rparr>"

lemmas cc_simps = is_cc_def VINTR_def VQUIT_def VERASE_def VKILL_def VEOF_def VTIME_def VMIN_def VSTART_def VSTOP_def
  VSUSP_def VEOL_def default_termios_def

lemmas flag_simps = ISIG_def ICANON_def ECHO_def ECHOE_def ECHOK_def ECHOKE_def NOFLSH_def ECHOCTL_def IEXTEN_def
  INLCR_def IGNCR_def ICRNL_def IXON_def

text \<open>An end of file typed after one character, read, leaves the mark behind in the second place of the array.\<close>

lemma typed_a:
  "\<exists>o1. canon_char (\<lambda>t. t) False (lflags default_termios) (iflags default_termios) 0x61
    \<lparr>in_tty = ex_tty (b0 # b1 # bs) (f0 # f1 # fs) 0 default_termios np nc, in_done = 0, in_err = Inr (), in_queue = 0,
      in_out = [], in_events = []\<rparr>
   = Some (True, \<lparr>in_tty = ex_tty (0x61 # b1 # bs) (False # f1 # fs) 1 default_termios np nc, in_done = 1, in_err = Inr (),
      in_queue = 0, in_out = o1, in_events = []\<rparr>)"
  by (simp add: Let_def ex_tty_def canon_char_def push_or_break_def tty_push_char_def
      put_char_def TTY_BUF_SIZE_def map_input_def input_signal_def tty_send_input_signal_def cc_simps flag_simps
      echo_char_def SHOULD_ECHOCTL_def tty_echo_def wait_room_free)

lemma typed_mark:
  "canon_char (\<lambda>t. t) False (lflags default_termios) (iflags default_termios) 0x04
    \<lparr>in_tty = ex_tty (0x61 # b1 # bs) (False # f1 # fs) 1 default_termios np nc, in_done = 1, in_err = Inr (), in_queue = 0,
      in_out = o1, in_events = []\<rparr>
   = Some (True, \<lparr>in_tty = ex_tty (0x61 # 0 # bs) (False # True # fs) 2 default_termios (Suc np) nc, in_done = 2, in_err = Inr (),
      in_queue = 0, in_out = o1, in_events = []\<rparr>)"
  by (simp add: Let_def ex_tty_def canon_char_def push_line_end_def push_or_break_def tty_push_char_def
      put_char_def TTY_BUF_SIZE_def map_input_def cc_simps flag_simps wait_room_free tty_input_wakeup_def)

lemma typed_eof:
  "\<exists>o1 s1. tty_input (\<lambda>t. t) (ex_tty (b0 # b1 # bs) (f0 # f1 # fs) 0 default_termios np nc) [0x61, 0x04] False [] =
     Some (Inr 2, ex_tty (0x61 # 0 # bs) (False # True # fs) 2 default_termios (Suc np) nc, o1, s1)"
proof -
  have m: "termios (ex_tty b f n m p c) = m" "fg_group (ex_tty b f n m p c) = 0" "bufsize (ex_tty b f n m p c) = n" for b f n m p c
    by (simp_all add: ex_tty_def)
  have i: "tst (lflags default_termios) ICANON" by (simp add: cc_simps flag_simps)
  obtain o1 where a: "canon_char (\<lambda>t. t) False (lflags default_termios) (iflags default_termios) 0x61
    \<lparr>in_tty = ex_tty (b0 # b1 # bs) (f0 # f1 # fs) 0 default_termios np nc, in_done = 0, in_err = Inr (), in_queue = 0,
      in_out = [], in_events = []\<rparr>
   = Some (True, \<lparr>in_tty = ex_tty (0x61 # b1 # bs) (False # f1 # fs) 1 default_termios np nc, in_done = 1, in_err = Inr (),
      in_queue = 0, in_out = o1, in_events = []\<rparr>)"
    using typed_a by blast
  show ?thesis by (simp only: tty_input_def Let_def m i if_True canon_loop.simps a bind.bind_lunit split) (simp add: typed_mark [unfolded One_nat_def] m TTY_BUF_SIZE_def)
qed

lemma small_sizes: "szsub 2 1 = 1" "szsub (Suc 0) (Suc 0) = 0" "szsub 2 (Suc 0) = 1" "szsub (Suc (Suc 0)) (Suc 0) = Suc 0"
  by (simp_all add: szsub_exact size_max_def)

lemma read_eof:
  "tty_read False (ex_tty (0x61 # 0 # bs) (False # True # fs) 2 default_termios np nc) ex_reader 16 [] =
     Some (Inr [0x61], ex_tty (0 # 0 # bs) (True # True # fs) 0 default_termios np (Suc (Suc nc)), ex_reader)"
  by (simp add: tty_read_def Let_def ex_tty_def ex_reader_def cc_simps flag_simps wait_line.simps tty_canon_size_def
      tty_signal_if_background_def finish_read_def tty_read_into_buf_def eval_nat_numeral small_sizes [unfolded One_nat_def numeral_2_eq_2])

lemma raw_input:
  "\<exists>o1 s1. tty_input (\<lambda>t. t) (ex_tty (c0 # c1 # bs) (True # True # fs) 0 raw_termios np nc) [0x78, 0] False [] =
     Some (Inr 2, ex_tty (0x78 # 0 # bs) (True # True # fs) 2 raw_termios (Suc np) nc, o1, s1)"
  by (simp add: tty_input_def Let_def ex_tty_def raw_termios_def raw_char_def TTY_BUF_SIZE_def input_signal_def
      tty_send_input_signal_def cc_simps flag_simps wait_room_free tty_input_wakeup_def)

lemma raw_read:
  "tty_read False (ex_tty (0x78 # 0 # bs) (True # True # fs) 2 raw_termios np nc) ex_reader 1 [] =
     Some (Inr [0x78], ex_tty (0 # 0 # bs) (True # True # fs) 0 raw_termios np (Suc (Suc nc)), ex_reader)"
  by (simp add: tty_read_def Let_def ex_tty_def ex_reader_def raw_termios_def cc_simps flag_simps wait_min.simps
      tty_signal_if_background_def finish_read_def tty_read_into_buf_def small_sizes)

text \<open>Raw input does not clear the mark of the place it stores to. On a terminal where an end of file was typed and read
  before it was made raw, a null byte typed raw after another character is taken for a leftover end of file
  by the read of that character and lost.\<close>

theorem raw_nul_lost:
  "\<exists>t1 t2 t3 t4 o1 o3 s1 s3.
     tty_input (\<lambda>t. t) (ex_tty (b0 # b1 # bs) (f0 # f1 # fs) 0 default_termios np nc) [0x61, 0x04] False [] = Some (Inr 2, t1, o1, s1)
   \<and> tty_read False t1 ex_reader 16 [] = Some (Inr [0x61], t2, ex_reader)
   \<and> tty_input (\<lambda>t. t) (fst (snd (tty_mode_ioctl t2 (Tcsets raw_termios)))) [0x78, 0] False [] = Some (Inr 2, t3, o3, s3)
   \<and> tty_read False t3 ex_reader 1 [] = Some (Inr [0x78], t4, ex_reader) \<and> bufsize t4 = 0"
proof -
  have "(ex_tty (0 # 0 # bs) (True # True # fs) 0 default_termios n1 n2)\<lparr>termios := raw_termios\<rparr> =
      ex_tty (0 # 0 # bs) (True # True # fs) 0 raw_termios n1 n2" for n1 n2
    by (simp add: ex_tty_def)
  then show ?thesis
    using typed_eof [of b0 b1 bs f0 f1 fs np nc] read_eof [of bs fs "Suc np" nc] raw_input [of 0 0 bs fs "Suc np" "Suc (Suc nc)"]
      raw_read [of bs fs "Suc (Suc np)" "Suc (Suc nc)"]
    by (force simp: tty_mode_ioctl_def ex_tty_def)
qed

section \<open>Examples\<close>

definition empty_tty :: tty where
  "empty_tty = ex_tty (replicate TTY_BUF_SIZE 0) (replicate TTY_BUF_SIZE False) 0 default_termios 0 0"

lemma empty_tty_facts:
  "tty_wf empty_tty" "items empty_tty = []" "tst (lflags (termios empty_tty)) ICANON" "plain_reader empty_tty ex_reader"
  "\<not> rd_nonblock ex_reader" "tty_canon_size empty_tty = None" "newline_ends empty_tty" "plain_char empty_tty 0x61"
  by (simp_all add: empty_tty_def ex_tty_def tty_wf_def items_def plain_reader_def foreground_def ex_reader_def
      tty_canon_size_def newline_ends_def plain_char_def map_input_def input_signal_def cc_simps flag_simps)

theorem tty_input_edits_lines_witness:
  "\<exists>t' out sigs. tty_input (\<lambda>t. t) empty_tty [0x61, 0x7f, 0x61, 0x0a] False [] = Some (Inr 4, t', out, sigs)
     \<and> items t' = [(0x61, False), (0x0a, True)]"
proof -
  have e: "line_edit empty_tty 0x7f [(0x61, False)] = []"
    by (simp add: empty_tty_def ex_tty_def line_edit_def Let_def map_input_def cc_simps flag_simps)
  show ?thesis
    using tty_input_edits_lines [of empty_tty "[0x61, 0x7f, 0x61, 0x0a]" False "[]"] empty_tty_facts(1-3)
    by (simp add: TTY_BUF_SIZE_def plain_edit [OF empty_tty_facts(8)] newline_edit [OF empty_tty_facts(7)] e)
      (auto simp: eval_nat_numeral)
qed

definition line_tty :: tty where
  "line_tty = ex_tty (0x61 # 0x0a # replicate 4094 0) (False # True # replicate 4094 False) 2 default_termios 1 0"

theorem tty_read_one_line_witness:
  "\<exists>t2. tty_read False line_tty ex_reader 16 [] = Some (Inr [0x61, 0x0a], t2, ex_reader) \<and> items t2 = []"
proof -
  have q: "items line_tty = [(0x61, False), (0x0a, True)]"
    by (simp add: items_def line_tty_def ex_tty_def eval_nat_numeral)
  have wf: "tty_wf line_tty" by (simp add: tty_wf_def line_tty_def ex_tty_def TTY_BUF_SIZE_def)
  have m: "tst (lflags (termios line_tty)) ICANON" "plain_reader line_tty ex_reader"
    by (simp_all add: line_tty_def ex_tty_def plain_reader_def foreground_def ex_reader_def cc_simps flag_simps)
  show ?thesis using tty_read_one_line [OF wf m, of 16 "[]"]
    by (simp add: q line_take_def after_read_def) blast
qed

theorem blocked_reader_gets_line_witness:
  "tty_read False empty_tty ex_reader 16 [types [0x61]] = None \<and>
   (\<exists>t2. tty_read False empty_tty ex_reader 16 [types [0x61], types [0x0a]] = Some (Inr [0x61, 0x0a], t2, ex_reader))"
proof -
  have "(\<forall>ss k. concat ss = take k [0x61] \<longrightarrow> tty_read False empty_tty ex_reader 16 (map types ss) = None) \<and>
     (\<forall>ss. concat ss = [0x61] @ [0x0a] \<longrightarrow>
        (\<exists>t2. tty_read False empty_tty ex_reader 16 (map types ss @ []) = Some (Inr ([0x61] @ [0x0a]), t2, ex_reader) \<and> items t2 = []))"
    by (rule blocked_reader_gets_line) (use empty_tty_facts in \<open>simp_all add: TTY_BUF_SIZE_def\<close>)
  note r = this
  show ?thesis using conjunct1 [OF r, rule_format, of "[[0x61]]" 1] conjunct2 [OF r, rule_format, of "[[0x61], [0x0a]]"]
    by auto
qed

theorem hangup_leaves_reader_blocked_witness:
  "tty_read False empty_tty ex_reader 16 (replicate 3 (Woken tty_hangup False)) = None"
  using hangup_leaves_reader_blocked [of empty_tty ex_reader 16 3 "[]"] empty_tty_facts by simp



end
