(* ===== verification/Pty_Props.thy ===== *)
theory Pty_Props
  imports Pty Tty_Lines
begin

text \<open>
  Properties of pseudoterminals: opening \<^verbatim>\<open>/dev/ptmx\<close> makes a linked pair at the first free number, closing
  the master undoes it, partners refer to each other for as long as both live, and releasing a reference never
  touches a terminal that is gone.
\<close>

section \<open>Tables\<close>

definition tables_ok :: "ttys \<Rightarrow> bool" where
  "tables_ok w \<longleftrightarrow> length (masters w) = MAX_PTYS \<and> length (slaves w) = MAX_PTYS"

definition first_free :: "ttys \<Rightarrow> nat" where
  "first_free w = length (takeWhile (\<lambda>s. s \<noteq> No_tty) (slaves w))"

lemma first_free_slot: "first_free w < length (slaves w) \<Longrightarrow> slaves w ! first_free w = No_tty"
  unfolding first_free_def by (metis (mono_tags, lifting) nth_length_takeWhile)

lemma reserve_next:
  assumes "tables_ok w"
  shows "pty_reserve_next w =
    (if first_free w < MAX_PTYS then Some (first_free w, w\<lparr>slaves := (slaves w)[first_free w := Reserved]\<rparr>) else None)"
  using assms by (simp add: pty_reserve_next_def tables_ok_def first_free_def put_slot_def table_def Let_def)

lemma first_free_le: "first_free w \<le> length (slaves w)"
  by (simp add: first_free_def length_takeWhile_le)

lemma first_free_used:
  assumes "n < first_free w"
  shows "slaves w ! n \<noteq> No_tty"
  using assms nth_mem [of n "takeWhile (\<lambda>s. s \<noteq> No_tty) (slaves w)"] set_takeWhileD takeWhile_nth
  unfolding first_free_def by metis

text \<open>Opening a new pty with all 4096 numbers in use is not refused: the search ends one past the table and
  reserves that place, outside the array, before it compares the number with the limit.\<close>

theorem ptmx_full_writes_outside:
  assumes "tables_ok w" "No_tty \<notin> set (slaves w)"
  shows "ptmx_open c noctty w = None \<and> pty_open_fake c k w = None"
proof -
  have "takeWhile (\<lambda>s. s \<noteq> No_tty) (slaves w) = slaves w"
    using assms(2) by (auto simp: takeWhile_eq_all_conv)
  then have "first_free w = length (slaves w)" by (simp only: first_free_def)
  then have "first_free w = MAX_PTYS" using assms(1) by (simp add: tables_ok_def)
  then show ?thesis using reserve_next [OF assms(1)] by (simp add: ptmx_open_def pty_open_fake_def)
qed

section \<open>A new pair\<close>

definition new_master :: "caller \<Rightarrow> nat \<Rightarrow> nat \<Rightarrow> tty" where
  "new_master c n s = (the (tty_alloc True (c_junk c) Pty_master TTY_PSEUDO_MASTER_MAJOR n))
     \<lparr>termios := default_termios\<lparr>iflags := 0, oflags := 0, lflags := 0\<rparr>, pty_other := Some s, tty_refcount := 1, ever_opened := True\<rparr>"

definition new_slave :: "caller \<Rightarrow> nat \<Rightarrow> nat \<Rightarrow> tty" where
  "new_slave c n m = (the (tty_alloc True (c_junk c) Pty_slave TTY_PSEUDO_SLAVE_MAJOR n))
     \<lparr>pty_other := Some m, tty_refcount := 1, pty_locked := True, pty_uid := c_euid c, pty_gid := c_egid c, pty_perms := 0x190\<rparr>"

definition with_pair :: "caller \<Rightarrow> ttys \<Rightarrow> ttys" where
  "with_pair c w =
     (let n = first_free w; m = next_id w; s = next_id w + 1 in
      w\<lparr>heap := (heap w)(m \<mapsto> new_master c n s, s \<mapsto> new_slave c n m), next_id := next_id w + 2,
        masters := (masters w)[n := Tty_at m], slaves := (slaves w)[n := Tty_at s]\<rparr>)"

text \<open>
  A session leader without a terminal that opens one without \<^verbatim>\<open>O_NOCTTY\<close> gets it as its controlling terminal:
  its group refers to the master as well, which is a second reference.
\<close>

definition becomes_controlling :: "caller \<Rightarrow> bool \<Rightarrow> ttys \<Rightarrow> bool" where
  "becomes_controlling c noctty w \<longleftrightarrow>
     \<not> noctty \<and> g_sid (groups w (c_group c)) = c_pid c \<and> g_tty (groups w (c_group c)) = None"

definition controlling_pair :: "caller \<Rightarrow> nat \<Rightarrow> ttys \<Rightarrow> ttys" where
  "controlling_pair c refs w =
     (let n = first_free w; m = next_id w; gr = groups w (c_group c) in
      put_tty m ((new_master c n (m + 1))\<lparr>tty_refcount := refs, session := g_sid gr, fg_group := g_pgid gr\<rparr>)
        ((with_pair c w)\<lparr>groups := (groups w)(c_group c := gr\<lparr>g_tty := Some m\<rparr>)\<rparr>))"

lemma ptmx_open_pair:
  assumes "tables_ok w" "first_free w < MAX_PTYS" "c_alloc c" "masters w ! first_free w = No_tty"
  shows "ptmx_open c noctty w =
    Some (Inr (next_id w), if becomes_controlling c noctty w then controlling_pair c 2 w else with_pair c w)"
proof -
  have ord: "w\<lparr>next_id := a, slaves := b, masters := d, heap := h\<rparr> = w\<lparr>heap := h, next_id := a, masters := d, slaves := b\<rparr>" for a b d h
    by (rule ttys.equality) simp_all
  have op: "ptmx_open c noctty w = do { w3 \<leftarrow> tty_open c noctty (next_id w) (with_pair c w); Some (Inr (next_id w), w3) }"
    using assms
    by (auto simp: ptmx_open_def reserve_next tty_get_def find_slot_def table_def tables_ok_def tty_alloc_def
        driver_init_def new_tty_def put_tty_def pty_master_init_def put_slot_def pty_slave_init_inode_def Let_def
        with_pair_def new_master_def new_slave_def fun_upd_twist ord)
  have m: "heap (with_pair c w) (next_id w) = Some (new_master c (first_free w) (next_id w + 1))"
    "groups (with_pair c w) = groups w" "\<And>s. tty_refcount (new_master c (first_free w) s) = 1"
    "\<And>s. session (new_master c (first_free w) s) = 0"
    by (simp_all add: with_pair_def Let_def new_master_def tty_alloc_def)
  show ?thesis unfolding op
    by (auto simp: tty_open_def tty_set_controlling_def becomes_controlling_def controlling_pair_def m Let_def numeral_2_eq_2)
qed

lemma close_pair:
  assumes "tables_ok w" "first_free w < MAX_PTYS" "masters w ! first_free w = No_tty"
    "heap w (next_id w) = None" "heap w (next_id w + 1) = None"
  shows "tty_close (next_id w) (with_pair c w) = Some (w\<lparr>next_id := next_id w + 2\<rparr>)"
proof -
  let ?n = "first_free w" and ?m = "next_id w" and ?s = "next_id w + 1"
  have free: "slaves w ! ?n = No_tty" using first_free_slot assms(1,2) by (simp add: tables_ok_def)
  then have upd: "(slaves w)[?n := No_tty] = slaves w" "(masters w)[?n := No_tty] = masters w"
    using assms(3) by (metis list_update_id)+
  have heap: "(heap w)(Suc ?m := None) = heap w" "(heap w)(?m := None) = heap w"
    using assms(4,5) by auto
  have rec: "w\<lparr>next_id := k, heap := heap w\<rparr> = w\<lparr>next_id := k\<rparr>" for k by (cases w) simp
  have "driver (new_master c n s) = Pty_master" "tty_refcount (new_master c n s) = 1" "tty_num (new_master c n s) = n"
    "pty_other (new_master c n s) = Some s" "driver (new_slave c n s) = Pty_slave" "tty_refcount (new_slave c n s) = 1"
    "tty_num (new_slave c n s) = n" "pty_other (new_slave c n s) = Some s" for n s
    by (simp_all add: new_master_def new_slave_def tty_alloc_def)
  note pair = this
  show ?thesis
    using assms(1,2)
    by (simp add: tty_close_def driver_close_def with_pair_def Let_def tty_release_def drop_ref_def tty_cleanup_def
        pty_master_cleanup_def pty_hangup_other_def put_tty_def put_slot_def table_def plain_cleanup_def free_tty_def
        tables_ok_def tty_hangup_def tty_input_wakeup_def upd fun_upd_twist heap pair rec)
qed

lemma close_controlling: "tty_close (next_id w) (controlling_pair c 2 w) = Some (controlling_pair c 1 w)"
proof -
  have d: "driver (new_master c n s) = Pty_master" for n s by (simp add: new_master_def tty_alloc_def)
  have ord: "t\<lparr>session := a, fg_group := b, tty_refcount := r\<rparr> = t\<lparr>tty_refcount := r, session := a, fg_group := b\<rparr>"
    for t :: tty and a b r
    by (rule tty.equality) simp_all
  show ?thesis
    by (simp add: d ord tty_close_def driver_close_def tty_release_def drop_ref_def controlling_pair_def Let_def put_tty_def)
qed

text \<open>C28. Opening \<^verbatim>\<open>/dev/ptmx\<close> creates a pair at the lowest free number: the new master and slave refer to each
  other, both tables hold them at that number, the slave is locked, and nothing else changes. Closing the
  master again frees both and leaves tables and terminals as before. The exception is a session leader
  without a terminal whose descriptor lacks \<^verbatim>\<open>O_NOCTTY\<close>: the master becomes its controlling terminal, and closing
  the descriptor only drops one of two references, so the pair stays in the tables.\<close>

theorem ptmx_open_close:
  assumes "tables_ok w" "first_free w < MAX_PTYS" "c_alloc c" "masters w ! first_free w = No_tty"
    and "heap w (next_id w) = None" "heap w (next_id w + 1) = None"
  shows "if becomes_controlling c noctty w
    then ptmx_open c noctty w = Some (Inr (next_id w), controlling_pair c 2 w)
         \<and> tty_close (next_id w) (controlling_pair c 2 w) = Some (controlling_pair c 1 w)
    else ptmx_open c noctty w = Some (Inr (next_id w), with_pair c w)
         \<and> tty_close (next_id w) (with_pair c w) = Some (w\<lparr>next_id := next_id w + 2\<rparr>)"
  using ptmx_open_pair [OF assms(1-4)] close_pair [OF assms(1,2,4-6)] close_controlling by simp

section \<open>Partners\<close>

definition linked :: "(nat \<Rightarrow> tty option) \<Rightarrow> bool" where
  "linked h \<longleftrightarrow>
     (\<forall>i t. h i = Some t \<longrightarrow>
        (driver t = Pty_master \<longrightarrow>
           (\<exists>s st. pty_other t = Some s \<and> h s = Some st \<and> driver st = Pty_slave \<and> pty_other st = Some i \<and> tty_refcount st \<ge> 1)) \<and>
        (driver t = Pty_slave \<longrightarrow>
           (\<forall>m. pty_other t = Some m \<longrightarrow> (\<exists>mt. h m = Some mt \<and> driver mt = Pty_master \<and> pty_other mt = Some i))))"

definition numbered :: "ttys \<Rightarrow> bool" where
  "numbered w \<longleftrightarrow> (\<forall>i t. heap w i = Some t \<longrightarrow> tty_num t < length (table w (driver t)))"

lemma linked_master:
  assumes "linked h" "h i = Some t" "driver t = Pty_master"
  obtains s st where "pty_other t = Some s" "h s = Some st" "driver st = Pty_slave" "pty_other st = Some i"
    "tty_refcount st \<ge> 1" "s \<noteq> i"
proof -
  obtain s st where "pty_other t = Some s" "h s = Some st" "driver st = Pty_slave" "pty_other st = Some i" "tty_refcount st \<ge> 1"
    using assms unfolding linked_def by blast
  moreover have "s \<noteq> i" using \<open>h s = Some st\<close> \<open>driver st = Pty_slave\<close> assms(2,3) by auto
  ultimately show thesis using that by blast
qed

lemma linked_slave:
  assumes "linked h" "h i = Some t" "driver t = Pty_slave" "pty_other t = Some m"
  obtains mt where "h m = Some mt" "driver mt = Pty_master" "pty_other mt = Some i"
  using assms unfolding linked_def by blast

lemma linked_update:
  assumes "linked h" "h i = Some t" "driver t' = driver t" "pty_other t' = pty_other t"
    "driver t = Pty_slave \<Longrightarrow> pty_other t \<noteq> None \<Longrightarrow> tty_refcount t' \<ge> 1"
  shows "linked (h(i \<mapsto> t'))"
  unfolding linked_def
proof (intro allI impI conjI)
  fix j u assume u: "(h(i \<mapsto> t')) j = Some u"
  then obtain v where v: "h j = Some v" "driver u = driver v" "pty_other u = pty_other v"
    using assms(2-4) by (auto split: if_split_asm)
  { assume "driver u = Pty_master"
    then obtain s st where "pty_other v = Some s" "h s = Some st" "driver st = Pty_slave" "pty_other st = Some j" "tty_refcount st \<ge> 1"
      using linked_master [OF assms(1) v(1)] v by metis
    then show "\<exists>s st. pty_other u = Some s \<and> (h(i \<mapsto> t')) s = Some st \<and> driver st = Pty_slave \<and> pty_other st = Some j \<and> tty_refcount st \<ge> 1"
      using assms v by (cases "s = i") auto }
  { fix m assume "driver u = Pty_slave" "pty_other u = Some m"
    then obtain mt where "h m = Some mt" "driver mt = Pty_master" "pty_other mt = Some j"
      using linked_slave [OF assms(1) v(1)] v by metis
    then show "\<exists>mt. (h(i \<mapsto> t')) m = Some mt \<and> driver mt = Pty_master \<and> pty_other mt = Some j"
      using assms by (cases "m = i") auto }
qed

lemma linked_free:
  assumes "linked h" "h i = Some t" "driver t \<noteq> Pty_master" "driver t = Pty_slave \<Longrightarrow> pty_other t = None"
  shows "linked (h(i := None))"
  unfolding linked_def
proof (intro allI impI conjI)
  fix j u assume "(h(i := None)) j = Some u"
  then have u: "h j = Some u" "j \<noteq> i" by (auto split: if_split_asm)
  { assume "driver u = Pty_master"
    then obtain s st where s: "pty_other u = Some s" "h s = Some st" "driver st = Pty_slave" "pty_other st = Some j" "tty_refcount st \<ge> 1"
      using linked_master [OF assms(1) u(1)] by metis
    then have "s \<noteq> i" using assms(2,4) by auto
    then show "\<exists>s st. pty_other u = Some s \<and> (h(i := None)) s = Some st \<and> driver st = Pty_slave \<and> pty_other st = Some j \<and> tty_refcount st \<ge> 1"
      using s by auto }
  { fix m assume "driver u = Pty_slave" "pty_other u = Some m"
    then obtain mt where m: "h m = Some mt" "driver mt = Pty_master" "pty_other mt = Some j"
      using linked_slave [OF assms(1) u(1)] by metis
    then have "m \<noteq> i" using assms(2,3) by auto
    then show "\<exists>mt. (h(i := None)) m = Some mt \<and> driver mt = Pty_master \<and> pty_other mt = Some j"
      using m by auto }
qed

text \<open>Taking a master away, with its slave freed or cut loose.\<close>

lemma linked_unpair:
  assumes "linked h" "h m = Some mt" "driver mt = Pty_master" "pty_other mt = Some s"
    and st': "st' = None \<or> (\<exists>u. st' = Some u \<and> driver u = Pty_slave \<and> pty_other u = None)"
  shows "linked (h(s := st', m := None))"
  unfolding linked_def
proof (intro allI impI conjI)
  obtain st where st: "h s = Some st" "driver st = Pty_slave" "pty_other st = Some m" "s \<noteq> m"
    using linked_master [OF assms(1-3)] assms(4) by (metis option.inject)
  fix j u assume u: "(h(s := st', m := None)) j = Some u"
  { assume d: "driver u = Pty_master"
    then have j: "j \<noteq> s" "j \<noteq> m" "h j = Some u" using u st' by (auto split: if_split_asm)
    then obtain s1 st1 where s1: "pty_other u = Some s1" "h s1 = Some st1" "driver st1 = Pty_slave" "pty_other st1 = Some j" "tty_refcount st1 \<ge> 1"
      using linked_master [OF assms(1) j(3) d] by metis
    then have "s1 \<noteq> s" "s1 \<noteq> m" using st j assms(2,3) by auto
    then show "\<exists>s1 st1. pty_other u = Some s1 \<and> (h(s := st', m := None)) s1 = Some st1 \<and> driver st1 = Pty_slave \<and> pty_other st1 = Some j \<and> tty_refcount st1 \<ge> 1"
      using s1 by auto }
  { fix m1 assume d: "driver u = Pty_slave" "pty_other u = Some m1"
    then have j: "j \<noteq> s" "j \<noteq> m" "h j = Some u" using u st' by (auto split: if_split_asm)
    then obtain mt1 where m1: "h m1 = Some mt1" "driver mt1 = Pty_master" "pty_other mt1 = Some j"
      using linked_slave [OF assms(1) j(3) d] by metis
    then have "m1 \<noteq> s" "m1 \<noteq> m" using st j assms(2,4) by auto
    then show "\<exists>mt. (h(s := st', m := None)) m1 = Some mt \<and> driver mt = Pty_master \<and> pty_other mt = Some j"
      using m1 by auto }
qed


lemma table_put_slot:
  assumes "put_slot drv n x w = Some w'"
  shows "heap w' = heap w \<and> length (table w' d) = length (table w d)"
  using assms by (auto simp: put_slot_def table_def split: if_split_asm tty_driver.split tty_driver.split_asm)

lemma put_slot_ok: "n < length (table w drv) \<Longrightarrow> \<exists>w'. put_slot drv n x w = Some w'"
  by (simp add: put_slot_def)

lemma table_put_tty [simp]: "table (put_tty i t w) d = table w d" "table (free_tty i w) d = table w d"
  by (cases d; simp add: table_def put_tty_def free_tty_def)+

lemma heap_put_tty [simp]: "heap (put_tty i t w) = (heap w)(i \<mapsto> t)" "heap (free_tty i w) = (heap w)(i := None)"
  by (simp_all add: put_tty_def free_tty_def)

text \<open>Dropping the last reference, once the cleanup is known.\<close>

lemma drop_last:
  assumes "heap w i = Some t" "tty_refcount t = 1" "tty_num t < length (table w (driver t))"
    and "cleanup i (put_tty i (t\<lparr>tty_refcount := 0\<rparr>) w) = Some w1" "\<And>d. length (table w1 d) = length (table w d)"
  shows "\<exists>w'. drop_ref cleanup i w = Some w' \<and> heap w' = (heap w1)(i := None) \<and> (\<forall>d. length (table w' d) = length (table w d))"
proof -
  obtain w2 where "put_slot (driver t) (tty_num t) No_tty w1 = Some w2"
    using put_slot_ok [of "tty_num t" w1 "driver t"] assms(3,5) by auto
  then show ?thesis using assms table_put_slot [of "driver t" "tty_num t" No_tty w1 w2]
    by (simp add: drop_ref_def)
qed

lemma drop_more:
  assumes "heap w i = Some t" "tty_refcount t > 1"
  shows "drop_ref cleanup i w = Some (put_tty i (t\<lparr>tty_refcount := tty_refcount t - 1\<rparr>) w)"
  using assms by (simp add: drop_ref_def)

lemma numbered_mono:
  assumes "numbered w" "\<And>d. length (table w' d) = length (table w d)"
    and "\<And>i t'. heap w' i = Some t' \<Longrightarrow> \<exists>t. heap w i = Some t \<and> driver t' = driver t \<and> tty_num t' = tty_num t"
  shows "numbered w'"
  unfolding numbered_def by (metis assms numbered_def)

definition may_release :: "tty \<Rightarrow> bool" where
  "may_release t \<longleftrightarrow> tty_refcount t \<ge> (if driver t = Pty_slave \<and> pty_other t \<noteq> None then 2 else 1)"

lemma release_master:
  assumes l: "linked (heap w)" and n: "numbered w" and h: "heap w m = Some mt" and d: "driver mt = Pty_master"
    and rc: "tty_refcount mt = 1"
  shows "\<exists>w' s. tty_release m w = Some w' \<and> linked (heap w') \<and> numbered w' \<and> heap w' m = None \<and> pty_other mt = Some s
     \<and> (case heap w' s of None \<Rightarrow> True | Some u \<Rightarrow> hung_up u \<and> pty_other u = None)"
proof -
  obtain s st where s: "pty_other mt = Some s" "heap w s = Some st" "driver st = Pty_slave" "pty_other st = Some m"
    "tty_refcount st \<ge> 1" "s \<noteq> m" using linked_master [OF l h d] by metis
  let ?w0 = "put_tty m (mt\<lparr>tty_refcount := 0\<rparr>) w"
  let ?st = "(tty_hangup st)\<lparr>pty_other := None\<rparr>"
  let ?w1 = "put_tty s ?st (put_tty s (tty_hangup st) ?w0)"
  have st: "driver ?st = Pty_slave" "pty_other ?st = None" "tty_refcount ?st = tty_refcount st" "tty_num ?st = tty_num st" "hung_up ?st"
    by (simp_all add: tty_hangup_def tty_input_wakeup_def s)
  have cl: "tty_cleanup m ?w0 = drop_ref plain_cleanup s ?w1"
    using s d by (simp add: tty_cleanup_def pty_master_cleanup_def pty_hangup_other_def)
  have num: "tty_num st < length (table w Pty_slave)" "tty_num mt < length (table w Pty_master)"
    using n h s(2,3) d unfolding numbered_def by metis+
  obtain w1 st' where w1: "drop_ref plain_cleanup s ?w1 = Some w1" "heap w1 = (heap w)(m \<mapsto> mt\<lparr>tty_refcount := 0\<rparr>, s := st')"
    "\<And>d. length (table w1 d) = length (table w d)"
    and st': "st' = None \<or> (\<exists>u. st' = Some u \<and> driver u = Pty_slave \<and> pty_other u = None \<and> hung_up u \<and> tty_num u = tty_num st)"
  proof (cases "tty_refcount st = 1")
    case True
    have p: "plain_cleanup s (put_tty s (?st\<lparr>tty_refcount := 0\<rparr>) ?w1) = Some (put_tty s (?st\<lparr>tty_refcount := 0\<rparr>) ?w1)"
      by (simp add: plain_cleanup_def tty_hangup_def tty_input_wakeup_def s(3) pty_hangup_other_def)
    obtain w' where "drop_ref plain_cleanup s ?w1 = Some w'" "heap w' = (heap (put_tty s (?st\<lparr>tty_refcount := 0\<rparr>) ?w1))(s := None)"
      "\<forall>d. length (table w' d) = length (table ?w1 d)"
      using drop_last [of ?w1 s ?st plain_cleanup, OF _ _ _ p] num st True by auto
    then show thesis using that [of w' None] by simp
  next
    case False
    then have "drop_ref plain_cleanup s ?w1 = Some (put_tty s (?st\<lparr>tty_refcount := tty_refcount st - 1\<rparr>) ?w1)"
      using drop_more [of ?w1 s ?st plain_cleanup] st s(5) by simp
    then show thesis using that [of _ "Some (?st\<lparr>tty_refcount := tty_refcount st - 1\<rparr>)"] st by simp
  qed
  obtain w' where r: "tty_release m w = Some w'" "heap w' = (heap w1)(m := None)" "\<forall>d. length (table w' d) = length (table w d)"
    using drop_last [of w m mt tty_cleanup w1] h rc num d cl w1 unfolding tty_release_def by auto
  have hp: "heap w' = (heap w)(s := st', m := None)" using r(2) w1(2) s(6) by auto
  have "linked (heap w')"
    unfolding hp by (rule linked_unpair [OF l h d s(1)]) (use st' in auto)
  moreover have "numbered w'"
    by (rule numbered_mono [OF n]) (use r(3) hp st' s(2,3) in \<open>auto split: if_split_asm\<close>)
  ultimately show ?thesis using r(1) hp s(1,6) st' by (auto split: option.split)
qed

text \<open>C20. Releasing a reference to a terminal succeeds without touching a terminal that is gone, and keeps partners
  paired: afterwards every master still refers to a live slave that refers back, and every slave's master is
  alive. The last reference frees the terminal; with a master its slave is hung up and cut loose, or
  freed when nobody else holds it.\<close>

theorem tty_release_keeps_pairs:
  assumes "linked (heap w)" "numbered w" "heap w i = Some t" "may_release t"
  shows "\<exists>w'. tty_release i w = Some w' \<and> linked (heap w') \<and> numbered w' \<and> (heap w' i = None \<longleftrightarrow> tty_refcount t = 1)
     \<and> (driver t = Pty_master \<and> tty_refcount t = 1 \<longrightarrow>
          (\<exists>s. pty_other t = Some s \<and> (case heap w' s of None \<Rightarrow> True | Some u \<Rightarrow> hung_up u \<and> pty_other u = None)))"
proof (cases "tty_refcount t = 1")
  case False
  then have more: "tty_refcount t > 1" using assms(4) by (auto simp: may_release_def split: if_split_asm)
  let ?t = "t\<lparr>tty_refcount := tty_refcount t - 1\<rparr>"
  have "linked ((heap w)(i \<mapsto> ?t))"
    by (rule linked_update [OF assms(1,3)]) (use more in simp_all)
  moreover have "numbered (put_tty i ?t w)"
    by (rule numbered_mono [OF assms(2)]) (use assms(3) in \<open>auto split: if_split_asm\<close>)
  ultimately show ?thesis using drop_more [OF assms(3) more, of tty_cleanup] False by (simp add: tty_release_def)
next
  case one: True
  show ?thesis
  proof (cases "driver t = Pty_master")
    case True
    show ?thesis using release_master [OF assms(1-3) True one] one by blast
  next
    case False
    have alone: "pty_other t = None" if "driver t = Pty_slave"
      using assms(4) one that by (auto simp: may_release_def split: if_split_asm)
    obtain u where u: "tty_cleanup i (put_tty i (t\<lparr>tty_refcount := 0\<rparr>) w) = Some (put_tty i u w)"
      using False alone by (cases "driver t") (auto simp: tty_cleanup_def plain_cleanup_def pty_hangup_other_def put_tty_def)
    obtain w' where r: "tty_release i w = Some w'" "heap w' = (heap w)(i := None)" "\<forall>d. length (table w' d) = length (table w d)"
      using drop_last [of w i t tty_cleanup, OF assms(3) one _ u] assms(2,3) unfolding tty_release_def numbered_def by auto
    have "linked (heap w')" unfolding r(2) by (rule linked_free [OF assms(1,3) False alone])
    moreover have "numbered w'"
      by (rule numbered_mono [OF assms(2)]) (use r(2,3) in \<open>auto split: if_split_asm\<close>)
    ultimately show ?thesis using r False one by auto
  qed
qed

section \<open>Every operation on the buffer stays within it\<close>

definition heap_wf :: "ttys \<Rightarrow> bool" where
  "heap_wf w \<longleftrightarrow> (\<forall>i t. heap w i = Some t \<longrightarrow> tty_wf t)"

definition drivers_wf :: "ttys \<Rightarrow> bool" where
  "drivers_wf w \<longleftrightarrow> (\<forall>k f c t. op_ioctl (drv_ops w k) = Some f \<longrightarrow> tty_wf t \<longrightarrow> tty_wf (snd (f t c)))"

lemma heap_wf_put [simp]: "heap_wf w \<Longrightarrow> tty_wf t \<Longrightarrow> heap_wf (put_tty i t w)"
  by (simp add: heap_wf_def)

lemma heap_wf_groups [simp]: "heap_wf (w\<lparr>groups := g\<rparr>) = heap_wf w"
  by (simp add: heap_wf_def)

lemma heap_wf_at: "heap_wf w \<Longrightarrow> heap w i = Some t \<Longrightarrow> tty_wf t"
  by (simp add: heap_wf_def)

lemma same_buffer_wf [simp]:
  "tty_wf (t\<lparr>tty_refcount := a\<rparr>) = tty_wf t" "tty_wf (t\<lparr>session := b\<rparr>) = tty_wf t" "tty_wf (t\<lparr>fg_group := d\<rparr>) = tty_wf t"
  "tty_wf (t\<lparr>pty_locked := e\<rparr>) = tty_wf t" "tty_wf (t\<lparr>packet_mode := f\<rparr>) = tty_wf t" "tty_wf (t\<lparr>termios := m\<rparr>) = tty_wf t"
  "tty_wf (t\<lparr>winsize := ws\<rparr>) = tty_wf t" "tty_wf (t\<lparr>hung_up := h\<rparr>) = tty_wf t"
  by (simp_all add: tty_wf_def)

lemma flush_wf: "tty_wf t \<Longrightarrow> tty_wf (tty_flush t)"
  by (simp add: tty_wf_def tty_flush_def)

lemma hangup_wf: "tty_wf t \<Longrightarrow> tty_wf (tty_hangup t)"
  by (simp add: tty_hangup_def tty_input_wakeup_def)

lemma mode_ioctl_wf: "tty_wf t \<Longrightarrow> tty_wf (fst (snd (tty_mode_ioctl t c)))"
  by (auto simp: tty_mode_ioctl_def tty_set_winsize_def flush_wf split: ioctl.split)

lemma set_controlling_wf: "heap_wf w \<Longrightarrow> tty_set_controlling g i w = Some w' \<Longrightarrow> heap_wf w'"
  by (auto simp: tty_set_controlling_def Let_def heap_wf_at split: bind_split_asm if_split_asm)

lemma steal_wf: "heap_wf w \<Longrightarrow> steal i gs w = Some w' \<Longrightarrow> heap_wf w'"
proof (induction gs arbitrary: w)
  case (Cons g gs)
  then obtain t where t: "heap w i = Some t" by (auto split: bind_split_asm)
  let ?w = "put_tty i (t\<lparr>tty_refcount := tty_refcount t - 1\<rparr>) (w\<lparr>groups := (groups w)(g := (groups w g)\<lparr>g_tty := None\<rparr>)\<rparr>)"
  have "heap_wf ?w" using Cons.prems(1) heap_wf_at [OF Cons.prems(1) t] by simp
  then show ?case using Cons.IH Cons.prems t by (auto split: if_split_asm)
qed simp

lemma tiocsctty_wf: "heap_wf w \<Longrightarrow> tiocsctty members cl i a w = Some (r, w') \<Longrightarrow> heap_wf w'"
  by (auto simp: tiocsctty_def Let_def dest: set_controlling_wf steal_wf split: bind_split_asm if_split_asm)

lemma mode_ioctl_at_wf:
  assumes "heap_wf w" "mode_ioctl_at i c w = Some (r, w', sigs)"
  shows "heap_wf w' \<and> drv_ops w' = drv_ops w"
proof -
  obtain s st where s: "heap w s = Some st"
    "Some (r, w', sigs) = Some (let (r, st', sigs) = tty_mode_ioctl st c in (r, put_tty s st' w, sigs))"
    using assms(2) by (auto simp: mode_ioctl_at_def split: bind_split_asm)
  then have "w' = put_tty s (fst (snd (tty_mode_ioctl st c))) w" by (auto simp: Let_def split: prod.splits)
  then show ?thesis using mode_ioctl_wf [OF heap_wf_at [OF assms(1) s(1)]] assms(1) by (simp add: put_tty_def heap_wf_def)
qed

lemma driver_ioctl_wf:
  assumes "heap_wf w" "drivers_wf w" "driver_ioctl i c w = Some (r, w')"
  shows "heap_wf w'"
proof -
  obtain t where t: "heap w i = Some t" using assms(3) by (auto simp: driver_ioctl_def split: bind_split_asm)
  show ?thesis
  proof (cases "driver t")
    case Pty_master
    then show ?thesis using assms t
      by (auto simp: driver_ioctl_def pty_master_ioctl_def heap_wf_at split: bind_split_asm ioctl.split_asm)
  next
    case Pty_slave
    then show ?thesis using assms t by (simp add: driver_ioctl_def)
  next
    case (Other_driver k)
    show ?thesis
    proof (cases "op_ioctl (drv_ops w k)")
      case None
      then show ?thesis using assms t Other_driver by (simp add: driver_ioctl_def)
    next
      case (Some f)
      then have "w' = put_tty i (snd (f t c)) w"
        using assms(3) t Other_driver by (auto simp: driver_ioctl_def Let_def split: prod.splits)
      moreover have "tty_wf (snd (f t c))"
        using assms(2) Some heap_wf_at [OF assms(1) t] unfolding drivers_wf_def by blast
      ultimately show ?thesis using assms(1) by simp
    qed
  qed
qed

lemma default_ioctl_wf:
  assumes "heap_wf w" "drivers_wf w"
    and "do { (r, w', sigs) \<leftarrow> mode_ioctl_at i c w;
             if r = Inl ENOTTY then do { (r', w'') \<leftarrow> driver_ioctl i c w'; Some (r', w'', sigs) }
             else Some (r, w', sigs) } = Some x"
  shows "heap_wf (fst (snd x))"
proof -
  obtain r1 w1 s1 where m: "mode_ioctl_at i c w = Some (r1, w1, s1)" using assms(3) by (auto split: bind_split_asm)
  note wf = mode_ioctl_at_wf [OF assms(1) m]
  have "drivers_wf w1" using wf assms(2) by (simp add: drivers_wf_def)
  then have d: "heap_wf w2" if "driver_ioctl i c w1 = Some (r2, w2)" for r2 w2
    using driver_ioctl_wf [OF _ _ that] wf by blast
  show ?thesis using assms(3) m wf d by (auto split: if_split_asm bind_split_asm)
qed

lemma tty_ioctl_wf:
  assumes "heap_wf w" "drivers_wf w" "tty_ioctl members cl i c w = Some x"
  shows "heap_wf (fst (snd x))"
proof -
  obtain t where t: "heap w i = Some t" using assms(3) by (auto simp: tty_ioctl_def split: bind_split_asm)
  note wf = heap_wf_at [OF assms(1) t]
  show ?thesis
  proof (cases "hung_up t")
    case True
    then show ?thesis using assms(1,3) t by (auto simp: tty_ioctl_def)
  next
    case h: False
    show ?thesis
    proof (cases c)
      case (Tcflsh a)
      then show ?thesis using assms(1,3) t h flush_wf [OF wf] by (auto simp: tty_ioctl_def split: if_split_asm)
    next
      case (Tiocsctty a)
      then show ?thesis using assms(1,3) t h tiocsctty_wf [OF assms(1)] by (auto simp: tty_ioctl_def split: bind_split_asm)
    next
      case Tiocgpgrp
      then show ?thesis using assms(1,3) t h by (auto simp: tty_ioctl_def split: bind_split_asm)
    next
      case (Tiocspgrp g)
      then show ?thesis using assms(1,3) t h wf by (auto simp: tty_ioctl_def split: if_split_asm)
    next
      case Fionread
      then show ?thesis using assms(1,3) t h by (auto simp: tty_ioctl_def)
    qed (use assms(3) t h in \<open>auto simp: tty_ioctl_def intro: default_ioctl_wf [OF assms(1,2)]\<close>)
  qed
qed

text \<open>C30. Every operation that touches a terminal's buffer stays within it and keeps its assertions. Input and reading
  never access the buffer or its marks outside their 4096 places, not even through an unsigned size that
  wraps, and never fail an assertion: with a signal to come they return, for \<open>None\<close> is left only to a call that
  still waits. What they, a hang-up and every ioctl, the flushing ones included, leave behind is again a
  buffer whose size is at most its places. Other threads and a driver's own ioctl are only asked to keep
  that.\<close>

theorem tty_operations_wf:
  assumes "tty_wf t" "\<forall>e\<in>set es. ev_wf e" "\<forall>u. tty_wf u \<longrightarrow> tty_wf (gap u)" "heap_wf w" "drivers_wf w"
  shows "(case tty_input gap t input blocking es of None \<Rightarrow> Interrupted \<notin> set es | Some (r, t', out, sigs) \<Rightarrow> tty_wf t')
       \<and> (case tty_read half t rd n es of None \<Rightarrow> Interrupted \<notin> set es | Some (r, t', rd') \<Rightarrow> tty_wf t')
       \<and> tty_wf (tty_hangup t)
       \<and> (case tty_ioctl members cl i c w of None \<Rightarrow> True | Some (r, w', sigs) \<Rightarrow> heap_wf w')"
  using tty_input_ok [OF assms(1-3)] tty_read_ok [OF assms(1,2)] hangup_wf [OF assms(1)] tty_ioctl_wf [OF assms(4,5)]
  by (fastforce split: option.split)

section \<open>Examples\<close>

definition ex_caller :: caller where
  "ex_caller = \<lparr>c_pid = 5, c_group = 0, c_euid = 1000, c_egid = 1000, c_alloc = True, c_junk = replicate TTY_BUF_SIZE 0\<rparr>"

definition no_ttys :: ttys where
  "no_ttys = \<lparr>heap = Map.empty, next_id = 0, masters = replicate MAX_PTYS No_tty, slaves = replicate MAX_PTYS No_tty,
     others = \<lambda>_. [], fakes = {}, groups = \<lambda>_. \<lparr>g_sid = 1, g_pgid = 1, g_tty = None\<rparr>,
     drv_ops = \<lambda>_. \<lparr>op_init = \<lambda>_. Inr (), op_open = \<lambda>_. Inr (), op_close = \<lambda>t. t, op_cleanup = \<lambda>t. t, op_ioctl = None\<rparr>\<rparr>"

lemma no_ttys_facts:
  "tables_ok no_ttys" "first_free no_ttys = 0" "c_alloc ex_caller" "masters no_ttys ! 0 = No_tty"
  "\<not> becomes_controlling ex_caller n no_ttys" "heap no_ttys i = None"
  "becomes_controlling (ex_caller\<lparr>c_pid := 1\<rparr>) False no_ttys"
  by (simp_all add: becomes_controlling_def no_ttys_def tables_ok_def first_free_def MAX_PTYS_def ex_caller_def)

theorem ptmx_open_close_witness:
  "ptmx_open ex_caller False no_ttys = Some (Inr 0, with_pair ex_caller no_ttys)
   \<and> tty_close 0 (with_pair ex_caller no_ttys) = Some (no_ttys\<lparr>next_id := 2\<rparr>)
   \<and> ptmx_open (ex_caller\<lparr>c_pid := 1\<rparr>) False no_ttys = Some (Inr 0, controlling_pair (ex_caller\<lparr>c_pid := 1\<rparr>) 2 no_ttys)"
proof -
  have "next_id no_ttys = 0" by (simp add: no_ttys_def)
  then show ?thesis using ptmx_open_close [of no_ttys ex_caller False] ptmx_open_close [of no_ttys "ex_caller\<lparr>c_pid := 1\<rparr>" False] no_ttys_facts
    by (simp add: MAX_PTYS_def eval_nat_numeral)
qed

theorem tty_operations_wf_witness:
  "(\<exists>x. tty_input (\<lambda>u. u) empty_tty [0x7f, 0x61] True [Interrupted] = Some x) \<and> (\<exists>x. tty_read False empty_tty ex_reader 4 [Interrupted] = Some x)"
proof -
  have "heap_wf no_ttys" "drivers_wf no_ttys" by (simp_all add: no_ttys_def heap_wf_def drivers_wf_def)
  then show ?thesis
    using tty_operations_wf [of empty_tty "[Interrupted]" "\<lambda>u. u" no_ttys "[0x7f, 0x61]" True False ex_reader 4 "\<lambda>_. None" ex_caller 0 Tcgets]
      empty_tty_facts(1)
    by (auto split: option.split_asm)
qed

theorem ptmx_full_writes_outside_witness:
  "ptmx_open ex_caller False (no_ttys\<lparr>slaves := replicate MAX_PTYS Reserved\<rparr>) = None"
  using ptmx_full_writes_outside [of "no_ttys\<lparr>slaves := replicate MAX_PTYS Reserved\<rparr>" ex_caller False]
  by (simp add: tables_ok_def no_ttys_def)

lemma pair_linked:
  "linked (heap (with_pair ex_caller no_ttys))" "numbered (with_pair ex_caller no_ttys)"
  "heap (with_pair ex_caller no_ttys) 0 = Some (new_master ex_caller 0 1)" "may_release (new_master ex_caller 0 1)"
  "tty_refcount (new_master ex_caller 0 1) = 1" "driver (new_master ex_caller 0 1) = Pty_master"
  "pty_other (new_master ex_caller 0 1) = Some 1"
proof -
  have "next_id no_ttys = 0" by (simp add: no_ttys_def)
  then have w: "heap (with_pair ex_caller no_ttys) = [0 \<mapsto> new_master ex_caller 0 1, 1 \<mapsto> new_slave ex_caller 0 0]"
    "masters (with_pair ex_caller no_ttys) = (replicate MAX_PTYS No_tty)[0 := Tty_at 0]"
    "slaves (with_pair ex_caller no_ttys) = (replicate MAX_PTYS No_tty)[0 := Tty_at 1]"
    using no_ttys_facts(2) by (simp_all add: with_pair_def Let_def no_ttys_def)
  have t: "driver (new_master c n s) = Pty_master" "tty_refcount (new_master c n s) = 1" "tty_num (new_master c n s) = n"
    "pty_other (new_master c n s) = Some s" "driver (new_slave c n s) = Pty_slave" "tty_refcount (new_slave c n s) = 1"
    "tty_num (new_slave c n s) = n" "pty_other (new_slave c n s) = Some s" for c n s
    by (simp_all add: new_master_def new_slave_def tty_alloc_def)
  show "linked (heap (with_pair ex_caller no_ttys))" unfolding linked_def w(1) by (auto simp: t)
  show "numbered (with_pair ex_caller no_ttys)"
    unfolding numbered_def w(1) by (auto simp: t table_def w MAX_PTYS_def)
  show "heap (with_pair ex_caller no_ttys) 0 = Some (new_master ex_caller 0 1)" by (simp add: w)
  show "may_release (new_master ex_caller 0 1)" by (simp add: may_release_def t)
  show "tty_refcount (new_master ex_caller 0 1) = 1" "driver (new_master ex_caller 0 1) = Pty_master"
    "pty_other (new_master ex_caller 0 1) = Some 1" by (simp_all add: t)
qed

theorem tty_release_keeps_pairs_witness:
  "\<exists>w'. tty_release 0 (with_pair ex_caller no_ttys) = Some w' \<and> linked (heap w') \<and> heap w' 0 = None"
  using tty_release_keeps_pairs [OF pair_linked(1-4)] pair_linked(5) by auto

end
