(* ===== verification/Vec.thy ===== *)
theory Vec
  imports Fpu
begin

text \<open>
  The vector instructions of \<^verbatim>\<open>emu/vec.c\<close> (128 bits) and \<^verbatim>\<open>emu/mmx.c\<close> (64 bits). A register is a word and its
  lanes are the pieces of it that the unions of the code name; each macro of the code is a function over lanes and
  each use of it a definition. Source and destination may be the same register: a function that reads
  its source after it has written takes \<open>alias\<close>, which says whether it is. Floating-point numbers are their bit
  patterns; comparisons are computed on them and the arithmetic of the host is an argument.
\<close>

section \<open>Lanes\<close>

definition lane :: "nat \<Rightarrow> 'v::len word \<Rightarrow> 'l::len word" where
  "lane i v = ucast (drop_bit (i * LENGTH('l)) v)"

definition put_lane :: "nat \<Rightarrow> 'l::len word \<Rightarrow> 'v::len word \<Rightarrow> 'v word" where
  "put_lane i x v =
     (v AND NOT (push_bit (i * LENGTH('l)) (mask LENGTH('l)))) OR push_bit (i * LENGTH('l)) (ucast x)"

text \<open>The loop over the lanes: lane \<open>i\<close> becomes \<open>f i\<close> of what it was.\<close>

fun lanes_loop :: "nat \<Rightarrow> (nat \<Rightarrow> 'l::len word \<Rightarrow> 'l word) \<Rightarrow> 'v::len word \<Rightarrow> 'v word" where
  "lanes_loop 0 f d = d"
| "lanes_loop (Suc n) f d = (let d' = lanes_loop n f d in put_lane n (f n (lane n d')) d')"

definition lanes2 :: "nat \<Rightarrow> ('l::len word \<Rightarrow> 'l word \<Rightarrow> 'l word) \<Rightarrow> 'v::len word \<Rightarrow> 'v word \<Rightarrow> 'v word" where
  "lanes2 n f s d = lanes_loop n (\<lambda>i x. f x (lane i s)) d"

section \<open>Saturation\<close>

definition satsw :: "u32 \<Rightarrow> u32" where
  "satsw dw = (if sint dw > 0xff80 then dw AND 0xff else if sint dw > 0x7fff then 0x80 else if sint dw > 0x7f then 0x7f else dw)"

definition satud :: "u32 \<Rightarrow> u32" where
  "satud dw = (if dw > 0xffff8000 then dw AND 0xffff else if dw > 0x7fffffff then 0x8000 else if dw > 0x7fff then 0x7fff else dw)"

definition satub :: "u32 \<Rightarrow> u32" where
  "satub dw = (if dw \<ge> 0x8000 then 0 else if dw > 0xff then 0xff else dw)"

definition satsb :: "u32 \<Rightarrow> u32" where
  "satsb dw = (if dw > 0xffffff80 then dw AND 0xff else if dw > 0x7fffffff then 0x80 else if dw > 0x7f then 0x7f else dw)"

section \<open>Copies\<close>

definition zero_copy :: "nat \<Rightarrow> nat \<Rightarrow> u128 \<Rightarrow> u128 \<Rightarrow> u128" where
  "zero_copy zero copy src dst = (dst AND NOT (mask zero)) OR take_bit copy src"

definition vec_zero128_copy128 :: "u128 \<Rightarrow> u128 \<Rightarrow> u128" where
  "vec_zero128_copy128 = zero_copy 128 128"

definition vec_zero128_copy64 :: "u128 \<Rightarrow> u128 \<Rightarrow> u128" where
  "vec_zero128_copy64 = zero_copy 128 64"

definition vec_zero128_copy32 :: "u128 \<Rightarrow> u128 \<Rightarrow> u128" where
  "vec_zero128_copy32 = zero_copy 128 32"

definition vec_zero64_copy64 :: "u128 \<Rightarrow> u128 \<Rightarrow> u128" where
  "vec_zero64_copy64 = zero_copy 64 64"

definition vec_zero64_copy32 :: "u128 \<Rightarrow> u128 \<Rightarrow> u128" where
  "vec_zero64_copy32 = zero_copy 64 32"

definition vec_zero32_copy32 :: "u128 \<Rightarrow> u128 \<Rightarrow> u128" where
  "vec_zero32_copy32 = zero_copy 32 32"

definition vec_merge32 :: "u128 \<Rightarrow> u128 \<Rightarrow> u128" where
  "vec_merge32 src dst = (dst AND NOT (mask 32)) OR take_bit 32 src"

definition vec_merge64 :: "u128 \<Rightarrow> u128 \<Rightarrow> u128" where
  "vec_merge64 src dst = (dst AND NOT (mask 64)) OR take_bit 64 src"

definition vec_merge128 :: "u128 \<Rightarrow> u128 \<Rightarrow> u128" where
  "vec_merge128 src dst = (dst AND NOT (mask 128)) OR take_bit 128 src"

section \<open>Shifts\<close>

definition shift_lanes :: "nat \<Rightarrow> nat \<Rightarrow> (nat \<Rightarrow> 'l::len word \<Rightarrow> 'l word) \<Rightarrow> u8 \<Rightarrow> 'v::len word \<Rightarrow> 'v word" where
  "shift_lanes n sz op amount d =
     (if unat amount > sz - 1 then 0 else lanes_loop n (\<lambda>_ x. op (unat amount) x) d)"

definition shift_sign :: "nat \<Rightarrow> nat \<Rightarrow> 'l::len itself \<Rightarrow> u8 \<Rightarrow> 'v::len word \<Rightarrow> 'v word" where
  "shift_sign n sz l amount d =
     lanes_loop n (\<lambda>_ x :: 'l word. if unat amount > sz - 1 then (if bit x (sz - 1) then - 1 else 0)
                          else signed_drop_bit (unat amount) x) d"

definition vec_shiftr_w128 :: "u128 \<Rightarrow> u128 \<Rightarrow> u128" where
  "vec_shiftr_w128 src dst = shift_lanes 8 16 (drop_bit :: nat \<Rightarrow> 16 word \<Rightarrow> 16 word) (lane 0 src) dst"

definition vec_imm_shiftr_w128 :: "u8 \<Rightarrow> u128 \<Rightarrow> u128" where
  "vec_imm_shiftr_w128 amount dst = shift_lanes 8 16 (drop_bit :: nat \<Rightarrow> 16 word \<Rightarrow> 16 word) amount dst"

definition vec_shiftr_d128 :: "u128 \<Rightarrow> u128 \<Rightarrow> u128" where
  "vec_shiftr_d128 src dst = shift_lanes 4 32 (drop_bit :: nat \<Rightarrow> 32 word \<Rightarrow> 32 word) (lane 0 src) dst"

definition vec_imm_shiftr_d128 :: "u8 \<Rightarrow> u128 \<Rightarrow> u128" where
  "vec_imm_shiftr_d128 amount dst = shift_lanes 4 32 (drop_bit :: nat \<Rightarrow> 32 word \<Rightarrow> 32 word) amount dst"

definition vec_shiftr_q128 :: "u128 \<Rightarrow> u128 \<Rightarrow> u128" where
  "vec_shiftr_q128 src dst = shift_lanes 2 64 (drop_bit :: nat \<Rightarrow> 64 word \<Rightarrow> 64 word) (lane 0 src) dst"

definition vec_imm_shiftr_q128 :: "u8 \<Rightarrow> u128 \<Rightarrow> u128" where
  "vec_imm_shiftr_q128 amount dst = shift_lanes 2 64 (drop_bit :: nat \<Rightarrow> 64 word \<Rightarrow> 64 word) amount dst"

definition vec_shiftl_w128 :: "u128 \<Rightarrow> u128 \<Rightarrow> u128" where
  "vec_shiftl_w128 src dst = shift_lanes 8 16 (push_bit :: nat \<Rightarrow> 16 word \<Rightarrow> 16 word) (lane 0 src) dst"

definition vec_imm_shiftl_w128 :: "u8 \<Rightarrow> u128 \<Rightarrow> u128" where
  "vec_imm_shiftl_w128 amount dst = shift_lanes 8 16 (push_bit :: nat \<Rightarrow> 16 word \<Rightarrow> 16 word) amount dst"

definition vec_shiftl_d128 :: "u128 \<Rightarrow> u128 \<Rightarrow> u128" where
  "vec_shiftl_d128 src dst = shift_lanes 4 32 (push_bit :: nat \<Rightarrow> 32 word \<Rightarrow> 32 word) (lane 0 src) dst"

definition vec_imm_shiftl_d128 :: "u8 \<Rightarrow> u128 \<Rightarrow> u128" where
  "vec_imm_shiftl_d128 amount dst = shift_lanes 4 32 (push_bit :: nat \<Rightarrow> 32 word \<Rightarrow> 32 word) amount dst"

definition vec_shiftl_q128 :: "u128 \<Rightarrow> u128 \<Rightarrow> u128" where
  "vec_shiftl_q128 src dst = shift_lanes 2 64 (push_bit :: nat \<Rightarrow> 64 word \<Rightarrow> 64 word) (lane 0 src) dst"

definition vec_imm_shiftl_q128 :: "u8 \<Rightarrow> u128 \<Rightarrow> u128" where
  "vec_imm_shiftl_q128 amount dst = shift_lanes 2 64 (push_bit :: nat \<Rightarrow> 64 word \<Rightarrow> 64 word) amount dst"

definition vec_imm_shiftl_dq128 :: "u8 \<Rightarrow> u128 \<Rightarrow> u128" where
  "vec_imm_shiftl_dq128 amount dst = (if amount \<ge> 16 then 0 else push_bit (unat amount * 8) dst)"

definition vec_imm_shiftr_dq128 :: "u8 \<Rightarrow> u128 \<Rightarrow> u128" where
  "vec_imm_shiftr_dq128 amount dst = (if amount \<ge> 16 then 0 else drop_bit (unat amount * 8) dst)"

definition vec_shiftrs_w128 :: "u128 \<Rightarrow> u128 \<Rightarrow> u128" where
  "vec_shiftrs_w128 src dst = shift_sign 8 16 TYPE(16) (lane 0 src) dst"

definition vec_imm_shiftrs_w128 :: "u8 \<Rightarrow> u128 \<Rightarrow> u128" where
  "vec_imm_shiftrs_w128 amount dst = shift_sign 8 16 TYPE(16) amount dst"

definition vec_shiftrs_d128 :: "u128 \<Rightarrow> u128 \<Rightarrow> u128" where
  "vec_shiftrs_d128 src dst = shift_sign 4 32 TYPE(32) (lane 0 src) dst"

definition vec_imm_shiftrs_d128 :: "u8 \<Rightarrow> u128 \<Rightarrow> u128" where
  "vec_imm_shiftrs_d128 amount dst = shift_sign 4 32 TYPE(32) amount dst"

section \<open>Lane by lane\<close>

definition vec_compare_eqb128 :: "u128 \<Rightarrow> u128 \<Rightarrow> u128" where
  "vec_compare_eqb128 = lanes2 16 (\<lambda>d s :: 8 word. if d = s then - 1 else 0)"

definition vec_compare_eqw128 :: "u128 \<Rightarrow> u128 \<Rightarrow> u128" where
  "vec_compare_eqw128 = lanes2 8 (\<lambda>d s :: 16 word. if d = s then - 1 else 0)"

definition vec_compare_eqd128 :: "u128 \<Rightarrow> u128 \<Rightarrow> u128" where
  "vec_compare_eqd128 = lanes2 4 (\<lambda>d s :: 32 word. if d = s then - 1 else 0)"

definition vec_compares_gtb128 :: "u128 \<Rightarrow> u128 \<Rightarrow> u128" where
  "vec_compares_gtb128 = lanes2 16 (\<lambda>d s :: 8 word. if sint d > sint s then - 1 else 0)"

definition vec_compares_gtw128 :: "u128 \<Rightarrow> u128 \<Rightarrow> u128" where
  "vec_compares_gtw128 = lanes2 8 (\<lambda>d s :: 16 word. if sint d > sint s then - 1 else 0)"

definition vec_compares_gtd128 :: "u128 \<Rightarrow> u128 \<Rightarrow> u128" where
  "vec_compares_gtd128 = lanes2 4 (\<lambda>d s :: 32 word. if sint d > sint s then - 1 else 0)"

definition vec_add_b128 :: "u128 \<Rightarrow> u128 \<Rightarrow> u128" where
  "vec_add_b128 = lanes2 16 (\<lambda>d s :: 8 word. d + s)"

definition vec_add_w128 :: "u128 \<Rightarrow> u128 \<Rightarrow> u128" where
  "vec_add_w128 = lanes2 8 (\<lambda>d s :: 16 word. d + s)"

definition vec_add_d128 :: "u128 \<Rightarrow> u128 \<Rightarrow> u128" where
  "vec_add_d128 = lanes2 4 (\<lambda>d s :: 32 word. d + s)"

definition vec_add_q128 :: "u128 \<Rightarrow> u128 \<Rightarrow> u128" where
  "vec_add_q128 = lanes2 2 (\<lambda>d s :: 64 word. d + s)"

definition vec_sub_b128 :: "u128 \<Rightarrow> u128 \<Rightarrow> u128" where
  "vec_sub_b128 = lanes2 16 (\<lambda>d s :: 8 word. d - s)"

definition vec_sub_w128 :: "u128 \<Rightarrow> u128 \<Rightarrow> u128" where
  "vec_sub_w128 = lanes2 8 (\<lambda>d s :: 16 word. d - s)"

definition vec_sub_d128 :: "u128 \<Rightarrow> u128 \<Rightarrow> u128" where
  "vec_sub_d128 = lanes2 4 (\<lambda>d s :: 32 word. d - s)"

definition vec_sub_q128 :: "u128 \<Rightarrow> u128 \<Rightarrow> u128" where
  "vec_sub_q128 = lanes2 2 (\<lambda>d s :: 64 word. d - s)"

definition vec_and_dq128 :: "u128 \<Rightarrow> u128 \<Rightarrow> u128" where
  "vec_and_dq128 = lanes2 1 (\<lambda>d s :: 128 word. d AND s)"

definition vec_or_dq128 :: "u128 \<Rightarrow> u128 \<Rightarrow> u128" where
  "vec_or_dq128 = lanes2 1 (\<lambda>d s :: 128 word. d OR s)"

definition vec_xor_dq128 :: "u128 \<Rightarrow> u128 \<Rightarrow> u128" where
  "vec_xor_dq128 = lanes2 1 (\<lambda>d s :: 128 word. d XOR s)"

definition vec_addus_b128 :: "u128 \<Rightarrow> u128 \<Rightarrow> u128" where
  "vec_addus_b128 = lanes2 16 (\<lambda>d s :: 8 word. let sb = uint d + uint s in word_of_int (if sb > 0xff then 0xff else sb))"

definition vec_addus_w128 :: "u128 \<Rightarrow> u128 \<Rightarrow> u128" where
  "vec_addus_w128 = lanes2 8 (\<lambda>d s :: 16 word. let sw = uint d + uint s in word_of_int (if sw > 0xffff then 0xffff else sw))"

definition vec_addss_b128 :: "u128 \<Rightarrow> u128 \<Rightarrow> u128" where
  "vec_addss_b128 = lanes2 16 (\<lambda>d s :: 8 word. ucast (satsb (word_of_int (sint d + sint s))))"

definition vec_addss_w128 :: "u128 \<Rightarrow> u128 \<Rightarrow> u128" where
  "vec_addss_w128 = lanes2 8 (\<lambda>d s :: 16 word. ucast (satud (word_of_int (sint d + sint s))))"

definition vec_subus_b128 :: "u128 \<Rightarrow> u128 \<Rightarrow> u128" where
  "vec_subus_b128 = lanes2 16 (\<lambda>d s :: 8 word. let sb = uint d - uint s in word_of_int (if sb < 0 then 0 else sb))"

definition vec_subus_w128 :: "u128 \<Rightarrow> u128 \<Rightarrow> u128" where
  "vec_subus_w128 = lanes2 8 (\<lambda>d s :: 16 word. let sw = uint d - uint s in word_of_int (if sw < 0 then 0 else sw))"

definition vec_subss_b128 :: "u128 \<Rightarrow> u128 \<Rightarrow> u128" where
  "vec_subss_b128 = lanes2 16 (\<lambda>d s :: 8 word. ucast (satsb (word_of_int (sint d - sint s))))"

definition vec_subss_w128 :: "u128 \<Rightarrow> u128 \<Rightarrow> u128" where
  "vec_subss_w128 = lanes2 8 (\<lambda>d s :: 16 word. ucast (satud (word_of_int (sint d - sint s))))"

definition vec_min_ub128 :: "u128 \<Rightarrow> u128 \<Rightarrow> u128" where
  "vec_min_ub128 = lanes2 16 (\<lambda>d s :: 8 word. if s < d then s else d)"

definition vec_max_ub128 :: "u128 \<Rightarrow> u128 \<Rightarrow> u128" where
  "vec_max_ub128 = lanes2 16 (\<lambda>d s :: 8 word. if s > d then s else d)"

definition vec_mins_w128 :: "u128 \<Rightarrow> u128 \<Rightarrow> u128" where
  "vec_mins_w128 = lanes2 8 (\<lambda>d s :: 16 word. if sint d < sint s then d else s)"

definition vec_maxs_w128 :: "u128 \<Rightarrow> u128 \<Rightarrow> u128" where
  "vec_maxs_w128 = lanes2 8 (\<lambda>d s :: 16 word. if sint d > sint s then d else s)"

definition vec_avg_b128 :: "u128 \<Rightarrow> u128 \<Rightarrow> u128" where
  "vec_avg_b128 = lanes2 16 (\<lambda>d s :: 8 word. word_of_int ((1 + uint d + uint s) div 2))"

definition vec_avg_w128 :: "u128 \<Rightarrow> u128 \<Rightarrow> u128" where
  "vec_avg_w128 = lanes2 8 (\<lambda>d s :: 16 word. word_of_int ((1 + uint d + uint s) div 2))"

definition vec_mull128 :: "u128 \<Rightarrow> u128 \<Rightarrow> u128" where
  "vec_mull128 = lanes2 8 (\<lambda>d s :: 16 word. word_of_int (uint d * uint s))"

definition vec_mulu128 :: "u128 \<Rightarrow> u128 \<Rightarrow> u128" where
  "vec_mulu128 = lanes2 8 (\<lambda>d s :: 16 word. ucast (drop_bit 16 (word_of_int (sint d * sint s) :: u32) AND 0xffff))"

definition vec_muluu128 :: "u128 \<Rightarrow> u128 \<Rightarrow> u128" where
  "vec_muluu128 = lanes2 8 (\<lambda>d s :: 16 word. ucast (drop_bit 16 (word_of_int (uint d * uint s) :: u32) AND 0xffff))"

definition vec_madd_d128 :: "u128 \<Rightarrow> u128 \<Rightarrow> u128" where
  "vec_madd_d128 src dst =
     lanes_loop 4 (\<lambda>i _ :: u32. word_of_int
        (sint (lane (2 * i) dst :: u16) * sint (lane (2 * i) src :: u16)
         + sint (lane (2 * i + 1) dst :: u16) * sint (lane (2 * i + 1) src :: u16))) dst"

definition abs_diff :: "u8 \<Rightarrow> u8 \<Rightarrow> u32" where
  "abs_diff d s = (let diff = uint d - uint s in if diff < 0 then - word_of_int diff else word_of_int diff)"

definition vec_sumabs_w128 :: "u128 \<Rightarrow> u128 \<Rightarrow> u128" where
  "vec_sumabs_w128 src dst =
     (let sum0 = (\<Sum>i\<leftarrow>[0..<8]. abs_diff (lane i dst) (lane i src));
          sum1 = (\<Sum>i\<leftarrow>[0..<8]. abs_diff (lane (i + 8) dst) (lane (i + 8) src)) in
      put_lane 3 (0 :: u32) (put_lane 1 (0 :: u32) (put_lane 2 sum1 (put_lane 0 sum0 dst))))"

definition vec_mulu_dq128 :: "u128 \<Rightarrow> u128 \<Rightarrow> u128" where
  "vec_mulu_dq128 src dst =
     (let d1 = put_lane 0 (ucast (lane 0 src :: u32) * ucast (lane 0 dst :: u32) :: u64) dst in
      put_lane 1 (ucast (lane 2 src :: u32) * ucast (lane 2 d1 :: u32) :: u64) d1)"

definition vec_andn128 :: "u128 \<Rightarrow> u128 \<Rightarrow> u128" where
  "vec_andn128 src dst = lanes2 2 (\<lambda>d s :: u64. NOT d AND s) src dst"

section \<open>Floating point\<close>

definition isnan64 :: "u64 \<Rightarrow> bool" where
  "isnan64 x \<longleftrightarrow> take_bit 11 (drop_bit 52 x) = 0x7ff \<and> take_bit 52 x \<noteq> 0"

definition isnan32 :: "u32 \<Rightarrow> bool" where
  "isnan32 x \<longleftrightarrow> take_bit 8 (drop_bit 23 x) = 0xff \<and> take_bit 23 x \<noteq> 0"

text \<open>The order of the numbers that are not NaNs: sign and magnitude, the two zeros equal.\<close>

definition key64 :: "u64 \<Rightarrow> int" where
  "key64 x = (if bit x 63 then - uint (take_bit 63 x) else uint (take_bit 63 x))"

definition key32 :: "u32 \<Rightarrow> int" where
  "key32 x = (if bit x 31 then - uint (take_bit 31 x) else uint (take_bit 31 x))"

definition flt64 :: "u64 \<Rightarrow> u64 \<Rightarrow> bool" where "flt64 a b \<longleftrightarrow> \<not> isnan64 a \<and> \<not> isnan64 b \<and> key64 a < key64 b"
definition feq64 :: "u64 \<Rightarrow> u64 \<Rightarrow> bool" where "feq64 a b \<longleftrightarrow> \<not> isnan64 a \<and> \<not> isnan64 b \<and> key64 a = key64 b"
definition flt32 :: "u32 \<Rightarrow> u32 \<Rightarrow> bool" where "flt32 a b \<longleftrightarrow> \<not> isnan32 a \<and> \<not> isnan32 b \<and> key32 a < key32 b"
definition feq32 :: "u32 \<Rightarrow> u32 \<Rightarrow> bool" where "feq32 a b \<longleftrightarrow> \<not> isnan32 a \<and> \<not> isnan32 b \<and> key32 a = key32 b"

definition cmpd :: "u64 \<Rightarrow> u64 \<Rightarrow> u8 \<Rightarrow> bool" where
  "cmpd a b type =
     (let t = unat type mod 4;
          res = (if t = 0 then feq64 a b else if t = 1 then flt64 a b
                 else if t = 2 then flt64 a b \<or> feq64 a b else isnan64 a \<or> isnan64 b) in
      if type \<ge> 4 then \<not> res else res)"

definition cmps :: "u32 \<Rightarrow> u32 \<Rightarrow> u8 \<Rightarrow> bool" where
  "cmps a b type =
     (let t = unat type mod 4;
          res = (if t = 0 then feq32 a b else if t = 1 then flt32 a b
                 else if t = 2 then flt32 a b \<or> feq32 a b else isnan32 a \<or> isnan32 b) in
      if type \<ge> 4 then \<not> res else res)"

definition vec_single_fcmp64 :: "u64 \<Rightarrow> u128 \<Rightarrow> u8 \<Rightarrow> u128" where
  "vec_single_fcmp64 src dst type = put_lane 0 (if cmpd (lane 0 dst) src type then - 1 else 0 :: u64) dst"

definition vec_single_fcmp32 :: "u32 \<Rightarrow> u128 \<Rightarrow> u8 \<Rightarrow> u128" where
  "vec_single_fcmp32 src dst type = put_lane 0 (if cmps (lane 0 dst) src type then - 1 else 0 :: u32) dst"

definition vec_fcmp_p64 :: "u128 \<Rightarrow> u128 \<Rightarrow> u8 \<Rightarrow> u128" where
  "vec_fcmp_p64 src dst type = lanes2 2 (\<lambda>d s. if cmpd d s type then - 1 else 0 :: u64) src dst"

text \<open>The arithmetic of the host on bit patterns; the conversions to integers are those of numbers.\<close>

record host_float =
  hf_add64 :: "u64 \<Rightarrow> u64 \<Rightarrow> u64"
  hf_sub64 :: "u64 \<Rightarrow> u64 \<Rightarrow> u64"
  hf_mul64 :: "u64 \<Rightarrow> u64 \<Rightarrow> u64"
  hf_div64 :: "u64 \<Rightarrow> u64 \<Rightarrow> u64"
  hf_sqrt64 :: "u64 \<Rightarrow> u64"
  hf_add32 :: "u32 \<Rightarrow> u32 \<Rightarrow> u32"
  hf_sub32 :: "u32 \<Rightarrow> u32 \<Rightarrow> u32"
  hf_mul32 :: "u32 \<Rightarrow> u32 \<Rightarrow> u32"
  hf_div32 :: "u32 \<Rightarrow> u32 \<Rightarrow> u32"
  hf_sqrt32 :: "u32 \<Rightarrow> u32"
  hf_of_int64 :: "u32 \<Rightarrow> u64"
  hf_of_int32 :: "u32 \<Rightarrow> u32"
  hf_to_int64 :: "u64 \<Rightarrow> u32"
  hf_to_int32 :: "u32 \<Rightarrow> u32"
  hf_narrow :: "u64 \<Rightarrow> u32"
  hf_widen :: "u32 \<Rightarrow> u64"

definition vec_single_fadd64 :: "host_float \<Rightarrow> u64 \<Rightarrow> u64 \<Rightarrow> u64" where
  "vec_single_fadd64 h src dst = hf_add64 h dst src"

definition vec_single_fadd32 :: "host_float \<Rightarrow> u32 \<Rightarrow> u32 \<Rightarrow> u32" where
  "vec_single_fadd32 h src dst = hf_add32 h dst src"

definition vec_single_fmul64 :: "host_float \<Rightarrow> u64 \<Rightarrow> u64 \<Rightarrow> u64" where
  "vec_single_fmul64 h src dst = hf_mul64 h dst src"

definition vec_single_fmul32 :: "host_float \<Rightarrow> u32 \<Rightarrow> u32 \<Rightarrow> u32" where
  "vec_single_fmul32 h src dst = hf_mul32 h dst src"

definition vec_single_fsub64 :: "host_float \<Rightarrow> u64 \<Rightarrow> u64 \<Rightarrow> u64" where
  "vec_single_fsub64 h src dst = hf_sub64 h dst src"

definition vec_single_fsub32 :: "host_float \<Rightarrow> u32 \<Rightarrow> u32 \<Rightarrow> u32" where
  "vec_single_fsub32 h src dst = hf_sub32 h dst src"

definition vec_single_fdiv64 :: "host_float \<Rightarrow> u64 \<Rightarrow> u64 \<Rightarrow> u64" where
  "vec_single_fdiv64 h src dst = hf_div64 h dst src"

definition vec_single_fdiv32 :: "host_float \<Rightarrow> u32 \<Rightarrow> u32 \<Rightarrow> u32" where
  "vec_single_fdiv32 h src dst = hf_div32 h dst src"

definition vec_single_fsqrt64 :: "host_float \<Rightarrow> u64 \<Rightarrow> u64" where
  "vec_single_fsqrt64 h src = hf_sqrt64 h src"

definition vec_single_fsqrt32 :: "host_float \<Rightarrow> u32 \<Rightarrow> u32" where
  "vec_single_fsqrt32 h src = hf_sqrt32 h src"

definition vec_single_fmax64 :: "u64 \<Rightarrow> u64 \<Rightarrow> u64" where
  "vec_single_fmax64 src dst = (if flt64 dst src \<or> isnan64 src \<or> isnan64 dst then src else dst)"

definition vec_single_fmin64 :: "u64 \<Rightarrow> u64 \<Rightarrow> u64" where
  "vec_single_fmin64 src dst = (if flt64 src dst \<or> isnan64 src \<or> isnan64 dst then src else dst)"

definition vec_single_fmax32 :: "u32 \<Rightarrow> u32 \<Rightarrow> u32" where
  "vec_single_fmax32 src dst = (if flt32 dst src \<or> isnan32 src \<or> isnan32 dst then src else dst)"

definition vec_single_fmin32 :: "u32 \<Rightarrow> u32 \<Rightarrow> u32" where
  "vec_single_fmin32 src dst = (if flt32 src dst \<or> isnan32 src \<or> isnan32 dst then src else dst)"

definition vec_single_ucomi32 :: "u32 \<Rightarrow> u32 \<Rightarrow> cpu_state \<Rightarrow> cpu_state" where
  "vec_single_ucomi32 src dst cpu0 =
     (let cpu1 = put_res zf_res False (put_res pf_res False cpu0);
          nan = isnan32 src \<or> isnan32 dst;
          cpu2 = put_flag ZF_bit (feq32 src dst \<or> nan) cpu1;
          cpu3 = cpu2\<lparr>cf := of_bool (flt32 dst src \<or> nan)\<rparr>;
          cpu4 = put_flag PF_bit nan cpu3;
          cpu5 = put_flag AF_bit False (put_flag SF_bit False (cpu4\<lparr>cpu_of := 0\<rparr>)) in
      put_res sf_res False cpu5)"

definition vec_single_ucomi64 :: "u64 \<Rightarrow> u64 \<Rightarrow> cpu_state \<Rightarrow> cpu_state" where
  "vec_single_ucomi64 src dst cpu0 =
     (let cpu1 = put_res zf_res False (put_res pf_res False cpu0);
          nan = isnan64 src \<or> isnan64 dst;
          cpu2 = put_flag ZF_bit (feq64 src dst \<or> nan) cpu1;
          cpu3 = cpu2\<lparr>cf := of_bool (flt64 dst src \<or> nan)\<rparr>;
          cpu4 = put_flag PF_bit nan cpu3;
          cpu5 = put_flag AF_bit False (put_flag SF_bit False (cpu4\<lparr>cpu_of := 0\<rparr>)) in
      put_res sf_res False cpu5)"

definition vec_add_p64 :: "host_float \<Rightarrow> u128 \<Rightarrow> u128 \<Rightarrow> u128" where
  "vec_add_p64 h src dst = lanes2 2 (\<lambda>d s :: u64. hf_add64 h d s) src dst"

definition vec_add_p32 :: "host_float \<Rightarrow> u128 \<Rightarrow> u128 \<Rightarrow> u128" where
  "vec_add_p32 h src dst = lanes2 4 (\<lambda>d s :: u32. hf_add32 h d s) src dst"

definition vec_sub_p64 :: "host_float \<Rightarrow> u128 \<Rightarrow> u128 \<Rightarrow> u128" where
  "vec_sub_p64 h src dst = lanes2 2 (\<lambda>d s :: u64. hf_sub64 h d s) src dst"

definition vec_sub_p32 :: "host_float \<Rightarrow> u128 \<Rightarrow> u128 \<Rightarrow> u128" where
  "vec_sub_p32 h src dst = lanes2 4 (\<lambda>d s :: u32. hf_sub32 h d s) src dst"

definition vec_mul_p64 :: "host_float \<Rightarrow> u128 \<Rightarrow> u128 \<Rightarrow> u128" where
  "vec_mul_p64 h src dst = lanes2 2 (\<lambda>d s :: u64. hf_mul64 h d s) src dst"

definition vec_mul_p32 :: "host_float \<Rightarrow> u128 \<Rightarrow> u128 \<Rightarrow> u128" where
  "vec_mul_p32 h src dst = lanes2 4 (\<lambda>d s :: u32. hf_mul32 h d s) src dst"

definition trunc64 :: "host_float \<Rightarrow> u64 \<Rightarrow> u32" where
  "trunc64 h x = (if isnan64 x then 0x80000000 else hf_to_int64 h x)"

definition trunc32 :: "host_float \<Rightarrow> u32 \<Rightarrow> u32" where
  "trunc32 h x = (if isnan32 x then 0x80000000 else hf_to_int32 h x)"

text \<open>A NaN converted to a floating-point type becomes the number \<open>INT32_MIN\<close>, as the macro has it.\<close>

definition vec_cvtsi2sd32 :: "host_float \<Rightarrow> u32 \<Rightarrow> u64" where "vec_cvtsi2sd32 h src = hf_of_int64 h src"
definition vec_cvttsd2si64 :: "host_float \<Rightarrow> u64 \<Rightarrow> u32" where "vec_cvttsd2si64 h src = trunc64 h src"
definition vec_cvtsd2ss64 :: "host_float \<Rightarrow> u64 \<Rightarrow> u32" where
  "vec_cvtsd2ss64 h src = (if isnan64 src then hf_of_int32 h 0x80000000 else hf_narrow h src)"
definition vec_cvtsi2ss32 :: "host_float \<Rightarrow> u32 \<Rightarrow> u32" where "vec_cvtsi2ss32 h src = hf_of_int32 h src"
definition vec_cvttss2si32 :: "host_float \<Rightarrow> u32 \<Rightarrow> u32" where "vec_cvttss2si32 h src = trunc32 h src"
definition vec_cvtss2sd32 :: "host_float \<Rightarrow> u32 \<Rightarrow> u64" where
  "vec_cvtss2sd32 h src = (if isnan32 src then hf_of_int64 h 0x80000000 else hf_widen h src)"

definition vec_cvtdq2pd64 :: "host_float \<Rightarrow> u64 \<Rightarrow> u128 \<Rightarrow> u128" where
  "vec_cvtdq2pd64 h src dst = put_lane 1 (hf_of_int64 h (lane 1 src)) (put_lane 0 (hf_of_int64 h (lane 0 src)) dst)"

definition vec_cvttpd2dq64 :: "host_float \<Rightarrow> bool \<Rightarrow> u128 \<Rightarrow> u128 \<Rightarrow> u128" where
  "vec_cvttpd2dq64 h alias src dst =
     (let d1 = put_lane 0 (trunc64 h (lane 0 src)) dst;
          d2 = put_lane 1 (trunc64 h (lane 1 (if alias then d1 else src))) d1 in
      put_lane 1 (0 :: u64) d2)"

definition vec_cvttps2dq32 :: "host_float \<Rightarrow> u128 \<Rightarrow> u128 \<Rightarrow> u128" where
  "vec_cvttps2dq32 h src dst = lanes2 4 (\<lambda>_ s. trunc32 h s) src dst"

section \<open>Unpacking and packing\<close>

text \<open>Interleaving the low halves from the top lane down, in place; and the high halves from the bottom up.\<close>

fun unpackl_loop :: "nat \<Rightarrow> 'l::len itself \<Rightarrow> bool \<Rightarrow> u128 \<Rightarrow> u128 \<Rightarrow> u128" where
  "unpackl_loop 0 l alias s d = d"
| "unpackl_loop (Suc i) l alias s d =
     (let d1 = put_lane (i * 2 + 1) (lane i (if alias then d else s) :: 'l word) d in
      unpackl_loop i l alias s (put_lane (i * 2) (lane i d1 :: 'l word) d1))"

fun unpackh_loop :: "nat \<Rightarrow> nat \<Rightarrow> 'l::len itself \<Rightarrow> bool \<Rightarrow> u128 \<Rightarrow> u128 \<Rightarrow> u128" where
  "unpackh_loop half 0 l alias s d = d"
| "unpackh_loop half (Suc i) l alias s d0 =
     (let d = unpackh_loop half i l alias s d0;
          d1 = put_lane (2 * i) (lane (i + half) d :: 'l word) d in
      put_lane (2 * i + 1) (lane (i + half) (if alias then d1 else s) :: 'l word) d1)"

definition vec_unpackl_bw128 :: "bool \<Rightarrow> u128 \<Rightarrow> u128 \<Rightarrow> u128" where
  "vec_unpackl_bw128 alias src dst = unpackl_loop 8 TYPE(8) alias src dst"
definition vec_unpackl_w128 :: "bool \<Rightarrow> u128 \<Rightarrow> u128 \<Rightarrow> u128" where
  "vec_unpackl_w128 alias src dst = unpackl_loop 4 TYPE(16) alias src dst"

definition vec_unpackl_dq128 :: "bool \<Rightarrow> u128 \<Rightarrow> u128 \<Rightarrow> u128" where
  "vec_unpackl_dq128 alias src dst =
     (let d1 = put_lane 3 (lane 1 src :: u32) dst;
          d2 = put_lane 2 (lane 1 d1 :: u32) d1 in
      put_lane 1 (lane 0 (if alias then d2 else src) :: u32) d2)"

definition vec_unpackl_qdq128 :: "u128 \<Rightarrow> u128 \<Rightarrow> u128" where
  "vec_unpackl_qdq128 src dst = put_lane 1 (lane 0 src :: u64) dst"

definition vec_unpackl_ps128 :: "u128 \<Rightarrow> u128 \<Rightarrow> u128" where
  "vec_unpackl_ps128 src dst =
     put_lane 3 (lane 1 src :: u32) (put_lane 1 (lane 0 src :: u32) (put_lane 2 (lane 1 dst :: u32) dst))"

definition vec_unpackl_pd128 :: "u128 \<Rightarrow> u128 \<Rightarrow> u128" where
  "vec_unpackl_pd128 src dst = put_lane 1 (lane 0 src :: u64) dst"

definition vec_unpackh_bw128 :: "bool \<Rightarrow> u128 \<Rightarrow> u128 \<Rightarrow> u128" where
  "vec_unpackh_bw128 alias src dst = unpackh_loop 8 8 TYPE(8) alias src dst"
definition vec_unpackh_w128 :: "bool \<Rightarrow> u128 \<Rightarrow> u128 \<Rightarrow> u128" where
  "vec_unpackh_w128 alias src dst = unpackh_loop 4 4 TYPE(16) alias src dst"

definition vec_unpackh_d128 :: "bool \<Rightarrow> u128 \<Rightarrow> u128 \<Rightarrow> u128" where
  "vec_unpackh_d128 alias src dst =
     (let d1 = put_lane 0 (lane 2 dst :: u32) dst;
          d2 = put_lane 1 (lane 2 (if alias then d1 else src) :: u32) d1;
          d3 = put_lane 2 (lane 3 d2 :: u32) d2 in
      put_lane 3 (lane 3 (if alias then d3 else src) :: u32) d3)"

definition vec_unpackh_dq128 :: "bool \<Rightarrow> u128 \<Rightarrow> u128 \<Rightarrow> u128" where
  "vec_unpackh_dq128 alias src dst =
     (let d1 = put_lane 0 (lane 1 dst :: u64) dst in put_lane 1 (lane 1 (if alias then d1 else src) :: u64) d1)"

definition vec_unpackh_ps128 :: "bool \<Rightarrow> u128 \<Rightarrow> u128 \<Rightarrow> u128" where
  "vec_unpackh_ps128 = vec_unpackh_d128"

definition vec_unpackh_pd128 :: "bool \<Rightarrow> u128 \<Rightarrow> u128 \<Rightarrow> u128" where
  "vec_unpackh_pd128 = vec_unpackh_dq128"

text \<open>Four lanes of 16 bits packed into 32 bits, and two of 32.\<close>

definition pack_w :: "(u32 \<Rightarrow> u32) \<Rightarrow> nat \<Rightarrow> u128 \<Rightarrow> u32" where
  "pack_w sat i v =
     (let x = (\<lambda>j. sat (ucast (lane (i + j) v :: u16))) in
      x 0 OR push_bit 8 (x 1) OR push_bit 16 (x 2) OR push_bit 24 (x 3))"

definition pack_d :: "nat \<Rightarrow> u128 \<Rightarrow> u32" where
  "pack_d i v = satud (lane i v) OR push_bit 16 (satud (lane (i + 1) v))"

definition pack_all :: "(nat \<Rightarrow> u128 \<Rightarrow> u32) \<Rightarrow> nat \<Rightarrow> bool \<Rightarrow> u128 \<Rightarrow> u128 \<Rightarrow> u128" where
  "pack_all p step alias src dst =
     (let d1 = put_lane 0 (p 0 dst) dst;
          d2 = put_lane 1 (p step d1) d1;
          d3 = put_lane 2 (p 0 (if alias then d2 else src)) d2 in
      put_lane 3 (p step (if alias then d3 else src)) d3)"

definition vec_packss_w128 :: "bool \<Rightarrow> u128 \<Rightarrow> u128 \<Rightarrow> u128" where
  "vec_packss_w128 = pack_all (pack_w satsw) 4"
definition vec_packss_d128 :: "bool \<Rightarrow> u128 \<Rightarrow> u128 \<Rightarrow> u128" where
  "vec_packss_d128 = pack_all pack_d 2"
definition vec_packsu_w128 :: "bool \<Rightarrow> u128 \<Rightarrow> u128 \<Rightarrow> u128" where
  "vec_packsu_w128 = pack_all (pack_w satub) 4"

section \<open>Shuffles and moves\<close>

definition sel2 :: "u8 \<Rightarrow> nat \<Rightarrow> nat" where "sel2 encoding i = unat (drop_bit (i * 2) encoding) mod 4"

definition vec_shuffle_lw128 :: "u128 \<Rightarrow> u128 \<Rightarrow> u8 \<Rightarrow> u128" where
  "vec_shuffle_lw128 src dst encoding =
     put_lane 1 (lane 1 src :: u64) (lanes_loop 4 (\<lambda>i _ :: u16. lane (sel2 encoding i) src) dst)"

definition vec_shuffle_hw128 :: "u128 \<Rightarrow> u128 \<Rightarrow> u8 \<Rightarrow> u128" where
  "vec_shuffle_hw128 src dst encoding =
     (let x = (\<lambda>i. ucast (lane (sel2 encoding i + 4) src :: u16) :: u32);
          d1 = put_lane 0 (lane 0 src :: u64) dst;
          d2 = put_lane 2 (x 0 OR push_bit 16 (x 1)) d1 in
      put_lane 3 (x 2 OR push_bit 16 (x 3)) d2)"

definition vec_shuffle_d128 :: "u128 \<Rightarrow> u128 \<Rightarrow> u8 \<Rightarrow> u128" where
  "vec_shuffle_d128 src dst encoding = lanes_loop 4 (\<lambda>i _ :: u32. lane (sel2 encoding i) src) dst"

definition vec_shuffle_ps128 :: "u128 \<Rightarrow> u128 \<Rightarrow> u8 \<Rightarrow> u128" where
  "vec_shuffle_ps128 src dst encoding =
     lanes_loop 4 (\<lambda>i _ :: u32. lane (sel2 encoding i) (if i < 2 then dst else src)) dst"

definition vec_shuffle_pd128 :: "u128 \<Rightarrow> u128 \<Rightarrow> u8 \<Rightarrow> u128" where
  "vec_shuffle_pd128 src dst encoding =
     put_lane 1 (lane (of_bool (bit encoding 1)) src :: u64)
       (put_lane 0 (lane (of_bool (bit encoding 0)) dst :: u64) dst)"

fun movmask_loop :: "nat \<Rightarrow> (nat \<Rightarrow> bool) \<Rightarrow> u32 \<Rightarrow> u32" where
  "movmask_loop 0 sign d = d"
| "movmask_loop (Suc i) sign d = (let d' = movmask_loop i sign d in if sign i then d' OR push_bit i 1 else d')"

definition vec_movmask_b128 :: "u128 \<Rightarrow> u32" where
  "vec_movmask_b128 src = movmask_loop 16 (\<lambda>i. bit (lane i src :: u8) 7) 0"
definition vec_fmovmask_s128 :: "u128 \<Rightarrow> u32" where
  "vec_fmovmask_s128 src =
     fold (\<lambda>i d. d OR push_bit i (drop_bit 31 (lane i src))) [0..<4] 0"
definition vec_fmovmask_d128 :: "u128 \<Rightarrow> u32" where
  "vec_fmovmask_d128 src = movmask_loop 2 (\<lambda>i. bit (lane i src :: u64) 63) 0"

definition vec_movl_p64 :: "u64 \<Rightarrow> u128 \<Rightarrow> u128" where "vec_movl_p64 src dst = put_lane 0 src dst"
definition vec_movl_pm64 :: "u128 \<Rightarrow> u64" where "vec_movl_pm64 src = lane 0 src"
definition vec_movh_p64 :: "u64 \<Rightarrow> u128 \<Rightarrow> u128" where "vec_movh_p64 src dst = put_lane 1 src dst"
definition vec_movh_pm64 :: "u128 \<Rightarrow> u64" where "vec_movh_pm64 src = lane 1 src"
definition vec_insert_w128 :: "u32 \<Rightarrow> u128 \<Rightarrow> u8 \<Rightarrow> u128" where
  "vec_insert_w128 src dst index = put_lane (unat index mod 8) (ucast src :: u16) dst"
definition vec_extract_w128 :: "u128 \<Rightarrow> u8 \<Rightarrow> u32" where
  "vec_extract_w128 src index = ucast (lane (unat index mod 8) src :: u16)"

section \<open>64-bit registers (emu/mmx.c)\<close>

definition vec_add_b64 :: "u64 \<Rightarrow> u64 \<Rightarrow> u64" where
  "vec_add_b64 = lanes2 8 (\<lambda>d s :: 8 word. d + s)"

definition vec_add_w64 :: "u64 \<Rightarrow> u64 \<Rightarrow> u64" where
  "vec_add_w64 = lanes2 4 (\<lambda>d s :: 16 word. d + s)"

definition vec_add_d64 :: "u64 \<Rightarrow> u64 \<Rightarrow> u64" where
  "vec_add_d64 = lanes2 2 (\<lambda>d s :: 32 word. d + s)"

definition vec_add_q64 :: "u64 \<Rightarrow> u64 \<Rightarrow> u64" where
  "vec_add_q64 = lanes2 1 (\<lambda>d s :: 64 word. d + s)"

definition vec_sub_b64 :: "u64 \<Rightarrow> u64 \<Rightarrow> u64" where
  "vec_sub_b64 = lanes2 8 (\<lambda>d s :: 8 word. d - s)"

definition vec_sub_w64 :: "u64 \<Rightarrow> u64 \<Rightarrow> u64" where
  "vec_sub_w64 = lanes2 4 (\<lambda>d s :: 16 word. d - s)"

definition vec_sub_d64 :: "u64 \<Rightarrow> u64 \<Rightarrow> u64" where
  "vec_sub_d64 = lanes2 2 (\<lambda>d s :: 32 word. d - s)"

definition vec_sub_q64 :: "u64 \<Rightarrow> u64 \<Rightarrow> u64" where
  "vec_sub_q64 = lanes2 1 (\<lambda>d s :: 64 word. d - s)"

definition vec_and_q64 :: "u64 \<Rightarrow> u64 \<Rightarrow> u64" where
  "vec_and_q64 = lanes2 1 (\<lambda>d s :: 64 word. d AND s)"

definition vec_or_q64 :: "u64 \<Rightarrow> u64 \<Rightarrow> u64" where
  "vec_or_q64 = lanes2 1 (\<lambda>d s :: 64 word. d OR s)"

definition vec_xor_q64 :: "u64 \<Rightarrow> u64 \<Rightarrow> u64" where
  "vec_xor_q64 = lanes2 1 (\<lambda>d s :: 64 word. d XOR s)"

definition vec_compare_eqb64 :: "u64 \<Rightarrow> u64 \<Rightarrow> u64" where
  "vec_compare_eqb64 = lanes2 8 (\<lambda>d s :: 8 word. if d = s then - 1 else 0)"

definition vec_compare_eqw64 :: "u64 \<Rightarrow> u64 \<Rightarrow> u64" where
  "vec_compare_eqw64 = lanes2 4 (\<lambda>d s :: 16 word. if d = s then - 1 else 0)"

definition vec_compare_eqd64 :: "u64 \<Rightarrow> u64 \<Rightarrow> u64" where
  "vec_compare_eqd64 = lanes2 2 (\<lambda>d s :: 32 word. if d = s then - 1 else 0)"

definition vec_compares_gtb64 :: "u64 \<Rightarrow> u64 \<Rightarrow> u64" where
  "vec_compares_gtb64 = lanes2 8 (\<lambda>d s :: 8 word. if sint d > sint s then - 1 else 0)"

definition vec_compares_gtw64 :: "u64 \<Rightarrow> u64 \<Rightarrow> u64" where
  "vec_compares_gtw64 = lanes2 4 (\<lambda>d s :: 16 word. if sint d > sint s then - 1 else 0)"

definition vec_compares_gtd64 :: "u64 \<Rightarrow> u64 \<Rightarrow> u64" where
  "vec_compares_gtd64 = lanes2 2 (\<lambda>d s :: 32 word. if sint d > sint s then - 1 else 0)"

definition vec_shiftr_w64 :: "u64 \<Rightarrow> u64 \<Rightarrow> u64" where
  "vec_shiftr_w64 src dst = shift_lanes 4 16 (drop_bit :: nat \<Rightarrow> 16 word \<Rightarrow> 16 word) (ucast src) dst"

definition vec_imm_shiftr_w64 :: "u8 \<Rightarrow> u64 \<Rightarrow> u64" where
  "vec_imm_shiftr_w64 amount dst = shift_lanes 4 16 (drop_bit :: nat \<Rightarrow> 16 word \<Rightarrow> 16 word) amount dst"

definition vec_shiftr_d64 :: "u64 \<Rightarrow> u64 \<Rightarrow> u64" where
  "vec_shiftr_d64 src dst = shift_lanes 2 32 (drop_bit :: nat \<Rightarrow> 32 word \<Rightarrow> 32 word) (ucast src) dst"

definition vec_imm_shiftr_d64 :: "u8 \<Rightarrow> u64 \<Rightarrow> u64" where
  "vec_imm_shiftr_d64 amount dst = shift_lanes 2 32 (drop_bit :: nat \<Rightarrow> 32 word \<Rightarrow> 32 word) amount dst"

definition vec_shiftr_q64 :: "u64 \<Rightarrow> u64 \<Rightarrow> u64" where
  "vec_shiftr_q64 src dst = shift_lanes 1 64 (drop_bit :: nat \<Rightarrow> 64 word \<Rightarrow> 64 word) (ucast src) dst"

definition vec_imm_shiftr_q64 :: "u8 \<Rightarrow> u64 \<Rightarrow> u64" where
  "vec_imm_shiftr_q64 amount dst = shift_lanes 1 64 (drop_bit :: nat \<Rightarrow> 64 word \<Rightarrow> 64 word) amount dst"

definition vec_shiftl_w64 :: "u64 \<Rightarrow> u64 \<Rightarrow> u64" where
  "vec_shiftl_w64 src dst = shift_lanes 4 16 (push_bit :: nat \<Rightarrow> 16 word \<Rightarrow> 16 word) (ucast src) dst"

definition vec_imm_shiftl_w64 :: "u8 \<Rightarrow> u64 \<Rightarrow> u64" where
  "vec_imm_shiftl_w64 amount dst = shift_lanes 4 16 (push_bit :: nat \<Rightarrow> 16 word \<Rightarrow> 16 word) amount dst"

definition vec_shiftl_d64 :: "u64 \<Rightarrow> u64 \<Rightarrow> u64" where
  "vec_shiftl_d64 src dst = shift_lanes 2 32 (push_bit :: nat \<Rightarrow> 32 word \<Rightarrow> 32 word) (ucast src) dst"

definition vec_imm_shiftl_d64 :: "u8 \<Rightarrow> u64 \<Rightarrow> u64" where
  "vec_imm_shiftl_d64 amount dst = shift_lanes 2 32 (push_bit :: nat \<Rightarrow> 32 word \<Rightarrow> 32 word) amount dst"

definition vec_shiftl_q64 :: "u64 \<Rightarrow> u64 \<Rightarrow> u64" where
  "vec_shiftl_q64 src dst = shift_lanes 1 64 (push_bit :: nat \<Rightarrow> 64 word \<Rightarrow> 64 word) (ucast src) dst"

definition vec_imm_shiftl_q64 :: "u8 \<Rightarrow> u64 \<Rightarrow> u64" where
  "vec_imm_shiftl_q64 amount dst = shift_lanes 1 64 (push_bit :: nat \<Rightarrow> 64 word \<Rightarrow> 64 word) amount dst"

definition vec_shiftrs_w64 :: "u64 \<Rightarrow> u64 \<Rightarrow> u64" where
  "vec_shiftrs_w64 src dst = shift_sign 4 16 TYPE(16) (ucast src) dst"

definition vec_imm_shiftrs_w64 :: "u8 \<Rightarrow> u64 \<Rightarrow> u64" where
  "vec_imm_shiftrs_w64 amount dst = shift_sign 4 16 TYPE(16) amount dst"

definition vec_shiftrs_d64 :: "u64 \<Rightarrow> u64 \<Rightarrow> u64" where
  "vec_shiftrs_d64 src dst = shift_sign 2 32 TYPE(32) (ucast src) dst"

definition vec_imm_shiftrs_d64 :: "u8 \<Rightarrow> u64 \<Rightarrow> u64" where
  "vec_imm_shiftrs_d64 amount dst = shift_sign 2 32 TYPE(32) amount dst"

definition vec_mulu64 :: "u64 \<Rightarrow> u64 \<Rightarrow> u64" where
  "vec_mulu64 = lanes2 4 (\<lambda>d s :: 16 word. ucast (drop_bit 16 (word_of_int (sint d * sint s) :: u32) AND 0xffff))"

definition vec_mull64 :: "u64 \<Rightarrow> u64 \<Rightarrow> u64" where
  "vec_mull64 = lanes2 4 (\<lambda>d s :: 16 word. word_of_int (uint d * uint s))"

definition vec_mulu_dq64 :: "u64 \<Rightarrow> u64 \<Rightarrow> u64" where
  "vec_mulu_dq64 src dst = ucast (lane 0 src :: u32) * ucast (lane 0 dst :: u32)"

definition vec_unpackl_dq64 :: "u64 \<Rightarrow> u64 \<Rightarrow> u64" where
  "vec_unpackl_dq64 src dst = put_lane 1 (lane 0 src :: u32) dst"

definition vec_shuffle_w64 :: "u64 \<Rightarrow> u64 \<Rightarrow> u8 \<Rightarrow> u64" where
  "vec_shuffle_w64 src dst encoding = lanes_loop 4 (\<lambda>i _ :: u16. lane (sel2 encoding i) src) dst"

definition vec_movmask_b64 :: "u64 \<Rightarrow> u32" where
  "vec_movmask_b64 src = movmask_loop 8 (\<lambda>i. bit (lane i src :: u8) 7) 0"

definition vec_insert_w64 :: "u32 \<Rightarrow> u64 \<Rightarrow> u8 \<Rightarrow> u64" where
  "vec_insert_w64 src dst index = put_lane (unat index mod 4) (ucast src :: u16) dst"

end
