(* ===== verification/Vec_Props.thy ===== *)
theory Vec_Props
  imports Vec Fpu_Props
begin

text \<open>
  Properties of the vector instructions: what the functions compute lane by lane against saturating arithmetic on
  integers, packing and unpacking, shifts, comparisons; and the cases where the code departs from it.
\<close>

section \<open>Lanes\<close>

lemma bit_lane: "bit (lane i v :: 'l::len word) n \<longleftrightarrow> n < LENGTH('l) \<and> bit v (i * LENGTH('l) + n)"
  by (auto simp: lane_def bit_simps)

lemma bit_put_lane:
  fixes v :: "'v::len word" and x :: "'l::len word"
  assumes "n < LENGTH('v)"
  shows "bit (put_lane i x v) n =
    (if i * LENGTH('l) \<le> n \<and> n < i * LENGTH('l) + LENGTH('l) then bit x (n - i * LENGTH('l)) else bit v n)"
proof -
  have "n - i * LENGTH('l) < LENGTH('v)" using assms by (rule less_imp_diff_less)
  then have "bit (put_lane i x v) n \<longleftrightarrow>
      (bit v n \<and> \<not> (i * LENGTH('l) \<le> n \<and> n - i * LENGTH('l) < LENGTH('l))) \<or> (i * LENGTH('l) \<le> n \<and> bit x (n - i * LENGTH('l)))"
    using assms by (simp add: put_lane_def bit_or_iff bit_and_iff bit_not_iff bit_push_bit_iff bit_mask_iff
        bit_unsigned_iff del: not_le)
  moreover have "bit x (n - i * LENGTH('l)) \<Longrightarrow> n - i * LENGTH('l) < LENGTH('l)" by (rule bit_imp_le_length)
  ultimately show ?thesis by (simp add: less_diff_conv2) linarith
qed

lemma lane_index: "m < w \<Longrightarrow> i * w \<le> j * w + m \<and> j * w + m < i * w + w \<longleftrightarrow> i = j" for i j w m :: nat
proof (cases i j rule: linorder_cases)
  case less
  then have "Suc i * w \<le> j * w" by (intro mult_le_mono1) simp
  then show "m < w \<Longrightarrow> i * w \<le> j * w + m \<and> j * w + m < i * w + w \<longleftrightarrow> i = j" using less by simp
next
  case greater
  then have "Suc j * w \<le> i * w" by (intro mult_le_mono1) simp
  then show "m < w \<Longrightarrow> i * w \<le> j * w + m \<and> j * w + m < i * w + w \<longleftrightarrow> i = j" using greater by simp
qed simp

lemma lane_put_lane:
  fixes v :: "'v::len word" and x :: "'l::len word"
  assumes "(j + 1) * LENGTH('l) \<le> LENGTH('v)"
  shows "lane j (put_lane i x v) = (if i = j then x else lane j v)"
proof (rule bit_word_eqI)
  fix n assume n: "n < LENGTH('l)"
  have "j * LENGTH('l) + n < LENGTH('v)" using assms n by simp
  moreover have "i * LENGTH('l) \<le> j * LENGTH('l) + n \<and> j * LENGTH('l) + n < i * LENGTH('l) + LENGTH('l) \<longleftrightarrow> i = j"
    using n by (rule lane_index)
  ultimately show "bit (lane j (put_lane i x v) :: 'l word) n = bit (if i = j then x else lane j v) n"
    using n by (auto simp: bit_lane bit_put_lane)
qed

lemma lanes_loop_lane:
  fixes d :: "'v::len word" and f :: "nat \<Rightarrow> 'l::len word \<Rightarrow> 'l word"
  assumes "n * LENGTH('l) \<le> LENGTH('v)" "(j + 1) * LENGTH('l) \<le> LENGTH('v)"
  shows "lane j (lanes_loop n f d) = (if j < n then f j (lane j d) else lane j d)"
  using assms(1)
proof (induction n)
  case (Suc n)
  then show ?case using assms(2) by (auto simp: Let_def lane_put_lane)
qed simp

lemma lanes2_lane:
  fixes d s :: "'v::len word" and f :: "'l::len word \<Rightarrow> 'l word \<Rightarrow> 'l word"
  assumes "n * LENGTH('l) \<le> LENGTH('v)" "j < n"
  shows "lane j (lanes2 n f s d) = f (lane j d) (lane j s)"
proof -
  have "(j + 1) * LENGTH('l) \<le> n * LENGTH('l)" using assms(2) by (intro mult_le_mono1) simp
  then show ?thesis using assms lanes_loop_lane [OF assms(1)] by (simp add: lanes2_def)
qed

lemma lanes_xmm:
  fixes s d :: u128
  shows "i < 16 \<Longrightarrow> lane i (lanes2 16 f8 s d) = f8 (lane i d) (lane i s :: u8)"
    "i < 8 \<Longrightarrow> lane i (lanes2 8 f16 s d) = f16 (lane i d) (lane i s :: u16)"
    "i < 4 \<Longrightarrow> lane i (lanes2 4 f32 s d) = f32 (lane i d) (lane i s :: u32)"
    "i < 2 \<Longrightarrow> lane i (lanes2 2 f64 s d) = f64 (lane i d) (lane i s :: u64)"
  by (rule lanes2_lane; simp)+

lemma lanes_eqI:
  fixes v w :: "'v::len word"
  assumes "\<And>j. j < n \<Longrightarrow> lane j v = (lane j w :: 'l::len word)" "n * LENGTH('l) = LENGTH('v)"
  shows "v = w"
proof (rule bit_word_eqI)
  fix k assume k: "k < LENGTH('v)"
  let ?j = "k div LENGTH('l)" and ?m = "k mod LENGTH('l)"
  have "?j < n" using k assms(2) by (simp add: less_mult_imp_div_less)
  then have "bit (lane ?j v :: 'l word) ?m = bit (lane ?j w :: 'l word) ?m" by (simp only: assms(1))
  then show "bit v k = bit w k" by (simp add: bit_lane)
qed

section \<open>Saturation\<close>

definition clamp :: "int \<Rightarrow> int \<Rightarrow> int \<Rightarrow> int" where "clamp lo hi x = max lo (min hi x)"

lemma uint_word_of_small:
  "0 \<le> x \<Longrightarrow> x < 0x80000000 \<Longrightarrow> uint (word_of_int x :: u32) = x"
  "- 0x80000000 \<le> x \<Longrightarrow> x < 0 \<Longrightarrow> uint (word_of_int x :: u32) = x + 0x100000000"
proof -
  show "0 \<le> x \<Longrightarrow> x < 0x80000000 \<Longrightarrow> uint (word_of_int x :: u32) = x"
    by (simp add: uint_word_of_int)
  assume x: "- 0x80000000 \<le> x" "x < 0"
  have "x mod 0x100000000 = (x + 0x100000000) mod 0x100000000" by simp
  also have "\<dots> = x + 0x100000000" using x by (intro mod_pos_pos_trivial) simp_all
  finally show "uint (word_of_int x :: u32) = x + 0x100000000" by (simp add: uint_word_of_int)
qed


lemma less_u32: "(a < b) = (uint a < uint b)" for a b :: u32 by (rule word_less_alt)

lemma ucast_word_of_int_u8: "ucast (word_of_int x :: u32) = (word_of_int x :: u8)"
  by (rule bit_word_eqI) (simp add: bit_simps)

lemma ucast_word_of_int_u16: "ucast (word_of_int x :: u32) = (word_of_int x :: u16)"
  by (rule bit_word_eqI) (simp add: bit_simps)

lemma ucast_low_u8: "ucast (w AND 0xff) = (ucast w :: u8)" for w :: u32
proof -
  have "w AND 0xff = take_bit 8 w" by (simp add: take_bit_eq_mask mask_eq_exp_minus_1)
  then show ?thesis by (intro bit_word_eqI) (simp add: bit_simps)
qed

lemma ucast_low_u16: "ucast (w AND 0xffff) = (ucast w :: u16)" for w :: u32
proof -
  have "w AND 0xffff = take_bit 16 w" by (simp add: take_bit_eq_mask mask_eq_exp_minus_1)
  then show ?thesis by (intro bit_word_eqI) (simp add: bit_simps)
qed

text \<open>The comparisons of a saturating function, by the range the integer is in.\<close>

lemma satsb_clamp:
  assumes "- 0x80000000 \<le> x" "x < 0x80000000"
  shows "ucast (satsb (word_of_int x)) = (word_of_int (clamp (- 0x80) 0x7f x) :: u8)"
proof (cases "0 \<le> x")
  case True
  then show ?thesis using assms(2) uint_word_of_small(1) [of x]
    by (simp add: satsb_def less_u32 clamp_def ucast_word_of_int_u8)
next
  case False
  then show ?thesis using assms(1) uint_word_of_small(2) [of x]
    by (auto simp: satsb_def less_u32 clamp_def ucast_word_of_int_u8 ucast_low_u8)
qed

lemma satud_clamp:
  assumes "- 0x80000000 \<le> x" "x < 0x80000000"
  shows "ucast (satud (word_of_int x)) = (word_of_int (clamp (- 0x8000) 0x7fff x) :: u16)"
proof (cases "0 \<le> x")
  case True
  then show ?thesis using assms(2) uint_word_of_small(1) [of x]
    by (simp add: satud_def less_u32 clamp_def ucast_word_of_int_u16)
next
  case False
  then show ?thesis using assms(1) uint_word_of_small(2) [of x]
    by (auto simp: satud_def less_u32 clamp_def ucast_word_of_int_u16 ucast_low_u16)
qed

lemma sint_bounds_u8: "- 0x80 \<le> sint a" "sint a \<le> 0x7f" for a :: u8
  using sint_greater_eq [of a] sint_less [of a] by simp_all

lemma sint_bounds_u16: "- 0x8000 \<le> sint a" "sint a \<le> 0x7fff" for a :: u16
  using sint_greater_eq [of a] sint_less [of a] by simp_all

lemma sum_bounds:
  fixes a b :: u8 and c d :: u16
  shows "- 0x80000000 \<le> sint a + sint b" "sint a + sint b < 0x80000000" "- 0x80000000 \<le> sint a - sint b" "sint a - sint b < 0x80000000"
    "- 0x80000000 \<le> sint c + sint d" "sint c + sint d < 0x80000000" "- 0x80000000 \<le> sint c - sint d" "sint c - sint d < 0x80000000"
  using sint_bounds_u8 [of a] sint_bounds_u8 [of b] sint_bounds_u16 [of c] sint_bounds_u16 [of d] by linarith+

lemma clamp_unsigned:
  "0 \<le> x \<Longrightarrow> 0 \<le> hi \<Longrightarrow> (if x > hi then hi else x) = clamp 0 hi x" "x \<le> hi \<Longrightarrow> 0 \<le> hi \<Longrightarrow> (if x < 0 then 0 else x) = clamp 0 hi x"
  by (auto simp: clamp_def)

lemma uint_bounds:
  fixes a :: u8 and c :: u16
  shows "0 \<le> uint a" "uint a \<le> 0xff" "0 \<le> uint c" "uint c \<le> 0xffff"
proof -
  have "uint a < 2 ^ LENGTH(8)" "uint c < 2 ^ LENGTH(16)" by (rule unsigned_less)+
  then show "0 \<le> uint a" "uint a \<le> 0xff" "0 \<le> uint c" "uint c \<le> 0xffff" by simp_all
qed

text \<open>C38. The saturating additions and subtractions compute, lane by lane, the exact sum or difference of the two
  integers cut off at the ends of the lane's range: signed or unsigned, on bytes or on 16-bit words.\<close>

theorem saturating_arithmetic:
  fixes s d :: u128
  assumes "i < 16" "j < 8"
  shows "lane i (vec_addss_b128 s d) = (word_of_int (clamp (- 0x80) 0x7f (sint (lane i d :: u8) + sint (lane i s :: u8))) :: u8) \<and>
           lane i (vec_subss_b128 s d) = (word_of_int (clamp (- 0x80) 0x7f (sint (lane i d :: u8) - sint (lane i s :: u8))) :: u8) \<and>
           lane i (vec_addus_b128 s d) = (word_of_int (clamp 0 0xff (uint (lane i d :: u8) + uint (lane i s :: u8))) :: u8) \<and>
           lane i (vec_subus_b128 s d) = (word_of_int (clamp 0 0xff (uint (lane i d :: u8) - uint (lane i s :: u8))) :: u8) \<and>
           lane j (vec_addss_w128 s d) = (word_of_int (clamp (- 0x8000) 0x7fff (sint (lane j d :: u16) + sint (lane j s :: u16))) :: u16) \<and>
           lane j (vec_subss_w128 s d) = (word_of_int (clamp (- 0x8000) 0x7fff (sint (lane j d :: u16) - sint (lane j s :: u16))) :: u16) \<and>
           lane j (vec_addus_w128 s d) = (word_of_int (clamp 0 0xffff (uint (lane j d :: u16) + uint (lane j s :: u16))) :: u16) \<and>
           lane j (vec_subus_w128 s d) = (word_of_int (clamp 0 0xffff (uint (lane j d :: u16) - uint (lane j s :: u16))) :: u16)"
proof -
  have u8: "(if uint (lane i d :: u8) + uint (lane i s :: u8) > 0xff then 0xff else uint (lane i d :: u8) + uint (lane i s :: u8))
      = clamp 0 0xff (uint (lane i d :: u8) + uint (lane i s :: u8))"
    "(if uint (lane i d :: u8) - uint (lane i s :: u8) < 0 then 0 else uint (lane i d :: u8) - uint (lane i s :: u8))
      = clamp 0 0xff (uint (lane i d :: u8) - uint (lane i s :: u8))"
    using uint_bounds(1,2) [of "lane i d"] uint_bounds(1,2) [of "lane i s"]
    by (intro clamp_unsigned; linarith)+
  have u16: "(if uint (lane j d :: u16) + uint (lane j s :: u16) > 0xffff then 0xffff else uint (lane j d :: u16) + uint (lane j s :: u16))
      = clamp 0 0xffff (uint (lane j d :: u16) + uint (lane j s :: u16))"
    "(if uint (lane j d :: u16) - uint (lane j s :: u16) < 0 then 0 else uint (lane j d :: u16) - uint (lane j s :: u16))
      = clamp 0 0xffff (uint (lane j d :: u16) - uint (lane j s :: u16))"
    using uint_bounds(3,4) [of "lane j d"] uint_bounds(3,4) [of "lane j s"]
    by (intro clamp_unsigned; linarith)+
  show ?thesis
    by (simp only: vec_addss_b128_def vec_subss_b128_def vec_addus_b128_def vec_subus_b128_def vec_addss_w128_def
        vec_subss_w128_def vec_addus_w128_def vec_subus_w128_def lanes_xmm(1) [OF assms(1)] lanes_xmm(2) [OF assms(2)] Let_def u8 u16 satsb_clamp [OF sum_bounds(1,2)]
        satsb_clamp [OF sum_bounds(3,4)] satud_clamp [OF sum_bounds(5,6)] satud_clamp [OF sum_bounds(7,8)] simp_thms)
qed

theorem saturating_arithmetic_witness:
  "lane 0 (vec_addss_b128 1 0x7f) = (0x7f :: u8) \<and> lane 0 (vec_subus_w128 1 0) = (0 :: u16)"
  using saturating_arithmetic [of 0 0 1 "0x7f"] saturating_arithmetic [of 0 0 1 0] by (simp add: lane_def clamp_def)

end
