(* ===== verification/Vec_Pack.thy ===== *)
theory Vec_Pack
  imports Vec_Props
begin

text \<open>
  Packing and unpacking (\<^verbatim>\<open>emu/vec.c\<close>): lanes of one size inside lanes of another, saturation to half the width,
  the interleaving loops, and the round trip between them.
\<close>

section \<open>Lanes of different sizes\<close>

lemma lane_put_sub:
  fixes v :: "'v::len word" and x :: "'x::len word"
  assumes k: "LENGTH('x) = k * LENGTH('l::len)" and j: "(j + 1) * LENGTH('l) \<le> LENGTH('v)"
  shows "lane j (put_lane i x v) = (if i = j div k then lane (j mod k) x else lane j v :: 'l word)"
proof (rule bit_word_eqI)
  fix n assume n: "n < LENGTH('l)"
  let ?m = "j mod k * LENGTH('l) + n"
  have k0: "0 < k" using k by (cases k) simp_all
  then have "Suc (j mod k) * LENGTH('l) \<le> k * LENGTH('l)" by (intro mult_le_mono1) (simp add: Suc_le_eq)
  then have m: "?m < LENGTH('x)" using n k by simp
  have "j * LENGTH('l) = (j div k * k + j mod k) * LENGTH('l)" by simp
  also have "\<dots> = j div k * LENGTH('x) + j mod k * LENGTH('l)" by (simp only: k add_mult_distrib mult.assoc)
  finally have eq: "j * LENGTH('l) + n = j div k * LENGTH('x) + ?m" by simp
  have "j * LENGTH('l) + n < LENGTH('v)" using j n by simp
  moreover have "i * LENGTH('x) \<le> j * LENGTH('l) + n \<and> j * LENGTH('l) + n < i * LENGTH('x) + LENGTH('x) \<longleftrightarrow> i = j div k"
    unfolding eq using m by (rule lane_index)
  ultimately show "bit (lane j (put_lane i x v) :: 'l word) n = bit (if i = j div k then lane (j mod k) x else lane j v :: 'l word) n"
    using n eq by (auto simp: bit_lane bit_put_lane)
qed

lemma lane_lane:
  fixes v :: "'v::len word"
  assumes k: "LENGTH('x::len) = k * LENGTH('l::len)" and q: "q < k"
  shows "lane q (lane j v :: 'x word) = (lane (j * k + q) v :: 'l word)"
proof (rule bit_word_eqI)
  fix n assume n: "n < LENGTH('l)"
  have "Suc q * LENGTH('l) \<le> k * LENGTH('l)" using q by (intro mult_le_mono1) simp
  then have "q * LENGTH('l) + n < LENGTH('x)" using n k by simp
  moreover have "j * LENGTH('x) + (q * LENGTH('l) + n) = (j * k + q) * LENGTH('l) + n"
    by (simp only: k add_mult_distrib mult.assoc add.assoc)
  ultimately show "bit (lane q (lane j v :: 'x word) :: 'l word) n = bit (lane (j * k + q) v :: 'l word) n"
    using n by (simp only: bit_lane simp_thms)
qed

lemma lane_0_same [simp]: "lane 0 (x :: 'l::len word) = x"
  by (rule bit_word_eqI) (simp add: bit_lane)

lemma lane_zero [simp]: "lane i 0 = 0"
  by (simp add: lane_def)

text \<open>Four bytes, and two 16-bit words, side by side in 32 bits.\<close>

lemma lane_join4:
  fixes a b c d :: u8
  assumes "q < 4"
  shows "lane q (ucast a OR push_bit 8 (ucast b) OR push_bit 16 (ucast c) OR push_bit 24 (ucast d) :: u32)
    = (if q = 0 then a else if q = 1 then b else if q = 2 then c else d)"
proof -
  have "q = 0 \<or> q = 1 \<or> q = 2 \<or> q = 3" using assms by linarith
  moreover have "\<not> bit x n" if "8 \<le> n" for x :: u8 and n using bit_imp_le_length [of x n] that by auto
  ultimately show ?thesis
    by (elim disjE; intro bit_word_eqI) (auto simp: bit_lane bit_simps)
qed

lemma lane_join2:
  fixes a b :: u16
  assumes "q < 2"
  shows "lane q (ucast a OR push_bit 16 (ucast b) :: u32) = (if q = 0 then a else b)"
proof -
  have "q = 0 \<or> q = 1" using assms by linarith
  moreover have "\<not> bit x n" if "16 \<le> n" for x :: u16 and n using bit_imp_le_length [of x n] that by auto
  ultimately show ?thesis
    by (elim disjE; intro bit_word_eqI) (auto simp: bit_lane bit_simps)
qed

section \<open>Packing\<close>

lemma sint_u16: "sint x = (if uint x < 0x8000 then uint x else uint x - 0x10000)" for x :: u16
proof -
  have u: "0 \<le> uint x" "uint x < 0x10000" using uint_bounds(3,4) [of x] by simp_all
  have "sint x = take_bit 16 (uint x + 0x8000) - 0x8000"
    using signed_take_bit_eq_take_bit_shift [of 15 "uint x"] by (simp add: sint_uint)
  then have s: "sint x = (uint x + 0x8000) mod 0x10000 - 0x8000" by (simp add: take_bit_eq_mod)
  show ?thesis
  proof (cases "uint x < 0x8000")
    case True
    then show ?thesis using u by (simp add: s)
  next
    case False
    have "(uint x + 0x8000) mod 0x10000 = (uint x - 0x8000 + 0x10000) mod 0x10000" by (simp add: algebra_simps)
    also have "\<dots> = (uint x - 0x8000) mod 0x10000" by (rule mod_add_self2)
    also have "\<dots> = uint x - 0x8000" using False u by (intro mod_pos_pos_trivial) simp_all
    finally show ?thesis using False by (simp add: s)
  qed
qed


lemma satsw_clamp: "satsw (ucast w) = ucast (word_of_int (clamp (- 0x80) 0x7f (sint w)) :: u8)" for w :: u16
proof -
  have u: "0 \<le> uint w" "uint w < 0x10000" using uint_bounds(3,4) [of w] by simp_all
  have si: "sint (ucast w :: u32) = uint w"
    using order_trans [OF _ u(1), of "- (2 ^ 31)"] u(2)
    by (simp add: sint_uint uint_up_ucast is_up signed_take_bit_int_eq_self)
  consider (low) "uint w < 0x80" | (high) "0x80 \<le> uint w" "uint w < 0x8000" | (vneg) "0x8000 \<le> uint w" "uint w \<le> 0xff80"
    | (neg) "0xff80 < uint w" by linarith
  then show ?thesis
  proof cases
    case low
    have "clamp (- 0x80) 0x7f (sint w) = uint w" using low order_trans [OF _ u(1), of "- 0x80"] by (simp add: clamp_def sint_u16)
    then show ?thesis using u low
      by (simp add: satsw_def si) (simp add: word_uint_eq_iff unsigned_ucast_eq unsigned_take_bit_eq take_bit_int_eq_self)
  next
    case high
    then show ?thesis using u by (simp add: satsw_def si sint_u16 clamp_def)
  next
    case vneg
    then show ?thesis using u by (simp add: satsw_def si sint_u16 clamp_def)
  next
    case neg
    have "(ucast w :: u32) AND 0xff = take_bit 8 (ucast w)" by (simp add: take_bit_eq_mask mask_eq_exp_minus_1)
    also have "\<dots> = ucast (ucast w :: u8)" by (rule bit_word_eqI) (auto simp: bit_simps)
    also have "(ucast w :: u8) = word_of_int (uint w - 0x10000)"
      using mod_diff_right_eq [of "uint w" "0x10000" "0x100"]
      by (simp add: unsigned_ucast_eq word_uint_eq_iff uint_word_of_int take_bit_eq_mod del: of_int_diff)
    finally show ?thesis using neg u by (simp add: satsw_def si sint_u16 clamp_def)
  qed
qed

lemma satub_clamp: "satub (ucast w) = ucast (word_of_int (clamp 0 0xff (sint w)) :: u8)" for w :: u16
proof -
  have u: "0 \<le> uint w" "uint w < 0x10000" using uint_bounds(3,4) [of w] by simp_all
  have si: "uint (ucast w :: u32) = uint w" by (simp add: uint_up_ucast is_up)
  consider (low) "uint w < 0x100" | (high) "0x100 \<le> uint w" "uint w < 0x8000" | (neg) "0x8000 \<le> uint w" by linarith
  then show ?thesis
  proof cases
    case low
    then show ?thesis using u
      by (simp add: satub_def word_le_def less_u32 si sint_u16 clamp_def) (simp add: word_uint_eq_iff uint_word_of_int unsigned_ucast_eq unsigned_take_bit_eq take_bit_int_eq_self)
  qed (use u in \<open>simp_all add: satub_def word_le_def less_u32 si sint_u16 clamp_def\<close>)
qed

lemma sint_bounds_u32: "- 0x80000000 \<le> sint a" "sint a < 0x80000000" for a :: u32
  using sint_greater_eq [of a] sint_less [of a] by simp_all

lemma satud_fits: "satud a < 0x10000" for a :: u32
proof -
  have "a AND 0xffff = take_bit 16 a" by (simp add: take_bit_eq_mask mask_eq_exp_minus_1)
  moreover have "uint (take_bit 16 a) < 0x10000"
    using take_bit_int_less_exp [of 16 "uint a"] by (simp add: unsigned_take_bit_eq)
  ultimately show ?thesis by (simp add: satud_def less_u32)
qed

lemma satud_clamp': "satud a = ucast (word_of_int (clamp (- 0x8000) 0x7fff (sint a)) :: u16)" for a :: u32
proof -
  have "ucast (satud a) = (word_of_int (clamp (- 0x8000) 0x7fff (sint a)) :: u16)"
    using satud_clamp [OF sint_bounds_u32 [of a]] by simp
  then have "(ucast (ucast (satud a) :: u16) :: u32) = ucast (word_of_int (clamp (- 0x8000) 0x7fff (sint a)) :: u16)" by simp
  moreover have "ucast (ucast x :: u16) = x" if "x < 0x10000" for x :: u32
    using that by (simp add: word_uint_eq_iff less_u32 unsigned_take_bit_eq unsigned_ucast_eq take_bit_int_eq_self)
  ultimately show ?thesis using satud_fits [of a] by simp
qed


lemma pack_w_lane:
  assumes "\<And>w :: u16. sat (ucast w) = ucast (g w :: u8)" "q < 4"
  shows "lane q (pack_w sat i v) = g (lane (i + q) v)"
proof -
  have "lane q (pack_w sat i v) = (if q = 0 then g (lane i v) else if q = 1 then g (lane (i + 1) v)
      else if q = 2 then g (lane (i + 2) v) else g (lane (i + 3) v))"
    using assms(2) by (simp only: pack_w_def Let_def assms(1) lane_join4 add_0_right)
  moreover have "q = 0 \<or> q = 1 \<or> q = 2 \<or> q = 3" using assms(2) by linarith
  ultimately show ?thesis by auto
qed

lemma pack_d_lane:
  assumes "q < 2"
  shows "lane q (pack_d i v) = (word_of_int (clamp (- 0x8000) 0x7fff (sint (lane (i + q) v :: u32))) :: u16)"
proof -
  have "q = 0 \<or> q = 1" using assms by linarith
  moreover have "lane q (pack_d i v) = (if q = 0 then word_of_int (clamp (- 0x8000) 0x7fff (sint (lane i v :: u32)))
      else (word_of_int (clamp (- 0x8000) 0x7fff (sint (lane (i + 1) v :: u32))) :: u16))"
    using assms by (simp only: pack_d_def satud_clamp' lane_join2)
  ultimately show ?thesis by auto
qed

text \<open>Lane \<open>j\<close> of a packing of two registers, when the pieces packed are above the pieces written before.\<close>

lemma pack_all_lane:
  assumes k: "LENGTH(32) = k * LENGTH('l::len)" and j: "(j + 1) * LENGTH('l) \<le> 128"
    and p: "p step (put_lane 0 (p 0 dst) dst) = p step dst"
  shows "lane j (pack_all p step False src dst) =
    (lane (j mod k) (p (if even (j div k) then 0 else step) (if j div k < 2 then dst else src)) :: 'l word)"
proof -
  have "j * LENGTH('l) < (j + 1) * LENGTH('l)" by simp
  also have "\<dots> \<le> 4 * 32" using j by simp
  also have "\<dots> = 4 * (k * LENGTH('l))" using k by simp
  finally have "j < 4 * k" by simp
  then have "j div k < 4" by (simp add: less_mult_imp_div_less)
  then have "j div k = 0 \<or> j div k = 1 \<or> j div k = 2 \<or> j div k = 3" by linarith
  then show ?thesis
    using lane_put_sub [where 'x = 32 and 'l = 'l and 'v = 128, OF k, of j] j
    by (elim disjE) (simp_all add: pack_all_def Let_def p)
qed


lemma pack_w_above: "pack_w sat 4 (put_lane 0 (x :: u32) d) = pack_w sat 4 d"
proof -
  have "lane (4 + j) (put_lane 0 x d) = (lane (4 + j) d :: u16)" if "j < 4" for j
    using lane_put_sub [where 'x = 32 and 'l = 16 and 'v = 128 and k = 2 and j = "4 + j" and i = 0 and x = x and v = d] that by (simp add: div_eq_0_iff)
  from this [of 0] this [of 1] this [of 2] this [of 3] show ?thesis by (simp add: pack_w_def)
qed

lemma pack_d_above: "pack_d 2 (put_lane 0 (x :: u32) d) = pack_d 2 d"
  by (simp add: pack_d_def lane_put_lane)

lemma pack_index:
  assumes "i < (4 :: nat)"
  shows "(if even (i div 2) then 0 else 2) + i mod 2 = (i :: nat)" "(i + 4) div 2 = Suc (Suc (i div 2))" "(i + 4) mod 2 = i mod 2"
    "i div 2 < 2"
  using assms by (cases "i = 0 \<or> i = 1 \<or> i = 2 \<or> i = 3"; auto)+

lemma pack_index8:
  assumes "i < (8 :: nat)"
  shows "(if even (i div 4) then 0 else 4) + i mod 4 = (i :: nat)" "(i + 8) div 4 = Suc (Suc (i div 4))" "(i + 8) mod 4 = i mod 4"
    "i div 4 < 2"
proof -
  have "i = 0 \<or> i = 1 \<or> i = 2 \<or> i = 3 \<or> i = 4 \<or> i = 5 \<or> i = 6 \<or> i = 7" using assms by linarith
  then show "(if even (i div 4) then 0 else 4) + i mod 4 = (i :: nat)" "(i + 8) div 4 = Suc (Suc (i div 4))" "(i + 8) mod 4 = i mod 4"
    "i div 4 < 2" by auto
qed

lemma pack_w_all_lane:
  assumes "\<And>w :: u16. sat (ucast w) = ucast (g w :: u8)" "i < 8"
  shows "lane i (pack_all (pack_w sat) 4 False s d) = g (lane i d)" "lane (i + 8) (pack_all (pack_w sat) 4 False s d) = g (lane i s)"
  using assms(2) pack_index8 [OF assms(2)]
  by (simp_all add: pack_all_lane [where k = 4 and 'l = 8] pack_w_above pack_w_lane [of sat g, OF assms(1)] del: One_nat_def)

lemma pack_d_all_lane:
  assumes "i < 4"
  shows "lane i (pack_all pack_d 2 False s d) = (word_of_int (clamp (- 0x8000) 0x7fff (sint (lane i d :: u32))) :: u16)"
    "lane (i + 4) (pack_all pack_d 2 False s d) = (word_of_int (clamp (- 0x8000) 0x7fff (sint (lane i s :: u32))) :: u16)"
  using assms pack_index [OF assms]
  by (simp_all add: pack_all_lane [where k = 2 and 'l = 16] pack_d_above pack_d_lane)

text \<open>C39. Packing two different registers: every lane of the result is the lane of the destination (for the first half)
  or of the source (for the second) cut off at the ends of the narrower range, signed for \<open>packss\<close>, unsigned for
  \<open>packsu\<close>. When source and destination are the same register the second half is wrong: the code reads it back after
  it has overwritten the first.\<close>

theorem packing_saturates:
  fixes s d :: u128
  assumes "i < 8" "j < 4"
  shows "lane i (vec_packss_w128 False s d) = (word_of_int (clamp (- 0x80) 0x7f (sint (lane i d :: u16))) :: u8) \<and>
    lane (i + 8) (vec_packss_w128 False s d) = (word_of_int (clamp (- 0x80) 0x7f (sint (lane i s :: u16))) :: u8) \<and>
    lane i (vec_packsu_w128 False s d) = (word_of_int (clamp 0 0xff (sint (lane i d :: u16))) :: u8) \<and>
    lane (i + 8) (vec_packsu_w128 False s d) = (word_of_int (clamp 0 0xff (sint (lane i s :: u16))) :: u8) \<and>
    lane j (vec_packss_d128 False s d) = (word_of_int (clamp (- 0x8000) 0x7fff (sint (lane j d :: u32))) :: u16) \<and>
    lane (j + 4) (vec_packss_d128 False s d) = (word_of_int (clamp (- 0x8000) 0x7fff (sint (lane j s :: u32))) :: u16) \<and>
    vec_packss_w128 True 0x00010000 0x00010000 \<noteq> vec_packss_w128 False 0x00010000 0x00010000"
proof (intro conjI)
  show "vec_packss_w128 True 0x00010000 0x00010000 \<noteq> vec_packss_w128 False 0x00010000 0x00010000" by code_simp
qed (use assms in \<open>simp_all add: vec_packss_w128_def vec_packsu_w128_def vec_packss_d128_def
      pack_w_all_lane [of satsw, OF satsw_clamp] pack_w_all_lane [of satub, OF satub_clamp] pack_d_all_lane\<close>)

theorem packing_saturates_witness:
  "lane 0 (vec_packss_w128 False 0 0x100) = (0x7f :: u8) \<and> lane 8 (vec_packsu_w128 False 0xffff 0) = (0 :: u8)"
  using packing_saturates [of 0 0 0 "0x100"] packing_saturates [of 0 0 "0xffff" 0] by (simp add: lane_def clamp_def)

section \<open>Unpacking\<close>

lemma unpackl_loop_lane:
  assumes "2 * n * LENGTH('l::len) \<le> 128" "(m + 1) * LENGTH('l) \<le> 128" "\<And>j. alias \<Longrightarrow> j < n \<Longrightarrow> lane j s = (lane j d :: 'l word)"
  shows "lane m (unpackl_loop n TYPE('l) alias s d) = (if m < 2 * n then lane (m div 2) (if even m then d else s) else lane m d :: 'l word)"
  using assms(1,3)
proof (induction n arbitrary: d)
  case (Suc n)
  have len: "(j + 1) * LENGTH('l) \<le> 128" if "j < 2 * Suc n" for j
  proof -
    have "(j + 1) * LENGTH('l) \<le> 2 * Suc n * LENGTH('l)" using that by (intro mult_le_mono1) simp
    then show ?thesis using Suc.prems(1) by simp
  qed
  let ?d1 = "put_lane (n * 2 + 1) (lane n s :: 'l word) d"
  let ?d2 = "put_lane (n * 2) (lane n ?d1 :: 'l word) ?d1"
  have same: "lane n (if alias then d else s) = (lane n s :: 'l word)" using Suc.prems(2) [of n] by simp
  have d2: "lane j ?d2 = (if j = n * 2 then lane n d else if j = n * 2 + 1 then lane n s else lane j d :: 'l word)"
    if "(j + 1) * LENGTH('l) \<le> 128" for j
    using that len [of n] by (auto simp: lane_put_lane)
  have "lane m (unpackl_loop n TYPE('l) alias s ?d2) = (if m < 2 * n then lane (m div 2) (if even m then ?d2 else s) else lane m ?d2 :: 'l word)"
  proof (rule Suc.IH)
    show "2 * n * LENGTH('l) \<le> 128" using Suc.prems(1) by simp
    show "lane j s = (lane j ?d2 :: 'l word)" if "alias" "j < n" for j
      using that Suc.prems(2) [of j] d2 [of j] len [of j] by simp
  qed
  moreover have "(m div 2 + 1) * LENGTH('l) \<le> 128" using assms(2) by (rule order_trans [rotated]) (intro mult_le_mono1; simp)
  moreover have "m < 2 * n \<Longrightarrow> m div 2 \<noteq> n * 2 \<and> m div 2 \<noteq> n * 2 + 1" by linarith
  moreover have "m = n * 2 \<or> m = n * 2 + 1 \<or> m < 2 * n \<or> 2 * Suc n \<le> m" by simp linarith
  ultimately show ?case
    using d2 [of m] d2 [of "m div 2"] assms(2) by (elim disjE) (simp_all add: Let_def same)
qed simp

lemma unpackh_loop_lane:
  assumes "n \<le> half" "2 * half * LENGTH('l::len) = 128" "(m + 1) * LENGTH('l) \<le> 128" "alias \<Longrightarrow> s = d"
  shows "lane m (unpackh_loop half n TYPE('l) alias s d) = (if m < 2 * n then lane (m div 2 + half) (if even m then d else s) else lane m d :: 'l word)"
  using assms(1,3)
proof (induction n arbitrary: m)
  case (Suc n)
  have len: "(j + 1) * LENGTH('l) \<le> 128" if "j < 2 * half" for j
  proof -
    have "(j + 1) * LENGTH('l) \<le> 2 * half * LENGTH('l)" using that by (intro mult_le_mono1) simp
    then show ?thesis using assms(2) by simp
  qed
  let ?d = "unpackh_loop half n TYPE('l) alias s d"
  let ?d1 = "put_lane (2 * n) (lane (n + half) ?d :: 'l word) ?d"
  have up: "lane (n + half) ?d = (lane (n + half) d :: 'l word)"
    using Suc.IH [of "n + half"] Suc.prems(1) len [of "n + half"] by simp
  have "lane (n + half) (if alias then ?d1 else s) = (lane (n + half) s :: 'l word)"
    using up assms(4) Suc.prems(1) len [of "n + half"] by (auto simp: lane_put_lane)
  moreover have "m = 2 * n \<Longrightarrow> m div 2 = n" "m = 2 * n + 1 \<Longrightarrow> m div 2 = n" by simp_all
  ultimately show ?case
    using Suc.IH [of m] Suc.prems up by (simp add: Let_def lane_put_lane) (auto simp: less_Suc_eq)
qed simp


lemma vec_unpack_lanes:
  fixes s d :: u128
  assumes "i < 16" "alias \<Longrightarrow> s = d"
  shows "lane i (vec_unpackl_bw128 alias s d) = (lane (i div 2) (if even i then d else s) :: u8)"
    "lane i (vec_unpackh_bw128 alias s d) = (lane (i div 2 + 8) (if even i then d else s) :: u8)"
  using assms by (simp_all add: vec_unpackl_bw128_def vec_unpackh_bw128_def unpackl_loop_lane unpackh_loop_lane)

lemma vec_unpack_lanes16:
  fixes s d :: u128
  assumes "j < 8" "alias \<Longrightarrow> s = d"
  shows "lane j (vec_unpackl_w128 alias s d) = (lane (j div 2) (if even j then d else s) :: u16)"
    "lane j (vec_unpackh_w128 alias s d) = (lane (j div 2 + 4) (if even j then d else s) :: u16)"
  using assms by (simp_all add: vec_unpackl_w128_def vec_unpackh_w128_def unpackl_loop_lane unpackh_loop_lane)

lemma u16_of_bytes:
  fixes w :: u16
  assumes "lane 1 w = (0 :: u8)"
  shows "w = ucast (lane 0 w :: u8)"
proof (rule bit_word_eqI)
  fix n assume n: "n < LENGTH(16)"
  have "bit (lane 1 w :: u8) (n - 8) = False" by (simp only: assms) simp
  then have "8 \<le> n \<Longrightarrow> \<not> bit w n" using n by (simp add: bit_lane)
  then show "bit w n = bit (ucast (lane 0 w :: u8) :: u16) n" using n by (auto simp: bit_simps bit_lane simp flip: not_le)
qed

lemma zero_extended_lane:
  fixes v x :: u128
  assumes "lane (2 * i) v = (lane k x :: u8)" "lane (2 * i + 1) v = (0 :: u8)"
  shows "word_of_int (clamp 0 0xff (sint (lane i v :: u16))) = (lane k x :: u8)"
proof -
  have q: "lane q (lane i v :: u16) = (lane (i * 2 + q) v :: u8)" if "q < 2" for q
    using that by (intro lane_lane) simp_all
  have "lane i v = (ucast (lane 0 (lane i v :: u16) :: u8) :: u16)"
    by (rule u16_of_bytes) (use q [of 1] assms(2) in \<open>simp add: mult.commute\<close>)
  also have "lane 0 (lane i v :: u16) = (lane k x :: u8)" using q [of 0] assms(1) by (simp add: mult.commute)
  finally have v: "lane i v = (ucast (lane k x :: u8) :: u16)" .
  have "uint (ucast (lane k x :: u8) :: u16) = uint (lane k x :: u8)" by (simp add: uint_up_ucast is_up)
  then show ?thesis using uint_bounds(1,2) [of "lane k x"] by (simp add: v sint_u16 clamp_def)
qed

text \<open>C40. Interleaving a register with zeros widens its bytes to 16 bits, the low half with \<open>unpackl\<close> and the high
  half with \<open>unpackh\<close>, and \<open>packsu\<close> of the two gives the register back. Unpacking a register with itself is not
  disturbed by the writes: it gives what two equal registers give.\<close>

theorem packing_undoes_unpacking:
  fixes x :: u128
  shows "vec_packsu_w128 False (vec_unpackh_bw128 False 0 x) (vec_unpackl_bw128 False 0 x) = x \<and>
    vec_unpackl_bw128 True x x = vec_unpackl_bw128 False x x \<and> vec_unpackh_bw128 True x x = vec_unpackh_bw128 False x x"
proof (intro conjI)
  let ?l = "vec_unpackl_bw128 False 0 x" and ?h = "vec_unpackh_bw128 False 0 x"
  note pk = pack_w_all_lane [of satub, OF satub_clamp]
  show "vec_packsu_w128 False ?h ?l = x"
  proof (rule lanes_eqI [where n = 16 and 'l = 8])
    fix j :: nat assume j: "j < 16"
    show "lane j (vec_packsu_w128 False ?h ?l) = (lane j x :: u8)"
    proof (cases "j < 8")
      case True
      then show ?thesis
        by (simp only: vec_packsu_w128_def pk) (rule zero_extended_lane; simp add: vec_unpack_lanes lane_zero)
    next
      case False
      then have "\<exists>i. j = i + 8 \<and> i < 8" using j by (intro exI [of _ "j - 8"]) simp
      then obtain i where i: "j = i + 8" "i < 8" by blast
      show ?thesis
        by (simp only: vec_packsu_w128_def i pk) (rule zero_extended_lane; use i in \<open>simp add: vec_unpack_lanes lane_zero\<close>)
    qed
  qed simp
qed (rule lanes_eqI [where n = 16 and 'l = 8]; simp add: vec_unpack_lanes)+

end
