(* ===== verification/Futex.thy ===== *)
theory Futex
  imports User_Copy
begin

text \<open>
  Futexes, \<^verbatim>\<open>kernel/futex.c\<close>, and the wait on a condition variable of \<^verbatim>\<open>util/sync.c\<close> they use. A futex exists while
  somebody waits on it or an operation holds it; futexes and waiters are numbered, and a waiter is the object that
  \<open>futex_wait\<close> keeps on its stack. Every operation holds \<open>futex_lock\<close>; only a sleeping waiter gives it up, so
  \<open>futex_wait\<close> is two steps and whatever happens between them. \<open>None\<close> is a failed assertion or an access to an
  object that is freed.
\<close>

section \<open>Model\<close>

definition FUTEX_WAIT_CMD :: u32 where "FUTEX_WAIT_CMD = 0"
definition FUTEX_WAKE_CMD :: u32 where "FUTEX_WAKE_CMD = 1"
definition FUTEX_REQUEUE_CMD :: u32 where "FUTEX_REQUEUE_CMD = 3"
definition FUTEX_WAIT_BITSET_CMD :: u32 where "FUTEX_WAIT_BITSET_CMD = 9"
definition FUTEX_WAKE_BITSET_CMD :: u32 where "FUTEX_WAKE_BITSET_CMD = 10"
definition FUTEX_PRIVATE_FLAG :: u32 where "FUTEX_PRIVATE_FLAG = 128"
definition FUTEX_CLOCK_REALTIME :: u32 where "FUTEX_CLOCK_REALTIME = 256"
definition FUTEX_CMD_MASK :: u32 where "FUTEX_CMD_MASK = NOT (FUTEX_PRIVATE_FLAG OR FUTEX_CLOCK_REALTIME)"
definition FUTEX_BITSET_MATCH_ANY :: u32 where "FUTEX_BITSET_MATCH_ANY = - 1"

text \<open>An address space is known by the address of its \<open>struct mem\<close>.\<close>

record futex =
  fx_refcount :: nat
  fx_mem :: u64
  fx_addr :: addr_t
  fx_queue :: "nat list"

record futex_waiter =
  fw_cond :: bool
  fw_futex :: nat
  fw_bitset :: u32

record futexes =
  fs_futex :: "nat \<Rightarrow> futex option"
  fs_chain :: "nat \<Rightarrow> nat list"
  fs_next :: nat
  fs_wait :: "nat \<Rightarrow> futex_waiter option"
  fs_wnext :: nat

definition init_futex_hash :: futexes where
  "init_futex_hash = \<lparr>fs_futex = (\<lambda>_. None), fs_chain = (\<lambda>_. []), fs_next = 0, fs_wait = (\<lambda>_. None), fs_wnext = 0\<rparr>"

definition put_futex :: "nat \<Rightarrow> futex \<Rightarrow> futexes \<Rightarrow> futexes" where
  "put_futex i f s = s\<lparr>fs_futex := (fs_futex s)(i \<mapsto> f)\<rparr>"

definition futex_hash :: "u64 \<Rightarrow> addr_t \<Rightarrow> nat" where
  "futex_hash mem addr = unat (ucast addr XOR mem) mod 4096"

fun chain_find :: "u64 \<Rightarrow> addr_t \<Rightarrow> futexes \<Rightarrow> nat list \<Rightarrow> nat option option" where
  "chain_find mem addr s [] = Some None"
| "chain_find mem addr s (i # is) = do {
     f \<leftarrow> fs_futex s i;
     if fx_addr f = addr \<and> fx_mem f = mem then Some (Some i) else chain_find mem addr s is
   }"

definition futex_get_unlocked :: "bool \<Rightarrow> u64 \<Rightarrow> addr_t \<Rightarrow> futexes \<Rightarrow> (nat option \<times> futexes) option" where
  "futex_get_unlocked ok mem addr s = do {
     let hash = futex_hash mem addr;
     found \<leftarrow> chain_find mem addr s (fs_chain s hash);
     case found of
       Some i \<Rightarrow> do {
         f \<leftarrow> fs_futex s i;
         Some (Some i, put_futex i (f\<lparr>fx_refcount := fx_refcount f + 1\<rparr>) s)
       }
     | None \<Rightarrow>
         if \<not> ok then Some (None, s)
         else let i = fs_next s in
           Some (Some i, (put_futex i \<lparr>fx_refcount = 1, fx_mem = mem, fx_addr = addr, fx_queue = []\<rparr> s)
             \<lparr>fs_chain := (fs_chain s)(hash := i # fs_chain s hash), fs_next := i + 1\<rparr>)
   }"

definition futex_get :: "bool \<Rightarrow> u64 \<Rightarrow> addr_t \<Rightarrow> futexes \<Rightarrow> (nat option \<times> futexes) option" where
  "futex_get = futex_get_unlocked"

definition futex_put_unlocked :: "nat \<Rightarrow> futexes \<Rightarrow> futexes option" where
  "futex_put_unlocked i s = do {
     f \<leftarrow> fs_futex s i;
     if fx_refcount f = 1 then
       (if fx_queue f \<noteq> [] then None
        else let hash = futex_hash (fx_mem f) (fx_addr f) in
          Some (s\<lparr>fs_chain := (fs_chain s)(hash := remove1 i (fs_chain s hash)), fs_futex := (fs_futex s)(i := None)\<rparr>))
     else Some (put_futex i (f\<lparr>fx_refcount := fx_refcount f - 1\<rparr>) s)
   }"

definition futex_put :: "nat \<Rightarrow> futexes \<Rightarrow> futexes option" where
  "futex_put = futex_put_unlocked"

section \<open>Waiting\<close>

text \<open>The word at the futex, little-endian, in the address space of the caller.\<close>

definition le32 :: "u8 list \<Rightarrow> u32" where
  "le32 bs = foldr (\<lambda>b w. push_bit 8 w OR ucast b) bs 0"

record guest =
  g_mf :: nat
  g_env :: "nat \<Rightarrow> kheap \<times> mem \<Rightarrow> kheap \<times> mem"
  g_heap :: kheap
  g_mem :: mem

definition futex_load :: "u64 \<Rightarrow> futex \<Rightarrow> guest \<Rightarrow> (u32 option \<times> guest) option" where
  "futex_load current_mem f g =
     (if fx_mem f \<noteq> current_mem then None
      else do {
        (ptr, h, m) \<leftarrow> mem_ptr (g_mf g) (g_env g) (g_heap g) (g_mem g) (fx_addr f) MEM_READ;
        let g' = g\<lparr>g_heap := h, g_mem := m\<rparr>;
        case ptr of
          None \<Rightarrow> Some (None, g')
        | Some (r, off) \<Rightarrow> do {
            bytes \<leftarrow> h_host h r;
            xs \<leftarrow> copy_from bytes off 4;
            Some (Some (le32 xs), g')
          }
      })"

record timespec =
  tv_sec :: int
  tv_nsec :: int

definition relative_timeout :: "timespec \<Rightarrow> timespec \<Rightarrow> timespec" where
  "relative_timeout now t0 =
     (let t1 = \<lparr>tv_sec = tv_sec t0 - tv_sec now, tv_nsec = tv_nsec t0 - tv_nsec now\<rparr>;
          t2 = (if tv_nsec t1 < 0 then \<lparr>tv_sec = tv_sec t1 - 1, tv_nsec = tv_nsec t1 + 1000000000\<rparr> else t1) in
      if tv_sec t2 < 0 then \<lparr>tv_sec = 0, tv_nsec = 0\<rparr> else t2)"

text \<open>
  What happens to a sleeper: a signal that was already pending, what others do while it sleeps, whether the host's wait
  timed out, and whether a signal is pending afterwards. \<open>'s\<close> is the state the others change.
\<close>

record 's sleep =
  sl_pending :: bool
  sl_others :: "'s \<Rightarrow> 's"
  sl_timed_out :: "timespec option \<Rightarrow> bool"
  sl_pending_after :: bool

definition wait_for_ignore_signals :: "'s sleep \<Rightarrow> timespec option \<Rightarrow> 's \<Rightarrow> unit result \<times> 's" where
  "wait_for_ignore_signals sl timeout s =
     (if sl_timed_out sl timeout then Inl ETIMEDOUT else Inr (), sl_others sl s)"

definition wait_for :: "'s sleep \<Rightarrow> timespec option \<Rightarrow> 's \<Rightarrow> unit result \<times> 's" where
  "wait_for sl timeout s =
     (if sl_pending sl then (Inl EINTR, s)
      else let (err, s') = wait_for_ignore_signals sl timeout s in
        (case err of
           Inl _ \<Rightarrow> (Inl ETIMEDOUT, s')
         | Inr _ \<Rightarrow> if sl_pending_after sl then (Inl EINTR, s') else (Inr (), s')))"

text \<open>The first half of \<open>futex_wait\<close>: an error, or the number of the waiter that is on the queue.\<close>

definition futex_wait_begin ::
  "bool \<Rightarrow> u64 \<Rightarrow> addr_t \<Rightarrow> u32 \<Rightarrow> u32 \<Rightarrow> futexes \<times> guest \<Rightarrow> (nat result \<times> futexes \<times> guest) option" where
  "futex_wait_begin ok mem uaddr val bitset sg = do {
     let (s, g) = sg;
     (fo, s1) \<leftarrow> futex_get ok mem uaddr s;
     case fo of
       None \<Rightarrow> Some (Inl ENOMEM, s1, g)
     | Some i \<Rightarrow> do {
         f \<leftarrow> fs_futex s1 i;
         (tmp, g1) \<leftarrow> futex_load mem f g;
         case tmp of
           None \<Rightarrow> do { s2 \<leftarrow> futex_put i s1; Some (Inl EFAULT, s2, g1) }
         | Some w \<Rightarrow>
             if w \<noteq> val then do { s2 \<leftarrow> futex_put i s1; Some (Inl EAGAIN, s2, g1) }
             else let n = fs_wnext s1 in
               Some (Inr n, (put_futex i (f\<lparr>fx_queue := fx_queue f @ [n]\<rparr>) s1)
                 \<lparr>fs_wait := (fs_wait s1)(n \<mapsto> \<lparr>fw_cond = False, fw_futex = i, fw_bitset = bitset\<rparr>), fs_wnext := n + 1\<rparr>, g1)
       }
   }"

text \<open>The second half: off the queue it is on, if any, and the reference of the waiter dropped.\<close>

definition futex_wait_end :: "nat \<Rightarrow> futexes \<Rightarrow> futexes option" where
  "futex_wait_end n s = do {
     w \<leftarrow> fs_wait s n;
     f \<leftarrow> fs_futex s (fw_futex w);
     futex_put (fw_futex w)
       ((put_futex (fw_futex w) (f\<lparr>fx_queue := remove1 n (fx_queue f)\<rparr>) s)\<lparr>fs_wait := (fs_wait s)(n := None)\<rparr>)
   }"

definition futex_wait ::
  "(futexes \<times> guest) sleep \<Rightarrow> timespec \<Rightarrow> bool \<Rightarrow> u64 \<Rightarrow> addr_t \<Rightarrow> u32 \<Rightarrow> timespec option \<Rightarrow> u32 \<Rightarrow> bool \<Rightarrow> futexes \<times> guest
     \<Rightarrow> (unit result \<times> futexes \<times> guest) option" where
  "futex_wait sl now ok mem uaddr val timeout bitset absolute sg = do {
     (r, sg1) \<leftarrow> futex_wait_begin ok mem uaddr val bitset sg;
     case r of
       Inl e \<Rightarrow> Some (Inl e, sg1)
     | Inr n \<Rightarrow> do {
         let timeout' = (if absolute then map_option (relative_timeout now) timeout else timeout);
         let (err, s2, g2) = wait_for sl timeout' sg1;
         s3 \<leftarrow> futex_wait_end n s2;
         Some (err, s3, g2)
       }
   }"

section \<open>Waking and requeueing\<close>

text \<open>\<open>list_for_each_entry_safe\<close> over the queue: the element after the current one is read before the body removes it.\<close>

fun wake_loop :: "nat \<Rightarrow> u32 \<Rightarrow> u32 \<Rightarrow> nat \<Rightarrow> nat list \<Rightarrow> futexes \<Rightarrow> (nat \<times> futexes) option" where
  "wake_loop i wake_max bitset woken [] s = Some (woken, s)"
| "wake_loop i wake_max bitset woken (n # ns) s =
     (if woken \<ge> unat wake_max then Some (woken, s)
      else do {
        w \<leftarrow> fs_wait s n;
        if \<not> tst (fw_bitset w) bitset then wake_loop i wake_max bitset woken ns s
        else do {
          f \<leftarrow> fs_futex s i;
          wake_loop i wake_max bitset (woken + 1) ns
            ((put_futex i (f\<lparr>fx_queue := remove1 n (fx_queue f)\<rparr>) s)\<lparr>fs_wait := (fs_wait s)(n \<mapsto> w\<lparr>fw_cond := True\<rparr>)\<rparr>)
        }
      })"

definition list_next :: "nat \<Rightarrow> nat list \<Rightarrow> nat option" where
  "list_next x xs = (case dropWhile (\<lambda>y. y \<noteq> x) xs of _ # y # _ \<Rightarrow> Some y | _ \<Rightarrow> None)"

text \<open>One waiter moved from the queue of \<open>i\<close> to the tail of the queue of \<open>j\<close>, with its reference.\<close>

definition requeue_one :: "nat \<Rightarrow> nat \<Rightarrow> nat \<Rightarrow> futexes \<Rightarrow> futexes option" where
  "requeue_one i j n s = do {
     w \<leftarrow> fs_wait s n;
     f \<leftarrow> fs_futex s i;
     let s1 = put_futex i (f\<lparr>fx_queue := remove1 n (fx_queue f)\<rparr>) s;
     f2 \<leftarrow> fs_futex s1 j;
     let s2 = put_futex j (f2\<lparr>fx_queue := fx_queue f2 @ [n]\<rparr>) s1;
     f3 \<leftarrow> fs_futex s2 i;
     if fx_refcount f3 \<le> 1 then None
     else do {
       let s3 = put_futex i (f3\<lparr>fx_refcount := fx_refcount f3 - 1\<rparr>) s2;
       f4 \<leftarrow> fs_futex s3 j;
       let s4 = put_futex j (f4\<lparr>fx_refcount := fx_refcount f4 + 1\<rparr>) s3;
       Some (s4\<lparr>fs_wait := (fs_wait s4)(n \<mapsto> w\<lparr>fw_futex := j\<rparr>)\<rparr>)
     }
   }"

text \<open>The queue may be the one the waiters are moved to, so the next element is looked up in it; the loop ends because
  every round counts up to \<open>requeue_max\<close>.\<close>

function requeue_loop :: "nat \<Rightarrow> nat \<Rightarrow> nat \<Rightarrow> nat \<Rightarrow> nat option \<Rightarrow> futexes \<Rightarrow> (nat \<times> futexes) option" where
  "requeue_loop i j requeue_max requeued cur s =
     (case cur of
        None \<Rightarrow> Some (requeued, s)
      | Some n \<Rightarrow>
          if requeued \<ge> requeue_max then Some (requeued, s)
          else do {
            f \<leftarrow> fs_futex s i;
            s' \<leftarrow> requeue_one i j n s;
            requeue_loop i j requeue_max (requeued + 1) (list_next n (fx_queue f)) s'
          })"
  by pat_completeness auto
termination by (relation "measure (\<lambda>(i, j, requeue_max, requeued, cur, s). requeue_max - requeued)") auto

declare requeue_loop.simps [simp del]

definition futex_wakelike ::
  "bool \<times> bool \<Rightarrow> u32 \<Rightarrow> u64 \<Rightarrow> addr_t \<Rightarrow> u32 \<Rightarrow> u32 \<Rightarrow> addr_t \<Rightarrow> u32 \<Rightarrow> futexes \<Rightarrow> (nat result \<times> futexes) option" where
  "futex_wakelike ok op mem uaddr wake_max requeue_max requeue_addr bitset s = do {
     (fo, s1) \<leftarrow> futex_get (fst ok) mem uaddr s;
     case fo of
       None \<Rightarrow> Some (Inl ENOMEM, s1)
     | Some i \<Rightarrow> do {
         f \<leftarrow> fs_futex s1 i;
         (woken, s2) \<leftarrow> wake_loop i wake_max bitset 0 (fx_queue f) s1;
         if op = FUTEX_REQUEUE_CMD then do {
           (fo2, s3) \<leftarrow> futex_get_unlocked (snd ok) mem requeue_addr s2;
           case fo2 of
             None \<Rightarrow> do { s4 \<leftarrow> futex_put i s3; Some (Inl ENOMEM, s4) }
           | Some j \<Rightarrow> do {
               f' \<leftarrow> fs_futex s3 i;
               (requeued, s4) \<leftarrow> requeue_loop i j (unat requeue_max) 0 (case fx_queue f' of [] \<Rightarrow> None | n # _ \<Rightarrow> Some n) s3;
               s5 \<leftarrow> futex_put_unlocked j s4;
               s6 \<leftarrow> futex_put i s5;
               Some (Inr (woken + requeued), s6)
             }
         }
         else do { s3 \<leftarrow> futex_put i s2; Some (Inr woken, s3) }
       }
   }"

definition futex_wake :: "bool \<Rightarrow> u64 \<Rightarrow> addr_t \<Rightarrow> u32 \<Rightarrow> futexes \<Rightarrow> (nat result \<times> futexes) option" where
  "futex_wake ok mem uaddr wake_max s =
     futex_wakelike (ok, ok) FUTEX_WAKE_CMD mem uaddr wake_max 0 0 FUTEX_BITSET_MATCH_ANY s"

section \<open>System calls\<close>

text \<open>\<open>read\<close> is what \<open>user_get\<close> finds at an address, and the host's clocks are functions of the clock's number.\<close>

record futex_world =
  fwo_sleep :: "(futexes \<times> guest) sleep"
  fwo_now :: "bool \<Rightarrow> timespec"
  fwo_malloc :: "bool \<times> bool"
  fwo_timespec :: "addr_t \<Rightarrow> (u32 \<times> u32) option"

definition sys_futex ::
  "futex_world \<Rightarrow> u64 \<Rightarrow> addr_t \<Rightarrow> u32 \<Rightarrow> u32 \<Rightarrow> u32 \<Rightarrow> addr_t \<Rightarrow> u32 \<Rightarrow> futexes \<times> guest
     \<Rightarrow> (nat result \<times> futexes \<times> guest) option" where
  "sys_futex wo mem uaddr op val timeout_or_val2 uaddr2 val3 sg =
     (let cmd = op AND FUTEX_CMD_MASK;
          timed = ((cmd = FUTEX_WAIT_CMD \<or> cmd = FUTEX_WAIT_BITSET_CMD) \<and> timeout_or_val2 \<noteq> 0);
          got = fwo_timespec wo timeout_or_val2;
          ts = (case got of None \<Rightarrow> \<lparr>tv_sec = 0, tv_nsec = 0\<rparr> | Some (s, ns) \<Rightarrow> \<lparr>tv_sec = sint s, tv_nsec = sint ns\<rparr>);
          bits = (\<lambda>c. if cmd = c then val3 else FUTEX_BITSET_MATCH_ANY) in
      if tst uaddr 3 then Some (Inl EINVAL, sg)
      else if tst op FUTEX_CLOCK_REALTIME \<and> cmd \<noteq> FUTEX_WAIT_BITSET_CMD then Some (Inl ENOSYS, sg)
      else if (cmd = FUTEX_WAIT_BITSET_CMD \<or> cmd = FUTEX_WAKE_BITSET_CMD) \<and> val3 = 0 then Some (Inl EINVAL, sg)
      else if timed \<and> got = None then Some (Inl EFAULT, sg)
      else if timed \<and> (tv_sec ts < 0 \<or> tv_nsec ts < 0 \<or> tv_nsec ts \<ge> 1000000000) then Some (Inl EINVAL, sg)
      else if cmd = FUTEX_WAIT_CMD \<or> cmd = FUTEX_WAIT_BITSET_CMD then do {
        (r, sg') \<leftarrow> futex_wait (fwo_sleep wo) (fwo_now wo (tst op FUTEX_CLOCK_REALTIME)) (fst (fwo_malloc wo)) mem uaddr val
                      (if timeout_or_val2 \<noteq> 0 then Some ts else None) (bits FUTEX_WAIT_BITSET_CMD) (cmd = FUTEX_WAIT_BITSET_CMD) sg;
        Some (map_sum id (\<lambda>_. 0) r, sg')
      }
      else if cmd = FUTEX_WAKE_CMD \<or> cmd = FUTEX_WAKE_BITSET_CMD then do {
        (r, s') \<leftarrow> futex_wakelike (fwo_malloc wo) cmd mem uaddr val 0 0 (bits FUTEX_WAKE_BITSET_CMD) (fst sg);
        Some (r, s', snd sg)
      }
      else if cmd = FUTEX_REQUEUE_CMD then do {
        (r, s') \<leftarrow> futex_wakelike (fwo_malloc wo) cmd mem uaddr val timeout_or_val2 uaddr2 FUTEX_BITSET_MATCH_ANY (fst sg);
        Some (r, s', snd sg)
      }
      else Some (Inl ENOSYS, sg))"

definition ROBUST_LIST_HEAD_SIZE :: u32 where "ROBUST_LIST_HEAD_SIZE = 12"

text \<open>The list head of a task is a word of its state; \<open>put\<close> says whether the guest's memory can be written.\<close>

definition sys_set_robust_list :: "addr_t \<Rightarrow> u32 \<Rightarrow> addr_t \<Rightarrow> unit result \<times> addr_t" where
  "sys_set_robust_list robust_list len old =
     (if len \<noteq> ROBUST_LIST_HEAD_SIZE then (Inl EINVAL, old) else (Inr (), robust_list))"

definition sys_get_robust_list ::
  "nat option \<Rightarrow> nat \<Rightarrow> addr_t \<Rightarrow> (addr_t \<Rightarrow> bool) \<Rightarrow> addr_t \<Rightarrow> addr_t \<Rightarrow> (unit result \<times> (addr_t \<times> u32) list)" where
  "sys_get_robust_list task_of_pid current robust_list put list_ptr len_ptr =
     (if task_of_pid \<noteq> Some current then (Inl EPERM, [])
      else if \<not> put list_ptr then (Inl EFAULT, [])
      else if \<not> put len_ptr then (Inl EFAULT, [(list_ptr, robust_list)])
      else (Inr (), [(list_ptr, robust_list), (len_ptr, ROBUST_LIST_HEAD_SIZE)]))"

end
