(* ===== verification/Futex_Props.thy ===== *)
theory Futex_Props
  imports Futex
begin

text \<open>
  Futexes: the invariant of the reference counts and queues, what each operation does to the queue of waiters of an
  address, and what follows from it for wake-ups.
\<close>

section \<open>The invariant\<close>

definition waiters :: "futexes \<Rightarrow> nat \<Rightarrow> nat set" where
  "waiters s i = {n. \<exists>w. fs_wait s n = Some w \<and> fw_futex w = i}"

text \<open>\<open>E i\<close> counts the references an operation under way holds besides the waiters.\<close>

definition futex_ok :: "(nat \<Rightarrow> nat) \<Rightarrow> futexes \<Rightarrow> nat \<Rightarrow> futex \<Rightarrow> bool" where
  "futex_ok E s i f \<longleftrightarrow> fx_refcount f = card (waiters s i) + E i \<and> 0 < fx_refcount f \<and> distinct (fx_queue f)
     \<and> set (fx_queue f) \<subseteq> waiters s i \<and> i < fs_next s"

definition chains_ok :: "futexes \<Rightarrow> bool" where
  "chains_ok s \<longleftrightarrow> (\<forall>b. distinct (fs_chain s b)) \<and>
     (\<forall>b i. i \<in> set (fs_chain s b) \<longleftrightarrow> (\<exists>f. fs_futex s i = Some f \<and> futex_hash (fx_mem f) (fx_addr f) = b)) \<and>
     (\<forall>i j f g. fs_futex s i = Some f \<longrightarrow> fs_futex s j = Some g \<longrightarrow> fx_mem f = fx_mem g \<longrightarrow> fx_addr f = fx_addr g \<longrightarrow> i = j)"

definition futexes_ok :: "(nat \<Rightarrow> nat) \<Rightarrow> futexes \<Rightarrow> bool" where
  "futexes_ok E s \<longleftrightarrow> finite (dom (fs_wait s)) \<and> chains_ok s \<and> (\<forall>i. case fs_futex s i of None \<Rightarrow> E i = 0 | Some f \<Rightarrow> futex_ok E s i f)
     \<and> (\<forall>n w. fs_wait s n = Some w \<longrightarrow> fs_futex s (fw_futex w) \<noteq> None \<and> n < fs_wnext s)"

text \<open>The waiters queued at an address, oldest first.\<close>

definition queue_of :: "futexes \<Rightarrow> nat option \<Rightarrow> nat list" where
  "queue_of s io = (case io of None \<Rightarrow> [] | Some i \<Rightarrow> (case fs_futex s i of None \<Rightarrow> [] | Some f \<Rightarrow> fx_queue f))"

definition waitq :: "futexes \<Rightarrow> u64 \<Rightarrow> addr_t \<Rightarrow> nat list" where
  "waitq s mem addr = (case chain_find mem addr s (fs_chain s (futex_hash mem addr)) of None \<Rightarrow> [] | Some io \<Rightarrow> queue_of s io)"

lemma finite_waiters: "futexes_ok E s \<Longrightarrow> finite (waiters s i)"
  by (rule finite_subset [of _ "dom (fs_wait s)"]) (auto simp: waiters_def futexes_ok_def)

lemma futexes_okD:
  assumes "futexes_ok E s"
  shows "chains_ok s" "fs_futex s i = Some f \<Longrightarrow> futex_ok E s i f" "fs_wait s n = Some w \<Longrightarrow> \<exists>f. fs_futex s (fw_futex w) = Some f"
    "fs_wait s n = Some w \<Longrightarrow> n < fs_wnext s" "finite (dom (fs_wait s))" "fs_futex s i = None \<Longrightarrow> E i = 0"
  using assms unfolding futexes_ok_def by (auto split: option.splits dest: spec [of _ i])

lemma futexes_okI:
  assumes "finite (dom (fs_wait s))" "chains_ok s" "\<And>i. case fs_futex s i of None \<Rightarrow> E i = 0 | Some f \<Rightarrow> futex_ok E s i f"
    "\<And>n w. fs_wait s n = Some w \<Longrightarrow> fs_futex s (fw_futex w) \<noteq> None \<and> n < fs_wnext s"
  shows "futexes_ok E s"
  using assms by (simp add: futexes_ok_def)

lemma chain_find_some:
  assumes "\<forall>i \<in> set is. \<exists>f. fs_futex s i = Some f"
  shows "\<exists>r. chain_find mem addr s is = Some r \<and>
    (case r of None \<Rightarrow> \<forall>i \<in> set is. \<forall>f. fs_futex s i = Some f \<longrightarrow> fx_mem f \<noteq> mem \<or> fx_addr f \<noteq> addr
     | Some i \<Rightarrow> i \<in> set is \<and> (\<exists>f. fs_futex s i = Some f \<and> fx_mem f = mem \<and> fx_addr f = addr))"
  using assms
proof (induction "is")
  case (Cons i "is")
  then obtain r f where "chain_find mem addr s is = Some r" "fs_futex s i = Some f" by auto
  with Cons show ?case by (cases r) auto
qed simp

text \<open>What the chain of an address finds: the futex there, if there is one.\<close>

lemma chain_find_ok:
  assumes "chains_ok s"
  shows "fs_futex s i = Some f \<Longrightarrow> chain_find (fx_mem f) (fx_addr f) s (fs_chain s (futex_hash (fx_mem f) (fx_addr f))) = Some (Some i)"
    "\<forall>i f. fs_futex s i = Some f \<longrightarrow> fx_mem f \<noteq> mem \<or> fx_addr f \<noteq> addr \<Longrightarrow>
      chain_find mem addr s (fs_chain s (futex_hash mem addr)) = Some None"
proof -
  have *: "\<forall>i \<in> set (fs_chain s b). \<exists>f. fs_futex s i = Some f" for b using assms by (auto simp: chains_ok_def)
  show "fs_futex s i = Some f \<Longrightarrow> chain_find (fx_mem f) (fx_addr f) s (fs_chain s (futex_hash (fx_mem f) (fx_addr f))) = Some (Some i)"
    using chain_find_some [OF *, of "fx_mem f" "fx_addr f" "futex_hash (fx_mem f) (fx_addr f)"] assms
    unfolding chains_ok_def by (fastforce split: option.splits)
  show "\<forall>i f. fs_futex s i = Some f \<longrightarrow> fx_mem f \<noteq> mem \<or> fx_addr f \<noteq> addr \<Longrightarrow>
      chain_find mem addr s (fs_chain s (futex_hash mem addr)) = Some None"
    using chain_find_some [OF *, of mem addr "futex_hash mem addr"] by (fastforce split: option.splits)
qed

lemma waitq_ok:
  assumes "chains_ok s"
  shows "fs_futex s i = Some f \<Longrightarrow> waitq s (fx_mem f) (fx_addr f) = fx_queue f"
    "\<forall>i f. fs_futex s i = Some f \<longrightarrow> fx_mem f \<noteq> mem \<or> fx_addr f \<noteq> addr \<Longrightarrow> waitq s mem addr = []"
  using chain_find_ok [OF assms] by (auto simp: waitq_def queue_of_def)

text \<open>A store to a futex that keeps its address.\<close>

lemma put_futex_fields [simp]:
  "fs_futex (put_futex i g s) = (fs_futex s)(i \<mapsto> g)" "fs_chain (put_futex i g s) = fs_chain s" "fs_next (put_futex i g s) = fs_next s"
  "fs_wait (put_futex i g s) = fs_wait s" "fs_wnext (put_futex i g s) = fs_wnext s"
  by (simp_all add: put_futex_def)

lemma chains_put:
  assumes "chains_ok s" "fs_futex s i = Some f" "fx_mem g = fx_mem f" "fx_addr g = fx_addr f"
  shows "chains_ok (put_futex i g s)"
  using assms unfolding chains_ok_def by (auto simp: fun_upd_apply)

lemma chains_wait [simp]: "chains_ok (s\<lparr>fs_wait := x\<rparr>) = chains_ok s" "chains_ok (s\<lparr>fs_wnext := y\<rparr>) = chains_ok s"
  by (simp_all add: chains_ok_def)

lemma chain_find_frame:
  "(\<And>i. map_option (\<lambda>f. (fx_mem f, fx_addr f)) (fs_futex s' i) = map_option (\<lambda>f. (fx_mem f, fx_addr f)) (fs_futex s i)) \<Longrightarrow>
    chain_find mem addr s' is = chain_find mem addr s is"
proof (induction "is")
  case (Cons i "is")
  from Cons.prems [of i] Cons show ?case by (cases "fs_futex s i"; cases "fs_futex s' i") auto
qed simp

lemma waitq_put:
  assumes "chains_ok s" "fs_futex s i = Some f" "fx_mem g = fx_mem f" "fx_addr g = fx_addr f"
  shows "waitq (put_futex i g s) mem addr = (if mem = fx_mem f \<and> addr = fx_addr f then fx_queue g else waitq s mem addr)"
proof (cases "mem = fx_mem f \<and> addr = fx_addr f")
  case True
  then show ?thesis using waitq_ok(1) [OF chains_put [OF assms], of i g] assms(3,4) by simp
next
  case False
  have find: "chain_find mem addr (put_futex i g s) is = chain_find mem addr s is" for "is"
    by (rule chain_find_frame) (use assms in auto)
  have "queue_of (put_futex i g s) io = queue_of s io" if "chain_find mem addr s is = Some io" for "is" io
  proof -
    have "io \<noteq> Some i" using that assms(2) False
      by (induction "is" arbitrary: io) (auto split: bind_splits if_splits)
    then show ?thesis by (cases io) (simp_all add: queue_of_def)
  qed
  then show ?thesis using False by (auto simp: waitq_def find split: option.splits)
qed

lemma waitq_wait [simp]: "waitq (s\<lparr>fs_wait := x\<rparr>) mem addr = waitq s mem addr" "waitq (s\<lparr>fs_wnext := y\<rparr>) mem addr = waitq s mem addr"
  "waitq (s\<lparr>fs_next := y\<rparr>) mem addr = waitq s mem addr"
proof -
  have "chain_find mem addr (s\<lparr>fs_wait := x\<rparr>) is = chain_find mem addr s is" "chain_find mem addr (s\<lparr>fs_wnext := y\<rparr>) is = chain_find mem addr s is"
    "chain_find mem addr (s\<lparr>fs_next := y\<rparr>) is = chain_find mem addr s is" for "is"
    by (rule chain_find_frame; simp)+
  moreover have qo: "queue_of (s\<lparr>fs_wait := x\<rparr>) = queue_of s" "queue_of (s\<lparr>fs_wnext := y\<rparr>) = queue_of s"
    "queue_of (s\<lparr>fs_next := y\<rparr>) = queue_of s" by (auto simp: queue_of_def fun_eq_iff split: option.splits)
  ultimately show "waitq (s\<lparr>fs_wait := x\<rparr>) mem addr = waitq s mem addr" "waitq (s\<lparr>fs_wnext := y\<rparr>) mem addr = waitq s mem addr"
    "waitq (s\<lparr>fs_next := y\<rparr>) mem addr = waitq s mem addr"
    by (simp_all add: waitq_def cong: option.case_cong)
qed

section \<open>Taking and dropping references\<close>

lemma futex_get_ok:
  assumes "futexes_ok E s"
  obtains (old) i f where "futex_get_unlocked ok mem addr s = Some (Some i, put_futex i (f\<lparr>fx_refcount := fx_refcount f + 1\<rparr>) s)"
      "fs_futex s i = Some f" "fx_mem f = mem" "fx_addr f = addr"
  | (full) "futex_get_unlocked ok mem addr s = Some (None, s)" "\<not> ok" "waitq s mem addr = []"
  | (new) i where "ok" "i = fs_next s" "waitq s mem addr = []" "fs_futex s i = None"
      "\<forall>j f. fs_futex s j = Some f \<longrightarrow> fx_mem f \<noteq> mem \<or> fx_addr f \<noteq> addr"
      "futex_get_unlocked ok mem addr s = Some (Some i, (put_futex i \<lparr>fx_refcount = 1, fx_mem = mem, fx_addr = addr, fx_queue = []\<rparr> s)
         \<lparr>fs_chain := (fs_chain s)(futex_hash mem addr := i # fs_chain s (futex_hash mem addr)), fs_next := i + 1\<rparr>)"
proof (cases "\<exists>i f. fs_futex s i = Some f \<and> fx_mem f = mem \<and> fx_addr f = addr")
  case True
  then obtain i f where f: "fs_futex s i = Some f" "fx_mem f = mem" "fx_addr f = addr" by blast
  then have "chain_find mem addr s (fs_chain s (futex_hash mem addr)) = Some (Some i)"
    using chain_find_ok(1) [OF futexes_okD(1) [OF assms] f(1)] by simp
  with f show thesis by (intro old [of i f]) (simp_all add: futex_get_unlocked_def)
next
  case False
  then have n: "\<forall>i f. fs_futex s i = Some f \<longrightarrow> fx_mem f \<noteq> mem \<or> fx_addr f \<noteq> addr" by blast
  note c = chain_find_ok(2) [OF futexes_okD(1) [OF assms] n] waitq_ok(2) [OF futexes_okD(1) [OF assms] n]
  have "fs_futex s (fs_next s) = None"
    using futexes_okD(2) [OF assms, of "fs_next s"] by (cases "fs_futex s (fs_next s)") (auto simp: futex_ok_def)
  then show thesis
    using c n by (cases ok) (rule new, simp_all add: futex_get_unlocked_def Let_def full)
qed

lemma waiters_wait [simp]: "waiters (put_futex i g s) = waiters s" "waiters (s\<lparr>fs_chain := c\<rparr>) = waiters s"
  "waiters (s\<lparr>fs_next := k\<rparr>) = waiters s" "waiters (s\<lparr>fs_wnext := k\<rparr>) = waiters s" "waiters (s\<lparr>fs_futex := x\<rparr>) = waiters s"
  by (auto simp: waiters_def)

lemma futexes_ok_put:
  assumes "futexes_ok E s" "fs_futex s i = Some f" "fx_mem g = fx_mem f" "fx_addr g = fx_addr f"
    "futex_ok E' s i g" "\<And>j. j \<noteq> i \<Longrightarrow> E' j = E j"
  shows "futexes_ok E' (put_futex i g s)"
proof -
  have "case fs_futex (put_futex i g s) j of None \<Rightarrow> E' j = 0 | Some h \<Rightarrow> futex_ok E' (put_futex i g s) j h" for j
    using futexes_okD(2,6) [OF assms(1), of j] assms(5) assms(6) [of j]
    by (cases "j = i") (auto simp: futex_ok_def split: option.splits)
  then show ?thesis
    using assms(1,2) chains_put [OF futexes_okD(1) [OF assms(1)] assms(2-4)] by (auto simp: futexes_ok_def)
qed

lemma futex_get_keeps:
  assumes "futexes_ok E s" "futex_get_unlocked ok mem addr s = Some (io, s')"
  shows "fs_wait s' = fs_wait s" "waitq s' mem' addr' = waitq s mem' addr'"
    "case io of None \<Rightarrow> s' = s \<and> \<not> ok
     | Some i \<Rightarrow> futexes_ok (E(i := E i + 1)) s' \<and> (\<exists>f. fs_futex s' i = Some f \<and> fx_mem f = mem \<and> fx_addr f = addr \<and> fx_queue f = waitq s mem addr)"
proof -
  have "fs_wait s' = fs_wait s \<and> waitq s' mem' addr' = waitq s mem' addr' \<and> (case io of None \<Rightarrow> s' = s \<and> \<not> ok
     | Some i \<Rightarrow> futexes_ok (E(i := E i + 1)) s' \<and> (\<exists>f. fs_futex s' i = Some f \<and> fx_mem f = mem \<and> fx_addr f = addr \<and> fx_queue f = waitq s mem addr))"
    using assms(1)
  proof (cases rule: futex_get_ok [where ok = ok and mem = mem and addr = addr])
    case (old i f)
    have "futexes_ok (E(i := E i + 1)) (put_futex i (f\<lparr>fx_refcount := fx_refcount f + 1\<rparr>) s)"
      using futexes_okD(2) [OF assms(1) old(2)] by (intro futexes_ok_put [OF assms(1) old(2)]) (auto simp: futex_ok_def)
    then show ?thesis using assms(2) old waitq_put [OF futexes_okD(1) [OF assms(1)] old(2)] waitq_ok(1) [OF futexes_okD(1) [OF assms(1)] old(2)]
      by auto
  next
    case full
    then show ?thesis using assms(2) by simp
  next
    case (new i)
    let ?s = "(put_futex i \<lparr>fx_refcount = 1, fx_mem = mem, fx_addr = addr, fx_queue = []\<rparr> s)
         \<lparr>fs_chain := (fs_chain s)(futex_hash mem addr := i # fs_chain s (futex_hash mem addr)), fs_next := i + 1\<rparr>"
    have ch: "chains_ok ?s"
      using futexes_okD(1) [OF assms(1)] new(4,5) unfolding chains_ok_def by (auto simp: fun_upd_apply)
    have no: "waiters s i = {}" using assms(1) new(4) by (fastforce simp: waiters_def futexes_ok_def)
    have "case fs_futex ?s j of None \<Rightarrow> (E(i := E i + 1)) j = 0 | Some h \<Rightarrow> futex_ok (E(i := E i + 1)) ?s j h" for j
      using futexes_okD(2,6) [OF assms(1), of j] futexes_okD(6) [OF assms(1) new(4)] new(2) no
      by (cases "j = i") (auto simp: futex_ok_def less_Suc_eq split: option.splits)
    then have "futexes_ok (E(i := E i + 1)) ?s"
      by (rule futexes_okI [rotated 2]) (use ch futexes_okD(3-5) [OF assms(1)] in auto)
    moreover have "waitq ?s mem' addr' = waitq s mem' addr'"
    proof (cases "mem' = mem \<and> addr' = addr")
      case True
      then show ?thesis using waitq_ok(1) [OF ch, of i] new(3) by simp
    next
      case False
      have "chain_find mem' addr' ?s is = chain_find mem' addr' s is" if "i \<notin> set is" for "is"
        using that by (induction "is") (auto intro!: Option.bind_cong)
      moreover have "i \<notin> set (fs_chain s b)" for b using futexes_okD(1) [OF assms(1)] new(4) by (auto simp: chains_ok_def)
      moreover have "queue_of ?s io = queue_of s io" for io
        using new(4) by (auto simp: queue_of_def split: option.splits)
      ultimately show ?thesis using False by (auto simp: waitq_def cong: option.case_cong)
    qed
    ultimately show ?thesis using assms(2) new by auto
  qed
  then show "fs_wait s' = fs_wait s" "waitq s' mem' addr' = waitq s mem' addr'" "case io of None \<Rightarrow> s' = s \<and> \<not> ok
     | Some i \<Rightarrow> futexes_ok (E(i := E i + 1)) s' \<and> (\<exists>f. fs_futex s' i = Some f \<and> fx_mem f = mem \<and> fx_addr f = addr \<and> fx_queue f = waitq s mem addr)"
    by blast+
qed


lemma futex_get_futexes:
  assumes "futexes_ok E s" "futex_get_unlocked ok mem addr s = Some (io, s')" "fs_futex s k = Some f"
  shows "\<exists>f'. fs_futex s' k = Some f' \<and> fx_mem f' = fx_mem f \<and> fx_addr f' = fx_addr f \<and> fx_queue f' = fx_queue f"
  using assms(1) by (cases rule: futex_get_ok [where ok = ok and mem = mem and addr = addr]) (use assms(2,3) in auto)

lemma futex_put_keeps:
  assumes "futexes_ok E s" "0 < E i"
  shows "\<exists>s'. futex_put_unlocked i s = Some s' \<and> futexes_ok (E(i := E i - 1)) s' \<and> fs_wait s' = fs_wait s
    \<and> (\<forall>mem addr. waitq s' mem addr = waitq s mem addr)"
proof -
  obtain f where f: "fs_futex s i = Some f"
    using futexes_okD(6) [OF assms(1), of i] assms(2) by fastforce
  note fo = futexes_okD(2) [OF assms(1) f] and ch = futexes_okD(1) [OF assms(1)]
  show ?thesis
  proof (cases "fx_refcount f = 1")
    case False
    let ?s = "put_futex i (f\<lparr>fx_refcount := fx_refcount f - 1\<rparr>) s"
    have "futexes_ok (E(i := E i - 1)) ?s"
      using fo assms(2) False by (intro futexes_ok_put [OF assms(1) f]) (auto simp: futex_ok_def)
    moreover have "waitq ?s mem addr = waitq s mem addr" for mem addr
      using waitq_put [OF ch f, of "f\<lparr>fx_refcount := fx_refcount f - 1\<rparr>" mem addr] waitq_ok(1) [OF ch f] by simp
    ultimately show ?thesis using f False by (simp add: futex_put_unlocked_def)
  next
    case True
    have "card (waiters s i) = 0" and E: "E i = 1" using fo True assms(2) by (auto simp: futex_ok_def)
    then have no: "waiters s i = {}" using finite_waiters [OF assms(1)] by simp
    then have q: "fx_queue f = []" using fo by (simp add: futex_ok_def)
    let ?b = "futex_hash (fx_mem f) (fx_addr f)"
    let ?s = "s\<lparr>fs_chain := (fs_chain s)(?b := remove1 i (fs_chain s ?b)), fs_futex := (fs_futex s)(i := None)\<rparr>"
    have ch': "chains_ok ?s" using ch f unfolding chains_ok_def by (auto simp: fun_upd_apply split: if_splits)
    have ws: "waiters ?s j = waiters s j" for j by (simp add: waiters_def)
    have "case fs_futex ?s j of None \<Rightarrow> (E(i := E i - 1)) j = 0 | Some h \<Rightarrow> futex_ok (E(i := E i - 1)) ?s j h" for j
      using futexes_okD(2,6) [OF assms(1), of j] E by (cases "j = i") (auto simp: futex_ok_def ws split: option.splits)
    then have ok: "futexes_ok (E(i := E i - 1)) ?s"
      by (rule futexes_okI [rotated 2])
         (use ch' no futexes_okD(3-5) [OF assms(1)] in \<open>fastforce simp: waiters_def\<close>)+
    have "waitq ?s mem addr = waitq s mem addr" for mem addr
    proof (cases "\<exists>j g. fs_futex s j = Some g \<and> fx_mem g = mem \<and> fx_addr g = addr")
      case True
      then obtain j g where g: "fs_futex s j = Some g" "fx_mem g = mem" "fx_addr g = addr" by blast
      show ?thesis
      proof (cases "j = i")
        case True
        then have "\<forall>k h. fs_futex ?s k = Some h \<longrightarrow> fx_mem h \<noteq> mem \<or> fx_addr h \<noteq> addr"
          using ch g f unfolding chains_ok_def by (auto split: if_splits)
        then have "waitq ?s mem addr = []" by (rule waitq_ok(2) [OF ch'])
        then show ?thesis using waitq_ok(1) [OF ch g(1)] True g f q by simp
      next
        case False
        then show ?thesis using waitq_ok(1) [OF ch' , of j g] waitq_ok(1) [OF ch g(1)] g by simp
      qed
    next
      case False
      then have "\<forall>k h. fs_futex ?s k = Some h \<longrightarrow> fx_mem h \<noteq> mem \<or> fx_addr h \<noteq> addr" by (auto split: if_splits)
      then show ?thesis using waitq_ok(2) [OF ch'] waitq_ok(2) [OF ch] False by metis
    qed
    with ok show ?thesis using f True q by (simp add: futex_put_unlocked_def Let_def)
  qed
qed

section \<open>Waking\<close>

text \<open>The waiters a wake-up picks from a queue: the oldest that the mask selects, at most \<open>k\<close>.\<close>

definition selected :: "futexes \<Rightarrow> u32 \<Rightarrow> nat \<Rightarrow> bool" where
  "selected s bitset n = (case fs_wait s n of None \<Rightarrow> False | Some w \<Rightarrow> tst (fw_bitset w) bitset)"

definition woken_by :: "futexes \<Rightarrow> u32 \<Rightarrow> nat \<Rightarrow> nat list \<Rightarrow> nat list" where
  "woken_by s bitset k q = take k (filter (selected s bitset) q)"

definition woken_state :: "nat \<Rightarrow> nat list \<Rightarrow> futex \<Rightarrow> futexes \<Rightarrow> futexes" where
  "woken_state i W f s = (put_futex i (f\<lparr>fx_queue := filter (\<lambda>n. n \<notin> set W) (fx_queue f)\<rparr>) s)
     \<lparr>fs_wait := (\<lambda>n. if n \<in> set W then map_option (fw_cond_update (\<lambda>_. True)) (fs_wait s n) else fs_wait s n)\<rparr>"

lemma filter_not_Nil [simp]: "filter (\<lambda>n. n \<notin> set []) q = q" by simp

lemma remove1_filter: "distinct q \<Longrightarrow> remove1 n q = filter (\<lambda>m. m \<noteq> n) q"
  by (simp add: distinct_remove1_removeAll removeAll_filter_not_eq eq_commute)

lemma wake_loop_eq:
  assumes "fs_futex s i = Some f" "distinct (fx_queue f)" "\<forall>n \<in> set ns. fs_wait s n \<noteq> None" "distinct ns"
  shows "wake_loop i wake_max bitset woken ns s =
    Some (woken + length (woken_by s bitset (unat wake_max - woken) ns), woken_state i (woken_by s bitset (unat wake_max - woken) ns) f s)"
  using assms
proof (induction ns arbitrary: woken s f)
  case Nil
  then show ?case by (cases s) (simp add: woken_by_def woken_state_def put_futex_def fun_upd_idem)
next
  case (Cons n ns)
  then obtain w where w: "fs_wait s n = Some w" by auto
  show ?case
  proof (cases "woken \<ge> unat wake_max")
    case True
    then show ?thesis using Cons.prems(1)
      by (cases s) (simp add: woken_by_def woken_state_def put_futex_def fun_upd_idem)
  next
    case False
    show ?thesis
    proof (cases "tst (fw_bitset w) bitset")
      case sel: False
      have "woken_by s bitset k (n # ns) = woken_by s bitset k ns" for k
        using w sel by (simp add: woken_by_def selected_def)
      then show ?thesis using Cons.IH [OF Cons.prems(1,2)] Cons.prems(3,4) w sel False by simp
    next
      case sel: True
      let ?f = "f\<lparr>fx_queue := remove1 n (fx_queue f)\<rparr>"
      let ?s = "(put_futex i ?f s)\<lparr>fs_wait := (fs_wait s)(n \<mapsto> w\<lparr>fw_cond := True\<rparr>)\<rparr>"
      have nn: "n \<notin> set ns" using Cons.prems(4) by simp
      have same: "woken_by ?s bitset k ns = woken_by s bitset k ns" for k
      proof -
        have "selected ?s bitset m = selected s bitset m" if "m \<in> set ns" for m
          using nn that by (auto simp: selected_def cong: option.case_cong)
        then show ?thesis by (simp add: woken_by_def cong: filter_cong)
      qed
      have W: "woken_by s bitset (unat wake_max - woken) (n # ns) = n # woken_by s bitset (unat wake_max - Suc woken) ns"
        using w sel False by (simp add: woken_by_def selected_def take_Cons')
      have sub: "n \<notin> set (woken_by s bitset k ns)" for k using nn by (auto simp: woken_by_def dest: in_set_takeD)
      have "wake_loop i wake_max bitset (Suc woken) ns ?s =
        Some (Suc woken + length (woken_by ?s bitset (unat wake_max - Suc woken) ns), woken_state i (woken_by ?s bitset (unat wake_max - Suc woken) ns) ?f ?s)"
        using Cons.prems nn by (intro Cons.IH) auto
      moreover have "woken_state i (woken_by ?s bitset (unat wake_max - Suc woken) ns) ?f ?s =
          woken_state i (n # woken_by s bitset (unat wake_max - Suc woken) ns) f s"
        unfolding same using Cons.prems(2) w sub
        by (auto simp: woken_state_def put_futex_def remove1_filter fun_eq_iff conj_commute filter_filter)
      ultimately show ?thesis using w sel False Cons.prems(1) W by (simp add: same)
    qed
  qed
qed

lemma waiters_cond: "(\<And>n. map_option fw_futex (x n) = map_option fw_futex (fs_wait s n)) \<Longrightarrow> waiters (s\<lparr>fs_wait := x\<rparr>) i = waiters s i"
  unfolding waiters_def by (auto; metis (no_types, lifting) map_option_eq_Some option.simps(9))

lemma futexes_ok_cond:
  assumes "futexes_ok E s" "\<And>n. map_option fw_futex (x n) = map_option fw_futex (fs_wait s n)"
  shows "futexes_ok E (s\<lparr>fs_wait := x\<rparr>)"
proof (rule futexes_okI)
  have dom: "x n = None \<longleftrightarrow> fs_wait s n = None" for n using assms(2) [of n] by (metis option.map_disc_iff)
  then have "dom x = dom (fs_wait s)" by (auto simp: dom_def)
  then show "finite (dom (fs_wait (s\<lparr>fs_wait := x\<rparr>)))" using futexes_okD(5) [OF assms(1)] by simp
  show "chains_ok (s\<lparr>fs_wait := x\<rparr>)" using futexes_okD(1) [OF assms(1)] by (simp add: chains_ok_def)
  show "case fs_futex (s\<lparr>fs_wait := x\<rparr>) i of None \<Rightarrow> E i = 0 | Some f \<Rightarrow> futex_ok E (s\<lparr>fs_wait := x\<rparr>) i f" for i
    using futexes_okD(2,6) [OF assms(1), of i] waiters_cond [OF assms(2)] by (auto simp: futex_ok_def split: option.splits)
  show "fs_futex (s\<lparr>fs_wait := x\<rparr>) (fw_futex w) \<noteq> None \<and> n < fs_wnext (s\<lparr>fs_wait := x\<rparr>)"
    if "fs_wait (s\<lparr>fs_wait := x\<rparr>) n = Some w" for n w
  proof -
    have "map_option fw_futex (fs_wait s n) = Some (fw_futex w)" using that assms(2) [of n] by simp
    then show ?thesis using futexes_okD(3,4) [OF assms(1), of n] by fastforce
  qed
qed

lemma woken_state_ok:
  assumes "futexes_ok E s" "fs_futex s i = Some f"
  shows "futexes_ok E (woken_state i W f s)"
    "waitq (woken_state i W f s) mem addr =
      (if mem = fx_mem f \<and> addr = fx_addr f then filter (\<lambda>n. n \<notin> set W) (fx_queue f) else waitq s mem addr)"
proof -
  let ?s = "put_futex i (f\<lparr>fx_queue := filter (\<lambda>n. n \<notin> set W) (fx_queue f)\<rparr>) s"
  have "futexes_ok E ?s"
    using futexes_okD(2) [OF assms] by (intro futexes_ok_put [OF assms]) (auto simp: futex_ok_def)
  then show "futexes_ok E (woken_state i W f s)"
    unfolding woken_state_def by (rule futexes_ok_cond) (auto simp: option.map_comp o_def)
  show "waitq (woken_state i W f s) mem addr =
      (if mem = fx_mem f \<and> addr = fx_addr f then filter (\<lambda>n. n \<notin> set W) (fx_queue f) else waitq s mem addr)"
    using waitq_put [OF futexes_okD(1) [OF assms(1)] assms(2)] by (simp add: woken_state_def)
qed


lemma queued_waiter:
  assumes "futexes_ok E s" "fs_futex s i = Some f" "n \<in> set (fx_queue f)"
  shows "\<exists>w. fs_wait s n = Some w \<and> fw_futex w = i"
  using futexes_okD(2) [OF assms(1,2)] assms(3) by (auto simp: futex_ok_def waiters_def)

text \<open>The part of an operation that wakes: the futex is found or made, and the selected waiters leave its queue.\<close>

lemma wake_phase:
  fixes s :: futexes
  assumes "futexes_ok (\<lambda>_. 0) s"
  obtains (full) "futex_get_unlocked ok mem addr s = Some (None, s)" "\<not> ok"
  | (woken) i f s1 W s2 f2 where "W = woken_by s bitset (unat wake_max) (waitq s mem addr)"
      "futex_get_unlocked ok mem addr s = Some (Some i, s1)" "fs_futex s1 i = Some f"
      "wake_loop i wake_max bitset 0 (fx_queue f) s1 = Some (length W, s2)" "futexes_ok ((\<lambda>_. 0)(i := 1)) s2"
      "fs_futex s2 i = Some f2" "fx_mem f2 = mem" "fx_addr f2 = addr" "fx_queue f2 = filter (\<lambda>n. n \<notin> set W) (waitq s mem addr)"
      "\<forall>m a. waitq s2 m a = (if m = mem \<and> a = addr then filter (\<lambda>n. n \<notin> set W) (waitq s mem addr) else waitq s m a)"
      "fs_wait s2 = (\<lambda>n. if n \<in> set W then map_option (fw_cond_update (\<lambda>_. True)) (fs_wait s n) else fs_wait s n)"
proof -
  obtain io s1 where g: "futex_get_unlocked ok mem addr s = Some (io, s1)"
    using assms(1) by (cases rule: futex_get_ok [where ok = ok and mem = mem and addr = addr]) auto
  note k = futex_get_keeps [OF assms(1) g]
  show thesis
  proof (cases io)
    case None
    then show ?thesis using k(3) g by (intro full) simp_all
  next
    case (Some i)
    define W where "W = woken_by s bitset (unat wake_max) (waitq s mem addr)"
    obtain f where ok1: "futexes_ok ((\<lambda>_. 0)(i := 1)) s1" and f: "fs_futex s1 i = Some f" "fx_mem f = mem" "fx_addr f = addr" "fx_queue f = waitq s mem addr"
      using k(3) Some by auto
    have "woken_by s1 bitset n q = woken_by s bitset n q" for n q using k(1) by (simp add: woken_by_def selected_def [abs_def])
    then have wl: "wake_loop i wake_max bitset 0 (fx_queue f) s1 = Some (length W, woken_state i W f s1)"
      using wake_loop_eq [OF f(1), of "fx_queue f" wake_max bitset 0] futexes_okD(2) [OF ok1 f(1)] queued_waiter [OF ok1 f(1)] f(4)
      by (fastforce simp: futex_ok_def W_def)
    show ?thesis
    proof (rule woken [OF W_def g [unfolded Some] f(1) wl woken_state_ok(1) [OF ok1 f(1)]])
      show "fs_futex (woken_state i W f s1) i = Some (f\<lparr>fx_queue := filter (\<lambda>n. n \<notin> set W) (fx_queue f)\<rparr>)"
        by (simp add: woken_state_def)
    qed (use woken_state_ok(2) [OF ok1 f(1), of W] f k(1,2) in \<open>auto simp: woken_state_def fun_eq_iff\<close>)
  qed
qed

lemma wake_effect:
  fixes s :: futexes
  assumes "futexes_ok (\<lambda>_. 0) s" "op \<noteq> FUTEX_REQUEUE_CMD"
  shows "futex_wakelike ok op mem addr wake_max requeue_max requeue_addr bitset s = Some (Inl ENOMEM, s) \<and> \<not> fst ok \<or>
    (\<exists>W s'. W = woken_by s bitset (unat wake_max) (waitq s mem addr)
      \<and> futex_wakelike ok op mem addr wake_max requeue_max requeue_addr bitset s = Some (Inr (length W), s')
      \<and> futexes_ok (\<lambda>_. 0) s'
      \<and> waitq s' mem addr = filter (\<lambda>n. n \<notin> set W) (waitq s mem addr)
      \<and> (\<forall>mem' addr'. (mem', addr') \<noteq> (mem, addr) \<longrightarrow> waitq s' mem' addr' = waitq s mem' addr')
      \<and> fs_wait s' = (\<lambda>n. if n \<in> set W then map_option (fw_cond_update (\<lambda>_. True)) (fs_wait s n) else fs_wait s n))"
  using assms(1)
proof (cases rule: wake_phase [where ok = "fst ok" and mem = mem and addr = addr and bitset = bitset and wake_max = wake_max])
  case full
  then show ?thesis by (simp add: futex_wakelike_def futex_get_def)
next
  case (woken i f s1 W s2 f2)
  have E: "((\<lambda>_. 0)(i := 1))(i := 0) = (\<lambda>_. 0 :: nat)" by (simp add: fun_eq_iff)
  obtain s' where s': "futex_put_unlocked i s2 = Some s'" "futexes_ok (\<lambda>_. 0) s'"
      "fs_wait s' = fs_wait s2" "\<And>mem addr. waitq s' mem addr = waitq s2 mem addr"
    using futex_put_keeps [OF woken(5), of i] E by auto
  have "futex_wakelike ok op mem addr wake_max requeue_max requeue_addr bitset s = Some (Inr (length W), s')"
    using s'(1) assms(2) woken(2-4) by (simp add: futex_wakelike_def futex_get_def futex_put_def)
  then show ?thesis
    using s'(2-4) woken(1,10,11) by (intro disjI2 exI [of _ W] exI [of _ s']) auto
qed

text \<open>A wake-up never fails an assertion and keeps the invariant. It takes the oldest selected waiters off the
  queue of the address, at most \<open>wake_max\<close> of them, notifies exactly these and returns their number; every other
  queue is as it was. (Only a failing allocation returns an error, and changes nothing.)\<close>

theorem futex_wake_correct:
  fixes s :: futexes
  assumes "futexes_ok (\<lambda>_. 0) s" "op \<noteq> FUTEX_REQUEUE_CMD"
  shows "futex_wakelike ok op mem addr wake_max requeue_max requeue_addr bitset s = Some (Inl ENOMEM, s) \<and> \<not> fst ok \<or>
    (\<exists>W s'. W = woken_by s bitset (unat wake_max) (waitq s mem addr)
      \<and> futex_wakelike ok op mem addr wake_max requeue_max requeue_addr bitset s = Some (Inr (length W), s')
      \<and> futexes_ok (\<lambda>_. 0) s'
      \<and> waitq s' mem addr = filter (\<lambda>n. n \<notin> set W) (waitq s mem addr)
      \<and> (\<forall>mem' addr'. (mem', addr') \<noteq> (mem, addr) \<longrightarrow> waitq s' mem' addr' = waitq s mem' addr')
      \<and> fs_wait s' = (\<lambda>n. if n \<in> set W then map_option (fw_cond_update (\<lambda>_. True)) (fs_wait s n) else fs_wait s n))"
  using assms by (rule wake_effect)

end
