(* ===== verification/Futex_Waits.thy ===== *)
theory Futex_Waits
  imports Futex_Props
begin

text \<open>Sleeping on a futex and moving sleepers between futexes.\<close>

section \<open>Going to sleep and waking up\<close>

lemma futex_wait_begin_ok:
  assumes "futexes_ok E s"
  shows "futex_wait_begin ok mem uaddr val bitset (s, g) = None \<or>
    (\<exists>r s' g'. futex_wait_begin ok mem uaddr val bitset (s, g) = Some (r, s', g') \<and> futexes_ok E s' \<and>
      (case r of
         Inl _ \<Rightarrow> fs_wait s' = fs_wait s \<and> (\<forall>mem' addr'. waitq s' mem' addr' = waitq s mem' addr')
       | Inr n \<Rightarrow> fs_wait s n = None \<and> (\<exists>i. fs_wait s' = (fs_wait s)(n \<mapsto> \<lparr>fw_cond = False, fw_futex = i, fw_bitset = bitset\<rparr>))
           \<and> waitq s' mem uaddr = waitq s mem uaddr @ [n]
           \<and> (\<forall>mem' addr'. (mem', addr') \<noteq> (mem, uaddr) \<longrightarrow> waitq s' mem' addr' = waitq s mem' addr')))"
proof -
  obtain io s1 where get: "futex_get_unlocked ok mem uaddr s = Some (io, s1)"
    using assms by (cases rule: futex_get_ok [where ok = ok and mem = mem and addr = uaddr]) auto
  note k = futex_get_keeps [OF assms get]
  show ?thesis
  proof (cases io)
    case None
    then show ?thesis using k get assms by (simp add: futex_wait_begin_def futex_get_def)
  next
    case (Some i)
    then obtain f where ok1: "futexes_ok (E(i := E i + 1)) s1" and f: "fs_futex s1 i = Some f" "fx_mem f = mem" "fx_addr f = uaddr" "fx_queue f = waitq s mem uaddr"
      using k(3) by auto
    have E: "(E(i := E i + 1))(i := (E(i := E i + 1)) i - 1) = E" by simp
    obtain s2 where s2: "futex_put_unlocked i s1 = Some s2" "futexes_ok E s2" "fs_wait s2 = fs_wait s1"
        "\<And>m a. waitq s2 m a = waitq s1 m a"
      using futex_put_keeps [OF ok1, of i] E by auto
    show ?thesis
    proof (cases "futex_load mem f g")
      case None
      then show ?thesis using get Some f(1) by (simp add: futex_wait_begin_def futex_get_def)
    next
      case (Some lg)
      then obtain l g1 where l: "futex_load mem f g = Some (l, g1)" by (cases lg) auto
      show ?thesis
      proof (cases "l = Some val")
        case False
        then show ?thesis
          using get \<open>io = Some i\<close> f(1) l s2 k(1,2) by (cases l) (simp_all add: futex_wait_begin_def futex_get_def futex_put_def)
      next
        case True
        define n where "n = fs_wnext s1"
        define s3 where "s3 = (put_futex i (f\<lparr>fx_queue := fx_queue f @ [n]\<rparr>) s1)
          \<lparr>fs_wait := (fs_wait s1)(n \<mapsto> \<lparr>fw_cond = False, fw_futex = i, fw_bitset = bitset\<rparr>), fs_wnext := n + 1\<rparr>"
        have fresh: "fs_wait s1 n = None" using futexes_okD(4) [OF ok1, of n] by (cases "fs_wait s1 n") (auto simp: n_def)
        have ws: "waiters s3 j = (if j = i then insert n (waiters s1 i) else waiters s1 j)" for j
          using fresh by (auto simp: waiters_def s3_def)
        have s3: "fs_futex s3 = (fs_futex s1)(i \<mapsto> f\<lparr>fx_queue := fx_queue f @ [n]\<rparr>)" "fs_next s3 = fs_next s1" by (simp_all add: s3_def)
        have nw: "n \<notin> waiters s1 j" for j using fresh by (simp add: waiters_def)
        note wq = waitq_put [OF futexes_okD(1) [OF ok1] f(1), of "f\<lparr>fx_queue := fx_queue f @ [n]\<rparr>"]
        have "case fs_futex s3 j of None \<Rightarrow> E j = 0 | Some h \<Rightarrow> futex_ok E s3 j h" for j
          using futexes_okD(2,6) [OF ok1, of j] nw [of i] finite_waiters [OF ok1, of i] f(1)
          by (cases "j = i") (auto simp: futex_ok_def ws s3 split: option.splits)
        then have ok3: "futexes_ok E s3"
          by (rule futexes_okI [rotated 2])
             (use futexes_okD(3-5) [OF ok1] f(1) chains_put [OF futexes_okD(1) [OF ok1] f(1), of "f\<lparr>fx_queue := fx_queue f @ [n]\<rparr>"] in
               \<open>auto simp: s3_def n_def less_Suc_eq split: if_splits\<close>)
        have "futex_wait_begin ok mem uaddr val bitset (s, g) = Some (Inr n, s3, g1)"
          using get \<open>io = Some i\<close> f(1) l True by (simp add: futex_wait_begin_def futex_get_def Let_def n_def s3_def)
        moreover have "waitq s3 mem' addr' = (if mem' = mem \<and> addr' = uaddr then waitq s mem uaddr @ [n] else waitq s mem' addr')" for mem' addr'
          using wq f k(2) by (simp add: s3_def)
        ultimately show ?thesis using ok3 fresh k(1) by (simp add: s3_def) blast
      qed
    qed
  qed
qed

lemma futex_wait_end_ok:
  assumes "futexes_ok E s" "fs_wait s n = Some w"
  shows "\<exists>s'. futex_wait_end n s = Some s' \<and> futexes_ok E s' \<and> fs_wait s' = (fs_wait s)(n := None)
    \<and> (\<forall>mem addr. waitq s' mem addr = filter (\<lambda>m. m \<noteq> n) (waitq s mem addr))"
proof -
  define i where "i = fw_futex w"
  obtain f where f: "fs_futex s i = Some f" using futexes_okD(3) [OF assms] by (auto simp: i_def)
  note fo = futexes_okD(2) [OF assms(1) f]
  define g where "g = f\<lparr>fx_queue := remove1 n (fx_queue f)\<rparr>"
  define s1 where "s1 = (put_futex i g s)\<lparr>fs_wait := (fs_wait s)(n := None)\<rparr>"
  define E1 where "E1 = E(i := E i + 1)"
  have s1: "fs_futex s1 = (fs_futex s)(i \<mapsto> g)" "fs_next s1 = fs_next s" by (simp_all add: s1_def)
  have ws: "waiters s1 j = waiters s j - {n}" for j by (auto simp: waiters_def s1_def)
  have ni: "n \<in> waiters s j \<longleftrightarrow> j = i" for j using assms(2) by (auto simp: waiters_def i_def)
  then have c: "card (waiters s i) = Suc (card (waiters s i - {n}))"
    using finite_waiters [OF assms(1), of i] by (metis card.remove)
  have q: "fx_queue g = filter (\<lambda>m. m \<noteq> n) (fx_queue f)" using fo by (simp add: g_def futex_ok_def remove1_filter)
  note wq = waitq_put [OF futexes_okD(1) [OF assms(1)] f, of g]
  have "case fs_futex s1 j of None \<Rightarrow> E1 j = 0 | Some h \<Rightarrow> futex_ok E1 s1 j h" for j
  proof (cases "j = i")
    case True
    have "fx_refcount g = card (waiters s i - {n}) + E1 i" using fo c by (simp add: futex_ok_def g_def E1_def)
    then show ?thesis using fo q True by (auto simp: futex_ok_def ws s1 E1_def)
  next
    case False
    then have "n \<notin> waiters s j" using ni by simp
    then show ?thesis using futexes_okD(2,6) [OF assms(1), of j] False
      by (auto simp: futex_ok_def ws s1 E1_def split: option.splits)
  qed
  then have ok1: "futexes_ok E1 s1"
    by (rule futexes_okI [rotated 2])
       (use futexes_okD(3-5) [OF assms(1)] f chains_put [OF futexes_okD(1) [OF assms(1)] f, of g] in
         \<open>auto simp: s1_def g_def split: if_splits\<close>)
  have other: "n \<notin> set (waitq s mem addr)" if "\<not> (mem = fx_mem f \<and> addr = fx_addr f)" for mem addr
  proof (cases "\<exists>j h. fs_futex s j = Some h \<and> fx_mem h = mem \<and> fx_addr h = addr")
    case True
    then obtain j h where h: "fs_futex s j = Some h" "fx_mem h = mem" "fx_addr h = addr" by blast
    then have "j \<noteq> i" using f that by auto
    then show ?thesis using futexes_okD(2) [OF assms(1) h(1)] ni [of j] waitq_ok(1) [OF futexes_okD(1) [OF assms(1)] h(1)] h(2,3)
      by (auto simp: futex_ok_def)
  next
    case False
    then have "waitq s mem addr = []" using waitq_ok(2) [OF futexes_okD(1) [OF assms(1)]] by blast
    then show ?thesis by simp
  qed
  have "waitq s1 mem addr = filter (\<lambda>m. m \<noteq> n) (waitq s mem addr)" for mem addr
  proof (cases "mem = fx_mem f \<and> addr = fx_addr f")
    case True
    then show ?thesis using wq [of mem addr] q waitq_ok(1) [OF futexes_okD(1) [OF assms(1)] f] by (simp add: s1_def g_def)
  next
    case False
    then have "filter (\<lambda>m. m \<noteq> n) (waitq s mem addr) = waitq s mem addr" using other [OF False] by (auto intro: filter_True)
    then show ?thesis using wq [of mem addr] False by (simp add: s1_def g_def)
  qed
  moreover have "futex_wait_end n s = futex_put_unlocked i s1"
    using assms(2) f by (simp add: futex_wait_end_def futex_put_def s1_def g_def i_def)
  moreover have "E1(i := E1 i - 1) = E" by (simp add: E1_def)
  ultimately show ?thesis using futex_put_keeps [OF ok1, of i] by (auto simp: E1_def s1_def)
qed

section \<open>Requeueing\<close>

text \<open>One sleeper moved to another futex.\<close>

lemma requeue_one_other:
  assumes "futexes_ok E s" "i \<noteq> j" "fs_futex s i = Some f" "fs_futex s j = Some g" "fx_queue f = n # q" "0 < E i"
  shows "\<exists>s' w f' g'. requeue_one i j n s = Some s' \<and> futexes_ok E s' \<and> fs_wait s n = Some w
    \<and> fs_wait s' = (fs_wait s)(n \<mapsto> w\<lparr>fw_futex := j\<rparr>)
    \<and> fs_futex s' i = Some f' \<and> fx_mem f' = fx_mem f \<and> fx_addr f' = fx_addr f \<and> fx_queue f' = q
    \<and> fs_futex s' j = Some g' \<and> fx_mem g' = fx_mem g \<and> fx_addr g' = fx_addr g \<and> fx_queue g' = fx_queue g @ [n]
    \<and> (\<forall>mem addr. waitq s' mem addr = (if mem = fx_mem f \<and> addr = fx_addr f then q
          else if mem = fx_mem g \<and> addr = fx_addr g then fx_queue g @ [n] else waitq s mem addr))"
proof -
  note ch = futexes_okD(1) [OF assms(1)]
  obtain w where w: "fs_wait s n = Some w" "fw_futex w = i" using queued_waiter [OF assms(1,3), of n] assms(5) by auto
  define f' where "f' = f\<lparr>fx_queue := q, fx_refcount := fx_refcount f - 1\<rparr>"
  define g' where "g' = g\<lparr>fx_queue := fx_queue g @ [n], fx_refcount := fx_refcount g + 1\<rparr>"
  define s1 where "s1 = put_futex j g' (put_futex i f' s)"
  define s' where "s' = s1\<lparr>fs_wait := (fs_wait s)(n \<mapsto> w\<lparr>fw_futex := j\<rparr>)\<rparr>"
  have fo: "futex_ok E s i f" "futex_ok E s j g" using futexes_okD(2) [OF assms(1)] assms(3,4) by blast+
  have ni: "n \<in> waiters s k \<longleftrightarrow> k = i" for k using w by (auto simp: waiters_def)
  have ws: "waiters s' k = (if k = i then waiters s i - {n} else if k = j then insert n (waiters s j) else waiters s k)" for k
    using w assms(2) by (auto simp: waiters_def s'_def s1_def)
  have c: "card (waiters s i) = Suc (card (waiters s i - {n}))" "card (insert n (waiters s j)) = Suc (card (waiters s j))"
    using finite_waiters [OF assms(1)] ni assms(2) by (metis card.remove, simp)
  have fx: "fs_futex s' = (fs_futex s)(i \<mapsto> f', j \<mapsto> g')" "fs_next s' = fs_next s" "fs_wnext s' = fs_wnext s"
    by (simp_all add: s'_def s1_def)
  have one: "requeue_one i j n s = Some s'"
    using assms(2-6) w fo(1) c(1) by (simp add: requeue_one_def s'_def s1_def f'_def g'_def put_futex_def Let_def futex_ok_def fun_upd_twist)
  have nq: "n \<notin> set q" "distinct q" "set q \<subseteq> waiters s i" using fo(1) assms(5) by (auto simp: futex_ok_def)
  have "case fs_futex s' k of None \<Rightarrow> E k = 0 | Some h \<Rightarrow> futex_ok E s' k h" for k
  proof -
    have "futex_ok E s' i f'" using fo(1) c(1) nq assms(2,6) by (auto simp: futex_ok_def ws f'_def fx)
    moreover have "futex_ok E s' j g'" using fo(2) c(2) ni [of j] assms(2) by (auto simp: futex_ok_def ws g'_def fx)
    moreover have "case fs_futex s k of None \<Rightarrow> E k = 0 | Some h \<Rightarrow> k \<noteq> i \<longrightarrow> k \<noteq> j \<longrightarrow> futex_ok E s' k h"
      using futexes_okD(2,6) [OF assms(1), of k] by (auto simp: futex_ok_def ws fx split: option.splits)
    ultimately show ?thesis using assms(3,4) by (auto simp: fx split: option.splits)
  qed
  moreover have ch1: "chains_ok (put_futex i f' s)" by (rule chains_put [OF ch assms(3)]) (simp_all add: f'_def)
  moreover have ch2: "chains_ok s1" unfolding s1_def
    by (rule chains_put [OF ch1, of _ g]) (use assms(2,4) in \<open>auto simp: g'_def\<close>)
  moreover have "fs_futex s' (fw_futex x) \<noteq> None \<and> m < fs_wnext s'" if "fs_wait s' m = Some x" for m x
    using that futexes_okD(3,4) [OF assms(1), of m] w by (fastforce simp: s'_def s1_def split: if_splits)
  ultimately have ok: "futexes_ok E s'"
    by (intro futexes_okI) (use futexes_okD(5) [OF assms(1)] in \<open>auto simp: s'_def s1_def\<close>)
  have "waitq s' mem addr = (if mem = fx_mem f \<and> addr = fx_addr f then q
          else if mem = fx_mem g \<and> addr = fx_addr g then fx_queue g @ [n] else waitq s mem addr)" for mem addr
  proof -
    have "\<not> (fx_mem g = fx_mem f \<and> fx_addr g = fx_addr f)" using ch assms(2-4) unfolding chains_ok_def by metis
    then show ?thesis
      using waitq_put [OF ch1, of j g g' mem addr] waitq_put [OF ch assms(3), of f' mem addr] assms(2,4)
      by (auto simp: s'_def s1_def f'_def g'_def)
  qed
  then show ?thesis using ok one w assms(2) by (auto simp: fx f'_def g'_def s'_def s1_def)
qed

lemma requeue_loop_other:
  assumes "futexes_ok E s" "i \<noteq> j" "fs_futex s i = Some f" "fs_futex s j = Some g" "0 < E i" "requeued \<le> requeue_max"
  shows "\<exists>s'. requeue_loop i j requeue_max requeued (case fx_queue f of [] \<Rightarrow> None | n # _ \<Rightarrow> Some n) s
      = Some (requeued + min (requeue_max - requeued) (length (fx_queue f)), s') \<and> futexes_ok E s'
    \<and> (\<forall>n. map_option fw_cond (fs_wait s' n) = map_option fw_cond (fs_wait s n))
    \<and> (\<forall>mem addr. waitq s' mem addr = (if mem = fx_mem f \<and> addr = fx_addr f then drop (requeue_max - requeued) (fx_queue f)
          else if mem = fx_mem g \<and> addr = fx_addr g then fx_queue g @ take (requeue_max - requeued) (fx_queue f) else waitq s mem addr))"
  using assms
proof (induction "fx_queue f" arbitrary: s f g requeued)
  case Nil
  note ch = futexes_okD(1) [OF Nil.prems(1)]
  show ?case using Nil waitq_ok(1) [OF ch Nil.prems(3)] waitq_ok(1) [OF ch Nil.prems(4)]
    by (simp add: requeue_loop.simps [of _ _ _ _ None])
next
  case (Cons n q)
  note ch = futexes_okD(1) [OF Cons.prems(1)]
  note q = Cons.hyps(2) [symmetric]
  show ?case
  proof (cases "requeued < requeue_max")
    case False
    then show ?thesis using Cons.prems q waitq_ok(1) [OF ch Cons.prems(3)] waitq_ok(1) [OF ch Cons.prems(4)]
      by (simp add: requeue_loop.simps [of _ _ _ _ "Some n"])
  next
    case True
    obtain s1 w f1 g1 where s1: "requeue_one i j n s = Some s1" "futexes_ok E s1" "fs_wait s n = Some w"
        "fs_wait s1 = (fs_wait s)(n \<mapsto> w\<lparr>fw_futex := j\<rparr>)"
        "fs_futex s1 i = Some f1" "fx_mem f1 = fx_mem f" "fx_addr f1 = fx_addr f" "fx_queue f1 = q"
        "fs_futex s1 j = Some g1" "fx_mem g1 = fx_mem g" "fx_addr g1 = fx_addr g" "fx_queue g1 = fx_queue g @ [n]"
        "\<And>mem addr. waitq s1 mem addr = (if mem = fx_mem f \<and> addr = fx_addr f then q
          else if mem = fx_mem g \<and> addr = fx_addr g then fx_queue g @ [n] else waitq s mem addr)"
      using requeue_one_other [OF Cons.prems(1-4) q Cons.prems(5)] by blast
    have nx: "list_next n (n # q) = (case q of [] \<Rightarrow> None | m # _ \<Rightarrow> Some m)" by (cases q) (simp_all add: list_next_def)
    obtain k where k: "requeue_max - requeued = Suc k" "requeue_max - Suc requeued = k" using True by (cases "requeue_max - requeued") auto
    have "Suc requeued \<le> requeue_max" using True by simp
    from Cons.hyps(1) [OF s1(8) [symmetric] s1(2) Cons.prems(2) s1(5,9) Cons.prems(5) this] obtain s' where
      s': "requeue_loop i j requeue_max (Suc requeued) (case q of [] \<Rightarrow> None | n # _ \<Rightarrow> Some n) s1 = Some (Suc requeued + min k (length q), s')"
        "futexes_ok E s'" "\<And>m. map_option fw_cond (fs_wait s' m) = map_option fw_cond (fs_wait s1 m)"
        "\<And>mem addr. waitq s' mem addr = (if mem = fx_mem f \<and> addr = fx_addr f then drop k q
          else if mem = fx_mem g \<and> addr = fx_addr g then (fx_queue g @ [n]) @ take k q else waitq s1 mem addr)"
      unfolding s1(6-8,10-12) k(2) by blast
    have "requeue_loop i j requeue_max requeued (Some n) s = Some (Suc requeued + min k (length q), s')"
      using s'(1) s1(1) Cons.prems(3) True q nx by (simp add: requeue_loop.simps [of _ _ _ requeued])
    moreover have "map_option fw_cond (fs_wait s' m) = map_option fw_cond (fs_wait s m)" for m
      using s'(3) [of m] s1(3,4) by auto
    ultimately show ?thesis using s'(2,4) s1(13) q k by auto
  qed
qed

text \<open>Moving a sleeper to the futex it already waits on puts it at the end of the same queue.\<close>

lemma requeue_one_self:
  assumes "fs_futex s i = Some f" "fx_queue f = n # q" "n \<notin> set q" "1 < fx_refcount f" "fs_wait s n = Some w" "fw_futex w = i"
  shows "requeue_one i i n s = Some (put_futex i (f\<lparr>fx_queue := q @ [n]\<rparr>) s)"
proof -
  have "(fs_wait s)(n \<mapsto> w) = fs_wait s" using assms(5) by (simp add: fun_upd_idem)
  then have u: "s'\<lparr>fs_wait := (fs_wait s)(n \<mapsto> w\<lparr>fw_futex := i\<rparr>)\<rparr> = s'" if "fs_wait s' = fs_wait s" for s' :: futexes
    using that assms(6) by (cases w; cases s') simp
  show ?thesis using assms(1-5) by (simp add: requeue_one_def Let_def put_futex_def u)
qed

lemma requeue_loop_self:
  assumes "fs_futex s i = Some f" "fx_queue f = n # m # q" "distinct (fx_queue f)" "1 < fx_refcount f" "requeued \<le> requeue_max"
    "\<forall>n \<in> set (fx_queue f). \<exists>w. fs_wait s n = Some w \<and> fw_futex w = i"
  shows "requeue_loop i i requeue_max requeued (Some n) s
    = Some (requeue_max, put_futex i (f\<lparr>fx_queue := rotate (requeue_max - requeued) (fx_queue f)\<rparr>) s)"
  using assms
proof (induction "requeue_max - requeued" arbitrary: s f n m q requeued)
  case 0
  have "f\<lparr>fx_queue := n # m # q\<rparr> = f" using 0 by (cases f) simp
  then have "put_futex i (f\<lparr>fx_queue := n # m # q\<rparr>) s = s" using 0 by (cases s) (simp add: put_futex_def fun_upd_idem)
  then show ?case using 0 by (simp add: requeue_loop.simps)
next
  case (Suc k)
  obtain w where w: "fs_wait s n = Some w" "fw_futex w = i" using Suc.prems(2,6) by auto
  let ?f = "f\<lparr>fx_queue := (m # q) @ [n]\<rparr>"
  let ?s = "put_futex i ?f s"
  have one: "requeue_one i i n s = Some ?s" using Suc.prems(2-4) w by (intro requeue_one_self [OF Suc.prems(1)]) auto
  obtain m' q' where mq: "q @ [n] = m' # q'" by (cases q) auto
  have "requeue_loop i i requeue_max (Suc requeued) (Some m) ?s
      = Some (requeue_max, put_futex i (?f\<lparr>fx_queue := rotate (requeue_max - Suc requeued) (fx_queue ?f)\<rparr>) ?s)"
  proof (rule Suc.hyps(1))
    have "set ((m # q) @ [n]) = set (fx_queue f)" "distinct ((m # q) @ [n])" using Suc.prems(2,3) by auto
    then show "distinct (fx_queue ?f)" "\<forall>n \<in> set (fx_queue ?f). \<exists>w. fs_wait ?s n = Some w \<and> fw_futex w = i"
      using Suc.prems(6) by simp_all
  qed (use Suc.prems Suc.hyps(2) mq in auto)
  moreover have "rotate (requeue_max - Suc requeued) ((m # q) @ [n]) = rotate (requeue_max - requeued) (n # m # q)"
  proof -
    have "requeue_max - requeued = Suc (requeue_max - Suc requeued)" using Suc.hyps(2) by simp
    then show ?thesis by (simp add: rotate1_rotate_swap flip: rotate_rotate [of _ 1, simplified])
  qed
  moreover have "list_next n (n # m # q) = Some m" by (simp add: list_next_def)
  moreover have "\<not> requeue_max \<le> requeued" using Suc.hyps(2) by simp
  ultimately show ?case
    using one Suc.prems(1,2) by (simp add: requeue_loop.simps [of _ _ _ requeued] put_futex_def)
qed

lemma requeue_effect:
  fixes s :: futexes
  assumes "futexes_ok (\<lambda>_. 0) s" "requeue_addr \<noteq> addr"
  shows "(\<exists>e s'. futex_wakelike ok FUTEX_REQUEUE_CMD mem addr wake_max requeue_max requeue_addr bitset s = Some (Inl e, s')
        \<and> futexes_ok (\<lambda>_. 0) s') \<and> ok \<noteq> (True, True) \<or>
    (\<exists>W R M s'. W = woken_by s bitset (unat wake_max) (waitq s mem addr)
      \<and> R = filter (\<lambda>n. n \<notin> set W) (waitq s mem addr) \<and> M = take (unat requeue_max) R
      \<and> futex_wakelike ok FUTEX_REQUEUE_CMD mem addr wake_max requeue_max requeue_addr bitset s = Some (Inr (length W + length M), s')
      \<and> futexes_ok (\<lambda>_. 0) s'
      \<and> waitq s' mem addr = drop (unat requeue_max) R
      \<and> waitq s' mem requeue_addr = waitq s mem requeue_addr @ M
      \<and> (\<forall>mem' addr'. (mem', addr') \<noteq> (mem, addr) \<longrightarrow> (mem', addr') \<noteq> (mem, requeue_addr) \<longrightarrow> waitq s' mem' addr' = waitq s mem' addr')
      \<and> (\<forall>n. map_option fw_cond (fs_wait s' n) = (if n \<in> set W then map_option (\<lambda>_. True) (fs_wait s n) else map_option fw_cond (fs_wait s n))))"
  using assms(1)
proof (cases rule: wake_phase [where ok = "fst ok" and mem = mem and addr = addr and bitset = bitset and wake_max = wake_max])
  case full
  then show ?thesis using assms(1) by (intro disjI1) (auto simp: futex_wakelike_def futex_get_def)
next
  case (woken i f s1 W s2 f2)
  define R where "R = filter (\<lambda>n. n \<notin> set W) (waitq s mem addr)"
  have E: "((\<lambda>_. 0)(i := 1))(i := 0) = (\<lambda>_. 0 :: nat)" by (simp add: fun_eq_iff)
  obtain jo s3 where g: "futex_get_unlocked (snd ok) mem requeue_addr s2 = Some (jo, s3)"
    using woken(5) by (cases rule: futex_get_ok [where ok = "snd ok" and mem = mem and addr = requeue_addr]) auto
  note k = futex_get_keeps [OF woken(5) g]
  show ?thesis
  proof (cases jo)
    case None
    then have 3: "s3 = s2" "\<not> snd ok" using k(3) by simp_all
    obtain s' where "futex_put_unlocked i s2 = Some s'" "futexes_ok (\<lambda>_. 0) s'"
      using futex_put_keeps [OF woken(5), of i] E by auto
    then have "futex_wakelike ok FUTEX_REQUEUE_CMD mem addr wake_max requeue_max requeue_addr bitset s = Some (Inl ENOMEM, s')"
      using woken(2-4) g None 3 by (simp add: futex_wakelike_def futex_get_def futex_put_def)
    then show ?thesis using \<open>futexes_ok (\<lambda>_. 0) s'\<close> 3 by (intro disjI1) auto
  next
    case (Some j)
    define E3 where "E3 = ((\<lambda>_. 0 :: nat)(i := 1))(j := ((\<lambda>_. 0)(i := 1)) j + 1)"
    obtain g3 where ok3: "futexes_ok E3 s3" and g3: "fs_futex s3 j = Some g3" "fx_mem g3 = mem" "fx_addr g3 = requeue_addr" "fx_queue g3 = waitq s mem requeue_addr"
      using k(3) Some woken(10) assms(2) unfolding E3_def by auto
    obtain f3 where f3: "fs_futex s3 i = Some f3" "fx_mem f3 = mem" "fx_addr f3 = addr" "fx_queue f3 = R"
      using futex_get_futexes [OF woken(5) g woken(6)] woken(7-9) by (auto simp: R_def)
    have ij: "i \<noteq> j" using f3 g3 assms(2) by auto
    then have E3: "E3 i = 1" "E3 j = 1" "E3(j := 0, i := 0) = (\<lambda>_. 0)" by (auto simp: E3_def fun_eq_iff)
    have hd: "(case fx_queue f3 of [] \<Rightarrow> None | n # _ \<Rightarrow> Some n) = (case R of [] \<Rightarrow> None | n # _ \<Rightarrow> Some n)" using f3 by simp
    have "0 < E3 i" using E3 by simp
    from requeue_loop_other [OF ok3 ij f3(1) g3(1) this le0, of "unat requeue_max"]
    obtain s4 where s4: "requeue_loop i j (unat requeue_max) 0 (case R of [] \<Rightarrow> None | n # _ \<Rightarrow> Some n) s3
        = Some (min (unat requeue_max) (length R), s4)" "futexes_ok E3 s4"
      "\<And>n. map_option fw_cond (fs_wait s4 n) = map_option fw_cond (fs_wait s3 n)"
      "\<And>m a. waitq s4 m a = (if m = mem \<and> a = addr then drop (unat requeue_max) R
          else if m = mem \<and> a = requeue_addr then waitq s mem requeue_addr @ take (unat requeue_max) R else waitq s3 m a)"
      unfolding f3 g3 diff_zero add_0 by blast
    obtain s5 where s5: "futex_put_unlocked j s4 = Some s5" "futexes_ok (E3(j := 0)) s5" "fs_wait s5 = fs_wait s4" "\<And>m a. waitq s5 m a = waitq s4 m a"
      using futex_put_keeps [OF s4(2), of j] E3 by auto
    obtain s6 where s6: "futex_put_unlocked i s5 = Some s6" "futexes_ok (\<lambda>_. 0) s6" "fs_wait s6 = fs_wait s5" "\<And>m a. waitq s6 m a = waitq s5 m a"
      using futex_put_keeps [OF s5(2), of i] E3 ij by auto
    have "futex_wakelike ok FUTEX_REQUEUE_CMD mem addr wake_max requeue_max requeue_addr bitset s
        = Some (Inr (length W + length (take (unat requeue_max) R)), s6)"
      using woken(2-4) g Some f3(1,4) s4(1) s5(1) s6(1)
      by (simp add: futex_wakelike_def futex_get_def futex_put_def min.commute)
    moreover have "map_option fw_cond (fs_wait s6 n) = (if n \<in> set W then map_option (\<lambda>_. True) (fs_wait s n) else map_option fw_cond (fs_wait s n))" for n
      using s6(3) s5(3) s4(3) [of n] k(1) woken(11) by (simp add: option.map_comp o_def)
    ultimately show ?thesis
      using s6(2,4) s5(4) s4(4) k(2) woken(1,10) assms(2)
      by (intro disjI2 exI [of _ W] exI [of _ R] exI [of _ "take (unat requeue_max) R"] exI [of _ s6]) (auto simp: R_def)
  qed
qed

text \<open>C34. Requeueing to another address: after the wake-up, up to \<open>requeue_max\<close> of the sleepers that are left move, in
  order, behind those of the second address, and the result is the number woken plus the number moved. The invariant
  is kept, no assertion fails, and nobody who moved is notified.\<close>

theorem futex_requeue_correct:
  fixes s :: futexes
  assumes "futexes_ok (\<lambda>_. 0) s" "requeue_addr \<noteq> addr"
  shows "(\<exists>e s'. futex_wakelike ok FUTEX_REQUEUE_CMD mem addr wake_max requeue_max requeue_addr bitset s = Some (Inl e, s')
        \<and> futexes_ok (\<lambda>_. 0) s') \<and> ok \<noteq> (True, True) \<or>
    (\<exists>W R M s'. W = woken_by s bitset (unat wake_max) (waitq s mem addr)
      \<and> R = filter (\<lambda>n. n \<notin> set W) (waitq s mem addr) \<and> M = take (unat requeue_max) R
      \<and> futex_wakelike ok FUTEX_REQUEUE_CMD mem addr wake_max requeue_max requeue_addr bitset s = Some (Inr (length W + length M), s')
      \<and> futexes_ok (\<lambda>_. 0) s'
      \<and> waitq s' mem addr = drop (unat requeue_max) R
      \<and> waitq s' mem requeue_addr = waitq s mem requeue_addr @ M
      \<and> (\<forall>mem' addr'. (mem', addr') \<noteq> (mem, addr) \<longrightarrow> (mem', addr') \<noteq> (mem, requeue_addr) \<longrightarrow> waitq s' mem' addr' = waitq s mem' addr')
      \<and> (\<forall>n. map_option fw_cond (fs_wait s' n) = (if n \<in> set W then map_option (\<lambda>_. True) (fs_wait s n) else map_option fw_cond (fs_wait s n))))"
  using assms by (rule requeue_effect)

lemma requeue_self_ok:
  assumes "futexes_ok E s" "fs_futex s i = Some f" "0 < E i"
  shows "\<exists>r q. requeue_loop i i requeue_max 0 (case fx_queue f of [] \<Rightarrow> None | n # _ \<Rightarrow> Some n) s = Some (r, put_futex i (f\<lparr>fx_queue := q\<rparr>) s)
    \<and> futexes_ok E (put_futex i (f\<lparr>fx_queue := q\<rparr>) s)
    \<and> (2 \<le> length (fx_queue f) \<longrightarrow> r = requeue_max \<and> q = rotate requeue_max (fx_queue f))"
proof -
  note fo = futexes_okD(2) [OF assms(1,2)]
  have qw: "\<forall>n \<in> set (fx_queue f). \<exists>w. fs_wait s n = Some w \<and> fw_futex w = i" using queued_waiter [OF assms(1,2)] by blast
  have refs: "1 < fx_refcount f" if "fx_queue f = n # q" for n q
  proof -
    have "n \<in> waiters s i" using fo that by (auto simp: futex_ok_def)
    then have "0 < card (waiters s i)" using finite_waiters [OF assms(1), of i] by (auto simp: card_gt_0_iff)
    then show ?thesis using fo assms(3) by (simp add: futex_ok_def)
  qed
  have keep: "futexes_ok E (put_futex i (f\<lparr>fx_queue := q\<rparr>) s)" if "distinct q" "set q = set (fx_queue f)" for q
    using fo that by (intro futexes_ok_put [OF assms(1,2)]) (auto simp: futex_ok_def)
  have same: "put_futex i (f\<lparr>fx_queue := fx_queue f\<rparr>) s = s" using assms(2) by (cases s) (simp add: put_futex_def fun_upd_idem)
  consider "fx_queue f = []" | n where "fx_queue f = [n]" | n m q where "fx_queue f = n # m # q"
    by (metis list.exhaust)
  then show ?thesis
  proof cases
    case 1
    then show ?thesis using same assms(1) by (intro exI [of _ 0] exI [of _ "fx_queue f"]) (simp add: requeue_loop.simps)
  next
    case (2 n)
    then obtain w where w: "fs_wait s n = Some w" "fw_futex w = i" using qw by auto
    have "requeue_one i i n s = Some (put_futex i (f\<lparr>fx_queue := [n]\<rparr>) s)"
      using requeue_one_self [OF assms(2) 2 _ refs [OF 2] w] by simp
    then have "requeue_one i i n s = Some s" using same 2 by simp
    then have "requeue_loop i i requeue_max 0 (Some n) s = Some (if requeue_max = 0 then 0 else 1, s)"
      using assms(2) 2 by (simp add: requeue_loop.simps list_next_def)
    then show ?thesis using same assms(1) 2 by (intro exI [of _ "if requeue_max = 0 then 0 else 1"] exI [of _ "fx_queue f"]) simp
  next
    case (3 n m q)
    have d: "distinct (fx_queue f)" using fo by (simp add: futex_ok_def)
    show ?thesis
      using requeue_loop_self [OF assms(2) 3 d refs [OF 3] le0 qw, of requeue_max] keep [of "rotate requeue_max (fx_queue f)"] 3 d
      by (intro exI [of _ requeue_max] exI [of _ "rotate requeue_max (fx_queue f)"]) simp
  qed
qed

lemma requeue_self_phase:
  assumes "futexes_ok (\<lambda>_. 0) s"
  shows "(\<exists>e. futex_wakelike ok FUTEX_REQUEUE_CMD mem addr wake_max requeue_max addr bitset s = Some (Inl e, s)) \<and> \<not> fst ok \<or>
    (\<exists>W R r q s'. W = woken_by s bitset (unat wake_max) (waitq s mem addr) \<and> R = filter (\<lambda>n. n \<notin> set W) (waitq s mem addr)
      \<and> futex_wakelike ok FUTEX_REQUEUE_CMD mem addr wake_max requeue_max addr bitset s = Some (Inr (length W + r), s')
      \<and> futexes_ok (\<lambda>_. 0) s' \<and> waitq s' mem addr = q \<and> (2 \<le> length R \<longrightarrow> r = unat requeue_max \<and> q = rotate r R))"
  using assms(1)
proof (cases rule: wake_phase [where ok = "fst ok" and mem = mem and addr = addr and bitset = bitset and wake_max = wake_max])
  case full
  then show ?thesis using assms(1) by (intro disjI1) (auto simp: futex_wakelike_def futex_get_def)
next
  case (woken i f s1 W s2 f2)
  define R where "R = filter (\<lambda>n. n \<notin> set W) (waitq s mem addr)"
  define f3 where "f3 = f2\<lparr>fx_refcount := fx_refcount f2 + 1\<rparr>"
  have g: "futex_get_unlocked (snd ok) mem addr s2 = Some (Some i, put_futex i f3 s2)"
    using chain_find_ok(1) [OF futexes_okD(1) [OF woken(5)] woken(6)] woken(6-8) by (simp add: futex_get_unlocked_def f3_def)
  define E3 where "E3 = ((\<lambda>_. 0 :: nat)(i := 1))(i := ((\<lambda>_. 0)(i := 1)) i + 1)"
  have ok3: "futexes_ok E3 (put_futex i f3 s2)" using futex_get_keeps(3) [OF woken(5) g] by (simp add: E3_def)
  have E3: "0 < E3 i" "E3(i := E3 i - 1) = (\<lambda>_. 0)(i := 1)" "((\<lambda>_. 0 :: nat)(i := 1))(i := 0) = (\<lambda>_. 0)"
    by (auto simp: E3_def fun_eq_iff)
  have q3: "fx_queue f3 = R" "fx_mem f3 = mem" "fx_addr f3 = addr" using woken(7-9) by (simp_all add: f3_def R_def)
  obtain r q where rq: "requeue_loop i i (unat requeue_max) 0 (case R of [] \<Rightarrow> None | n # _ \<Rightarrow> Some n) (put_futex i f3 s2)
        = Some (r, put_futex i (f3\<lparr>fx_queue := q\<rparr>) (put_futex i f3 s2))"
      "futexes_ok E3 (put_futex i (f3\<lparr>fx_queue := q\<rparr>) (put_futex i f3 s2))" "2 \<le> length R \<longrightarrow> r = unat requeue_max \<and> q = rotate (unat requeue_max) R"
    using requeue_self_ok [OF ok3 _ E3(1), of f3 "unat requeue_max"] q3 by auto
  let ?s4 = "put_futex i (f3\<lparr>fx_queue := q\<rparr>) (put_futex i f3 s2)"
  obtain s5 where s5: "futex_put_unlocked i ?s4 = Some s5" "futexes_ok ((\<lambda>_. 0)(i := 1)) s5" "\<And>m a. waitq s5 m a = waitq ?s4 m a"
    using futex_put_keeps [OF rq(2) E3(1)] E3(2) by auto
  obtain s6 where s6: "futex_put_unlocked i s5 = Some s6" "futexes_ok (\<lambda>_. 0) s6" "\<And>m a. waitq s6 m a = waitq s5 m a"
    using futex_put_keeps [OF s5(2), of i] E3(3) by auto
  have "waitq ?s4 mem addr = q" using waitq_ok(1) [OF futexes_okD(1) [OF rq(2)], of i "f3\<lparr>fx_queue := q\<rparr>"] q3 by simp
  moreover have "futex_wakelike ok FUTEX_REQUEUE_CMD mem addr wake_max requeue_max addr bitset s = Some (Inr (length W + r), s6)"
    using woken(2-4) g q3 rq(1) s5(1) s6(1) by (simp add: futex_wakelike_def futex_get_def futex_put_def)
  ultimately show ?thesis
    using s6(2,3) s5(3) rq(3) woken(1)
    by (intro disjI2 exI [of _ W] exI [of _ R] exI [of _ r] exI [of _ q] exI [of _ s6]) (auto simp: R_def)
qed

text \<open>Requeueing an address to itself goes round the queue until the count is used up: with two sleepers left or more
  the loop runs \<open>requeue_max\<close> rounds and the result counts the same sleepers again and again, whatever their number.\<close>

theorem futex_requeue_to_itself:
  assumes "futexes_ok (\<lambda>_. 0) s" "ok" "W = woken_by s bitset (unat wake_max) (waitq s mem addr)"
    "R = filter (\<lambda>n. n \<notin> set W) (waitq s mem addr)" "2 \<le> length R"
  shows "\<exists>s'. futex_wakelike (ok, ok2) FUTEX_REQUEUE_CMD mem addr wake_max requeue_max addr bitset s
      = Some (Inr (length W + unat requeue_max), s') \<and> waitq s' mem addr = rotate (unat requeue_max) R"
  using requeue_self_phase [OF assms(1), of "(ok, ok2)" mem addr wake_max requeue_max bitset] assms(2-5) by auto

section \<open>All interleavings\<close>

text \<open>What threads can do, one critical section at a time: go to sleep, come back from sleep, wake and requeue.\<close>

inductive futex_step :: "futexes \<Rightarrow> futexes \<Rightarrow> bool" where
  sleep: "futex_wait_begin ok mem uaddr val bitset (s, g) = Some (r, s', g') \<Longrightarrow> futex_step s s'"
| awake: "fs_wait s n \<noteq> None \<Longrightarrow> futex_wait_end n s = Some s' \<Longrightarrow> futex_step s s'"
| wake: "futex_wakelike ok op mem uaddr wake_max requeue_max requeue_addr bitset s = Some (r, s') \<Longrightarrow> futex_step s s'"

lemma futex_wakelike_ok:
  assumes "futexes_ok (\<lambda>_. 0) s"
  shows "\<exists>r s'. futex_wakelike ok op mem uaddr wake_max requeue_max requeue_addr bitset s = Some (r, s') \<and> futexes_ok (\<lambda>_. 0) s'"
proof (cases "op = FUTEX_REQUEUE_CMD")
  case False
  from wake_effect [OF assms this, of ok mem uaddr wake_max requeue_max requeue_addr bitset] assms show ?thesis by blast
next
  case True
  show ?thesis
  proof (cases "requeue_addr = uaddr")
    case True
    from requeue_self_phase [OF assms, of ok mem uaddr wake_max requeue_max bitset] assms show ?thesis
      unfolding True \<open>op = FUTEX_REQUEUE_CMD\<close> by blast
  next
    case False
    from requeue_effect [OF assms False, of ok mem wake_max requeue_max bitset] show ?thesis
      unfolding \<open>op = FUTEX_REQUEUE_CMD\<close> by blast
  qed
qed

lemma futex_reachable_ok: "futex_step\<^sup>*\<^sup>* init_futex_hash s \<Longrightarrow> futexes_ok (\<lambda>_. 0) s"
proof (induction rule: rtranclp_induct)
  case base
  show ?case by (auto simp: futexes_ok_def chains_ok_def init_futex_hash_def)
next
  case (step s s')
  from step.hyps(2) step.IH show ?case
  proof cases
    case (sleep ok mem uaddr val bitset g r g')
    then show ?thesis using futex_wait_begin_ok [OF step.IH, of ok mem uaddr val bitset g] by auto
  next
    case (awake n)
    then show ?thesis using futex_wait_end_ok [OF step.IH] by fastforce
  next
    case (wake ok op mem uaddr wake_max requeue_max requeue_addr bitset r)
    then show ?thesis
      using futex_wakelike_ok [OF step.IH, of ok op mem uaddr wake_max requeue_max requeue_addr bitset] by auto
  qed
qed

text \<open>C11. However sleeping, waking and requeueing interleave, the code is safe: the reference count of a futex is the
  number of sleepers that point to it, a futex is never freed while somebody is queued on it, no assertion fails, and
  every sleeper can come back, which takes it off the queue it is on.\<close>

theorem futex_never_dangling:
  assumes "futex_step\<^sup>*\<^sup>* init_futex_hash s"
  shows "(\<forall>i f. fs_futex s i = Some f \<longrightarrow> fx_refcount f = card (waiters s i) \<and> 0 < fx_refcount f) \<and>
    (\<forall>ok op mem uaddr wake_max requeue_max requeue_addr bitset.
       futex_wakelike ok op mem uaddr wake_max requeue_max requeue_addr bitset s \<noteq> None) \<and>
    (\<forall>n. fs_wait s n \<noteq> None \<longrightarrow> (\<exists>s'. futex_wait_end n s = Some s' \<and> fs_wait s' n = None
       \<and> (\<forall>mem addr. n \<notin> set (waitq s' mem addr))))"
proof -
  note ok = futex_reachable_ok [OF assms]
  have "\<exists>s'. futex_wait_end n s = Some s' \<and> fs_wait s' n = None \<and> (\<forall>mem addr. n \<notin> set (waitq s' mem addr))"
    if "fs_wait s n \<noteq> None" for n
    using futex_wait_end_ok [OF ok] that by fastforce
  moreover have "futex_wakelike ok op mem uaddr wake_max requeue_max requeue_addr bitset s \<noteq> None" for ok op mem uaddr wake_max requeue_max requeue_addr bitset
    using futex_wakelike_ok [OF ok] by fastforce
  moreover have "fx_refcount f = card (waiters s i) \<and> 0 < fx_refcount f" if "fs_futex s i = Some f" for i f
    using futexes_okD(2) [OF ok that] by (simp add: futex_ok_def)
  ultimately show ?thesis by blast
qed

text \<open>A sleeper that another thread wakes, and counts, still reports \<open>EINTR\<close> or \<open>ETIMEDOUT\<close> when a signal is pending
  or its wait has run out by the time it looks: \<open>futex_wait\<close> does not ask whether it was taken off the queue, so
  the wake-up is lost to the other sleepers.\<close>

theorem futex_wake_lost:
  assumes "futexes_ok (\<lambda>_. 0) s" "waitq s mem uaddr = []"
    "futex_wait_begin ok mem uaddr val FUTEX_BITSET_MATCH_ANY (s, g) = Some (Inr n, s1, g1)"
    "futex_wake True mem uaddr 1 s1 = Some (Inr woken, s2)"
    "\<not> sl_pending sl" "sl_others sl (s1, g1) = (s2, g1)"
    "sl_pending_after sl \<or> sl_timed_out sl (if absolute then map_option (relative_timeout now) timeout else timeout)"
  shows "woken = 1 \<and> (\<exists>w. fs_wait s2 n = Some w \<and> fw_cond w) \<and>
    (\<exists>e sg'. futex_wait sl now ok mem uaddr val timeout FUTEX_BITSET_MATCH_ANY absolute (s, g) = Some (Inl e, sg') \<and> (e = EINTR \<or> e = ETIMEDOUT))"
proof -
  from futex_wait_begin_ok [OF assms(1), of ok mem uaddr val FUTEX_BITSET_MATCH_ANY g] assms(2,3)
  obtain i where ok1: "futexes_ok (\<lambda>_. 0) s1" and w: "fs_wait s1 n = Some \<lparr>fw_cond = False, fw_futex = i, fw_bitset = FUTEX_BITSET_MATCH_ANY\<rparr>"
    and q: "waitq s1 mem uaddr = [n]" by auto
  have W: "woken_by s1 FUTEX_BITSET_MATCH_ANY (unat 1) (waitq s1 mem uaddr) = [n]"
    using w q by (simp add: woken_by_def selected_def FUTEX_BITSET_MATCH_ANY_def)
  have 2: "woken = 1" "futexes_ok (\<lambda>_. 0) s2" "fs_wait s2 n = Some \<lparr>fw_cond = True, fw_futex = i, fw_bitset = FUTEX_BITSET_MATCH_ANY\<rparr>"
    using wake_effect [OF ok1, of FUTEX_WAKE_CMD "(True, True)" mem uaddr 1 0 0 FUTEX_BITSET_MATCH_ANY] assms(4) W w
    by (auto simp: futex_wake_def FUTEX_WAKE_CMD_def FUTEX_REQUEUE_CMD_def)
  obtain s3 where "futex_wait_end n s2 = Some s3" using futex_wait_end_ok [OF 2(2,3)] by blast
  then show ?thesis
    using assms(3,5-7) 2 by (auto simp: futex_wait_def wait_for_def wait_for_ignore_signals_def)
qed

section \<open>Examples\<close>

text \<open>A guest with the word \<open>0x07070707\<close> at \<open>0x1000\<close>, nobody or one sleeper there, and a second sleeper.\<close>

definition ex_guest :: guest where
  "ex_guest = \<lparr>g_mf = 1, g_env = (\<lambda>_ s. s), g_heap = ex_heap, g_mem = ex_mem\<rparr>"

definition ex_sleep1 :: futexes where
  "ex_sleep1 = \<lparr>fs_futex = [0 \<mapsto> \<lparr>fx_refcount = 1, fx_mem = 0, fx_addr = 0x1000, fx_queue = [0]\<rparr>], fs_chain = (\<lambda>_. [])(0 := [0]), fs_next = 1,
     fs_wait = [0 \<mapsto> \<lparr>fw_cond = False, fw_futex = 0, fw_bitset = - 1\<rparr>], fs_wnext = 1\<rparr>"

lemma ex_load: "fx_addr f = 0x1000 \<Longrightarrow> fx_mem f = 0 \<Longrightarrow> futex_load 0 f ex_guest = Some (Some 0x07070707, ex_guest)"
proof -
  assume f: "fx_addr f = 0x1000" "fx_mem f = 0"
  have "PGOFFSET 0x1000 = 0" by (simp add: PGOFFSET_mod)
  then have p: "mem_ptr 1 (\<lambda>_ s. s) ex_heap ex_mem 0x1000 MEM_READ = Some (Some (1, 0), ex_heap, ex_mem)"
    using mem_ptr_read [OF ex_page(2), of 0 ex_heap "\<lparr>d_data = 1, d_size = PAGE_SIZE, d_refcount = 1, d_fd = None, d_file_offset = 0\<rparr>" 0 "\<lambda>_ s. s"]
    by (simp add: ex_entry_def ex_heap_def)
  have b: "h_host ex_heap 1 = Some (replicate PAGE_SIZE 7)" by (simp add: ex_heap_def)
  have "copy_from (replicate PAGE_SIZE (7 :: u8)) 0 4 = Some [7, 7, 7, 7]"
  proof -
    have "4 \<le> PAGE_SIZE" by (simp add: PAGE_SIZE_def)
    moreover have "replicate 4 (7 :: u8) = [7, 7, 7, 7]" by (simp add: numeral_eq_Suc)
    ultimately show ?thesis by (simp add: copy_from_def min_absorb1)
  qed
  moreover have "le32 [7, 7, 7, 7] = 0x07070707" by (simp add: le32_def)
  ultimately show ?thesis using f p b by (simp add: futex_load_def ex_guest_def)
qed

lemma ex_hash: "futex_hash 0 0x1000 = 0"
  by (simp add: futex_hash_def unat_ucast)

lemma ex_begin: "futex_wait_begin True 0 0x1000 0x07070707 (- 1) (init_futex_hash, ex_guest) = Some (Inr 0, ex_sleep1, ex_guest)"
  by (simp add: futex_wait_begin_def futex_get_def futex_get_unlocked_def Let_def ex_load put_futex_def init_futex_hash_def ex_hash ex_sleep1_def)

lemma ex_step1: "futex_step\<^sup>*\<^sup>* init_futex_hash ex_sleep1"
  using futex_step.sleep [OF ex_begin] by blast


lemma ex_waiting: "waitq ex_sleep1 0 0x1000 = [0]" "waitq init_futex_hash 0 0x1000 = []"
  by (simp_all add: waitq_def queue_of_def ex_sleep1_def ex_hash init_futex_hash_def)

lemma ex_woken: "woken_by ex_sleep1 (- 1) 1 [0] = [0]"
  by (simp add: woken_by_def selected_def ex_sleep1_def)

theorem futex_requeue_correct_witness:
  "\<exists>s'. futex_wakelike (True, True) FUTEX_REQUEUE_CMD 0 0x1000 0 1 0x2000 (- 1) ex_sleep1 = Some (Inr 1, s') \<and> waitq s' 0 0x1000 = []"
  using futex_requeue_correct [OF futex_reachable_ok [OF ex_step1], where requeue_addr = "0x2000" and addr = "0x1000" and ok = "(True, True)" and mem = 0
      and wake_max = 0 and requeue_max = 1 and bitset = "- 1"]
  by (auto simp: ex_waiting woken_by_def)

theorem futex_never_dangling_witness:
  "\<exists>s'. futex_wait_end 0 ex_sleep1 = Some s' \<and> fs_wait s' 0 = None"
proof -
  have "fs_wait ex_sleep1 0 \<noteq> None" by (simp add: ex_sleep1_def)
  then show ?thesis using futex_never_dangling [OF ex_step1] by blast
qed

definition ex_interrupted :: "(futexes \<times> guest) sleep" where
  "ex_interrupted = \<lparr>sl_pending = False, sl_others = (\<lambda>(s, g). (snd (the (futex_wake True 0 0x1000 1 s)), g)),
     sl_timed_out = (\<lambda>_. False), sl_pending_after = True\<rparr>"

theorem futex_wake_lost_witness:
  "\<exists>e sg'. futex_wait ex_interrupted \<lparr>tv_sec = 0, tv_nsec = 0\<rparr> True 0 0x1000 0x07070707 None FUTEX_BITSET_MATCH_ANY False (init_futex_hash, ex_guest)
     = Some (Inl e, sg')"
proof -
  obtain r s2 where "futex_wake True 0 0x1000 1 ex_sleep1 = Some (Inr r, s2)"
    using wake_effect [OF futex_reachable_ok [OF ex_step1], where op = FUTEX_WAKE_CMD and ok = "(True, True)" and mem = 0 and addr = "0x1000"
        and wake_max = 1 and requeue_max = 0 and requeue_addr = 0 and bitset = FUTEX_BITSET_MATCH_ANY]
    by (auto simp: futex_wake_def FUTEX_WAKE_CMD_def FUTEX_REQUEUE_CMD_def)
  then show ?thesis
    using futex_wake_lost [OF futex_reachable_ok [OF rtranclp.rtrancl_refl] ex_waiting(2), where ok = True and val = "0x07070707" and g = ex_guest and n = 0
        and ?s1.0 = ex_sleep1 and ?g1.0 = ex_guest and woken = r and ?s2.0 = s2
        and sl = ex_interrupted and absolute = False and now = "\<lparr>tv_sec = 0, tv_nsec = 0\<rparr>" and timeout = None] ex_begin
    by (fastforce simp: ex_interrupted_def FUTEX_BITSET_MATCH_ANY_def)
qed

text \<open>Two sleepers at one address.\<close>

definition ex_sleep2 :: futexes where
  "ex_sleep2 = \<lparr>fs_futex = [0 \<mapsto> \<lparr>fx_refcount = 2, fx_mem = 0, fx_addr = 0x1000, fx_queue = [0, 1]\<rparr>], fs_chain = (\<lambda>_. [])(0 := [0]), fs_next = 1,
     fs_wait = [0 \<mapsto> \<lparr>fw_cond = False, fw_futex = 0, fw_bitset = - 1\<rparr>, 1 \<mapsto> \<lparr>fw_cond = False, fw_futex = 0, fw_bitset = - 1\<rparr>], fs_wnext = 2\<rparr>"

lemma ex_begin2: "futex_wait_begin True 0 0x1000 0x07070707 (- 1) (ex_sleep1, ex_guest) = Some (Inr 1, ex_sleep2, ex_guest)"
  by (simp add: futex_wait_begin_def futex_get_def futex_get_unlocked_def Let_def ex_load put_futex_def ex_sleep1_def ex_hash ex_sleep2_def numeral_2_eq_2)

lemma ex_step2: "futex_step\<^sup>*\<^sup>* init_futex_hash ex_sleep2"
  using ex_step1 futex_step.sleep [OF ex_begin2] by (rule rtranclp.rtrancl_into_rtrancl)

lemma ex_waiting2: "waitq ex_sleep2 0 0x1000 = [0, 1]"
  by (simp add: waitq_def queue_of_def ex_sleep2_def ex_hash)

lemma ex_woken2: "woken_by ex_sleep2 (- 1) (unat (1 :: u32)) [0, 1] = [0]"
  by (simp add: woken_by_def selected_def ex_sleep2_def)

theorem futex_wake_correct_witness:
  "\<exists>s'. futex_wakelike (True, True) FUTEX_WAKE_CMD 0 0x1000 1 0 0 (- 1) ex_sleep2 = Some (Inr 1, s') \<and> waitq s' 0 0x1000 = [1]"
  using futex_wake_correct [OF futex_reachable_ok [OF ex_step2], where op = FUTEX_WAKE_CMD and ok = "(True, True)" and mem = 0 and addr = "0x1000"
      and wake_max = 1 and requeue_max = 0 and requeue_addr = 0 and bitset = "- 1"]
    ex_woken2
  by (auto simp: ex_waiting2 FUTEX_WAKE_CMD_def FUTEX_REQUEUE_CMD_def)

theorem futex_requeue_to_itself_witness:
  "\<exists>s'. futex_wakelike (True, True) FUTEX_REQUEUE_CMD 0 0x1000 0 7 0x1000 (- 1) ex_sleep2 = Some (Inr 7, s')"
  using futex_requeue_to_itself [OF futex_reachable_ok [OF ex_step2], where ok = True and W = "[]" and bitset = "- 1" and wake_max = 0 and mem = 0
      and addr = "0x1000" and R = "[0, 1]" and ?ok2.0 = True and requeue_max = 7]
  by (auto simp: ex_waiting2 woken_by_def)

end
