(* ===== verification/Tmpfs.thy ===== *)
theory Tmpfs
  imports Generic_Fs
begin

text \<open>
  The temporary file system, \<^verbatim>\<open>fs/tmp.c\<close>: a tree of directory entries that point to inodes, both reference-counted
  objects in a heap. A list of children is the list of their numbers in the order of the code's list. \<open>al\<close> says of each
  allocation of an operation whether the host has memory. \<open>None\<close> is undefined behaviour: an access to a
  freed object or through an error pointer, outside a buffer, or a failed assertion.
\<close>

section \<open>Inodes\<close>

definition S_IFREG :: u32 where "S_IFREG = 0x8000"
definition S_IFDIR :: u32 where "S_IFDIR = 0x4000"
definition S_ISREG :: "u32 \<Rightarrow> bool" where "S_ISREG m \<longleftrightarrow> m AND S_IFMT = 0x8000"

record tmp_inode =
  ti_refcount :: nat
  ti_mode :: u32
  ti_uid :: u32
  ti_gid :: u32
  ti_number :: nat
  ti_size :: nat
  ti_data :: "u8 list"

record tmp_dirent =
  td_name :: string
  td_inode :: nat
  td_index :: nat
  td_parent :: "nat option"
  td_children :: "nat list"
  td_next_index :: nat
  td_refcount :: nat

record tmp_heap =
  th_inodes :: "nat \<Rightarrow> tmp_inode option"
  th_dirents :: "nat \<Rightarrow> tmp_dirent option"
  th_next :: nat
  th_next_inode :: nat

definition put_inode :: "nat \<Rightarrow> tmp_inode \<Rightarrow> tmp_heap \<Rightarrow> tmp_heap" where
  "put_inode i n s = s\<lparr>th_inodes := (th_inodes s)(i \<mapsto> n)\<rparr>"

definition put_dirent :: "nat \<Rightarrow> tmp_dirent \<Rightarrow> tmp_heap \<Rightarrow> tmp_heap" where
  "put_dirent i d s = s\<lparr>th_dirents := (th_dirents s)(i \<mapsto> d)\<rparr>"

definition tmp_inode_new :: "(nat \<Rightarrow> bool) \<Rightarrow> cred \<Rightarrow> u32 \<Rightarrow> tmp_heap \<Rightarrow> nat option \<times> tmp_heap" where
  "tmp_inode_new al cr mode s =
     (if \<not> al 0 then (None, s)
      else let s1 = s\<lparr>th_next_inode := th_next_inode s + 1\<rparr> in
        if S_ISREG mode \<and> \<not> al 1 then (None, s1)
        else let i = th_next s in
          (Some i, (put_inode i \<lparr>ti_refcount = 1, ti_mode = mode, ti_uid = cr_euid cr, ti_gid = cr_egid cr,
                       ti_number = th_next_inode s, ti_size = 0, ti_data = []\<rparr> s1)\<lparr>th_next := i + 1\<rparr>))"

definition tmp_inode_retain :: "nat \<Rightarrow> tmp_heap \<Rightarrow> tmp_heap option" where
  "tmp_inode_retain i s = do { n \<leftarrow> th_inodes s i; Some (put_inode i (n\<lparr>ti_refcount := ti_refcount n + 1\<rparr>) s) }"

definition tmp_inode_cleanup :: "nat \<Rightarrow> tmp_heap \<Rightarrow> tmp_heap" where
  "tmp_inode_cleanup i s = s\<lparr>th_inodes := (th_inodes s)(i := None)\<rparr>"

definition tmp_inode_release :: "nat \<Rightarrow> tmp_heap \<Rightarrow> tmp_heap option" where
  "tmp_inode_release i s = do {
     n \<leftarrow> th_inodes s i;
     if ti_refcount n = 1 then Some (tmp_inode_cleanup i s)
     else Some (put_inode i (n\<lparr>ti_refcount := ti_refcount n - 1\<rparr>) s)
   }"

section \<open>Directory entries\<close>

definition tmp_dirent_retain :: "nat \<Rightarrow> tmp_heap \<Rightarrow> tmp_heap option" where
  "tmp_dirent_retain i s = do { d \<leftarrow> th_dirents s i; Some (put_dirent i (d\<lparr>td_refcount := td_refcount d + 1\<rparr>) s) }"

text \<open>The entry leaves the list of its parent; its reference to the parent stays counted.\<close>

definition tmp_dirent_cleanup :: "nat \<Rightarrow> tmp_heap \<Rightarrow> tmp_heap option" where
  "tmp_dirent_cleanup i s = do {
     d \<leftarrow> th_dirents s i;
     p \<leftarrow> td_parent d;
     pd \<leftarrow> th_dirents s p;
     let s1 = put_dirent p (pd\<lparr>td_children := remove1 i (td_children pd)\<rparr>) s;
     s2 \<leftarrow> tmp_inode_release (td_inode d) s1;
     Some (s2\<lparr>th_dirents := (th_dirents s2)(i := None)\<rparr>)
   }"

definition tmp_dirent_release :: "nat \<Rightarrow> tmp_heap \<Rightarrow> tmp_heap option" where
  "tmp_dirent_release i s = do {
     d \<leftarrow> th_dirents s i;
     let s1 = put_dirent i (d\<lparr>td_refcount := td_refcount d - 1\<rparr>) s;
     if td_refcount d = 1 then tmp_dirent_cleanup i s1 else Some s1
   }"

definition tmp_dirent_init :: "string \<Rightarrow> nat \<Rightarrow> nat \<Rightarrow> nat option \<Rightarrow> tmp_dirent" where
  "tmp_dirent_init name inode index parent =
     \<lparr>td_name = name, td_inode = inode, td_index = index, td_parent = parent, td_children = [], td_next_index = 0, td_refcount = 1\<rparr>"

definition dirent_mode :: "nat \<Rightarrow> tmp_heap \<Rightarrow> u32 option" where
  "dirent_mode i s = do { d \<leftarrow> th_dirents s i; n \<leftarrow> th_inodes s (td_inode d); Some (ti_mode n) }"

text \<open>The new entry is retained once more when the caller wants it.\<close>

definition tmpfs_dir_link ::
  "(nat \<Rightarrow> bool) \<Rightarrow> bool \<Rightarrow> nat \<Rightarrow> string \<Rightarrow> nat \<Rightarrow> tmp_heap \<Rightarrow> (nat result \<times> tmp_heap) option" where
  "tmpfs_dir_link al out dir name child s = do {
     mode \<leftarrow> dirent_mode dir s;
     if \<not> S_ISDIR mode then do { s' \<leftarrow> tmp_inode_release child s; Some (Inl ENOTDIR, s') }
     else if \<not> al 2 then do { s' \<leftarrow> tmp_inode_release child s; Some (Inl ENOMEM, s') }
     else if length name > MAX_NAME then None
     else do {
       s1 \<leftarrow> tmp_inode_retain child s;
       d \<leftarrow> th_dirents s1 dir;
       let i = th_next s1;
       let s2 = (put_dirent i (tmp_dirent_init name child (td_next_index d) (Some dir)) s1)\<lparr>th_next := i + 1\<rparr>;
       let s3 = put_dirent dir (d\<lparr>td_next_index := td_next_index d + 1, td_refcount := td_refcount d + 1,
                                  td_children := td_children d @ [i]\<rparr>) s2;
       s4 \<leftarrow> (if out then tmp_dirent_retain i s3 else Some s3);
       Some (Inr i, s4)
     }
   }"

record tmp_fd =
  tfd_dirent :: "nat option"
  tfd_dir_pos :: "nat option"
  tfd_offset :: int

definition tmpfs_fd_seekdir :: "nat option \<Rightarrow> tmp_fd \<Rightarrow> tmp_heap \<Rightarrow> (tmp_fd \<times> tmp_heap) option" where
  "tmpfs_fd_seekdir dirent f s = do {
     s1 \<leftarrow> (case dirent of None \<Rightarrow> Some s | Some d \<Rightarrow> tmp_dirent_retain d s);
     s2 \<leftarrow> (case tfd_dir_pos f of None \<Rightarrow> Some s1 | Some d \<Rightarrow> tmp_dirent_release d s1);
     Some (f\<lparr>tfd_dir_pos := dirent\<rparr>, s2)
   }"

fun find_child :: "string \<Rightarrow> tmp_heap \<Rightarrow> nat list \<Rightarrow> nat option option" where
  "find_child name s [] = Some None"
| "find_child name s (c # cs) = do {
     d \<leftarrow> th_dirents s c;
     if td_name d = name then Some (Some c) else find_child name s cs
   }"

definition tmpfs_dir_lookup :: "nat \<Rightarrow> string \<Rightarrow> tmp_heap \<Rightarrow> (nat result \<times> tmp_heap) option" where
  "tmpfs_dir_lookup dir name s = do {
     mode \<leftarrow> dirent_mode dir s;
     if \<not> S_ISDIR mode then Some (Inl ENOTDIR, s)
     else do {
       d \<leftarrow> th_dirents s dir;
       found \<leftarrow> find_child name s (td_children d);
       case found of
         None \<Rightarrow> Some (Inl ENOENT, s)
       | Some c \<Rightarrow> do { s' \<leftarrow> tmp_dirent_retain c s; Some (Inr c, s') }
     }
   }"

definition tmpfs_dir_lookup_existence :: "nat \<Rightarrow> string \<Rightarrow> tmp_heap \<Rightarrow> (unit result \<times> tmp_heap) option" where
  "tmpfs_dir_lookup_existence dir name s = do {
     (r, s1) \<leftarrow> tmpfs_dir_lookup dir name s;
     case r of
       Inl e \<Rightarrow> Some (if e = ENOENT then Inr () else Inl e, s1)
     | Inr c \<Rightarrow> do { s2 \<leftarrow> tmp_dirent_release c s1; Some (Inl EEXIST, s2) }
   }"

section \<open>Walking a path\<close>

lemma take_component_length: "take_component acc k p = Component w p' \<Longrightarrow> length p' \<le> length p"
  by (induction acc k p rule: take_component.induct) (fastforce split: if_splits)+

text \<open>The loop ends at the end of the path, or before its last component when the parent is wanted; that component
  is the second result. A component that is too long leaves the entry reached retained.\<close>

function lookup_loop :: "bool \<Rightarrow> string \<Rightarrow> string \<Rightarrow> nat \<Rightarrow> tmp_heap \<Rightarrow> (nat result \<times> string \<times> tmp_heap) option" where
  "lookup_loop parent component path dirent s =
     (case path_next_component path of
        None \<Rightarrow> None
      | Some End_of_path \<Rightarrow> Some (Inr dirent, component, s)
      | Some (Component_error e) \<Rightarrow> Some (Inl e, component, s)
      | Some (Component w rest) \<Rightarrow>
          if parent \<and> rest = [] then Some (Inr dirent, w, s)
          else do {
            (child, s1) \<leftarrow> tmpfs_dir_lookup dirent w s;
            s2 \<leftarrow> tmp_dirent_release dirent s1;
            case child of Inl e \<Rightarrow> Some (Inl e, w, s2) | Inr c \<Rightarrow> lookup_loop parent w rest c s2
          })"
  by pat_completeness auto
termination
  by (relation "measure (\<lambda>(parent, component, path, dirent, s). length path)")
     (auto simp: path_next_component_def split: list.splits if_splits dest!: take_component_length)

declare lookup_loop.simps [simp del]

definition tmpfs_lookup_common :: "nat \<Rightarrow> bool \<Rightarrow> string \<Rightarrow> tmp_heap \<Rightarrow> (nat result \<times> string \<times> tmp_heap) option" where
  "tmpfs_lookup_common root parent path s = do { s1 \<leftarrow> tmp_dirent_retain root s; lookup_loop parent [] path root s1 }"

definition tmpfs_lookup :: "nat \<Rightarrow> string \<Rightarrow> tmp_heap \<Rightarrow> (nat result \<times> tmp_heap) option" where
  "tmpfs_lookup root path s = do { (r, _, s') \<leftarrow> tmpfs_lookup_common root False path s; Some (r, s') }"

text \<open>The root has no parent: a null pointer, \<open>Inr None\<close>, which is no error pointer.\<close>

definition tmpfs_lookup_parent :: "nat \<Rightarrow> string \<Rightarrow> tmp_heap \<Rightarrow> (nat option result \<times> string \<times> tmp_heap) option" where
  "tmpfs_lookup_parent root path s =
     (if path = ''/'' then Some (Inr None, [], s)
      else do { (r, name, s') \<leftarrow> tmpfs_lookup_common root True path s; Some (map_sum id Some r, name, s') })"

definition tmpfs_file_resize :: "bool \<Rightarrow> nat \<Rightarrow> nat \<Rightarrow> tmp_heap \<Rightarrow> (unit result \<times> tmp_heap) option" where
  "tmpfs_file_resize al file new_size s = do {
     n \<leftarrow> th_inodes s file;
     if \<not> S_ISREG (ti_mode n) then None
     else if \<not> al then Some (Inl ENOMEM, s)
     else Some (Inr (), put_inode file (n\<lparr>ti_data := take new_size (ti_data n) @ replicate (new_size - ti_size n) 0, ti_size := new_size\<rparr>) s)
   }"

section \<open>Operations on the file system\<close>

definition tmpfs_mount :: "(nat \<Rightarrow> bool) \<Rightarrow> cred \<Rightarrow> tmp_heap \<Rightarrow> nat result \<times> tmp_heap" where
  "tmpfs_mount al cr s =
     (case tmp_inode_new al cr (S_IFDIR OR 0x1ff) s of
        (None, s1) \<Rightarrow> (Inl ENOMEM, s1)
      | (Some i, s1) \<Rightarrow>
          if \<not> al 2 then (Inl ENOMEM, s1\<lparr>th_inodes := (th_inodes s1)(i := None)\<rparr>)
          else let r = th_next s1 in (Inr r, (put_dirent r (tmp_dirent_init [] i 0 None) s1)\<lparr>th_next := r + 1\<rparr>))"

text \<open>The part of \<open>tmpfs_open\<close> that looks for the file in its directory and makes it if it is not there.\<close>

definition open_create ::
  "(nat \<Rightarrow> bool) \<Rightarrow> cred \<Rightarrow> nat \<Rightarrow> string \<Rightarrow> u32 \<Rightarrow> u32 \<Rightarrow> tmp_heap \<Rightarrow> (nat result \<times> tmp_heap) option" where
  "open_create al cr parent filename flags mode s = do {
     (dirent, s1) \<leftarrow> tmpfs_dir_lookup parent filename s;
     case dirent of
       Inr d \<Rightarrow> if tst flags 0x80 then do { s2 \<leftarrow> tmp_dirent_release d s1; Some (Inl EEXIST, s2) } else Some (Inr d, s1)
     | Inl e \<Rightarrow>
         if e \<noteq> ENOENT then Some (Inl e, s1)
         else (case tmp_inode_new al cr (S_IFREG OR mode) s1 of
           (None, s2) \<Rightarrow> None
         | (Some i, s2) \<Rightarrow> do {
             (r, s3) \<leftarrow> tmpfs_dir_link al True parent filename i s2;
             s4 \<leftarrow> tmp_inode_release i s3;
             case r of Inl e \<Rightarrow> None | Inr d \<Rightarrow> Some (Inr d, s4)
           })
   }"

definition open_dirent ::
  "(nat \<Rightarrow> bool) \<Rightarrow> cred \<Rightarrow> nat \<Rightarrow> string \<Rightarrow> u32 \<Rightarrow> u32 \<Rightarrow> tmp_heap \<Rightarrow> (nat result \<times> tmp_heap) option" where
  "open_dirent al cr root path flags mode s =
     (if tst flags 0x40 then do {
        (pr, filename, s1) \<leftarrow> tmpfs_lookup_parent root path s;
        case pr of
          Inl e \<Rightarrow> Some (Inl e, s1)
        | Inr None \<Rightarrow> None
        | Inr (Some parent) \<Rightarrow> do {
            (r, s2) \<leftarrow> open_create al cr parent filename flags mode s1;
            s3 \<leftarrow> tmp_dirent_release parent s2;
            Some (r, s3)
          }
      }
      else tmpfs_lookup root path s)"

definition tmpfs_open ::
  "(nat \<Rightarrow> bool) \<Rightarrow> cred \<Rightarrow> nat \<Rightarrow> string \<Rightarrow> u32 \<Rightarrow> u32 \<Rightarrow> tmp_heap \<Rightarrow> (tmp_fd result \<times> tmp_heap) option" where
  "tmpfs_open al cr root path flags mode s = do {
     (r, s1) \<leftarrow> open_dirent al cr root path flags mode s;
     case r of
       Inl e \<Rightarrow> Some (Inl e, s1)
     | Inr dirent \<Rightarrow>
         if \<not> al 3 then do { s2 \<leftarrow> tmp_dirent_release dirent s1; Some (Inl ENOMEM, s2) }
         else do {
           d \<leftarrow> th_dirents s1 dirent;
           let f = \<lparr>tfd_dirent = Some dirent, tfd_dir_pos = None, tfd_offset = 0\<rparr>;
           (f', s2) \<leftarrow> (case td_children d of [] \<Rightarrow> Some (f, s1) | c # _ \<Rightarrow> tmpfs_fd_seekdir (Some c) f s1);
           Some (Inr f', s2)
         }
   }"

definition inode_stat :: "tmp_inode \<Rightarrow> stat \<times> nat" where
  "inode_stat n = (\<lparr>st_mode = ti_mode n, st_uid = ti_uid n, st_gid = ti_gid n, st_inode = of_nat (ti_number n), st_rdev = 0\<rparr>, ti_size n)"

definition tmpfs_stat :: "nat \<Rightarrow> string \<Rightarrow> tmp_heap \<Rightarrow> ((stat \<times> nat) result \<times> tmp_heap) option" where
  "tmpfs_stat root path s = do {
     (r, s1) \<leftarrow> tmpfs_lookup root path s;
     case r of
       Inl e \<Rightarrow> Some (Inl e, s1)
     | Inr dirent \<Rightarrow> do {
         d \<leftarrow> th_dirents s1 dirent;
         n \<leftarrow> th_inodes s1 (td_inode d);
         s2 \<leftarrow> tmp_dirent_release dirent s1;
         Some (Inr (inode_stat n), s2)
       }
   }"

definition tmpfs_close :: "tmp_fd \<Rightarrow> tmp_heap \<Rightarrow> (tmp_fd \<times> tmp_heap) option" where
  "tmpfs_close f s = do {
     d \<leftarrow> tfd_dirent f;
     s' \<leftarrow> tmp_dirent_release d s;
     Some (f\<lparr>tfd_dirent := None\<rparr>, s')
   }"

text \<open>The part of \<open>tmpfs_mkdir\<close> that works on the parent.\<close>

definition mkdir_in :: "(nat \<Rightarrow> bool) \<Rightarrow> cred \<Rightarrow> nat \<Rightarrow> string \<Rightarrow> u32 \<Rightarrow> tmp_heap \<Rightarrow> (unit result \<times> tmp_heap) option" where
  "mkdir_in al cr parent filename mode s = do {
     (ex, s1) \<leftarrow> tmpfs_dir_lookup_existence parent filename s;
     case ex of
       Inl e \<Rightarrow> Some (Inl e, s1)
     | Inr _ \<Rightarrow> (case tmp_inode_new al cr (S_IFDIR OR mode) s1 of
         (None, s2) \<Rightarrow> Some (Inl ENOMEM, s2)
       | (Some i, s2) \<Rightarrow> do { (r, s3) \<leftarrow> tmpfs_dir_link al False parent filename i s2; Some (map_sum id (\<lambda>_. ()) r, s3) })
   }"

definition tmpfs_mkdir :: "(nat \<Rightarrow> bool) \<Rightarrow> cred \<Rightarrow> nat \<Rightarrow> string \<Rightarrow> u32 \<Rightarrow> tmp_heap \<Rightarrow> (unit result \<times> tmp_heap) option" where
  "tmpfs_mkdir al cr root path mode s = do {
     (pr, filename, s1) \<leftarrow> tmpfs_lookup_parent root path s;
     case pr of
       Inl e \<Rightarrow> Some (Inl e, s1)
     | Inr None \<Rightarrow> None
     | Inr (Some parent) \<Rightarrow> do {
         (r, s2) \<leftarrow> mkdir_in al cr parent filename mode s1;
         s3 \<leftarrow> tmp_dirent_release parent s2;
         Some (r, s3)
       }
   }"

section \<open>Operations on an open file\<close>

definition tmpfs_fd_inode :: "tmp_fd \<Rightarrow> tmp_heap \<Rightarrow> nat option" where
  "tmpfs_fd_inode f s = do { i \<leftarrow> tfd_dirent f; d \<leftarrow> th_dirents s i; Some (td_inode d) }"

text \<open>The buffer is filled from its end; \<open>p\<close> is the position reached. The entry never changes in the loop.\<close>

function getpath_loop :: "bool \<Rightarrow> string \<Rightarrow> nat \<Rightarrow> string \<Rightarrow> string result" where
  "getpath_loop at_root name p acc =
     (if at_root then Inr acc
      else if p < length name + 1 then Inl ENAMETOOLONG
      else getpath_loop at_root name (p - (length name + 1)) (''/'' @ name @ acc))"
  by pat_completeness auto
termination by (relation "measure (\<lambda>(at_root, name, p, acc). p)") auto

declare getpath_loop.simps [simp del]

definition tmpfs_getpath :: "nat \<Rightarrow> tmp_fd \<Rightarrow> tmp_heap \<Rightarrow> string result option" where
  "tmpfs_getpath root f s = do {
     i \<leftarrow> tfd_dirent f;
     d \<leftarrow> th_dirents s i;
     Some (getpath_loop (i = root) (td_name d) (MAX_PATH - 1) [])
   }"

definition tmpfs_fstat :: "tmp_fd \<Rightarrow> tmp_heap \<Rightarrow> (stat \<times> nat) option" where
  "tmpfs_fstat f s = do { i \<leftarrow> tmpfs_fd_inode f s; n \<leftarrow> th_inodes s i; Some (inode_stat n) }"

text \<open>A 64-bit signed offset as an unsigned number, and a copy of nothing, which touches no memory.\<close>

definition as_unsigned :: "int \<Rightarrow> nat" where "as_unsigned off = nat (off mod 2 ^ 64)"

definition read_at :: "u8 list \<Rightarrow> int \<Rightarrow> nat \<Rightarrow> u8 list option" where
  "read_at data off n = (if n = 0 then Some [] else if off < 0 then None else copy_from data (nat off) n)"

definition write_at :: "u8 list \<Rightarrow> int \<Rightarrow> u8 list \<Rightarrow> u8 list option" where
  "write_at data off xs = (if xs = [] then Some data else if off < 0 then None else copy_into data (nat off) xs)"

definition tmpfs_read :: "tmp_fd \<Rightarrow> nat \<Rightarrow> tmp_heap \<Rightarrow> (u8 list result \<times> tmp_fd) option" where
  "tmpfs_read f bufsize s = do {
     i \<leftarrow> tmpfs_fd_inode f s;
     n \<leftarrow> th_inodes s i;
     if S_ISDIR (ti_mode n) then Some (Inl EISDIR, f)
     else if \<not> S_ISREG (ti_mode n) then None
     else do {
       let left = szsub (ti_size n) (as_unsigned (tfd_offset f));
       let len = (if bufsize > left then (if as_unsigned (tfd_offset f) \<ge> ti_size n then 0 else left) else bufsize);
       xs \<leftarrow> read_at (ti_data n) (tfd_offset f) len;
       Some (Inr xs, f\<lparr>tfd_offset := tfd_offset f + int len\<rparr>)
     }
   }"

definition tmpfs_write :: "bool \<Rightarrow> tmp_fd \<Rightarrow> u8 list \<Rightarrow> tmp_heap \<Rightarrow> (nat result \<times> tmp_fd \<times> tmp_heap) option" where
  "tmpfs_write al f buf s = do {
     i \<leftarrow> tmpfs_fd_inode f s;
     n \<leftarrow> th_inodes s i;
     if S_ISDIR (ti_mode n) then Some (Inl EISDIR, f, s)
     else if \<not> S_ISREG (ti_mode n) then None
     else do {
       let end_pos = szadd (as_unsigned (tfd_offset f)) (length buf);
       (r, s1) \<leftarrow> (if ti_size n < end_pos then tmpfs_file_resize al i end_pos s else Some (Inr (), s));
       case r of
         Inl e \<Rightarrow> Some (Inl e, f, s1)
       | Inr _ \<Rightarrow> do {
           n1 \<leftarrow> th_inodes s1 i;
           data \<leftarrow> write_at (ti_data n1) (tfd_offset f) buf;
           Some (Inr (length buf), f\<lparr>tfd_offset := tfd_offset f + int (length buf)\<rparr>, put_inode i (n1\<lparr>ti_data := data\<rparr>) s1)
         }
     }
   }"

definition tmpfs_lseek :: "tmp_fd \<Rightarrow> int \<Rightarrow> lseek_whence \<Rightarrow> tmp_heap \<Rightarrow> (int result \<times> tmp_fd) option" where
  "tmpfs_lseek f off whence s = do {
     len \<leftarrow> (if whence = LSEEK_END then do { i \<leftarrow> tmpfs_fd_inode f s; n \<leftarrow> th_inodes s i; Some (ti_size n) } else Some 0);
     let (r, pos) = generic_seek (tfd_offset f) off whence len;
     Some (case r of Inl e \<Rightarrow> (Inl e, f) | Inr _ \<Rightarrow> (Inr pos, f\<lparr>tfd_offset := pos\<rparr>))
   }"

fun next_in :: "nat \<Rightarrow> nat list \<Rightarrow> nat option" where
  "next_in c [] = None"
| "next_in c (x # xs) = (if x = c then (case xs of [] \<Rightarrow> None | y # _ \<Rightarrow> Some y) else next_in c xs)"

text \<open>On something that is not a directory the code unlocks locks it has not taken.\<close>

definition tmpfs_readdir :: "tmp_fd \<Rightarrow> tmp_heap \<Rightarrow> ((nat \<times> string) option \<times> tmp_fd \<times> tmp_heap) option" where
  "tmpfs_readdir f s = do {
     p \<leftarrow> tfd_dirent f;
     mode \<leftarrow> dirent_mode p s;
     if \<not> S_ISDIR mode then None
     else case tfd_dir_pos f of
       None \<Rightarrow> Some (None, f, s)
     | Some c \<Rightarrow> do {
         pd \<leftarrow> th_dirents s p;
         (f', s') \<leftarrow> tmpfs_fd_seekdir (next_in c (td_children pd)) f s;
         d \<leftarrow> th_dirents s' c;
         n \<leftarrow> th_inodes s' (td_inode d);
         Some (Some (ti_number n, td_name d), f', s')
       }
   }"

definition tmpfs_telldir :: "tmp_fd \<Rightarrow> tmp_heap \<Rightarrow> nat option" where
  "tmpfs_telldir f s = (case tfd_dir_pos f of None \<Rightarrow> Some (2 ^ 64 - 1) | Some c \<Rightarrow> map_option td_index (th_dirents s c))"

fun child_at_index :: "nat \<Rightarrow> tmp_heap \<Rightarrow> nat list \<Rightarrow> nat option option" where
  "child_at_index ptr s [] = Some None"
| "child_at_index ptr s (c # cs) = do {
     d \<leftarrow> th_dirents s c;
     if td_index d \<ge> ptr then Some (Some c) else child_at_index ptr s cs
   }"

definition tmpfs_seekdir :: "nat \<Rightarrow> tmp_fd \<Rightarrow> tmp_heap \<Rightarrow> (tmp_fd \<times> tmp_heap) option" where
  "tmpfs_seekdir ptr f s = do {
     p \<leftarrow> tfd_dirent f;
     mode \<leftarrow> dirent_mode p s;
     if \<not> S_ISDIR mode then None
     else do {
       d \<leftarrow> th_dirents s p;
       child \<leftarrow> child_at_index ptr s (td_children d);
       tmpfs_fd_seekdir child f s
     }
   }"

end
