(* ===== verification/Tmpfs_Props.thy ===== *)
theory Tmpfs_Props
  imports Tmpfs
begin

text \<open>
  The temporary file system as a tree: the invariant of the heap of entries and inodes, path lookup against a walk
  along lists of names, and what creating a directory does to the tree.
\<close>

section \<open>The invariant\<close>

text \<open>\<open>H i\<close> counts the references that open files and running operations hold on entry \<open>i\<close>, besides its place in the tree.\<close>

definition dirent_ok :: "(nat \<Rightarrow> nat) \<Rightarrow> tmp_heap \<Rightarrow> nat \<Rightarrow> tmp_dirent \<Rightarrow> bool" where
  "dirent_ok H s i d \<longleftrightarrow> i < th_next s \<and> H i < td_refcount d \<and> th_inodes s (td_inode d) \<noteq> None \<and> distinct (td_children d)
     \<and> inj_on (\<lambda>c. map_option td_name (th_dirents s c)) (set (td_children d))
     \<and> (\<forall>c \<in> set (td_children d). \<exists>e. th_dirents s c = Some e \<and> td_parent e = Some i)"

definition tmp_ok :: "(nat \<Rightarrow> nat) \<Rightarrow> nat \<Rightarrow> tmp_heap \<Rightarrow> bool" where
  "tmp_ok H root s \<longleftrightarrow> (\<exists>r. th_dirents s root = Some r \<and> td_parent r = None)
     \<and> (\<forall>i d. th_dirents s i = Some d \<longrightarrow> dirent_ok H s i d)
     \<and> (\<forall>i n. th_inodes s i = Some n \<longrightarrow> i < th_next s \<and> 0 < ti_refcount n \<and> length (ti_data n) = ti_size n)
     \<and> (\<forall>i. th_dirents s i = None \<longrightarrow> H i = 0)"

lemma tmp_okD:
  assumes "tmp_ok H root s"
  shows "\<exists>r. th_dirents s root = Some r \<and> td_parent r = None" "th_dirents s i = Some d \<Longrightarrow> dirent_ok H s i d"
    "th_inodes s i = Some n \<Longrightarrow> i < th_next s \<and> 0 < ti_refcount n \<and> length (ti_data n) = ti_size n"
    "th_dirents s i = None \<Longrightarrow> H i = 0"
  using assms by (auto simp: tmp_ok_def)

lemma put_dirent_fields [simp]:
  "th_dirents (put_dirent i d s) = (th_dirents s)(i \<mapsto> d)" "th_inodes (put_dirent i d s) = th_inodes s"
  "th_next (put_dirent i d s) = th_next s" "th_next_inode (put_dirent i d s) = th_next_inode s"
  "th_inodes (put_inode i n s) = (th_inodes s)(i \<mapsto> n)" "th_dirents (put_inode i n s) = th_dirents s"
  "th_next (put_inode i n s) = th_next s" "th_next_inode (put_inode i n s) = th_next_inode s"
  by (simp_all add: put_dirent_def put_inode_def)

text \<open>One reference more or less; a reference that moves from an entry to the result of a lookup.\<close>

definition add_ref :: "(nat \<Rightarrow> nat) \<Rightarrow> nat \<Rightarrow> nat \<Rightarrow> nat" where "add_ref H i = H(i := H i + 1)"
definition drop_ref :: "(nat \<Rightarrow> nat) \<Rightarrow> nat \<Rightarrow> nat \<Rightarrow> nat" where "drop_ref H i = H(i := H i - 1)"

definition move_ref :: "(nat \<Rightarrow> nat) \<Rightarrow> nat \<Rightarrow> nat result \<Rightarrow> nat \<Rightarrow> nat" where
  "move_ref H i r = (case r of Inl _ \<Rightarrow> drop_ref H i | Inr c \<Rightarrow> add_ref (drop_ref H i) c)"

lemma add_drop [simp]: "drop_ref (add_ref H c) c = H" "0 < H i \<Longrightarrow> add_ref (drop_ref H i) i = H"
  "0 < add_ref H c c" "0 < H i \<Longrightarrow> 0 < add_ref H c i"
  by (auto simp: add_ref_def drop_ref_def fun_eq_iff)

lemma add_drop_swap: "0 < H i \<Longrightarrow> drop_ref (add_ref H c) i = add_ref (drop_ref H i) c"
  by (auto simp: add_ref_def drop_ref_def fun_eq_iff)

lemma move_ref_simps [simp]: "move_ref H i (Inl e) = drop_ref H i" "move_ref H i (Inr c) = add_ref (drop_ref H i) c"
  by (simp_all add: move_ref_def)

lemma move_ref_step: "move_ref (add_ref (drop_ref H i) c) c r = move_ref H i r"
  by (cases r) simp_all

text \<open>Heaps that differ in reference counts only.\<close>

definition same_tree :: "tmp_heap \<Rightarrow> tmp_heap \<Rightarrow> bool" where
  "same_tree s s' \<longleftrightarrow>
     (\<forall>i. map_option (td_refcount_update (\<lambda>_. 0)) (th_dirents s' i) = map_option (td_refcount_update (\<lambda>_. 0)) (th_dirents s i))
     \<and> th_inodes s' = th_inodes s \<and> th_next s' = th_next s \<and> th_next_inode s' = th_next_inode s"

lemma same_tree_refl [simp]: "same_tree s s" by (simp add: same_tree_def)

lemma same_tree_trans: "same_tree s s' \<Longrightarrow> same_tree s' s'' \<Longrightarrow> same_tree s s''" by (simp add: same_tree_def)

lemma same_tree_dirent:
  assumes "same_tree s s'"
  shows "th_dirents s i = None \<longleftrightarrow> th_dirents s' i = None"
    "th_dirents s i = Some d \<Longrightarrow> \<exists>k. th_dirents s' i = Some (d\<lparr>td_refcount := k\<rparr>)"
proof -
  have e: "map_option (td_refcount_update (\<lambda>_. 0)) (th_dirents s' i) = map_option (td_refcount_update (\<lambda>_. 0)) (th_dirents s i)"
    using assms by (simp add: same_tree_def)
  then show "th_dirents s i = None \<longleftrightarrow> th_dirents s' i = None" by (metis option.map_disc_iff)
  assume d: "th_dirents s i = Some d"
  then obtain d' where d': "th_dirents s' i = Some d'" "d'\<lparr>td_refcount := 0\<rparr> = d\<lparr>td_refcount := 0\<rparr>" using e by auto
  have "d' = d\<lparr>td_refcount := td_refcount d'\<rparr>" using d'(2) by (cases d; cases d') simp
  then show "\<exists>k. th_dirents s' i = Some (d\<lparr>td_refcount := k\<rparr>)" using d'(1) by (metis option.sel)
qed

lemma same_tree_view:
  assumes "same_tree s s'"
  shows "map_option td_name (th_dirents s' i) = map_option td_name (th_dirents s i)"
    "map_option td_children (th_dirents s' i) = map_option td_children (th_dirents s i)"
    "map_option td_parent (th_dirents s' i) = map_option td_parent (th_dirents s i)"
    "map_option td_inode (th_dirents s' i) = map_option td_inode (th_dirents s i)"
  using same_tree_dirent [OF assms, of i] by (cases "th_dirents s i"; fastforce)+

lemma same_tree_ok:
  assumes "tmp_ok H root s" "same_tree s s'" "\<And>i d. th_dirents s' i = Some d \<Longrightarrow> H' i < td_refcount d"
    "\<And>i. th_dirents s' i = None \<Longrightarrow> H' i = 0"
  shows "tmp_ok H' root s'"
proof -
  note v = same_tree_view [OF assms(2)]
  have "dirent_ok H' s' i d'" if d': "th_dirents s' i = Some d'" for i d'
  proof -
    obtain d where d: "th_dirents s i = Some d" using same_tree_dirent(1) [OF assms(2), of i] d' by (cases "th_dirents s i") auto
    then obtain k where k: "d' = d\<lparr>td_refcount := k\<rparr>" using same_tree_dirent(2) [OF assms(2) d] d' by auto
    have ok: "dirent_ok H s i d" by (rule tmp_okD(2) [OF assms(1) d])
    have "\<exists>e. th_dirents s' c = Some e \<and> td_parent e = Some i" if "c \<in> set (td_children d)" for c
    proof -
      obtain e where "th_dirents s c = Some e" "td_parent e = Some i" using ok \<open>c \<in> _\<close> by (auto simp: dirent_ok_def)
      then show ?thesis using v(3) [of c] by (cases "th_dirents s' c") auto
    qed
    then show ?thesis
      using ok k assms(2) assms(3) [OF d'] by (auto simp: dirent_ok_def v(1) same_tree_def)
  qed
  moreover have "\<exists>r. th_dirents s' root = Some r \<and> td_parent r = None"
    using tmp_okD(1) [OF assms(1)] v(3) [of root] by (cases "th_dirents s' root") auto
  ultimately show ?thesis using tmp_okD(3) [OF assms(1)] assms(2,4) by (auto simp: tmp_ok_def same_tree_def)
qed

lemma tmp_ok_refs: "tmp_ok H root s \<Longrightarrow> th_dirents s i = Some d \<Longrightarrow> H i < td_refcount d"
  by (drule (1) tmp_okD(2)) (simp add: dirent_ok_def)

lemma dirent_retain_ok:
  assumes "tmp_ok H root s" "th_dirents s i = Some d"
  shows "\<exists>s'. tmp_dirent_retain i s = Some s' \<and> same_tree s s' \<and> tmp_ok (add_ref H i) root s'"
proof -
  let ?s = "put_dirent i (d\<lparr>td_refcount := td_refcount d + 1\<rparr>) s"
  have st: "same_tree s ?s" using assms(2) by (simp add: same_tree_def)
  moreover have "tmp_ok (add_ref H i) root ?s"
    by (rule same_tree_ok [OF assms(1) st]) (use tmp_ok_refs [OF assms(1)] tmp_okD(4) [OF assms(1)] assms(2) in \<open>auto simp: add_ref_def drop_ref_def split: if_splits\<close>)
  ultimately show ?thesis using assms(2) by (simp add: tmp_dirent_retain_def)
qed

lemma dirent_release_ok:
  assumes "tmp_ok H root s" "0 < H i" "th_dirents s i \<noteq> None"
  shows "\<exists>s'. tmp_dirent_release i s = Some s' \<and> same_tree s s' \<and> tmp_ok (drop_ref H i) root s'"
proof -
  obtain d where d: "th_dirents s i = Some d" using assms(3) by blast
  let ?s = "put_dirent i (d\<lparr>td_refcount := td_refcount d - 1\<rparr>) s"
  have r: "H i < td_refcount d" by (rule tmp_ok_refs [OF assms(1) d])
  have st: "same_tree s ?s" using d by (simp add: same_tree_def)
  moreover have "tmp_ok (drop_ref H i) root ?s"
    by (rule same_tree_ok [OF assms(1) st]) (use tmp_ok_refs [OF assms(1)] tmp_okD(4) [OF assms(1)] d r assms(2) diff_less_mono [OF r, of 1] in \<open>auto simp: add_ref_def drop_ref_def split: if_splits\<close>)
  ultimately show ?thesis using d r assms(2) by (simp add: tmp_dirent_release_def Let_def)
qed

section \<open>Walks\<close>

definition is_dir :: "tmp_heap \<Rightarrow> nat \<Rightarrow> bool" where
  "is_dir s i = (case dirent_mode i s of None \<Rightarrow> False | Some m \<Rightarrow> S_ISDIR m)"

definition children :: "tmp_heap \<Rightarrow> nat \<Rightarrow> nat list" where
  "children s i = (case th_dirents s i of None \<Rightarrow> [] | Some d \<Rightarrow> td_children d)"

definition name_of :: "tmp_heap \<Rightarrow> nat \<Rightarrow> string" where
  "name_of s i = (case th_dirents s i of None \<Rightarrow> [] | Some d \<Rightarrow> td_name d)"

definition child :: "tmp_heap \<Rightarrow> nat \<Rightarrow> string \<Rightarrow> nat option" where
  "child s i w = find (\<lambda>c. name_of s c = w) (children s i)"

fun walk :: "tmp_heap \<Rightarrow> nat \<Rightarrow> string list \<Rightarrow> nat result" where
  "walk s i [] = Inr i"
| "walk s i (w # ws) =
     (if \<not> is_dir s i then Inl ENOTDIR else case child s i w of None \<Rightarrow> Inl ENOENT | Some c \<Rightarrow> walk s c ws)"

lemma same_tree_walk:
  assumes "same_tree s s'"
  shows "is_dir s' i = is_dir s i" "children s' i = children s i" "name_of s' i = name_of s i" "child s' i w = child s i w" "walk s' i ws = walk s i ws"
proof -
  have d: "is_dir s' i = is_dir s i" "children s' i = children s i" "name_of s' i = name_of s i" for i
    using same_tree_dirent [OF assms, of i] assms
    by (cases "th_dirents s i"; fastforce simp: is_dir_def dirent_mode_def children_def name_of_def same_tree_def)+
  then have c: "child s' i w = child s i w" for i w by (simp add: child_def)
  show "is_dir s' i = is_dir s i" "children s' i = children s i" "name_of s' i = name_of s i" "child s' i w = child s i w" using d c by simp_all
  show "walk s' i ws = walk s i ws" by (induction ws arbitrary: i) (auto simp: d c split: option.splits)
qed

lemma find_child_find:
  assumes "\<forall>c \<in> set cs. th_dirents s c \<noteq> None"
  shows "find_child w s cs = Some (find (\<lambda>c. name_of s c = w) cs)"
  using assms by (induction cs) (auto simp: name_of_def)

lemma ok_mode: "tmp_ok H root s \<Longrightarrow> th_dirents s i = Some d \<Longrightarrow> \<exists>m. dirent_mode i s = Some m"
  by (drule (1) tmp_okD(2)) (auto simp: dirent_ok_def dirent_mode_def)

lemma ok_child:
  assumes "tmp_ok H root s" "c \<in> set (children s i)"
  shows "\<exists>e. th_dirents s c = Some e \<and> td_parent e = Some i"
  using assms(2) tmp_okD(2) [OF assms(1), of i] by (cases "th_dirents s i") (auto simp: children_def dirent_ok_def)

lemma child_in: "child s i w = Some c \<Longrightarrow> c \<in> set (children s i) \<and> name_of s c = w"
  by (auto simp: child_def find_Some_iff)

lemma dir_lookup_ok:
  assumes "tmp_ok H root s" "th_dirents s i = Some d"
  shows "\<exists>s'. tmpfs_dir_lookup i w s = Some ((if \<not> is_dir s i then Inl ENOTDIR else case child s i w of None \<Rightarrow> Inl ENOENT | Some c \<Rightarrow> Inr c), s')
    \<and> same_tree s s' \<and> tmp_ok (if is_dir s i then case child s i w of None \<Rightarrow> H | Some c \<Rightarrow> add_ref H c else H) root s'"
proof -
  obtain m where m: "dirent_mode i s = Some m" using ok_mode [OF assms] by blast
  show ?thesis
  proof (cases "S_ISDIR m")
    case False
    then show ?thesis using m assms(1) by (simp add: tmpfs_dir_lookup_def is_dir_def)
  next
    case True
    have "\<forall>c \<in> set (td_children d). th_dirents s c \<noteq> None" using tmp_okD(2) [OF assms] by (auto simp: dirent_ok_def)
    then have f: "find_child w s (td_children d) = Some (child s i w)"
      using assms(2) by (simp add: find_child_find child_def children_def)
    show ?thesis
    proof (cases "child s i w")
      case None
      then show ?thesis using True m f assms by (simp add: tmpfs_dir_lookup_def is_dir_def)
    next
      case (Some c)
      obtain e where "th_dirents s c = Some e" using ok_child [OF assms(1)] child_in [OF Some] by blast
      from dirent_retain_ok [OF assms(1) this] show ?thesis using True m f Some assms(2) by (auto simp: tmpfs_dir_lookup_def is_dir_def)
    qed
  qed
qed

section \<open>Paths\<close>

definition good_name :: "string \<Rightarrow> bool" where "good_name w \<longleftrightarrow> slash \<notin> set w \<and> length w < MAX_NAME"

definition join :: "string list \<Rightarrow> string" where "join ws = concat (map (\<lambda>w. slash # w) ws)"

lemma names_join_simps [simp]: "join [] = []" "join (w # ws) = slash # w @ join ws"
  by (simp_all add: join_def)

lemma join_eq_Nil [simp]: "join ws = [] \<longleftrightarrow> ws = []"
  by (cases ws) simp_all

lemma take_component_good:
  assumes "slash \<notin> set w" "k + length w < MAX_NAME" "p = [] \<or> hd p = slash"
  shows "take_component acc k (w @ p) = Component (rev acc @ w) p"
  using assms
proof (induction w arbitrary: acc k)
  case Nil
  then show ?case by (cases p) auto
qed auto

lemma next_component_join:
  assumes "good_name w"
  shows "path_next_component (join (w # ws)) = Some (Component w (join ws))"
  using assms take_component_good [of w 0 "join ws" "[]"] by (cases ws) (auto simp: path_next_component_def good_name_def)

lemma lookup_step:
  assumes "tmp_ok H root s" "th_dirents s i \<noteq> None" "0 < H i"
  shows "\<exists>s1 s2. tmpfs_dir_lookup i w s = Some ((if \<not> is_dir s i then Inl ENOTDIR else case child s i w of None \<Rightarrow> Inl ENOENT | Some c \<Rightarrow> Inr c), s1)
    \<and> tmp_dirent_release i s1 = Some s2 \<and> same_tree s s2
    \<and> (case (if is_dir s i then child s i w else None) of
         None \<Rightarrow> tmp_ok (drop_ref H i) root s2
       | Some c \<Rightarrow> th_dirents s2 c \<noteq> None \<and> tmp_ok (add_ref (drop_ref H i) c) root s2)"
proof -
  obtain d where d: "th_dirents s i = Some d" using assms(2) by blast
  define co where "co = (if is_dir s i then child s i w else None)"
  define H1 where "H1 = (case co of None \<Rightarrow> H | Some c \<Rightarrow> add_ref H c)"
  obtain s1 where s1: "tmpfs_dir_lookup i w s = Some ((if \<not> is_dir s i then Inl ENOTDIR else case child s i w of None \<Rightarrow> Inl ENOENT | Some c \<Rightarrow> Inr c), s1)"
      "same_tree s s1" "tmp_ok H1 root s1"
    using dir_lookup_ok [OF assms(1) d, of w] by (auto simp: H1_def co_def split: if_splits)
  have "0 < H1 i" using assms(3) by (auto simp: H1_def split: option.splits)
  moreover have "th_dirents s1 i \<noteq> None" using same_tree_dirent(1) [OF s1(2), of i] assms(2) by simp
  ultimately obtain s2 where s2: "tmp_dirent_release i s1 = Some s2" "same_tree s1 s2" "tmp_ok (drop_ref H1 i) root s2"
    using dirent_release_ok [OF s1(3)] by blast
  have st: "same_tree s s2" by (rule same_tree_trans [OF s1(2) s2(2)])
  have "th_dirents s2 c \<noteq> None" if "co = Some c" for c
  proof -
    have "child s i w = Some c" using that by (simp add: co_def split: if_splits)
    then have "th_dirents s c \<noteq> None" using ok_child [OF assms(1)] child_in by fastforce
    then show ?thesis using same_tree_dirent(1) [OF st, of c] by simp
  qed
  then have "case co of None \<Rightarrow> tmp_ok (drop_ref H i) root s2
      | Some c \<Rightarrow> th_dirents s2 c \<noteq> None \<and> tmp_ok (add_ref (drop_ref H i) c) root s2"
    using s2(3) assms(3) by (cases co) (simp_all add: H1_def add_drop_swap)
  then show ?thesis using s1(1) s2(1) st unfolding co_def by blast
qed

lemma lookup_loop_ok:
  assumes "tmp_ok H root s" "th_dirents s i \<noteq> None" "0 < H i" "\<forall>w \<in> set ws. good_name w"
  shows "\<exists>cmp' s'. lookup_loop False cmp (join ws) i s = Some (walk s i ws, cmp', s') \<and> same_tree s s'
    \<and> tmp_ok (move_ref H i (walk s i ws)) root s'"
  using assms
proof (induction ws arbitrary: H s i cmp)
  case Nil
  then show ?case by (simp add: lookup_loop.simps path_next_component_def)
next
  case (Cons w ws)
  obtain s1 s2 where l: "tmpfs_dir_lookup i w s = Some ((if \<not> is_dir s i then Inl ENOTDIR else case child s i w of None \<Rightarrow> Inl ENOENT | Some c \<Rightarrow> Inr c), s1)"
      "tmp_dirent_release i s1 = Some s2" "same_tree s s2"
      "case (if is_dir s i then child s i w else None) of None \<Rightarrow> tmp_ok (drop_ref H i) root s2
       | Some c \<Rightarrow> th_dirents s2 c \<noteq> None \<and> tmp_ok (add_ref (drop_ref H i) c) root s2"
    using lookup_step [OF Cons.prems(1-3), of w] by blast
  have nc: "path_next_component (slash # w @ join ws) = Some (Component w (join ws))"
    using next_component_join [of w ws] Cons.prems(4) by simp
  show ?case
  proof (cases "if is_dir s i then child s i w else None")
    case None
    then show ?thesis using l nc by (cases "is_dir s i") (simp_all add: lookup_loop.simps [of _ _ "slash # _"])
  next
    case (Some c)
    then have c: "is_dir s i" "child s i w = Some c" by (simp_all split: if_splits)
    have h: "th_dirents s2 c \<noteq> None" "tmp_ok (add_ref (drop_ref H i) c) root s2" using l(4) Some by simp_all
    have "\<forall>w \<in> set ws. good_name w" using Cons.prems(4) by simp
    from Cons.IH [OF h(2,1) _ this, of w] obtain cmp' s' where s':
      "lookup_loop False w (join ws) c s2 = Some (walk s c ws, cmp', s')" "same_tree s2 s'" "tmp_ok (move_ref H i (walk s c ws)) root s'"
      unfolding same_tree_walk(5) [OF l(3)] move_ref_step by auto
    then show ?thesis
      using l(1,2) c nc same_tree_trans [OF l(3) s'(2)] by (auto simp: lookup_loop.simps [of _ _ "slash # _"])
  qed
qed

text \<open>The lookup of the parent walks all names but the last and returns that one.\<close>

lemma lookup_parent_loop_ok:
  assumes "tmp_ok H root s" "th_dirents s i \<noteq> None" "0 < H i" "\<forall>w \<in> set ws. good_name w" "ws \<noteq> []"
  shows "\<exists>cmp' s'. lookup_loop True cmp (join ws) i s = Some (walk s i (butlast ws), cmp', s') \<and> same_tree s s'
    \<and> ((\<exists>c. walk s i (butlast ws) = Inr c) \<longrightarrow> cmp' = last ws) \<and> tmp_ok (move_ref H i (walk s i (butlast ws))) root s'"
  using assms
proof (induction ws arbitrary: H s i cmp)
  case (Cons w ws)
  have nc: "path_next_component (slash # w @ join ws) = Some (Component w (join ws))"
    using next_component_join [of w ws] Cons.prems(4) by simp
  show ?case
  proof (cases "ws = []")
    case True
    then show ?thesis using Cons.prems(1,3) nc by (simp add: lookup_loop.simps [of _ _ "slash # _"])
  next
    case False
    obtain s1 s2 where l: "tmpfs_dir_lookup i w s = Some ((if \<not> is_dir s i then Inl ENOTDIR else case child s i w of None \<Rightarrow> Inl ENOENT | Some c \<Rightarrow> Inr c), s1)"
        "tmp_dirent_release i s1 = Some s2" "same_tree s s2"
        "case (if is_dir s i then child s i w else None) of None \<Rightarrow> tmp_ok (drop_ref H i) root s2
         | Some c \<Rightarrow> th_dirents s2 c \<noteq> None \<and> tmp_ok (add_ref (drop_ref H i) c) root s2"
      using lookup_step [OF Cons.prems(1-3), of w] by blast
    show ?thesis
    proof (cases "if is_dir s i then child s i w else None")
      case None
      then show ?thesis using l nc False by (cases "is_dir s i") (simp_all add: lookup_loop.simps [of _ _ "slash # _"])
    next
      case (Some c)
      then have c: "is_dir s i" "child s i w = Some c" by (simp_all split: if_splits)
      have h: "th_dirents s2 c \<noteq> None" "tmp_ok (add_ref (drop_ref H i) c) root s2" using l(4) Some by simp_all
      have "\<forall>w \<in> set ws. good_name w" using Cons.prems(4) by simp
      from Cons.IH [OF h(2,1) _ this False, of w] obtain cmp' s' where s':
        "lookup_loop True w (join ws) c s2 = Some (walk s c (butlast ws), cmp', s')" "same_tree s2 s'"
        "(\<exists>c'. walk s c (butlast ws) = Inr c') \<longrightarrow> cmp' = last ws" "tmp_ok (move_ref H i (walk s c (butlast ws))) root s'"
        unfolding same_tree_walk(5) [OF l(3)] move_ref_step by auto
      then show ?thesis
        using l(1,2) c nc False same_tree_trans [OF l(3) s'(2)] by (auto simp: lookup_loop.simps [of _ _ "slash # _"])
    qed
  qed
qed simp

end
