(* ===== verification/Tmpfs_Tree.thy ===== *)
theory Tmpfs_Tree
  imports Tmpfs_Props
begin

text \<open>How the tree grows: creating directories and files in the temporary file system.\<close>

section \<open>Paths are unique\<close>

lemma walk_append: "walk s i (us @ vs) = (case walk s i us of Inl e \<Rightarrow> Inl e | Inr j \<Rightarrow> walk s j vs)"
  by (induction us arbitrary: i) (auto split: option.splits)

lemma walk_last:
  assumes "tmp_ok H root s" "walk s i (us @ [w]) = Inr c"
  shows "\<exists>j e. walk s i us = Inr j \<and> is_dir s j \<and> child s j w = Some c \<and> th_dirents s c = Some e \<and> td_parent e = Some j \<and> td_name e = w"
proof -
  obtain j where j: "walk s i us = Inr j" "is_dir s j" "child s j w = Some c"
    using assms(2) by (auto simp: walk_append split: sum.splits option.splits if_splits)
  from child_in [OF j(3)] ok_child [OF assms(1)] obtain e where "th_dirents s c = Some e" "td_parent e = Some j" "name_of s c = w" by blast
  then show ?thesis using j by (auto simp: name_of_def)
qed

lemma walk_unique:
  assumes "tmp_ok H root s" "walk s root us = Inr i" "walk s root vs = Inr i"
  shows "us = vs"
  using assms(2,3)
proof (induction us arbitrary: i vs rule: rev_induct)
  case Nil
  show ?case
  proof (cases vs rule: rev_cases)
    case (snoc vs' v)
    then show ?thesis using walk_last [OF assms(1)] Nil tmp_okD(1) [OF assms(1)] by fastforce
  qed simp
next
  case (snoc w us)
  obtain j e where j: "walk s root us = Inr j" "th_dirents s i = Some e" "td_parent e = Some j" "td_name e = w"
    using walk_last [OF assms(1) snoc.prems(1)] by blast
  show ?case
  proof (cases vs rule: rev_cases)
    case Nil
    then show ?thesis using snoc.prems(2) j tmp_okD(1) [OF assms(1)] by auto
  next
    case (snoc vs' v)
    obtain j' e' where "walk s root vs' = Inr j'" "th_dirents s i = Some e'" "td_parent e' = Some j'" "td_name e' = v"
      using walk_last [OF assms(1)] snoc.prems(2) snoc by blast
    then show ?thesis using j snoc.IH [OF j(1)] snoc by simp
  qed
qed

lemma walk_exists:
  assumes "tmp_ok H root s" "th_dirents s i \<noteq> None" "walk s i ws = Inr c"
  shows "th_dirents s c \<noteq> None"
  using assms(2,3) by (induction ws arbitrary: i) (use ok_child [OF assms(1)] child_in in \<open>fastforce split: if_splits option.splits\<close>)+

section \<open>A lookup from the root\<close>

definition hold :: "(nat \<Rightarrow> nat) \<Rightarrow> nat result \<Rightarrow> nat \<Rightarrow> nat" where
  "hold H r = (case r of Inl _ \<Rightarrow> H | Inr c \<Rightarrow> add_ref H c)"

lemma hold_move: "move_ref (add_ref H root) root r = hold H r"
  by (cases r) (simp_all add: hold_def)

lemma tmpfs_lookup_ok:
  assumes "tmp_ok H root s" "\<forall>w \<in> set ws. good_name w"
  shows "\<exists>s'. tmpfs_lookup root (join ws) s = Some (walk s root ws, s') \<and> same_tree s s' \<and> tmp_ok (hold H (walk s root ws)) root s'"
proof -
  obtain r where "th_dirents s root = Some r" using tmp_okD(1) [OF assms(1)] by blast
  from dirent_retain_ok [OF assms(1) this] obtain s1 where s1: "tmp_dirent_retain root s = Some s1" "same_tree s s1" "tmp_ok (add_ref H root) root s1" by blast
  have "th_dirents s1 root \<noteq> None" using tmp_okD(1) [OF s1(3)] by auto
  from lookup_loop_ok [OF s1(3) this add_drop(3) assms(2), of "[]"] obtain c s' where
    "lookup_loop False [] (join ws) root s1 = Some (walk s root ws, c, s')" "same_tree s1 s'" "tmp_ok (hold H (walk s root ws)) root s'"
    unfolding hold_move same_tree_walk(5) [OF s1(2)] by blast
  then show ?thesis using s1(1) same_tree_trans [OF s1(2)] by (auto simp: tmpfs_lookup_def tmpfs_lookup_common_def)
qed

lemma join_not_root: "ws \<noteq> [] \<Longrightarrow> \<forall>w \<in> set ws. w \<noteq> [] \<Longrightarrow> join ws \<noteq> ''/''"
  by (cases ws) auto

lemma tmpfs_lookup_parent_ok:
  assumes "tmp_ok H root s" "\<forall>w \<in> set ws. good_name w" "ws \<noteq> []" "join ws \<noteq> ''/''"
  shows "\<exists>w s'. tmpfs_lookup_parent root (join ws) s = Some (map_sum id Some (walk s root (butlast ws)), w, s') \<and> same_tree s s'
    \<and> ((\<exists>p. walk s root (butlast ws) = Inr p) \<longrightarrow> w = last ws) \<and> tmp_ok (hold H (walk s root (butlast ws))) root s'"
proof -
  obtain r where "th_dirents s root = Some r" using tmp_okD(1) [OF assms(1)] by blast
  from dirent_retain_ok [OF assms(1) this] obtain s1 where s1: "tmp_dirent_retain root s = Some s1" "same_tree s s1" "tmp_ok (add_ref H root) root s1" by blast
  have "th_dirents s1 root \<noteq> None" using tmp_okD(1) [OF s1(3)] by auto
  from lookup_parent_loop_ok [OF s1(3) this add_drop(3) assms(2,3), of "[]"] obtain w s' where
    "lookup_loop True [] (join ws) root s1 = Some (walk s root (butlast ws), w, s')" "same_tree s1 s'"
    "(\<exists>c. walk s root (butlast ws) = Inr c) \<longrightarrow> w = last ws" "tmp_ok (hold H (walk s root (butlast ws))) root s'"
    unfolding hold_move same_tree_walk(5) [OF s1(2)] by blast
  then show ?thesis using s1(1) same_tree_trans [OF s1(2)] assms(4) by (auto simp: tmpfs_lookup_parent_def tmpfs_lookup_common_def)
qed

section \<open>A new entry\<close>

lemma ex_list: "(\<exists>ps. Q ps) \<longleftrightarrow> Q [] \<or> (\<exists>p ps. Q (p # ps))"
  by (metis list.exhaust)

text \<open>The walks after an entry \<open>n\<close> named \<open>w\<close> has been added to directory \<open>dir\<close>.\<close>

lemma walk_grown:
  assumes "n \<noteq> dir" "is_dir s dir" "child s dir w = None"
    "\<And>i. i \<noteq> n \<Longrightarrow> is_dir s' i = is_dir s i" "\<And>i v. i \<noteq> n \<Longrightarrow> i \<noteq> dir \<Longrightarrow> child s' i v = child s i v"
    "\<And>v. child s' dir v = (if v = w then Some n else child s dir v)" "\<And>v. child s' n v = None"
    "\<And>i v. child s i v \<noteq> Some n" "j \<noteq> n"
  shows "walk s' j vs = (case walk s j vs of
      Inr i \<Rightarrow> Inr i
    | Inl e \<Rightarrow> if \<exists>ps. vs = ps @ [w] \<and> walk s j ps = Inr dir then Inr n
               else if \<exists>ps zs. zs \<noteq> [] \<and> vs = ps @ w # zs \<and> walk s j ps = Inr dir then Inl (if is_dir s' n then ENOENT else ENOTDIR)
               else Inl e)"
  using assms(9)
proof (induction vs arbitrary: j)
  case (Cons v vs)
  have d: "is_dir s' j = is_dir s j" using assms(4) Cons.prems by blast
  have split1: "(\<exists>ps. v # vs = ps @ [w] \<and> walk s j ps = Inr dir) \<longleftrightarrow>
      (v = w \<and> vs = [] \<and> j = dir) \<or> (is_dir s j \<and> (\<exists>c. child s j v = Some c \<and> (\<exists>ps. vs = ps @ [w] \<and> walk s c ps = Inr dir)))"
    by (subst ex_list) (auto split: option.splits if_splits)
  have split2: "(\<exists>ps zs. zs \<noteq> [] \<and> v # vs = ps @ w # zs \<and> walk s j ps = Inr dir) \<longleftrightarrow>
      (v = w \<and> vs \<noteq> [] \<and> j = dir) \<or> (is_dir s j \<and> (\<exists>c. child s j v = Some c \<and> (\<exists>ps zs. zs \<noteq> [] \<and> vs = ps @ w # zs \<and> walk s c ps = Inr dir)))"
    by (subst ex_list; cases "is_dir s j"; cases "child s j v"; simp) blast+
  show ?case
  proof (cases "is_dir s j")
    case False
    then show ?thesis unfolding split1 split2 using d assms(2) by auto
  next
    case True
    show ?thesis
    proof (cases "child s j v")
      case None
      show ?thesis
      proof (cases "j = dir \<and> v = w")
        case True
        then have "walk s' j (v # vs) = walk s' n vs" using d assms(2,6) by simp
        moreover have "walk s' n vs = (if vs = [] then Inr n else Inl (if is_dir s' n then ENOENT else ENOTDIR))"
          using assms(7) by (cases vs) simp_all
        ultimately show ?thesis unfolding split1 split2 using None True d assms(2) by auto
      next
        case False
        then have "child s' j v = None" using None assms(5,6) Cons.prems by (cases "j = dir") auto
        then show ?thesis unfolding split1 split2 using None False d \<open>is_dir s j\<close> by auto
      qed
    next
      case (Some c)
      have c: "c \<noteq> n" using assms(8) Some by blast
      have "child s' j v = Some c" using Some assms(3,5,6) Cons.prems by (cases "j = dir") auto
      moreover have "\<not> (j = dir \<and> v = w)" using Some assms(3) by auto
      ultimately show ?thesis unfolding split1 split2 using Some True d Cons.IH [OF c] by (cases "walk s c vs") auto
    qed
  qed
qed simp

text \<open>Linking a new inode under a name that is not there yet.\<close>

lemma dir_link_ok:
  assumes "tmp_ok H root s" "th_dirents s dir = Some d" "is_dir s dir" "child s dir w = None" "length w \<le> MAX_NAME" "al 2"
    "th_inodes s i = Some ino"
  shows "\<exists>s'. tmpfs_dir_link al out dir w i s = Some (Inr (th_next s), s')
    \<and> tmp_ok (if out then add_ref H (th_next s) else H) root s' \<and> th_next s' = th_next s + 1
    \<and> th_inodes s' = (th_inodes s)(i \<mapsto> ino\<lparr>ti_refcount := ti_refcount ino + 1\<rparr>)
    \<and> (\<exists>k. th_dirents s' (th_next s) = Some ((tmp_dirent_init w i (td_next_index d) (Some dir))\<lparr>td_refcount := k\<rparr>))
    \<and> (\<exists>k. th_dirents s' dir = Some (d\<lparr>td_next_index := td_next_index d + 1, td_refcount := k, td_children := td_children d @ [th_next s]\<rparr>))
    \<and> (\<forall>j. j \<noteq> dir \<longrightarrow> j \<noteq> th_next s \<longrightarrow> th_dirents s' j = th_dirents s j)"
proof -
  define n where "n = th_next s"
  have old: "j < n" if "th_dirents s j = Some e" for j e using tmp_okD(2) [OF assms(1) that] by (simp add: dirent_ok_def n_def)
  have nd: "n \<noteq> dir" "th_dirents s n = None" using old [OF assms(2)] old [of n] by (cases "th_dirents s n"; auto)+
  obtain m where m: "dirent_mode dir s = Some m" "S_ISDIR m" using assms(3) by (auto simp: is_dir_def split: option.splits)
  define e where "e = (tmp_dirent_init w i (td_next_index d) (Some dir))\<lparr>td_refcount := (if out then 2 else 1)\<rparr>"
  define d' where "d' = d\<lparr>td_next_index := td_next_index d + 1, td_refcount := td_refcount d + 1, td_children := td_children d @ [n]\<rparr>"
  define s' where "s' = (put_dirent dir d' (put_dirent n e (put_inode i (ino\<lparr>ti_refcount := ti_refcount ino + 1\<rparr>) s)))\<lparr>th_next := n + 1\<rparr>"
  have link: "tmpfs_dir_link al out dir w i s = Some (Inr n, s')"
    using m assms(2,5-7) nd
    by (simp add: tmpfs_dir_link_def Let_def tmp_inode_retain_def tmp_dirent_retain_def s'_def e_def d'_def n_def
        tmp_dirent_init_def put_dirent_def put_inode_def fun_upd_twist numeral_2_eq_2)
  have f: "th_dirents s' = (th_dirents s)(n \<mapsto> e, dir \<mapsto> d')" "th_next s' = n + 1"
    "th_inodes s' = (th_inodes s)(i \<mapsto> ino\<lparr>ti_refcount := ti_refcount ino + 1\<rparr>)" by (simp_all add: s'_def)
  have nm: "map_option td_name (th_dirents s' c) = (if c = n then Some w else map_option td_name (th_dirents s c))" for c
    using assms(2) nd by (auto simp: f d'_def e_def tmp_dirent_init_def)
  let ?H = "if out then add_ref H n else H"
  have Hn: "?H n < (if out then 2 else 1)" using tmp_okD(4) [OF assms(1) nd(2)] by (auto simp: add_ref_def n_def)
  have fresh: "w \<noteq> name_of s c" if "c \<in> set (td_children d)" for c
    using assms(2,4) that by (auto simp: child_def children_def find_None_iff)
  have par: "\<exists>x. th_dirents s' c = Some x \<and> td_parent x = Some j" if "th_dirents s c = Some x" "td_parent x = Some j" for c x j
    using that assms(2) nd by (auto simp: f d'_def)
  have dk: "dirent_ok H s dir d" by (rule tmp_okD(2) [OF assms(1,2)])
  have cn: "n \<notin> set (td_children d)" using dk nd by (auto simp: dirent_ok_def)
  have "dirent_ok ?H s' j x" if x: "th_dirents s' j = Some x" for j x
  proof -
    consider "j = n" "x = e" | "j = dir" "x = d'" | "j \<noteq> n" "j \<noteq> dir" "th_dirents s j = Some x"
      using x nd by (auto simp: f split: if_splits)
    then show ?thesis
    proof cases
      case 1
      then show ?thesis using Hn by (auto simp: dirent_ok_def e_def tmp_dirent_init_def f)
    next
      case 2
      have "map_option td_name (th_dirents s c) = Some (name_of s c)" if "c \<in> set (td_children d)" for c
        using dk that by (auto simp: dirent_ok_def name_of_def)
      then have "Some w \<notin> (\<lambda>c. map_option td_name (th_dirents s' c)) ` set (td_children d)"
        using fresh cn by (fastforce simp: nm split: if_splits)
      moreover have "inj_on (\<lambda>c. map_option td_name (th_dirents s' c)) (set (td_children d))"
        using dk cn unfolding dirent_ok_def nm by (auto simp: inj_on_def)
      ultimately have "inj_on (\<lambda>c. map_option td_name (th_dirents s' c)) (insert n (set (td_children d)))"
        using cn nm [of n, simplified simp_thms if_True] by (subst inj_on_insert) (simp del: map_option_eq_Some)
      moreover have "\<exists>x. th_dirents s' c = Some x \<and> td_parent x = Some dir" if "c \<in> insert n (set (td_children d))" for c
      proof (cases "c = n")
        case True
        then show ?thesis using nd by (simp add: f e_def tmp_dirent_init_def)
      next
        case False
        then have "c \<in> set (td_children d)" using that by simp
        then obtain x where "th_dirents s c = Some x" "td_parent x = Some dir" using dk by (auto simp: dirent_ok_def)
        then show ?thesis by (rule par)
      qed
      moreover have "?H dir < td_refcount d + 1" using dk nd by (auto simp: dirent_ok_def add_ref_def)
      ultimately show ?thesis using 2 dk cn old [OF assms(2)] by (auto simp: dirent_ok_def d'_def f)
    next
      case 3
      have k: "dirent_ok H s j x" by (rule tmp_okD(2) [OF assms(1) 3(3)])
      have "n \<notin> set (td_children x)" using k nd by (auto simp: dirent_ok_def)
      then have "inj_on (\<lambda>c. map_option td_name (th_dirents s' c)) (set (td_children x))"
        using k unfolding nm dirent_ok_def by (auto simp: inj_on_def)
      moreover have "\<forall>c \<in> set (td_children x). \<exists>e. th_dirents s' c = Some e \<and> td_parent e = Some j"
        using k par by (fastforce simp: dirent_ok_def)
      moreover have "?H j < td_refcount x" using k 3(1) by (simp add: dirent_ok_def add_ref_def)
      moreover have "th_inodes s' (td_inode x) \<noteq> None" using k by (simp add: dirent_ok_def f(3))
      ultimately show ?thesis using k old [OF 3(3)] by (simp add: dirent_ok_def f(2))
    qed
  qed
  moreover have "\<exists>r. th_dirents s' root = Some r \<and> td_parent r = None"
    using tmp_okD(1) [OF assms(1)] nd assms(2) by (auto simp: f d'_def)
  moreover have "j < th_next s' \<and> 0 < ti_refcount x \<and> length (ti_data x) = ti_size x" if "th_inodes s' j = Some x" for j x
    using that tmp_okD(3) [OF assms(1)] assms(7) by (auto simp: f n_def less_Suc_eq split: if_splits)
  moreover have "?H j = 0" if "th_dirents s' j = None" for j
    using that tmp_okD(4) [OF assms(1), of j] by (auto simp: f add_ref_def split: if_splits)
  ultimately have "tmp_ok ?H root s'" unfolding tmp_ok_def by blast
  then show ?thesis using link by (auto simp: n_def [symmetric] f e_def d'_def nd intro!: exI [of _ s'])
qed

text \<open>So the walks change at the new entry and below it only.\<close>

lemma dir_link_walks:
  assumes "tmp_ok H root s" "th_dirents s dir = Some d" "is_dir s dir" "child s dir w = None" "length w \<le> MAX_NAME" "al 2"
    "th_inodes s i = Some ino"
  shows "\<exists>s'. tmpfs_dir_link al out dir w i s = Some (Inr (th_next s), s')
    \<and> tmp_ok (if out then add_ref H (th_next s) else H) root s' \<and> th_next s' = th_next s + 1
    \<and> th_inodes s' = (th_inodes s)(i \<mapsto> ino\<lparr>ti_refcount := ti_refcount ino + 1\<rparr>)
    \<and> (\<exists>e. th_dirents s' (th_next s) = Some e \<and> td_inode e = i \<and> td_children e = [])
    \<and> (\<forall>j. j \<noteq> th_next s \<longrightarrow> map_option td_inode (th_dirents s' j) = map_option td_inode (th_dirents s j))
    \<and> (\<forall>j vs. j \<noteq> th_next s \<longrightarrow> walk s' j vs = (case walk s j vs of
        Inr c \<Rightarrow> Inr c
      | Inl e \<Rightarrow> if \<exists>ps. vs = ps @ [w] \<and> walk s j ps = Inr dir then Inr (th_next s)
                 else if \<exists>ps zs. zs \<noteq> [] \<and> vs = ps @ w # zs \<and> walk s j ps = Inr dir
                      then Inl (if S_ISDIR (ti_mode ino) then ENOENT else ENOTDIR) else Inl e))"
proof -
  define n where "n = th_next s"
  obtain s' k k' where s': "tmpfs_dir_link al out dir w i s = Some (Inr n, s')"
      "tmp_ok (if out then add_ref H n else H) root s'" "th_next s' = n + 1"
      "th_inodes s' = (th_inodes s)(i \<mapsto> ino\<lparr>ti_refcount := ti_refcount ino + 1\<rparr>)"
      "th_dirents s' n = Some ((tmp_dirent_init w i (td_next_index d) (Some dir))\<lparr>td_refcount := k\<rparr>)"
      "th_dirents s' dir = Some (d\<lparr>td_next_index := td_next_index d + 1, td_refcount := k', td_children := td_children d @ [n]\<rparr>)"
      "\<And>j. j \<noteq> dir \<Longrightarrow> j \<noteq> n \<Longrightarrow> th_dirents s' j = th_dirents s j"
    using dir_link_ok [where al = al and out = out, OF assms] unfolding n_def by blast
  have nd: "n \<noteq> dir" "th_dirents s n = None"
    using tmp_okD(2) [OF assms(1), of n] tmp_okD(2) [OF assms(1,2)] by (cases "th_dirents s n"; auto simp: dirent_ok_def n_def)+
  have ino: "map_option td_inode (th_dirents s' j) = map_option td_inode (th_dirents s j)" if "j \<noteq> n" for j
    using that s'(6,7) assms(2) by (cases "j = dir") auto
  have dirs: "is_dir s' j = is_dir s j" if "j \<noteq> n" for j
    using ino [OF that] s'(4) assms(7)
    by (cases "th_dirents s j"; cases "th_dirents s' j") (auto simp: is_dir_def dirent_mode_def split: option.splits)
  have dn: "is_dir s' n = S_ISDIR (ti_mode ino)"
    using s'(4,5) by (simp add: is_dir_def dirent_mode_def tmp_dirent_init_def)
  have names: "name_of s' j = name_of s j" if "j \<noteq> n" for j
    using that s'(6,7) assms(2) by (cases "j = dir") (auto simp: name_of_def)
  have kids: "children s' j = (if j = dir then children s dir @ [n] else children s j)" if "j \<noteq> n" for j
    using that s'(6,7) assms(2) by (auto simp: children_def)
  have nk: "n \<notin> set (children s j)" for j using ok_child [OF assms(1), of n j] nd by auto
  have fnd: "find (\<lambda>c. name_of s' c = v) (children s j) = find (\<lambda>c. name_of s c = v) (children s j)" for j v
  proof -
    have "name_of s' x = name_of s x" if "x \<in> set (children s j)" for x using that nk [of j] by (intro names) auto
    then show ?thesis by (intro find_cong) auto
  qed
  have other: "child s' j v = child s j v" if "j \<noteq> n" "j \<noteq> dir" for j v
    using that kids fnd by (simp add: child_def)
  have nn: "name_of s' n = w" using s'(5) by (simp add: name_of_def tmp_dirent_init_def)
  have fa: "find P (xs @ [n]) = (case find P xs of None \<Rightarrow> if P n then Some n else None | Some c \<Rightarrow> Some c)" for P xs
    by (induction xs) auto
  have here: "child s' dir v = (if v = w then Some n else child s dir v)" for v
    using kids [OF nd(1) [symmetric]] assms(4) fnd nn by (auto simp: child_def fa split: option.splits)
  have nc: "child s j v \<noteq> Some n" for j v using child_in [of s j v n] nk by blast
  have none: "child s' n v = None" for v using s'(5) by (simp add: child_def children_def tmp_dirent_init_def)
  have "walk s' j vs = (case walk s j vs of
        Inr c \<Rightarrow> Inr c
      | Inl e \<Rightarrow> if \<exists>ps. vs = ps @ [w] \<and> walk s j ps = Inr dir then Inr n
                 else if \<exists>ps zs. zs \<noteq> [] \<and> vs = ps @ w # zs \<and> walk s j ps = Inr dir
                      then Inl (if S_ISDIR (ti_mode ino) then ENOENT else ENOTDIR) else Inl e)" if "j \<noteq> n" for j vs
    using walk_grown [OF nd(1) assms(3,4) dirs other here none nc that, of vs] dn by simp
  then show ?thesis unfolding n_def [symmetric]
    using s'(1-5) ino by (intro exI [of _ s'] conjI allI impI) (simp_all add: tmp_dirent_init_def)
qed

section \<open>Creating\<close>

lemma tmp_inode_new_ok:
  assumes "tmp_ok H root s"
  obtains (fail) k where "tmp_inode_new al cr mode s = (None, s\<lparr>th_next_inode := k\<rparr>)" "\<not> (al 0 \<and> (S_ISREG mode \<longrightarrow> al 1))"
  | (new) s' ino where "tmp_inode_new al cr mode s = (Some (th_next s), s')" "al 0" "S_ISREG mode \<longrightarrow> al 1" "tmp_ok H root s'"
      "th_next s' = th_next s + 1" "th_dirents s' = th_dirents s" "th_inodes s' = (th_inodes s)(th_next s \<mapsto> ino)" "th_inodes s (th_next s) = None"
      "ti_mode ino = mode" "ti_size ino = 0" "ti_data ino = []" "ti_refcount ino = 1" "\<And>i ws. walk s' i ws = walk s i ws" "\<And>i. is_dir s' i = is_dir s i"
      "\<And>i w. child s' i w = child s i w"
proof (cases "al 0 \<and> (S_ISREG mode \<longrightarrow> al 1)")
  case False
  then show thesis
    by (intro fail [of "if al 0 then th_next_inode s + 1 else th_next_inode s"]) (auto simp: tmp_inode_new_def Let_def)
next
  case True
  define ino where "ino = \<lparr>ti_refcount = 1, ti_mode = mode, ti_uid = cr_euid cr, ti_gid = cr_egid cr, ti_number = th_next_inode s, ti_size = 0, ti_data = []\<rparr>"
  define s' where "s' = (put_inode (th_next s) ino (s\<lparr>th_next_inode := th_next_inode s + 1\<rparr>))\<lparr>th_next := th_next s + 1\<rparr>"
  have f: "th_dirents s' = th_dirents s" "th_inodes s' = (th_inodes s)(th_next s \<mapsto> ino)" "th_next s' = th_next s + 1" by (simp_all add: s'_def)
  have fresh: "th_inodes s (th_next s) = None" using tmp_okD(3) [OF assms, of "th_next s"] by (cases "th_inodes s (th_next s)") auto
  have dirs: "is_dir s' i = is_dir s i" for i
  proof (cases "th_dirents s i")
    case (Some d)
    then have "td_inode d \<noteq> th_next s" using tmp_okD(2) [OF assms Some] fresh by (auto simp: dirent_ok_def)
    then show ?thesis using Some by (simp add: is_dir_def dirent_mode_def f)
  qed (simp add: is_dir_def dirent_mode_def f)
  have kids: "child s' i w = child s i w" for i w by (simp add: child_def children_def name_of_def [abs_def] f)
  have "walk s' i ws = walk s i ws" for i ws by (induction ws arbitrary: i) (auto simp: dirs kids split: option.splits)
  moreover have "dirent_ok H s' i d" if "th_dirents s i = Some d" for i d
    using tmp_okD(2) [OF assms that] by (auto simp: dirent_ok_def f)
  then have "tmp_ok H root s'" using assms unfolding tmp_ok_def f by (auto simp: ino_def less_Suc_eq)
  moreover have "tmp_inode_new al cr mode s = (Some (th_next s), s')"
    using True by (auto simp: tmp_inode_new_def s'_def ino_def Let_def)
  ultimately show thesis using True f fresh dirs kids by (intro new [of s' ino]) (auto simp: ino_def)
qed

lemma next_inode_ok [simp]:
  "tmp_ok H root (s\<lparr>th_next_inode := k\<rparr>) = tmp_ok H root s" "is_dir (s\<lparr>th_next_inode := k\<rparr>) i = is_dir s i"
  "child (s\<lparr>th_next_inode := k\<rparr>) i w = child s i w" "walk (s\<lparr>th_next_inode := k\<rparr>) i ws = walk s i ws"
proof -
  show d: "is_dir (s\<lparr>th_next_inode := k\<rparr>) i = is_dir s i" for i by (simp add: is_dir_def dirent_mode_def)
  show c: "child (s\<lparr>th_next_inode := k\<rparr>) i w = child s i w" for i w by (simp add: child_def children_def name_of_def [abs_def])
  show "walk (s\<lparr>th_next_inode := k\<rparr>) i ws = walk s i ws" by (induction ws arbitrary: i) (auto simp: d c split: option.splits)
  show "tmp_ok H root (s\<lparr>th_next_inode := k\<rparr>) = tmp_ok H root s" by (simp add: tmp_ok_def dirent_ok_def)
qed

lemma next_ok:
  "tmp_ok H root s \<Longrightarrow> th_dirents s' = th_dirents s \<Longrightarrow> th_inodes s' = th_inodes s \<Longrightarrow> th_next s' = th_next s + 1 \<Longrightarrow>
    tmp_ok H root s' \<and> (\<forall>i ws. walk s' i ws = walk s i ws)"
proof -
  assume a: "tmp_ok H root s" "th_dirents s' = th_dirents s" "th_inodes s' = th_inodes s" "th_next s' = th_next s + 1"
  have d: "is_dir s' i = is_dir s i" for i by (simp add: is_dir_def dirent_mode_def a)
  have c: "child s' i w = child s i w" for i w by (simp add: child_def children_def name_of_def [abs_def] a)
  have "walk s' i ws = walk s i ws" for i ws by (induction ws arbitrary: i) (auto simp: d c split: option.splits)
  moreover have "tmp_ok H root s'"
    using a(1) unfolding tmp_ok_def dirent_ok_def a(2-4) by (meson less_SucI less_add_one order.strict_trans)
  ultimately show ?thesis by blast
qed

lemma existence_ok:
  assumes "tmp_ok H root s" "th_dirents s p \<noteq> None"
  shows "\<exists>s'. tmpfs_dir_lookup_existence p w s = Some (if \<not> is_dir s p then Inl ENOTDIR else if child s p w = None then Inr () else Inl EEXIST, s')
    \<and> same_tree s s' \<and> tmp_ok H root s'"
proof -
  obtain d where d: "th_dirents s p = Some d" using assms(2) by blast
  obtain s1 where s1: "tmpfs_dir_lookup p w s = Some ((if \<not> is_dir s p then Inl ENOTDIR else case child s p w of None \<Rightarrow> Inl ENOENT | Some c \<Rightarrow> Inr c), s1)"
    "same_tree s s1" "tmp_ok (if is_dir s p then case child s p w of None \<Rightarrow> H | Some c \<Rightarrow> add_ref H c else H) root s1"
    using dir_lookup_ok [OF assms(1) d, of w] by blast
  show ?thesis
  proof (cases "is_dir s p \<and> child s p w \<noteq> None")
    case False
    then show ?thesis using s1 by (auto simp: tmpfs_dir_lookup_existence_def)
  next
    case True
    then obtain c where c: "child s p w = Some c" by blast
    then have ok: "tmp_ok (add_ref H c) root s1" using s1(3) True by simp
    have "th_dirents s1 c \<noteq> None" using tmp_okD(4) [OF ok, of c] add_drop(3) [of H c] by (cases "th_dirents s1 c") auto
    from dirent_release_ok [OF ok add_drop(3) this] obtain s2 where
      "tmp_dirent_release c s1 = Some s2" "same_tree s1 s2" "tmp_ok H root s2" by auto
    then show ?thesis using s1 True c same_tree_trans [OF s1(2)] by (auto simp: tmpfs_dir_lookup_existence_def)
  qed
qed

lemma S_ISDIR_mode: "mode AND S_IFMT = 0 \<Longrightarrow> S_ISDIR (S_IFDIR OR mode) \<and> \<not> S_ISREG (S_IFDIR OR mode)"
  "mode AND S_IFMT = 0 \<Longrightarrow> S_ISREG (S_IFREG OR mode) \<and> \<not> S_ISDIR (S_IFREG OR mode)"
  by (simp_all add: S_ISDIR_def S_ISREG_def S_IFDIR_def S_IFREG_def bit.conj_disj_distrib2) (simp_all add: S_IFMT_def)

text \<open>A new inode linked into a directory, or given back when there is no memory for the entry.\<close>

lemma new_entry_ok:
  assumes "tmp_ok H root s" "th_dirents s p \<noteq> None" "is_dir s p" "child s p w = None" "length w \<le> MAX_NAME"
    "tmp_inode_new al cr mode s = (Some i, s1)"
  shows "\<exists>r s'. tmpfs_dir_link al out p w i s1 = Some (r, s') \<and>
    (case r of
       Inl e \<Rightarrow> e = ENOMEM \<and> \<not> al 2 \<and> tmp_ok H root s' \<and> (\<forall>i ws. walk s' i ws = walk s i ws)
     | Inr n \<Rightarrow> al 2 \<and> tmp_ok (if out then add_ref H n else H) root s' \<and> th_dirents s n = None
         \<and> (\<exists>e ino. th_dirents s' n = Some e \<and> td_inode e = i \<and> td_children e = [] \<and> th_inodes s' i = Some ino
              \<and> ti_mode ino = mode \<and> ti_size ino = 0 \<and> ti_data ino = [] \<and> ti_refcount ino = 2)
         \<and> (\<forall>k. k \<noteq> i \<longrightarrow> th_inodes s' k = th_inodes s k) \<and> (\<forall>j. j \<noteq> n \<longrightarrow> map_option td_inode (th_dirents s' j) = map_option td_inode (th_dirents s j))
         \<and> (\<forall>j vs. th_dirents s j \<noteq> None \<longrightarrow> walk s' j vs = (case walk s j vs of
              Inr c \<Rightarrow> Inr c
            | Inl e \<Rightarrow> if \<exists>ps. vs = ps @ [w] \<and> walk s j ps = Inr p then Inr n
                       else if \<exists>ps zs. zs \<noteq> [] \<and> vs = ps @ w # zs \<and> walk s j ps = Inr p
                            then Inl (if S_ISDIR mode then ENOENT else ENOTDIR) else Inl e)))"
  using assms(1)
proof (cases rule: tmp_inode_new_ok [where al = al and cr = cr and mode = mode])
  case (fail k)
  then show ?thesis using assms(6) by simp
next
  case (new s' ino)
  then have e: "i = th_next s" "s1 = s'" using assms(6) by simp_all
  obtain d where d: "th_dirents s p = Some d" using assms(2) by blast
  have ps: "th_dirents s' p = Some d" "is_dir s' p" "child s' p w = None" using new d assms(3,4) by simp_all
  show ?thesis
  proof (cases "al 2")
    case False
    obtain m where m: "dirent_mode p s' = Some m" "S_ISDIR m" using ps(2) by (auto simp: is_dir_def split: option.splits)
    have rel: "tmp_inode_release (th_next s) s' = Some (tmp_inode_cleanup (th_next s) s')" using new(7,12) by (simp add: tmp_inode_release_def)
    have "th_inodes (tmp_inode_cleanup (th_next s) s') = th_inodes s" using new(7,8) by (auto simp: tmp_inode_cleanup_def fun_eq_iff)
    then have "tmp_ok H root (tmp_inode_cleanup (th_next s) s') \<and> (\<forall>i ws. walk (tmp_inode_cleanup (th_next s) s') i ws = walk s i ws)"
      using new(5,6) by (intro next_ok [OF assms(1)]) (simp_all add: tmp_inode_cleanup_def)
    then show ?thesis using False m rel e by (auto simp: tmpfs_dir_link_def)
  next
    case True
    have nn: "th_dirents s j = None" if "th_next s \<le> j" for j
      using tmp_okD(2) [OF assms(1), of j] that by (cases "th_dirents s j") (auto simp: dirent_ok_def)
    define n where "n = th_next s'"
    obtain s2 where s2: "tmpfs_dir_link al out p w (th_next s) s' = Some (Inr n, s2)"
      "tmp_ok (if out then add_ref H n else H) root s2"
      "th_inodes s2 = (th_inodes s')(th_next s \<mapsto> ino\<lparr>ti_refcount := ti_refcount ino + 1\<rparr>)"
      "\<exists>e. th_dirents s2 n = Some e \<and> td_inode e = th_next s \<and> td_children e = []"
      "\<forall>j. j \<noteq> n \<longrightarrow> map_option td_inode (th_dirents s2 j) = map_option td_inode (th_dirents s' j)"
      "\<forall>j vs. j \<noteq> n \<longrightarrow> walk s2 j vs = (case walk s' j vs of
        Inr c \<Rightarrow> Inr c
      | Inl e \<Rightarrow> if \<exists>ps. vs = ps @ [w] \<and> walk s' j ps = Inr p then Inr n
                 else if \<exists>ps zs. zs \<noteq> [] \<and> vs = ps @ w # zs \<and> walk s' j ps = Inr p
                      then Inl (if S_ISDIR (ti_mode ino) then ENOENT else ENOTDIR) else Inl e)"
      using dir_link_walks [where al = al and out = out, OF new(4) ps assms(5) True, of "th_next s" ino] new(7) unfolding n_def by auto
    have ne: "j \<noteq> n" if "th_dirents s j \<noteq> None" for j using that nn [of j] new(5) by (auto simp: n_def)
    have none: "th_dirents s n = None" using nn [of n] new(5) by (simp add: n_def)
    have ino: "\<exists>e ino. th_dirents s2 n = Some e \<and> td_inode e = i \<and> td_children e = [] \<and> th_inodes s2 i = Some ino
              \<and> ti_mode ino = mode \<and> ti_size ino = 0 \<and> ti_data ino = [] \<and> ti_refcount ino = 2"
      using s2(3,4) new(9-12) e by auto
    have keep: "\<forall>k. k \<noteq> i \<longrightarrow> th_inodes s2 k = th_inodes s k"
      "\<forall>j. j \<noteq> n \<longrightarrow> map_option td_inode (th_dirents s2 j) = map_option td_inode (th_dirents s j)"
      using s2(3,5) new(6,7) e by auto
    have walks: "\<forall>j vs. th_dirents s j \<noteq> None \<longrightarrow> walk s2 j vs = (case walk s j vs of
              Inr c \<Rightarrow> Inr c
            | Inl e \<Rightarrow> if \<exists>ps. vs = ps @ [w] \<and> walk s j ps = Inr p then Inr n
                       else if \<exists>ps zs. zs \<noteq> [] \<and> vs = ps @ w # zs \<and> walk s j ps = Inr p
                            then Inl (if S_ISDIR mode then ENOENT else ENOTDIR) else Inl e)"
      using s2(6) ne unfolding new(9,13) by blast
    show ?thesis unfolding e
      by (intro exI [of _ "Inr n"] exI [of _ s2] conjI s2(1), unfold sum.case, intro conjI)
         (use True s2(2) none ino keep walks e in \<open>simp_all only: simp_thms\<close>)
  qed
qed

lemma walk_missing:
  assumes "is_dir s p" "child s p w = None"
  shows "(case walk s j vs of
      Inr c \<Rightarrow> Inr c
    | Inl e \<Rightarrow> if \<exists>ps. vs = ps @ [w] \<and> walk s j ps = Inr p then Inr n
               else if \<exists>ps zs. zs \<noteq> [] \<and> vs = ps @ w # zs \<and> walk s j ps = Inr p then Inl ENOENT else Inl e)
    = (if \<exists>ps. vs = ps @ [w] \<and> walk s j ps = Inr p then Inr n else walk s j vs)"
proof -
  have "walk s j vs = Inl ENOENT" if "vs = ps @ w # zs" "walk s j ps = Inr p" for ps zs
    using that assms by (simp add: walk_append)
  then show ?thesis by (cases "walk s j vs") (auto; metis Inl_inject sum.distinct)+
qed

lemma mkdir_in_ok:
  assumes "tmp_ok H root s" "th_dirents s p \<noteq> None" "length w \<le> MAX_NAME" "mode AND S_IFMT = 0"
  shows "\<exists>r s' n. mkdir_in al cr p w mode s = Some (r, s') \<and> tmp_ok H root s'
    \<and> r = (if \<not> is_dir s p then Inl ENOTDIR else if child s p w \<noteq> None then Inl EEXIST else if al 0 \<and> al 2 then Inr () else Inl ENOMEM)
    \<and> th_dirents s n = None \<and> (r = Inr () \<longrightarrow> is_dir s' n)
    \<and> (\<forall>j vs. th_dirents s j \<noteq> None \<longrightarrow> walk s' j vs = (if r = Inr () \<and> (\<exists>ps. vs = ps @ [w] \<and> walk s j ps = Inr p) then Inr n else walk s j vs))"
proof -
  obtain s1 where s1: "tmpfs_dir_lookup_existence p w s = Some (if \<not> is_dir s p then Inl ENOTDIR else if child s p w = None then Inr () else Inl EEXIST, s1)"
    "same_tree s s1" "tmp_ok H root s1" using existence_ok [OF assms(1,2), of w] by blast
  note v = same_tree_walk [OF s1(2)]
  have fresh: "th_dirents s (th_next s) = None" using tmp_okD(2) [OF assms(1), of "th_next s"] by (cases "th_dirents s (th_next s)") (auto simp: dirent_ok_def)
  show ?thesis
  proof (cases "is_dir s p \<and> child s p w = None")
    case False
    define e where "e = (if is_dir s p then EEXIST else ENOTDIR)"
    have "mkdir_in al cr p w mode s = Some (Inl e, s1)" using s1(1) False by (auto simp: mkdir_in_def e_def)
    then show ?thesis using s1(3) v(5) fresh False by (intro exI [of _ "Inl e"] exI [of _ s1] exI [of _ "th_next s"]) (auto simp: e_def)
  next
    case True
    then have t: "is_dir s p" "child s p w = None" "th_dirents s1 p \<noteq> None" "is_dir s1 p" "child s1 p w = None"
      using v same_tree_dirent(1) [OF s1(2), of p] assms(2) by auto
    note nm = S_ISDIR_mode(1) [OF assms(4)]
    show ?thesis
    proof (cases "tmp_inode_new al cr (S_IFDIR OR mode) s1")
      case (Pair io s2)
      show ?thesis
      proof (cases io)
        case None
        obtain k where k: "s2 = s1\<lparr>th_next_inode := k\<rparr>" "\<not> al 0"
        proof
          show "s2 = s1\<lparr>th_next_inode := th_next_inode s2\<rparr>" "\<not> al 0"
            using Pair None nm by (cases s1; auto simp: tmp_inode_new_def Let_def split: if_splits)+
        qed
        have "mkdir_in al cr p w mode s = Some (Inl ENOMEM, s2)" using s1(1) t Pair None by (simp add: mkdir_in_def)
        then show ?thesis using s1(3) v(5) fresh t k by (intro exI [of _ "Inl ENOMEM"] exI [of _ s2] exI [of _ "th_next s"]) auto
      next
        case (Some i)
        have "al 0" using Pair Some by (auto simp: tmp_inode_new_def split: if_splits)
        obtain r s3 where r: "tmpfs_dir_link al False p w i s2 = Some (r, s3)"
            "case r of
       Inl e \<Rightarrow> e = ENOMEM \<and> \<not> al 2 \<and> tmp_ok H root s3 \<and> (\<forall>i ws. walk s3 i ws = walk s1 i ws)
     | Inr n \<Rightarrow> al 2 \<and> tmp_ok H root s3 \<and> th_dirents s1 n = None
         \<and> (\<exists>e ino. th_dirents s3 n = Some e \<and> td_inode e = i \<and> th_inodes s3 i = Some ino \<and> ti_mode ino = S_IFDIR OR mode)
         \<and> (\<forall>j vs. th_dirents s1 j \<noteq> None \<longrightarrow> walk s3 j vs = (case walk s1 j vs of
              Inr c \<Rightarrow> Inr c
            | Inl e \<Rightarrow> if \<exists>ps. vs = ps @ [w] \<and> walk s1 j ps = Inr p then Inr n
                       else if \<exists>ps zs. zs \<noteq> [] \<and> vs = ps @ w # zs \<and> walk s1 j ps = Inr p
                            then Inl (if S_ISDIR (S_IFDIR OR mode) then ENOENT else ENOTDIR) else Inl e))"
          using new_entry_ok [OF s1(3) t(3-5) assms(3) Pair [unfolded Some], of False] by (fastforce split: sum.splits)
        have mk: "mkdir_in al cr p w mode s = Some (map_sum id (\<lambda>_. ()) r, s3)"
          using s1(1) t Pair Some r(1) by (simp add: mkdir_in_def)
        show ?thesis
        proof (cases r)
          case (Inl e)
          then show ?thesis using mk r(2) t v(5) fresh \<open>al 0\<close>
            by (intro exI [of _ "Inl ENOMEM"] exI [of _ s3] exI [of _ "th_next s"]) auto
        next
          case (Inr n)
          then have ok: "al 2" "tmp_ok H root s3" "th_dirents s1 n = None"
              "\<exists>e ino. th_dirents s3 n = Some e \<and> td_inode e = i \<and> th_inodes s3 i = Some ino \<and> ti_mode ino = S_IFDIR OR mode"
            and w: "\<And>j vs. th_dirents s1 j \<noteq> None \<Longrightarrow> walk s3 j vs = (if \<exists>ps. vs = ps @ [w] \<and> walk s1 j ps = Inr p then Inr n else walk s1 j vs)"
            using r(2) nm unfolding walk_missing [OF t(4,5), symmetric] by simp_all
          have "is_dir s3 n" using ok(4) nm by (auto simp: is_dir_def dirent_mode_def)
          moreover have "th_dirents s n = None" using ok(3) same_tree_dirent(1) [OF s1(2), of n] by simp
          moreover have "walk s3 j vs = (if \<exists>ps. vs = ps @ [w] \<and> walk s j ps = Inr p then Inr n else walk s j vs)" if "th_dirents s j \<noteq> None" for j vs
          proof -
            have "th_dirents s1 j \<noteq> None" using that same_tree_dirent(1) [OF s1(2), of j] by simp
            from w [OF this, of vs] show ?thesis unfolding v(5) .
          qed
          ultimately show ?thesis using mk Inr ok(1,2) t(1,2) \<open>al 0\<close>
            by (intro exI [of _ "Inr ()"] exI [of _ s3] exI [of _ n]) simp
        qed
      qed
    qed
  qed
qed

section \<open>Making a directory\<close>

lemma mkdir_effect:
  assumes "tmp_ok H root s" "ws \<noteq> []" "\<forall>w \<in> set ws. good_name w" "join ws \<noteq> ''/''" "mode AND S_IFMT = 0"
  shows "\<exists>r s'. tmpfs_mkdir al cr root (join ws) mode s = Some (r, s') \<and> tmp_ok H root s'
    \<and> r = (case walk s root (butlast ws) of
             Inl e \<Rightarrow> Inl e
           | Inr p \<Rightarrow> if \<not> is_dir s p then Inl ENOTDIR else if child s p (last ws) \<noteq> None then Inl EEXIST
                      else if al 0 \<and> al 2 then Inr () else Inl ENOMEM)
    \<and> (\<exists>n. th_dirents s n = None \<and> (r = Inr () \<longrightarrow> is_dir s' n)
         \<and> (\<forall>vs. walk s' root vs = (if r = Inr () \<and> vs = ws then Inr n else walk s root vs)))"
proof -
  define wr where "wr = walk s root (butlast ws)"
  obtain w s1 where s1: "tmpfs_lookup_parent root (join ws) s = Some (map_sum id Some wr, w, s1)" "same_tree s s1"
      "(\<exists>p. wr = Inr p) \<longrightarrow> w = last ws" "tmp_ok (hold H wr) root s1"
    using tmpfs_lookup_parent_ok [OF assms(1,3,2,4)] unfolding wr_def by blast
  note v = same_tree_walk [OF s1(2)]
  have fresh: "th_dirents s (th_next s) = None" using tmp_okD(2) [OF assms(1), of "th_next s"] by (cases "th_dirents s (th_next s)") (auto simp: dirent_ok_def)
  show ?thesis
  proof (cases wr)
    case (Inl e)
    then have "tmpfs_mkdir al cr root (join ws) mode s = Some (Inl e, s1)" using s1(1) by (simp add: tmpfs_mkdir_def)
    then show ?thesis using s1(4) Inl v(5) fresh unfolding wr_def [symmetric]
      by (intro exI [of _ "Inl e"] exI [of _ s1]) (auto simp: hold_def)
  next
    case (Inr p)
    have ok1: "tmp_ok (add_ref H p) root s1" and w: "w = last ws" using s1(3,4) Inr by (simp_all add: hold_def)
    have p1: "th_dirents s1 p \<noteq> None" using tmp_okD(4) [OF ok1, of p] add_drop(3) [of H p] by (cases "th_dirents s1 p") auto
    have "good_name w" using w assms(2,3) last_in_set [of ws] by auto
    then have "length w \<le> MAX_NAME" unfolding good_name_def by simp
    from mkdir_in_ok [OF ok1 p1 this assms(5), of al cr] obtain r s2 n where r: "mkdir_in al cr p w mode s1 = Some (r, s2)" "tmp_ok (add_ref H p) root s2"
        "r = (if \<not> is_dir s1 p then Inl ENOTDIR else if child s1 p w \<noteq> None then Inl EEXIST else if al 0 \<and> al 2 then Inr () else Inl ENOMEM)"
        "th_dirents s1 n = None" "r = Inr () \<longrightarrow> is_dir s2 n"
        "\<forall>j vs. th_dirents s1 j \<noteq> None \<longrightarrow> walk s2 j vs = (if r = Inr () \<and> (\<exists>ps. vs = ps @ [w] \<and> walk s1 j ps = Inr p) then Inr n else walk s1 j vs)"
      by blast
    have "th_dirents s2 p \<noteq> None" using tmp_okD(4) [OF r(2), of p] add_drop(3) [of H p] by (cases "th_dirents s2 p") auto
    from dirent_release_ok [OF r(2) add_drop(3) this] obtain s3 where s3: "tmp_dirent_release p s2 = Some s3" "same_tree s2 s3" "tmp_ok H root s3" by auto
    note v3 = same_tree_walk [OF s3(2)]
    have "th_dirents s1 root \<noteq> None" using tmp_okD(1) [OF ok1] by auto
    then have wk: "walk s3 root vs = (if r = Inr () \<and> (\<exists>ps. vs = ps @ [w] \<and> walk s root ps = Inr p) then Inr n else walk s root vs)" for vs
      using r(6) unfolding v(5) v3(5) by blast
    have "(\<exists>ps. vs = ps @ [w] \<and> walk s root ps = Inr p) \<longleftrightarrow> vs = ws" for vs
    proof
      assume "\<exists>ps. vs = ps @ [w] \<and> walk s root ps = Inr p"
      then obtain ps where ps: "vs = ps @ [w]" "walk s root ps = Inr p" by blast
      have "ps = butlast ws" using walk_unique [OF assms(1) ps(2)] Inr unfolding wr_def by blast
      then show "vs = ws" using ps w assms(2) by simp
    next
      assume "vs = ws"
      then show "\<exists>ps. vs = ps @ [w] \<and> walk s root ps = Inr p"
        using w assms(2) Inr unfolding wr_def by (intro exI [of _ "butlast ws"]) simp
    qed
    then have "walk s3 root vs = (if r = Inr () \<and> vs = ws then Inr n else walk s root vs)" for vs using wk by simp
    moreover have "tmpfs_mkdir al cr root (join ws) mode s = Some (r, s3)" using s1(1) Inr r(1) s3(1) by (simp add: tmpfs_mkdir_def)
    moreover have "th_dirents s n = None" using r(4) same_tree_dirent(1) [OF s1(2), of n] by simp
    ultimately show ?thesis using s3(3) r(3,5) v v3 w Inr unfolding wr_def [symmetric]
      by (intro exI [of _ r] exI [of _ s3]) auto
  qed
qed

section \<open>A fresh file system\<close>

definition empty_heap :: tmp_heap where
  "empty_heap = \<lparr>th_inodes = \<lambda>_. None, th_dirents = \<lambda>_. None, th_next = 0, th_next_inode = 1\<rparr>"

lemma S_ISDIR_root [simp]: "S_ISDIR (S_IFDIR OR 0x1ff)" "\<not> S_ISREG (S_IFDIR OR 0x1ff)"
  by (simp_all add: S_ISDIR_def S_ISREG_def S_IFDIR_def S_IFMT_def)

text \<open>A mounted file system is a tree with one empty directory.\<close>

lemma mount_ok:
  assumes "al 0" "al 2"
  shows "\<exists>s. tmpfs_mount al cr empty_heap = (Inr 1, s) \<and> tmp_ok (\<lambda>_. 0) 1 s \<and> is_dir s 1 \<and> children s 1 = []"
  using assms
  by (simp add: tmpfs_mount_def tmp_inode_new_def empty_heap_def Let_def tmp_ok_def dirent_ok_def tmp_dirent_init_def
        is_dir_def dirent_mode_def children_def)

lemma walk_no_children: "children s i = [] \<Longrightarrow> is_dir s i \<Longrightarrow> ws \<noteq> [] \<Longrightarrow> walk s i ws = Inl ENOENT"
  by (cases ws) (auto simp: child_def)

text \<open>C12. \<open>tmpfs_mkdir\<close> refines the obvious operation on the tree of names. With path components that
  are not too long and more than the root, it fails as the walk to the parent fails, with ENOTDIR if the parent
  is no directory, EEXIST if the name is taken and ENOMEM if the host has no memory, and then no path leads anywhere else than before;
  otherwise the new directory is a new entry, reached by exactly this path, and every other path leads where it led.\<close>

theorem tmpfs_mkdir_correct:
  assumes "tmp_ok H root s" "ws \<noteq> []" "\<forall>w \<in> set ws. good_name w" "join ws \<noteq> ''/''" "mode AND S_IFMT = 0"
  shows "\<exists>r s'. tmpfs_mkdir al cr root (join ws) mode s = Some (r, s') \<and> tmp_ok H root s'
    \<and> r = (case walk s root (butlast ws) of
             Inl e \<Rightarrow> Inl e
           | Inr p \<Rightarrow> if \<not> is_dir s p then Inl ENOTDIR else if child s p (last ws) \<noteq> None then Inl EEXIST
                      else if al 0 \<and> al 2 then Inr () else Inl ENOMEM)
    \<and> (\<exists>n. th_dirents s n = None \<and> (r = Inr () \<longrightarrow> is_dir s' n)
         \<and> (\<forall>vs. walk s' root vs = (if r = Inr () \<and> vs = ws then Inr n else walk s root vs)))"
  by (rule mkdir_effect [OF assms])

theorem tmpfs_mkdir_correct_witness:
  "\<exists>s s' n. tmpfs_mount (\<lambda>_. True) \<lparr>cr_euid = 0, cr_egid = 0\<rparr> empty_heap = (Inr 1, s)
     \<and> tmpfs_mkdir (\<lambda>_. True) \<lparr>cr_euid = 0, cr_egid = 0\<rparr> 1 ''/ab'' 0x1ed s = Some (Inr (), s') \<and> walk s' 1 [''ab''] = Inr n \<and> is_dir s' n
     \<and> walk s' 1 [''ab'', ''c''] = Inl ENOENT"
proof -
  obtain s where s: "tmpfs_mount (\<lambda>_. True) \<lparr>cr_euid = 0, cr_egid = 0\<rparr> empty_heap = (Inr 1, s)" "tmp_ok (\<lambda>_. 0) 1 s" "is_dir s 1" "children s 1 = []"
    using mount_ok [of "\<lambda>_. True" "\<lparr>cr_euid = 0, cr_egid = 0\<rparr>"] by auto
  have j: "join [''ab''] = ''/ab''" by simp
  have "\<forall>w \<in> set [''ab'']. good_name w" by (simp add: good_name_def MAX_NAME_def)
  from tmpfs_mkdir_correct [OF s(2) _ this, of "0x1ed" "\<lambda>_. True" "\<lparr>cr_euid = 0, cr_egid = 0\<rparr>"] obtain r s' n where
    r: "tmpfs_mkdir (\<lambda>_. True) \<lparr>cr_euid = 0, cr_egid = 0\<rparr> 1 ''/ab'' 0x1ed s = Some (r, s')" "r = Inr ()" "r = Inr () \<longrightarrow> is_dir s' n"
      "\<forall>vs. walk s' 1 vs = (if r = Inr () \<and> vs = [''ab''] then Inr n else walk s 1 vs)"
    unfolding j using s(3,4) by (auto simp: S_IFMT_def child_def)
  have "walk s' 1 [''ab''] = Inr n" using r(2) spec [OF r(4), of "[''ab'']"] by (simp del: walk.simps)
  moreover have "walk s' 1 [''ab'', ''c''] = Inl ENOENT" using spec [OF r(4), of "[''ab'', ''c'']"] walk_no_children [OF s(4,3), of "[''ab'', ''c'']"] by (simp del: walk.simps)
  ultimately show ?thesis using s(1) r(1-3) by blast
qed

end
