(* ===== verification/Tmpfs_Files.thy ===== *)
theory Tmpfs_Files
  imports Tmpfs_Tree
begin

text \<open>
  Open files and directories of the temporary file system: what a write leaves in the file and a read returns, what
  a scan of a directory lists, and the calls that go wrong.
\<close>

section \<open>Contents\<close>

definition byte_at :: "tmp_inode \<Rightarrow> nat \<Rightarrow> u8" where
  "byte_at n k = (if k < length (ti_data n) then ti_data n ! k else 0)"

text \<open>An open regular file: the inode behind it and its contents.\<close>

definition open_file :: "tmp_fd \<Rightarrow> nat \<Rightarrow> tmp_inode \<Rightarrow> tmp_heap \<Rightarrow> bool" where
  "open_file f i n s \<longleftrightarrow> tmpfs_fd_inode f s = Some i \<and> th_inodes s i = Some n \<and> S_ISREG (ti_mode n)
     \<and> length (ti_data n) = ti_size n \<and> ti_size n < 2 ^ 63"

lemma S_ISREG_not_dir [simp]: "S_ISREG m \<Longrightarrow> \<not> S_ISDIR m"
  by (auto simp: S_ISREG_def S_ISDIR_def)

lemma as_unsigned_small [simp]: "0 \<le> off \<Longrightarrow> off < 2 ^ 63 \<Longrightarrow> as_unsigned off = nat off"
  by (simp add: as_unsigned_def)

lemma fd_inode_put [simp]: "tmpfs_fd_inode f (put_inode i n s) = tmpfs_fd_inode f s"
  "tmpfs_fd_inode (f\<lparr>tfd_offset := x\<rparr>) s = tmpfs_fd_inode f s"
  by (simp_all add: tmpfs_fd_inode_def)

lemma write_effect:
  assumes "open_file f i n s" "0 \<le> tfd_offset f" "tfd_offset f + int (length buf) < 2 ^ 63"
  shows "\<exists>n'. tmpfs_write True f buf s =
      Some (Inr (length buf), f\<lparr>tfd_offset := tfd_offset f + int (length buf)\<rparr>, put_inode i n' s)
    \<and> open_file (f\<lparr>tfd_offset := tfd_offset f + int (length buf)\<rparr>) i n' (put_inode i n' s)
    \<and> ti_size n' = max (ti_size n) (nat (tfd_offset f) + length buf)
    \<and> (\<forall>k. byte_at n' k = (if nat (tfd_offset f) \<le> k \<and> k < nat (tfd_offset f) + length buf then buf ! (k - nat (tfd_offset f)) else byte_at n k))"
proof -
  define p where "p = nat (tfd_offset f)"
  have p: "tfd_offset f = int p" "p + length buf < 2 ^ 63" using assms(2,3) by (simp_all add: p_def)
  have u: "as_unsigned (int p) = p" "szadd p (length buf) = p + length buf"
    using p(2) by (simp_all add: as_unsigned_def szadd_def size_max_def)
  note n = assms(1) [unfolded open_file_def]
  define base where "base = (if ti_size n < p + length buf then ti_data n @ replicate (p + length buf - ti_size n) 0 else ti_data n)"
  have lb: "length base = max (ti_size n) (p + length buf)" using n by (simp add: base_def)
  have nth: "base ! k = byte_at n k" if "k < length base" for k
    using that n by (simp add: base_def byte_at_def nth_append split: if_splits)
  obtain d where d: "write_at base (int p) buf = Some d" "length d = length base"
      "\<forall>k < length base. d ! k = (if p \<le> k \<and> k < p + length buf then buf ! (k - p) else base ! k)"
  proof (cases "buf = []")
    case True
    show ?thesis by (rule that [of base]) (use True in \<open>auto simp: write_at_def\<close>)
  next
    case False
    obtain d where c: "copy_into base p buf = Some d" using lb by (simp add: copy_into_def)
    show ?thesis by (rule that [of d]) (use c False nth_copy_into [OF c] length_copy_into [OF c] in \<open>simp_all add: write_at_def\<close>)
  qed
  define n' where "n' = n\<lparr>ti_size := length base, ti_data := d\<rparr>"
  have w: "tmpfs_write True f buf s = Some (Inr (length buf), f\<lparr>tfd_offset := tfd_offset f + int (length buf)\<rparr>, put_inode i n' s)"
    using n p u d(1) unfolding base_def n'_def
    by (auto simp: tmpfs_write_def tmpfs_file_resize_def put_inode_def lb [unfolded base_def] split: if_splits)
  have "open_file (f\<lparr>tfd_offset := tfd_offset f + int (length buf)\<rparr>) i n' (put_inode i n' s)"
    using n p lb d(2) by (auto simp: open_file_def n'_def tmpfs_fd_inode_def put_inode_def)
  moreover have "byte_at n' k = (if p \<le> k \<and> k < p + length buf then buf ! (k - p) else byte_at n k)" for k
    using d nth lb n by (auto simp: byte_at_def n'_def)
  ultimately show ?thesis using w lb by (intro exI [of _ n']) (simp add: n'_def p_def)
qed

lemma read_effect:
  assumes "open_file f i n s" "0 \<le> tfd_offset f" "nat (tfd_offset f) \<le> ti_size n"
  shows "\<exists>xs. tmpfs_read f k s = Some (Inr xs, f\<lparr>tfd_offset := tfd_offset f + int (length xs)\<rparr>)
    \<and> length xs = min k (ti_size n - nat (tfd_offset f)) \<and> (\<forall>j < length xs. xs ! j = byte_at n (nat (tfd_offset f) + j))"
proof -
  define p where "p = nat (tfd_offset f)"
  note n = assms(1) [unfolded open_file_def]
  have p: "tfd_offset f = int p" "p \<le> ti_size n" "p < 2 ^ 63" using assms(2,3) n by (simp_all add: p_def)
  have u: "as_unsigned (int p) = p" "szsub (ti_size n) p = ti_size n - p"
    using p(2,3) n by (simp_all add: as_unsigned_def szsub_exact size_max_def)
  define m where "m = min k (ti_size n - p)"
  have "read_at (ti_data n) (int p) m = Some (take m (drop p (ti_data n)))"
    using n p(2) by (auto simp: read_at_def copy_from_def m_def)
  then show ?thesis using n p u
    by (intro exI [of _ "take m (drop p (ti_data n))"])
       (auto simp: tmpfs_read_def Let_def m_def byte_at_def split: if_splits)
qed

text \<open>C17. What is written can be read back, at any offset, also beyond the end of the file. After the write
  the file reaches at least to its end; the bytes written are those of the buffer, a gap between the old end and the
  offset reads as zeros, and every other byte is what it was. Seeking back to the offset and reading as many bytes
  returns the buffer and leaves the offset where the write left it.\<close>

theorem tmpfs_write_read:
  assumes "open_file f i n s" "0 \<le> tfd_offset f" "tfd_offset f + int (length buf) < 2 ^ 63"
  shows "\<exists>f1 s1 n1 f2. tmpfs_write True f buf s = Some (Inr (length buf), f1, s1) \<and> open_file f1 i n1 s1
    \<and> ti_size n1 = max (ti_size n) (nat (tfd_offset f) + length buf)
    \<and> (\<forall>k. k < nat (tfd_offset f) \<or> nat (tfd_offset f) + length buf \<le> k \<longrightarrow> byte_at n1 k = byte_at n k)
    \<and> tmpfs_lseek f1 (tfd_offset f) LSEEK_SET s1 = Some (Inr (tfd_offset f), f2)
    \<and> tmpfs_read f2 (length buf) s1 = Some (Inr buf, f1)"
proof -
  from write_effect [OF assms] obtain n1 where w:
    "tmpfs_write True f buf s = Some (Inr (length buf), f\<lparr>tfd_offset := tfd_offset f + int (length buf)\<rparr>, put_inode i n1 s)"
    "open_file (f\<lparr>tfd_offset := tfd_offset f + int (length buf)\<rparr>) i n1 (put_inode i n1 s)"
    "ti_size n1 = max (ti_size n) (nat (tfd_offset f) + length buf)"
    "\<And>k. byte_at n1 k = (if nat (tfd_offset f) \<le> k \<and> k < nat (tfd_offset f) + length buf then buf ! (k - nat (tfd_offset f)) else byte_at n k)"
    by blast
  have f: "open_file f i n1 (put_inode i n1 s)" using w(2) by (simp add: open_file_def)
  have "nat (tfd_offset f) \<le> ti_size n1" "min (length buf) (ti_size n1 - nat (tfd_offset f)) = length buf" using w(3) by auto
  with read_effect [OF f assms(2), of "length buf"] obtain xs where xs:
    "tmpfs_read f (length buf) (put_inode i n1 s) = Some (Inr xs, f\<lparr>tfd_offset := tfd_offset f + int (length xs)\<rparr>)"
    "length xs = length buf" "\<forall>j < length xs. xs ! j = byte_at n1 (nat (tfd_offset f) + j)" by auto
  have "xs = buf" using xs(2,3) w(4) by (auto intro!: nth_equalityI)
  moreover have "tmpfs_lseek (f\<lparr>tfd_offset := tfd_offset f + int (length buf)\<rparr>) (tfd_offset f) LSEEK_SET (put_inode i n1 s)
      = Some (Inr (tfd_offset f), f)"
    by (cases f) (simp add: tmpfs_lseek_def generic_seek_def)
  ultimately show ?thesis using w xs(1) by fastforce
qed

definition sample_heap :: tmp_heap where
  "sample_heap = \<lparr>th_inodes = (\<lambda>_. None)(0 \<mapsto> \<lparr>ti_refcount = 1, ti_mode = 0x81a4, ti_uid = 0, ti_gid = 0, ti_number = 1, ti_size = 2, ti_data = [1, 2]\<rparr>),
     th_dirents = (\<lambda>_. None)(1 \<mapsto> tmp_dirent_init ''f'' 0 0 None), th_next = 2, th_next_inode = 2\<rparr>"

definition sample_fd :: "int \<Rightarrow> tmp_fd" where
  "sample_fd off = \<lparr>tfd_dirent = Some 1, tfd_dir_pos = None, tfd_offset = off\<rparr>"

lemma sample_open: "\<exists>n. open_file (sample_fd off) 0 n sample_heap \<and> ti_size n = 2"
  by (simp add: open_file_def sample_heap_def sample_fd_def tmpfs_fd_inode_def tmp_dirent_init_def S_ISREG_def S_IFMT_def)

theorem tmpfs_write_read_witness:
  "\<exists>f1 s1 f2. tmpfs_write True (sample_fd 4) [7, 8] sample_heap = Some (Inr 2, f1, s1)
     \<and> tmpfs_lseek f1 4 LSEEK_SET s1 = Some (Inr 4, f2) \<and> tmpfs_read f2 2 s1 = Some (Inr [7, 8], f1)"
proof -
  obtain n where n: "open_file (sample_fd 4) 0 n sample_heap" using sample_open by blast
  from tmpfs_write_read [OF n, of "[7, 8]"] show ?thesis by (auto simp: sample_fd_def numeral_2_eq_2)
qed

section \<open>Calls that go wrong\<close>

text \<open>C35. A read at an offset behind the end of a file leaves the buffer of the file: the bytes left are computed
  without a sign, so the count is not reduced (unless it is so large that it passes the wrapped difference),
  and the copy starts beyond the allocation.\<close>

theorem tmpfs_read_past_end:
  assumes "open_file f i n s" "int (ti_size n) < tfd_offset f" "tfd_offset f < 2 ^ 63" "0 < k" "k < 2 ^ 63"
  shows "tmpfs_read f k s = None"
proof -
  define p where "p = nat (tfd_offset f)"
  note n = assms(1) [unfolded open_file_def]
  have p: "tfd_offset f = int p" "ti_size n < p" "p < 2 ^ 63" using assms(2,3) by (simp_all add: p_def)
  have "szsub (ti_size n) p = ti_size n + 2 ^ 64 - p" using p n by (simp add: szsub_def size_max_def)
  then have "\<not> szsub (ti_size n) p < k" using assms(5) p by simp
  then show ?thesis using n p assms(4) by (simp add: tmpfs_read_def Let_def read_at_def copy_from_def)
qed

theorem tmpfs_read_past_end_witness: "tmpfs_read (sample_fd 3) 1 sample_heap = None"
proof -
  obtain n where "open_file (sample_fd 3) 0 n sample_heap" "ti_size n = 2" using sample_open by blast
  then show ?thesis by (intro tmpfs_read_past_end [of _ 0 n]) (simp_all add: sample_fd_def)
qed

lemma getpath_loop_fails: "getpath_loop False w p acc = Inl ENAMETOOLONG"
  by (induction p arbitrary: acc rule: less_induct) (subst getpath_loop.simps, simp)

text \<open>\<open>tmpfs_getpath\<close> knows the path of the root only. The loop to the root never moves up, it
  writes the name of the same entry until the buffer is full, so the path of every other open file is an error.\<close>

theorem tmpfs_getpath_only_root:
  "tmpfs_getpath root f s =
     (case tfd_dirent f of None \<Rightarrow> None
      | Some i \<Rightarrow> if th_dirents s i = None then None else Some (if i = root then Inr [] else Inl ENAMETOOLONG))"
  by (auto simp: tmpfs_getpath_def getpath_loop_fails getpath_loop.simps [of True] split: option.splits)

section \<open>Scanning a directory\<close>

text \<open>Reading entries until there is none, at most \<open>k\<close> of them.\<close>

fun scan :: "nat \<Rightarrow> tmp_fd \<Rightarrow> tmp_heap \<Rightarrow> ((nat \<times> string) list \<times> tmp_fd \<times> tmp_heap) option" where
  "scan 0 f s = Some ([], f, s)"
| "scan (Suc k) f s = do {
     (e, f1, s1) \<leftarrow> tmpfs_readdir f s;
     case e of
       None \<Rightarrow> Some ([], f1, s1)
     | Some x \<Rightarrow> do { (xs, f2, s2) \<leftarrow> scan k f1 s1; Some (x # xs, f2, s2) }
   }"

definition entry_of :: "tmp_heap \<Rightarrow> nat \<Rightarrow> nat \<times> string" where
  "entry_of s c = (case th_dirents s c of None \<Rightarrow> (0, [])
     | Some d \<Rightarrow> (case th_inodes s (td_inode d) of None \<Rightarrow> 0 | Some n \<Rightarrow> ti_number n, td_name d))"

lemma same_tree_entry: "same_tree s s' \<Longrightarrow> entry_of s' c = entry_of s c"
  using same_tree_dirent [of s s' c] by (cases "th_dirents s c"; fastforce simp: entry_of_def same_tree_def)

text \<open>The references while the scan stands at an entry, or is over.\<close>

definition at_pos :: "(nat \<Rightarrow> nat) \<Rightarrow> nat list \<Rightarrow> nat \<Rightarrow> nat" where
  "at_pos H cs = (case cs of [] \<Rightarrow> H | c # _ \<Rightarrow> add_ref H c)"

definition pos_of :: "nat list \<Rightarrow> nat option" where
  "pos_of cs = (case cs of [] \<Rightarrow> None | c # _ \<Rightarrow> Some c)"

lemma next_in_append: "distinct (us @ c # cs) \<Longrightarrow> next_in c (us @ c # cs) = pos_of cs"
  by (induction us) (auto simp: pos_of_def split: list.splits)

lemma seekdir_next:
  assumes "tmp_ok (add_ref H c) root s" "th_dirents s c \<noteq> None" "\<forall>x \<in> set cs. th_dirents s x \<noteq> None" "tfd_dir_pos f = Some c"
  shows "\<exists>s'. tmpfs_fd_seekdir (pos_of cs) f s = Some (f\<lparr>tfd_dir_pos := pos_of cs\<rparr>, s') \<and> same_tree s s' \<and> tmp_ok (at_pos H cs) root s'"
proof (cases cs)
  case Nil
  from dirent_release_ok [OF assms(1) _ assms(2)] show ?thesis using Nil assms(4) by (auto simp: tmpfs_fd_seekdir_def pos_of_def at_pos_def)
next
  case (Cons x xs)
  then obtain d where "th_dirents s x = Some d" using assms(3) by auto
  from dirent_retain_ok [OF assms(1) this] obtain s1 where s1: "tmp_dirent_retain x s = Some s1" "same_tree s s1"
      "tmp_ok (add_ref (add_ref H c) x) root s1" by blast
  have "th_dirents s1 c \<noteq> None" using same_tree_dirent(1) [OF s1(2), of c] assms(2) by simp
  from dirent_release_ok [OF s1(3) _ this] obtain s2 where s2: "tmp_dirent_release c s1 = Some s2" "same_tree s1 s2"
      "tmp_ok (drop_ref (add_ref (add_ref H c) x) c) root s2" by auto
  have "drop_ref (add_ref (add_ref H c) x) c = add_ref H x" by (simp add: add_drop_swap)
  then show ?thesis using s1 s2 Cons assms(4) same_tree_trans [OF s1(2) s2(2)]
    by (auto simp: tmpfs_fd_seekdir_def pos_of_def at_pos_def)
qed

lemma readdir_step:
  assumes "tmp_ok (add_ref H c) root s" "is_dir s p" "tfd_dirent f = Some p" "tfd_dir_pos f = Some c" "children s p = us @ c # cs"
  shows "\<exists>s'. tmpfs_readdir f s = Some (Some (entry_of s c), f\<lparr>tfd_dir_pos := pos_of cs\<rparr>, s') \<and> same_tree s s' \<and> tmp_ok (at_pos H cs) root s'"
proof -
  obtain d where d: "th_dirents s p = Some d" "td_children d = us @ c # cs" using assms(5) by (auto simp: children_def split: option.splits)
  have dk: "dirent_ok (add_ref H c) s p d" by (rule tmp_okD(2) [OF assms(1) d(1)])
  then have e: "th_dirents s x \<noteq> None" if "x \<in> set (us @ c # cs)" for x using that d(2) by (auto simp: dirent_ok_def)
  have "next_in c (td_children d) = pos_of cs" using next_in_append dk d(2) by (simp add: dirent_ok_def)
  moreover obtain s' where s': "tmpfs_fd_seekdir (pos_of cs) f s = Some (f\<lparr>tfd_dir_pos := pos_of cs\<rparr>, s')" "same_tree s s'" "tmp_ok (at_pos H cs) root s'"
    using seekdir_next [OF assms(1) e _ assms(4)] e by (metis in_set_conv_decomp in_set_conv_decomp_last list.set_intros(2) set_append Un_iff)
  obtain dc where dc: "th_dirents s c = Some dc" using e [of c] by auto
  then obtain k where "th_dirents s' c = Some (dc\<lparr>td_refcount := k\<rparr>)" using same_tree_dirent(2) [OF s'(2)] by blast
  moreover obtain n where "th_inodes s (td_inode dc) = Some n" using tmp_okD(2) [OF assms(1) dc] by (auto simp: dirent_ok_def)
  moreover have "th_inodes s' = th_inodes s" using s'(2) by (simp add: same_tree_def)
  moreover obtain m where "dirent_mode p s = Some m" "S_ISDIR m" using assms(2) by (auto simp: is_dir_def split: option.splits)
  ultimately show ?thesis using s' d(1) dc assms(3,4) by (simp add: tmpfs_readdir_def entry_of_def)
qed

lemma scan_from:
  assumes "tmp_ok (at_pos H cs) root s" "is_dir s p" "tfd_dirent f = Some p" "tfd_dir_pos f = pos_of cs" "children s p = us @ cs" "length cs < k"
  shows "\<exists>s'. scan k f s = Some (map (entry_of s) cs, f\<lparr>tfd_dir_pos := None\<rparr>, s') \<and> same_tree s s' \<and> tmp_ok H root s'"
  using assms
proof (induction cs arbitrary: us s f k)
  case Nil
  then obtain m where "dirent_mode p s = Some m" "S_ISDIR m" by (auto simp: is_dir_def split: option.splits)
  moreover obtain k' where "k = Suc k'" using Nil(6) by (cases k) auto
  moreover have "f\<lparr>tfd_dir_pos := None\<rparr> = f" using Nil(4) by (cases f) (simp add: pos_of_def)
  ultimately show ?case using Nil by (simp add: tmpfs_readdir_def pos_of_def at_pos_def)
next
  case (Cons c cs)
  obtain k' where k: "k = Suc k'" "length cs < k'" using Cons.prems(6) by (cases k) auto
  from readdir_step [where us = us and cs = cs and c = c and H = H, OF _ Cons.prems(2,3)] Cons.prems
  obtain s1 where s1: "tmpfs_readdir f s = Some (Some (entry_of s c), f\<lparr>tfd_dir_pos := pos_of cs\<rparr>, s1)" "same_tree s s1"
      "tmp_ok (at_pos H cs) root s1" by (auto simp: at_pos_def pos_of_def)
  note v = same_tree_walk [OF s1(2)]
  from Cons.IH [where us = "us @ [c]" and k = k' and f = "f\<lparr>tfd_dir_pos := pos_of cs\<rparr>", OF s1(3)] Cons.prems v k
  obtain s2 where s2: "scan k' (f\<lparr>tfd_dir_pos := pos_of cs\<rparr>) s1 = Some (map (entry_of s1) cs, f\<lparr>tfd_dir_pos := None\<rparr>, s2)"
      "same_tree s1 s2" "tmp_ok H root s2" by auto
  then show ?case using k s1 same_tree_trans [OF s1(2) s2(2)] same_tree_entry [OF s1(2)] by simp
qed

text \<open>Reading an open directory from its first entry returns the number and name of every child once, in the order
  they were made, and then the end; no call of it accesses a freed entry, the tree stays as it was and the reference that the position held is given back.\<close>

theorem tmpfs_readdir_lists:
  assumes "tmp_ok (at_pos H (children s p)) root s" "is_dir s p" "tfd_dirent f = Some p" "tfd_dir_pos f = pos_of (children s p)"
    "length (children s p) < k"
  shows "\<exists>s'. scan k f s = Some (map (entry_of s) (children s p), f\<lparr>tfd_dir_pos := None\<rparr>, s') \<and> same_tree s s' \<and> tmp_ok H root s'"
  by (rule scan_from [where us = "[]", OF assms(1-4) _ assms(5)]) simp

definition sample_dir :: tmp_heap where
  "sample_dir = \<lparr>th_inodes = (\<lambda>_. None)(0 \<mapsto> \<lparr>ti_refcount = 1, ti_mode = 0x41ff, ti_uid = 0, ti_gid = 0, ti_number = 1, ti_size = 0, ti_data = []\<rparr>,
       2 \<mapsto> \<lparr>ti_refcount = 1, ti_mode = 0x81a4, ti_uid = 0, ti_gid = 0, ti_number = 2, ti_size = 0, ti_data = []\<rparr>),
     th_dirents = (\<lambda>_. None)(1 \<mapsto> (tmp_dirent_init [] 0 0 None)\<lparr>td_children := [3, 4]\<rparr>,
       3 \<mapsto> (tmp_dirent_init ''a'' 2 0 (Some 1))\<lparr>td_refcount := 2\<rparr>, 4 \<mapsto> tmp_dirent_init ''b'' 2 1 (Some 1)),
     th_next = 5, th_next_inode = 3\<rparr>"

theorem tmpfs_readdir_lists_witness:
  "\<exists>s'. scan 3 \<lparr>tfd_dirent = Some 1, tfd_dir_pos = Some 3, tfd_offset = 0\<rparr> sample_dir
     = Some ([(2, ''a''), (2, ''b'')], \<lparr>tfd_dirent = Some 1, tfd_dir_pos = None, tfd_offset = 0\<rparr>, s')"
proof -
  let ?f = "\<lparr>tfd_dirent = Some (1::nat), tfd_dir_pos = Some (3::nat), tfd_offset = 0\<rparr>"
  have c: "children sample_dir 1 = [3, 4]" by (simp add: children_def sample_dir_def)
  have "tmp_ok (at_pos (\<lambda>_. 0) [3, 4]) 1 sample_dir"
    by (auto simp: tmp_ok_def dirent_ok_def sample_dir_def at_pos_def add_ref_def tmp_dirent_init_def inj_on_def)
  moreover have "is_dir sample_dir 1"
    by (simp add: is_dir_def dirent_mode_def sample_dir_def tmp_dirent_init_def S_ISDIR_def S_IFMT_def)
  ultimately obtain s' where "scan 3 ?f sample_dir = Some (map (entry_of sample_dir) [3, 4], ?f\<lparr>tfd_dir_pos := None\<rparr>, s')"
    using tmpfs_readdir_lists [of "\<lambda>_. 0" sample_dir 1 1 ?f 3] unfolding c by (auto simp: pos_of_def)
  moreover have "map (entry_of sample_dir) [3, 4] = [(2, ''a''), (2, ''b'')]"
    by (simp add: entry_of_def sample_dir_def tmp_dirent_init_def)
  ultimately show ?thesis by simp
qed

end
