(* ===== verification/Process.thy ===== *)
theory Process
  imports Signal
begin

text \<open>
  The life of processes: the table of \<^verbatim>\<open>kernel/task.c\<close>, process groups and sessions of \<^verbatim>\<open>kernel/group.c\<close>, clone
  (\<^verbatim>\<open>kernel/fork.c\<close>), exit and wait (\<^verbatim>\<open>kernel/exit.c\<close>) and the first process of \<^verbatim>\<open>kernel/init.c\<close>. Tasks and thread groups are
  objects of a heap, freed for ever when they leave it. The links of a group are the entry whose list it is on. Calls of other components
  that return nothing are an event log. \<open>None\<close> is undefined behaviour (a freed object, a null pointer) or a call that never returns.
\<close>

section \<open>Resource usage (kernel/resource.c)\<close>

record timeval =
  tv_sec :: u32
  tv_usec :: u32

record rusage =
  ru_utime :: timeval
  ru_stime :: timeval

definition timeval_add :: "timeval \<Rightarrow> timeval \<Rightarrow> timeval" where
  "timeval_add dst src =
     (let d = \<lparr>tv_sec = tv_sec dst + tv_sec src, tv_usec = tv_usec dst + tv_usec src\<rparr> in
      if tv_usec d \<ge> 1000000 then \<lparr>tv_sec = tv_sec d + 1, tv_usec = tv_usec d - 1000000\<rparr> else d)"

definition rusage_add :: "rusage \<Rightarrow> rusage \<Rightarrow> rusage" where
  "rusage_add dst src = \<lparr>ru_utime = timeval_add (ru_utime dst) (ru_utime src), ru_stime = timeval_add (ru_stime dst) (ru_stime src)\<rparr>"

definition no_rusage :: rusage where
  "no_rusage = \<lparr>ru_utime = \<lparr>tv_sec = 0, tv_usec = 0\<rparr>, ru_stime = \<lparr>tv_sec = 0, tv_usec = 0\<rparr>\<rparr>"

definition clock_from_timeval :: "timeval \<Rightarrow> u32" where
  "clock_from_timeval t = tv_sec t * 100 + tv_usec t div 10000"

section \<open>State\<close>

datatype resource = Res_mm | Res_files | Res_fs | Res_sighand

record proc_task =
  tk_pid :: nat
  tk_tgid :: nat
  tk_group :: nat
  tk_uid :: u32
  tk_euid :: u32
  tk_res :: "resource \<Rightarrow> nat option"
  tk_esp :: u32
  tk_eax :: u32
  tk_parent :: "nat option"
  tk_children :: "nat list"
  tk_exit_code :: u32
  tk_zombie :: bool
  tk_exiting :: bool
  tk_vfork :: "nat option"
  tk_exit_signal :: nat
  tk_pdeath_signal :: nat
  tk_clear_tid :: u32
  tk_robust_list :: u32
  tk_did_exec :: bool
  tk_traced :: bool
  tk_ptrace_stopped :: bool
  tk_ptrace_signal :: u32

record proc_group =
  tg_threads :: "nat list"
  tg_leader :: nat
  tg_rusage :: rusage
  tg_sid :: nat
  tg_pgid :: nat
  tg_session_link :: "nat option"
  tg_pgroup_link :: "nat option"
  tg_stopped :: bool
  tg_tty :: "nat option"
  tg_itimer :: bool
  tg_doing_group_exit :: bool
  tg_group_exit_code :: u32
  tg_children_rusage :: rusage

record pid_slot =
  slot_task :: "nat option"
  slot_session :: "nat list"
  slot_pgroup :: "nat list"

record child_info =
  ci_pid :: nat
  ci_uid :: u32
  ci_status :: u32
  ci_utime :: u32
  ci_stime :: u32

datatype proc_event =
    Ev_signal nat nat
  | Ev_child_signal nat nat child_info
  | Ev_deliver nat nat
  | Ev_child_exit nat
  | Ev_continued nat
  | Ev_futex_wake u32
  | Ev_timer_free nat
  | Ev_tty_retain nat
  | Ev_tty_no_session nat
  | Ev_tty_release nat
  | Ev_started nat
  | Ev_host_signal nat
  | Ev_exit_hook nat u32
  | Ev_unmount_all

record proc_world =
  pw_tasks :: "nat \<Rightarrow> proc_task option"
  pw_groups :: "nat \<Rightarrow> proc_group option"
  pw_pids :: "nat \<Rightarrow> pid_slot"
  pw_cur_pid :: nat
  pw_res :: "resource \<Rightarrow> nat \<Rightarrow> nat option"
  pw_vforks :: "nat \<Rightarrow> bool option"
  pw_next :: nat
  pw_locked :: bool
  pw_events :: "proc_event list"

definition put_task :: "nat \<Rightarrow> proc_task \<Rightarrow> proc_world \<Rightarrow> proc_world" where
  "put_task t T w = w\<lparr>pw_tasks := (pw_tasks w)(t \<mapsto> T)\<rparr>"

definition put_group :: "nat \<Rightarrow> proc_group \<Rightarrow> proc_world \<Rightarrow> proc_world" where
  "put_group g G w = w\<lparr>pw_groups := (pw_groups w)(g \<mapsto> G)\<rparr>"

definition put_pid :: "nat \<Rightarrow> pid_slot \<Rightarrow> proc_world \<Rightarrow> proc_world" where
  "put_pid i P w = w\<lparr>pw_pids := (pw_pids w)(i := P)\<rparr>"

definition emit :: "proc_event \<Rightarrow> proc_world \<Rightarrow> proc_world" where
  "emit e w = w\<lparr>pw_events := pw_events w @ [e]\<rparr>"

text \<open>\<open>pids_lock\<close>. A thread that takes it while it is held by one that never gives it back waits for ever.\<close>

definition lock_pids :: "proc_world \<Rightarrow> proc_world option" where
  "lock_pids w = (if pw_locked w then None else Some (w\<lparr>pw_locked := True\<rparr>))"

definition unlock_pids :: "proc_world \<Rightarrow> proc_world" where
  "unlock_pids w = w\<lparr>pw_locked := False\<rparr>"

section \<open>The table of process numbers\<close>

definition pid_empty :: "pid_slot \<Rightarrow> bool" where
  "pid_empty P \<longleftrightarrow> slot_task P = None \<and> slot_session P = [] \<and> slot_pgroup P = []"

text \<open>The table has \<open>MAX_PID + 1\<close> entries; the test of the bound lets the next number through. An id is the
  unsigned value of its 32 bits.\<close>

definition pid_get :: "nat \<Rightarrow> proc_world \<Rightarrow> nat option option" where
  "pid_get i w =
     (if i > MAX_PID + 1 then Some None
      else if i = MAX_PID + 1 then None
      else Some (if pid_empty (pw_pids w i) then None else Some i))"

definition pid_get_task_zombie :: "nat \<Rightarrow> proc_world \<Rightarrow> nat option option" where
  "pid_get_task_zombie i w = do { p \<leftarrow> pid_get i w; Some (case p of None \<Rightarrow> None | Some k \<Rightarrow> slot_task (pw_pids w k)) }"

definition pid_get_task :: "nat \<Rightarrow> proc_world \<Rightarrow> nat option option" where
  "pid_get_task i w = do {
     t \<leftarrow> pid_get_task_zombie i w;
     case t of None \<Rightarrow> Some None
     | Some k \<Rightarrow> do { T \<leftarrow> pw_tasks w k; Some (if tk_zombie T then None else Some k) }
   }"

text \<open>The search for a free number goes round the table from the last one given out; after \<open>MAX_PID\<close> steps it has
  seen every number, and if none is free it goes on for ever.\<close>

definition succ_pid :: "nat \<Rightarrow> nat" where
  "succ_pid cur = (if cur + 1 > MAX_PID then 1 else cur + 1)"

fun next_pid :: "nat \<Rightarrow> (nat \<Rightarrow> pid_slot) \<Rightarrow> nat \<Rightarrow> nat option" where
  "next_pid 0 pids cur = None"
| "next_pid (Suc n) pids cur = (let c = succ_pid cur in if pid_empty (pids c) then Some c else next_pid n pids c)"

definition new_task :: "nat \<Rightarrow> proc_task" where
  "new_task pid = \<lparr>tk_pid = pid, tk_tgid = 0, tk_group = 0, tk_uid = 0, tk_euid = 0, tk_res = \<lambda>_. None, tk_esp = 0, tk_eax = 0,
     tk_parent = None, tk_children = [], tk_exit_code = 0, tk_zombie = False, tk_exiting = False, tk_vfork = None,
     tk_exit_signal = 0, tk_pdeath_signal = 0, tk_clear_tid = 0, tk_robust_list = 0, tk_did_exec = False,
     tk_traced = False, tk_ptrace_stopped = False, tk_ptrace_signal = 0\<rparr>"

text \<open>Without memory for the task the function returns with the lock held.\<close>

definition task_create :: "bool \<Rightarrow> nat option \<Rightarrow> proc_world \<Rightarrow> (nat option \<times> proc_world) option" where
  "task_create al parent w = do {
     w1 \<leftarrow> lock_pids w;
     pid \<leftarrow> next_pid MAX_PID (pw_pids w1) (pw_cur_pid w1);
     let w2 = put_pid pid ((pw_pids w1 pid)\<lparr>slot_session := [], slot_pgroup := []\<rparr>) (w1\<lparr>pw_cur_pid := pid\<rparr>);
     if \<not> al then Some (None, w2)
     else do {
       let t = pw_next w2;
       let w3 = put_pid pid ((pw_pids w2 pid)\<lparr>slot_task := Some t\<rparr>) (w2\<lparr>pw_next := t + 1\<rparr>);
       w4 \<leftarrow> (case parent of
           None \<Rightarrow> Some (put_task t (new_task pid) w3)
         | Some p \<Rightarrow> do {
             P \<leftarrow> pw_tasks w3 p;
             Some (put_task p (P\<lparr>tk_children := t # tk_children P\<rparr>)
                     (put_task t (P\<lparr>tk_pid := pid, tk_parent := Some p, tk_children := [], tk_pdeath_signal := 0, tk_clear_tid := 0,
                                    tk_robust_list := 0, tk_did_exec := False\<rparr>) w3))
           });
       Some (Some t, unlock_pids w4)
     }
   }"

text \<open>Taking a task out of its parent's list of children; the first process is on no list.\<close>

definition unlink_sibling :: "nat \<Rightarrow> proc_world \<Rightarrow> proc_world option" where
  "unlink_sibling t w = do {
     T \<leftarrow> pw_tasks w t;
     case tk_parent T of
       None \<Rightarrow> Some w
     | Some p \<Rightarrow> do { P \<leftarrow> pw_tasks w p; Some (put_task p (P\<lparr>tk_children := remove1 t (tk_children P)\<rparr>) w) }
   }"

definition task_destroy :: "nat \<Rightarrow> proc_world \<Rightarrow> proc_world option" where
  "task_destroy t w = do {
     w1 \<leftarrow> unlink_sibling t w;
     T \<leftarrow> pw_tasks w1 t;
     p \<leftarrow> pid_get (tk_pid T) w1;
     i \<leftarrow> p;
     let w2 = put_pid i ((pw_pids w1 i)\<lparr>slot_task := None\<rparr>) w1;
     Some (w2\<lparr>pw_tasks := (pw_tasks w2)(t := None)\<rparr>)
   }"

section \<open>Process groups and sessions (kernel/group.c)\<close>

text \<open>Taking a group off a list that it must be on, or may be on.\<close>

definition unlink_pgroup :: "nat \<Rightarrow> proc_world \<Rightarrow> proc_world option" where
  "unlink_pgroup g w = do {
     G \<leftarrow> pw_groups w g;
     i \<leftarrow> tg_pgroup_link G;
     let P = pw_pids w i;
     Some (put_group g (G\<lparr>tg_pgroup_link := None\<rparr>) (put_pid i (P\<lparr>slot_pgroup := remove1 g (slot_pgroup P)\<rparr>) w))
   }"

definition unlink_pgroup_safe :: "nat \<Rightarrow> proc_world \<Rightarrow> proc_world option" where
  "unlink_pgroup_safe g w = do { G \<leftarrow> pw_groups w g; if tg_pgroup_link G = None then Some w else unlink_pgroup g w }"

definition unlink_session_safe :: "nat \<Rightarrow> proc_world \<Rightarrow> proc_world option" where
  "unlink_session_safe g w = do {
     G \<leftarrow> pw_groups w g;
     case tg_session_link G of
       None \<Rightarrow> Some w
     | Some i \<Rightarrow> let P = pw_pids w i in
         Some (put_group g (G\<lparr>tg_session_link := None\<rparr>) (put_pid i (P\<lparr>slot_session := remove1 g (slot_session P)\<rparr>) w))
   }"

definition link_pgroup :: "nat \<Rightarrow> nat \<Rightarrow> proc_world \<Rightarrow> proc_world option" where
  "link_pgroup i g w = do {
     G \<leftarrow> pw_groups w g;
     let P = pw_pids w i;
     Some (put_group g (G\<lparr>tg_pgroup_link := Some i\<rparr>) (put_pid i (P\<lparr>slot_pgroup := g # slot_pgroup P\<rparr>) w))
   }"

definition link_session :: "nat \<Rightarrow> nat \<Rightarrow> proc_world \<Rightarrow> proc_world option" where
  "link_session i g w = do {
     G \<leftarrow> pw_groups w g;
     let P = pw_pids w i;
     Some (put_group g (G\<lparr>tg_session_link := Some i\<rparr>) (put_pid i (P\<lparr>slot_session := g # slot_session P\<rparr>) w))
   }"

text \<open>The part of \<open>sys_setpgid\<close> between taking and giving back the lock; \<open>cur\<close> is the calling task.\<close>

definition setpgid_locked :: "nat \<Rightarrow> nat \<Rightarrow> nat \<Rightarrow> proc_world \<Rightarrow> (unit result \<times> proc_world) option" where
  "setpgid_locked cur i pgid w = do {
     pid \<leftarrow> pid_get i w;
     case pid of
       None \<Rightarrow> Some (Inl ESRCH, w)
     | Some k \<Rightarrow> (case slot_task (pw_pids w k) of
         None \<Rightarrow> Some (Inl ESRCH, w)
       | Some task \<Rightarrow> do {
           T \<leftarrow> pw_tasks w task;
           G \<leftarrow> pw_groups w (tk_group T);
           refused \<leftarrow> (if i = pgid then Some False
             else do {
               gp \<leftarrow> pid_get pgid w;
               case gp of
                 None \<Rightarrow> Some True
               | Some j \<Rightarrow> (case slot_pgroup (pw_pids w j) of
                   [] \<Rightarrow> Some True
                 | g # _ \<Rightarrow> do { F \<leftarrow> pw_groups w g; Some (tg_sid G \<noteq> tg_sid F) })
             });
           if refused then Some (Inl EPERM, w)
           else if task \<noteq> cur \<and> tk_parent T \<noteq> Some cur then Some (Inl ESRCH, w)
           else do {
             L \<leftarrow> pw_tasks w (tg_leader G);
             if tg_sid G = tk_pid L then Some (Inl EPERM, w)
             else if tg_pgid G = pgid then Some (Inr (), w)
             else do {
               w1 \<leftarrow> unlink_pgroup (tk_group T) w;
               G1 \<leftarrow> pw_groups w1 (tk_group T);
               w2 \<leftarrow> link_pgroup k (tk_group T) (put_group (tk_group T) (G1\<lparr>tg_pgid := pgid\<rparr>) w1);
               Some (Inr (), w2)
             }
           }
         })
   }"

definition sys_setpgid :: "nat \<Rightarrow> nat \<Rightarrow> nat \<Rightarrow> proc_world \<Rightarrow> (unit result \<times> proc_world) option" where
  "sys_setpgid cur i pgid w = do {
     C \<leftarrow> pw_tasks w cur;
     let i' = (if i = 0 then tk_pid C else i);
     let pgid' = (if pgid = 0 then i' else pgid);
     w1 \<leftarrow> lock_pids w;
     (r, w2) \<leftarrow> setpgid_locked cur i' pgid' w1;
     Some (r, unlock_pids w2)
   }"

definition sys_setpgrp :: "nat \<Rightarrow> proc_world \<Rightarrow> (unit result \<times> proc_world) option" where
  "sys_setpgrp cur w = sys_setpgid cur 0 0 w"

definition sys_getpgid :: "nat \<Rightarrow> nat \<Rightarrow> proc_world \<Rightarrow> (nat result \<times> proc_world) option" where
  "sys_getpgid cur i w = do {
     w1 \<leftarrow> lock_pids w;
     task \<leftarrow> (if i \<noteq> 0 then pid_get_task i w1 else Some (Some cur));
     case task of
       None \<Rightarrow> Some (Inl ESRCH, unlock_pids w1)
     | Some t \<Rightarrow> do { T \<leftarrow> pw_tasks w1 t; G \<leftarrow> pw_groups w1 (tk_group T); Some (Inr (tg_pgid G), unlock_pids w1) }
   }"

definition sys_getpgrp :: "nat \<Rightarrow> proc_world \<Rightarrow> (nat result \<times> proc_world) option" where
  "sys_getpgrp cur w = sys_getpgid cur 0 w"

definition task_leave_session :: "nat \<Rightarrow> proc_world \<Rightarrow> proc_world option" where
  "task_leave_session task w = do {
     T \<leftarrow> pw_tasks w task;
     let g = tk_group T;
     w1 \<leftarrow> unlink_session_safe g w;
     G \<leftarrow> pw_groups w1 g;
     case tg_tty G of
       None \<Rightarrow> Some w1
     | Some tty \<Rightarrow> do {
         p \<leftarrow> pid_get (tg_sid G) w1;
         i \<leftarrow> p;
         let w2 = (if slot_session (pw_pids w1 i) = [] then emit (Ev_tty_no_session tty) w1 else w1);
         Some (put_group g (G\<lparr>tg_tty := None\<rparr>) (emit (Ev_tty_release tty) w2))
       }
   }"

definition task_setsid :: "nat \<Rightarrow> proc_world \<Rightarrow> (nat result \<times> proc_world) option" where
  "task_setsid task w = do {
     w1 \<leftarrow> lock_pids w;
     T \<leftarrow> pw_tasks w1 task;
     let g = tk_group T;
     G \<leftarrow> pw_groups w1 g;
     L \<leftarrow> pw_tasks w1 (tg_leader G);
     let new_sid = tk_pid L;
     if tg_pgid G = new_sid \<or> tg_sid G = new_sid then Some (Inl EPERM, unlock_pids w1)
     else do {
       w2 \<leftarrow> task_leave_session task w1;
       p \<leftarrow> pid_get (tk_pid T) w2;
       i \<leftarrow> p;
       w3 \<leftarrow> link_session i g w2;
       G3 \<leftarrow> pw_groups w3 g;
       w4 \<leftarrow> unlink_pgroup_safe g (put_group g (G3\<lparr>tg_sid := new_sid\<rparr>) w3);
       w5 \<leftarrow> link_pgroup i g w4;
       G5 \<leftarrow> pw_groups w5 g;
       Some (Inr new_sid, unlock_pids (put_group g (G5\<lparr>tg_pgid := new_sid\<rparr>) w5))
     }
   }"

definition sys_getsid :: "nat \<Rightarrow> proc_world \<Rightarrow> (nat \<times> proc_world) option" where
  "sys_getsid cur w = do {
     w1 \<leftarrow> lock_pids w;
     C \<leftarrow> pw_tasks w1 cur;
     G \<leftarrow> pw_groups w1 (tk_group C);
     Some (tg_sid G, unlock_pids w1)
   }"

text \<open>The calls of \<^verbatim>\<open>kernel/getset.c\<close> that read the numbers of a task, its parent and its groups.\<close>

definition sys_getpid :: "nat \<Rightarrow> proc_world \<Rightarrow> nat option" where
  "sys_getpid cur w = map_option tk_tgid (pw_tasks w cur)"

definition sys_gettid :: "nat \<Rightarrow> proc_world \<Rightarrow> nat option" where
  "sys_gettid cur w = map_option tk_pid (pw_tasks w cur)"

definition sys_getppid :: "nat \<Rightarrow> proc_world \<Rightarrow> (nat \<times> proc_world) option" where
  "sys_getppid cur w = do {
     w1 \<leftarrow> lock_pids w;
     C \<leftarrow> pw_tasks w1 cur;
     G \<leftarrow> pw_groups w1 (tk_group C);
     L \<leftarrow> pw_tasks w1 (tg_leader G);
     case tk_parent L of
       None \<Rightarrow> Some (0, unlock_pids w1)
     | Some p \<Rightarrow> do { P \<leftarrow> pw_tasks w1 p; Some (tk_tgid P, unlock_pids w1) }
   }"

end
