(* ===== verification/Process_Life.thy ===== *)
theory Process_Life
  imports Process
begin

text \<open>
  Clone (\<^verbatim>\<open>kernel/fork.c\<close>), exit and wait (\<^verbatim>\<open>kernel/exit.c\<close>) and the construction of the first processes (\<^verbatim>\<open>kernel/init.c\<close>)
  on the tables of \<open>Process\<close>.
\<close>

section \<open>Shared resources\<close>

definition res_retain :: "resource \<Rightarrow> nat \<Rightarrow> proc_world \<Rightarrow> proc_world option" where
  "res_retain r x w = do {
     n \<leftarrow> pw_res w r x;
     Some (w\<lparr>pw_res := (pw_res w)(r := (pw_res w r)(x \<mapsto> n + 1))\<rparr>)
   }"

definition res_release :: "resource \<Rightarrow> nat option \<Rightarrow> proc_world \<Rightarrow> proc_world option" where
  "res_release r h w = do {
     x \<leftarrow> h;
     n \<leftarrow> pw_res w r x;
     Some (w\<lparr>pw_res := (pw_res w)(r := (pw_res w r)(x := (if n = 1 then None else Some (n - 1))))\<rparr>)
   }"

definition res_new :: "resource \<Rightarrow> proc_world \<Rightarrow> nat \<times> proc_world" where
  "res_new r w = (pw_next w, w\<lparr>pw_res := (pw_res w)(r := (pw_res w r)(pw_next w \<mapsto> 1)), pw_next := pw_next w + 1\<rparr>)"

definition set_handle :: "nat \<Rightarrow> resource \<Rightarrow> nat option \<Rightarrow> proc_world \<Rightarrow> proc_world option" where
  "set_handle t r h w = do { T \<leftarrow> pw_tasks w t; Some (put_task t (T\<lparr>tk_res := (tk_res T)(r := h)\<rparr>) w) }"

text \<open>The task shares the object of its parent, or gets a copy of its own; \<open>None\<close> in the result: no memory for the copy.\<close>

definition share_or_copy :: "bool \<Rightarrow> bool \<Rightarrow> resource \<Rightarrow> nat \<Rightarrow> proc_world \<Rightarrow> (bool \<times> proc_world) option" where
  "share_or_copy share al r t w = do {
     T \<leftarrow> pw_tasks w t;
     x \<leftarrow> tk_res T r;
     n \<leftarrow> pw_res w r x;
     if share then do { w' \<leftarrow> res_retain r x w; Some (True, w') }
     else if \<not> al then do { w' \<leftarrow> set_handle t r None w; Some (False, w') }
     else do {
       let (y, w1) = res_new r w;
       w2 \<leftarrow> set_handle t r (Some y) w1;
       Some (True, w2)
     }
   }"

section \<open>Clone (kernel/fork.c)\<close>

definition CLONE_VM :: u32 where "CLONE_VM = 0x100"
definition CLONE_FS :: u32 where "CLONE_FS = 0x200"
definition CLONE_FILES :: u32 where "CLONE_FILES = 0x400"
definition CLONE_SIGHAND :: u32 where "CLONE_SIGHAND = 0x800"
definition CLONE_VFORK :: u32 where "CLONE_VFORK = 0x4000"
definition CLONE_THREAD :: u32 where "CLONE_THREAD = 0x10000"
definition CLONE_SETTLS :: u32 where "CLONE_SETTLS = 0x80000"
definition CLONE_PARENT_SETTID :: u32 where "CLONE_PARENT_SETTID = 0x100000"
definition CLONE_CHILD_CLEARTID :: u32 where "CLONE_CHILD_CLEARTID = 0x200000"
definition CLONE_CHILD_SETTID :: u32 where "CLONE_CHILD_SETTID = 0x1000000"
definition CSIGNAL :: u32 where "CSIGNAL = 0xff"

text \<open>VM, FILES, FS, SIGHAND, SYSVSEM, VFORK, THREAD, SETTLS, CHILD_SETTID, PARENT_SETTID, CHILD_CLEARTID, DETACHED.\<close>

definition IMPLEMENTED_FLAGS :: u32 where "IMPLEMENTED_FLAGS = 0x17d4f00"

text \<open>What clone asks of the host and of guest memory: whether allocations succeed (of the task, the memory map, the
  descriptor table, the file system data, the handlers and the group), the result of setting the thread area, and whether
  an address can be written.\<close>

record clone_env =
  ce_task :: bool
  ce_mm :: bool
  ce_files :: bool
  ce_fs :: bool
  ce_sighand :: bool
  ce_group :: bool
  ce_tls :: "errno option"
  ce_child_put :: bool
  ce_parent_put :: bool

fun insert_after :: "nat \<Rightarrow> nat \<Rightarrow> nat list \<Rightarrow> nat list" where
  "insert_after x y [] = []"
| "insert_after x y (z # zs) = (if z = x then z # y # zs else z # insert_after x y zs)"

text \<open>The copy of a group goes right behind the old one in both of its lists; both links must be set.\<close>

definition tgroup_copy :: "bool \<Rightarrow> nat \<Rightarrow> proc_world \<Rightarrow> (nat \<times> proc_world) option" where
  "tgroup_copy al old w = do {
     G \<leftarrow> pw_groups w old;
     if \<not> al then None
     else do {
       i \<leftarrow> tg_pgroup_link G;
       j \<leftarrow> tg_session_link G;
       let g = pw_next w;
       let w1 = put_pid i ((pw_pids w i)\<lparr>slot_pgroup := insert_after old g (slot_pgroup (pw_pids w i))\<rparr>) (w\<lparr>pw_next := g + 1\<rparr>);
       let w2 = put_pid j ((pw_pids w1 j)\<lparr>slot_session := insert_after old g (slot_session (pw_pids w1 j))\<rparr>) w1;
       let w3 = put_group g (G\<lparr>tg_threads := [], tg_itimer := False, tg_doing_group_exit := False, tg_children_rusage := no_rusage\<rparr>) w2;
       Some (g, case tg_tty G of None \<Rightarrow> w3 | Some tty \<Rightarrow> emit (Ev_tty_retain tty) w3)
     }
   }"

text \<open>The error exits of \<open>copy_task\<close> release what was retained or copied, from the step that failed backwards.\<close>

fun release_all :: "resource list \<Rightarrow> nat \<Rightarrow> proc_world \<Rightarrow> proc_world option" where
  "release_all [] t w = Some w"
| "release_all (r # rs) t w = do { T \<leftarrow> pw_tasks w t; w' \<leftarrow> res_release r (tk_res T r) w; release_all rs t w' }"

text \<open>The first half: the four objects. The error that \<open>fs_info_copy\<close> would report is never seen: it
  uses its new object without a test.\<close>

definition copy_resources :: "clone_env \<Rightarrow> nat \<Rightarrow> u32 \<Rightarrow> proc_world \<Rightarrow> (unit result \<times> proc_world) option" where
  "copy_resources env t flags w = do {
     (_, w1) \<leftarrow> share_or_copy (tst flags CLONE_VM) (ce_mm env) Res_mm t w;
     (ok, w2) \<leftarrow> share_or_copy (tst flags CLONE_FILES) (ce_files env) Res_files t w1;
     if \<not> ok then do { w' \<leftarrow> release_all [Res_mm] t w2; Some (Inl ENOMEM, w') }
     else do {
       (ok, w3) \<leftarrow> share_or_copy (tst flags CLONE_FS) (ce_fs env) Res_fs t w2;
       if \<not> ok then None
       else do {
         (ok, w4) \<leftarrow> share_or_copy (tst flags CLONE_SIGHAND) (ce_sighand env) Res_sighand t w3;
         if \<not> ok then do { w' \<leftarrow> release_all [Res_fs, Res_files, Res_mm] t w4; Some (Inl ENOMEM, w') }
         else Some (Inr (), w4)
       }
     }
   }"

text \<open>Joining the group of the parent, or one of its own.\<close>

definition join_group :: "bool \<Rightarrow> nat \<Rightarrow> u32 \<Rightarrow> proc_world \<Rightarrow> proc_world option" where
  "join_group al t flags w = do {
     T \<leftarrow> pw_tasks w t;
     w1 \<leftarrow> lock_pids w;
     w2 \<leftarrow> (if tst flags CLONE_THREAD then Some w1
        else do {
          (g, w') \<leftarrow> tgroup_copy al (tk_group T) w1;
          G \<leftarrow> pw_groups w' g;
          Some (put_task t (T\<lparr>tk_group := g, tk_tgid := tk_pid T\<rparr>) (put_group g (G\<lparr>tg_leader := t\<rparr>) w'))
        });
     T2 \<leftarrow> pw_tasks w2 t;
     G2 \<leftarrow> pw_groups w2 (tk_group T2);
     Some (unlock_pids (put_group (tk_group T2) (G2\<lparr>tg_threads := t # tg_threads G2\<rparr>) w2))
   }"

text \<open>What may still fail once the task is in its group: the first failure of thread area, child's and parent's copy of the id.\<close>

definition late_error :: "clone_env \<Rightarrow> u32 \<Rightarrow> errno option" where
  "late_error env flags =
     (if tst flags CLONE_SETTLS \<and> ce_tls env \<noteq> None then ce_tls env
      else if tst flags CLONE_CHILD_SETTID \<and> \<not> ce_child_put env then Some EFAULT
      else if tst flags CLONE_PARENT_SETTID \<and> \<not> ce_parent_put env then Some EFAULT
      else None)"

definition copy_task :: "clone_env \<Rightarrow> nat \<Rightarrow> u32 \<Rightarrow> u32 \<Rightarrow> u32 \<Rightarrow> proc_world \<Rightarrow> (unit result \<times> proc_world) option" where
  "copy_task env t flags stack ctid w = do {
     T \<leftarrow> pw_tasks w t;
     let w0 = put_task t (T\<lparr>tk_vfork := None, tk_esp := (if stack \<noteq> 0 then stack else tk_esp T)\<rparr>) w;
     (r, w1) \<leftarrow> copy_resources env t flags w0;
     case r of
       Inl e \<Rightarrow> Some (Inl e, w1)
     | Inr _ \<Rightarrow> do {
         w2 \<leftarrow> join_group (ce_group env) t flags w1;
         case late_error env flags of
           Some e \<Rightarrow> do { w' \<leftarrow> release_all [Res_sighand, Res_fs, Res_files, Res_mm] t w2; Some (Inl e, w') }
         | None \<Rightarrow> do {
             T2 \<leftarrow> pw_tasks w2 t;
             Some (Inr (), put_task t (T2\<lparr>tk_clear_tid := (if tst flags CLONE_CHILD_CLEARTID then ctid else tk_clear_tid T2),
                                          tk_exit_signal := unat (flags AND CSIGNAL)\<rparr>) w2)
           }
       }
   }"

text \<open>The second half of \<open>sys_clone\<close>, when the task is made: it is started, and its number is the result.\<close>

definition start_clone :: "nat \<Rightarrow> nat \<Rightarrow> u32 \<Rightarrow> proc_world \<Rightarrow> (nat \<times> nat option \<times> proc_world) option" where
  "start_clone cur t flags w = do {
     T \<leftarrow> pw_tasks w t;
     C \<leftarrow> pw_tasks w cur;
     let v = (if tst flags CLONE_VFORK then Some (pw_next w) else None);
     let w1 = put_task t (T\<lparr>tk_eax := 0, tk_vfork := v\<rparr>)
                (if v = None then w else w\<lparr>pw_vforks := (pw_vforks w)(pw_next w \<mapsto> False), pw_next := pw_next w + 1\<rparr>);
     let w2 = (if tk_traced C then emit (Ev_signal cur 5) w1 else w1);
     Some (tk_pid T, v, emit (Ev_started t) w2)
   }"

text \<open>\<open>vfork\<close> waits until the child says it is done; \<open>others\<close> is what other threads do in each sleep. Then it clears
  a field of the child, which may have been reaped by another thread.\<close>

fun vfork_wait :: "nat \<Rightarrow> nat \<Rightarrow> (proc_world \<Rightarrow> proc_world) list \<Rightarrow> proc_world \<Rightarrow> proc_world option" where
  "vfork_wait v t others w =
     (case pw_vforks w v of
        None \<Rightarrow> None
      | Some True \<Rightarrow> do {
          T \<leftarrow> pw_tasks w t;
          Some ((put_task t (T\<lparr>tk_vfork := None\<rparr>) w)\<lparr>pw_vforks := (pw_vforks w)(v := None)\<rparr>)
        }
      | Some False \<Rightarrow> (case others of [] \<Rightarrow> None | f # fs \<Rightarrow> vfork_wait v t fs (f w)))"

definition clone_flags_error :: "u32 \<Rightarrow> bool" where
  "clone_flags_error flags \<longleftrightarrow>
     flags AND NOT CSIGNAL AND NOT IMPLEMENTED_FLAGS \<noteq> 0 \<or> tst flags CLONE_SIGHAND \<and> \<not> tst flags CLONE_VM
     \<or> tst flags CLONE_THREAD \<and> \<not> tst flags CLONE_SIGHAND"

definition sys_clone ::
  "clone_env \<Rightarrow> (proc_world \<Rightarrow> proc_world) list \<Rightarrow> nat \<Rightarrow> u32 \<Rightarrow> u32 \<Rightarrow> u32 \<Rightarrow> proc_world \<Rightarrow> (nat result \<times> proc_world) option" where
  "sys_clone env others cur flags stack ctid w =
     (if clone_flags_error flags then Some (Inl EINVAL, w)
      else do {
        (task, w1) \<leftarrow> task_create (ce_task env) (Some cur) w;
        case task of
          None \<Rightarrow> Some (Inl ENOMEM, w1)
        | Some t \<Rightarrow> do {
            (r, w2) \<leftarrow> copy_task env t flags stack ctid w1;
            case r of
              Inl e \<Rightarrow> do { w3 \<leftarrow> lock_pids w2; w4 \<leftarrow> task_destroy t w3; Some (Inl e, unlock_pids w4) }
            | Inr _ \<Rightarrow> do {
                (pid, v, w3) \<leftarrow> start_clone cur t flags w2;
                w4 \<leftarrow> (case v of None \<Rightarrow> Some w3 | Some v \<Rightarrow> vfork_wait v t others w3);
                Some (Inr pid, w4)
              }
          }
      })"

definition sys_fork :: "clone_env \<Rightarrow> nat \<Rightarrow> proc_world \<Rightarrow> (nat result \<times> proc_world) option" where
  "sys_fork env cur w = sys_clone env [] cur (of_nat SIGCHLD) 0 0 w"

definition sys_vfork :: "clone_env \<Rightarrow> (proc_world \<Rightarrow> proc_world) list \<Rightarrow> nat \<Rightarrow> proc_world \<Rightarrow> (nat result \<times> proc_world) option" where
  "sys_vfork env others cur w = sys_clone env others cur (CLONE_VFORK OR CLONE_VM OR of_nat SIGCHLD) 0 0 w"

definition vfork_notify :: "nat \<Rightarrow> proc_world \<Rightarrow> proc_world option" where
  "vfork_notify t w = do {
     T \<leftarrow> pw_tasks w t;
     case tk_vfork T of
       None \<Rightarrow> Some w
     | Some v \<Rightarrow> do { _ \<leftarrow> pw_vforks w v; Some (w\<lparr>pw_vforks := (pw_vforks w)(v \<mapsto> True)\<rparr>) }
   }"

section \<open>Exit (kernel/exit.c)\<close>

definition exit_tgroup :: "nat \<Rightarrow> proc_world \<Rightarrow> (bool \<times> proc_world) option" where
  "exit_tgroup t w = do {
     T \<leftarrow> pw_tasks w t;
     G \<leftarrow> pw_groups w (tk_group T);
     let G1 = G\<lparr>tg_threads := remove1 t (tg_threads G)\<rparr>;
     let w1 = put_group (tk_group T) G1 w;
     let dead = (tg_threads G1 = []);
     Some (dead, if dead \<and> tg_itimer G then emit (Ev_timer_free (tk_group T)) w1 else w1)
   }"

fun first_running :: "nat list \<Rightarrow> proc_world \<Rightarrow> nat option option" where
  "first_running [] w = Some None"
| "first_running (t # ts) w = do { T \<leftarrow> pw_tasks w t; if \<not> tk_exiting T then Some (Some t) else first_running ts w }"

definition find_new_parent :: "nat \<Rightarrow> proc_world \<Rightarrow> nat option option" where
  "find_new_parent t w = do {
     T \<leftarrow> pw_tasks w t;
     G \<leftarrow> pw_groups w (tk_group T);
     f \<leftarrow> first_running (tg_threads G) w;
     case f of Some p \<Rightarrow> Some (Some p) | None \<Rightarrow> pid_get_task 1 w
   }"

text \<open>Giving the children to a new parent, which may be a null pointer when there is no init any more.\<close>

fun reparent :: "nat \<Rightarrow> nat option \<Rightarrow> nat list \<Rightarrow> proc_world \<Rightarrow> proc_world option" where
  "reparent cur np [] w = Some w"
| "reparent cur np (c # cs) w = do {
     K \<leftarrow> pw_tasks w c;
     let w1 = (if tk_pdeath_signal K \<noteq> 0 \<and> \<not> tk_exiting K \<and> \<not> tk_zombie K then emit (Ev_signal c (tk_pdeath_signal K)) w else w);
     C \<leftarrow> pw_tasks w1 cur;
     let w2 = put_task cur (C\<lparr>tk_children := remove1 c (tk_children C)\<rparr>) w1;
     K2 \<leftarrow> pw_tasks w2 c;
     let w3 = put_task c (K2\<lparr>tk_parent := np\<rparr>) w2;
     p \<leftarrow> np;
     P \<leftarrow> pw_tasks w3 p;
     reparent cur np cs (put_task p (P\<lparr>tk_children := c # tk_children P\<rparr>) w3)
   }"

text \<open>The scan of the table when the first process ends; \<open>wait\<close> is what the other threads do in a second of sleep.\<close>

fun halt_scan :: "nat \<Rightarrow> nat list \<Rightarrow> proc_world \<Rightarrow> (nat \<times> proc_world) option" where
  "halt_scan st [] w = Some (0, w)"
| "halt_scan st (i # is) w = do {
     t \<leftarrow> pid_get_task i w;
     case t of
       None \<Rightarrow> halt_scan st is w
     | Some k \<Rightarrow> do {
         T \<leftarrow> pw_tasks w k;
         if tk_exiting T \<or> tk_zombie T then halt_scan st is w
         else do {
           (n, w') \<leftarrow> halt_scan st is (emit (if st = 0 then Ev_deliver k 15 else if st = 1 then Ev_deliver k 9 else Ev_host_signal k) w);
           Some (n + 1, w')
         }
       }
   }"

fun halt_rounds :: "(nat \<Rightarrow> proc_world \<Rightarrow> proc_world) \<Rightarrow> nat list \<Rightarrow> proc_world \<Rightarrow> proc_world option" where
  "halt_rounds others [] w = Some w"
| "halt_rounds others (st # sts) w = do {
     (n, w1) \<leftarrow> halt_scan st [2..<MAX_PID] w;
     if n = 0 then Some w1
     else if st \<noteq> 2 then do { w2 \<leftarrow> lock_pids (others st (unlock_pids w1)); halt_rounds others sts w2 }
     else halt_rounds others sts w1
   }"

definition halt_system :: "(nat \<Rightarrow> proc_world \<Rightarrow> proc_world) \<Rightarrow> proc_world \<Rightarrow> proc_world option" where
  "halt_system others w = do { w1 \<leftarrow> halt_rounds others [0, 1, 2] w; Some (emit Ev_unmount_all w1) }"

text \<open>The tail of \<open>do_exit\<close>, under the lock: the parent hears of the death of the last thread of a group.\<close>

definition notify_parent ::
  "(nat \<Rightarrow> proc_world \<Rightarrow> proc_world) \<Rightarrow> bool \<Rightarrow> nat \<Rightarrow> nat \<Rightarrow> u32 \<Rightarrow> rusage \<Rightarrow> proc_world \<Rightarrow> proc_world option" where
  "notify_parent others hook cur leader status ru w = do {
     L \<leftarrow> pw_tasks w leader;
     w1 \<leftarrow> (case tk_parent L of
         None \<Rightarrow> halt_system others w
       | Some p \<Rightarrow> do {
           P \<leftarrow> pw_tasks w p;
           let w1 = emit (Ev_child_exit (tk_group P)) (put_task leader (L\<lparr>tk_zombie := True\<rparr>) w);
           C \<leftarrow> pw_tasks w1 cur;
           Some (if tk_exit_signal L \<noteq> 0
             then emit (Ev_child_signal p (tk_exit_signal L)
                    \<lparr>ci_pid = tk_pid C, ci_uid = tk_uid C, ci_status = tk_exit_code C,
                     ci_utime = clock_from_timeval (ru_utime ru), ci_stime = clock_from_timeval (ru_stime ru)\<rparr>) w1
             else w1)
         });
     Some (if hook then emit (Ev_exit_hook cur status) w1 else w1)
   }"

definition exit_locked ::
  "(nat \<Rightarrow> proc_world \<Rightarrow> proc_world) \<Rightarrow> bool \<Rightarrow> nat \<Rightarrow> u32 \<Rightarrow> rusage \<Rightarrow> proc_world \<Rightarrow> proc_world option" where
  "exit_locked others hook cur status ru w = do {
     C \<leftarrow> pw_tasks w cur;
     w1 \<leftarrow> res_release Res_sighand (tk_res C Res_sighand) (put_task cur (C\<lparr>tk_exiting := True\<rparr>) w);
     w2 \<leftarrow> set_handle cur Res_sighand None w1;
     G \<leftarrow> pw_groups w2 (tk_group C);
     np \<leftarrow> find_new_parent cur w2;
     w3 \<leftarrow> reparent cur np (tk_children C) w2;
     (dead, w4) \<leftarrow> exit_tgroup cur w3;
     w5 \<leftarrow> (if dead then notify_parent others hook cur (tg_leader G) status ru w4 else Some w4);
     w6 \<leftarrow> vfork_notify cur w5;
     if cur \<noteq> tg_leader G then task_destroy cur w6 else Some w6
   }"

definition drop_handle :: "nat \<Rightarrow> resource \<Rightarrow> proc_world \<Rightarrow> proc_world option" where
  "drop_handle t r w = do { T \<leftarrow> pw_tasks w t; w1 \<leftarrow> res_release r (tk_res T r) w; set_handle t r None w1 }"

definition do_exit ::
  "(nat \<Rightarrow> proc_world \<Rightarrow> proc_world) \<Rightarrow> bool \<Rightarrow> bool \<Rightarrow> nat \<Rightarrow> u32 \<Rightarrow> rusage \<Rightarrow> proc_world \<Rightarrow> proc_world option" where
  "do_exit others hook put_ok cur status ru w = do {
     C \<leftarrow> pw_tasks w cur;
     let w0 = (if tk_clear_tid C \<noteq> 0 \<and> put_ok then emit (Ev_futex_wake (tk_clear_tid C)) w else w);
     w1 \<leftarrow> drop_handle cur Res_mm w0;
     w2 \<leftarrow> drop_handle cur Res_files w1;
     w3 \<leftarrow> drop_handle cur Res_fs w2;
     C3 \<leftarrow> pw_tasks w3 cur;
     G \<leftarrow> pw_groups w3 (tk_group C3);
     let total = rusage_add (tg_rusage G) ru;
     let w4 = put_group (tk_group C3) (G\<lparr>tg_rusage := total\<rparr>) (put_task cur (C3\<lparr>tk_exit_code := status\<rparr>) w3);
     w5 \<leftarrow> lock_pids w4;
     w6 \<leftarrow> exit_locked others hook cur status total w5;
     Some (unlock_pids w6)
   }"

fun kill_threads :: "nat list \<Rightarrow> proc_world \<Rightarrow> proc_world option" where
  "kill_threads [] w = Some w"
| "kill_threads (t # ts) w = do {
     T \<leftarrow> pw_tasks w t;
     _ \<leftarrow> tk_res T Res_sighand;
     G \<leftarrow> pw_groups w (tk_group T);
     kill_threads ts (emit (Ev_continued (tk_group T)) (put_group (tk_group T) (G\<lparr>tg_stopped := False\<rparr>) (emit (Ev_deliver t SIGKILL) w)))
   }"

text \<open>The part of \<open>do_exit_group\<close> before the exit itself, and the status to exit with.\<close>

definition exit_group_prepare :: "nat \<Rightarrow> u32 \<Rightarrow> proc_world \<Rightarrow> (u32 \<times> proc_world) option" where
  "exit_group_prepare cur status w = do {
     C \<leftarrow> pw_tasks w cur;
     w1 \<leftarrow> lock_pids w;
     G \<leftarrow> pw_groups w1 (tk_group C);
     let (st, G1) = (if \<not> tg_doing_group_exit G then (status, G\<lparr>tg_doing_group_exit := True, tg_group_exit_code := status\<rparr>)
                     else (tg_group_exit_code G, G));
     w2 \<leftarrow> kill_threads (tg_threads G) (put_group (tk_group C) G1 w1);
     Some (st, unlock_pids w2)
   }"

definition do_exit_group ::
  "(nat \<Rightarrow> proc_world \<Rightarrow> proc_world) \<Rightarrow> bool \<Rightarrow> bool \<Rightarrow> nat \<Rightarrow> u32 \<Rightarrow> rusage \<Rightarrow> proc_world \<Rightarrow> proc_world option" where
  "do_exit_group others hook put_ok cur status ru w = do {
     (st, w1) \<leftarrow> exit_group_prepare cur status w;
     do_exit others hook put_ok cur st ru w1
   }"

definition sys_exit ::
  "(nat \<Rightarrow> proc_world \<Rightarrow> proc_world) \<Rightarrow> bool \<Rightarrow> bool \<Rightarrow> nat \<Rightarrow> u32 \<Rightarrow> rusage \<Rightarrow> proc_world \<Rightarrow> proc_world option" where
  "sys_exit others hook put_ok cur status ru w = do_exit others hook put_ok cur (push_bit 8 status) ru w"

definition sys_exit_group ::
  "(nat \<Rightarrow> proc_world \<Rightarrow> proc_world) \<Rightarrow> bool \<Rightarrow> bool \<Rightarrow> nat \<Rightarrow> u32 \<Rightarrow> rusage \<Rightarrow> proc_world \<Rightarrow> proc_world option" where
  "sys_exit_group others hook put_ok cur status ru w = do_exit_group others hook put_ok cur (push_bit 8 status) ru w"

end
