(* ===== verification/Process_Wait.thy ===== *)
theory Process_Wait
  imports Process_Life
begin

text \<open>
  Waiting for children (\<^verbatim>\<open>kernel/exit.c\<close>) and the construction of the first processes (\<^verbatim>\<open>kernel/init.c\<close>).
\<close>

section \<open>Reaping\<close>

definition WNOHANG :: u32 where "WNOHANG = 1"
definition WUNTRACED :: u32 where "WUNTRACED = 2"
definition WEXITED :: u32 where "WEXITED = 4"
definition WCONTINUED :: u32 where "WCONTINUED = 8"
definition WNOWAIT :: u32 where "WNOWAIT = 0x1000000"
definition WALL :: u32 where "WALL = 0x40000000"

record wait_info =
  wi_pid :: nat
  wi_status :: u32
  wi_sig :: nat
  wi_rusage :: "rusage option"

text \<open>The group goes with the task: out of its session and its process group, and freed.\<close>

definition teardown :: "nat \<Rightarrow> proc_world \<Rightarrow> proc_world option" where
  "teardown t w = do {
     T \<leftarrow> pw_tasks w t;
     w1 \<leftarrow> task_leave_session t w;
     w2 \<leftarrow> unlink_pgroup (tk_group T) w1;
     task_destroy t (w2\<lparr>pw_groups := (pw_groups w2)(tk_group T := None)\<rparr>)
   }"

definition reap_if_zombie :: "nat \<Rightarrow> nat \<Rightarrow> u32 \<Rightarrow> wait_info \<Rightarrow> proc_world \<Rightarrow> (bool \<times> wait_info \<times> proc_world) option" where
  "reap_if_zombie cur t options info w = do {
     T \<leftarrow> pw_tasks w t;
     if \<not> tk_zombie T then Some (False, info, w)
     else do {
       G \<leftarrow> pw_groups w (tk_group T);
       let info' = info\<lparr>wi_status := (if tg_doing_group_exit G then tg_group_exit_code G else tk_exit_code T),
                        wi_rusage := Some (tg_rusage G)\<rparr>;
       if tst options WNOWAIT then Some (True, info', w)
       else do {
         C \<leftarrow> pw_tasks w cur;
         H \<leftarrow> pw_groups w (tk_group C);
         w' \<leftarrow> teardown t (put_group (tk_group C) (H\<lparr>tg_children_rusage := rusage_add (tg_children_rusage H) (tg_rusage G)\<rparr>) w);
         Some (True, info', w')
       }
     }
   }"

definition notify_if_stopped :: "nat \<Rightarrow> wait_info \<Rightarrow> proc_world \<Rightarrow> (bool \<times> wait_info \<times> proc_world) option" where
  "notify_if_stopped t info w = do {
     T \<leftarrow> pw_tasks w t;
     G \<leftarrow> pw_groups w (tk_group T);
     if \<not> tg_stopped G \<or> tg_group_exit_code G = 0 then Some (False, info, w)
     else Some (True, info\<lparr>wi_status := tg_group_exit_code G\<rparr>, put_group (tk_group T) (G\<lparr>tg_group_exit_code := 0\<rparr>) w)
   }"

definition reap_if_needed :: "nat \<Rightarrow> nat \<Rightarrow> u32 \<Rightarrow> wait_info \<Rightarrow> proc_world \<Rightarrow> (bool \<times> wait_info \<times> proc_world) option" where
  "reap_if_needed cur t options info w = do {
     T \<leftarrow> pw_tasks w t;
     G \<leftarrow> pw_groups w (tk_group T);
     if tg_leader G \<noteq> t then None
     else do {
       (r1, info1, w1) \<leftarrow> (if tst options WUNTRACED then notify_if_stopped t info w else Some (False, info, w));
       (r2, info2, w2) \<leftarrow> (if \<not> r1 \<and> tst options WEXITED then reap_if_zombie cur t options info1 w1 else Some (r1, info1, w1));
       if r2 then Some (True, info2\<lparr>wi_sig := SIGCHLD\<rparr>, w2)
       else do {
         T2 \<leftarrow> pw_tasks w2 t;
         if tk_ptrace_stopped T2 \<and> tk_ptrace_signal T2 \<noteq> 0
         then Some (True, info2\<lparr>wi_status := push_bit 8 (tk_ptrace_signal T2) OR 0x7f\<rparr>, put_task t (T2\<lparr>tk_ptrace_signal := 0\<rparr>) w2)
         else Some (False, info2, w2)
       }
     }
   }"

section \<open>The search for a child\<close>

datatype id_type = P_ALL | P_PID | P_PGID | P_other

text \<open>One round over a list of children: whether one was found, and whether any child matched.\<close>

fun scan_children ::
  "nat \<Rightarrow> id_type \<Rightarrow> nat \<Rightarrow> u32 \<Rightarrow> nat list \<Rightarrow> bool \<Rightarrow> wait_info \<Rightarrow> proc_world \<Rightarrow> (bool \<times> bool \<times> wait_info \<times> proc_world) option" where
  "scan_children cur idt i options [] any info w = Some (False, any, info, w)"
| "scan_children cur idt i options (t # ts) any info w = do {
     T \<leftarrow> pw_tasks w t;
     G \<leftarrow> pw_groups w (tk_group T);
     if tg_leader G \<noteq> t \<or> (idt = P_PGID \<and> tg_pgid G \<noteq> i) then scan_children cur idt i options ts any info w
     else do {
       (r, info', w') \<leftarrow> reap_if_needed cur t options (info\<lparr>wi_pid := tk_pid T\<rparr>) w;
       if r then Some (True, True, info', w') else scan_children cur idt i options ts True info' w'
     }
   }"

text \<open>The outer loop runs over the threads of the group, but its body looks at the children of the calling one.\<close>

fun scan_threads ::
  "nat \<Rightarrow> id_type \<Rightarrow> nat \<Rightarrow> u32 \<Rightarrow> nat list \<Rightarrow> bool \<Rightarrow> wait_info \<Rightarrow> proc_world \<Rightarrow> (bool \<times> bool \<times> wait_info \<times> proc_world) option" where
  "scan_threads cur idt i options [] any info w = Some (False, any, info, w)"
| "scan_threads cur idt i options (_ # ps) any info w = do {
     C \<leftarrow> pw_tasks w cur;
     (found, any', info', w') \<leftarrow> scan_children cur idt i options (tk_children C) any info w;
     if found then Some (True, any', info', w') else scan_threads cur idt i options ps any' info' w'
   }"

text \<open>One round of \<open>do_wait\<close>: an error, a child found, or nothing yet.\<close>

definition wait_round ::
  "nat \<Rightarrow> id_type \<Rightarrow> nat \<Rightarrow> u32 \<Rightarrow> wait_info \<Rightarrow> proc_world \<Rightarrow> (bool result \<times> wait_info \<times> proc_world) option" where
  "wait_round cur idt i options info w =
     (if idt \<noteq> P_PID then do {
        C \<leftarrow> pw_tasks w cur;
        G \<leftarrow> pw_groups w (tk_group C);
        (found, any, info', w') \<leftarrow> scan_threads cur idt i options (tg_threads G) False info w;
        Some (if found then Inr True else if \<not> any then Inl ECHILD else Inr False, info', w')
      }
      else do {
        task \<leftarrow> pid_get_task_zombie i w;
        case task of
          None \<Rightarrow> Some (Inl ECHILD, info, w)
        | Some t \<Rightarrow> do {
            T \<leftarrow> pw_tasks w t;
            C \<leftarrow> pw_tasks w cur;
            case tk_parent T of
              None \<Rightarrow> Some (Inl ECHILD, info, w)
            | Some p \<Rightarrow> do {
                P \<leftarrow> pw_tasks w p;
                if tk_group P \<noteq> tk_group C then Some (Inl ECHILD, info, w)
                else do {
                  G \<leftarrow> pw_groups w (tk_group T);
                  (found, info', w') \<leftarrow> reap_if_needed cur (tg_leader G) options (info\<lparr>wi_pid := i\<rparr>) w;
                  Some (Inr found, info', w')
                }
              }
          }
      })"

text \<open>The loop. Each sleep gives up the lock; \<open>sleeps\<close> says what the others do in it and whether a
  signal ended it. \<open>None\<close> when they are used up: the call still waits.\<close>

fun wait_loop ::
  "(bool \<times> (proc_world \<Rightarrow> proc_world)) list \<Rightarrow> bool \<Rightarrow> nat \<Rightarrow> id_type \<Rightarrow> nat \<Rightarrow> u32 \<Rightarrow> wait_info \<Rightarrow> proc_world
     \<Rightarrow> (unit result \<times> wait_info \<times> proc_world) option" where
  "wait_loop sleeps got_signal cur idt i options info w = do {
     (r, info1, w1) \<leftarrow> wait_round cur idt i options info w;
     case r of
       Inl e \<Rightarrow> Some (Inl e, info1, unlock_pids w1)
     | Inr True \<Rightarrow> Some (Inr (), info1, unlock_pids w1)
     | Inr False \<Rightarrow>
         let info2 = info1\<lparr>wi_pid := 0\<rparr> in
         if tst options WNOHANG then Some (Inr (), info2\<lparr>wi_sig := SIGCHLD\<rparr>, unlock_pids w1)
         else if got_signal then Some (Inl EINTR, info2, unlock_pids w1)
         else (case sleeps of
             [] \<Rightarrow> None
           | (interrupted, f) # rest \<Rightarrow> do {
               w2 \<leftarrow> lock_pids (f (unlock_pids w1));
               wait_loop rest interrupted cur idt i options info2 w2
             })
   }"

definition wait_options :: u32 where "wait_options = WNOHANG OR WUNTRACED OR WEXITED OR WCONTINUED OR WNOWAIT OR WALL"

definition do_wait ::
  "(bool \<times> (proc_world \<Rightarrow> proc_world)) list \<Rightarrow> nat \<Rightarrow> id_type \<Rightarrow> nat \<Rightarrow> wait_info \<Rightarrow> u32 \<Rightarrow> proc_world
     \<Rightarrow> (unit result \<times> wait_info \<times> proc_world) option" where
  "do_wait sleeps cur idt i info options w =
     (if idt = P_other \<or> options AND NOT wait_options \<noteq> 0 then Some (Inl EINVAL, info, w)
      else do { w1 \<leftarrow> lock_pids w; wait_loop sleeps False cur idt i options info w1 })"

text \<open>The system calls; \<open>put_ok\<close> says whether a guest address can be written.\<close>

definition id_type_of :: "u32 \<Rightarrow> id_type" where
  "id_type_of n = (if n = 0 then P_ALL else if n = 1 then P_PID else if n = 2 then P_PGID else P_other)"

definition sys_waitid ::
  "(addr_t \<Rightarrow> bool) \<Rightarrow> (bool \<times> (proc_world \<Rightarrow> proc_world)) list \<Rightarrow> nat \<Rightarrow> u32 \<Rightarrow> nat \<Rightarrow> addr_t \<Rightarrow> u32 \<Rightarrow> proc_world
     \<Rightarrow> (wait_info result \<times> proc_world) option" where
  "sys_waitid put_ok sleeps cur idt i info_addr options w = do {
     (r, info, w') \<leftarrow> do_wait sleeps cur (id_type_of idt) i \<lparr>wi_pid = 0, wi_status = 0, wi_sig = 0, wi_rusage = None\<rparr> options w;
     case r of
       Inl e \<Rightarrow> Some (Inl e, w')
     | Inr _ \<Rightarrow> if wi_pid info \<noteq> 0 \<and> info_addr \<noteq> 0 \<and> \<not> put_ok info_addr then Some (Inl EFAULT, w') else Some (Inr info, w')
   }"

definition sys_wait4 ::
  "(addr_t \<Rightarrow> bool) \<Rightarrow> (bool \<times> (proc_world \<Rightarrow> proc_world)) list \<Rightarrow> nat \<Rightarrow> int \<Rightarrow> addr_t \<Rightarrow> u32 \<Rightarrow> addr_t \<Rightarrow> proc_world
     \<Rightarrow> (wait_info result \<times> proc_world) option" where
  "sys_wait4 put_ok sleeps cur i status_addr options rusage_addr w =
     (if tst options WNOWAIT then Some (Inl EINVAL, w)
      else do {
        C \<leftarrow> pw_tasks w cur;
        G \<leftarrow> pw_groups w (tk_group C);
        let (idt, k) = (if i > 0 then (P_PID, nat i) else if i = - 1 then (P_ALL, 2 ^ 32 - 1)
                        else if i = 0 then (P_PGID, tg_pgid G) else (P_PGID, nat (- i)));
        (r, info, w') \<leftarrow> do_wait sleeps cur idt k \<lparr>wi_pid = 0xbaba, wi_status = 0, wi_sig = 0, wi_rusage = None\<rparr> (options OR WEXITED) w;
        case r of
          Inl e \<Rightarrow> Some (Inl e, w')
        | Inr _ \<Rightarrow>
            if wi_pid info = 0 then Some (Inr info, w')
            else if status_addr \<noteq> 0 \<and> \<not> put_ok status_addr then Some (Inl EFAULT, w')
            else if rusage_addr \<noteq> 0 \<and> \<not> put_ok rusage_addr then Some (Inl EFAULT, w')
            else Some (Inr info, w')
      })"

definition sys_waitpid ::
  "(addr_t \<Rightarrow> bool) \<Rightarrow> (bool \<times> (proc_world \<Rightarrow> proc_world)) list \<Rightarrow> nat \<Rightarrow> int \<Rightarrow> addr_t \<Rightarrow> u32 \<Rightarrow> proc_world
     \<Rightarrow> (wait_info result \<times> proc_world) option" where
  "sys_waitpid put_ok sleeps cur pid status_addr options w = sys_wait4 put_ok sleeps cur pid status_addr options 0 w"

section \<open>The first processes (kernel/init.c)\<close>

definition empty_group :: proc_group where
  "empty_group = \<lparr>tg_threads = [], tg_leader = 0, tg_rusage = no_rusage, tg_sid = 0, tg_pgid = 0, tg_session_link = None,
     tg_pgroup_link = None, tg_stopped = False, tg_tty = None, tg_itimer = False, tg_doing_group_exit = False,
     tg_group_exit_code = 0, tg_children_rusage = no_rusage\<rparr>"

fun fresh_resources :: "resource list \<Rightarrow> nat \<Rightarrow> proc_world \<Rightarrow> proc_world option" where
  "fresh_resources [] t w = Some w"
| "fresh_resources (r # rs) t w = do {
     let (x, w1) = res_new r w;
     w2 \<leftarrow> set_handle t r (Some x) w1;
     fresh_resources rs t w2
   }"

text \<open>\<open>root\<close> is the error of opening the root directory, if any; allocations are not tested here.\<close>

definition construct_task :: "errno option \<Rightarrow> nat option \<Rightarrow> proc_world \<Rightarrow> (nat result \<times> proc_world) option" where
  "construct_task root parent w = do {
     (task, w1) \<leftarrow> task_create True parent w;
     t \<leftarrow> task;
     T \<leftarrow> pw_tasks w1 t;
     let g = pw_next w1;
     let w2 = put_task t (T\<lparr>tk_group := g, tk_tgid := tk_pid T\<rparr>)
                (put_group g (empty_group\<lparr>tg_leader := t, tg_threads := [t]\<rparr>) (w1\<lparr>pw_next := g + 1\<rparr>));
     (_, w3) \<leftarrow> task_setsid t w2;
     w4 \<leftarrow> fresh_resources [Res_mm, Res_sighand, Res_files, Res_fs] t w3;
     Some (case root of None \<Rightarrow> (Inr t, w4) | Some e \<Rightarrow> (Inl e, w4))
   }"

definition become_first_process :: "errno option \<Rightarrow> proc_world \<Rightarrow> (nat result \<times> proc_world) option" where
  "become_first_process root w = construct_task root None w"

definition become_new_init_child :: "errno option \<Rightarrow> proc_world \<Rightarrow> (nat result \<times> proc_world) option" where
  "become_new_init_child root w = do {
     init \<leftarrow> pid_get_task 1 w;
     i \<leftarrow> init;
     (r, w1) \<leftarrow> construct_task root (Some i) w;
     case r of
       Inl e \<Rightarrow> Some (Inl e, w1)
     | Inr t \<Rightarrow> do { T \<leftarrow> pw_tasks w1 t; Some (Inr t, put_task t (T\<lparr>tk_clear_tid := 0, tk_vfork := None\<rparr>) w1) }
   }"

definition no_world :: proc_world where
  "no_world = \<lparr>pw_tasks = \<lambda>_. None, pw_groups = \<lambda>_. None, pw_pids = \<lambda>_. \<lparr>slot_task = None, slot_session = [], slot_pgroup = []\<rparr>, pw_cur_pid = 0,
     pw_res = \<lambda>_ _. None, pw_vforks = \<lambda>_. None, pw_next = 0, pw_locked = False, pw_events = []\<rparr>"

end
