(* ===== verification/Process_Inv.thy ===== *)
theory Process_Inv
  imports Process_Wait
begin

text \<open>
  The invariant of the process tables: parents and lists of children that agree, groups with their threads and leader,
  numbers, and the lists of process groups and sessions. It does not say that the parents form a tree: the code can make a
  task its own parent. It is a predicate on views of the heap that leave out everything else a task or group holds.
\<close>

section \<open>Views\<close>

record tnode =
  tn_pid :: nat
  tn_group :: nat
  tn_parent :: "nat option"
  tn_children :: "nat list"
  tn_zombie :: bool
  tn_exiting :: bool

record gnode =
  gn_threads :: "nat list"
  gn_leader :: nat
  gn_pgroup :: "nat option"
  gn_session :: "nat option"

definition tnode_of :: "proc_task \<Rightarrow> tnode" where
  "tnode_of T = \<lparr>tn_pid = tk_pid T, tn_group = tk_group T, tn_parent = tk_parent T, tn_children = tk_children T,
     tn_zombie = tk_zombie T, tn_exiting = tk_exiting T\<rparr>"

definition gnode_of :: "proc_group \<Rightarrow> gnode" where
  "gnode_of G = \<lparr>gn_threads = tg_threads G, gn_leader = tg_leader G, gn_pgroup = tg_pgroup_link G, gn_session = tg_session_link G\<rparr>"

lemma tnode_of_simps [simp]:
  "tn_pid (tnode_of T) = tk_pid T" "tn_group (tnode_of T) = tk_group T" "tn_parent (tnode_of T) = tk_parent T"
  "tn_children (tnode_of T) = tk_children T" "tn_zombie (tnode_of T) = tk_zombie T" "tn_exiting (tnode_of T) = tk_exiting T"
  by (simp_all add: tnode_of_def)

lemma gnode_of_simps [simp]:
  "gn_threads (gnode_of G) = tg_threads G" "gn_leader (gnode_of G) = tg_leader G"
  "gn_pgroup (gnode_of G) = tg_pgroup_link G" "gn_session (gnode_of G) = tg_session_link G"
  by (simp_all add: gnode_of_def)

definition tview :: "proc_world \<Rightarrow> nat \<Rightarrow> tnode option" where
  "tview w t = map_option tnode_of (pw_tasks w t)"

definition gview :: "proc_world \<Rightarrow> nat \<Rightarrow> gnode option" where
  "gview w g = map_option gnode_of (pw_groups w g)"

section \<open>The invariant\<close>

text \<open>Tasks of \<open>N\<close> are on their way in or out: they need not be where a task belongs.\<close>

definition pids_inv :: "(nat \<Rightarrow> tnode option) \<Rightarrow> (nat \<Rightarrow> pid_slot) \<Rightarrow> bool" where
  "pids_inv T P \<longleftrightarrow> (\<forall>t x. T t = Some x \<longrightarrow> 1 \<le> tn_pid x \<and> tn_pid x \<le> MAX_PID \<and> slot_task (P (tn_pid x)) = Some t)
     \<and> (\<forall>i t. slot_task (P i) = Some t \<longrightarrow> (\<exists>x. T t = Some x \<and> tn_pid x = i))
     \<and> (\<exists>t. slot_task (P 1) = Some t)"

definition par :: "(nat \<Rightarrow> tnode option) \<Rightarrow> nat \<Rightarrow> nat option" where
  "par T c = (case T c of None \<Rightarrow> None | Some x \<Rightarrow> tn_parent x)"

definition chd :: "(nat \<Rightarrow> tnode option) \<Rightarrow> nat \<Rightarrow> nat list" where
  "chd T p = (case T p of None \<Rightarrow> [] | Some x \<Rightarrow> tn_children x)"

lemma par_chd_upd [simp]:
  "par (T(n \<mapsto> y)) = (par T)(n := tn_parent y)" "chd (T(n \<mapsto> y)) = (chd T)(n := tn_children y)"
  "par (T(n := None)) = (par T)(n := None)" "chd (T(n := None)) = (chd T)(n := [])"
  by (auto simp: par_def chd_def)

definition family_inv :: "(nat \<Rightarrow> tnode option) \<Rightarrow> bool" where
  "family_inv T \<longleftrightarrow> (\<forall>p. distinct (chd T p)) \<and> (\<forall>p c. c \<in> set (chd T p) \<longleftrightarrow> par T c = Some p)
     \<and> (\<forall>t x. T t = Some x \<longrightarrow> (tn_parent x = None \<longleftrightarrow> tn_pid x = 1))"

definition member_ok :: "(nat \<Rightarrow> gnode option) \<Rightarrow> nat \<Rightarrow> tnode \<Rightarrow> bool" where
  "member_ok G t x \<longleftrightarrow> (\<exists>g. G (tn_group x) = Some g
     \<and> (t \<in> set (gn_threads g) \<longleftrightarrow> \<not> tn_exiting x) \<and> (tn_exiting x \<longrightarrow> gn_leader g = t \<and> (tn_parent x \<noteq> None \<longrightarrow> tn_children x = []))
     \<and> (tn_zombie x \<longrightarrow> tn_exiting x \<and> tn_parent x \<noteq> None \<and> gn_threads g = []) \<and> (tn_parent x = None \<longrightarrow> gn_leader g = t))"

definition member_inv :: "nat set \<Rightarrow> (nat \<Rightarrow> tnode option) \<Rightarrow> (nat \<Rightarrow> gnode option) \<Rightarrow> bool" where
  "member_inv N T G \<longleftrightarrow> (\<forall>t x. T t = Some x \<longrightarrow> t \<notin> N \<longrightarrow> member_ok G t x)"

definition grp :: "(nat \<Rightarrow> tnode option) \<Rightarrow> nat \<Rightarrow> nat option" where
  "grp T t = map_option tn_group (T t)"

lemma grp_upd [simp]: "grp (T(n \<mapsto> y)) = (grp T)(n \<mapsto> tn_group y)" "grp (T(n := None)) = (grp T)(n := None)"
  by (auto simp: grp_def)

definition group_inv :: "(nat \<Rightarrow> tnode option) \<Rightarrow> (nat \<Rightarrow> gnode option) \<Rightarrow> bool" where
  "group_inv T G \<longleftrightarrow> (\<forall>i g. G i = Some g \<longrightarrow> distinct (gn_threads g) \<and> (\<forall>t \<in> insert (gn_leader g) (set (gn_threads g)). grp T t = Some i))"

definition links_inv :: "(nat \<Rightarrow> gnode option) \<Rightarrow> (nat \<Rightarrow> pid_slot) \<Rightarrow> bool" where
  "links_inv G P \<longleftrightarrow> (\<forall>i. distinct (slot_pgroup (P i)) \<and> distinct (slot_session (P i))
     \<and> (\<forall>k. k \<in> set (slot_pgroup (P i)) \<longleftrightarrow> (\<exists>g. G k = Some g \<and> gn_pgroup g = Some i))
     \<and> (\<forall>k. k \<in> set (slot_session (P i)) \<longleftrightarrow> (\<exists>g. G k = Some g \<and> gn_session g = Some i)))
     \<and> (\<forall>k g. G k = Some g \<longrightarrow> gn_pgroup g \<noteq> None \<and> gn_session g \<noteq> None)"

definition fresh_inv :: "(nat \<Rightarrow> tnode option) \<Rightarrow> (nat \<Rightarrow> gnode option) \<Rightarrow> nat \<Rightarrow> bool" where
  "fresh_inv T G n \<longleftrightarrow> (\<forall>i \<ge> n. T i = None \<and> G i = None)"

definition tables_inv :: "nat set \<Rightarrow> (nat \<Rightarrow> tnode option) \<Rightarrow> (nat \<Rightarrow> gnode option) \<Rightarrow> (nat \<Rightarrow> pid_slot) \<Rightarrow> nat \<Rightarrow> bool" where
  "tables_inv N T G P n \<longleftrightarrow> pids_inv T P \<and> family_inv T \<and> member_inv N T G \<and> group_inv T G \<and> links_inv G P \<and> fresh_inv T G n"

definition proc_inv :: "nat set \<Rightarrow> proc_world \<Rightarrow> bool" where
  "proc_inv N w \<longleftrightarrow> tables_inv N (tview w) (gview w) (pw_pids w) (pw_next w)"

abbreviation proc_ok :: "proc_world \<Rightarrow> bool" where "proc_ok w \<equiv> proc_inv {} w"

lemma tablesD:
  assumes "tables_inv N T G P n"
  shows "T t = Some x \<Longrightarrow> 1 \<le> tn_pid x \<and> tn_pid x \<le> MAX_PID \<and> slot_task (P (tn_pid x)) = Some t"
    "slot_task (P i) = Some t \<Longrightarrow> \<exists>x. T t = Some x \<and> tn_pid x = i"
    "T t = Some x \<Longrightarrow> tn_parent x = None \<longleftrightarrow> tn_pid x = 1"
    "T t = Some x \<Longrightarrow> t \<notin> N \<Longrightarrow> member_ok G t x"
    "G k = Some g \<Longrightarrow> distinct (gn_threads g) \<and> (\<forall>t \<in> insert (gn_leader g) (set (gn_threads g)). grp T t = Some k)"
    "G k = Some g \<Longrightarrow> \<exists>i j. gn_pgroup g = Some i \<and> gn_session g = Some j \<and> k \<in> set (slot_pgroup (P i)) \<and> k \<in> set (slot_session (P j))"
    "i \<ge> n \<Longrightarrow> T i = None \<and> G i = None"
    "\<exists>t. slot_task (P 1) = Some t"
    "distinct (chd T p)" "c \<in> set (chd T p) \<longleftrightarrow> par T c = Some p"
proof -
  have i: "pids_inv T P" "family_inv T" "member_inv N T G" "group_inv T G" "links_inv G P" "fresh_inv T G n" using assms by (simp_all add: tables_inv_def)
  show "T t = Some x \<Longrightarrow> 1 \<le> tn_pid x \<and> tn_pid x \<le> MAX_PID \<and> slot_task (P (tn_pid x)) = Some t"
    "slot_task (P i) = Some t \<Longrightarrow> \<exists>x. T t = Some x \<and> tn_pid x = i" "\<exists>t. slot_task (P 1) = Some t"
    using i(1) unfolding pids_inv_def by blast+
  show "T t = Some x \<Longrightarrow> tn_parent x = None \<longleftrightarrow> tn_pid x = 1" "distinct (chd T p)" "c \<in> set (chd T p) \<longleftrightarrow> par T c = Some p"
    using i(2) unfolding family_inv_def by blast+
  show "T t = Some x \<Longrightarrow> t \<notin> N \<Longrightarrow> member_ok G t x"
    by (rule i(3) [unfolded member_inv_def, rule_format])
  show "G k = Some g \<Longrightarrow> distinct (gn_threads g) \<and> (\<forall>t \<in> insert (gn_leader g) (set (gn_threads g)). grp T t = Some k)"
    by (rule i(4) [unfolded group_inv_def, rule_format])
  show "G k = Some g \<Longrightarrow> \<exists>i j. gn_pgroup g = Some i \<and> gn_session g = Some j \<and> k \<in> set (slot_pgroup (P i)) \<and> k \<in> set (slot_session (P j))"
    using i(5) unfolding links_inv_def by (metis option.exhaust)
  show "i \<ge> n \<Longrightarrow> T i = None \<and> G i = None" using i(6) unfolding fresh_inv_def by blast
qed

lemma tables_child: "tables_inv N T G P n \<Longrightarrow> T t = Some x \<Longrightarrow> c \<in> set (tn_children x) \<Longrightarrow> \<exists>y. T c = Some y \<and> tn_parent y = Some t"
  using tablesD(10) [of N T G P n c t] by (cases "T c") (auto simp: chd_def par_def)

lemma tables_parent: "tables_inv N T G P n \<Longrightarrow> T t = Some x \<Longrightarrow> tn_parent x = Some p \<Longrightarrow> \<exists>y. T p = Some y \<and> t \<in> set (tn_children y)"
  using tablesD(10) [of N T G P n t p] by (cases "T p") (auto simp: chd_def par_def)

text \<open>A task is found by its number, so two tasks have different numbers.\<close>

lemma tables_pid_inj: "tables_inv N T G P n \<Longrightarrow> T s = Some x \<Longrightarrow> T t = Some y \<Longrightarrow> tn_pid x = tn_pid y \<Longrightarrow> s = t"
  using tablesD(1) by (metis option.sel)

section \<open>Steps of the abstract tables\<close>

lemma tables_create:
  assumes "tables_inv {} T G P n" "T p = Some x" "\<not> tn_exiting x" "slot_task (P i) = None" "1 \<le> i" "i \<le> MAX_PID"
    "y = \<lparr>tn_pid = i, tn_group = k, tn_parent = Some p, tn_children = [], tn_zombie = z, tn_exiting = e\<rparr>"
  shows "tables_inv {n} (T(n \<mapsto> y, p \<mapsto> x\<lparr>tn_children := n # tn_children x\<rparr>)) G (P(i := (P i)\<lparr>slot_task := Some n\<rparr>)) (Suc n)"
proof -
  let ?T = "T(n \<mapsto> y, p \<mapsto> x\<lparr>tn_children := n # tn_children x\<rparr>)"
  note d = tablesD [OF assms(1)]
  have n: "T n = None" "G n = None" "p \<noteq> n" using d(7) [of n] assms(2) by auto
  have c: "chd T n = []" "par T n = None" "par T c \<noteq> Some n" "n \<notin> set (chd T q)" for c q
    using n d(10) [of c n] d(10) [of n q] by (auto simp: chd_def par_def)
  have nt: "n \<noteq> gn_leader g \<and> n \<notin> set (gn_threads g)" if "G j = Some g" for j g using d(5) [OF that] n by (auto simp: grp_def)
  have gp: "grp T p = Some (tn_group x)" using assms(2) by (simp add: grp_def)
  have i1: "i \<noteq> 1" using d(8) assms(4) by auto
  have np: "slot_task (P j) \<noteq> Some n" for j using d(2) [of j n] n by auto
  have "\<exists>x'. ?T t = Some x' \<and> tn_pid x' = j" if "slot_task ((P(i := (P i)\<lparr>slot_task := Some n\<rparr>)) j) = Some t" for j t
    using that d(2) [of j t] assms(2,7) n np [of j] by (auto split: if_splits)
  moreover have "1 \<le> tn_pid x' \<and> tn_pid x' \<le> MAX_PID \<and> slot_task ((P(i := (P i)\<lparr>slot_task := Some n\<rparr>)) (tn_pid x')) = Some t"
    if "?T t = Some x'" for t x'
    using that d(1) [of t] assms(2,4-7) n by (auto split: if_splits)
  ultimately have "pids_inv ?T (P(i := (P i)\<lparr>slot_task := Some n\<rparr>))" using d(8) i1 unfolding pids_inv_def by auto
  moreover have "par ?T = (par T)(n := Some p)" "chd ?T = (chd T)(p := n # chd T p)"
    using assms(2,7) c(1) n by (auto simp: fun_eq_iff par_def chd_def)
  then have "family_inv ?T"
    using d(3,9,10) assms(2,7) c i1 unfolding family_inv_def by (auto split: if_splits)
  moreover have "member_inv {n} ?T G"
    using d(4) d(4) [OF assms(2)] assms(3) n unfolding member_inv_def by (auto simp: member_ok_def split: if_splits)
  moreover have "group_inv ?T G" using d(5) n nt gp unfolding group_inv_def by (fastforce split: if_splits)
  moreover have "links_inv G (P(i := (P i)\<lparr>slot_task := Some n\<rparr>))" using assms(1) unfolding tables_inv_def links_inv_def by auto
  moreover have "fresh_inv ?T G (Suc n)" using d(7) assms(2) n unfolding fresh_inv_def by auto
  ultimately show ?thesis by (simp add: tables_inv_def)
qed


text \<open>A task takes its place among the threads of a group with other threads, or of a new one.\<close>

lemma tables_join:
  assumes "tables_inv {t} T G P n" "T t = Some x" "G (tn_group x) = Some g" "\<not> tn_exiting x" "\<not> tn_zombie x" "tn_parent x \<noteq> None" "t \<notin> set (gn_threads g)"
    "gn_threads g \<noteq> [] \<or> gn_leader g = t"
  shows "tables_inv {} T (G(tn_group x \<mapsto> g\<lparr>gn_threads := t # gn_threads g\<rparr>)) P n"
proof -
  let ?G = "G(tn_group x \<mapsto> g\<lparr>gn_threads := t # gn_threads g\<rparr>)"
  note d = tablesD [OF assms(1)]
  have "links_inv ?G P" using assms(1,3) unfolding tables_inv_def links_inv_def by auto
  moreover have "group_inv T ?G" using d(5) assms(2,3,7) unfolding group_inv_def by (auto simp: grp_def split: if_splits)
  moreover have "fresh_inv T ?G n" using d(7) assms(3) unfolding fresh_inv_def by auto
  moreover have "member_ok ?G s y" if s: "T s = Some y" for s y
  proof (cases "s = t")
    case True
    then show ?thesis using s assms(2-6) by (auto simp: member_ok_def)
  next
    case False
    then show ?thesis using d(4) [OF s] assms(3,8) by (cases "tn_group y = tn_group x") (auto simp: member_ok_def)
  qed
  then have "member_inv {} T ?G" by (simp add: member_inv_def)
  ultimately show ?thesis using assms(1) by (simp add: tables_inv_def)
qed

lemma insert_after_in: "x \<in> set zs \<Longrightarrow> set (insert_after x y zs) = insert y (set zs)"
  by (induction zs) auto

lemma insert_after_distinct: "distinct zs \<Longrightarrow> y \<notin> set zs \<Longrightarrow> distinct (insert_after x y zs)"
proof (induction zs)
  case (Cons z zs)
  have "set (insert_after x y zs) \<subseteq> insert y (set zs)" by (induction zs) auto
  then show ?case using Cons by auto
qed simp

lemma links_new_group:
  assumes "links_inv G P" "G k = Some g" "gn_pgroup g = Some i" "gn_session g = Some j" "G m = None"
    "gn_pgroup h = Some i" "gn_session h = Some j"
    "P1 = P(i := (P i)\<lparr>slot_pgroup := insert_after k m (slot_pgroup (P i))\<rparr>)"
    "P2 = P1(j := (P1 j)\<lparr>slot_session := insert_after k m (slot_session (P1 j))\<rparr>)"
  shows "links_inv (G(m \<mapsto> h)) P2"
proof -
  have l: "\<And>l. distinct (slot_pgroup (P l))" "\<And>l. distinct (slot_session (P l))"
    "\<And>l q. q \<in> set (slot_pgroup (P l)) \<longleftrightarrow> (\<exists>g. G q = Some g \<and> gn_pgroup g = Some l)"
    "\<And>l q. q \<in> set (slot_session (P l)) \<longleftrightarrow> (\<exists>g. G q = Some g \<and> gn_session g = Some l)"
    "\<And>q g. G q = Some g \<Longrightarrow> gn_pgroup g \<noteq> None \<and> gn_session g \<noteq> None"
    using assms(1) unfolding links_inv_def by blast+
  have k: "k \<in> set (slot_pgroup (P i))" "k \<in> set (slot_session (P j))" using l(3,4) assms(2-4) by auto
  have m: "m \<notin> set (slot_pgroup (P l))" "m \<notin> set (slot_session (P l))" for l using l(3,4) assms(5) by auto
  have p: "slot_pgroup (P2 l) = (if l = i then insert_after k m (slot_pgroup (P l)) else slot_pgroup (P l))"
    "slot_session (P2 l) = (if l = j then insert_after k m (slot_session (P l)) else slot_session (P l))" for l
    using assms(8,9) by auto
  have s: "set (slot_pgroup (P2 l)) = (if l = i then insert m (set (slot_pgroup (P l))) else set (slot_pgroup (P l)))"
    "set (slot_session (P2 l)) = (if l = j then insert m (set (slot_session (P l))) else set (slot_session (P l)))" for l
    using k by (simp_all add: p insert_after_in)
  have "distinct (slot_pgroup (P2 l)) \<and> distinct (slot_session (P2 l))" for l using l(1,2) m by (simp add: p insert_after_distinct)
  moreover have "q \<in> set (slot_pgroup (P2 l)) \<longleftrightarrow> (\<exists>g. (G(m \<mapsto> h)) q = Some g \<and> gn_pgroup g = Some l)"
    "q \<in> set (slot_session (P2 l)) \<longleftrightarrow> (\<exists>g. (G(m \<mapsto> h)) q = Some g \<and> gn_session g = Some l)" for l q
    using l(3,4) m assms(5-7) unfolding s by auto
  ultimately show ?thesis using l(5) assms(6,7) unfolding links_inv_def by auto
qed

lemma tables_new_group:
  assumes "tables_inv {t} T G P n" "T t = Some x" "tn_parent x \<noteq> None" "\<not> tn_exiting x" "\<not> tn_zombie x" "G k = Some g" "n \<le> m"
    "gn_pgroup g = Some i" "gn_session g = Some j" "h = g\<lparr>gn_threads := [t], gn_leader := t\<rparr>"
    "P1 = P(i := (P i)\<lparr>slot_pgroup := insert_after k m (slot_pgroup (P i))\<rparr>)"
    "P2 = P1(j := (P1 j)\<lparr>slot_session := insert_after k m (slot_session (P1 j))\<rparr>)"
    "\<And>i g. G i = Some g \<Longrightarrow> t \<noteq> gn_leader g \<and> t \<notin> set (gn_threads g)"
  shows "tables_inv {} (T(t \<mapsto> x\<lparr>tn_group := m\<rparr>)) (G(m \<mapsto> h)) P2 (Suc m)"
proof -
  let ?T = "T(t \<mapsto> x\<lparr>tn_group := m\<rparr>)" and ?G = "G(m \<mapsto> h)"
  note d = tablesD [OF assms(1)]
  have m: "G m = None" using d(7) assms(7) by simp
  have pt: "slot_task (P2 l) = slot_task (P l)" for l using assms(11,12) by simp
  have "1 \<le> tn_pid y \<and> tn_pid y \<le> MAX_PID \<and> slot_task (P (tn_pid y)) = Some s" if "?T s = Some y" for s y
    using that d(1) [of s] d(1) [OF assms(2)] by (auto split: if_splits)
  moreover have "\<exists>y. ?T s = Some y \<and> tn_pid y = l" if "slot_task (P l) = Some s" for l s
    using d(2) [OF that] assms(2) by (auto split: if_splits)
  ultimately have "pids_inv ?T P2" using d(8) unfolding pids_inv_def pt by blast
  moreover have "par ?T = par T" "chd ?T = chd T" using assms(2) by (auto simp: fun_eq_iff par_def chd_def)
  then have "family_inv ?T" using d(3,9,10) d(3) [OF assms(2)] unfolding family_inv_def by auto
  moreover have "member_ok ?G s y" if s: "?T s = Some y" for s y
  proof (cases "s = t")
    case True
    then show ?thesis using s assms(3-5,10) by (auto simp: member_ok_def)
  next
    case False
    then show ?thesis using d(4) [of s y] s m by (auto simp: member_ok_def)
  qed
  then have "member_inv {} ?T ?G" by (simp add: member_inv_def)
  moreover have "group_inv ?T ?G" using d(5) assms(10,13) unfolding group_inv_def by (fastforce split: if_splits)
  moreover have "links_inv ?G P2"
    by (rule links_new_group [OF _ assms(6,8,9) m _ _ assms(11,12)]) (use assms(1,8-10) in \<open>simp_all add: tables_inv_def\<close>)
  moreover have "fresh_inv ?T ?G (Suc m)" using d(7) assms(2,7) unfolding fresh_inv_def by auto
  ultimately show ?thesis by (simp add: tables_inv_def)
qed

text \<open>Changes of one task that keep its place: a task that begins to exit, and one that becomes a zombie.\<close>

lemma tables_change:
  assumes "tables_inv N T G P n" "T t = Some x" "y = x\<lparr>tn_exiting := e, tn_zombie := z\<rparr>"
  shows "tables_inv (insert t N) (T(t \<mapsto> y)) G P n"
proof -
  let ?T = "T(t \<mapsto> y)"
  note d = tablesD [OF assms(1)]
  have v: "par ?T = par T" "chd ?T = chd T" "grp ?T = grp T" using assms(2,3) by (auto simp: fun_eq_iff par_def chd_def grp_def)
  have "1 \<le> tn_pid y \<and> tn_pid y \<le> MAX_PID \<and> slot_task (P (tn_pid y)) = Some s" if "?T s = Some y" for s y
    using that d(1) [of s] d(1) [OF assms(2)] assms(3) by (auto split: if_splits)
  moreover have "\<exists>y. ?T s = Some y \<and> tn_pid y = l" if "slot_task (P l) = Some s" for l s
    using d(2) [OF that] assms(2,3) by (auto split: if_splits)
  ultimately have "pids_inv ?T P" using d(8) unfolding pids_inv_def by blast
  moreover have "family_inv ?T" using d(3,9,10) d(3) [OF assms(2)] assms(3) unfolding family_inv_def v by auto
  moreover have "member_inv (insert t N) ?T G" using d(4) unfolding member_inv_def by (auto split: if_splits)
  moreover have "group_inv ?T G" using d(5) unfolding group_inv_def v by blast
  moreover have "fresh_inv ?T G n" using d(7) assms(2) unfolding fresh_inv_def by auto
  ultimately show ?thesis using assms(1) by (simp add: tables_inv_def)
qed

lemma tables_settle:
  assumes "tables_inv (insert t N) T G P n" "\<And>x. T t = Some x \<Longrightarrow> member_ok G t x"
  shows "tables_inv N T G P n"
  using assms unfolding tables_inv_def member_inv_def by blast

lemma tables_mono: "tables_inv N T G P n \<Longrightarrow> N \<subseteq> M \<Longrightarrow> n \<le> m \<Longrightarrow> tables_inv M T G P m"
  unfolding tables_inv_def member_inv_def fresh_inv_def by auto

text \<open>Changes of parents and children only.\<close>

definition bare :: "tnode \<Rightarrow> tnode" where "bare x = x\<lparr>tn_parent := None, tn_children := []\<rparr>"

lemma bare_eq: "bare x = bare y \<longleftrightarrow> tn_pid x = tn_pid y \<and> tn_group x = tn_group y \<and> tn_zombie x = tn_zombie y \<and> tn_exiting x = tn_exiting y"
  by (cases x; cases y) (simp add: bare_def)

lemma tables_family:
  assumes "tables_inv N T G P n" "\<And>s. map_option bare (T' s) = map_option bare (T s)" "\<And>p. distinct (chd T' p)"
    "\<And>p c. c \<in> set (chd T' p) \<longleftrightarrow> par T' c = Some p" "\<And>s. par T' s = None \<longleftrightarrow> par T s = None"
    "\<And>s x. T' s = Some x \<Longrightarrow> s \<notin> N \<Longrightarrow> tn_exiting x \<Longrightarrow> tn_parent x \<noteq> None \<Longrightarrow> tn_children x = []"
  shows "tables_inv N T' G P n"
proof -
  note d = tablesD [OF assms(1)]
  have b: "\<exists>x. T s = Some x \<and> bare y = bare x \<and> (tn_parent y = None \<longleftrightarrow> tn_parent x = None)" if "T' s = Some y" for s y
    using assms(2) [of s] assms(5) [of s] that by (cases "T s") (auto simp: par_def)
  have f: "\<exists>y. T' s = Some y \<and> bare y = bare x" if "T s = Some x" for s x using assms(2) [of s] that by auto
  have "1 \<le> tn_pid y \<and> tn_pid y \<le> MAX_PID \<and> slot_task (P (tn_pid y)) = Some s" if "T' s = Some y" for s y
    using b [OF that] d(1) [of s] by (auto simp: bare_eq)
  moreover have "\<exists>y. T' s = Some y \<and> tn_pid y = i" if "slot_task (P i) = Some s" for i s
    using d(2) [OF that] f [of s] by (auto simp: bare_eq)
  ultimately have "pids_inv T' P" using d(8) unfolding pids_inv_def by blast
  moreover have "tn_parent y = None \<longleftrightarrow> tn_pid y = 1" if "T' s = Some y" for s y
    using b [OF that] d(3) [of s] by (auto simp: bare_eq)
  then have "family_inv T'" using assms(3,4) unfolding family_inv_def by blast
  moreover have "member_ok G s y" if s: "T' s = Some y" "s \<notin> N" for s y
  proof -
    obtain x where "T s = Some x \<and> bare y = bare x \<and> (tn_parent y = None \<longleftrightarrow> tn_parent x = None)" using b [OF s(1)] by (rule exE)
    then have x: "T s = Some x" "bare y = bare x" "tn_parent y = None \<longleftrightarrow> tn_parent x = None" by simp_all
    show ?thesis using d(4) [OF x(1) s(2)] assms(6) [OF s] x(2,3) by (auto simp: member_ok_def bare_eq)
  qed
  then have "member_inv N T' G" by (simp add: member_inv_def)
  moreover have "grp T' s = grp T s" for s using assms(2) [of s] by (cases "T s"; cases "T' s") (auto simp: grp_def bare_eq)
  then have "grp T' = grp T" by (rule ext)
  then have "group_inv T' G" using d(5) unfolding group_inv_def by simp
  moreover have "fresh_inv T' G n" using d(7) b unfolding fresh_inv_def by (metis not_None_eq)
  ultimately show ?thesis using assms(1) by (simp add: tables_inv_def)
qed

text \<open>A child gets a new parent.\<close>

lemma tables_move_child:
  assumes "tables_inv N T G P n" "T a = Some x" "c \<in> set (tn_children x)" "T1 = T(a \<mapsto> x\<lparr>tn_children := remove1 c (tn_children x)\<rparr>)"
    "T1 c = Some y" "T2 = T1(c \<mapsto> y\<lparr>tn_parent := Some p\<rparr>)" "T2 p = Some z" "T3 = T2(p \<mapsto> z\<lparr>tn_children := c # tn_children z\<rparr>)"
    "p \<notin> N \<Longrightarrow> tn_exiting z \<Longrightarrow> tn_parent z = None"
  shows "tables_inv N T3 G P n"
proof (rule tables_family [OF assms(1)])
  note d = tablesD [OF assms(1)]
  have ch1: "chd T1 = (chd T)(a := remove1 c (chd T a))" and pa1: "par T1 = par T"
    using assms(2,4) by (auto simp: fun_eq_iff chd_def par_def)
  have ch2: "chd T2 = chd T1" and pa2: "par T2 = (par T)(c := Some p)"
    using assms(5,6) pa1 by (auto simp: fun_eq_iff chd_def par_def)
  have ch: "chd T3 = (chd T1)(p := c # chd T1 p)" and pa: "par T3 = (par T)(c := Some p)"
  proof -
    have z: "chd T2 p = tn_children z" "par T2 p = tn_parent z" using assms(7) by (simp_all add: chd_def par_def)
    have "chd T3 = (chd T2)(p := c # tn_children z)" "par T3 = (par T2)(p := tn_parent z)" using assms(8) by simp_all
    then show "chd T3 = (chd T1)(p := c # chd T1 p)" "par T3 = (par T)(c := Some p)"
      using z unfolding ch2 [symmetric] pa2 [symmetric] by (simp_all add: fun_upd_idem)
  qed
  have c: "c \<in> set (chd T a)" using assms(2,3) by (simp add: chd_def)
  then have pc: "par T c = Some a" using d(10) by simp
  have nc: "c \<notin> set (chd T1 q)" for q using d(9) [of a] d(10) [of c q] pc by (simp add: ch1)
  have d1: "distinct (chd T1 q)" for q using d(9) [of q] d(9) [of a] by (simp add: ch1)
  show "distinct (chd T3 q)" for q using d1 nc by (simp add: ch)
  show "e \<in> set (chd T3 q) \<longleftrightarrow> par T3 e = Some q" for q e
    using d(10) [of e q] d(9) [of a] pc nc by (auto simp: ch pa ch1)
  show "par T3 s = None \<longleftrightarrow> par T s = None" for s using pc by (simp add: pa)
  show "map_option bare (T3 s) = map_option bare (T s)" for s
    using assms(2,4-8) by (auto simp: bare_def split: if_splits)
  show "tn_children v = []" if s: "T3 s = Some v" "s \<notin> N" "tn_exiting v" "tn_parent v \<noteq> None" for s v
  proof (cases "s = p")
    case True
    then have v: "v = z\<lparr>tn_children := c # tn_children z\<rparr>" using s(1) assms(8) by simp
    have "tn_exiting z" "tn_parent z \<noteq> None" using s(3,4) unfolding v by simp_all
    then show ?thesis using assms(9) s(2) True by simp
  next
    case False
    then have "chd T3 s = chd T1 s" by (simp add: ch)
    moreover have "tn_exiting v \<longrightarrow> chd T s = []"
    proof -
      obtain u where u: "T s = Some u" "bare u = bare v"
        using s(1) assms(2,4-8) by (auto simp: bare_def split: if_splits)
      have "par T s \<noteq> None" using s(1,4) pa pc by (auto simp: par_def fun_eq_iff split: if_splits) (metis option.simps(5))
      then show ?thesis using d(4) [OF u(1) s(2)] u by (auto simp: member_ok_def bare_eq par_def chd_def)
    qed
    ultimately have "chd T3 s = []" using s(3) by (auto simp: ch1)
    then show ?thesis using s(1) by (simp add: chd_def)
  qed
qed

text \<open>Leaving the list of threads.\<close>

lemma tables_leave:
  assumes "tables_inv N T G P n" "t \<in> N" "G k = Some g"
  shows "tables_inv N T (G(k \<mapsto> g\<lparr>gn_threads := remove1 t (gn_threads g)\<rparr>)) P n"
proof -
  let ?G = "G(k \<mapsto> g\<lparr>gn_threads := remove1 t (gn_threads g)\<rparr>)"
  note d = tablesD [OF assms(1)]
  have "links_inv ?G P" using assms(1,3) unfolding tables_inv_def links_inv_def by auto
  moreover have "group_inv T ?G" using d(5) [OF assms(3)] d(5) unfolding group_inv_def by (auto dest: notin_set_remove1 split: if_splits)
  moreover have "fresh_inv T ?G n" using d(7) assms(3) unfolding fresh_inv_def by auto
  moreover have "member_ok ?G s x" if s: "T s = Some x" "s \<notin> N" for s x
    using d(4) [OF s] assms(2,3) s(2) d(5) [OF assms(3)] unfolding member_ok_def by (cases "s = t") (auto split: if_splits)
  then have "member_inv N T ?G" by (simp add: member_inv_def)
  ultimately show ?thesis using assms(1) by (simp add: tables_inv_def)
qed

text \<open>A task with no children that belongs to no group is freed, with its number.\<close>

lemma tables_destroy:
  assumes "tables_inv (insert t N) T G P n" "T t = Some x" "tn_parent x = Some p" "tn_children x = []"
    "\<And>k g. G k = Some g \<Longrightarrow> t \<noteq> gn_leader g \<and> t \<notin> set (gn_threads g)" "T p = Some z"
  shows "p \<noteq> t" "tables_inv N (T(p \<mapsto> z\<lparr>tn_children := remove1 t (tn_children z)\<rparr>, t := None)) G (P(tn_pid x := (P (tn_pid x))\<lparr>slot_task := None\<rparr>)) n"
proof -
  let ?T = "T(p \<mapsto> z\<lparr>tn_children := remove1 t (tn_children z)\<rparr>, t := None)" and ?P = "P(tn_pid x := (P (tn_pid x))\<lparr>slot_task := None\<rparr>)"
  note d = tablesD [OF assms(1)]
  have tp: "par T t = Some p" using assms(2,3) by (simp add: par_def)
  then have "t \<in> set (chd T p)" using d(10) [of t p] by simp
  then show pt: "p \<noteq> t" using assms(2,4) by (auto simp: chd_def)
  have x1: "tn_pid x \<noteq> 1" using d(3) [OF assms(2)] assms(3) by simp
  have "slot_task (P (tn_pid x)) = Some t" using d(1) [OF assms(2)] by simp
  have "1 \<le> tn_pid v \<and> tn_pid v \<le> MAX_PID \<and> slot_task (?P (tn_pid v)) = Some s" if s: "?T s = Some v" for s v
  proof -
    have st: "s \<noteq> t" using s by auto
    obtain u where u: "T s = Some u" "tn_pid u = tn_pid v" using s assms(6) st by (auto split: if_splits)
    have "tn_pid u \<noteq> tn_pid x" using tables_pid_inj [OF assms(1) u(1) assms(2)] st by auto
    then show ?thesis using d(1) [OF u(1)] u(2) by simp
  qed
  moreover have "\<exists>v. ?T s = Some v \<and> tn_pid v = i" if i: "slot_task (?P i) = Some s" for i s
  proof -
    have ix: "i \<noteq> tn_pid x" "slot_task (P i) = Some s" using i by (auto split: if_splits)
    obtain v where v: "T s = Some v" "tn_pid v = i" using d(2) [OF ix(2)] by blast
    then have "s \<noteq> t" using ix(1) assms(2) by auto
    then show ?thesis using v assms(6) by auto
  qed
  moreover have "\<exists>s. slot_task (?P 1) = Some s" using d(8) x1 by auto
  ultimately have "pids_inv ?T ?P" unfolding pids_inv_def by blast
  moreover have "chd ?T = (chd T)(p := remove1 t (chd T p), t := [])" "par ?T = (par T)(t := None)"
    using assms(6) pt by (auto simp: fun_eq_iff chd_def par_def)
  then have "family_inv ?T"
    using d(3,9,10) d(9) [of p] d(10) [of _ t] assms(2,4,6) pt tp unfolding family_inv_def by (auto simp: chd_def [of T t] split: if_splits)
  moreover have "member_ok G s v" if s: "?T s = Some v" "s \<notin> N" for s v
  proof -
    obtain u where u: "T s = Some u" "bare u = bare v" "tn_parent u = tn_parent v" "tn_children u = [] \<longrightarrow> tn_children v = []"
      using s assms(6) by (auto simp: bare_def split: if_splits)
    have "s \<noteq> t" using s(1) by auto
    then show ?thesis using d(4) [OF u(1)] s(2) u(2-4) by (auto simp: member_ok_def bare_eq)
  qed
  then have "member_inv N ?T G" by (simp add: member_inv_def)
  moreover have "grp T p = Some (tn_group z)" using assms(6) by (simp add: grp_def)
  then have "group_inv ?T G" using d(5) assms(5) unfolding group_inv_def by fastforce
  moreover have "links_inv G ?P" using assms(1) unfolding tables_inv_def links_inv_def by auto
  moreover have "fresh_inv ?T G n" using d(7) assms(6) unfolding fresh_inv_def by auto
  ultimately show "tables_inv N ?T G ?P n" by (simp add: tables_inv_def)
qed

text \<open>The group of a zombie is freed: it leaves its lists, and no other task points to it.\<close>

lemma tables_free_group:
  assumes "tables_inv {} T G P n" "T t = Some x" "tn_zombie x" "G (tn_group x) = Some g" "gn_pgroup g = Some i" "gn_session g = Some j"
    "P1 = P(j := (P j)\<lparr>slot_session := remove1 (tn_group x) (slot_session (P j))\<rparr>)"
    "P2 = P1(i := (P1 i)\<lparr>slot_pgroup := remove1 (tn_group x) (slot_pgroup (P1 i))\<rparr>)"
  shows "tables_inv {t} T (G(tn_group x := None)) P2 n"
    "\<And>k h. (G(tn_group x := None)) k = Some h \<Longrightarrow> t \<noteq> gn_leader h \<and> t \<notin> set (gn_threads h)"
proof -
  let ?G = "G(tn_group x := None)"
  note d = tablesD [OF assms(1)]
  have l: "\<And>l. distinct (slot_pgroup (P l))" "\<And>l. distinct (slot_session (P l))"
    "\<And>l q. q \<in> set (slot_pgroup (P l)) \<longleftrightarrow> (\<exists>g. G q = Some g \<and> gn_pgroup g = Some l)"
    "\<And>l q. q \<in> set (slot_session (P l)) \<longleftrightarrow> (\<exists>g. G q = Some g \<and> gn_session g = Some l)"
    "\<And>q g. G q = Some g \<Longrightarrow> gn_pgroup g \<noteq> None \<and> gn_session g \<noteq> None"
    using assms(1) unfolding tables_inv_def links_inv_def by blast+
  have p: "slot_pgroup (P2 q) = (if q = i then remove1 (tn_group x) (slot_pgroup (P q)) else slot_pgroup (P q))"
    "slot_session (P2 q) = (if q = j then remove1 (tn_group x) (slot_session (P q)) else slot_session (P q))"
    "slot_task (P2 q) = slot_task (P q)" for q using assms(7,8) by auto
  have "q \<in> set (slot_pgroup (P2 r)) \<longleftrightarrow> (\<exists>g. ?G q = Some g \<and> gn_pgroup g = Some r)"
    "q \<in> set (slot_session (P2 r)) \<longleftrightarrow> (\<exists>g. ?G q = Some g \<and> gn_session g = Some r)" for q r
    using l(1-4) assms(4-6) by (auto simp: p)
  then have "links_inv ?G P2" using l(1,2,5) unfolding links_inv_def by (auto simp: p)
  moreover have m: "gn_threads g = []" "gn_leader g = t" using d(4) [OF assms(2)] assms(3,4) by (auto simp: member_ok_def)
  have "member_ok ?G s y" if s: "T s = Some y" "s \<noteq> t" for s y
  proof -
    have "tn_group y \<noteq> tn_group x" using d(4) [OF s(1)] m s(2) assms(4) by (auto simp: member_ok_def)
    then show ?thesis using d(4) [OF s(1)] by (simp add: member_ok_def)
  qed
  then have "member_inv {t} T ?G" by (simp add: member_inv_def)
  moreover have "group_inv T ?G" using d(5) unfolding group_inv_def by auto
  moreover have "fresh_inv T ?G n" using d(7) unfolding fresh_inv_def by auto
  moreover have "pids_inv T P2" using d(1,2,8) unfolding pids_inv_def p by blast
  ultimately show "tables_inv {t} T ?G P2 n" using assms(1) by (simp add: tables_inv_def)
  show "t \<noteq> gn_leader h \<and> t \<notin> set (gn_threads h)" if "?G k = Some h" for k h
    using that d(5) [of k h] assms(2) by (auto simp: grp_def split: if_splits)
qed

end
