(* ===== verification/Process_Clone.thy ===== *)
theory Process_Clone
  imports Process_Inv
begin

text \<open>
  Making tasks: the search for a free number, clone with every combination of shared resources, and the failures of clone.
\<close>

section \<open>Views of updated worlds\<close>

lemma view_updates [simp]:
  "tview (put_task t T w) = (tview w)(t \<mapsto> tnode_of T)" "gview (put_task t T w) = gview w"
  "gview (put_group g G w) = (gview w)(g \<mapsto> gnode_of G)" "tview (put_group g G w) = tview w"
  "tview (put_pid i P w) = tview w" "gview (put_pid i P w) = gview w" "tview (emit e w) = tview w" "gview (emit e w) = gview w"
  "tview (unlock_pids w) = tview w" "gview (unlock_pids w) = gview w"
  "tview (w\<lparr>pw_next := n\<rparr>) = tview w" "gview (w\<lparr>pw_next := n\<rparr>) = gview w" "tview (w\<lparr>pw_locked := b\<rparr>) = tview w" "gview (w\<lparr>pw_locked := b\<rparr>) = gview w"
  "tview (w\<lparr>pw_cur_pid := n\<rparr>) = tview w" "gview (w\<lparr>pw_cur_pid := n\<rparr>) = gview w" "tview (w\<lparr>pw_res := r\<rparr>) = tview w" "gview (w\<lparr>pw_res := r\<rparr>) = gview w"
  "tview (w\<lparr>pw_vforks := v\<rparr>) = tview w" "gview (w\<lparr>pw_vforks := v\<rparr>) = gview w"
  by (auto simp: tview_def gview_def put_task_def put_group_def put_pid_def emit_def unlock_pids_def)

lemma fields_put [simp]:
  "pw_pids (put_task t T w) = pw_pids w" "pw_next (put_task t T w) = pw_next w" "pw_locked (put_task t T w) = pw_locked w"
  "pw_res (put_task t T w) = pw_res w" "pw_cur_pid (put_task t T w) = pw_cur_pid w" "pw_vforks (put_task t T w) = pw_vforks w"
  "pw_tasks (put_task t T w) = (pw_tasks w)(t \<mapsto> T)" "pw_groups (put_task t T w) = pw_groups w"
  "pw_pids (put_group g G w) = pw_pids w" "pw_next (put_group g G w) = pw_next w" "pw_locked (put_group g G w) = pw_locked w"
  "pw_res (put_group g G w) = pw_res w" "pw_cur_pid (put_group g G w) = pw_cur_pid w" "pw_vforks (put_group g G w) = pw_vforks w"
  "pw_groups (put_group g G w) = (pw_groups w)(g \<mapsto> G)" "pw_tasks (put_group g G w) = pw_tasks w"
  by (simp_all add: put_task_def put_group_def)

lemma fields_put_pid [simp]:
  "pw_pids (put_pid i P w) = (pw_pids w)(i := P)" "pw_next (put_pid i P w) = pw_next w" "pw_locked (put_pid i P w) = pw_locked w"
  "pw_res (put_pid i P w) = pw_res w" "pw_cur_pid (put_pid i P w) = pw_cur_pid w" "pw_vforks (put_pid i P w) = pw_vforks w"
  "pw_groups (put_pid i P w) = pw_groups w" "pw_tasks (put_pid i P w) = pw_tasks w"
  "pw_pids (emit e w) = pw_pids w" "pw_next (emit e w) = pw_next w" "pw_locked (emit e w) = pw_locked w"
  "pw_res (emit e w) = pw_res w" "pw_cur_pid (emit e w) = pw_cur_pid w" "pw_vforks (emit e w) = pw_vforks w"
  "pw_groups (emit e w) = pw_groups w" "pw_tasks (emit e w) = pw_tasks w"
  "pw_pids (unlock_pids w) = pw_pids w" "pw_next (unlock_pids w) = pw_next w" "pw_locked (unlock_pids w) = False"
  "pw_res (unlock_pids w) = pw_res w" "pw_cur_pid (unlock_pids w) = pw_cur_pid w" "pw_vforks (unlock_pids w) = pw_vforks w"
  "pw_groups (unlock_pids w) = pw_groups w" "pw_tasks (unlock_pids w) = pw_tasks w"
  by (simp_all add: put_pid_def emit_def unlock_pids_def)

lemma view_same: "pw_tasks w t = Some T \<Longrightarrow> tnode_of T' = tnode_of T \<Longrightarrow> (tview w)(t \<mapsto> tnode_of T') = tview w"
  by (auto simp: fun_eq_iff tview_def)

lemma gview_same: "pw_groups w g = Some G \<Longrightarrow> gnode_of G' = gnode_of G \<Longrightarrow> (gview w)(g \<mapsto> gnode_of G') = gview w"
  by (auto simp: fun_eq_iff gview_def)

lemma tview_Some: "pw_tasks w t = Some T \<Longrightarrow> tview w t = Some (tnode_of T)" by (simp add: tview_def)
lemma gview_Some: "pw_groups w g = Some G \<Longrightarrow> gview w g = Some (gnode_of G)" by (simp add: gview_def)

text \<open>Steps that leave the tables alone.\<close>

definition same_tables :: "proc_world \<Rightarrow> proc_world \<Rightarrow> bool" where
  "same_tables w w' \<longleftrightarrow> tview w' = tview w \<and> gview w' = gview w \<and> pw_pids w' = pw_pids w \<and> pw_next w \<le> pw_next w' \<and> pw_locked w' = pw_locked w"

lemma same_tables_trans: "same_tables w w' \<Longrightarrow> same_tables w' w'' \<Longrightarrow> same_tables w w''" by (auto simp: same_tables_def)
lemma same_tables_refl [simp]: "same_tables w w" by (simp add: same_tables_def)

lemma same_tables_inv: "same_tables w w' \<Longrightarrow> proc_inv N w \<Longrightarrow> proc_inv N w'"
  unfolding same_tables_def proc_inv_def by (metis order_refl tables_mono)

section \<open>Process numbers\<close>

lemma succ_pid_mod: "cur \<le> MAX_PID \<Longrightarrow> succ_pid cur = cur mod MAX_PID + 1"
  by (cases "cur = MAX_PID") (auto simp: succ_pid_def MAX_PID_def)

lemma succ_pid_bounds: "1 \<le> succ_pid cur \<and> succ_pid cur \<le> MAX_PID"
  by (auto simp: succ_pid_def MAX_PID_def)

lemma next_pid_Some: "next_pid n pids cur = Some i \<Longrightarrow> pid_empty (pids i) \<and> 1 \<le> i \<and> i \<le> MAX_PID"
  using succ_pid_bounds by (induction n arbitrary: cur) (auto simp: Let_def split: if_splits)

lemma next_pid_None:
  assumes "cur \<le> MAX_PID"
  shows "next_pid n pids cur = None \<longleftrightarrow> (\<forall>k < n. \<not> pid_empty (pids ((cur + k) mod MAX_PID + 1)))"
  using assms
proof (induction n arbitrary: cur)
  case (Suc n)
  have s: "succ_pid cur = cur mod MAX_PID + 1" "succ_pid cur \<le> MAX_PID" using succ_pid_mod [OF Suc.prems] succ_pid_bounds [of cur] by blast+
  have "(succ_pid cur + k) mod MAX_PID = (cur + Suc k) mod MAX_PID" for k
    unfolding s(1) by (metis add.commute add_Suc_right mod_add_left_eq plus_1_eq_Suc add.left_commute)
  then show ?case using Suc.IH [OF s(2)] s(1) by (auto simp: Let_def less_Suc_eq_0_disj)
qed simp

lemma next_pid_search:
  assumes "cur \<le> MAX_PID"
  shows "case next_pid MAX_PID pids cur of
      None \<Rightarrow> \<forall>i. 1 \<le> i \<and> i \<le> MAX_PID \<longrightarrow> \<not> pid_empty (pids i)
    | Some i \<Rightarrow> 1 \<le> i \<and> i \<le> MAX_PID \<and> pid_empty (pids i)"
proof (cases "next_pid MAX_PID pids cur")
  case (Some i)
  then show ?thesis using next_pid_Some by fastforce
next
  case None
  have "\<not> pid_empty (pids i)" if i: "1 \<le> i" "i \<le> MAX_PID" for i
  proof -
    let ?k = "(i - 1 + (MAX_PID - cur)) mod MAX_PID"
    have "(cur + ?k) mod MAX_PID = (cur + (i - 1 + (MAX_PID - cur))) mod MAX_PID" by (rule mod_add_right_eq)
    also have "\<dots> = (i - 1 + MAX_PID) mod MAX_PID" using assms by simp
    also have "\<dots> = (i - 1) mod MAX_PID" by (rule mod_add_self2)
    also have "\<dots> = i - 1" by (rule mod_less) (use i in simp)
    finally have "(cur + ?k) mod MAX_PID + 1 = i" using i(1) by simp
    moreover have "?k < MAX_PID" by (simp add: MAX_PID_def)
    ultimately show ?thesis using None next_pid_None [OF assms] by metis
  qed
  then show ?thesis using None by simp
qed

text \<open>C37. The search for a process number ends exactly when there is a free one, and then gives a free number of the table;
  when every number is in use, the loop of \<open>task_create_\<close> goes round the table for ever, holding the lock.\<close>

theorem next_pid_correct:
  assumes "cur \<le> MAX_PID"
  shows "case next_pid MAX_PID pids cur of
      None \<Rightarrow> \<forall>i. 1 \<le> i \<and> i \<le> MAX_PID \<longrightarrow> \<not> pid_empty (pids i)
    | Some i \<Rightarrow> 1 \<le> i \<and> i \<le> MAX_PID \<and> pid_empty (pids i)"
  by (rule next_pid_search [OF assms])

theorem next_pid_correct_witness:
  "next_pid MAX_PID (\<lambda>i. if i = 7 then \<lparr>slot_task = None, slot_session = [], slot_pgroup = []\<rparr>
                          else \<lparr>slot_task = Some 0, slot_session = [], slot_pgroup = []\<rparr>) 9 = Some 7"
  using next_pid_correct [of 9 "\<lambda>i. if i = 7 then \<lparr>slot_task = None, slot_session = [], slot_pgroup = []\<rparr>
                          else \<lparr>slot_task = Some 0, slot_session = [], slot_pgroup = []\<rparr>"]
  by (auto simp: MAX_PID_def pid_empty_def split: option.splits if_splits)


section \<open>Creating a task\<close>

definition free_pid :: "proc_world \<Rightarrow> bool" where
  "free_pid w \<longleftrightarrow> (\<exists>i. 1 \<le> i \<and> i \<le> MAX_PID \<and> pid_empty (pw_pids w i)) \<and> pw_cur_pid w \<le> MAX_PID"

lemma free_pid_next: "free_pid w \<Longrightarrow> \<exists>i. next_pid MAX_PID (pw_pids w) (pw_cur_pid w) = Some i \<and> 1 \<le> i \<and> i \<le> MAX_PID \<and> pid_empty (pw_pids w i)"
  using next_pid_search [of "pw_cur_pid w" "pw_pids w"] by (auto simp: free_pid_def split: option.splits)

definition child_of :: "proc_task \<Rightarrow> nat \<Rightarrow> nat \<Rightarrow> proc_task" where
  "child_of C cur pid = C\<lparr>tk_pid := pid, tk_parent := Some cur, tk_children := [], tk_pdeath_signal := 0, tk_clear_tid := 0,
     tk_robust_list := 0, tk_did_exec := False\<rparr>"

lemma task_create_ok:
  assumes "proc_ok w" "pw_tasks w cur = Some C" "\<not> tk_exiting C" "\<not> pw_locked w" "free_pid w"
  shows "\<exists>pid w'. task_create True (Some cur) w = Some (Some (pw_next w), w') \<and> pid_empty (pw_pids w pid) \<and> proc_inv {pw_next w} w'
    \<and> \<not> pw_locked w' \<and> pw_tasks w' = (pw_tasks w)(pw_next w \<mapsto> child_of C cur pid, cur \<mapsto> C\<lparr>tk_children := pw_next w # tk_children C\<rparr>)
    \<and> pw_groups w' = pw_groups w \<and> pw_res w' = pw_res w \<and> pw_next w' = pw_next w + 1 \<and> pw_vforks w' = pw_vforks w
    \<and> pw_pids w' = (pw_pids w)(pid := (pw_pids w pid)\<lparr>slot_task := Some (pw_next w)\<rparr>)"
proof -
  obtain pid where pid: "next_pid MAX_PID (pw_pids w) (pw_cur_pid w) = Some pid" "1 \<le> pid" "pid \<le> MAX_PID" "pid_empty (pw_pids w pid)"
    using free_pid_next [OF assms(5)] by blast
  let ?t = "pw_next w"
  define w' where "w' = unlock_pids (put_task cur (C\<lparr>tk_children := ?t # tk_children C\<rparr>) (put_task ?t (child_of C cur pid)
      (put_pid pid ((pw_pids w pid)\<lparr>slot_task := Some ?t\<rparr>) (w\<lparr>pw_locked := True, pw_cur_pid := pid, pw_next := ?t + 1\<rparr>))))"
  have nt: "cur \<noteq> ?t" using tablesD(7) [OF assms(1) [unfolded proc_inv_def], of ?t] tview_Some [OF assms(2)] by auto
  have e: "slot_session (pw_pids w pid) = []" "slot_pgroup (pw_pids w pid) = []" "slot_task (pw_pids w pid) = None"
    using pid(4) by (simp_all add: pid_empty_def)
  then have s: "(pw_pids w pid)\<lparr>slot_session := [], slot_pgroup := []\<rparr> = pw_pids w pid" by (cases "pw_pids w pid") simp
  have c: "task_create True (Some cur) w = Some (Some ?t, w')"
    using assms(2,4) pid(1) nt s
    by (simp add: task_create_def lock_pids_def w'_def Let_def put_pid_def put_task_def child_of_def fun_upd_twist)
  have v: "tview w' = (tview w)(?t \<mapsto> tnode_of (child_of C cur pid), cur \<mapsto> (tnode_of C)\<lparr>tn_children := ?t # tk_children C\<rparr>)"
    "gview w' = gview w" by (simp_all add: w'_def tnode_of_def)
  have "proc_inv {?t} w'"
    using tables_create [OF assms(1) [unfolded proc_inv_def] tview_Some [OF assms(2)] _ e(3) pid(2,3) refl, where k = "tk_group C" and z = "tk_zombie C" and e = "tk_exiting C"] assms(3)
    unfolding proc_inv_def v by (simp add: w'_def child_of_def tnode_of_def)
  then show ?thesis using c pid(4) by (intro exI [of _ pid] exI [of _ w']) (simp add: w'_def)
qed

text \<open>Destroying a task that has no place yet.\<close>

definition in_no_group :: "nat \<Rightarrow> proc_world \<Rightarrow> bool" where
  "in_no_group t w \<longleftrightarrow> (\<forall>k g. gview w k = Some g \<longrightarrow> t \<noteq> gn_leader g \<and> t \<notin> set (gn_threads g))"

lemma task_destroy_ok:
  assumes "proc_inv (insert t N) w" "pw_tasks w t = Some T" "tk_parent T = Some p" "tk_children T = []" "in_no_group t w"
  shows "\<exists>w' P. task_destroy t w = Some w' \<and> proc_inv N w' \<and> p \<noteq> t \<and> pw_tasks w p = Some P
    \<and> pw_tasks w' = (pw_tasks w)(p \<mapsto> P\<lparr>tk_children := remove1 t (tk_children P)\<rparr>, t := None)
    \<and> pw_groups w' = pw_groups w \<and> pw_res w' = pw_res w \<and> pw_locked w' = pw_locked w \<and> pw_next w' = pw_next w \<and> pw_vforks w' = pw_vforks w
    \<and> pw_pids w' = (pw_pids w)(tk_pid T := (pw_pids w (tk_pid T))\<lparr>slot_task := None\<rparr>) \<and> pw_events w' = pw_events w"
proof -
  note i = assms(1) [unfolded proc_inv_def]
  note d = tablesD [OF i] and T = tview_Some [OF assms(2)]
  obtain y where "tview w p = Some y" using tables_parent [OF i T] assms(3) by auto
  then obtain P where P: "pw_tasks w p = Some P" by (auto simp: tview_def)
  note r = tables_destroy [OF i T _ _ assms(5) [unfolded in_no_group_def, rule_format] tview_Some [OF P]]
  have pt: "p \<noteq> t" using r(1) assms(3,4) by simp
  have pid: "tk_pid T \<le> MAX_PID" "slot_task (pw_pids w (tk_pid T)) = Some t" using d(1) [OF T] by simp_all
  define w1 where "w1 = put_task p (P\<lparr>tk_children := remove1 t (tk_children P)\<rparr>) w"
  define w2 where "w2 = put_pid (tk_pid T) ((pw_pids w (tk_pid T))\<lparr>slot_task := None\<rparr>) w1"
  have "pid_get (tk_pid T) w1 = Some (Some (tk_pid T))" using pid by (simp add: pid_get_def pid_empty_def w1_def)
  then have e: "task_destroy t w = Some (w2\<lparr>pw_tasks := (pw_tasks w2)(t := None)\<rparr>)"
    using assms(2,3) P pt by (simp add: task_destroy_def unlink_sibling_def w1_def w2_def)
  have "tview (w2\<lparr>pw_tasks := (pw_tasks w2)(t := None)\<rparr>) = (tview w)(p \<mapsto> (tnode_of P)\<lparr>tn_children := remove1 t (tk_children P)\<rparr>, t := None)"
    by (auto simp: fun_eq_iff tview_def w1_def w2_def tnode_of_def)
  moreover have "gview (w2\<lparr>pw_tasks := (pw_tasks w2)(t := None)\<rparr>) = gview w" by (simp add: gview_def w1_def w2_def fun_eq_iff)
  ultimately have "proc_inv N (w2\<lparr>pw_tasks := (pw_tasks w2)(t := None)\<rparr>)"
    using r(2) assms(3,4) unfolding proc_inv_def by (simp add: w1_def w2_def)
  then show ?thesis using e P pt by (intro exI [of _ "w2\<lparr>pw_tasks := (pw_tasks w2)(t := None)\<rparr>"] exI [of _ P]) (simp add: w1_def w2_def put_task_def put_pid_def)
qed

end
