(* ===== verification/Process_Res.thy ===== *)
theory Process_Res
  imports Process_Clone
begin

text \<open>
  The counts of the objects tasks share (memory map, descriptor table, file system data, handlers), and their exactness.
\<close>

section \<open>Holders\<close>

text \<open>\<open>N r\<close> are the tasks whose handle on a resource of kind \<open>r\<close> is not counted: it is copied but not yet retained, or released but not yet cleared.\<close>

definition handle :: "proc_world \<Rightarrow> nat \<Rightarrow> resource \<Rightarrow> nat option" where
  "handle w t r = (case pw_tasks w t of None \<Rightarrow> None | Some T \<Rightarrow> tk_res T r)"

definition holders :: "(resource \<Rightarrow> nat set) \<Rightarrow> proc_world \<Rightarrow> resource \<Rightarrow> nat \<Rightarrow> nat set" where
  "holders N w r x = {t. t \<notin> N r \<and> handle w t r = Some x}"

definition counted :: "nat set \<Rightarrow> nat option" where
  "counted S = (if S = {} then None else Some (card S))"

definition res_inv :: "(resource \<Rightarrow> nat set) \<Rightarrow> proc_world \<Rightarrow> bool" where
  "res_inv N w \<longleftrightarrow> (\<forall>r x. finite (holders N w r x) \<and> pw_res w r x = counted (holders N w r x))
     \<and> (\<forall>r x t. handle w t r = Some x \<longrightarrow> x < pw_next w) \<and> (\<forall>r x. pw_res w r x \<noteq> None \<longrightarrow> x < pw_next w)"

abbreviation res_ok :: "proc_world \<Rightarrow> bool" where "res_ok w \<equiv> res_inv (\<lambda>_. {}) w"

lemma res_invD:
  assumes "res_inv N w"
  shows "finite (holders N w r x)" "pw_res w r x = counted (holders N w r x)" "handle w t r = Some x \<Longrightarrow> x < pw_next w"
    "pw_res w r x \<noteq> None \<Longrightarrow> x < pw_next w"
  using assms unfolding res_inv_def by blast+

lemma counted_insert: "finite S \<Longrightarrow> t \<notin> S \<Longrightarrow> counted (insert t S) = Some (case counted S of None \<Rightarrow> 1 | Some n \<Rightarrow> n + 1)"
  by (auto simp: counted_def)

lemma counted_remove: "finite S \<Longrightarrow> t \<in> S \<Longrightarrow> \<exists>n. counted S = Some n \<and> counted (S - {t}) = (if n = 1 then None else Some (n - 1))"
  by (auto simp: counted_def card_Diff_singleton card_1_singleton_iff dest!: subset_singletonD)

lemma res_inv_cong:
  assumes "res_inv N w" "\<And>t r. handle w' t r = handle w t r" "pw_res w' = pw_res w" "pw_next w \<le> pw_next w'"
  shows "res_inv N w'"
proof -
  have h: "holders N w' r x = holders N w r x" for r x using assms(2) by (simp add: holders_def)
  show ?thesis using res_invD [OF assms(1)] assms(4) unfolding res_inv_def h assms(2,3) by (meson order_less_le_trans)
qed

lemma handle_put [simp]: "handle (put_task t T w) s r = (if s = t then tk_res T r else handle w s r)" "handle (put_group g G w) s r = handle w s r"
  "handle (put_pid i P w) s r = handle w s r" "handle (emit e w) s r = handle w s r" "handle (unlock_pids w) s r = handle w s r"
  "handle (w\<lparr>pw_next := n\<rparr>) s r = handle w s r" "handle (w\<lparr>pw_locked := b\<rparr>) s r = handle w s r" "handle (w\<lparr>pw_res := u\<rparr>) s r = handle w s r"
  "handle (w\<lparr>pw_vforks := v\<rparr>) s r = handle w s r"
  by (simp_all add: handle_def)

section \<open>Retaining, copying and releasing\<close>

lemma share_or_copy_ok:
  assumes "res_inv N w" "t \<in> N r" "pw_tasks w t = Some T" "tk_res T r = Some x" "pw_res w r x = Some n" "share \<or> al"
  shows "\<exists>w' y. share_or_copy share al r t w = Some (True, w') \<and> same_tables w w' \<and> res_inv (N(r := N r - {t})) w'
    \<and> pw_tasks w' = (pw_tasks w)(t \<mapsto> T\<lparr>tk_res := (tk_res T)(r := Some y)\<rparr>) \<and> pw_groups w' = pw_groups w \<and> pw_vforks w' = pw_vforks w
    \<and> (share \<longrightarrow> y = x) \<and> (\<not> share \<longrightarrow> pw_res w r y = None) \<and> (\<forall>q. q \<noteq> r \<longrightarrow> pw_res w' q = pw_res w q)"
proof -
  note d = res_invD [OF assms(1)]
  let ?N = "N(r := N r - {t})"
  show ?thesis
  proof (cases share)
    case True
    let ?w = "w\<lparr>pw_res := (pw_res w)(r := (pw_res w r)(x \<mapsto> n + 1))\<rparr>"
    have h: "holders ?N ?w q z = (if q = r \<and> z = x then insert t (holders N w r x) else holders N w q z)" for q z
      using assms(2-4) by (auto simp: holders_def handle_def)
    have "t \<notin> holders N w r x" using assms(2) by (simp add: holders_def)
    then have "counted (insert t (holders N w r x)) = Some (n + 1)"
      using counted_insert [OF d(1), of t r x] d(2) [of r x] assms(5) by (cases "counted (holders N w r x)") simp_all
    moreover have "x < pw_next w" using d(4) [of r x] assms(5) by simp
    ultimately have "res_inv ?N ?w" using d unfolding res_inv_def h by auto
    moreover have "share_or_copy share al r t w = Some (True, ?w)" using True assms(3-5) by (simp add: share_or_copy_def res_retain_def)
    moreover have "pw_tasks w = (pw_tasks w)(t \<mapsto> T\<lparr>tk_res := (tk_res T)(r := Some x)\<rparr>)" using assms(3,4) by (auto simp: fun_eq_iff)
    ultimately show ?thesis using True by (intro exI [of _ ?w] exI [of _ x]) (simp add: same_tables_def)
  next
    case False
    let ?y = "pw_next w"
    let ?w = "put_task t (T\<lparr>tk_res := (tk_res T)(r := Some ?y)\<rparr>) (w\<lparr>pw_res := (pw_res w)(r := (pw_res w r)(?y \<mapsto> 1)), pw_next := ?y + 1\<rparr>)"
    have hh: "handle ?w s q = (if s = t \<and> q = r then Some ?y else handle w s q)" for s q using assms(3) by (auto simp: handle_def)
    have ny: "handle w s q \<noteq> Some ?y" for s q using d(3) [of s q ?y] by auto
    have h: "holders ?N ?w q z = (if q = r \<and> z = ?y then {t} else holders N w q z)" for q z
      using assms(2) ny unfolding holders_def hh by auto
    have u: "pw_res ?w q z = (if q = r \<and> z = ?y then Some 1 else pw_res w q z)" for q z by auto
    have "res_inv ?N ?w"
      unfolding res_inv_def
    proof (intro conjI allI impI)
      show "finite (holders ?N ?w q z)" for q z using d(1) by (simp only: h) simp
      show "pw_res ?w q z = counted (holders ?N ?w q z)" for q z using d(2) by (simp only: h u) (simp add: counted_def)
      show "z < pw_next ?w" if "handle ?w s q = Some z" for q z s using that d(3) [of s q z] unfolding hh by (auto split: if_splits)
      show "z < pw_next ?w" if "pw_res ?w q z \<noteq> None" for q z using that d(4) [of q z] unfolding u by (auto split: if_splits)
    qed
    moreover have "share_or_copy share al r t w = Some (True, ?w)"
      using False assms(3-6) by (simp add: share_or_copy_def res_new_def set_handle_def)
    moreover have "same_tables w ?w" using view_same [OF assms(3), of "T\<lparr>tk_res := (tk_res T)(r := Some ?y)\<rparr>"]
      by (simp add: same_tables_def tnode_of_def)
    moreover have "pw_res w r ?y = None" using d(4) [of r ?y] by (cases "pw_res w r ?y") auto
    ultimately show ?thesis using False by (intro exI [of _ ?w] exI [of _ ?y]) simp
  qed
qed

lemma res_release_ok:
  assumes "res_inv N w" "t \<notin> N r" "handle w t r = Some x"
  shows "\<exists>w' u. res_release r (Some x) w = Some w' \<and> w' = w\<lparr>pw_res := u\<rparr> \<and> res_inv (N(r := insert t (N r))) w' \<and> (\<forall>q. q \<noteq> r \<longrightarrow> u q = pw_res w q)"
proof -
  note d = res_invD [OF assms(1)]
  let ?N = "N(r := insert t (N r))"
  have t: "t \<in> holders N w r x" using assms(2,3) by (simp add: holders_def)
  obtain n where n: "counted (holders N w r x) = Some n" "counted (holders N w r x - {t}) = (if n = 1 then None else Some (n - 1))"
    using counted_remove [OF d(1) t] by blast
  let ?u = "(pw_res w)(r := (pw_res w r)(x := (if n = 1 then None else Some (n - 1))))"
  have h: "holders ?N (w\<lparr>pw_res := ?u\<rparr>) q z = (if q = r \<and> z = x then holders N w r x - {t} else holders N w q z)" for q z
    using assms(3) by (auto simp: holders_def)
  have "res_inv ?N (w\<lparr>pw_res := ?u\<rparr>)"
    unfolding res_inv_def
  proof (intro conjI allI impI)
    show "finite (holders ?N (w\<lparr>pw_res := ?u\<rparr>) q z)" for q z using d(1) by (simp only: h) simp
    show "pw_res (w\<lparr>pw_res := ?u\<rparr>) q z = counted (holders ?N (w\<lparr>pw_res := ?u\<rparr>) q z)" for q z
      using d(2) n(2) by (simp only: h) auto
    show "z < pw_next (w\<lparr>pw_res := ?u\<rparr>)" if "handle (w\<lparr>pw_res := ?u\<rparr>) s q = Some z" for q z s using that d(3) by simp
    show "z < pw_next (w\<lparr>pw_res := ?u\<rparr>)" if "pw_res (w\<lparr>pw_res := ?u\<rparr>) q z \<noteq> None" for q z
      using that d(4) [of q z] d(4) [of r x] d(2) [of r x] n(1) by (auto split: if_splits)
  qed
  moreover have "res_release r (Some x) w = Some (w\<lparr>pw_res := ?u\<rparr>)" using d(2) [of r x] n(1) by (simp add: res_release_def)
  ultimately show ?thesis by auto
qed

lemma clear_handle_ok:
  assumes "res_inv N w" "t \<in> N r" "pw_tasks w t = Some T"
  shows "res_inv (N(r := N r - {t})) (put_task t (T\<lparr>tk_res := (tk_res T)(r := None)\<rparr>) w)"
proof -
  note d = res_invD [OF assms(1)]
  let ?w = "put_task t (T\<lparr>tk_res := (tk_res T)(r := None)\<rparr>) w"
  have hh: "handle ?w s q = (if s = t \<and> q = r then None else handle w s q)" for s q using assms(3) by (auto simp: handle_def)
  have h: "holders (N(r := N r - {t})) ?w q z = holders N w q z" for q z using assms(2) unfolding holders_def hh by auto
  show ?thesis unfolding res_inv_def h hh using d by auto
qed


section \<open>The four objects of a new task\<close>

definition shares :: "u32 \<Rightarrow> resource \<Rightarrow> bool" where
  "shares flags r = (case r of Res_mm \<Rightarrow> tst flags CLONE_VM | Res_files \<Rightarrow> tst flags CLONE_FILES
     | Res_fs \<Rightarrow> tst flags CLONE_FS | Res_sighand \<Rightarrow> tst flags CLONE_SIGHAND)"

definition room_for :: "clone_env \<Rightarrow> resource \<Rightarrow> bool" where
  "room_for env r = (case r of Res_mm \<Rightarrow> ce_mm env | Res_files \<Rightarrow> ce_files env | Res_fs \<Rightarrow> ce_fs env | Res_sighand \<Rightarrow> ce_sighand env)"

text \<open>After the kinds \<open>R\<close> have been shared or copied.\<close>

definition copied :: "u32 \<Rightarrow> resource set \<Rightarrow> nat \<Rightarrow> proc_task \<Rightarrow> proc_world \<Rightarrow> proc_world \<Rightarrow> bool" where
  "copied flags R t T w w' \<longleftrightarrow> (\<exists>h. pw_tasks w' = (pw_tasks w)(t \<mapsto> T\<lparr>tk_res := h\<rparr>) \<and> pw_groups w' = pw_groups w \<and> pw_vforks w' = pw_vforks w
     \<and> same_tables w w' \<and> res_inv (\<lambda>r. if r \<in> R then {} else {t}) w'
     \<and> (\<forall>r. r \<notin> R \<longrightarrow> h r = tk_res T r \<and> pw_res w' r = pw_res w r)
     \<and> (\<forall>r \<in> R. if shares flags r then h r = tk_res T r else \<exists>y. h r = Some y \<and> pw_res w r y = None))"

lemma copied_step:
  assumes "copied flags R t T w w'" "r \<notin> R" "tk_res T r = Some x" "pw_res w r x = Some n" "shares flags r \<or> al"
  shows "\<exists>w''. share_or_copy (shares flags r) al r t w' = Some (True, w'') \<and> copied flags (insert r R) t T w w''"
proof -
  obtain h where h: "pw_tasks w' = (pw_tasks w)(t \<mapsto> T\<lparr>tk_res := h\<rparr>)" "pw_groups w' = pw_groups w" "pw_vforks w' = pw_vforks w" "same_tables w w'"
    "res_inv (\<lambda>r. if r \<in> R then {} else {t}) w'" "\<And>r. r \<notin> R \<Longrightarrow> h r = tk_res T r \<and> pw_res w' r = pw_res w r"
    "\<And>r. r \<in> R \<Longrightarrow> if shares flags r then h r = tk_res T r else \<exists>y. h r = Some y \<and> pw_res w r y = None"
    using assms(1) unfolding copied_def by blast
  have "\<exists>w'' y. share_or_copy (shares flags r) al r t w' = Some (True, w'') \<and> same_tables w' w'' \<and> res_inv ((\<lambda>r. if r \<in> R then {} else {t})(r := (if r \<in> R then {} else {t}) - {t})) w''
    \<and> pw_tasks w'' = (pw_tasks w')(t \<mapsto> (T\<lparr>tk_res := h\<rparr>)\<lparr>tk_res := (tk_res (T\<lparr>tk_res := h\<rparr>))(r := Some y)\<rparr>) \<and> pw_groups w'' = pw_groups w' \<and> pw_vforks w'' = pw_vforks w'
    \<and> (shares flags r \<longrightarrow> y = x) \<and> (\<not> shares flags r \<longrightarrow> pw_res w' r y = None) \<and> (\<forall>q. q \<noteq> r \<longrightarrow> pw_res w'' q = pw_res w' q)"
    using h(1) h(6) [OF assms(2)] assms(2-5) by (intro share_or_copy_ok [OF h(5)]) auto
  then obtain w'' y where s: "share_or_copy (shares flags r) al r t w' = Some (True, w'')" "same_tables w' w''"
    "res_inv ((\<lambda>r. if r \<in> R then {} else {t})(r := (if r \<in> R then {} else {t}) - {t})) w''"
    "pw_tasks w'' = (pw_tasks w')(t \<mapsto> T\<lparr>tk_res := h(r := Some y)\<rparr>)" "pw_groups w'' = pw_groups w'" "pw_vforks w'' = pw_vforks w'"
    "shares flags r \<longrightarrow> y = x" "\<not> shares flags r \<longrightarrow> pw_res w' r y = None" "\<And>q. q \<noteq> r \<Longrightarrow> pw_res w'' q = pw_res w' q" by auto
  have "(\<lambda>r. if r \<in> R then {} else {t})(r := (if r \<in> R then {} else {t}) - {t}) = (\<lambda>q. if q \<in> insert r R then {} else {t})"
    using assms(2) by (simp add: fun_eq_iff)
  then have "copied flags (insert r R) t T w w''"
    unfolding copied_def using s h assms(2,3) same_tables_trans [OF h(4) s(2)]
    by (intro exI [of _ "h(r := Some y)"]) (auto split: if_splits)
  then show ?thesis using s(1) by blast
qed

lemma copy_resources_ok:
  assumes "res_inv (\<lambda>_. {t}) w" "pw_tasks w t = Some T" "\<And>r. \<exists>x n. tk_res T r = Some x \<and> pw_res w r x = Some n" "\<And>r. shares flags r \<or> room_for env r"
  shows "\<exists>w'. copy_resources env t flags w = Some (Inr (), w') \<and> copied flags UNIV t T w w'"
proof -
  have T: "T = T\<lparr>tk_res := tk_res T\<rparr>" by (cases T) simp
  have c0: "copied flags {} t T w w" unfolding copied_def using assms(1,2) T by (intro exI [of _ "tk_res T"]) (auto simp: fun_eq_iff)
  have st: "\<exists>w''. share_or_copy (shares flags r) (room_for env r) r t w' = Some (True, w'') \<and> copied flags (insert r R) t T w w''"
    if "copied flags R t T w w'" "r \<notin> R" for R r w'
  proof -
    obtain x n where "tk_res T r = Some x" "pw_res w r x = Some n" using assms(3) by blast
    from copied_step [OF that this assms(4)] show ?thesis .
  qed
  obtain w1 where w1: "share_or_copy (shares flags Res_mm) (room_for env Res_mm) Res_mm t w = Some (True, w1)" "copied flags {Res_mm} t T w w1"
    using st [OF c0] by blast
  obtain w2 where w2: "share_or_copy (shares flags Res_files) (room_for env Res_files) Res_files t w1 = Some (True, w2)" "copied flags {Res_files, Res_mm} t T w w2"
    using st [OF w1(2)] by blast
  obtain w3 where w3: "share_or_copy (shares flags Res_fs) (room_for env Res_fs) Res_fs t w2 = Some (True, w3)" "copied flags {Res_fs, Res_files, Res_mm} t T w w3"
    using st [OF w2(2)] by blast
  obtain w4 where w4: "share_or_copy (shares flags Res_sighand) (room_for env Res_sighand) Res_sighand t w3 = Some (True, w4)"
    "copied flags {Res_sighand, Res_fs, Res_files, Res_mm} t T w w4"
    using st [OF w3(2)] by blast
  have "{Res_sighand, Res_fs, Res_files, Res_mm} = UNIV" by (auto intro: resource.exhaust)
  then show ?thesis using w1(1) w2(1) w3(1) w4 by (simp add: copy_resources_def shares_def room_for_def)
qed

end
