(* ===== verification/Process_Fork.thy ===== *)
theory Process_Fork
  imports Process_Res
begin

text \<open>
  What clone does: a new task among the children of its parent and in a group, with the objects its flags say it shares; and the clone that fails
  late, which leaves a freed task in its group.
\<close>

definition ready :: "(resource \<Rightarrow> nat set) \<Rightarrow> nat set \<Rightarrow> proc_world \<Rightarrow> bool" where
  "ready R N w \<longleftrightarrow> proc_inv N w \<and> res_inv R w \<and> \<not> pw_locked w"

abbreviation world_ok :: "proc_world \<Rightarrow> bool" where "world_ok w \<equiv> ready (\<lambda>_. {}) {} w"

text \<open>A task that runs, with its four objects.\<close>

definition running :: "proc_world \<Rightarrow> nat \<Rightarrow> bool" where
  "running w t \<longleftrightarrow> (\<exists>T. pw_tasks w t = Some T \<and> \<not> tk_exiting T \<and> (\<forall>r. tk_res T r \<noteq> None))"

lemma held_counted:
  assumes "res_inv N w" "handle w t r = Some x" "t \<notin> N r"
  shows "\<exists>n. pw_res w r x = Some n"
proof -
  have "t \<in> holders N w r x" using assms(2,3) by (simp add: holders_def)
  then show ?thesis using res_invD(2) [OF assms(1), of r x] by (auto simp: counted_def)
qed

lemma running_group:
  assumes "proc_inv N w" "pw_tasks w t = Some T" "\<not> tk_exiting T" "t \<notin> N"
  shows "\<exists>G. pw_groups w (tk_group T) = Some G \<and> t \<in> set (tg_threads G)"
  using tablesD(4) [OF assms(1) [unfolded proc_inv_def] tview_Some [OF assms(2)] assms(4)] assms(3)
  by (auto simp: member_ok_def gview_def)

text \<open>A task that joins the group of its parent, or a copy of it.\<close>

definition joined :: "nat \<Rightarrow> u32 \<Rightarrow> proc_task \<Rightarrow> proc_group \<Rightarrow> proc_world \<Rightarrow> proc_world \<Rightarrow> bool" where
  "joined t flags T G w w' \<longleftrightarrow> (\<exists>g G'. pw_tasks w' = (pw_tasks w)(t \<mapsto> T\<lparr>tk_group := g, tk_tgid := (if tst flags CLONE_THREAD then tk_tgid T else tk_pid T)\<rparr>)
     \<and> pw_groups w' = (pw_groups w)(g \<mapsto> G') \<and> tg_pgid G' = tg_pgid G \<and> tg_sid G' = tg_sid G \<and> tg_tty G' = tg_tty G
     \<and> (if tst flags CLONE_THREAD then g = tk_group T \<and> tg_threads G' = t # tg_threads G \<and> tg_leader G' = tg_leader G
        else pw_groups w g = None \<and> tg_threads G' = [t] \<and> tg_leader G' = t \<and> \<not> tg_doing_group_exit G' \<and> tg_pgroup_link G' = tg_pgroup_link G \<and> tg_session_link G' = tg_session_link G))"

lemma join_group_ok:
  assumes "proc_inv {t} w" "\<not> pw_locked w" "pw_tasks w t = Some T" "tk_parent T \<noteq> None" "\<not> tk_exiting T" "\<not> tk_zombie T"
    "pw_groups w (tk_group T) = Some G" "tg_threads G \<noteq> []" "\<And>k g. gview w k = Some g \<Longrightarrow> t \<noteq> gn_leader g \<and> t \<notin> set (gn_threads g)"
  shows "\<exists>w'. join_group True t flags w = Some w' \<and> proc_ok w' \<and> \<not> pw_locked w' \<and> joined t flags T G w w' \<and> pw_res w' = pw_res w
    \<and> pw_next w \<le> pw_next w' \<and> pw_vforks w' = pw_vforks w"
proof (cases "tst flags CLONE_THREAD")
  case True
  let ?w = "unlock_pids (put_group (tk_group T) (G\<lparr>tg_threads := t # tg_threads G\<rparr>) (w\<lparr>pw_locked := True\<rparr>))"
  have "join_group True t flags w = Some ?w" using True assms(2,3,7) by (simp add: join_group_def lock_pids_def)
  moreover have "proc_ok ?w"
    using tables_join [OF assms(1) [unfolded proc_inv_def] tview_Some [OF assms(3)], of "gnode_of G"] assms(4-8) gview_Some [OF assms(7)]
      assms(9) [OF gview_Some [OF assms(7)]]
    by (auto simp: proc_inv_def gnode_of_def)
  moreover have "T = T\<lparr>tk_group := tk_group T, tk_tgid := tk_tgid T\<rparr>" by (cases T) simp
  then have "joined t flags T G w ?w" using True assms(3)
    by (auto simp: joined_def fun_eq_iff intro!: exI [of _ "tk_group T"] exI [of _ "G\<lparr>tg_threads := t # tg_threads G\<rparr>"])
  ultimately show ?thesis by (intro exI [of _ ?w]) simp
next
  case False
  note i = assms(1) [unfolded proc_inv_def]
  obtain a b where l: "tg_pgroup_link G = Some a" "tg_session_link G = Some b" using tablesD(6) [OF i gview_Some [OF assms(7)]] by auto
  let ?g = "pw_next w" and ?k = "tk_group T"
  have ng: "gview w ?g = None" using tablesD(7) [OF i, of ?g] by simp
  define P1 where "P1 = (pw_pids w)(a := (pw_pids w a)\<lparr>slot_pgroup := insert_after ?k ?g (slot_pgroup (pw_pids w a))\<rparr>)"
  define P2 where "P2 = P1(b := (P1 b)\<lparr>slot_session := insert_after ?k ?g (slot_session (P1 b))\<rparr>)"
  define H where "H = G\<lparr>tg_threads := [], tg_itimer := False, tg_doing_group_exit := False, tg_children_rusage := no_rusage\<rparr>"
  define w1 where "w1 = w\<lparr>pw_locked := True, pw_next := ?g + 1, pw_pids := P2, pw_groups := (pw_groups w)(?g \<mapsto> H)\<rparr>"
  define w2 where "w2 = (case tg_tty G of None \<Rightarrow> w1 | Some tty \<Rightarrow> emit (Ev_tty_retain tty) w1)"
  have c: "tgroup_copy True ?k (w\<lparr>pw_locked := True\<rparr>) = Some (?g, w2)"
    using assms(7) l by (cases "tg_tty G") (simp_all add: tgroup_copy_def Let_def put_pid_def put_group_def w2_def w1_def H_def P2_def P1_def)
  have w2: "pw_tasks w2 = pw_tasks w" "pw_groups w2 = (pw_groups w)(?g \<mapsto> H)" "pw_pids w2 = P2" "pw_next w2 = Suc ?g" "pw_res w2 = pw_res w"
      "pw_vforks w2 = pw_vforks w" by (simp_all add: w2_def w1_def split: option.split)
  let ?w = "unlock_pids (put_group ?g (H\<lparr>tg_leader := t, tg_threads := [t]\<rparr>) (put_task t (T\<lparr>tk_group := ?g, tk_tgid := tk_pid T\<rparr>) (put_group ?g (H\<lparr>tg_leader := t\<rparr>) w2)))"
  have "join_group True t flags w = Some ?w" using False assms(2,3) c w2 by (simp add: join_group_def lock_pids_def H_def)
  moreover have "proc_ok ?w"
  proof -
    have "tview ?w = (tview w)(t \<mapsto> (tnode_of T)\<lparr>tn_group := ?g\<rparr>)" "gview ?w = (gview w)(?g \<mapsto> (gnode_of G)\<lparr>gn_threads := [t], gn_leader := t\<rparr>)"
      using w2(1,2) by (auto simp: tview_def gview_def fun_eq_iff tnode_of_def gnode_of_def H_def put_task_def put_group_def unlock_pids_def)
    then show ?thesis
      using tables_new_group [OF i tview_Some [OF assms(3)] _ _ _ gview_Some [OF assms(7)] order_refl, of a b _ P1 P2] assms(4-6,9) l w2(3,4)
      by (simp add: proc_inv_def P1_def P2_def)
  qed
  moreover have "joined t flags T G w ?w" using False ng w2
    by (auto simp: joined_def fun_eq_iff gview_def H_def intro!: exI [of _ ?g] exI [of _ "H\<lparr>tg_leader := t, tg_threads := [t]\<rparr>"])
  ultimately show ?thesis using w2 by (intro exI [of _ ?w]) simp
qed


text \<open>The state after \<open>task_create\<close> and the first steps of \<open>copy_task\<close>: the handles of the new task are copied but not counted.\<close>

lemma created_resources:
  assumes "res_ok w" "pw_tasks w cur = Some C" "t = pw_next w" "pw_next w' = Suc t" "pw_res w' = pw_res w"
    "pw_tasks w' = (pw_tasks w)(t \<mapsto> T, cur \<mapsto> C')" "tk_res T = tk_res C" "tk_res C' = tk_res C" "cur \<noteq> t" "pw_tasks w t = None"
  shows "res_inv (\<lambda>_. {t}) w'"
proof -
  note d = res_invD [OF assms(1)]
  have hh: "handle w' s r = (if s = t then tk_res C r else handle w s r)" for s r
    using assms(2,6-9) by (auto simp: handle_def)
  have "handle w t r = None" for r using assms(10) by (simp add: handle_def)
  then have h: "holders (\<lambda>_. {t}) w' r x = holders (\<lambda>_. {}) w r x" for r x by (auto simp: holders_def hh)
  have "handle w cur r = tk_res C r" for r using assms(2) by (simp add: handle_def)
  then have "x < Suc t" if "tk_res C r = Some x" for r x using d(3) [of cur r x] that assms(3) by simp
  moreover have "x < Suc t" if "handle w s r = Some x" for s r x using d(3) [OF that] assms(3) by simp
  moreover have "x < Suc t" if "pw_res w r x \<noteq> None" for r x using d(4) [OF that] assms(3) by simp
  ultimately show ?thesis using d(1,2) unfolding res_inv_def h hh assms(4,5) by (auto split: if_splits)
qed


text \<open>Where a new task ends up: in the group of its parent, or in one of its own with the same process group and session.\<close>

definition in_group :: "nat \<Rightarrow> u32 \<Rightarrow> nat \<Rightarrow> proc_world \<Rightarrow> nat \<Rightarrow> proc_world \<Rightarrow> bool" where
  "in_group t flags p w g w' \<longleftrightarrow> (\<exists>G G'. pw_groups w p = Some G \<and> pw_groups w' = (pw_groups w)(g \<mapsto> G') \<and> tg_pgid G' = tg_pgid G
     \<and> tg_sid G' = tg_sid G \<and> tg_tty G' = tg_tty G
     \<and> (if tst flags CLONE_THREAD then g = p \<and> tg_threads G' = t # tg_threads G \<and> tg_leader G' = tg_leader G
        else pw_groups w g = None \<and> tg_threads G' = [t] \<and> tg_leader G' = t \<and> \<not> tg_doing_group_exit G'
             \<and> tg_pgroup_link G' = tg_pgroup_link G \<and> tg_session_link G' = tg_session_link G))"

text \<open>The objects it has: those of its parent, or new ones.\<close>

definition given :: "u32 \<Rightarrow> proc_task \<Rightarrow> proc_world \<Rightarrow> (resource \<Rightarrow> nat option) \<Rightarrow> bool" where
  "given flags C w h \<longleftrightarrow> (\<forall>r. if shares flags r then h r = tk_res C r else \<exists>y. h r = Some y \<and> pw_res w r y = None)"

lemma copy_task_joined:
  assumes "proc_inv {t} w" "res_inv (\<lambda>_. {t}) w" "\<not> pw_locked w" "pw_tasks w t = Some T" "pw_tasks w cur = Some C" "\<not> tk_exiting C" "cur \<noteq> t"
    "tk_res T = tk_res C" "\<And>r. tk_res C r \<noteq> None" "tk_group T = tk_group C" "tk_parent T \<noteq> None" "\<not> tk_exiting T" "\<not> tk_zombie T"
    "\<And>k g. gview w k = Some g \<Longrightarrow> t \<noteq> gn_leader g \<and> t \<notin> set (gn_threads g)"
    "\<And>r. shares flags r \<or> room_for env r" "ce_group env"
    "T0 = T\<lparr>tk_vfork := None, tk_esp := (if stack \<noteq> 0 then stack else tk_esp T)\<rparr>"
  shows "\<exists>w1 w2 g h. copy_resources env t flags (put_task t T0 w) = Some (Inr (), w1) \<and> join_group (ce_group env) t flags w1 = Some w2
    \<and> world_ok w2 \<and> pw_vforks w2 = pw_vforks w \<and> given flags C w h \<and> in_group t flags (tk_group C) w g w2
    \<and> pw_tasks w2 = (pw_tasks w)(t \<mapsto> T0\<lparr>tk_res := h, tk_group := g, tk_tgid := (if tst flags CLONE_THREAD then tk_tgid T else tk_pid T)\<rparr>)"
proof -
  let ?w0 = "put_task t T0 w"
  have n0: "tnode_of T0 = tnode_of T" by (simp add: assms(17) tnode_of_def)
  have v0: "tview ?w0 = tview w" using view_same [OF assms(4) n0] by simp
  have i0: "proc_inv {t} ?w0" using assms(1) v0 by (simp add: proc_inv_def)
  have r0: "res_inv (\<lambda>_. {t}) ?w0"
    by (rule res_inv_cong [OF assms(2)]) (use assms(4) in \<open>auto simp: assms(17) handle_def\<close>)
  have held: "\<exists>x n. tk_res T0 r = Some x \<and> pw_res ?w0 r x = Some n" for r
  proof -
    obtain x where x: "tk_res C r = Some x" using assms(9) [of r] by auto
    then have "handle w cur r = Some x" using assms(5) by (simp add: handle_def)
    from held_counted [OF assms(2) this] x show ?thesis using assms(7,8) by (simp add: assms(17))
  qed
  obtain w1 where w1: "copy_resources env t flags ?w0 = Some (Inr (), w1)" "copied flags UNIV t T0 ?w0 w1"
    using copy_resources_ok [OF r0 _ held assms(15)] by (metis fields_put(7) fun_upd_same)
  then obtain h where "pw_tasks w1 = (pw_tasks ?w0)(t \<mapsto> T0\<lparr>tk_res := h\<rparr>) \<and> pw_groups w1 = pw_groups ?w0 \<and> pw_vforks w1 = pw_vforks ?w0
     \<and> same_tables ?w0 w1 \<and> res_inv (\<lambda>r. if r \<in> UNIV then {} else {t}) w1
     \<and> (\<forall>r. r \<notin> UNIV \<longrightarrow> h r = tk_res T0 r \<and> pw_res w1 r = pw_res ?w0 r)
     \<and> (\<forall>r \<in> UNIV. if shares flags r then h r = tk_res T0 r else \<exists>y. h r = Some y \<and> pw_res ?w0 r y = None)"
    unfolding copied_def by (elim exE)
  then have h: "pw_tasks w1 = (pw_tasks ?w0)(t \<mapsto> T0\<lparr>tk_res := h\<rparr>)" "pw_groups w1 = pw_groups w" "pw_vforks w1 = pw_vforks w" "same_tables ?w0 w1"
    "res_inv (\<lambda>_. {}) w1" "\<forall>r. if shares flags r then h r = tk_res T0 r else \<exists>y. h r = Some y \<and> pw_res w r y = None"
    unfolding fields_put by simp_all
  have i1: "proc_inv {t} w1" by (rule same_tables_inv [OF h(4) i0])
  have l1: "\<not> pw_locked w1" using h(4) assms(3) by (simp add: same_tables_def)
  obtain G where G: "pw_groups w (tk_group C) = Some G" "cur \<in> set (tg_threads G)"
    using running_group [OF assms(1,5,6)] assms(7) by auto
  have g1: "gview w1 = gview w" using h(2) by (simp add: gview_def fun_eq_iff)
  have t1: "pw_tasks w1 t = Some (T0\<lparr>tk_res := h\<rparr>)" using h(1) by simp
  have e: "tg_threads G \<noteq> []" using G(2) by auto
  have "\<exists>w'. join_group True t flags w1 = Some w' \<and> proc_ok w' \<and> \<not> pw_locked w' \<and> joined t flags (T0\<lparr>tk_res := h\<rparr>) G w1 w' \<and> pw_res w' = pw_res w1
    \<and> pw_next w1 \<le> pw_next w' \<and> pw_vforks w' = pw_vforks w1"
    by (rule join_group_ok [OF i1 l1 t1 _ _ _ _ e]) (use assms(10-14) G(1) h(2) g1 in \<open>auto simp: assms(17)\<close>)
  then obtain w2 where w2: "join_group True t flags w1 = Some w2" "proc_ok w2" "\<not> pw_locked w2" "joined t flags (T0\<lparr>tk_res := h\<rparr>) G w1 w2"
      "pw_res w2 = pw_res w1" "pw_next w1 \<le> pw_next w2" "pw_vforks w2 = pw_vforks w1" by blast
  have t0: "tk_tgid (T0\<lparr>tk_res := h\<rparr>) = tk_tgid T" "tk_pid (T0\<lparr>tk_res := h\<rparr>) = tk_pid T" "tk_group (T0\<lparr>tk_res := h\<rparr>) = tk_group C"
    using assms(10) by (simp_all add: assms(17))
  from w2(4) obtain g G' where j: "pw_tasks w2 = (pw_tasks w1)(t \<mapsto> (T0\<lparr>tk_res := h\<rparr>)\<lparr>tk_group := g, tk_tgid := (if tst flags CLONE_THREAD then tk_tgid T else tk_pid T)\<rparr>)"
     "pw_groups w2 = (pw_groups w)(g \<mapsto> G')" "tg_pgid G' = tg_pgid G" "tg_sid G' = tg_sid G" "tg_tty G' = tg_tty G"
     "if tst flags CLONE_THREAD then g = tk_group C \<and> tg_threads G' = t # tg_threads G \<and> tg_leader G' = tg_leader G
        else pw_groups w g = None \<and> tg_threads G' = [t] \<and> tg_leader G' = t \<and> \<not> tg_doing_group_exit G' \<and> tg_pgroup_link G' = tg_pgroup_link G \<and> tg_session_link G' = tg_session_link G"
    unfolding joined_def h(2) t0 by blast
  let ?T2 = "(T0\<lparr>tk_res := h\<rparr>)\<lparr>tk_group := g, tk_tgid := (if tst flags CLONE_THREAD then tk_tgid T else tk_pid T)\<rparr>"
  have "res_ok w2"
    by (rule res_inv_cong [OF h(5)]) (use w2(5,6) j(1) h(1) in \<open>auto simp: handle_def\<close>)
  then have "world_ok w2" using w2(2,3) by (simp add: ready_def)
  moreover have "pw_tasks w2 = (pw_tasks w)(t \<mapsto> ?T2)" using j(1) h(1) by simp
  moreover have "given flags C w h" using h(6) assms(8) by (simp add: given_def assms(17))
  moreover have "in_group t flags (tk_group C) w g w2" unfolding in_group_def using G(1) j(2-6) by blast
  ultimately show ?thesis using w1(1) w2(1,7) h(3) assms(16) by (intro exI [of _ w1] exI [of _ w2] exI [of _ g] exI [of _ h]) simp
qed

lemma ready_put:
  assumes "world_ok w" "pw_tasks w t = Some T" "tnode_of T' = tnode_of T" "tk_res T' = tk_res T"
  shows "world_ok (put_task t T' w)"
proof -
  have "res_ok (put_task t T' w)" by (rule res_inv_cong [of _ w]) (use assms in \<open>auto simp: ready_def handle_def\<close>)
  then show ?thesis using assms(1) view_same [OF assms(2,3)] by (simp add: ready_def proc_inv_def)
qed

text \<open>The new task of a clone that succeeds.\<close>

definition cloned :: "nat \<Rightarrow> nat \<Rightarrow> u32 \<Rightarrow> u32 \<Rightarrow> u32 \<Rightarrow> proc_task \<Rightarrow> proc_task \<Rightarrow> bool" where
  "cloned cur pid flags stack ctid C T \<longleftrightarrow> tk_pid T = pid \<and> tk_parent T = Some cur \<and> tk_children T = [] \<and> \<not> tk_exiting T
     \<and> tk_esp T = (if stack \<noteq> 0 then stack else tk_esp C) \<and> tk_eax T = 0 \<and> tk_clear_tid T = (if tst flags CLONE_CHILD_CLEARTID then ctid else 0)
     \<and> tk_exit_signal T = unat (flags AND CSIGNAL) \<and> tk_pdeath_signal T = 0 \<and> tk_uid T = tk_uid C \<and> tk_euid T = tk_euid C
     \<and> tk_tgid T = (if tst flags CLONE_THREAD then tk_tgid C else pid) \<and> tk_vfork T = None"

text \<open>What clone finds and makes before anything can fail late.\<close>

lemma clone_prepared:
  assumes "world_ok w" "running w cur" "pw_tasks w cur = Some C" "free_pid w" "ce_group env" "\<And>r. shares flags r \<or> room_for env r"
    "t = pw_next w"
  shows "\<exists>pid w0 T0 w1 w2 g h. task_create True (Some cur) w = Some (Some t, w0) \<and> pid_empty (pw_pids w pid) \<and> pw_tasks w t = None
    \<and> pw_tasks w0 t = Some (child_of C cur pid) \<and> T0 = (child_of C cur pid)\<lparr>tk_vfork := None, tk_esp := (if stack \<noteq> 0 then stack else tk_esp C)\<rparr>
    \<and> copy_resources env t flags (put_task t T0 w0) = Some (Inr (), w1) \<and> join_group (ce_group env) t flags w1 = Some w2
    \<and> world_ok w2 \<and> given flags C w h \<and> in_group t flags (tk_group C) w g w2 \<and> cur \<noteq> t
    \<and> pw_tasks w2 = (pw_tasks w)(cur \<mapsto> C\<lparr>tk_children := t # tk_children C\<rparr>,
         t \<mapsto> T0\<lparr>tk_res := h, tk_group := g, tk_tgid := (if tst flags CLONE_THREAD then tk_tgid C else pid)\<rparr>)"
proof -
  have r: "proc_ok w" "res_ok w" "\<not> pw_locked w" "\<not> tk_exiting C" "\<And>r. tk_res C r \<noteq> None"
    using assms(1-3) by (auto simp: ready_def running_def)
  note d = tablesD [OF r(1) [unfolded proc_inv_def]]
  obtain pid w0 where w0: "task_create True (Some cur) w = Some (Some t, w0)" "pid_empty (pw_pids w pid)" "proc_inv {t} w0"
    "\<not> pw_locked w0" "pw_tasks w0 = (pw_tasks w)(t \<mapsto> child_of C cur pid, cur \<mapsto> C\<lparr>tk_children := t # tk_children C\<rparr>)"
    "pw_groups w0 = pw_groups w" "pw_res w0 = pw_res w" "pw_next w0 = t + 1" "pw_vforks w0 = pw_vforks w"
    using task_create_ok [OF r(1) assms(3) r(4,3) assms(4)] unfolding assms(7) by blast
  have tn: "pw_tasks w t = None" "pw_groups w t = None" using d(7) [of t] by (simp_all add: tview_def gview_def assms(7))
  then have ct: "cur \<noteq> t" using assms(3) by auto
  let ?T = "child_of C cur pid" and ?C = "C\<lparr>tk_children := t # tk_children C\<rparr>"
  have c0: "pw_tasks w0 t = Some ?T" "pw_tasks w0 cur = Some ?C" using w0(5) ct by simp_all
  have "res_inv (\<lambda>_. {t}) w0"
    by (rule created_resources [OF r(2) assms(3,7) _ w0(7,5) _ _ ct tn(1)]) (use w0(8) in \<open>simp_all add: child_of_def\<close>)
  moreover have "t \<noteq> gn_leader g \<and> t \<notin> set (gn_threads g)" if "gview w0 k = Some g" for k g
    using d(5) [of k g] that tn(1) w0(6) by (auto simp: gview_def grp_def tview_def)
  moreover have "\<not> tk_zombie C" using d(4) [OF tview_Some [OF assms(3)]] r(4) by (auto simp: member_ok_def)
  ultimately have "\<exists>w1 w2 g h. copy_resources env t flags (put_task t (?T\<lparr>tk_vfork := None, tk_esp := (if stack \<noteq> 0 then stack else tk_esp ?T)\<rparr>) w0) = Some (Inr (), w1)
    \<and> join_group (ce_group env) t flags w1 = Some w2
    \<and> world_ok w2 \<and> pw_vforks w2 = pw_vforks w0 \<and> given flags ?C w0 h \<and> in_group t flags (tk_group ?C) w0 g w2
    \<and> pw_tasks w2 = (pw_tasks w0)(t \<mapsto> (?T\<lparr>tk_vfork := None, tk_esp := (if stack \<noteq> 0 then stack else tk_esp ?T)\<rparr>)\<lparr>tk_res := h, tk_group := g,
         tk_tgid := (if tst flags CLONE_THREAD then tk_tgid ?T else tk_pid ?T)\<rparr>)"
    using w0(3,4) c0 r(4,5) ct assms(5,6) by (intro copy_task_joined) (auto simp: child_of_def)
  then obtain w1 w2 g h where w2: "copy_resources env t flags (put_task t (?T\<lparr>tk_vfork := None, tk_esp := (if stack \<noteq> 0 then stack else tk_esp ?T)\<rparr>) w0) = Some (Inr (), w1)"
    "join_group (ce_group env) t flags w1 = Some w2" "world_ok w2" "given flags ?C w0 h" "in_group t flags (tk_group ?C) w0 g w2"
    "pw_tasks w2 = (pw_tasks w0)(t \<mapsto> (?T\<lparr>tk_vfork := None, tk_esp := (if stack \<noteq> 0 then stack else tk_esp ?T)\<rparr>)\<lparr>tk_res := h, tk_group := g,
         tk_tgid := (if tst flags CLONE_THREAD then tk_tgid ?T else tk_pid ?T)\<rparr>)" by blast
  have f: "tk_esp ?T = tk_esp C" "tk_tgid ?T = tk_tgid C" "tk_pid ?T = pid" by (simp_all add: child_of_def)
  have "given flags C w h" using w2(4) w0(7) by (simp add: given_def cong: if_cong)
  moreover have "in_group t flags (tk_group C) w g w2" using w2(5) w0(6) by (simp add: in_group_def cong: if_cong)
  moreover have "pw_tasks w2 = (pw_tasks w)(cur \<mapsto> ?C, t \<mapsto> (?T\<lparr>tk_vfork := None, tk_esp := (if stack \<noteq> 0 then stack else tk_esp C)\<rparr>)\<lparr>tk_res := h, tk_group := g,
         tk_tgid := (if tst flags CLONE_THREAD then tk_tgid C else pid)\<rparr>)"
    unfolding w2(6) w0(5) f using ct by (simp add: fun_upd_twist)
  ultimately show ?thesis using w0(1,2) c0(1) tn(1) w2(1-3) ct unfolding f by blast
qed


lemma clone_effect:
  assumes "world_ok w" "running w cur" "pw_tasks w cur = Some C" "free_pid w" "ce_task env" "ce_group env" "\<And>r. shares flags r \<or> room_for env r"
    "late_error env flags = None" "\<not> clone_flags_error flags" "\<not> tst flags CLONE_VFORK"
  shows "\<exists>pid t T w'. sys_clone env others cur flags stack ctid w = Some (Inr pid, w') \<and> world_ok w' \<and> pid_empty (pw_pids w pid)
    \<and> pw_tasks w t = None \<and> pw_tasks w' = (pw_tasks w)(cur \<mapsto> C\<lparr>tk_children := t # tk_children C\<rparr>, t \<mapsto> T)
    \<and> cloned cur pid flags stack ctid C T \<and> given flags C w (tk_res T) \<and> in_group t flags (tk_group C) w (tk_group T) w'"
proof -
  let ?t = "pw_next w"
  obtain pid w0 T0 w1 w2 g h where p: "task_create True (Some cur) w = Some (Some ?t, w0)" "pid_empty (pw_pids w pid)" "pw_tasks w ?t = None"
    "pw_tasks w0 ?t = Some (child_of C cur pid)" "T0 = (child_of C cur pid)\<lparr>tk_vfork := None, tk_esp := (if stack \<noteq> 0 then stack else tk_esp C)\<rparr>"
    "copy_resources env ?t flags (put_task ?t T0 w0) = Some (Inr (), w1)" "join_group (ce_group env) ?t flags w1 = Some w2"
    "world_ok w2" "given flags C w h" "in_group ?t flags (tk_group C) w g w2" "cur \<noteq> ?t"
    "pw_tasks w2 = (pw_tasks w)(cur \<mapsto> C\<lparr>tk_children := ?t # tk_children C\<rparr>,
         ?t \<mapsto> T0\<lparr>tk_res := h, tk_group := g, tk_tgid := (if tst flags CLONE_THREAD then tk_tgid C else pid)\<rparr>)"
    using clone_prepared [OF assms(1-4,6,7) refl] by blast
  let ?T2 = "T0\<lparr>tk_res := h, tk_group := g, tk_tgid := (if tst flags CLONE_THREAD then tk_tgid C else pid)\<rparr>"
  let ?T3 = "?T2\<lparr>tk_clear_tid := (if tst flags CLONE_CHILD_CLEARTID then ctid else 0), tk_exit_signal := unat (flags AND CSIGNAL)\<rparr>"
  let ?T4 = "?T3\<lparr>tk_eax := 0, tk_vfork := None\<rparr>"
  have t2: "pw_tasks w2 ?t = Some ?T2" "pw_tasks w2 cur = Some (C\<lparr>tk_children := ?t # tk_children C\<rparr>)" using p(11,12) by simp_all
  have f: "tk_esp (child_of C cur pid) = tk_esp C" "tk_clear_tid T0 = 0" "tk_pid T0 = pid" using p(5) by (simp_all add: child_of_def)
  have "copy_task env ?t flags stack ctid w0 = Some (Inr (), put_task ?t ?T3 w2)"
    using p(4,6,7) assms(6,8) t2(1) unfolding p(5) by (simp add: copy_task_def child_of_def cong: if_cong)
  moreover have w3: "world_ok (put_task ?t ?T3 w2)" by (rule ready_put [OF p(8) t2(1)]) (simp_all add: tnode_of_def)
  moreover define w4 where "w4 = (let v = put_task ?t ?T4 (put_task ?t ?T3 w2) in emit (Ev_started ?t) (if tk_traced C then emit (Ev_signal cur 5) v else v))"
  ultimately have c: "sys_clone env others cur flags stack ctid w = Some (Inr pid, w4)"
    using assms(5,9,10) p(1,11) t2 f(3) by (simp add: sys_clone_def start_clone_def w4_def Let_def)
  have "world_ok (put_task ?t ?T4 (put_task ?t ?T3 w2))" by (rule ready_put [OF w3, of ?t ?T3]) (simp_all add: tnode_of_def)
  then have "world_ok w4" by (simp add: w4_def Let_def ready_def proc_inv_def res_inv_def holders_def)
  moreover have t4: "pw_tasks w4 = (pw_tasks w)(cur \<mapsto> C\<lparr>tk_children := ?t # tk_children C\<rparr>, ?t \<mapsto> ?T4)" using p(12) by (simp add: w4_def Let_def)
  moreover have "cloned cur pid flags stack ctid C ?T4"
    using assms(2,3) unfolding p(5) by (auto simp: cloned_def child_of_def running_def)
  moreover have "in_group ?t flags (tk_group C) w (tk_group ?T4) w4" using p(10) by (simp add: in_group_def w4_def Let_def)
  moreover have "given flags C w (tk_res ?T4)" using p(9) by simp
  ultimately show ?thesis using c p(2,3) by blast
qed

text \<open>A clone that fails late. Its objects are released, so the counts stay exact, and its task is freed; but the task
  stays in the list of threads of its group.\<close>

lemma release_task_ok:
  assumes "res_inv N w" "pw_tasks w t = Some T" "\<And>r. r \<in> set rs \<Longrightarrow> t \<notin> N r \<and> tk_res T r \<noteq> None" "distinct rs"
  shows "\<exists>u. release_all rs t w = Some (w\<lparr>pw_res := u\<rparr>) \<and> res_inv (\<lambda>r. if r \<in> set rs then insert t (N r) else N r) (w\<lparr>pw_res := u\<rparr>)"
  using assms
proof (induction rs arbitrary: N w)
  case Nil
  then show ?case by (intro exI [of _ "pw_res w"]) simp
next
  case (Cons r rs)
  obtain x where x: "tk_res T r = Some x" using Cons.prems(3) by fastforce
  then have h: "handle w t r = Some x" using Cons.prems(2) by (simp add: handle_def)
  obtain u where u: "res_release r (Some x) w = Some (w\<lparr>pw_res := u\<rparr>)" "res_inv (N(r := insert t (N r))) (w\<lparr>pw_res := u\<rparr>)"
    using res_release_ok [OF Cons.prems(1) _ h] Cons.prems(3) by auto
  have "pw_tasks (w\<lparr>pw_res := u\<rparr>) t = Some T" "distinct rs" using Cons.prems(2,4) by simp_all
  moreover have "t \<notin> (N(r := insert t (N r))) q \<and> tk_res T q \<noteq> None" if "q \<in> set rs" for q using Cons.prems(3) [of q] Cons.prems(4) that by auto
  ultimately obtain v where v: "release_all rs t (w\<lparr>pw_res := u\<rparr>) = Some (w\<lparr>pw_res := v\<rparr>)"
    "res_inv (\<lambda>q. if q \<in> set rs then insert t ((N(r := insert t (N r))) q) else (N(r := insert t (N r))) q) (w\<lparr>pw_res := v\<rparr>)"
    using Cons.IH [OF u(2)] by auto
  moreover have "(\<lambda>q. if q \<in> set rs then insert t ((N(r := insert t (N r))) q) else (N(r := insert t (N r))) q)
      = (\<lambda>q. if q \<in> set (r # rs) then insert t (N q) else N q)" using Cons.prems(4) by (auto simp: fun_eq_iff)
  ultimately have "res_inv (\<lambda>q. if q \<in> set (r # rs) then insert t (N q) else N q) (w\<lparr>pw_res := v\<rparr>)" by simp
  then show ?case using Cons.prems(2) x u(1) v(1) by auto
qed


lemma late_clone_effect:
  assumes "world_ok w" "running w cur" "pw_tasks w cur = Some C" "free_pid w" "ce_task env" "ce_group env" "\<And>r. shares flags r \<or> room_for env r"
    "late_error env flags = Some e" "\<not> clone_flags_error flags"
  shows "\<exists>t w' g G. sys_clone env others cur flags stack ctid w = Some (Inl e, w') \<and> pw_tasks w' t = None \<and> pw_groups w' g = Some G
    \<and> t \<in> set (tg_threads G) \<and> (\<not> tst flags CLONE_THREAD \<longrightarrow> tg_leader G = t \<and> (\<exists>i. tg_pgroup_link G = Some i \<and> g \<in> set (slot_pgroup (pw_pids w' i))))"
proof -
  let ?t = "pw_next w"
  obtain pid w0 T0 w1 w2 g h where p: "task_create True (Some cur) w = Some (Some ?t, w0)" "pid_empty (pw_pids w pid)" "pw_tasks w ?t = None"
    "pw_tasks w0 ?t = Some (child_of C cur pid)" "T0 = (child_of C cur pid)\<lparr>tk_vfork := None, tk_esp := (if stack \<noteq> 0 then stack else tk_esp C)\<rparr>"
    "copy_resources env ?t flags (put_task ?t T0 w0) = Some (Inr (), w1)" "join_group (ce_group env) ?t flags w1 = Some w2"
    "world_ok w2" "given flags C w h" "in_group ?t flags (tk_group C) w g w2" "cur \<noteq> ?t"
    "pw_tasks w2 = (pw_tasks w)(cur \<mapsto> C\<lparr>tk_children := ?t # tk_children C\<rparr>,
         ?t \<mapsto> T0\<lparr>tk_res := h, tk_group := g, tk_tgid := (if tst flags CLONE_THREAD then tk_tgid C else pid)\<rparr>)"
    using clone_prepared [OF assms(1-4,6,7) refl] by blast
  let ?T2 = "T0\<lparr>tk_res := h, tk_group := g, tk_tgid := (if tst flags CLONE_THREAD then tk_tgid C else pid)\<rparr>"
  have t2: "pw_tasks w2 ?t = Some ?T2" "pw_tasks w2 cur = Some (C\<lparr>tk_children := ?t # tk_children C\<rparr>)" using p(11,12) by simp_all
  have f: "tk_parent ?T2 = Some cur" "tk_pid ?T2 = pid" "tk_esp (child_of C cur pid) = tk_esp C" using p(5) by (simp_all add: child_of_def)
  have ok: "res_ok w2" "proc_ok w2" "\<not> pw_locked w2" using p(8) by (simp_all add: ready_def)
  have "h r \<noteq> None" for r
  proof -
    have "if shares flags r then h r = tk_res C r else \<exists>y. h r = Some y \<and> pw_res w r y = None" using p(9) by (simp add: given_def)
    then show ?thesis using assms(2,3) by (auto simp: running_def split: if_splits)
  qed
  then obtain u where u: "release_all [Res_sighand, Res_fs, Res_files, Res_mm] ?t w2 = Some (w2\<lparr>pw_res := u\<rparr>)"
    using release_task_ok [OF ok(1) t2(1), of "[Res_sighand, Res_fs, Res_files, Res_mm]"] by auto
  have ct: "copy_task env ?t flags stack ctid w0 = Some (Inl e, w2\<lparr>pw_res := u\<rparr>)"
    using p(4,6,7) assms(6,8) u unfolding p(5)
    by (simp add: copy_task_def child_of_def del: release_all.simps cong: if_cong)
  have pid: "pid \<le> MAX_PID" "slot_task (pw_pids w2 pid) = Some ?t"
    using tablesD(1) [OF ok(2) [unfolded proc_inv_def] tview_Some [OF t2(1)]] f(2) by simp_all
  define w3 where "w3 = w2\<lparr>pw_res := u, pw_locked := True\<rparr>"
  define w4 where "w4 = put_pid pid ((pw_pids w2 pid)\<lparr>slot_task := None\<rparr>) (put_task cur (C\<lparr>tk_children := remove1 ?t (?t # tk_children C)\<rparr>) w3)"
  have "task_destroy ?t w3 = Some (w4\<lparr>pw_tasks := (pw_tasks w4)(?t := None)\<rparr>)"
    using t2 f(1,2) p(11) pid by (simp add: task_destroy_def unlink_sibling_def w3_def w4_def pid_get_def pid_empty_def)
  then have c: "sys_clone env others cur flags stack ctid w = Some (Inl e, unlock_pids (w4\<lparr>pw_tasks := (pw_tasks w4)(?t := None)\<rparr>))"
    using assms(5,9) p(1) ct ok(3) by (simp add: sys_clone_def lock_pids_def w3_def)
  obtain G where G: "pw_groups w2 g = Some G" "?t \<in> set (tg_threads G)" "\<not> tst flags CLONE_THREAD \<longrightarrow> tg_leader G = ?t"
    using p(10) by (auto simp: in_group_def split: if_splits)
  obtain i where i: "tg_pgroup_link G = Some i" "g \<in> set (slot_pgroup (pw_pids w2 i))"
    using tablesD(6) [OF ok(2) [unfolded proc_inv_def] gview_Some [OF G(1)]] by auto
  show ?thesis
    by (intro exI [of _ ?t] exI [of _ "unlock_pids (w4\<lparr>pw_tasks := (pw_tasks w4)(?t := None)\<rparr>)"] exI [of _ g] exI [of _ G])
       (use c G i in \<open>auto simp: w4_def w3_def put_pid_def put_task_def unlock_pids_def\<close>)
qed

end
