(* ===== verification/Process_Exit.thy ===== *)
theory Process_Exit
  imports Process_Fork
begin

text \<open>
  Exit: the objects of the task are given up, its children get a living parent, the last thread makes its leader a zombie.
\<close>

section \<open>Giving up the objects\<close>

lemma drop_handle_ok:
  assumes "res_ok w" "pw_tasks w t = Some T" "tk_res T r \<noteq> None"
  shows "\<exists>u. drop_handle t r w = Some (put_task t (T\<lparr>tk_res := (tk_res T)(r := None)\<rparr>) (w\<lparr>pw_res := u\<rparr>))
    \<and> res_ok (put_task t (T\<lparr>tk_res := (tk_res T)(r := None)\<rparr>) (w\<lparr>pw_res := u\<rparr>))"
proof -
  obtain x where x: "tk_res T r = Some x" using assms(3) by blast
  then have h: "handle w t r = Some x" using assms(2) by (simp add: handle_def)
  obtain u where u: "res_release r (Some x) w = Some (w\<lparr>pw_res := u\<rparr>)" "res_inv ((\<lambda>_. {})(r := insert t {})) (w\<lparr>pw_res := u\<rparr>)"
    using res_release_ok [OF assms(1) _ h] by auto
  have e: "(\<lambda>_. {})(r := {t}, r := {t} - {t}) = (\<lambda>_. {})" "(\<lambda>_. {})(r := {}) = (\<lambda>_. {})" by auto
  have "res_ok (put_task t (T\<lparr>tk_res := (tk_res T)(r := None)\<rparr>) (w\<lparr>pw_res := u\<rparr>))"
    using clear_handle_ok [OF u(2), of t r T] assms(2) by (simp add: e)
  then show ?thesis using u(1) x assms(2) by (intro exI [of _ u]) (simp add: drop_handle_def set_handle_def)
qed

section \<open>New parents\<close>

definition stripped :: "proc_task \<Rightarrow> proc_task" where "stripped T = T\<lparr>tk_parent := None, tk_children := []\<rparr>"

definition parent_of :: "proc_world \<Rightarrow> nat \<Rightarrow> nat option" where
  "parent_of w t = (case pw_tasks w t of None \<Rightarrow> None | Some T \<Rightarrow> tk_parent T)"

lemma stripped_upd [simp]: "stripped (T\<lparr>tk_parent := p\<rparr>) = stripped T" "stripped (T\<lparr>tk_children := cs\<rparr>) = stripped T"
  by (simp_all add: stripped_def)

text \<open>Two worlds that differ in parents, children and events only.\<close>

definition same_but_family :: "proc_world \<Rightarrow> proc_world \<Rightarrow> bool" where
  "same_but_family w w' \<longleftrightarrow> (\<forall>s. map_option stripped (pw_tasks w' s) = map_option stripped (pw_tasks w s)) \<and> pw_groups w' = pw_groups w
     \<and> pw_pids w' = pw_pids w \<and> pw_res w' = pw_res w \<and> pw_locked w' = pw_locked w \<and> pw_next w' = pw_next w \<and> pw_vforks w' = pw_vforks w"

lemma same_but_family_trans: "same_but_family w w' \<Longrightarrow> same_but_family w' w'' \<Longrightarrow> same_but_family w w''"
  by (simp add: same_but_family_def)

lemma same_but_family_task:
  assumes "same_but_family w w'" "pw_tasks w s = Some S"
  shows "\<exists>p cs. pw_tasks w' s = Some (S\<lparr>tk_parent := p, tk_children := cs\<rparr>)"
proof -
  obtain S' where S': "pw_tasks w' s = Some S'" "stripped S' = stripped S"
    using assms unfolding same_but_family_def by (metis map_option_eq_Some)
  have "S' = S\<lparr>tk_parent := tk_parent S', tk_children := tk_children S'\<rparr>" using S'(2) by (cases S; cases S') (simp add: stripped_def)
  then show ?thesis using S'(1) by metis
qed

lemma reparent_step:
  assumes "pw_tasks w c = Some K"
    "w1 = (if tk_pdeath_signal K \<noteq> 0 \<and> \<not> tk_exiting K \<and> \<not> tk_zombie K then emit (Ev_signal c (tk_pdeath_signal K)) w else w)"
    "pw_tasks w1 cur = Some C" "w2 = put_task cur (C\<lparr>tk_children := remove1 c (tk_children C)\<rparr>) w1"
    "pw_tasks w2 c = Some K2" "w3 = put_task c (K2\<lparr>tk_parent := Some p\<rparr>) w2" "pw_tasks w3 p = Some P"
  shows "reparent cur (Some p) (c # cs) w = reparent cur (Some p) cs (put_task p (P\<lparr>tk_children := c # tk_children P\<rparr>) w3)"
  using assms by (simp add: Let_def del: fields_put split del: if_split)

lemma reparent_ok:
  assumes "proc_inv N w" "cur \<in> N" "pw_tasks w cur = Some C" "tk_children C = cs" "pw_tasks w p = Some P" "p \<noteq> cur"
    "p \<notin> N \<Longrightarrow> tk_exiting P \<Longrightarrow> tk_parent P = None"
  shows "\<exists>w' C'. reparent cur (Some p) cs w = Some w' \<and> proc_inv N w' \<and> same_but_family w w'
    \<and> (\<forall>s. parent_of w' s = (if s \<in> set cs then Some p else parent_of w s)) \<and> pw_tasks w' cur = Some C' \<and> tk_children C' = []"
  using assms
proof (induction cs arbitrary: w C P)
  case Nil
  then show ?case by (simp add: same_but_family_def)
next
  case (Cons c cs)
  note i = Cons.prems(1) [unfolded proc_inv_def]
  obtain y where "tview w c = Some y" using tables_child [OF i tview_Some [OF Cons.prems(3)]] Cons.prems(4) by auto
  then obtain K where K: "pw_tasks w c = Some K" by (auto simp: tview_def)
  define w1 where "w1 = (if tk_pdeath_signal K \<noteq> 0 \<and> \<not> tk_exiting K \<and> \<not> tk_zombie K then emit (Ev_signal c (tk_pdeath_signal K)) w else w)"
  define C1 where "C1 = C\<lparr>tk_children := cs\<rparr>"
  define w2 where "w2 = put_task cur C1 w1"
  define K2 where "K2 = (if c = cur then C1 else K)"
  define w3 where "w3 = put_task c (K2\<lparr>tk_parent := Some p\<rparr>) w2"
  define P3 where "P3 = (if p = c then P\<lparr>tk_parent := Some p\<rparr> else P)"
  define w4 where "w4 = put_task p (P3\<lparr>tk_children := c # tk_children P3\<rparr>) w3"
  have w1: "pw_tasks w1 = pw_tasks w" "tview w1 = tview w" "gview w1 = gview w" "pw_pids w1 = pw_pids w" "pw_next w1 = pw_next w"
    by (simp_all add: w1_def)
  have k2: "pw_tasks w2 c = Some K2" using K w1 by (simp add: w2_def K2_def)
  have p3: "pw_tasks w3 p = Some P3" using Cons.prems(5,6) K w1 by (auto simp: w3_def w2_def P3_def K2_def)
  have c1: "pw_tasks w1 cur = Some C" "w2 = put_task cur (C\<lparr>tk_children := remove1 c (tk_children C)\<rparr>) w1"
    using Cons.prems(3,4) w1(1) by (simp_all add: w2_def C1_def)
  have r: "reparent cur (Some p) (c # cs) w = reparent cur (Some p) cs w4"
    using reparent_step [OF K w1_def c1 k2 w3_def p3] by (simp add: w4_def)
  have pn: "tk_parent P3 = None" if "p \<notin> N" "tk_exiting P3"
  proof -
    have pn: "tk_parent P = None" using that Cons.prems(7) by (simp add: P3_def split: if_splits)
    have "par (tview w) c = Some cur" using tablesD(10) [OF i, of c cur] Cons.prems(3,4) by (simp add: chd_def tview_def)
    then have "p \<noteq> c" using pn Cons.prems(5) by (auto simp: par_def tview_def)
    then show ?thesis using pn by (simp add: P3_def)
  qed
  have "tables_inv N (tview w4) (gview w) (pw_pids w) (pw_next w)"
  proof (rule tables_move_child [OF i tview_Some [OF Cons.prems(3)]])
    show "c \<in> set (tn_children (tnode_of C))" using Cons.prems(4) by simp
    show "tview w2 = (tview w)(cur \<mapsto> (tnode_of C)\<lparr>tn_children := remove1 c (tn_children (tnode_of C))\<rparr>)"
      using Cons.prems(4) w1 by (simp add: w2_def C1_def tnode_of_def)
    show "tview w2 c = Some (tnode_of K2)" by (rule tview_Some [OF k2])
    show "tview w3 = (tview w2)(c \<mapsto> (tnode_of K2)\<lparr>tn_parent := Some p\<rparr>)" by (simp add: w3_def tnode_of_def)
    show "tview w3 p = Some (tnode_of P3)" by (rule tview_Some [OF p3])
    show "tview w4 = (tview w3)(p \<mapsto> (tnode_of P3)\<lparr>tn_children := c # tn_children (tnode_of P3)\<rparr>)" by (simp add: w4_def tnode_of_def)
    show "tn_parent (tnode_of P3) = None" if "p \<notin> N" "tn_exiting (tnode_of P3)" using pn that by simp
  qed
  then have i4: "proc_inv N w4" using w1 by (simp add: proc_inv_def w4_def w3_def w2_def)
  have sf: "same_but_family w w4"
    using K Cons.prems(3,5) w1(1) by (auto simp: same_but_family_def w4_def w3_def w2_def w1_def K2_def C1_def P3_def)
  have po: "parent_of w4 s = (if s = c then Some p else parent_of w s)" for s
    using K Cons.prems(3,5,6) w1(1) by (auto simp: parent_of_def w4_def w3_def w2_def K2_def C1_def P3_def)
  obtain C4 where C4: "pw_tasks w4 cur = Some C4" "tk_children C4 = cs"
    using Cons.prems(6) w1(1) by (cases "c = cur") (auto simp: w4_def w3_def w2_def K2_def C1_def)
  have "pw_tasks w4 p = Some (P3\<lparr>tk_children := c # tk_children P3\<rparr>)" by (simp add: w4_def)
  then obtain w' C' where w': "reparent cur (Some p) cs w4 = Some w'" "proc_inv N w'" "same_but_family w4 w'"
    "\<forall>s. parent_of w' s = (if s \<in> set cs then Some p else parent_of w4 s)" "pw_tasks w' cur = Some C'" "tk_children C' = []"
    using Cons.IH [OF i4 Cons.prems(2) C4 _ Cons.prems(6)] pn by auto
  then show ?case using r same_but_family_trans [OF sf w'(3)] po by auto
qed


section \<open>The new parent\<close>

lemma first_running_ok:
  assumes "\<forall>t \<in> set ts. pw_tasks w t \<noteq> None"
  shows "\<exists>r. first_running ts w = Some r \<and> (case r of None \<Rightarrow> True | Some t \<Rightarrow> t \<in> set ts \<and> (\<exists>T. pw_tasks w t = Some T \<and> \<not> tk_exiting T))"
  using assms by (induction ts) (fastforce split: option.splits)+

lemma init_task:
  assumes "proc_inv N w"
  shows "\<exists>i I. pid_get 1 w = Some (Some 1) \<and> slot_task (pw_pids w 1) = Some i \<and> pw_tasks w i = Some I \<and> tk_parent I = None"
proof -
  note d = tablesD [OF assms [unfolded proc_inv_def]]
  obtain i where i: "slot_task (pw_pids w 1) = Some i" using d(8) by blast
  then obtain x where "tview w i = Some x" "tn_pid x = 1" using d(2) by blast
  then obtain I where "pw_tasks w i = Some I" "tk_parent I = None" using d(3) [of i x] by (auto simp: tview_def)
  then show ?thesis using i by (auto simp: pid_get_def MAX_PID_def pid_empty_def)
qed

lemma find_new_parent_ok:
  assumes "proc_inv {cur} w" "pw_tasks w cur = Some C" "tk_exiting C" "pw_groups w (tk_group C) = Some G" "tk_parent C \<noteq> None"
  shows "\<exists>p P. find_new_parent cur w = Some (Some p) \<and> pw_tasks w p = Some P \<and> p \<noteq> cur \<and> (tk_exiting P \<longrightarrow> tk_parent P = None)
    \<and> (p \<in> set (tg_threads G) \<or> tk_parent P = None)"
proof -
  note d = tablesD [OF assms(1) [unfolded proc_inv_def]]
  have "\<forall>t \<in> set (tg_threads G). pw_tasks w t \<noteq> None" using d(5) [OF gview_Some [OF assms(4)]] by (auto simp: grp_def tview_def)
  from first_running_ok [OF this] obtain r where r: "first_running (tg_threads G) w = Some r"
    "case r of None \<Rightarrow> True | Some t \<Rightarrow> t \<in> set (tg_threads G) \<and> (\<exists>T. pw_tasks w t = Some T \<and> \<not> tk_exiting T)" by blast
  show ?thesis
  proof (cases r)
    case (Some p)
    then show ?thesis using r assms(2-4) by (auto simp: find_new_parent_def)
  next
    case None
    obtain i I where i: "pid_get 1 w = Some (Some 1)" "slot_task (pw_pids w 1) = Some i" "pw_tasks w i = Some I" "tk_parent I = None"
      using init_task [OF assms(1)] by blast
    have ic: "i \<noteq> cur" using i(3,4) assms(2,5) by auto
    then have "\<not> tk_zombie I" using d(4) [OF tview_Some [OF i(3)]] i(4) by (auto simp: member_ok_def)
    then show ?thesis using None r(1) i assms(2,4) ic
      by (intro exI [of _ i] exI [of _ I]) (simp add: find_new_parent_def pid_get_task_def pid_get_task_zombie_def)
  qed
qed

section \<open>The death of a thread\<close>

text \<open>The list of threads after the exit of one, and whether any is left.\<close>

definition last_thread :: "proc_group \<Rightarrow> nat \<Rightarrow> bool" where
  "last_thread G t \<longleftrightarrow> remove1 t (tg_threads G) = []"

lemma last_thread_upd [simp]: "last_thread (G\<lparr>tg_rusage := r\<rparr>) t = last_thread G t" by (simp add: last_thread_def)

text \<open>What the exit of \<open>cur\<close> does to another task.\<close>

definition bereaved :: "nat list \<Rightarrow> nat \<Rightarrow> bool \<Rightarrow> proc_task \<Rightarrow> nat \<Rightarrow> proc_task \<Rightarrow> bool" where
  "bereaved kids p z S s S' \<longleftrightarrow> (\<exists>cs. S' = S\<lparr>tk_parent := (if s \<in> set kids then Some p else tk_parent S), tk_children := cs, tk_zombie := tk_zombie S \<or> z\<rparr>)"

lemma notify_parent_ok:
  assumes "proc_inv {cur} w" "pw_tasks w cur = Some C" "pw_tasks w l = Some L" "tk_parent L = Some p" "tk_exiting L" "pw_groups w (tk_group L) = Some G"
    "tg_leader G = l" "tg_threads G = []" "l = cur \<Longrightarrow> tk_children L = []"
  shows "\<exists>w'. notify_parent others hook cur l status ru w = Some w' \<and> proc_inv {cur} w' \<and> pw_tasks w' = (pw_tasks w)(l \<mapsto> L\<lparr>tk_zombie := True\<rparr>)
    \<and> pw_groups w' = pw_groups w \<and> pw_res w' = pw_res w \<and> pw_locked w' = pw_locked w \<and> pw_next w' = pw_next w \<and> pw_vforks w' = pw_vforks w"
proof -
  note i = assms(1) [unfolded proc_inv_def]
  obtain y where "tview w p = Some y" using tables_parent [OF i tview_Some [OF assms(3)]] assms(4) by auto
  then obtain P where P: "pw_tasks w p = Some P" by (auto simp: tview_def)
  let ?L = "L\<lparr>tk_zombie := True\<rparr>"
  let ?w1 = "put_task l ?L w"
  obtain C1 where C1: "pw_tasks ?w1 cur = Some C1" using assms(2) by (cases "cur = l") simp_all
  have v: "tview ?w1 = (tview w)(l \<mapsto> tnode_of ?L)" "tnode_of ?L = (tnode_of L)\<lparr>tn_exiting := tk_exiting L, tn_zombie := True\<rparr>"
    by (simp_all add: tnode_of_def)
  have "tables_inv (insert l {cur}) (tview ?w1) (gview w) (pw_pids w) (pw_next w)"
    unfolding v(1) by (rule tables_change [OF i tview_Some [OF assms(3)] v(2)])
  moreover have "member_ok (gview w) l (tnode_of ?L)"
  proof (cases "l = cur")
    case True
    then show ?thesis using gview_Some [OF assms(6)] assms(4-9) by (simp add: member_ok_def)
  next
    case False
    then show ?thesis using tablesD(4) [OF i tview_Some [OF assms(3)]] gview_Some [OF assms(6)] assms(4-8) by (simp add: member_ok_def)
  qed
  ultimately have i1: "proc_inv {cur} ?w1"
    unfolding proc_inv_def by (simp add: v(1)) (rule tables_settle [of l], auto)
  define w2 where "w2 = (let w1 = emit (Ev_child_exit (tk_group P)) ?w1 in
      if tk_exit_signal L \<noteq> 0 then emit (Ev_child_signal p (tk_exit_signal L) \<lparr>ci_pid = tk_pid C1, ci_uid = tk_uid C1, ci_status = tk_exit_code C1,
             ci_utime = clock_from_timeval (ru_utime ru), ci_stime = clock_from_timeval (ru_stime ru)\<rparr>) w1 else w1)"
  define w3 where "w3 = (if hook then emit (Ev_exit_hook cur status) w2 else w2)"
  have "notify_parent others hook cur l status ru w = Some w3"
    using assms(3,4) P C1 by (simp add: notify_parent_def Let_def w3_def w2_def del: fields_put(7))
  moreover have "proc_inv {cur} w3" using i1 by (simp add: proc_inv_def w3_def w2_def Let_def)
  ultimately show ?thesis by (intro exI [of _ w3]) (simp add: w3_def w2_def Let_def)
qed


text \<open>Leaving the list of threads, and waking the parent of a vfork.\<close>

lemma exit_tgroup_ok:
  assumes "proc_inv {cur} w" "pw_tasks w cur = Some C" "pw_groups w (tk_group C) = Some G"
  shows "\<exists>w'. exit_tgroup cur w = Some (last_thread G cur, w') \<and> proc_inv {cur} w' \<and> pw_tasks w' = pw_tasks w
    \<and> pw_groups w' = (pw_groups w)(tk_group C \<mapsto> G\<lparr>tg_threads := remove1 cur (tg_threads G)\<rparr>) \<and> pw_res w' = pw_res w
    \<and> pw_locked w' = pw_locked w \<and> pw_next w' = pw_next w \<and> pw_vforks w' = pw_vforks w"
proof -
  let ?G = "G\<lparr>tg_threads := remove1 cur (tg_threads G)\<rparr>"
  have "proc_inv {cur} (put_group (tk_group C) ?G w)"
    using tables_leave [OF assms(1) [unfolded proc_inv_def] _ gview_Some [OF assms(3)], of cur] by (simp add: proc_inv_def gnode_of_def)
  then show ?thesis using assms(2,3)
    by (auto simp: exit_tgroup_def last_thread_def proc_inv_def Let_def)
qed

definition vfork_valid :: "proc_world \<Rightarrow> proc_task \<Rightarrow> bool" where
  "vfork_valid w C \<longleftrightarrow> (case tk_vfork C of None \<Rightarrow> True | Some v \<Rightarrow> pw_vforks w v \<noteq> None)"

lemma vfork_notify_ok:
  assumes "pw_tasks w t = Some T" "vfork_valid w T"
  shows "\<exists>v. vfork_notify t w = Some (w\<lparr>pw_vforks := v\<rparr>)"
proof (cases "tk_vfork T")
  case None
  then show ?thesis using assms(1) by (auto simp: vfork_notify_def intro!: exI [of _ "pw_vforks w"])
next
  case (Some v)
  then show ?thesis using assms by (auto simp: vfork_notify_def vfork_valid_def)
qed

lemma drop_handle_step:
  assumes "res_ok w" "pw_tasks w t = Some T" "tk_res T r \<noteq> None"
  shows "\<exists>w'. drop_handle t r w = Some w' \<and> res_ok w' \<and> pw_tasks w' = (pw_tasks w)(t \<mapsto> T\<lparr>tk_res := (tk_res T)(r := None)\<rparr>)
    \<and> pw_groups w' = pw_groups w \<and> same_tables w w' \<and> pw_vforks w' = pw_vforks w"
proof -
  let ?T = "T\<lparr>tk_res := (tk_res T)(r := None)\<rparr>"
  obtain u where u: "drop_handle t r w = Some (put_task t ?T (w\<lparr>pw_res := u\<rparr>))" "res_ok (put_task t ?T (w\<lparr>pw_res := u\<rparr>))"
    using drop_handle_ok [OF assms] by blast
  moreover have "tnode_of ?T = tnode_of T" by (simp add: tnode_of_def)
  then have "same_tables w (put_task t ?T (w\<lparr>pw_res := u\<rparr>))" using view_same [OF assms(2), of ?T] by (simp add: same_tables_def)
  ultimately show ?thesis by (intro exI [of _ "put_task t ?T (w\<lparr>pw_res := u\<rparr>)"]) simp
qed


text \<open>What the exit of \<open>cur\<close> leaves: \<open>p\<close> is the new parent of its children.\<close>

definition survives :: "nat \<Rightarrow> proc_task \<Rightarrow> proc_group \<Rightarrow> nat \<Rightarrow> proc_world \<Rightarrow> proc_world \<Rightarrow> bool" where
  "survives cur C G p w w' \<longleftrightarrow> (\<forall>s. s \<noteq> cur \<longrightarrow> (case pw_tasks w s of None \<Rightarrow> pw_tasks w' s = None
     | Some S \<Rightarrow> \<exists>cs. pw_tasks w' s = Some (S\<lparr>tk_parent := (if s \<in> set (tk_children C) then Some p else tk_parent S), tk_children := cs,
                          tk_zombie := (tk_zombie S \<or> s = tg_leader G \<and> last_thread G cur)\<rparr>)))"

definition departed :: "nat \<Rightarrow> u32 \<Rightarrow> proc_task \<Rightarrow> proc_group \<Rightarrow> proc_world \<Rightarrow> bool" where
  "departed cur st C G w' \<longleftrightarrow> (if cur = tg_leader G
     then \<exists>C'. pw_tasks w' cur = Some C' \<and> tk_exiting C' \<and> (tk_zombie C' \<longleftrightarrow> last_thread G cur) \<and> tk_exit_code C' = st
            \<and> tk_children C' = [] \<and> (\<forall>r. tk_res C' r = None) \<and> tk_pid C' = tk_pid C \<and> tk_group C' = tk_group C
            \<and> (tk_parent C \<noteq> Some cur \<longrightarrow> tk_parent C' = tk_parent C)
     else pw_tasks w' cur = None)"

lemma departed_cong:
  assumes "departed cur st C G w" "tk_pid D = tk_pid C" "tk_group D = tk_group C" "tg_leader H = tg_leader G" "tg_threads H = tg_threads G"
    "tk_parent D \<noteq> Some cur \<Longrightarrow> tk_parent D = tk_parent C" "pw_tasks v = pw_tasks w"
  shows "departed cur st D H v"
  using assms(1,6) unfolding departed_def last_thread_def assms(2-5,7) by (fastforce split: if_splits)

lemma res_ok_free:
  assumes "res_ok w" "\<And>r. handle w t r = None" "\<And>s. s \<noteq> t \<Longrightarrow> handle w' s = handle w s" "\<And>r. handle w' t r = None"
    "pw_res w' = pw_res w" "pw_next w \<le> pw_next w'"
  shows "res_ok w'"
proof (rule res_inv_cong [OF assms(1) _ assms(5,6)])
  show "handle w' s r = handle w s r" for s r using assms(2-4) by (cases "s = t") simp_all
qed

text \<open>The part after the new parent is known: the thread leaves its group, the parent hears of it, the task goes or waits to be reaped.\<close>

lemma exit_tail:
  assumes "proc_inv {cur} w" "res_ok w" "pw_tasks w cur = Some C" "tk_children C = []" "tk_exiting C" "\<And>r. tk_res C r = None" "\<not> tk_zombie C"
    "pw_groups w (tk_group C) = Some G" "tk_parent C \<noteq> None" "pw_tasks w (tg_leader G) = Some L" "tk_parent L \<noteq> None" "vfork_valid w C"
  shows "\<exists>w5 w6 w7. exit_tgroup cur w = Some (last_thread G cur, w5)
    \<and> (if last_thread G cur then notify_parent others hook cur (tg_leader G) status ru w5 else Some w5) = Some w6
    \<and> (\<exists>v. vfork_notify cur w6 = Some (w6\<lparr>pw_vforks := v\<rparr>) \<and> (if cur \<noteq> tg_leader G then task_destroy cur (w6\<lparr>pw_vforks := v\<rparr>) else Some (w6\<lparr>pw_vforks := v\<rparr>)) = Some w7)
    \<and> proc_ok w7 \<and> res_ok w7 \<and> pw_locked w7 = pw_locked w \<and> departed cur (tk_exit_code C) C G w7
    \<and> (\<forall>s. s \<noteq> cur \<longrightarrow> (case pw_tasks w s of None \<Rightarrow> pw_tasks w7 s = None
         | Some S \<Rightarrow> \<exists>cs. pw_tasks w7 s = Some (S\<lparr>tk_children := cs, tk_zombie := (tk_zombie S \<or> s = tg_leader G \<and> last_thread G cur)\<rparr>)))
    \<and> pw_groups w7 = (pw_groups w)(tk_group C \<mapsto> G\<lparr>tg_threads := remove1 cur (tg_threads G)\<rparr>)"
proof -
  let ?l = "tg_leader G" and ?z = "last_thread G cur" and ?k = "tk_group C" and ?G = "G\<lparr>tg_threads := remove1 cur (tg_threads G)\<rparr>"
  note i = assms(1) [unfolded proc_inv_def]
  obtain w5 where w5: "exit_tgroup cur w = Some (?z, w5)" "proc_inv {cur} w5" "pw_tasks w5 = pw_tasks w" "pw_groups w5 = (pw_groups w)(?k \<mapsto> ?G)"
    "pw_res w5 = pw_res w" "pw_locked w5 = pw_locked w" "pw_next w5 = pw_next w" "pw_vforks w5 = pw_vforks w"
    using exit_tgroup_ok [OF assms(1,3,8)] by blast
  have g: "distinct (tg_threads G)" "tk_group L = ?k"
    using tablesD(5) [OF i gview_Some [OF assms(8)]] assms(10) by (auto simp: grp_def tview_def)
  obtain q where q: "tk_parent L = Some q" using assms(11) by blast
  define Z where "Z = L\<lparr>tk_zombie := tk_zombie L \<or> ?z\<rparr>"
  have "\<exists>w6. (if ?z then notify_parent others hook cur ?l status ru w5 else Some w5) = Some w6 \<and> proc_inv {cur} w6
      \<and> pw_tasks w6 = (pw_tasks w)(?l \<mapsto> Z) \<and> pw_groups w6 = pw_groups w5 \<and> pw_res w6 = pw_res w \<and> pw_locked w6 = pw_locked w
      \<and> pw_next w6 = pw_next w \<and> pw_vforks w6 = pw_vforks w"
  proof (cases ?z)
    case True
    have "tk_exiting L"
    proof (cases "?l = cur")
      case True
      then show ?thesis using assms(3,5,10) by simp
    next
      case False
      have "?l \<notin> set (tg_threads ?G)" using True by (simp add: last_thread_def)
      then show ?thesis
        using tablesD(4) [OF w5(2) [unfolded proc_inv_def] tview_Some, of ?l L] False assms(10) w5(3,4) g(2) by (simp add: member_ok_def gview_def)
    qed
    moreover have "pw_groups w5 (tk_group L) = Some ?G" "tg_threads ?G = []" using w5(4) g(2) True by (simp_all add: last_thread_def)
    moreover have "?l = cur \<Longrightarrow> tk_children L = []" using assms(3,4,10) by simp
    ultimately have "\<exists>w'. notify_parent others hook cur ?l status ru w5 = Some w' \<and> proc_inv {cur} w' \<and> pw_tasks w' = (pw_tasks w5)(?l \<mapsto> L\<lparr>tk_zombie := True\<rparr>)
    \<and> pw_groups w' = pw_groups w5 \<and> pw_res w' = pw_res w5 \<and> pw_locked w' = pw_locked w5 \<and> pw_next w' = pw_next w5 \<and> pw_vforks w' = pw_vforks w5"
      using assms(3,10) w5(3) q by (intro notify_parent_ok [OF w5(2), where G = ?G]) auto
    then show ?thesis using True w5 by (simp add: Z_def)
  next
    case False
    then have "Z = L" by (simp add: Z_def)
    then have "(pw_tasks w)(?l \<mapsto> Z) = pw_tasks w" using assms(10) by (simp add: fun_upd_idem)
    then show ?thesis using False w5 by (intro exI [of _ w5]) simp
  qed
  then obtain w6 where w6: "(if ?z then notify_parent others hook cur ?l status ru w5 else Some w5) = Some w6" "proc_inv {cur} w6"
      "pw_tasks w6 = (pw_tasks w)(?l \<mapsto> Z)" "pw_groups w6 = pw_groups w5" "pw_res w6 = pw_res w" "pw_locked w6 = pw_locked w"
      "pw_next w6 = pw_next w" "pw_vforks w6 = pw_vforks w" by blast
  define C6 where "C6 = (if cur = ?l then Z else C)"
  have c6: "pw_tasks w6 cur = Some C6" using w6(3) assms(3) by (simp add: C6_def)
  have cc: "tk_children C6 = []" "tk_exiting C6" "\<And>r. tk_res C6 r = None" "tk_group C6 = ?k" "tk_parent C6 = tk_parent C" "tk_vfork C6 = tk_vfork C"
    "tk_exit_code C6 = tk_exit_code C" "tk_pid C6 = tk_pid C" "cur = ?l \<Longrightarrow> tk_zombie C6 \<longleftrightarrow> ?z"
    using assms(3-7,10) by (auto simp: C6_def Z_def)
  have h6: "handle w6 s = handle w s" for s using w6(3) assms(10) by (auto simp: handle_def Z_def fun_eq_iff)
  have r6: "res_ok w6" by (rule res_inv_cong [OF assms(2)]) (use w6 h6 in simp_all)
  obtain v where v: "vfork_notify cur w6 = Some (w6\<lparr>pw_vforks := v\<rparr>)"
  proof -
    have "vfork_valid w6 C6" using assms(12) w6(8) cc(6) by (auto simp: vfork_valid_def split: option.splits)
    then show thesis using vfork_notify_ok [OF c6] that by blast
  qed
  let ?w6 = "w6\<lparr>pw_vforks := v\<rparr>"
  have i6: "proc_inv {cur} ?w6" using w6(2) by (simp add: proc_inv_def)
  have g6: "pw_groups ?w6 = (pw_groups w)(?k \<mapsto> ?G)" using w6(4) w5(4) by simp
  have nt: "cur \<notin> set (tg_threads ?G)" using g(1) by simp
  show ?thesis
  proof (cases "cur = ?l")
    case True
    have "member_ok (gview ?w6) cur (tnode_of C6)"
      using g6 nt cc True assms(9) by (auto simp: member_ok_def gview_def last_thread_def)
    then have "tables_inv {} (tview ?w6) (gview ?w6) (pw_pids ?w6) (pw_next ?w6)"
      using tables_settle [of cur "{}" "tview ?w6" "gview ?w6"] i6 tview_Some [of ?w6 cur C6] c6 unfolding proc_inv_def by simp
    then have "proc_ok ?w6" by (simp add: proc_inv_def)
    moreover have "res_ok ?w6" by (rule res_inv_cong [OF r6]) simp_all
    moreover have "departed cur (tk_exit_code C) C G ?w6" using True c6 cc by (simp add: departed_def)
    moreover have "case pw_tasks w s of None \<Rightarrow> pw_tasks ?w6 s = None
         | Some S \<Rightarrow> \<exists>cs. pw_tasks ?w6 s = Some (S\<lparr>tk_children := cs, tk_zombie := (tk_zombie S \<or> s = ?l \<and> ?z)\<rparr>)" if "s \<noteq> cur" for s
    proof (cases "pw_tasks w s")
      case (Some S)
      have "S = S\<lparr>tk_children := tk_children S, tk_zombie := tk_zombie S\<rparr>" by (cases S) simp
      then show ?thesis using that True Some w6(3) by (auto intro!: exI [of _ "tk_children S"])
    qed (use that True w6(3) in simp)
    ultimately show ?thesis using True w5(1) w6(1,6) v g6
      by (intro exI [of _ w5] exI [of _ w6] exI [of _ ?w6] conjI exI [of _ v]) simp_all
  next
    case False
    obtain q' where q': "tk_parent C6 = Some q'" using cc(5) assms(9) by auto
    have away: "cur \<noteq> gn_leader h \<and> cur \<notin> set (gn_threads h)" if h: "gview ?w6 k = Some h" for k h
    proof (cases "k = ?k")
      case True
      then show ?thesis using h g6 nt False by (auto simp: gview_def)
    next
      case nk: False
      have "grp (tview ?w6) cur = Some ?k" using c6 cc(4) by (simp add: grp_def tview_def)
      then show ?thesis using tablesD(5) [OF i6 [unfolded proc_inv_def] h] nk by auto
    qed
    then have ng: "in_no_group cur ?w6" by (simp add: in_no_group_def)
    have c6': "pw_tasks ?w6 cur = Some C6" using c6 by simp
    from task_destroy_ok [of cur "{}" ?w6 C6 q', OF i6 c6' q' cc(1) ng]
    obtain w7 Q where w7: "task_destroy cur ?w6 = Some w7" "proc_ok w7" "q' \<noteq> cur" "pw_tasks ?w6 q' = Some Q"
      "pw_tasks w7 = (pw_tasks ?w6)(q' \<mapsto> Q\<lparr>tk_children := remove1 cur (tk_children Q)\<rparr>, cur := None)"
      "pw_groups w7 = pw_groups ?w6" "pw_res w7 = pw_res ?w6" "pw_locked w7 = pw_locked ?w6" "pw_next w7 = pw_next ?w6" by auto
    have "res_ok w7"
    proof (rule res_ok_free [OF r6, of cur])
      show "handle w6 cur r = None" for r using c6 cc(3) by (simp add: handle_def)
      show "handle w7 s = handle w6 s" if "s \<noteq> cur" for s using that w7(4,5) by (auto simp: handle_def fun_eq_iff)
      show "handle w7 cur r = None" for r using w7(5) by (simp add: handle_def)
    qed (use w7 in simp_all)
    moreover have "departed cur (tk_exit_code C) C G w7" using False w7(5) by (simp add: departed_def)
    moreover have "case pw_tasks w s of None \<Rightarrow> pw_tasks w7 s = None
         | Some S \<Rightarrow> \<exists>cs. pw_tasks w7 s = Some (S\<lparr>tk_children := cs, tk_zombie := (tk_zombie S \<or> s = ?l \<and> ?z)\<rparr>)" if sc: "s \<noteq> cur" for s
    proof (cases "pw_tasks w s")
      case None
      then show ?thesis using sc assms(10) w6(3) w7(4,5) by auto
    next
      case (Some S)
      define S6 where "S6 = S\<lparr>tk_zombie := (tk_zombie S \<or> s = ?l \<and> ?z)\<rparr>"
      have s6: "pw_tasks ?w6 s = Some S6" using Some assms(10) w6(3) by (auto simp: S6_def Z_def)
      obtain cs where "pw_tasks w7 s = Some (S6\<lparr>tk_children := cs\<rparr>)"
      proof (cases "s = q'")
        case True
        then have "pw_tasks w7 s = Some (S6\<lparr>tk_children := remove1 cur (tk_children S6)\<rparr>)" using sc s6 w7(4,5) by simp
        then show thesis by (rule that)
      next
        case False
        have "S6\<lparr>tk_children := tk_children S6\<rparr> = S6" by simp
        then have "pw_tasks w7 s = Some (S6\<lparr>tk_children := tk_children S6\<rparr>)" using False sc s6 w7(5) by simp
        then show thesis by (rule that)
      qed
      moreover have "S6\<lparr>tk_children := cs\<rparr> = S\<lparr>tk_children := cs, tk_zombie := (tk_zombie S \<or> s = ?l \<and> ?z)\<rparr>" by (cases S) (simp add: S6_def)
      ultimately show ?thesis using Some by (simp add: exI [of _ cs])
    qed
    ultimately show ?thesis using False w5(1) w6(1,6) v g6 w7
      by (intro exI [of _ w5] exI [of _ w6] exI [of _ w7] conjI exI [of _ v]) simp_all
  qed
qed


text \<open>Under the lock.\<close>

lemma exit_locked_ok:
  assumes "proc_ok w" "res_ok w" "pw_tasks w cur = Some C" "\<not> tk_exiting C" "\<And>r. (tk_res C r = None) = (r \<noteq> Res_sighand)"
    "tk_parent C \<noteq> None" "pw_groups w (tk_group C) = Some G" "pw_tasks w (tg_leader G) = Some L" "tk_parent L \<noteq> None" "vfork_valid w C"
  shows "\<exists>p w'. exit_locked others hook cur status ru w = Some w' \<and> proc_ok w' \<and> res_ok w' \<and> pw_locked w' = pw_locked w
    \<and> survives cur C G p w w' \<and> departed cur (tk_exit_code C) C G w' \<and> p \<noteq> cur \<and> (p \<in> set (tg_threads G) \<or> parent_of w' p = None)
    \<and> pw_groups w' = (pw_groups w)(tk_group C \<mapsto> G\<lparr>tg_threads := remove1 cur (tg_threads G)\<rparr>)"
proof -
  define w0 where "w0 = put_task cur (C\<lparr>tk_exiting := True\<rparr>) w"
  have r0: "res_ok w0" by (rule res_inv_cong [OF assms(2)]) (use assms(3) in \<open>auto simp: w0_def handle_def\<close>)
  have "tables_inv {cur} (tview w0) (gview w0) (pw_pids w0) (pw_next w0)"
    using tables_change [OF assms(1) [unfolded proc_inv_def] tview_Some [OF assms(3)] refl, of "tk_zombie C" True]
    by (simp add: w0_def tnode_of_def)
  then have i0: "proc_inv {cur} w0" by (simp add: proc_inv_def)
  obtain w2 where w2: "drop_handle cur Res_sighand w0 = Some w2" "res_ok w2"
    "pw_tasks w2 = (pw_tasks w0)(cur \<mapsto> C\<lparr>tk_exiting := True, tk_res := (tk_res C)(Res_sighand := None)\<rparr>)"
    "pw_groups w2 = pw_groups w0" "same_tables w0 w2" "pw_vforks w2 = pw_vforks w0"
    using drop_handle_step [OF r0, of cur "C\<lparr>tk_exiting := True\<rparr>" Res_sighand] assms(5) by (auto simp: w0_def)
  let ?C2 = "C\<lparr>tk_exiting := True, tk_res := (tk_res C)(Res_sighand := None)\<rparr>"
  have i2: "proc_inv {cur} w2" by (rule same_tables_inv [OF w2(5) i0])
  have c2: "pw_tasks w2 cur = Some ?C2" "pw_groups w2 (tk_group C) = Some G" "pw_tasks w2 = (pw_tasks w)(cur \<mapsto> ?C2)"
    using w2(3,4) assms(7) by (simp_all add: w0_def)
  obtain p P where p: "find_new_parent cur w2 = Some (Some p)" "pw_tasks w2 p = Some P" "p \<noteq> cur" "tk_exiting P \<longrightarrow> tk_parent P = None"
    "p \<in> set (tg_threads G) \<or> tk_parent P = None"
    using find_new_parent_ok [OF i2 c2(1)] c2(2) assms(6) by auto
  obtain w3 C3 where w3: "reparent cur (Some p) (tk_children C) w2 = Some w3" "proc_inv {cur} w3" "same_but_family w2 w3"
    "\<forall>s. parent_of w3 s = (if s \<in> set (tk_children C) then Some p else parent_of w2 s)" "pw_tasks w3 cur = Some C3" "tk_children C3 = []"
    using reparent_ok [OF i2 _ c2(1) _ p(2,3)] p(4) by auto
  have sf: "pw_groups w3 = pw_groups w" "pw_res w3 = pw_res w2" "pw_next w3 = pw_next w2" "pw_vforks w3 = pw_vforks w" "pw_locked w3 = pw_locked w"
    using w3(3) w2(4-6) by (simp_all add: same_but_family_def w0_def same_tables_def)
  have t3: "\<exists>cs. pw_tasks w3 s = Some (S\<lparr>tk_parent := (if s \<in> set (tk_children C) then Some p else tk_parent S), tk_children := cs\<rparr>)"
    if s: "pw_tasks w2 s = Some S" for s S
  proof -
    obtain q cs where "pw_tasks w3 s = Some (S\<lparr>tk_parent := q, tk_children := cs\<rparr>)" using same_but_family_task [OF w3(3) s] by blast
    then show ?thesis using w3(4) [rule_format, of s] s by (auto simp: parent_of_def)
  qed
  have n3: "pw_tasks w3 s = None" if "pw_tasks w2 s = None" for s using w3(3) that by (simp add: same_but_family_def) (metis map_option_is_None option.map(1))
  have h3: "handle w3 s r = handle w2 s r" for s r
  proof (cases "pw_tasks w2 s")
    case None
    then show ?thesis using n3 by (simp add: handle_def)
  next
    case (Some S)
    then show ?thesis using t3 by (fastforce simp: handle_def)
  qed
  have r3: "res_ok w3" by (rule res_inv_cong [OF w2(2) h3]) (simp_all add: sf)
  obtain cs3 where c3: "C3 = ?C2\<lparr>tk_parent := (if cur \<in> set (tk_children C) then Some p else tk_parent C), tk_children := cs3\<rparr>"
  proof -
    obtain cs where "pw_tasks w3 cur = Some (?C2\<lparr>tk_parent := (if cur \<in> set (tk_children C) then Some p else tk_parent ?C2), tk_children := cs\<rparr>)"
      using t3 [OF c2(1)] by (rule exE)
    then have "C3 = ?C2\<lparr>tk_parent := (if cur \<in> set (tk_children C) then Some p else tk_parent C), tk_children := cs\<rparr>"
      using w3(5) by (simp cong: if_cong)
    then show thesis by (rule that)
  qed
  have "\<not> tk_zombie C" using tablesD(4) [OF assms(1) [unfolded proc_inv_def] tview_Some [OF assms(3)]] assms(4) by (auto simp: member_ok_def)
  then have c3': "tk_exiting C3" "\<And>r. tk_res C3 r = None" "\<not> tk_zombie C3" "tk_group C3 = tk_group C" "tk_parent C3 \<noteq> None" "vfork_valid w3 C3"
      "tk_exit_code C3 = tk_exit_code C"
    using assms(5) assms(6,10) sf(4) by (auto simp: c3 vfork_valid_def split: option.splits)
  obtain L3 where l3: "pw_tasks w3 (tg_leader G) = Some L3" "tk_parent L3 \<noteq> None"
  proof -
    obtain L2 where "pw_tasks w2 (tg_leader G) = Some L2" "tk_parent L2 \<noteq> None" using assms(6,8,9) c2(3) by (cases "tg_leader G = cur") auto
    then show thesis using t3 [of "tg_leader G" L2] that by auto
  qed
  have g3: "pw_groups w3 (tk_group C3) = Some G" using sf(1) assms(7) c3'(4) by simp
  have tail: "\<exists>w5 w6 w7. exit_tgroup cur w3 = Some (last_thread G cur, w5)
    \<and> (if last_thread G cur then notify_parent others hook cur (tg_leader G) status ru w5 else Some w5) = Some w6
    \<and> (\<exists>v. vfork_notify cur w6 = Some (w6\<lparr>pw_vforks := v\<rparr>) \<and> (if cur \<noteq> tg_leader G then task_destroy cur (w6\<lparr>pw_vforks := v\<rparr>) else Some (w6\<lparr>pw_vforks := v\<rparr>)) = Some w7)
    \<and> proc_ok w7 \<and> res_ok w7 \<and> pw_locked w7 = pw_locked w3 \<and> departed cur (tk_exit_code C3) C3 G w7
    \<and> (\<forall>s. s \<noteq> cur \<longrightarrow> (case pw_tasks w3 s of None \<Rightarrow> pw_tasks w7 s = None
         | Some S \<Rightarrow> \<exists>cs. pw_tasks w7 s = Some (S\<lparr>tk_children := cs, tk_zombie := (tk_zombie S \<or> s = tg_leader G \<and> last_thread G cur)\<rparr>)))
    \<and> pw_groups w7 = (pw_groups w3)(tk_group C3 \<mapsto> G\<lparr>tg_threads := remove1 cur (tg_threads G)\<rparr>)"
    by (rule exit_tail [OF w3(2) r3 w3(5,6) c3'(1,2,3) g3 c3'(5) l3 c3'(6)])
  then obtain w5 w6 w7 v where w7: "exit_tgroup cur w3 = Some (last_thread G cur, w5)"
    "(if last_thread G cur then notify_parent others hook cur (tg_leader G) status ru w5 else Some w5) = Some w6"
    "vfork_notify cur w6 = Some (w6\<lparr>pw_vforks := v\<rparr>)" "(if cur \<noteq> tg_leader G then task_destroy cur (w6\<lparr>pw_vforks := v\<rparr>) else Some (w6\<lparr>pw_vforks := v\<rparr>)) = Some w7"
    "proc_ok w7" "res_ok w7" "pw_locked w7 = pw_locked w3" "departed cur (tk_exit_code C3) C3 G w7"
    "\<And>s. s \<noteq> cur \<Longrightarrow> (case pw_tasks w3 s of None \<Rightarrow> pw_tasks w7 s = None
         | Some S \<Rightarrow> \<exists>cs. pw_tasks w7 s = Some (S\<lparr>tk_children := cs, tk_zombie := (tk_zombie S \<or> s = tg_leader G \<and> last_thread G cur)\<rparr>))"
    "pw_groups w7 = (pw_groups w3)(tk_group C3 \<mapsto> G\<lparr>tg_threads := remove1 cur (tg_threads G)\<rparr>)" by (elim exE conjE) blast
  obtain x where x: "res_release Res_sighand (tk_res C Res_sighand) w0 = Some x" "set_handle cur Res_sighand None x = Some w2"
    using w2(1) by (auto simp: drop_handle_def w0_def split: bind_splits)
  have e: "exit_locked others hook cur status ru w = Some w7"
    using assms(3) x c2(2) p(1) w3(1) w7(1-4) unfolding exit_locked_def w0_def [symmetric] by (simp add: w0_def [symmetric])
  have sv: "survives cur C G p w w7"
    unfolding survives_def
  proof (intro allI impI)
    fix s assume s: "s \<noteq> cur"
    show "case pw_tasks w s of None \<Rightarrow> pw_tasks w7 s = None
     | Some S \<Rightarrow> \<exists>cs. pw_tasks w7 s = Some (S\<lparr>tk_parent := (if s \<in> set (tk_children C) then Some p else tk_parent S), tk_children := cs,
                          tk_zombie := (tk_zombie S \<or> s = tg_leader G \<and> last_thread G cur)\<rparr>)"
    proof (cases "pw_tasks w s")
      case None
      then show ?thesis using w7(9) [OF s] n3 [of s] c2(3) s by simp
    next
      case (Some S)
      then obtain cs where "pw_tasks w3 s = Some (S\<lparr>tk_parent := (if s \<in> set (tk_children C) then Some p else tk_parent S), tk_children := cs\<rparr>)"
        using t3 [of s S] c2(3) s by auto
      then show ?thesis using w7(9) [OF s] Some by auto
    qed
  qed
  have "cur \<notin> set (tk_children C)" if "tk_parent C \<noteq> Some cur"
    using tables_child [OF assms(1) [unfolded proc_inv_def] tview_Some [OF assms(3)], of cur] assms(3) that by (auto simp: tview_def)
  then have dp: "departed cur (tk_exit_code C) C G w7"
    using departed_cong [OF w7(8), of C G w7] by (simp add: c3)
  have "p \<in> set (tg_threads G) \<or> parent_of w7 p = None"
  proof (cases "p \<in> set (tg_threads G)")
    case False
    then have pp: "tk_parent P = None" "pw_tasks w p = Some P" using p(2,3,5) c2(3) by simp_all
    have "p \<notin> set (tk_children C)"
      using tables_child [OF assms(1) [unfolded proc_inv_def] tview_Some [OF assms(3)], of p] pp by (auto simp: tview_def)
    then show ?thesis using sv p(3) pp by (auto simp: survives_def parent_of_def dest!: spec [of _ p])
  qed simp
  then show ?thesis using e w7(5-7,10) dp sv p(3) sf(1,5) c3'(4) by (intro exI [of _ p] exI [of _ w7]) simp
qed


text \<open>The whole of \<open>do_exit\<close>.\<close>

lemma survives_cong:
  assumes "survives cur C G p w w'" "tk_children D = tk_children C" "tg_leader H = tg_leader G" "tg_threads H = tg_threads G"
    "\<And>s. s \<noteq> cur \<Longrightarrow> pw_tasks v s = pw_tasks w s" "pw_tasks v' = pw_tasks w'"
  shows "survives cur D H p v v'"
  unfolding survives_def last_thread_def assms(2-4,6)
proof (intro allI impI)
  fix s assume s: "s \<noteq> cur"
  then show "case pw_tasks v s of None \<Rightarrow> pw_tasks w' s = None | Some S \<Rightarrow> \<exists>cs. pw_tasks w' s = Some (S\<lparr>tk_parent := (if s \<in> set (tk_children C) then Some p else tk_parent S),
      tk_children := cs, tk_zombie := (tk_zombie S \<or> s = tg_leader G \<and> remove1 cur (tg_threads G) = [])\<rparr>)"
    using assms(1) unfolding assms(5) [OF s] survives_def last_thread_def by blast
qed

lemma drop_three:
  assumes "res_ok w" "pw_tasks w t = Some T" "\<And>r. tk_res T r \<noteq> None"
  shows "\<exists>w1 w2 w3 h. drop_handle t Res_mm w = Some w1 \<and> drop_handle t Res_files w1 = Some w2 \<and> drop_handle t Res_fs w2 = Some w3
    \<and> res_ok w3 \<and> same_tables w w3 \<and> pw_tasks w3 = (pw_tasks w)(t \<mapsto> T\<lparr>tk_res := h\<rparr>) \<and> pw_groups w3 = pw_groups w \<and> pw_vforks w3 = pw_vforks w
    \<and> (\<forall>r. (h r = None) = (r \<noteq> Res_sighand))"
proof -
  obtain w1 where w1: "drop_handle t Res_mm w = Some w1" "res_ok w1" "pw_tasks w1 = (pw_tasks w)(t \<mapsto> T\<lparr>tk_res := (tk_res T)(Res_mm := None)\<rparr>)"
    "pw_groups w1 = pw_groups w" "same_tables w w1" "pw_vforks w1 = pw_vforks w" using drop_handle_step [OF assms(1,2) assms(3) [of Res_mm]] by blast
  have t1: "pw_tasks w1 t = Some (T\<lparr>tk_res := (tk_res T)(Res_mm := None)\<rparr>)" using w1(3) by simp
  obtain w2 where w2: "drop_handle t Res_files w1 = Some w2" "res_ok w2" "pw_tasks w2 = (pw_tasks w1)(t \<mapsto> T\<lparr>tk_res := (tk_res T)(Res_mm := None, Res_files := None)\<rparr>)"
    "pw_groups w2 = pw_groups w1" "same_tables w1 w2" "pw_vforks w2 = pw_vforks w1"
    using drop_handle_step [OF w1(2) t1, of Res_files] assms(3) [of Res_files] by auto
  have t2: "pw_tasks w2 t = Some (T\<lparr>tk_res := (tk_res T)(Res_mm := None, Res_files := None)\<rparr>)" using w2(3) by simp
  obtain w3 where w3: "drop_handle t Res_fs w2 = Some w3" "res_ok w3" "pw_tasks w3 = (pw_tasks w2)(t \<mapsto> T\<lparr>tk_res := (tk_res T)(Res_mm := None, Res_files := None, Res_fs := None)\<rparr>)"
    "pw_groups w3 = pw_groups w2" "same_tables w2 w3" "pw_vforks w3 = pw_vforks w2"
    using drop_handle_step [OF w2(2) t2, of Res_fs] assms(3) [of Res_fs] by auto
  let ?h = "(tk_res T)(Res_mm := None, Res_files := None, Res_fs := None)"
  have "(?h r = None) = (r \<noteq> Res_sighand)" for r using assms(3) [of r] by (cases r) simp_all
  moreover have "pw_tasks w3 = (pw_tasks w)(t \<mapsto> T\<lparr>tk_res := ?h\<rparr>)" using w1(3) w2(3) w3(3) by simp
  moreover have "same_tables w w3" using same_tables_trans [OF same_tables_trans [OF w1(5) w2(5)] w3(5)] .
  ultimately show ?thesis using w1(1,4,6) w2(1,4,6) w3(1,2,4,6)
    by (intro exI [of _ w1] exI [of _ w2] exI [of _ w3] exI [of _ ?h] conjI) simp_all
qed

lemma do_exit_ok:
  assumes "world_ok w" "running w cur" "pw_tasks w cur = Some C" "tk_parent C \<noteq> None" "pw_groups w (tk_group C) = Some G"
    "pw_tasks w (tg_leader G) = Some L" "tk_parent L \<noteq> None" "vfork_valid w C"
  shows "\<exists>p w'. do_exit others hook put_ok cur status ru w = Some w' \<and> world_ok w' \<and> survives cur C G p w w' \<and> departed cur status C G w'
    \<and> p \<noteq> cur \<and> (p \<in> set (tg_threads G) \<or> parent_of w' p = None)
    \<and> pw_groups w' = (pw_groups w)(tk_group C \<mapsto> G\<lparr>tg_rusage := rusage_add (tg_rusage G) ru, tg_threads := remove1 cur (tg_threads G)\<rparr>)"
proof -
  define w0 where "w0 = (if tk_clear_tid C \<noteq> 0 \<and> put_ok then emit (Ev_futex_wake (tk_clear_tid C)) w else w)"
  have c: "proc_ok w" "res_ok w" "\<not> pw_locked w" "\<not> tk_exiting C" "\<And>r. tk_res C r \<noteq> None" using assms(1-3) by (auto simp: ready_def running_def)
  have w0: "pw_tasks w0 = pw_tasks w" "pw_groups w0 = pw_groups w" "same_tables w w0" "pw_vforks w0 = pw_vforks w" "pw_res w0 = pw_res w" "pw_next w0 = pw_next w"
    by (simp_all add: w0_def same_tables_def)
  have r0: "res_ok w0" by (rule res_inv_cong [OF c(2)]) (simp_all add: w0 handle_def)
  obtain w1 w2 w3 h where w3: "drop_handle cur Res_mm w0 = Some w1" "drop_handle cur Res_files w1 = Some w2" "drop_handle cur Res_fs w2 = Some w3"
    "res_ok w3" "same_tables w0 w3" "pw_tasks w3 = (pw_tasks w)(cur \<mapsto> C\<lparr>tk_res := h\<rparr>)" "pw_groups w3 = pw_groups w" "pw_vforks w3 = pw_vforks w"
    "\<forall>r. (h r = None) = (r \<noteq> Res_sighand)"
    using drop_three [OF r0 _ c(5)] assms(3) unfolding w0 by blast
  let ?G = "G\<lparr>tg_rusage := rusage_add (tg_rusage G) ru\<rparr>" and ?C = "C\<lparr>tk_res := h, tk_exit_code := status\<rparr>" and ?k = "tk_group C"
  define w4 where "w4 = put_group ?k ?G (put_task cur ?C w3)"
  let ?w5 = "w4\<lparr>pw_locked := True\<rparr>"
  have l3: "\<not> pw_locked w3" "proc_ok w3" 
    using same_tables_inv [OF same_tables_trans [OF w0(3) w3(5)] c(1)] w3(5) w0(3) c(3) by (simp_all add: same_tables_def)
  have t3: "pw_tasks w3 cur = Some (C\<lparr>tk_res := h\<rparr>)" "pw_groups w3 ?k = Some G" using w3(6,7) assms(5) by simp_all
  have "tnode_of ?C = tnode_of (C\<lparr>tk_res := h\<rparr>)" "gnode_of ?G = gnode_of G" by (simp_all add: tnode_of_def gnode_of_def)
  then have v: "tview ?w5 = tview w3" "gview ?w5 = gview w3"
    using view_same [OF t3(1), of ?C] gview_same [OF t3(2), of ?G] by (simp_all add: w4_def)
  then have i5: "proc_ok ?w5" using l3(2) by (simp add: proc_inv_def w4_def)
  have r5: "res_ok ?w5" by (rule res_inv_cong [OF w3(4)]) (use t3(1) in \<open>auto simp: w4_def handle_def\<close>)
  have t5: "pw_tasks ?w5 = (pw_tasks w)(cur \<mapsto> ?C)" "pw_groups ?w5 = (pw_groups w)(?k \<mapsto> ?G)" "pw_vforks ?w5 = pw_vforks w"
    using w3(6-8) by (simp_all add: w4_def)
  have c5: "pw_tasks ?w5 cur = Some ?C" "pw_groups ?w5 (tk_group ?C) = Some ?G" using t5 by simp_all
  obtain L5 where L5: "pw_tasks ?w5 (tg_leader ?G) = Some L5" "tk_parent L5 \<noteq> None"
    using assms(4,6,7) t5(1) by (cases "tg_leader G = cur") auto
  have "\<exists>p w'. exit_locked others hook cur status (rusage_add (tg_rusage G) ru) ?w5 = Some w' \<and> proc_ok w' \<and> res_ok w' \<and> pw_locked w' = pw_locked ?w5
    \<and> survives cur ?C ?G p ?w5 w' \<and> departed cur (tk_exit_code ?C) ?C ?G w' \<and> p \<noteq> cur \<and> (p \<in> set (tg_threads ?G) \<or> parent_of w' p = None)
    \<and> pw_groups w' = (pw_groups ?w5)(tk_group ?C \<mapsto> ?G\<lparr>tg_threads := remove1 cur (tg_threads ?G)\<rparr>)"
    by (rule exit_locked_ok [OF i5 r5 c5(1) _ _ _ c5(2) L5])
       (use c(4) w3(9) assms(4,8) t5(3) in \<open>simp_all add: vfork_valid_def split: option.splits\<close>)
  then obtain p w6 where w6: "exit_locked others hook cur status (rusage_add (tg_rusage G) ru) ?w5 = Some w6" "proc_ok w6" "res_ok w6"
    "survives cur ?C ?G p ?w5 w6" "departed cur (tk_exit_code ?C) ?C ?G w6" "p \<noteq> cur" "p \<in> set (tg_threads ?G) \<or> parent_of w6 p = None"
    "pw_groups w6 = (pw_groups ?w5)(tk_group ?C \<mapsto> ?G\<lparr>tg_threads := remove1 cur (tg_threads ?G)\<rparr>)" by blast
  have nl: "\<not> pw_locked w4" using l3(1) by (simp add: w4_def)
  have "do_exit others hook put_ok cur status ru w = Some (unlock_pids w6)"
    using assms(3) w3(1-3) t3 w6(1) nl l3(1) unfolding do_exit_def w0_def [symmetric]
    by (simp add: Let_def w0_def [symmetric] w4_def [symmetric] lock_pids_def)
  moreover have "world_ok (unlock_pids w6)"
    using w6(2,3) by (simp add: ready_def proc_inv_def res_inv_def holders_def)
  moreover have "survives cur C G p w (unlock_pids w6)"
    by (rule survives_cong [OF w6(4)]) (use t5(1) in simp_all)
  moreover have "departed cur status C G (unlock_pids w6)" 
    using departed_cong [OF w6(5), of C G "unlock_pids w6"] by simp
  moreover have "p \<in> set (tg_threads G) \<or> parent_of (unlock_pids w6) p = None" using w6(7) by (simp add: parent_of_def)
  ultimately show ?thesis using w6(6,8) t5(2) by (intro exI [of _ p] exI [of _ "unlock_pids w6"]) simp
qed

end
