(* ===== verification/Process_Reap.thy ===== *)
theory Process_Reap
  imports Process_Exit
begin

text \<open>
  The end of a process: its parent reaps it, and its number, its group and its place in the lists are free again.
\<close>

section \<open>Freeing a group and its last task\<close>

text \<open>Leaving the session needs the entry of the session's number when the group has a terminal.\<close>

definition session_found :: "proc_group \<Rightarrow> nat \<Rightarrow> proc_world \<Rightarrow> bool" where
  "session_found G g w \<longleftrightarrow> tg_tty G \<noteq> None \<longrightarrow> (\<exists>i. pid_get (tg_sid G) (w\<lparr>pw_pids := (\<lambda>j. if tg_session_link G = Some j
     then (pw_pids w j)\<lparr>slot_session := remove1 g (slot_session (pw_pids w j))\<rparr> else pw_pids w j)\<rparr>) = Some (Some i))"

lemma pid_get_pids: "pw_pids w' = pw_pids w \<Longrightarrow> pid_get i w' = pid_get i w"
  by (simp add: pid_get_def)

lemma session_found_pids: "pw_pids w' = pw_pids w \<Longrightarrow> session_found G g w' = session_found G g w"
  by (simp add: session_found_def pid_get_def)

lemma leave_session_ok:
  assumes "pw_tasks w t = Some T" "pw_groups w (tk_group T) = Some G" "tg_session_link G = Some j" "session_found G (tk_group T) w"
  shows "\<exists>w'. task_leave_session t w = Some w' \<and> pw_groups w' = (pw_groups w)(tk_group T \<mapsto> G\<lparr>tg_session_link := None, tg_tty := None\<rparr>)
    \<and> pw_pids w' = (pw_pids w)(j := (pw_pids w j)\<lparr>slot_session := remove1 (tk_group T) (slot_session (pw_pids w j))\<rparr>)
    \<and> pw_tasks w' = pw_tasks w \<and> pw_res w' = pw_res w \<and> pw_locked w' = pw_locked w \<and> pw_next w' = pw_next w \<and> pw_vforks w' = pw_vforks w"
proof -
  let ?g = "tk_group T"
  define w1 where "w1 = put_group ?g (G\<lparr>tg_session_link := None\<rparr>) (put_pid j ((pw_pids w j)\<lparr>slot_session := remove1 ?g (slot_session (pw_pids w j))\<rparr>) w)"
  have u: "unlink_session_safe ?g w = Some w1" using assms(2,3) by (simp add: unlink_session_safe_def w1_def Let_def)
  show ?thesis
  proof (cases "tg_tty G")
    case None
    have e: "G\<lparr>tg_session_link := None, tg_tty := None\<rparr> = G\<lparr>tg_session_link := None\<rparr>" using None by (cases G) simp
    have "task_leave_session t w = Some w1" using u None assms(1) by (simp add: task_leave_session_def w1_def Let_def)
    then show ?thesis by (intro exI [of _ w1]) (simp add: w1_def e del: proc_group.simps)
  next
    case (Some tty)
    let ?v = "w\<lparr>pw_pids := (\<lambda>l. if tg_session_link G = Some l then (pw_pids w l)\<lparr>slot_session := remove1 ?g (slot_session (pw_pids w l))\<rparr> else pw_pids w l)\<rparr>"
    have "(\<lambda>l. if tg_session_link G = Some l then (pw_pids w l)\<lparr>slot_session := remove1 ?g (slot_session (pw_pids w l))\<rparr> else pw_pids w l)
        = (pw_pids w)(j := (pw_pids w j)\<lparr>slot_session := remove1 ?g (slot_session (pw_pids w j))\<rparr>)" using assms(3) by auto
    then have "pid_get (tg_sid G) w1 = pid_get (tg_sid G) ?v" by (intro pid_get_pids) (simp add: w1_def)
    moreover obtain i where "pid_get (tg_sid G) ?v = Some (Some i)"
      using assms(4) Some unfolding session_found_def by blast
    ultimately have "pid_get (tg_sid G) w1 = Some (Some i)" by simp
    then show ?thesis using u Some assms(1) by (simp add: task_leave_session_def Let_def w1_def del: fun_upd_apply) (simp add: w1_def)
  qed
qed

lemma teardown_ok:
  assumes "proc_ok w" "res_ok w" "pw_tasks w t = Some T" "tk_zombie T" "\<And>r. tk_res T r = None" "pw_groups w (tk_group T) = Some G"
    "session_found G (tk_group T) w" "tk_parent T = Some p" "pw_tasks w p = Some P"
  shows "\<exists>w'. teardown t w = Some w' \<and> proc_ok w' \<and> res_ok w' \<and> p \<noteq> t
    \<and> pw_tasks w' = (pw_tasks w)(p \<mapsto> P\<lparr>tk_children := remove1 t (tk_children P)\<rparr>, t := None) \<and> pw_groups w' = (pw_groups w)(tk_group T := None)
    \<and> slot_task (pw_pids w' (tk_pid T)) = None \<and> pw_locked w' = pw_locked w"
proof -
  note i = assms(1) [unfolded proc_inv_def]
  let ?g = "tk_group T"
  obtain a b where l: "tg_pgroup_link G = Some a" "tg_session_link G = Some b" using tablesD(6) [OF i gview_Some [OF assms(6)]] by auto
  define P1 where "P1 = (pw_pids w)(b := (pw_pids w b)\<lparr>slot_session := remove1 ?g (slot_session (pw_pids w b))\<rparr>)"
  define P2 where "P2 = P1(a := (P1 a)\<lparr>slot_pgroup := remove1 ?g (slot_pgroup (P1 a))\<rparr>)"
  obtain w1 where w1: "task_leave_session t w = Some w1" "pw_groups w1 = (pw_groups w)(?g \<mapsto> G\<lparr>tg_session_link := None, tg_tty := None\<rparr>)"
    "pw_pids w1 = P1" "pw_tasks w1 = pw_tasks w" "pw_res w1 = pw_res w" "pw_locked w1 = pw_locked w" "pw_next w1 = pw_next w"
    using leave_session_ok [OF assms(3,6) l(2) assms(7)] unfolding P1_def by blast
  define w2 where "w2 = put_group ?g (G\<lparr>tg_session_link := None, tg_tty := None, tg_pgroup_link := None\<rparr>) (put_pid a ((P1 a)\<lparr>slot_pgroup := remove1 ?g (slot_pgroup (P1 a))\<rparr>) w1)"
  have u: "unlink_pgroup ?g w1 = Some w2" using w1(2,3) l(1) by (simp add: unlink_pgroup_def w2_def Let_def)
  let ?w3 = "w2\<lparr>pw_groups := (pw_groups w2)(?g := None)\<rparr>"
  have v: "tview ?w3 = tview w" "gview ?w3 = (gview w)(?g := None)" "pw_pids ?w3 = P2" "pw_next ?w3 = pw_next w"
    using w1 by (auto simp: w2_def tview_def gview_def P2_def fun_eq_iff)
  have z: "tn_zombie (tnode_of T)" "gview w (tn_group (tnode_of T)) = Some (gnode_of G)" using assms(4) gview_Some [OF assms(6)] by simp_all
  note f = tables_free_group [OF i tview_Some [OF assms(3)] z, of a b P1 P2]
  have i3: "proc_inv {t} ?w3" using f(1) l unfolding proc_inv_def v by (simp add: P1_def P2_def)
  have ng: "in_no_group t ?w3" using f(2) l unfolding in_no_group_def v by (simp add: P1_def P2_def)
  have k: "tk_children T = []" using tablesD(4) [OF i tview_Some [OF assms(3)]] assms(4,8) by (auto simp: member_ok_def)
  have t3: "pw_tasks ?w3 t = Some T" "pw_tasks ?w3 = pw_tasks w" using assms(3) w1(4) by (simp_all add: w2_def)
  obtain w' Q where w': "task_destroy t ?w3 = Some w'" "proc_ok w'" "p \<noteq> t" "pw_tasks ?w3 p = Some Q"
    "pw_tasks w' = (pw_tasks ?w3)(p \<mapsto> Q\<lparr>tk_children := remove1 t (tk_children Q)\<rparr>, t := None)"
    "pw_groups w' = pw_groups ?w3" "pw_res w' = pw_res ?w3" "pw_locked w' = pw_locked ?w3" "pw_next w' = pw_next ?w3"
    "pw_pids w' = (pw_pids ?w3)(tk_pid T := (pw_pids ?w3 (tk_pid T))\<lparr>slot_task := None\<rparr>)"
    using task_destroy_ok [of t "{}" ?w3, OF i3 t3(1) assms(8) k ng] by blast
  have q: "Q = P" using w'(4) t3(2) assms(9) by simp
  have "res_ok w'"
  proof (rule res_ok_free [OF assms(2), of t])
    show "handle w t r = None" for r using assms(3,5) by (simp add: handle_def)
    show "handle w' s = handle w s" if "s \<noteq> t" for s using that w'(5) t3(2) assms(9) q by (auto simp: handle_def fun_eq_iff)
    show "handle w' t r = None" for r using w'(5) by (simp add: handle_def)
  qed (use w' w1 in \<open>simp_all add: w2_def\<close>)
  moreover have "teardown t w = Some w'" using assms(3) w1(1) u w'(1) by (simp add: teardown_def)
  moreover have "pw_groups w' = (pw_groups w)(?g := None)" using w'(6) w1(2) by (simp add: w2_def)
  ultimately show ?thesis using w' t3(2) q w1(6) by (intro exI [of _ w']) (simp add: w2_def)
qed

section \<open>Waiting for a zombie\<close>

text \<open>What \<open>wait\<close> reports, and what it makes of the tables.\<close>

definition exit_status :: "proc_task \<Rightarrow> proc_group \<Rightarrow> u32" where
  "exit_status T G = (if tg_doing_group_exit G then tg_group_exit_code G else tk_exit_code T)"

definition reaped :: "nat \<Rightarrow> proc_task \<Rightarrow> proc_group \<Rightarrow> nat \<Rightarrow> proc_task \<Rightarrow> proc_group \<Rightarrow> proc_world \<Rightarrow> proc_world \<Rightarrow> bool" where
  "reaped cur C H t T G w w' \<longleftrightarrow> pw_tasks w' = (pw_tasks w)(cur \<mapsto> C\<lparr>tk_children := remove1 t (tk_children C)\<rparr>, t := None)
     \<and> pw_groups w' = (pw_groups w)(tk_group C \<mapsto> H\<lparr>tg_children_rusage := rusage_add (tg_children_rusage H) (tg_rusage G)\<rparr>, tk_group T := None)
     \<and> slot_task (pw_pids w' (tk_pid T)) = None"

lemma reap_if_zombie_ok:
  assumes "proc_ok w" "res_ok w" "pw_tasks w cur = Some C" "\<not> tk_exiting C" "pw_groups w (tk_group C) = Some H"
    "pw_tasks w t = Some T" "tk_zombie T" "tk_parent T = Some cur" "\<And>r. tk_res T r = None" "pw_groups w (tk_group T) = Some G"
    "session_found G (tk_group T) w" "\<not> tst options WNOWAIT"
  shows "\<exists>w'. reap_if_zombie cur t options info w = Some (True, info\<lparr>wi_status := exit_status T G, wi_rusage := Some (tg_rusage G)\<rparr>, w')
    \<and> proc_ok w' \<and> res_ok w' \<and> reaped cur C H t T G w w' \<and> pw_locked w' = pw_locked w"
proof -
  note i = assms(1) [unfolded proc_inv_def]
  let ?H = "H\<lparr>tg_children_rusage := rusage_add (tg_children_rusage H) (tg_rusage G)\<rparr>"
  let ?w = "put_group (tk_group C) ?H w"
  have "cur \<in> set (tg_threads H)" using tablesD(4) [OF i tview_Some [OF assms(3)]] assms(4,5) by (simp add: member_ok_def gview_def)
  moreover have "tg_threads G = []" using tablesD(4) [OF i tview_Some [OF assms(6)]] assms(7,10) by (simp add: member_ok_def gview_def)
  ultimately have k: "tk_group T \<noteq> tk_group C" using assms(5,10) by auto
  have "gnode_of ?H = gnode_of H" by (simp add: gnode_of_def)
  then have "gview ?w = gview w" using gview_same [OF assms(5), of ?H] by simp
  then have "proc_ok ?w" using assms(1) by (simp add: proc_inv_def)
  moreover have "res_ok ?w" by (rule res_inv_cong [OF assms(2)]) simp_all
  moreover have "session_found G (tk_group T) ?w" using assms(11) session_found_pids [of ?w w] by simp
  ultimately obtain w' where w': "teardown t ?w = Some w'" "proc_ok w'" "res_ok w'" "pw_locked w' = pw_locked ?w"
    "pw_tasks w' = (pw_tasks ?w)(cur \<mapsto> C\<lparr>tk_children := remove1 t (tk_children C)\<rparr>, t := None)" "pw_groups w' = (pw_groups ?w)(tk_group T := None)"
    "slot_task (pw_pids w' (tk_pid T)) = None"
    using teardown_ok [of ?w t T G cur C] assms(3,6-10) k by auto
  then have "reaped cur C H t T G w w'" by (simp add: reaped_def)
  then show ?thesis using assms(3,5-7,10,12) w' by (intro exI [of _ w']) (simp add: reap_if_zombie_def exit_status_def)
qed


lemma wait_flags: "options AND NOT wait_options = 0 \<Longrightarrow> (options OR WEXITED) AND NOT wait_options = 0" "tst (options OR WEXITED) WEXITED"
    "tst (options OR WEXITED) WNOWAIT = tst options WNOWAIT" "tst (options OR WEXITED) WUNTRACED = tst options WUNTRACED"
  by (simp_all add: bit.conj_disj_distrib2 wait_options_def WNOHANG_def WUNTRACED_def WEXITED_def WCONTINUED_def WNOWAIT_def WALL_def bit.conj_disj_distrib2)

definition plain_wait :: "u32 \<Rightarrow> proc_group \<Rightarrow> bool" where
  "plain_wait options G \<longleftrightarrow> options AND NOT wait_options = 0 \<and> \<not> tst options WNOWAIT \<and> (tst options WUNTRACED \<longrightarrow> \<not> tg_stopped G)"

lemma wait_zombie_ok:
  assumes "world_ok w" "pw_tasks w cur = Some C" "\<not> tk_exiting C" "pw_groups w (tk_group C) = Some H"
    "pw_tasks w t = Some T" "tk_zombie T" "tk_parent T = Some cur" "\<And>r. tk_res T r = None" "pw_groups w (tk_group T) = Some G"
    "session_found G (tk_group T) w" "plain_wait options G" "sa = 0 \<or> put_ok sa" "ra = 0 \<or> put_ok ra"
  shows "\<exists>w'. sys_wait4 put_ok sleeps cur (int (tk_pid T)) sa options ra w
       = Some (Inr \<lparr>wi_pid = tk_pid T, wi_status = exit_status T G, wi_sig = SIGCHLD, wi_rusage = Some (tg_rusage G)\<rparr>, w')
    \<and> world_ok w' \<and> reaped cur C H t T G w w'"
proof -
  have c: "proc_ok w" "res_ok w" "\<not> pw_locked w" using assms(1) by (simp_all add: ready_def)
  let ?w = "w\<lparr>pw_locked := True\<rparr>" and ?op = "options OR WEXITED"
  let ?i0 = "\<lparr>wi_pid = tk_pid T, wi_status = 0, wi_sig = 0, wi_rusage = None\<rparr>"
  let ?i1 = "\<lparr>wi_pid = tk_pid T, wi_status = exit_status T G, wi_sig = 0, wi_rusage = Some (tg_rusage G)\<rparr>"
  have o: "?op AND NOT wait_options = 0" "tst ?op WEXITED" "\<not> tst ?op WNOWAIT" "tst ?op WUNTRACED \<longrightarrow> \<not> tg_stopped G" "\<not> tst options WNOWAIT"
    using assms(11) wait_flags by (simp_all add: plain_wait_def)
  have "proc_ok ?w" using c(1) by (simp add: proc_inv_def)
  moreover have "res_ok ?w" by (rule res_inv_cong [OF c(2)]) simp_all
  moreover have "session_found G (tk_group T) ?w" using assms(10) session_found_pids [of ?w w] by simp
  ultimately obtain w' where w': "reap_if_zombie cur t ?op ?i0 ?w = Some (True, ?i1, w')" "proc_ok w'" "res_ok w'" "reaped cur C H t T G ?w w'"
    using reap_if_zombie_ok [of ?w cur C H t T G ?op ?i0] assms(2-9) o(3) by auto
  have pid: "1 \<le> tk_pid T" "tk_pid T \<le> MAX_PID" "slot_task (pw_pids ?w (tk_pid T)) = Some t"
    using tablesD(1) [OF c(1) [unfolded proc_inv_def] tview_Some [OF assms(5)]] by simp_all
  then have "pid_get_task_zombie (tk_pid T) ?w = Some (Some t)" by (simp add: pid_get_task_zombie_def pid_get_def pid_empty_def)
  moreover have l: "tg_leader G = t" using tablesD(4) [OF c(1) [unfolded proc_inv_def] tview_Some [OF assms(5)]] assms(6,9) by (simp add: member_ok_def gview_def)
  moreover have "(if tst ?op WUNTRACED then notify_if_stopped t ?i0 ?w else Some (False, ?i0, ?w)) = Some (False, ?i0, ?w)"
    using o(4) assms(5,9) by (simp add: notify_if_stopped_def)
  then have "reap_if_needed cur t ?op ?i0 ?w = Some (True, ?i1\<lparr>wi_sig := SIGCHLD\<rparr>, w')"
    using assms(5,9) l w'(1) o(2) by (simp add: reap_if_needed_def)
  ultimately have r: "wait_round cur P_PID (tk_pid T) ?op \<lparr>wi_pid = 0xbaba, wi_status = 0, wi_sig = 0, wi_rusage = None\<rparr> ?w
      = Some (Inr True, ?i1\<lparr>wi_sig := SIGCHLD\<rparr>, w')"
    using assms(2,5,7,9) by (simp add: wait_round_def)
  then have "do_wait sleeps cur P_PID (tk_pid T) \<lparr>wi_pid = 0xbaba, wi_status = 0, wi_sig = 0, wi_rusage = None\<rparr> ?op w
      = Some (Inr (), ?i1\<lparr>wi_sig := SIGCHLD\<rparr>, unlock_pids w')"
    using o(1) c(3) by (simp add: do_wait_def lock_pids_def)
  then have "sys_wait4 put_ok sleeps cur (int (tk_pid T)) sa options ra w
       = Some (Inr \<lparr>wi_pid = tk_pid T, wi_status = exit_status T G, wi_sig = SIGCHLD, wi_rusage = Some (tg_rusage G)\<rparr>, unlock_pids w')"
    using assms(2,4,12,13) o(5) pid(1) by (auto simp: sys_wait4_def)
  moreover have "world_ok (unlock_pids w')" using w'(2,3) by (simp add: ready_def proc_inv_def res_inv_def holders_def)
  moreover have "reaped cur C H t T G w (unlock_pids w')" using w'(4) by (simp add: reaped_def)
  ultimately show ?thesis by blast
qed

text \<open>
  The terminal of a group is let go through the number of its session, which must still be in use: the
  leader of the session exists, if only as a zombie, or there is no terminal.
\<close>

definition session_alive :: "proc_group \<Rightarrow> proc_world \<Rightarrow> bool" where
  "session_alive G w \<longleftrightarrow> tg_tty G = None \<or> (\<exists>t T. pw_tasks w t = Some T \<and> tk_pid T = tg_sid G)"

lemma session_alive_found:
  assumes "proc_ok w" "session_alive G w"
  shows "session_found G g w"
proof (cases "tg_tty G = None")
  case False
  then obtain t T where t: "pw_tasks w t = Some T" "tk_pid T = tg_sid G" using assms(2) by (auto simp: session_alive_def)
  have "1 \<le> tg_sid G" "tg_sid G \<le> MAX_PID" "slot_task (pw_pids w (tg_sid G)) = Some t"
    using tablesD(1) [OF assms(1) [unfolded proc_inv_def] tview_Some [OF t(1)]] t(2) by simp_all
  then show ?thesis by (auto simp: session_found_def pid_get_def pid_empty_def)
qed (simp add: session_found_def)

text \<open>The slot of a number after the group \<open>k\<close> is gone: it keeps what other groups put on its lists.\<close>

definition slot_left :: "nat \<Rightarrow> pid_slot \<Rightarrow> bool" where
  "slot_left k P \<longleftrightarrow> set (slot_pgroup P) \<subseteq> {k} \<and> set (slot_session P) \<subseteq> {k}"

lemma links_mem:
  assumes "proc_ok w"
  shows "k \<in> set (slot_pgroup (pw_pids w i)) \<longleftrightarrow> (\<exists>g. pw_groups w k = Some g \<and> tg_pgroup_link g = Some i)"
    "k \<in> set (slot_session (pw_pids w i)) \<longleftrightarrow> (\<exists>g. pw_groups w k = Some g \<and> tg_session_link g = Some i)"
  using assms unfolding proc_inv_def tables_inv_def links_inv_def by (auto simp: gview_def)

lemma slot_freed:
  assumes "proc_ok w" "proc_ok w'" "slot_task (pw_pids w' i) = None" "pw_groups w' k = None"
    "\<And>j. j \<noteq> k \<Longrightarrow> map_option (\<lambda>g. (tg_pgroup_link g, tg_session_link g)) (pw_groups w' j)
                   = map_option (\<lambda>g. (tg_pgroup_link g, tg_session_link g)) (pw_groups w j)"
  shows "pid_empty (pw_pids w' i) \<longleftrightarrow> slot_left k (pw_pids w i)"
proof -
  have m: "(\<exists>g. pw_groups w' j = Some g \<and> f (tg_pgroup_link g, tg_session_link g))
       \<longleftrightarrow> j \<noteq> k \<and> (\<exists>g. pw_groups w j = Some g \<and> f (tg_pgroup_link g, tg_session_link g))" for j f
  proof (cases "j = k")
    case False
    then show ?thesis using assms(5) [of j] by (cases "pw_groups w j"; cases "pw_groups w' j") auto
  qed (simp add: assms(4))
  have "set (slot_pgroup (pw_pids w' i)) = set (slot_pgroup (pw_pids w i)) - {k}"
    using m [of _ "\<lambda>x. fst x = Some i"] by (auto simp: links_mem(1) [OF assms(1)] links_mem(1) [OF assms(2)])
  moreover have "set (slot_session (pw_pids w' i)) = set (slot_session (pw_pids w i)) - {k}"
    using m [of _ "\<lambda>x. snd x = Some i"] by (auto simp: links_mem(2) [OF assms(1)] links_mem(2) [OF assms(2)])
  ultimately show ?thesis using assms(3) by (auto simp: pid_empty_def slot_left_def simp flip: set_empty)
qed

text \<open>A process of one thread exits and its parent waits for it.\<close>

lemma exit_then_wait_ok:
  assumes "world_ok w" "running w cur" "pw_tasks w cur = Some C" "pw_groups w (tk_group C) = Some G" "tg_leader G = cur" "tg_threads G = [cur]"
    "tk_parent C = Some p" "p \<noteq> cur" "running w p" "session_alive G w" "vfork_valid w C" "plain_wait options G" "sa = 0 \<or> put_ok sa" "ra = 0 \<or> put_ok ra"
  shows "\<exists>w1 w2. do_exit others hook po cur status ru w = Some w1
    \<and> sys_wait4 put_ok sleeps p (int (tk_pid C)) sa options ra w1
       = Some (Inr \<lparr>wi_pid = tk_pid C, wi_status = (if tg_doing_group_exit G then tg_group_exit_code G else status), wi_sig = SIGCHLD,
                    wi_rusage = Some (rusage_add (tg_rusage G) ru)\<rparr>, w2)
    \<and> world_ok w2 \<and> pw_tasks w2 cur = None \<and> pw_groups w2 (tk_group C) = None \<and> slot_task (pw_pids w2 (tk_pid C)) = None
    \<and> (pid_empty (pw_pids w2 (tk_pid C)) \<longleftrightarrow> slot_left (tk_group C) (pw_pids w (tk_pid C)))"
proof -
  have n: "tk_parent C \<noteq> None" using assms(7) by simp
  have ld: "pw_tasks w (tg_leader G) = Some C" using assms(3,5) by simp
  obtain q w1 where e: "do_exit others hook po cur status ru w = Some w1" "world_ok w1" "survives cur C G q w w1" "departed cur status C G w1"
    "pw_groups w1 = (pw_groups w)(tk_group C \<mapsto> G\<lparr>tg_rusage := rusage_add (tg_rusage G) ru, tg_threads := remove1 cur (tg_threads G)\<rparr>)"
    using do_exit_ok [OF assms(1-3) n assms(4) ld n assms(11)] by blast
  let ?G = "G\<lparr>tg_rusage := rusage_add (tg_rusage G) ru, tg_threads := []\<rparr>"
  obtain C1 where C1: "pw_tasks w1 cur = Some C1" "tk_exiting C1" "tk_zombie C1" "tk_exit_code C1 = status" "\<And>r. tk_res C1 r = None"
    using e(4) assms(5,6) by (auto simp: departed_def last_thread_def)
  have ok: "proc_ok w" "proc_ok w1" using assms(1) e(2) by (simp_all add: ready_def)
  have pc: "tk_pid C1 = tk_pid C" "tk_group C1 = tk_group C" "tk_parent C1 = Some p"
    using e(4) assms(5,7,8) C1(1) by (auto simp: departed_def)
  obtain P where P: "pw_tasks w p = Some P" "\<not> tk_exiting P" using assms(9) by (auto simp: running_def)
  obtain H where H: "pw_groups w (tk_group P) = Some H" "p \<in> set (tg_threads H)" using running_group [OF ok(1) P] by auto
  have k: "tk_group P \<noteq> tk_group C" using H assms(4,6,8) by auto
  obtain P1 where P1: "pw_tasks w1 p = Some P1" "\<not> tk_exiting P1" "tk_group P1 = tk_group P"
    using e(3) assms(8) P by (auto simp: survives_def dest!: spec [of _ p])
  have g: "pw_groups w1 (tk_group P1) = Some H" "pw_groups w1 (tk_group C1) = Some ?G" using e(5) P1(3) H(1) k pc(2) assms(6) by simp_all
  have "session_alive ?G w1"
  proof -
    have "\<exists>t T. pw_tasks w1 t = Some T \<and> tk_pid T = tk_pid S" if S: "pw_tasks w s = Some S" for s S
    proof (cases "s = cur")
      case True
      then show ?thesis using S C1(1) pc(1) assms(3) by auto
    next
      case False
      then obtain S1 where "pw_tasks w1 s = Some S1" "tk_pid S1 = tk_pid S"
        using e(3) S by (auto simp: survives_def dest!: spec [of _ s])
      then show ?thesis by blast
    qed
    then show ?thesis using assms(10) unfolding session_alive_def by fastforce
  qed
  then have "session_found ?G (tk_group C1) w1" by (rule session_alive_found [OF ok(2)])
  moreover have "plain_wait options ?G" using assms(12) by (simp add: plain_wait_def)
  ultimately obtain w2 where w2: "sys_wait4 put_ok sleeps p (int (tk_pid C1)) sa options ra w1
       = Some (Inr \<lparr>wi_pid = tk_pid C1, wi_status = exit_status C1 ?G, wi_sig = SIGCHLD, wi_rusage = Some (tg_rusage ?G)\<rparr>, w2)"
    "world_ok w2" "reaped p P1 H cur C1 ?G w1 w2"
    using wait_zombie_ok [OF e(2) P1(1,2) g(1) C1(1,3) pc(3) C1(5) g(2) _ _ assms(13,14)] by blast
  have ok2: "proc_ok w2" using w2(2) by (simp add: ready_def)
  have "pid_empty (pw_pids w2 (tk_pid C)) \<longleftrightarrow> slot_left (tk_group C) (pw_pids w (tk_pid C))"
    using w2(3) pc k H(1) P1(3) e(5) by (intro slot_freed [OF ok(1) ok2]) (auto simp: reaped_def)
  then show ?thesis using e(1) C1(4) pc w2 by (intro exI [of _ w1] exI [of _ w2]) (simp add: reaped_def exit_status_def)
qed

end
