(* ===== verification/Process_Props.thy ===== *)
theory Process_Props
  imports Process_Reap
begin

text \<open>
  The properties of the process life cycle, with the first process as their concrete instance.
\<close>

section \<open>The first process\<close>

definition first_task :: proc_task where
  "first_task = (new_task 1)\<lparr>tk_tgid := 1, tk_group := 1,
     tk_res := (\<lambda>r. Some (case r of Res_mm \<Rightarrow> 2 | Res_sighand \<Rightarrow> 3 | Res_files \<Rightarrow> 4 | Res_fs \<Rightarrow> 5))\<rparr>"

definition first_group :: proc_group where
  "first_group = empty_group\<lparr>tg_threads := [0], tg_sid := 1, tg_pgid := 1, tg_session_link := Some 1, tg_pgroup_link := Some 1\<rparr>"

definition first_world :: proc_world where
  "first_world = no_world\<lparr>pw_tasks := [0 \<mapsto> first_task], pw_groups := [1 \<mapsto> first_group],
     pw_pids := (pw_pids no_world)(1 := \<lparr>slot_task = Some 0, slot_session = [1], slot_pgroup = [1]\<rparr>), pw_cur_pid := 1,
     pw_res := (\<lambda>r x. if tk_res first_task r = Some x then Some 1 else None), pw_next := 6\<rparr>"

lemma next_pid_first: "0 < n \<Longrightarrow> pid_empty (pids (succ_pid cur)) \<Longrightarrow> next_pid n pids cur = Some (succ_pid cur)"
  by (cases n) simp_all

lemma first_next_pid: "next_pid MAX_PID (\<lambda>_. \<lparr>slot_task = None, slot_session = [], slot_pgroup = []\<rparr>) 0 = Some 1"
  by (subst next_pid_first) (simp_all add: MAX_PID_def pid_empty_def succ_pid_def)

lemma pid_get_small: "i \<le> MAX_PID \<Longrightarrow> pid_get i w = Some (if pid_empty (pw_pids w i) then None else Some i)"
  by (simp add: pid_get_def)

lemma one_pid: "Suc 0 \<le> MAX_PID" by (simp add: MAX_PID_def)

lemma first_process: "become_first_process None no_world = Some (Inr 0, first_world)"
proof -
  have "become_first_process None no_world = Some (Inr 0, no_world\<lparr>pw_tasks := [0 \<mapsto> (new_task 1)\<lparr>tk_tgid := 1, tk_group := 1,
       tk_res := [Res_mm \<mapsto> 2, Res_sighand \<mapsto> 3, Res_files \<mapsto> 4, Res_fs \<mapsto> 5]\<rparr>], pw_groups := [1 \<mapsto> first_group],
     pw_pids := (pw_pids no_world)(1 := \<lparr>slot_task = Some 0, slot_session = [1], slot_pgroup = [1]\<rparr>), pw_cur_pid := 1,
     pw_res := (\<lambda>_ _. None)(Res_mm := [2 \<mapsto> 1], Res_sighand := [3 \<mapsto> 1], Res_files := [4 \<mapsto> 1], Res_fs := [5 \<mapsto> 1]), pw_next := 6\<rparr>)"
    using first_next_pid one_pid
    by (simp add: become_first_process_def construct_task_def task_create_def lock_pids_def no_world_def Let_def first_group_def
      task_setsid_def task_leave_session_def pid_get_small pid_empty_def link_session_def link_pgroup_def unlink_pgroup_safe_def
      res_new_def set_handle_def unlink_session_safe_def empty_group_def new_task_def put_task_def put_group_def put_pid_def unlock_pids_def numeral_eq_Suc)
  moreover have "[Res_mm \<mapsto> 2, Res_sighand \<mapsto> 3, Res_files \<mapsto> 4, Res_fs \<mapsto> (5::nat)]
      = (\<lambda>r. Some (case r of Res_mm \<Rightarrow> 2 | Res_sighand \<Rightarrow> 3 | Res_files \<Rightarrow> 4 | Res_fs \<Rightarrow> 5))" by (rule ext, rename_tac r, case_tac r) simp_all
  moreover have "(\<lambda>_ _. None)(Res_mm := [2 \<mapsto> 1], Res_sighand := [3 \<mapsto> 1], Res_files := [4 \<mapsto> 1], Res_fs := [5 \<mapsto> 1])
      = (\<lambda>r x. if tk_res first_task r = Some x then Some (1::nat) else None)" by (intro ext, rename_tac r x, case_tac r) (auto simp: first_task_def)
  ultimately show ?thesis by (simp add: first_world_def first_task_def)
qed

lemma first_fields: "tk_pid first_task = 1" "tk_group first_task = 1" "tk_parent first_task = None" "tk_children first_task = []" "\<not> tk_exiting first_task"
  "\<not> tk_zombie first_task" "tk_vfork first_task = None" "tk_uid first_task = 0" "tg_threads first_group = [0]" "tg_leader first_group = 0" "tg_pgroup_link first_group = Some 1"
  "tg_session_link first_group = Some 1" "tg_tty first_group = None" "\<not> tg_doing_group_exit first_group" "\<not> tg_stopped first_group"
  "tg_sid first_group = 1" "tg_pgid first_group = 1"
  by (simp_all add: first_task_def first_group_def new_task_def empty_group_def)

lemma first_world_fields: "pw_tasks first_world = [0 \<mapsto> first_task]" "pw_groups first_world = [1 \<mapsto> first_group]"
  "pw_pids first_world i = (if i = 1 then \<lparr>slot_task = Some 0, slot_session = [1], slot_pgroup = [1]\<rparr> else \<lparr>slot_task = None, slot_session = [], slot_pgroup = []\<rparr>)"
  "pw_cur_pid first_world = 1" "pw_next first_world = 6" "\<not> pw_locked first_world" "pw_vforks first_world = (\<lambda>_. None)"
  "pw_res first_world r x = (if tk_res first_task r = Some x then Some 1 else None)"
  by (simp_all add: first_world_def no_world_def)

lemma first_world_ok: "world_ok first_world"
proof -
  have t: "tview first_world = [0 \<mapsto> tnode_of first_task]" "gview first_world = [1 \<mapsto> gnode_of first_group]"
    by (auto simp: fun_eq_iff tview_def gview_def first_world_fields)
  have "pids_inv (tview first_world) (pw_pids first_world)"
    by (auto simp: pids_inv_def t first_fields first_world_fields MAX_PID_def split: if_splits)
  moreover have "family_inv (tview first_world)" by (auto simp: family_inv_def t par_def chd_def first_fields split: if_splits)
  moreover have "member_inv {} (tview first_world) (gview first_world)" by (auto simp: member_inv_def member_ok_def t first_fields split: if_splits)
  moreover have "group_inv (tview first_world) (gview first_world)" by (auto simp: group_inv_def grp_def t first_fields split: if_splits)
  moreover have "links_inv (gview first_world) (pw_pids first_world)" by (auto simp: links_inv_def t first_fields first_world_fields split: if_splits)
  moreover have "fresh_inv (tview first_world) (gview first_world) (pw_next first_world)" by (auto simp: fresh_inv_def t first_world_fields)
  ultimately have "proc_ok first_world" by (simp add: proc_inv_def tables_inv_def)
  moreover have h: "handle first_world t r = (if t = 0 then tk_res first_task r else None)" for t r by (simp add: handle_def first_world_fields)
  have "holders (\<lambda>_. {}) first_world r x = (if tk_res first_task r = Some x then {0} else {})" for r x by (auto simp: holders_def h)
  moreover have "x < 6" if "tk_res first_task r = Some x" for r x using that by (auto simp: first_task_def split: resource.splits)
  ultimately show ?thesis by (auto simp: ready_def res_inv_def h first_world_fields counted_def split: if_splits)
qed

lemma first_running: "running first_world 0"
  by (auto simp: running_def first_world_fields first_task_def new_task_def)

lemma first_free_pid: "free_pid first_world"
  by (auto simp: free_pid_def first_world_fields pid_empty_def MAX_PID_def intro!: exI [of _ 2])


section \<open>Clone\<close>

definition roomy :: clone_env where
  "roomy = \<lparr>ce_task = True, ce_mm = True, ce_files = True, ce_fs = True, ce_sighand = True, ce_group = True, ce_tls = None,
     ce_child_put = False, ce_parent_put = False\<rparr>"

lemma roomy_fields [simp]: "ce_task roomy" "ce_group roomy" "room_for roomy r" "ce_tls roomy = None" "\<not> ce_child_put roomy"
  by (simp_all add: roomy_def room_for_def split: resource.split)

lemma first_clone_flags: "\<not> clone_flags_error (of_nat SIGCHLD)" "late_error roomy (of_nat SIGCHLD) = None" "\<not> tst (of_nat SIGCHLD) CLONE_VFORK"
    "\<not> tst (of_nat SIGCHLD) CLONE_THREAD" "\<not> shares (of_nat SIGCHLD) r"
  by (simp_all add: clone_flags_error_def late_error_def shares_def SIGCHLD_def CSIGNAL_def IMPLEMENTED_FLAGS_def CLONE_SIGHAND_def CLONE_THREAD_def
    CLONE_VM_def CLONE_SETTLS_def CLONE_CHILD_SETTID_def CLONE_PARENT_SETTID_def CLONE_VFORK_def CLONE_FS_def CLONE_FILES_def split: resource.split)

text \<open>C5. Clone. In a consistent world (tasks found by their numbers, parents and lists of children that agree, groups that know their threads and leaders, lists of process
  groups and sessions that hold exactly their groups, exact counts of every shared object) with a free number and memory, a clone with
  acceptable flags and no vfork returns the number of a new task and the world is consistent again. The only tasks that change are
  the caller, which has one child more, and the new task, which is a copy of it with its own number, stack, exit signal and cleared id
  address; it has its parent's objects exactly where the flags share them and new ones elsewhere; it is one more thread of its
  parent's group with CLONE_THREAD, or else leads a new group of the same process group, session and terminal.\<close>

theorem clone_correct:
  assumes "world_ok w" "running w cur" "pw_tasks w cur = Some C" "free_pid w" "ce_task env" "ce_group env" "\<And>r. shares flags r \<or> room_for env r"
    "late_error env flags = None" "\<not> clone_flags_error flags" "\<not> tst flags CLONE_VFORK"
  shows "\<exists>pid t T w'. sys_clone env others cur flags stack ctid w = Some (Inr pid, w') \<and> world_ok w' \<and> pid_empty (pw_pids w pid)
    \<and> pw_tasks w t = None \<and> pw_tasks w' = (pw_tasks w)(cur \<mapsto> C\<lparr>tk_children := t # tk_children C\<rparr>, t \<mapsto> T)
    \<and> cloned cur pid flags stack ctid C T \<and> given flags C w (tk_res T) \<and> in_group t flags (tk_group C) w (tk_group T) w'"
  by (rule clone_effect [OF assms])

theorem clone_correct_witness:
  "\<exists>pid t T w'. become_first_process None no_world = Some (Inr 0, first_world) \<and> sys_fork roomy 0 first_world = Some (Inr pid, w')
     \<and> world_ok w' \<and> t \<noteq> 0 \<and> pw_tasks w' t = Some T \<and> tk_pid T = pid \<and> tk_parent T = Some 0 \<and> tk_exit_signal T = SIGCHLD"
proof -
  have t: "pw_tasks first_world 0 = Some first_task" by (simp add: first_world_fields)
  from clone_correct [OF first_world_ok first_running t first_free_pid, of roomy "of_nat SIGCHLD" "[]" 0 0] obtain pid u T w' where
    "sys_clone roomy [] 0 (of_nat SIGCHLD) 0 0 first_world = Some (Inr pid, w')" "world_ok w'" "pw_tasks first_world u = None"
    "pw_tasks w' = (pw_tasks first_world)(0 \<mapsto> first_task\<lparr>tk_children := u # tk_children first_task\<rparr>, u \<mapsto> T)"
    "cloned 0 pid (of_nat SIGCHLD) 0 0 first_task T"
    by (auto simp: first_clone_flags)
  moreover have "u \<noteq> 0" using \<open>pw_tasks first_world u = None\<close> t by (intro notI) simp
  ultimately show ?thesis using first_process
    by (intro exI [of _ pid] exI [of _ u] exI [of _ T] exI [of _ w']) (simp add: sys_fork_def cloned_def CSIGNAL_def SIGCHLD_def)
qed

text \<open>The child of the first process, for the witnesses below.\<close>

lemma first_child:
  "\<exists>t T G w. sys_fork roomy 0 first_world = Some (Inr (tk_pid T), w) \<and> world_ok w \<and> running w t \<and> pw_tasks w t = Some T \<and> tk_parent T = Some 0
     \<and> t \<noteq> 0 \<and> pw_groups w (tk_group T) = Some G \<and> tg_leader G = t \<and> tg_threads G = [t] \<and> tg_tty G = None \<and> \<not> tg_doing_group_exit G
     \<and> vfork_valid w T \<and> running w 0 \<and> tk_children T = []"
proof -
  let ?fl = "of_nat SIGCHLD :: u32"
  have t0: "pw_tasks first_world 0 = Some first_task" by (simp add: first_world_fields)
  obtain pid t T w where w: "sys_clone roomy [] 0 ?fl 0 0 first_world = Some (Inr pid, w)" "world_ok w" "pw_tasks first_world t = None"
    "pw_tasks w = (pw_tasks first_world)(0 \<mapsto> first_task\<lparr>tk_children := t # tk_children first_task\<rparr>, t \<mapsto> T)"
    "cloned 0 pid ?fl 0 0 first_task T" "given ?fl first_task first_world (tk_res T)" "in_group t ?fl (tk_group first_task) first_world (tk_group T) w"
    using clone_effect [OF first_world_ok first_running t0 first_free_pid, of roomy ?fl "[]" 0 0] by (auto simp: first_clone_flags)
  have n: "t \<noteq> 0" using w(3) t0 by (intro notI) simp
  have tt: "pw_tasks w t = Some T" "pw_tasks w 0 = Some (first_task\<lparr>tk_children := [t]\<rparr>)" using w(4) n first_fields by simp_all
  have "tk_res T r \<noteq> None" for r 
    using w(6) [unfolded given_def, rule_format, of r] first_clone_flags(5) [of r] by auto
  then have "running w t" using tt(1) w(5) by (simp add: running_def cloned_def)
  moreover have "running w 0" using tt(2) first_fields by (auto simp: running_def first_task_def)
  moreover obtain G where "pw_groups w (tk_group T) = Some G" "tg_threads G = [t]" "tg_leader G = t" "tg_tty G = tg_tty first_group" "\<not> tg_doing_group_exit G"
  proof -
    obtain H G where "pw_groups first_world (tk_group first_task) = Some H" "pw_groups w = (pw_groups first_world)(tk_group T \<mapsto> G)" "tg_tty G = tg_tty H"
      "tg_threads G = [t]" "tg_leader G = t" "\<not> tg_doing_group_exit G"
      using w(7) first_clone_flags(4) unfolding in_group_def by metis
    moreover have "H = first_group" using calculation(1) by (simp add: first_world_fields first_fields)
    ultimately show thesis using that by simp
  qed
  moreover have "tk_pid T = pid" "tk_parent T = Some 0" "vfork_valid w T" "tk_children T = []" using w(5) by (simp_all add: cloned_def vfork_valid_def)
  moreover have "tg_tty first_group = None" by (rule first_fields)
  moreover have "sys_fork roomy 0 first_world = Some (Inr pid, w)" using w(1) by (simp add: sys_fork_def)
  ultimately show ?thesis using w(2) tt(1) n by metis
qed

text \<open>C36. A clone that fails when its task is already in a group (the thread area is refused, or the child's or the parent's copy of the
  number cannot be written) returns the error but leaves a freed task behind: no task is at \<open>t\<close> any more, and yet \<open>t\<close> is in
  the list of threads of a group; without CLONE_THREAD it is also the leader of a group that stays in its process group.\<close>

theorem clone_late_failure_dangles:
  assumes "world_ok w" "running w cur" "pw_tasks w cur = Some C" "free_pid w" "ce_task env" "ce_group env" "\<And>r. shares flags r \<or> room_for env r"
    "late_error env flags = Some e" "\<not> clone_flags_error flags"
  shows "\<exists>t w' g G. sys_clone env others cur flags stack ctid w = Some (Inl e, w') \<and> pw_tasks w' t = None \<and> pw_groups w' g = Some G
    \<and> t \<in> set (tg_threads G) \<and> (\<not> tst flags CLONE_THREAD \<longrightarrow> tg_leader G = t \<and> (\<exists>i. tg_pgroup_link G = Some i \<and> g \<in> set (slot_pgroup (pw_pids w' i))))"
  by (rule late_clone_effect [OF assms])

theorem clone_late_failure_dangles_witness:
  "\<exists>t w' g G i. sys_clone roomy [] 0 (CLONE_CHILD_SETTID OR of_nat SIGCHLD) 0 4 first_world = Some (Inl EFAULT, w') \<and> pw_tasks w' t = None
     \<and> pw_groups w' g = Some G \<and> tg_leader G = t \<and> g \<in> set (slot_pgroup (pw_pids w' i))"
proof -
  let ?fl = "CLONE_CHILD_SETTID OR of_nat SIGCHLD :: u32"
  have f: "\<not> clone_flags_error ?fl" "late_error roomy ?fl = Some EFAULT" "\<not> tst ?fl CLONE_THREAD"
    by (simp_all add: clone_flags_error_def late_error_def SIGCHLD_def CSIGNAL_def IMPLEMENTED_FLAGS_def CLONE_SIGHAND_def CLONE_THREAD_def
      CLONE_VM_def CLONE_SETTLS_def CLONE_CHILD_SETTID_def)
  have "pw_tasks first_world 0 = Some first_task" by (simp add: first_world_fields)
  from clone_late_failure_dangles [OF first_world_ok first_running this first_free_pid _ _ _ f(2,1), of "[]" 0 4] f(3)
  obtain t w' g G i where "sys_clone roomy [] 0 ?fl 0 4 first_world = Some (Inl EFAULT, w')" "pw_tasks w' t = None" "pw_groups w' g = Some G"
    "tg_leader G = t" "g \<in> set (slot_pgroup (pw_pids w' i))" by auto
  then show ?thesis by blast
qed


section \<open>Exit and wait\<close>

text \<open>C6. Exit. When a thread other than the first process ends, all four of its objects are released and the world is consistent again,
  so no count is lost and no list holds a task that is gone. Each of its children gets one and the same living parent, a thread that
  still runs in its group or the first process; of the other tasks nothing else changes except that the leader of the group becomes a
  zombie exactly when the last thread ends. The task itself is freed at once if it is no leader, and otherwise
  stays, with its exit status and without objects or children, until it is reaped; the group adds up the time it used.\<close>

theorem do_exit_correct:
  assumes "world_ok w" "running w cur" "pw_tasks w cur = Some C" "tk_parent C \<noteq> None" "pw_groups w (tk_group C) = Some G"
    "pw_tasks w (tg_leader G) = Some L" "tk_parent L \<noteq> None" "vfork_valid w C"
  shows "\<exists>p w'. do_exit others hook put_ok cur status ru w = Some w' \<and> world_ok w' \<and> survives cur C G p w w' \<and> departed cur status C G w'
    \<and> p \<noteq> cur \<and> (p \<in> set (tg_threads G) \<or> parent_of w' p = None)
    \<and> pw_groups w' = (pw_groups w)(tk_group C \<mapsto> G\<lparr>tg_rusage := rusage_add (tg_rusage G) ru, tg_threads := remove1 cur (tg_threads G)\<rparr>)"
  by (rule do_exit_ok [OF assms])

theorem do_exit_correct_witness:
  "\<exists>t T w w' T'. sys_fork roomy 0 first_world = Some (Inr (tk_pid T), w) \<and> pw_tasks w t = Some T
     \<and> do_exit (\<lambda>_. id) False False t 0x700 no_rusage w = Some w' \<and> world_ok w' \<and> pw_tasks w' t = Some T' \<and> tk_zombie T' \<and> tk_exit_code T' = 0x700"
proof -
  obtain t T G w where f: "sys_fork roomy 0 first_world = Some (Inr (tk_pid T), w)" "world_ok w" "running w t" "pw_tasks w t = Some T"
    "tk_parent T = Some 0" "pw_groups w (tk_group T) = Some G" "tg_leader G = t" "tg_threads G = [t]" "vfork_valid w T"
    using first_child by blast
  from do_exit_correct [OF f(2,3,4) _ f(6) _ _ f(9), of T "\<lambda>_. id" False False "0x700" no_rusage] f(4,5,7)
  obtain w' where "do_exit (\<lambda>_. id) False False t 0x700 no_rusage w = Some w'" "world_ok w'" "departed t 0x700 T G w'" by auto
  then show ?thesis using f(1,4,7,8) by (auto simp: departed_def last_thread_def)
qed

text \<open>C13. Exit, then wait. When the only thread of a process ends and its parent, another process that still runs, then waits for it (by its
  number, with options that are known, do not ask to leave the child and do not find it stopped, and with addresses that are null
  or can be written), the wait returns at once with the number of the child, its status (that of the group exit when there was one)
  and the time its group used, with SIGCHLD as the cause. The task and its group are then freed, no task has the number any more, and
  the world is consistent. The number can be given out again exactly when no other group is left in the process group or the session
  of that number. The child must have no terminal, or the leader of its session must still exist: otherwise the code
  reads the number of the session through a null pointer (\<open>leave_session_ok\<close>).\<close>

theorem exit_then_wait:
  assumes "world_ok w" "running w cur" "pw_tasks w cur = Some C" "pw_groups w (tk_group C) = Some G" "tg_leader G = cur" "tg_threads G = [cur]"
    "tk_parent C = Some p" "p \<noteq> cur" "running w p" "session_alive G w" "vfork_valid w C" "plain_wait options G" "sa = 0 \<or> put_ok sa" "ra = 0 \<or> put_ok ra"
  shows "\<exists>w1 w2. do_exit others hook po cur status ru w = Some w1
    \<and> sys_wait4 put_ok sleeps p (int (tk_pid C)) sa options ra w1
       = Some (Inr \<lparr>wi_pid = tk_pid C, wi_status = (if tg_doing_group_exit G then tg_group_exit_code G else status), wi_sig = SIGCHLD,
                    wi_rusage = Some (rusage_add (tg_rusage G) ru)\<rparr>, w2)
    \<and> world_ok w2 \<and> pw_tasks w2 cur = None \<and> pw_groups w2 (tk_group C) = None \<and> slot_task (pw_pids w2 (tk_pid C)) = None
    \<and> (pid_empty (pw_pids w2 (tk_pid C)) \<longleftrightarrow> slot_left (tk_group C) (pw_pids w (tk_pid C)))"
  by (rule exit_then_wait_ok [OF assms])

theorem exit_then_wait_witness:
  "\<exists>t T w w1 w2 i. sys_fork roomy 0 first_world = Some (Inr (tk_pid T), w) \<and> pw_tasks w t = Some T
     \<and> do_exit (\<lambda>_. id) False False t 0x700 no_rusage w = Some w1
     \<and> sys_wait4 (\<lambda>_. True) [] 0 (int (tk_pid T)) 8 0 0 w1 = Some (Inr i, w2) \<and> wi_pid i = tk_pid T \<and> wi_status i = 0x700 \<and> pw_tasks w2 t = None"
proof -
  obtain t T G w where f: "sys_fork roomy 0 first_world = Some (Inr (tk_pid T), w)" "world_ok w" "running w t" "pw_tasks w t = Some T"
    "tk_parent T = Some 0" "t \<noteq> 0" "pw_groups w (tk_group T) = Some G" "tg_leader G = t" "tg_threads G = [t]" "tg_tty G = None"
    "\<not> tg_doing_group_exit G" "vfork_valid w T" "running w 0"
    using first_child by blast
  have "plain_wait 0 G" "session_alive G w" using f(10) by (simp_all add: plain_wait_def session_alive_def)
  from exit_then_wait [OF f(2,3,4,7,8,9,5) _ f(13) this(2) f(12) this(1), of 8 "\<lambda>_. True" 0 "\<lambda>_. id" False False "0x700" no_rusage "[]"] f(6,11)
  obtain w1 w2 where "do_exit (\<lambda>_. id) False False t 0x700 no_rusage w = Some w1"
    "sys_wait4 (\<lambda>_. True) [] 0 (int (tk_pid T)) 8 0 0 w1 = Some (Inr \<lparr>wi_pid = tk_pid T, wi_status = 0x700, wi_sig = SIGCHLD,
                    wi_rusage = Some (rusage_add (tg_rusage G) no_rusage)\<rparr>, w2)" "pw_tasks w2 t = None" by auto
  then show ?thesis using f(1,4)
    by (intro exI [of _ t] exI [of _ T] exI [of _ w] exI [of _ w1] exI [of _ w2]) auto
qed

section \<open>Process groups\<close>

text \<open>\<open>setpgid\<close> puts the group on the wrong list. When it moves a process to the existing process group of another number, the group takes
  the new process group id, but it is linked into the list of the process itself and not into that of the process group, where
  \<^verbatim>\<open>kill\<close> and terminals look for it.\<close>

lemma setpgid_wrong_list:
  assumes "world_ok w" "pw_tasks w t = Some T" "pw_groups w (tk_group T) = Some G" "pw_tasks w cur = Some C" "t = cur \<or> tk_parent T = Some cur"
    "pw_tasks w (tg_leader G) = Some L" "tg_sid G \<noteq> tk_pid L" "tg_pgid G \<noteq> pgid" "pgid \<noteq> tk_pid T" "0 < pgid" "pgid \<le> MAX_PID"
    "slot_pgroup (pw_pids w pgid) = g # gs" "pw_groups w g = Some F" "tg_sid F = tg_sid G" "tg_pgroup_link G \<noteq> Some pgid"
  shows "\<exists>w' G'. sys_setpgid cur (tk_pid T) pgid w = Some (Inr (), w') \<and> pw_groups w' (tk_group T) = Some G' \<and> tg_pgid G' = pgid
    \<and> tk_group T \<notin> set (slot_pgroup (pw_pids w' pgid)) \<and> tk_group T \<in> set (slot_pgroup (pw_pids w' (tk_pid T)))"
proof -
  have ok: "proc_ok w" "\<not> pw_locked w" using assms(1) by (simp_all add: ready_def)
  note i = ok(1) [unfolded proc_inv_def]
  have pid: "1 \<le> tk_pid T" "tk_pid T \<le> MAX_PID" "slot_task (pw_pids w (tk_pid T)) = Some t" using tablesD(1) [OF i tview_Some [OF assms(2)]] by simp_all
  obtain a where a: "tg_pgroup_link G = Some a" using tablesD(6) [OF i gview_Some [OF assms(3)]] by auto
  have "tk_group T \<in> set (slot_pgroup (pw_pids w pgid)) \<longleftrightarrow> (\<exists>g. gview w (tk_group T) = Some g \<and> gn_pgroup g = Some pgid)"
    using i unfolding tables_inv_def links_inv_def by blast
  then have n: "tk_group T \<notin> set (slot_pgroup (pw_pids w pgid))" using assms(3,15) by (simp add: gview_def)
  have p: "a \<noteq> pgid" "pid_get (tk_pid T) (w\<lparr>pw_locked := True\<rparr>) = Some (Some (tk_pid T))" "pid_get pgid (w\<lparr>pw_locked := True\<rparr>) = Some (Some pgid)"
    using a assms(11,12,15) pid(2,3) by (simp_all add: pid_get_small pid_empty_def)
  show ?thesis using assms(2-14) ok(2) pid(1,3) a n p
    by (auto simp: sys_setpgid_def setpgid_locked_def lock_pids_def unlink_pgroup_def link_pgroup_def Let_def)
qed

end
