(* ===== verification/Spec2Isabelle.thy ===== *)
theory Spec2Isabelle
  imports Log_Buffer Float80_Rounding Tlb Fd_Props Mount_Props Generic_Fs Pty_Props Vec_Pack Futex_Waits Tmpfs_Files Process_Props
begin

text \<open>
  A verification library for the user-mode Linux kernel and x86 emulator under \<^verbatim>\<open>src/\<close>. The program runs
  32-bit guest programs: \<^verbatim>\<open>emu/\<close> holds the state of the emulated processor, its floating point and its software
  TLB, \<^verbatim>\<open>asbestos/\<close> translates and runs guest code, \<^verbatim>\<open>kernel/\<close> implements processes, memory, signals and the
  system calls, \<^verbatim>\<open>fs/\<close> the file systems, descriptors and terminals, and \<^verbatim>\<open>util/\<close> small data structures. A
  guest access goes through the TLB (\<^verbatim>\<open>emu/tlb.c\<close>) to the page table (\<^verbatim>\<open>kernel/memory.c\<close>), which a fault or a system
  call of \<^verbatim>\<open>kernel/mmap.c\<close> changes; a system call reads its arguments with \<^verbatim>\<open>kernel/user.c\<close>, finds its file
  through the descriptor table (\<^verbatim>\<open>fs/fd.c\<close>) or by resolving a path (\<^verbatim>\<open>fs/path.c\<close>) against the mounts
  (\<^verbatim>\<open>fs/mount.c\<close>), and calls the operations of the file system or terminal found there; signals
  (\<^verbatim>\<open>kernel/signal.c\<close>) are queued by other system calls and by terminals and delivered on the way back to the guest.

  \<^bold>\<open>Theories and the code they model.\<close>
  \<^item> \<open>Ish_Prelude\<close>: the integer types of \<^verbatim>\<open>misc.h\<close>, \<open>size_t\<close> arithmetic with its wrap-around, \<open>memcpy\<close> with bounds,
    the error numbers of \<^verbatim>\<open>kernel/errno.h\<close>, and generic lemmas.
  \<^item> \<open>Fifo\<close> and \<open>Log_Buffer\<close>: the ring buffer \<^verbatim>\<open>util/fifo.c\<close> and the kernel log \<^verbatim>\<open>kernel/log.c\<close> on top of it.
  \<^item> \<open>Float80\<close>, \<open>Float80_Props\<close>, \<open>Float80_Rounding\<close>: software extended precision, \<^verbatim>\<open>emu/float80.c\<close>. \<open>Fpu\<close>,
    \<open>Fpu_Props\<close>: the lazily evaluated flags and the floating-point registers of \<^verbatim>\<open>emu/cpu.h\<close> and the instructions
    of \<^verbatim>\<open>emu/fpu.c\<close>. \<open>Vec\<close>, \<open>Vec_Props\<close>, \<open>Vec_Pack\<close>: the vector instructions of \<^verbatim>\<open>emu/vec.c\<close> and \<^verbatim>\<open>emu/mmx.c\<close>
    on registers as words and their lanes.
  \<^item> \<open>Memory\<close> with \<open>Page_Views\<close>, \<open>Memory_Props\<close>, \<open>Memory_Faults\<close>, \<open>Memory_Holes\<close>: page tables, the reference-counted
    backing objects, copy on write and faults of \<^verbatim>\<open>kernel/memory.c\<close>. \<open>Mmap\<close>, \<open>Mmap_Props\<close>: the memory system calls of
    \<^verbatim>\<open>kernel/mmap.c\<close>. \<open>User_Copy\<close>: \<^verbatim>\<open>kernel/user.c\<close>. \<open>Tlb\<close>: \<^verbatim>\<open>emu/tlb.c\<close>, against the interface \<open>translation\<close>
    that \<^verbatim>\<open>kernel/memory.c\<close> provides.
  \<^item> \<open>File_Lock\<close>: the record locks of \<^verbatim>\<open>fs/lock.c\<close>. \<open>Fd_Table\<close>, \<open>Fd_Props\<close>: open files and descriptor tables,
    \<^verbatim>\<open>fs/fd.c\<close>, with the bit set of \<^verbatim>\<open>util/bits.h\<close> behind the interface \<open>bit_array\<close>.
  \<^item> \<open>Mount\<close>, \<open>Mount_Props\<close>: the mount list, \<^verbatim>\<open>fs/mount.c\<close>, with the mount hook of \<^verbatim>\<open>fs/real.c\<close>. \<open>Path\<close>, \<open>Path_Props\<close>: path resolution, \<^verbatim>\<open>fs/path.c\<close>.
    \<open>Generic_Fs\<close>: the calls on paths of \<^verbatim>\<open>fs/generic.c\<close> and \<^verbatim>\<open>fs/stat.c\<close>, and the device tables of \<^verbatim>\<open>fs/dev.c\<close>.
  \<^item> \<open>Tmpfs\<close>, \<open>Tmpfs_Props\<close>, \<open>Tmpfs_Tree\<close>, \<open>Tmpfs_Files\<close>: the temporary file system, \<^verbatim>\<open>fs/tmp.c\<close>, as a heap of
    reference-counted entries and inodes, against walks along lists of names.
  \<^item> \<open>Signal\<close>, \<open>Signal_Props\<close>: \<^verbatim>\<open>kernel/signal.c\<close>. \<open>Futex\<close>, \<open>Futex_Props\<close>, \<open>Futex_Waits\<close>: \<^verbatim>\<open>kernel/futex.c\<close> with the
    interruptible wait of \<^verbatim>\<open>util/sync.c\<close>; all interleavings are the steps of \<open>futex_step\<close>.
  \<^item> \<open>Process\<close>: the table of process numbers, tasks, process groups and sessions, \<^verbatim>\<open>kernel/task.c\<close> and \<^verbatim>\<open>kernel/group.c\<close>.
    \<open>Process_Life\<close>: \<^verbatim>\<open>kernel/fork.c\<close> and the exit half of \<^verbatim>\<open>kernel/exit.c\<close>. \<open>Process_Wait\<close>: the wait half, and the first
    processes of \<^verbatim>\<open>kernel/init.c\<close>. \<open>Process_Inv\<close>: the invariant of the tables and its abstract steps; \<open>Process_Res\<close>: the counts of
    shared objects; \<open>Process_Clone\<close>, \<open>Process_Fork\<close>, \<open>Process_Exit\<close>, \<open>Process_Reap\<close>: what the operations do; \<open>Process_Props\<close>: the
    properties, with the first process and its child as the instance.
  \<^item> \<open>Tty\<close>, \<open>Tty_Props\<close>, \<open>Tty_Lines\<close>: the terminals of \<^verbatim>\<open>fs/tty.c\<close>. \<open>Pty\<close>, \<open>Pty_Props\<close>: their tables and the
    pseudoterminals of \<^verbatim>\<open>fs/pty.c\<close>.

  \<^bold>\<open>Correspondence.\<close> A C function is a definition of its name; a loop inside it is a recursive function named
  after what it does. A struct is a record, its integers are words of their width where they can wrap and natural
  numbers where the code only counts. An error is the left of a sum (\<open>errno\<close>); \<open>None\<close> is a step the C code has no
  defined result for (an access outside a buffer, through a null pointer or of a freed object, a failed assertion),
  or a call that is still waiting. Subtractions of \<open>size_t\<close> wrap where the code could get below zero. Objects that are shared and freed (backing objects, open files, terminals) live
  in a heap. Locks make an operation atomic; where the code waits or gives up a lock, an argument says what
  other threads do meanwhile. What the host does (allocation, files, the C library) is an argument.

  \<^bold>\<open>What the lemmas show.\<close>
  \<^item> Memory: a refreshed TLB answers as the page table does, except for pages whose flags a failed \<^verbatim>\<open>mprotect\<close> has
    replaced; after a fork each process keeps the bytes it had and
    writes its own copy; unmapping and destroying an address space keep the reference counts exact and free every
    object; the search for free pages is sound and complete; a copy from the guest returns the bytes that are mapped.
  \<^item> Files: path resolution with \<^verbatim>\<open>.\<close> and \<^verbatim>\<open>..\<close> agrees, on a tree without links and up to a length, with a reference on
    component lists that checks every directory it passes; with links it leaves the mount counts as they were; mounting and unmounting are inverse,
    whatever the file system's hook makes of the mount's source; a lock request produces the set of byte ranges POSIX
    asks for; descriptors are allocated lowest first, and fork, dup3 and exec keep the counts of open files. A new
    directory of the temporary file system adds one path to its tree and changes no other; what is written is read back.
  \<^item> Processor: collapsing the lazy flags changes no flag; the rotating register file is a stack; rounding shifts
    and integer conversions are exact; saving and restoring the floating-point state is the identity.
  \<^item> Vector instructions: saturating lanes are clamped integers, packing undoes unpacking.
  \<^item> Futexes: in every interleaving the reference counts are exact and no assertion fails; a wake-up takes the oldest
    sleepers, a requeue moves them in order.
  \<^item> Signals: pending bits and queue agree; delivery takes the unblocked signals; a return from a handler restores the
    interrupted state; a group is signalled as far as permissions go.
  \<^item> Processes: clone, exit and wait keep parents and children in agreement, the groups, their lists and the counts of shared objects consistent;
    a process of one thread that exits is reaped by its parent with its status; a free number is found whenever there is one.
  \<^item> Terminals: canonical input is a line editor, a read takes one line, a blocked reader sleeps until the newline
    notifies it and gets the line that is typed, no operation leaves the buffer or wraps a size, partners of a pty stay paired.
  \<^item> Several theorems state what the code does where that is not what it means to do: a write that reaches the other
    process after mprotect, a read in the last page, a mask that blocks \<^verbatim>\<open>SIGKILL\<close>, a link that overflows a buffer, a
    hang-up that does not wake, a failed clone that leaves a freed task in its group, and others; they are named after the effect.

  \<^bold>\<open>Bounds and fuel.\<close> Recursions are on lists, or on a counter with a measure. Path normalisation calls itself
  for every symbolic link and the code stops at five levels; the model counts the same levels, and between two
  links its loop shortens the path. Waiting operations take the list of what happens meanwhile, one event
  per wait; a terminal's reader or writer looks at the terminal again only when an event has notified its condition. Sizes are the code's: 4096-byte pages, \<open>0x100000\<close> pages, \<^verbatim>\<open>MAX_PATH\<close> 4096, 64 signals, 4096 ptys.

  \<^bold>\<open>Not modelled.\<close> The instruction decoder and translator (\<^verbatim>\<open>emu/decode.h\<close>, \<^verbatim>\<open>asbestos/\<close>) with its assembly, sockets, the file systems over the host and SQLite (\<^verbatim>\<open>fs/real.c\<close> but for its mount hook, \<^verbatim>\<open>fs/fake.c\<close>),
  \<^verbatim>\<open>fs/proc\<close>, polling, the program loader (\<^verbatim>\<open>kernel/exec.c\<close>), \<^verbatim>\<open>kernel/ptrace.c\<close> and \<^verbatim>\<open>kernel/time.c\<close> are not modelled; the iOS application, the tools, the port to the Linux kernel and the
  tests are outside the library's scope. Host system calls and pure I/O inside modelled files are arguments.
\<close>

end
